(* ===== verification/Prelude.thy ===== *)
theory Prelude
  imports Main "HOL-Library.Char_ord" "HOL-Library.List_Lexorder" "HOL-Library.Product_Lexorder"
    "HOL-Library.Multiset"
begin

text \<open>
  Shared vocabulary of the development.

  Python exceptions are values of \<open>py_error\<close>, and a function that may raise returns a
  \<open>'a result\<close> (\<open>Inl\<close> the exception, \<open>Inr\<close> the value).  Python's unbounded integers are
  \<open>int\<close>; identifiers, hashes and reason codes are \<open>string\<close>, ordered lexicographically by
  character as Python orders \<open>str\<close>.  The section on constrained strings states the
  \<open>StringConstraints\<close> patterns of \<open>src/contracts/models.py\<close>.  The remaining lemmas are the generic
  facts about result values, sorting and integer percentages (\<open>milli\<close> values, the range 0..1000
  used throughout the program) that the component theories share.
\<close>

section \<open>Collections of facts\<close>

named_theorems model_defs \<open>definitions unfolded by the component proofs\<close>
named_theorems result_simps \<open>simplification of result values\<close>

section \<open>Exceptions as values\<close>

datatype py_error =
    ValueError string
  | TypeError string
  | RuntimeError string
  | KeyError string
  | AttributeError string
  | ZeroDivisionError
  | ValidationError string
  | Raised string string

text \<open>
  \<open>ValidationError\<close> is the exception of the validation library, with the message of the validator that
  failed; \<open>Raised c m\<close> is the exception class \<open>c\<close> that the program declares, with message \<open>m\<close>.
\<close>

type_synonym 'a result = "py_error + 'a"

definition bind_result :: "'a result \<Rightarrow> ('a \<Rightarrow> 'b result) \<Rightarrow> 'b result" where
  "bind_result r f = (case r of Inl e \<Rightarrow> Inl e | Inr x \<Rightarrow> f x)"

definition require :: "bool \<Rightarrow> py_error \<Rightarrow> unit result" where
  "require b e = (if b then Inr () else Inl e)"

definition ok :: "'a result \<Rightarrow> bool" where
  "ok r = (case r of Inl _ \<Rightarrow> False | Inr _ \<Rightarrow> True)"

lemma bind_result_Inl [simp, result_simps]: "bind_result (Inl e) f = Inl e"
  and bind_result_Inr [simp, result_simps]: "bind_result (Inr x) f = f x"
  by (simp_all add: bind_result_def)

lemma bind_result_eq_Inr [result_simps]:
  "bind_result r f = Inr y \<longleftrightarrow> (\<exists>x. r = Inr x \<and> f x = Inr y)"
  by (cases r) auto

lemma bind_result_eq_Inl [result_simps]:
  "bind_result r f = Inl e \<longleftrightarrow> r = Inl e \<or> (\<exists>x. r = Inr x \<and> f x = Inl e)"
  by (cases r) auto

lemma bind_result_assoc: "bind_result (bind_result r f) g = bind_result r (\<lambda>x. bind_result (f x) g)"
  by (cases r) auto

lemma require_simps [simp, result_simps]:
  "require True e = Inr ()" "require False e = Inl e"
  by (simp_all add: require_def)

lemma require_eq_Inr [simp, result_simps]: "require b e = Inr u \<longleftrightarrow> b"
  by (simp add: require_def)

lemma require_eq_Inl [simp, result_simps]: "require b e = Inl e' \<longleftrightarrow> \<not> b \<and> e' = e"
  by (auto simp: require_def)

lemma ok_simps [simp, result_simps]: "ok (Inr x)" "\<not> ok (Inl e)"
  by (simp_all add: ok_def)

lemma ok_iff: "ok r \<longleftrightarrow> (\<exists>x. r = Inr x)"
  by (cases r) auto

lemma ok_bind_result: "ok (bind_result r f) \<longleftrightarrow> (\<exists>x. r = Inr x \<and> ok (f x))"
  by (cases r) auto

lemma ok_bind_simps [simp]:
  "ok (bind_result r (\<lambda>_. s)) \<longleftrightarrow> ok r \<and> ok s"
  "ok (bind_result r (\<lambda>x. Inr (g x))) \<longleftrightarrow> ok r"
  by (cases r; simp)+

lemma not_ok_iff: "\<not> ok r \<longleftrightarrow> (\<exists>e. r = Inl e)"
  by (cases r) auto

text \<open>A loop that maps a fallible function over a sequence and stops at the first exception.\<close>

fun map_result :: "('a \<Rightarrow> 'b result) \<Rightarrow> 'a list \<Rightarrow> 'b list result" where
  "map_result f [] = Inr []"
| "map_result f (x # xs) = bind_result (f x) (\<lambda>y. bind_result (map_result f xs) (\<lambda>ys. Inr (y # ys)))"

lemma map_result_cong [fundef_cong]:
  "xs = ys \<Longrightarrow> (\<And>x. x \<in> set ys \<Longrightarrow> f x = g x) \<Longrightarrow> map_result f xs = map_result g ys"
  by (induction ys arbitrary: xs) auto

lemma map_result_Inr_iff: "map_result f xs = Inr ys \<longleftrightarrow> list_all2 (\<lambda>x y. f x = Inr y) xs ys"
  by (induction xs arbitrary: ys) (auto simp: bind_result_eq_Inr list_all2_Cons1)

lemma map_result_Inr_length: "map_result f xs = Inr ys \<Longrightarrow> length ys = length xs"
  by (simp add: map_result_Inr_iff list_all2_lengthD)

lemma map_result_Inr_mem: "map_result f xs = Inr ys \<Longrightarrow> y \<in> set ys \<Longrightarrow> \<exists>x \<in> set xs. f x = Inr y"
  by (induction xs arbitrary: ys) (auto simp: bind_result_eq_Inr)

lemma map_result_total: "(\<And>x. x \<in> set xs \<Longrightarrow> f x = Inr (g x)) \<Longrightarrow> map_result f xs = Inr (map g xs)"
  by (induction xs) auto

lemma map_result_Inr_set: "map_result f xs = Inr ys \<Longrightarrow> set ys = {y. \<exists>x \<in> set xs. f x = Inr y}"
  by (induction xs arbitrary: ys) (auto simp: bind_result_eq_Inr)

lemma ok_map_result: "ok (map_result f xs) \<longleftrightarrow> (\<forall>x \<in> set xs. ok (f x))"
  by (induction xs) (auto simp: ok_iff bind_result_eq_Inr)

lemma map_result_same_error:
  assumes "\<And>x e. x \<in> set xs \<Longrightarrow> f x = Inl e \<Longrightarrow> e = err" and "\<not> ok (map_result f xs)"
  shows "map_result f xs = Inl err"
  using assms
proof (induction xs)
  case (Cons x xs)
  show ?case
  proof (cases "f x")
    case (Inl e)
    moreover have "e = err" by (rule Cons.prems(1) [OF _ Inl]) simp
    ultimately show ?thesis by simp
  next
    case (Inr y)
    with Cons.prems(2) have "\<not> ok (map_result f xs)" by simp
    with Cons.IH Cons.prems(1) have "map_result f xs = Inl err" by (meson list.set_intros(2))
    with Inr show ?thesis by simp
  qed
qed simp

section \<open>Constrained strings\<close>

definition is_digit :: "char \<Rightarrow> bool" where
  "is_digit c \<longleftrightarrow> CHR ''0'' \<le> c \<and> c \<le> CHR ''9''"

definition is_lower :: "char \<Rightarrow> bool" where
  "is_lower c \<longleftrightarrow> CHR ''a'' \<le> c \<and> c \<le> CHR ''z''"

definition is_upper :: "char \<Rightarrow> bool" where
  "is_upper c \<longleftrightarrow> CHR ''A'' \<le> c \<and> c \<le> CHR ''Z''"

definition is_hex :: "char \<Rightarrow> bool" where
  "is_hex c \<longleftrightarrow> is_digit c \<or> (CHR ''a'' \<le> c \<and> c \<le> CHR ''f'')"

fun match_head_tail :: "(char \<Rightarrow> bool) \<Rightarrow> (char \<Rightarrow> bool) \<Rightarrow> string \<Rightarrow> bool" where
  "match_head_tail p q [] = False"
| "match_head_tail p q (c # cs) = (p c \<and> list_all q cs)"

definition OpaqueId :: "string \<Rightarrow> bool" where
  "OpaqueId s \<longleftrightarrow> 1 \<le> length s \<and> length s \<le> 160 \<and>
     match_head_tail (\<lambda>c. is_upper c \<or> is_lower c \<or> is_digit c)
       (\<lambda>c. is_upper c \<or> is_lower c \<or> is_digit c \<or> c \<in> set ''._:@-'') s"

definition ReasonCode :: "string \<Rightarrow> bool" where
  "ReasonCode s \<longleftrightarrow> 1 \<le> length s \<and> length s \<le> 160 \<and>
     match_head_tail (\<lambda>c. is_lower c \<or> is_digit c)
       (\<lambda>c. is_lower c \<or> is_digit c \<or> c \<in> set ''._:-'') s"

definition Sha256 :: "string \<Rightarrow> bool" where
  "Sha256 s \<longleftrightarrow> length s = 64 \<and> list_all is_hex s"

definition prefixed_sha256 :: "string \<Rightarrow> string \<Rightarrow> bool" where
  "prefixed_sha256 pre s \<longleftrightarrow> take (length pre) s = pre \<and> Sha256 (drop (length pre) s)"

definition RequestId :: "string \<Rightarrow> bool" where
  "RequestId s \<longleftrightarrow> prefixed_sha256 ''req_'' s"

definition RunId :: "string \<Rightarrow> bool" where
  "RunId s \<longleftrightarrow> prefixed_sha256 ''run_'' s"

lemma OpaqueId_nonempty: "OpaqueId s \<Longrightarrow> s \<noteq> []"
  by (auto simp: OpaqueId_def)

lemma Sha256_nonempty: "Sha256 s \<Longrightarrow> s \<noteq> []"
  by (auto simp: Sha256_def)

section \<open>Text\<close>

text \<open>
  \<open>str.lower\<close> and \<open>str.casefold\<close> on ASCII text (the failure kinds of the repair policy, and node
  identifiers, which the impact contract restricts to ASCII), \<open>" ".join\<close> and the substring test
  \<open>word in text\<close>.
\<close>

definition ascii_lower :: "string \<Rightarrow> string" where
  "ascii_lower s = map (\<lambda>c. if is_upper c then char_of (of_char c + 32 :: nat) else c) s"

fun join_space :: "string list \<Rightarrow> string" where
  "join_space [] = []"
| "join_space [s] = s"
| "join_space (s # ss) = s @ '' '' @ join_space ss"

fun contains_text :: "string \<Rightarrow> string \<Rightarrow> bool" where
  "contains_text p [] = (p = [])"
| "contains_text p (c # cs) = (take (length p) (c # cs) = p \<or> contains_text p cs)"

section \<open>Optional strings\<close>

text \<open>Python's truth value of a \<open>str | None\<close>: absent and empty are both false.\<close>

fun truthy :: "string option \<Rightarrow> bool" where
  "truthy None = False"
| "truthy (Some s) = (s \<noteq> [])"

fun opt_ok :: "('a \<Rightarrow> bool) \<Rightarrow> 'a option \<Rightarrow> bool" where
  "opt_ok p None = True"
| "opt_ok p (Some x) = p x"

section \<open>Integer percentages\<close>

abbreviation (input) milli :: "int \<Rightarrow> bool" where
  "milli x \<equiv> 0 \<le> x \<and> x \<le> 1000"

lemma milli_mult_div:
  fixes x y :: int
  assumes "milli x" "milli y"
  shows "milli (x * y div 1000)" and "x * y div 1000 \<le> x" and "x * y div 1000 \<le> y"
proof -
  have "x * y \<le> x * 1000" "x * y \<le> 1000 * y"
    using assms by (auto intro: mult_left_mono mult_right_mono)
  then have a: "x * y div 1000 \<le> x" and b: "x * y div 1000 \<le> y"
    by (auto dest: zdiv_mono1 [where b = 1000])
  have "0 \<le> x * y div 1000"
    using assms by (simp add: pos_imp_zdiv_nonneg_iff)
  with a b assms show "milli (x * y div 1000)" "x * y div 1000 \<le> x" "x * y div 1000 \<le> y"
    by auto
qed

lemma div_le_of_le_mult:
  fixes a b c :: int
  assumes "0 < b" "a \<le> c * b"
  shows "a div b \<le> c"
proof -
  have "a div b \<le> (c * b) div b"
    using assms by (intro zdiv_mono1) auto
  with assms(1) show ?thesis by simp
qed

section \<open>Sorting and duplicate removal\<close>

text \<open>
  \<open>sorted(set(xs))\<close> of a list of strings, and \<open>list(dict.fromkeys(xs))\<close>, which keeps the first
  occurrence of every element.
\<close>

definition sorted_set :: "'a::linorder list \<Rightarrow> 'a list" where
  "sorted_set xs = sort (remdups xs)"

lemma set_sorted_set [simp]: "set (sorted_set xs) = set xs"
  by (simp add: sorted_set_def)

lemma distinct_sorted_set [simp]: "distinct (sorted_set xs)"
  by (simp add: sorted_set_def)

lemma sorted_sorted_set [simp]: "sorted (sorted_set xs)"
  by (simp add: sorted_set_def)

lemma sorted_set_eq_iff: "sorted_set xs = sorted_set ys \<longleftrightarrow> set xs = set ys"
proof
  assume "sorted_set xs = sorted_set ys"
  then have "set (sorted_set xs) = set (sorted_set ys)" by simp
  then show "set xs = set ys" by simp
next
  assume "set xs = set ys"
  then show "sorted_set xs = sorted_set ys"
    by (intro sorted_distinct_set_unique) auto
qed

definition dict_fromkeys :: "'a list \<Rightarrow> 'a list" where
  "dict_fromkeys xs = rev (remdups (rev xs))"

lemma set_dict_fromkeys [simp]: "set (dict_fromkeys xs) = set xs"
  by (simp add: dict_fromkeys_def)

lemma distinct_dict_fromkeys [simp]: "distinct (dict_fromkeys xs)"
  by (simp add: dict_fromkeys_def)

lemma dict_fromkeys_Nil_iff [simp]: "dict_fromkeys xs = [] \<longleftrightarrow> xs = []"
  by (metis set_dict_fromkeys set_empty)

lemma sort_key_eq_Nil_iff [simp]: "sort_key f xs = [] \<longleftrightarrow> xs = []"
  by (metis set_empty set_sort)

lemma map_sort_key: "map f (sort_key f xs) = sort (map f xs)"
  by (rule properties_for_sort [symmetric]) simp_all

lemma sort_key_unique:
  assumes "mset xs = mset ys" and "inj_on f (set xs)"
  shows "sort_key f xs = sort_key f ys"
proof -
  have sets: "set xs = set ys"
    using assms(1) by (rule mset_eq_setD)
  have "mset (map f xs) = mset (map f ys)"
    using assms(1) by simp
  then have "map f (sort_key f xs) = map f (sort_key f ys)"
    by (simp add: map_sort_key properties_for_sort)
  with assms(2) sets show ?thesis
    by (simp add: inj_on_map_eq_map)
qed

text \<open>
  \<open>unique = {f(x): x for x in xs}\<close> followed by \<open>tuple(unique[key] for key in sorted(unique))\<close>: a dict
  comprehension keeps the last value of a key.
\<close>

definition dict_values :: "('a \<Rightarrow> 'k::linorder) \<Rightarrow> 'a list \<Rightarrow> 'a list" where
  "dict_values f xs =
     (let unique = map_of (rev (map (\<lambda>x. (f x, x)) xs))
      in map (\<lambda>k. the (unique k)) (sorted_set (map f xs)))"

lemma dict_lookup:
  assumes "k \<in> f ` set xs"
  shows "\<exists>x. map_of (rev (map (\<lambda>x. (f x, x)) xs)) k = Some x \<and> x \<in> set xs \<and> f x = k"
proof -
  let ?ps = "rev (map (\<lambda>x. (f x, x)) xs)"
  have "k \<in> fst ` set ?ps" using assms by force
  then obtain x where x: "map_of ?ps k = Some x"
    by (metis map_of_eq_None_iff not_None_eq)
  then have "(k, x) \<in> set ?ps" by (rule map_of_SomeD)
  with x show ?thesis by auto
qed

lemma dict_lookup_the:
  assumes "k \<in> f ` set xs"
  shows "the (map_of (rev (map (\<lambda>x. (f x, x)) xs)) k) \<in> set xs" "f (the (map_of (rev (map (\<lambda>x. (f x, x)) xs)) k)) = k"
  using dict_lookup [OF assms] by auto

lemma dict_values_keys: "map f (dict_values f xs) = sorted_set (map f xs)"
proof -
  have "map (\<lambda>k. f (the (map_of (rev (map (\<lambda>x. (f x, x)) xs)) k))) (sorted_set (map f xs)) = sorted_set (map f xs)"
    by (rule map_idI) (rule dict_lookup_the(2), simp)
  then show ?thesis by (simp add: dict_values_def Let_def comp_def)
qed

lemma dict_values_subset: "set (dict_values f xs) \<subseteq> set xs"
  by (auto simp: dict_values_def Let_def intro!: dict_lookup_the(1))

lemma dict_values_set:
  assumes "inj_on f (set xs)"
  shows "set (dict_values f xs) = set xs"
proof
  show "set xs \<subseteq> set (dict_values f xs)"
  proof
    fix x assume x: "x \<in> set xs"
    then have "f x \<in> set (map f (dict_values f xs))" by (simp add: dict_values_keys)
    then obtain y where y: "y \<in> set (dict_values f xs)" "f y = f x" by auto
    with dict_values_subset [of f xs] assms x have "y = x" by (auto dest: inj_onD)
    with y(1) show "x \<in> set (dict_values f xs)" by simp
  qed
qed (rule dict_values_subset)

lemma dict_values_cong_set:
  assumes "set ys = set xs" and "inj_on f (set xs)"
  shows "dict_values f ys = dict_values f xs"
proof -
  have "map f (dict_values f ys) = map f (dict_values f xs)"
    using assms(1) by (simp add: dict_values_keys sorted_set_eq_iff)
  moreover have "set (dict_values f ys) \<union> set (dict_values f xs) = set xs"
    using assms by (simp add: dict_values_set)
  ultimately show ?thesis using assms(2) by (metis map_inj_on)
qed

lemma dict_values_fixpoint:
  assumes "sorted (map f xs)" "distinct (map f xs)"
  shows "dict_values f xs = xs"
proof -
  have keys: "sorted_set (map f xs) = map f xs"
    using assms by (intro sorted_distinct_set_unique) simp_all
  have "map (\<lambda>x. the (map_of (rev (map (\<lambda>x. (f x, x)) xs)) (f x))) xs = xs"
  proof (rule map_idI)
    fix x assume x: "x \<in> set xs"
    then have "the (map_of (rev (map (\<lambda>x. (f x, x)) xs)) (f x)) \<in> set xs"
      "f (the (map_of (rev (map (\<lambda>x. (f x, x)) xs)) (f x))) = f x"
      by (auto intro: dict_lookup_the)
    with assms(2) x show "the (map_of (rev (map (\<lambda>x. (f x, x)) xs)) (f x)) = x"
      unfolding distinct_map by (metis inj_onD)
  qed
  then show ?thesis by (simp add: dict_values_def Let_def keys comp_def)
qed

lemma sorted_set_strict: "sorted_wrt (<) (sorted_set xs)"
  by (simp add: sorted_set_def strict_sorted_iff)

section \<open>Dictionaries with insertion order\<close>

text \<open>\<open>d[k] = v\<close> on a dict given as its items in insertion order.\<close>

fun dict_set :: "'k \<Rightarrow> 'v \<Rightarrow> ('k \<times> 'v) list \<Rightarrow> ('k \<times> 'v) list" where
  "dict_set k v [] = [(k, v)]"
| "dict_set k v ((k', w) # d) = (if k' = k then (k', v) # d else (k', w) # dict_set k v d)"

lemma map_of_dict_set: "map_of (dict_set k v d) = (map_of d)(k \<mapsto> v)"
  by (induction k v d rule: dict_set.induct) auto

lemma dict_set_fresh: "k \<notin> set (map fst d) \<Longrightarrow> dict_set k v d = d @ [(k, v)]"
  by (induction k v d rule: dict_set.induct) auto

lemma keys_dict_set: "set (map fst (dict_set k v d)) = insert k (set (map fst d))"
  by (induction k v d rule: dict_set.induct) auto

lemma distinct_dict_set: "distinct (map fst d) \<Longrightarrow> distinct (map fst (dict_set k v d))"
proof (induction k v d rule: dict_set.induct)
  case (2 k v k' w d)
  then show ?case using keys_dict_set [of k v d] by auto
qed simp

end
