(* ===== verification/Canonical.thy ===== *)
theory Canonical
  imports Prelude
begin

text \<open>
  Canonical JSON (\<open>src/contracts/canonical.py\<close>): the byte string every hash and signature of the
  gateway is computed over.  A Python value is a \<open>pyval\<close>, a Python \<open>str\<close> a list of code points
  (\<open>ustring\<close>), a normalised value a \<open>json\<close>, and the output of \<open>json.dumps(...).encode("utf-8")\<close> a
  list of bytes.  SHA-256 itself is a parameter \<open>sha256_hex\<close> of every definition that hashes
  (\<open>hashlib.sha256(...).hexdigest()\<close>).

  Shown here: when normalisation raises; that the bytes do not depend on the order in which a
  mapping was filled; and that the encoding is injective, so two values with the same bytes have
  the same normal form.
\<close>

section \<open>Values\<close>

type_synonym ustring = "nat list"

datatype pykey = KStr ustring | KNonStr

datatype pyval =
    PNone
  | PBool bool
  | PInt int
  | PFloat
  | PStr ustring
  | PBytes "nat list"
  | PMapping "(pykey \<times> pyval) list"
  | PSequence "pyval list"
  | PModel "(pykey \<times> pyval) list"
  | PUnsupported string

datatype json =
    JNull
  | JBool bool
  | JInt int
  | JStr ustring
  | JArr "json list"
  | JObj "(ustring \<times> json) list"

definition ustr :: "string \<Rightarrow> ustring" where
  "ustr s = map of_char s"

definition MAX_SAFE_INTEGER :: int where
  "MAX_SAFE_INTEGER = 9007199254740991"

section \<open>Normalisation\<close>

definition surrogate :: "nat \<Rightarrow> bool" where
  "surrogate c \<longleftrightarrow> 55296 \<le> c \<and> c \<le> 57343"

definition utf16_unit :: "nat \<Rightarrow> nat list" where
  "utf16_unit c =
     (if c < 65536 then [c div 256, c mod 256]
      else let hi = 55296 + (c - 65536) div 1024; lo = 56320 + (c - 65536) mod 1024
           in [hi div 256, hi mod 256, lo div 256, lo mod 256])"

definition utf16_be :: "ustring \<Rightarrow> nat list" where
  "utf16_be s = concat (map utf16_unit s)"

definition utf16_sort_key :: "ustring \<Rightarrow> nat list result" where
  "utf16_sort_key s =
     (if list_ex surrogate s
      then Inl (ValueError ''canonical JSON strings may not contain lone surrogates'')
      else Inr (utf16_be s))"

fun key_str :: "pykey \<Rightarrow> ustring" where
  "key_str (KStr s) = s"
| "key_str KNonStr = []"

definition canonical_mapping :: "(pykey \<times> json result) list \<Rightarrow> json result" where
  "canonical_mapping items =
     (if list_ex (\<lambda>(k, r). k = KNonStr) items
      then Inl (TypeError ''canonical JSON object keys must be strings'')
      else bind_result (map_result (\<lambda>(k, r). utf16_sort_key (key_str k)) items) (\<lambda>_.
           bind_result
             (map_result (\<lambda>(k, r). bind_result r (\<lambda>j. Inr (key_str k, j)))
               (sort_key (\<lambda>(k, r). utf16_be (key_str k)) items))
             (\<lambda>kvs. Inr (JObj kvs))))"

fun canonical_value :: "pyval \<Rightarrow> json result" where
  "canonical_value PNone = Inr JNull"
| "canonical_value (PBool b) = Inr (JBool b)"
| "canonical_value (PStr s) = bind_result (utf16_sort_key s) (\<lambda>_. Inr (JStr s))"
| "canonical_value (PInt i) =
     (if - MAX_SAFE_INTEGER \<le> i \<and> i \<le> MAX_SAFE_INTEGER then Inr (JInt i)
      else Inl (ValueError ''integer is outside the interoperable JSON range''))"
| "canonical_value PFloat =
     Inl (TypeError ''floating-point values are forbidden in signed gateway contracts'')"
| "canonical_value (PMapping items) =
     canonical_mapping (map (\<lambda>(k, v). (k, canonical_value v)) items)"
| "canonical_value (PModel items) =
     canonical_mapping (map (\<lambda>(k, v). (k, canonical_value v)) items)"
| "canonical_value (PSequence xs) =
     bind_result (map_result canonical_value xs) (\<lambda>js. Inr (JArr js))"
| "canonical_value (PBytes bs) = Inl (TypeError ''unsupported canonical JSON value: bytes'')"
| "canonical_value (PUnsupported n) = Inl (TypeError (''unsupported canonical JSON value: '' @ n))"

section \<open>Serialisation: json.dumps with separators and ensure_ascii=False\<close>

definition hex_digit :: "nat \<Rightarrow> nat" where
  "hex_digit d = (if d < 10 then 48 + d else 87 + d)"

definition escape_char :: "nat \<Rightarrow> nat list" where
  "escape_char c =
     (if c = 34 then [92, 34]
      else if c = 92 then [92, 92]
      else if c = 8 then [92, 98]
      else if c = 12 then [92, 102]
      else if c = 10 then [92, 110]
      else if c = 13 then [92, 114]
      else if c = 9 then [92, 116]
      else if c < 32 then [92, 117, 48, 48, hex_digit (c div 16), hex_digit (c mod 16)]
      else [c])"

definition dumps_str :: "ustring \<Rightarrow> ustring" where
  "dumps_str s = [34] @ concat (map escape_char s) @ [34]"

fun dumps_nat :: "nat \<Rightarrow> ustring" where
  "dumps_nat n = (if n < 10 then [48 + n] else dumps_nat (n div 10) @ [48 + n mod 10])"

declare dumps_nat.simps [simp del]

definition dumps_int :: "int \<Rightarrow> ustring" where
  "dumps_int i = (if i < 0 then 45 # dumps_nat (nat (- i)) else dumps_nat (nat i))"

fun comma_join :: "ustring list \<Rightarrow> ustring" where
  "comma_join [] = []"
| "comma_join [x] = x"
| "comma_join (x # xs) = x @ [44] @ comma_join xs"

fun dumps :: "json \<Rightarrow> ustring" where
  "dumps JNull = [110, 117, 108, 108]"
| "dumps (JBool b) = (if b then [116, 114, 117, 101] else [102, 97, 108, 115, 101])"
| "dumps (JInt i) = dumps_int i"
| "dumps (JStr s) = dumps_str s"
| "dumps (JArr xs) = [91] @ comma_join (map dumps xs) @ [93]"
| "dumps (JObj kvs) =
     [123] @ comma_join (map (\<lambda>(k, v). dumps_str k @ [58] @ dumps v) kvs) @ [125]"

definition utf8_unit :: "nat \<Rightarrow> nat list" where
  "utf8_unit c =
     (if c < 128 then [c]
      else if c < 2048 then [192 + c div 64, 128 + c mod 64]
      else if c < 65536 then [224 + c div 4096, 128 + c div 64 mod 64, 128 + c mod 64]
      else [240 + c div 262144, 128 + c div 4096 mod 64, 128 + c div 64 mod 64, 128 + c mod 64])"

definition utf8 :: "ustring \<Rightarrow> nat list" where
  "utf8 s = concat (map utf8_unit s)"

definition canonical_json_bytes :: "pyval \<Rightarrow> nat list result" where
  "canonical_json_bytes v = bind_result (canonical_value v) (\<lambda>j. Inr (utf8 (dumps j)))"

definition canonical_sha256 :: "(nat list \<Rightarrow> string) \<Rightarrow> pyval \<Rightarrow> string result" where
  "canonical_sha256 sha256_hex v = bind_result (canonical_json_bytes v) (\<lambda>bs. Inr (sha256_hex bs))"

section \<open>Well-formed Python strings and mappings\<close>

text \<open>
  What Python guarantees of the values: code points are below \<open>0x110000\<close> and the keys of a
  mapping are pairwise distinct.
\<close>

definition valid_str :: "ustring \<Rightarrow> bool" where
  "valid_str s \<longleftrightarrow> list_all (\<lambda>c. c < 1114112) s"

fun valid_json :: "json \<Rightarrow> bool" where
  "valid_json (JStr s) = valid_str s"
| "valid_json (JArr xs) = list_all valid_json xs"
| "valid_json (JObj kvs) = list_all (\<lambda>(k, v). valid_str k \<and> valid_json v) kvs"
| "valid_json _ = True"

fun py_wf :: "pyval \<Rightarrow> bool" where
  "py_wf (PStr s) = valid_str s"
| "py_wf (PMapping items) =
     (distinct (map fst items) \<and> list_all (\<lambda>(k, v). valid_str (key_str k) \<and> py_wf v) items)"
| "py_wf (PModel items) =
     (distinct (map fst items) \<and> list_all (\<lambda>(k, v). valid_str (key_str k) \<and> py_wf v) items)"
| "py_wf (PSequence xs) = list_all py_wf xs"
| "py_wf _ = True"

text \<open>The JSON subset the serialiser accepts.\<close>

fun representable :: "pyval \<Rightarrow> bool" where
  "representable PNone = True"
| "representable (PBool b) = True"
| "representable (PInt i) = (- MAX_SAFE_INTEGER \<le> i \<and> i \<le> MAX_SAFE_INTEGER)"
| "representable PFloat = False"
| "representable (PStr s) = (\<not> list_ex surrogate s)"
| "representable (PBytes bs) = False"
| "representable (PMapping items) =
     list_all (\<lambda>(k, v). k \<noteq> KNonStr \<and> \<not> list_ex surrogate (key_str k) \<and> representable v) items"
| "representable (PModel items) =
     list_all (\<lambda>(k, v). k \<noteq> KNonStr \<and> \<not> list_ex surrogate (key_str k) \<and> representable v) items"
| "representable (PSequence xs) = list_all representable xs"
| "representable (PUnsupported n) = False"

section \<open>Prefix codes\<close>

text \<open>
  The three character encodings of the serialiser (UTF-16 sort keys, JSON escapes, UTF-8) are
  prefix codes: what was written for one character determines it and where the next one starts.
  The interface below states this once; each encoding is an interpretation.
\<close>

locale prefix_code =
  fixes enc :: "'a \<Rightarrow> nat list"
    and valid :: "'a \<Rightarrow> bool"
  assumes enc_nonempty: "enc c \<noteq> []"
    and enc_delimits: "valid c \<Longrightarrow> valid d \<Longrightarrow> enc c @ x = enc d @ y \<Longrightarrow> c = d \<and> x = y"
begin

lemma concat_map_inj:
  "list_all valid s \<Longrightarrow> list_all valid t \<Longrightarrow> concat (map enc s) = concat (map enc t) \<Longrightarrow> s = t"
proof (induction s arbitrary: t)
  case Nil
  then show ?case by (cases t) (auto simp: enc_nonempty)
next
  case (Cons c s)
  from Cons.prems(3) have "t \<noteq> []" by (auto simp: enc_nonempty)
  then obtain d t' where t: "t = d # t'" by (cases t) auto
  with Cons.prems have "c = d \<and> concat (map enc s) = concat (map enc t')"
    by (intro enc_delimits) auto
  with Cons.IH [of t'] Cons.prems t show ?case by simp
qed

lemma concat_map_terminated:
  assumes "\<And>c. hd (enc c) \<noteq> z"
  shows "list_all valid s \<Longrightarrow> list_all valid t \<Longrightarrow>
    concat (map enc s) @ z # x = concat (map enc t) @ z # y \<Longrightarrow> s = t \<and> x = y"
proof (induction s arbitrary: t)
  case Nil
  show ?case
  proof (cases t)
    case (Cons d t')
    with Nil have "enc d @ concat (map enc t') @ z # y = z # x" by simp
    then have "hd (enc d) = z" using enc_nonempty [of d] by (cases "enc d") auto
    with assms show ?thesis by blast
  qed (use Nil in simp)
next
  case (Cons c s)
  have "t \<noteq> []"
  proof
    assume "t = []"
    with Cons.prems(3) have "enc c @ concat (map enc s) @ z # x = z # y" by simp
    then have "hd (enc c) = z" using enc_nonempty [of c] by (cases "enc c") auto
    with assms show False by blast
  qed
  then obtain d t' where t: "t = d # t'" by (cases t) auto
  with Cons.prems have "c = d \<and> concat (map enc s) @ z # x = concat (map enc t') @ z # y"
    by (intro enc_delimits) auto
  with Cons.IH [of t'] Cons.prems t show ?case by simp
qed

end

lemma surrogate_lead_byte:
  fixes c q :: nat
  assumes "c div 256 = (55296 + q) div 256" "q < 1024"
  shows "surrogate c"
proof -
  have "55296 div 256 \<le> (55296 + q) div 256" by (rule div_le_mono) simp
  moreover have "(55296 + q) div 256 \<le> 56319 div 256" using assms(2) by (intro div_le_mono) simp
  ultimately have "216 \<le> c div 256" "c div 256 \<le> 219" using assms(1) by simp_all
  moreover have "c = 256 * (c div 256) + c mod 256" "c mod 256 < 256" by simp_all
  ultimately show ?thesis unfolding surrogate_def by linarith
qed

lemma utf16_unit_delimits:
  assumes "\<not> surrogate c \<and> c < 1114112" "\<not> surrogate d \<and> d < 1114112"
    and "utf16_unit c @ x = utf16_unit d @ y"
  shows "c = d \<and> x = y"
proof -
  have *: "a = b" if "a div m = b div m" "a mod m = b mod m" for a b m :: nat
    using that by (metis div_mult_mod_eq)
  show ?thesis
  proof (cases "c < 65536"; cases "d < 65536")
    assume "c < 65536" "d < 65536"
    with assms(3) have "c div 256 = d div 256" "c mod 256 = d mod 256" "x = y"
      by (simp_all add: utf16_unit_def)
    with * [of c 256 d] show ?thesis by simp
  next
    assume c: "c < 65536" and d: "\<not> d < 65536"
    with assms(3) have "c div 256 = (55296 + (d - 65536) div 1024) div 256"
      by (simp add: utf16_unit_def Let_def)
    moreover have "(d - 65536) div 1024 < 1024" using assms(2) by auto
    ultimately have "surrogate c" by (rule surrogate_lead_byte)
    with assms(1) show ?thesis by simp
  next
    assume c: "\<not> c < 65536" and d: "d < 65536"
    with assms(3) have "d div 256 = (55296 + (c - 65536) div 1024) div 256"
      by (simp add: utf16_unit_def Let_def)
    moreover have "(c - 65536) div 1024 < 1024" using assms(1) by auto
    ultimately have "surrogate d" by (rule surrogate_lead_byte)
    with assms(2) show ?thesis by simp
  next
    assume c: "\<not> c < 65536" and d: "\<not> d < 65536"
    define hc hd' where h: "hc = 55296 + (c - 65536) div 1024" "hd' = 55296 + (d - 65536) div 1024"
    define lc ld where l: "lc = 56320 + (c - 65536) mod 1024" "ld = 56320 + (d - 65536) mod 1024"
    have "utf16_unit c = [hc div 256, hc mod 256, lc div 256, lc mod 256]"
      and "utf16_unit d = [hd' div 256, hd' mod 256, ld div 256, ld mod 256]"
      using c d by (simp_all add: utf16_unit_def Let_def h l)
    with assms(3) have eqs: "hc div 256 = hd' div 256" "hc mod 256 = hd' mod 256"
        "lc div 256 = ld div 256" "lc mod 256 = ld mod 256" and xy: "x = y"
      by simp_all
    have "hc = hd'" "lc = ld" using eqs by (metis *)+
    then have "(c - 65536) div 1024 = (d - 65536) div 1024" "(c - 65536) mod 1024 = (d - 65536) mod 1024"
      unfolding h l by (simp_all only: add_left_cancel)
    then have "c - 65536 = d - 65536" by (rule *)
    with c d xy show ?thesis by auto
  qed
qed

interpretation utf16: prefix_code utf16_unit "\<lambda>c. \<not> surrogate c \<and> c < 1114112"
proof unfold_locales
  show "utf16_unit c \<noteq> []" for c by (simp add: utf16_unit_def Let_def)
qed (rule utf16_unit_delimits)

lemma utf8_unit_delimits:
  assumes "c < 1114112" "d < 1114112" and "utf8_unit c @ x = utf8_unit d @ y"
  shows "c = d \<and> x = y"
proof -
  have lead: "hd (utf8_unit c) = hd (utf8_unit d)"
    using assms(3) by (metis hd_append2 list.distinct(1) utf8_unit_def)
  consider "c < 128" | "128 \<le> c" "c < 2048" | "2048 \<le> c" "c < 65536" | "65536 \<le> c" by linarith
  then show ?thesis
  proof cases
    case 1
    with lead have "d < 128" by (auto simp: utf8_unit_def split: if_splits)
    with 1 assms(3) show ?thesis by (simp add: utf8_unit_def)
  next
    case 2
    with lead have "128 \<le> d \<and> d < 2048" by (auto simp: utf8_unit_def split: if_splits)
    with 2 assms(3) have "c div 64 = d div 64" "c mod 64 = d mod 64" "x = y"
      by (simp_all add: utf8_unit_def)
    then show ?thesis by (metis div_mult_mod_eq)
  next
    case 3
    with lead assms have "2048 \<le> d \<and> d < 65536" by (auto simp: utf8_unit_def split: if_splits)
    with 3 assms(3) have "c div 64 div 64 = d div 64 div 64" "c div 64 mod 64 = d div 64 mod 64"
      "c mod 64 = d mod 64" "x = y"
      by (simp_all add: utf8_unit_def flip: div_mult2_eq)
    then show ?thesis by (metis div_mult_mod_eq)
  next
    case 4
    with lead assms have "65536 \<le> d" by (auto simp: utf8_unit_def split: if_splits)
    with 4 assms(3) have "c div 64 div 64 div 64 = d div 64 div 64 div 64"
      "c div 64 div 64 mod 64 = d div 64 div 64 mod 64"
      "c div 64 mod 64 = d div 64 mod 64" "c mod 64 = d mod 64" "x = y"
      by (simp_all add: utf8_unit_def flip: div_mult2_eq)
    then show ?thesis by (metis div_mult_mod_eq)
  qed
qed

interpretation utf8: prefix_code utf8_unit "\<lambda>c. c < 1114112"
proof unfold_locales
  show "utf8_unit c \<noteq> []" for c by (simp add: utf8_unit_def)
qed (rule utf8_unit_delimits)

definition hex_value :: "nat \<Rightarrow> nat" where
  "hex_value h = (if h < 87 then h - 48 else h - 87)"

definition unescape :: "nat list \<Rightarrow> nat \<times> nat list" where
  "unescape xs =
     (if hd xs \<noteq> 92 then (hd xs, tl xs)
      else if xs ! 1 = 117 then (16 * hex_value (xs ! 4) + hex_value (xs ! 5), drop 6 xs)
      else (the (map_of [(34, 34), (92, 92), (98, 8), (102, 12), (110, 10), (114, 13), (116, 9)] (xs ! 1)),
            drop 2 xs))"

lemma hex_value_digit: "d < 16 \<Longrightarrow> hex_value (hex_digit d) = d"
  by (auto simp: hex_value_def hex_digit_def)

lemma unescape_escape_char: "unescape (escape_char c @ x) = (c, x)"
proof (cases "c \<in> {34, 92, 8, 12, 10, 13, 9}")
  case True
  then show ?thesis by (elim insertE emptyE) (simp_all add: escape_char_def unescape_def)
next
  case False
  show ?thesis
  proof (cases "c < 32")
    case True
    with False have "escape_char c = [92, 117, 48, 48, hex_digit (c div 16), hex_digit (c mod 16)]"
      by (simp add: escape_char_def)
    moreover have "c div 16 < 16" "c mod 16 < 16" using True by simp_all
    ultimately show ?thesis by (simp add: unescape_def hex_value_digit)
  next
    case ge: False
    with False have "escape_char c = [c]" by (simp add: escape_char_def)
    with False show ?thesis by (simp add: unescape_def)
  qed
qed

lemma escape_char_delimits: "escape_char c @ x = escape_char d @ y \<Longrightarrow> c = d \<and> x = y"
  by (metis Pair_inject unescape_escape_char)

interpretation json_escape: prefix_code escape_char "\<lambda>_. True"
proof unfold_locales
  show "escape_char c \<noteq> []" for c by (simp add: escape_char_def)
qed (rule escape_char_delimits)

section \<open>Injectivity of the serialiser\<close>

lemma dumps_str_delimits: "dumps_str s @ x = dumps_str t @ y \<Longrightarrow> s = t \<and> x = y"
proof -
  assume "dumps_str s @ x = dumps_str t @ y"
  then have "concat (map escape_char s) @ 34 # x = concat (map escape_char t) @ 34 # y"
    by (simp add: dumps_str_def)
  moreover have "hd (escape_char c) \<noteq> 34" for c by (simp add: escape_char_def)
  ultimately show ?thesis
    using json_escape.concat_map_terminated [of 34 s t x y] by (simp add: list_all_iff)
qed

definition numeric :: "nat \<Rightarrow> bool" where
  "numeric c \<longleftrightarrow> c = 45 \<or> (48 \<le> c \<and> c \<le> 57)"

definition delimited :: "ustring \<Rightarrow> bool" where
  "delimited r \<longleftrightarrow> r = [] \<or> \<not> numeric (hd r)"

definition nat_of_digits :: "ustring \<Rightarrow> nat" where
  "nat_of_digits ds = foldl (\<lambda>a d. 10 * a + (d - 48)) 0 ds"

lemma nat_of_dumps_nat: "nat_of_digits (dumps_nat n) = n"
proof (induction n rule: dumps_nat.induct)
  case (1 n)
  then show ?case
    by (subst dumps_nat.simps) (auto simp: nat_of_digits_def)
qed

lemma dumps_nat_digits: "list_all (\<lambda>c. 48 \<le> c \<and> c \<le> 57) (dumps_nat n)"
proof (induction n rule: dumps_nat.induct)
  case (1 n)
  have "n mod 10 \<le> 9" by simp
  with 1 show ?case by (subst dumps_nat.simps) (auto simp del: mod_less)
qed

lemma dumps_nat_nonempty: "dumps_nat n \<noteq> []"
  by (subst dumps_nat.simps) simp

lemma hd_dumps_nat: "48 \<le> hd (dumps_nat n) \<and> hd (dumps_nat n) \<le> 57"
  using dumps_nat_digits [of n] dumps_nat_nonempty [of n] by (cases "dumps_nat n") auto

lemma dumps_int_inj: "dumps_int i = dumps_int j \<Longrightarrow> i = j"
proof -
  assume eq: "dumps_int i = dumps_int j"
  have lead: "dumps_nat n \<noteq> 45 # xs" for n xs
    using hd_dumps_nat [of n] by auto
  show ?thesis
  proof (cases "i < 0"; cases "j < 0")
    assume "i < 0" "j < 0"
    with eq have "nat (- i) = nat (- j)"
      by (metis dumps_int_def list.inject nat_of_dumps_nat)
    with \<open>i < 0\<close> \<open>j < 0\<close> show ?thesis by simp
  next
    assume "\<not> i < 0" "\<not> j < 0"
    with eq have "nat i = nat j" by (metis dumps_int_def nat_of_dumps_nat)
    with \<open>\<not> i < 0\<close> \<open>\<not> j < 0\<close> show ?thesis by simp
  qed (use eq lead in \<open>auto simp: dumps_int_def dest: sym\<close>)
qed

lemma dumps_int_numeric: "list_all numeric (dumps_int i)"
  using dumps_nat_digits by (auto simp: dumps_int_def numeric_def list_all_iff)

lemma takeWhile_numeric:
  "list_all numeric xs \<Longrightarrow> delimited r \<Longrightarrow> takeWhile numeric (xs @ r) = xs"
  by (cases r) (auto simp: list_all_iff delimited_def takeWhile_eq_all_conv [THEN iffD2])

lemma dumps_int_delimits:
  assumes "delimited x" "delimited y" "dumps_int i @ x = dumps_int j @ y"
  shows "i = j \<and> x = y"
proof -
  have "dumps_int i = dumps_int j"
    using takeWhile_numeric [OF dumps_int_numeric assms(1)]
      takeWhile_numeric [OF dumps_int_numeric assms(2)] assms(3) by metis
  with assms(3) dumps_int_inj show ?thesis by simp
qed

text \<open>The first character tells the kinds of value apart.\<close>

lemma dumps_head:
  "dumps v \<noteq> [] \<and> hd (dumps v) \<notin> {44, 93, 125} \<and>
   (case v of JNull \<Rightarrow> hd (dumps v) = 110 | JBool b \<Rightarrow> hd (dumps v) = (if b then 116 else 102)
    | JInt i \<Rightarrow> numeric (hd (dumps v)) | JStr s \<Rightarrow> hd (dumps v) = 34
    | JArr xs \<Rightarrow> hd (dumps v) = 91 | JObj kvs \<Rightarrow> hd (dumps v) = 123)"
proof (cases v)
  case (JInt i)
  have "dumps_int i \<noteq> []" by (simp add: dumps_int_def dumps_nat_nonempty)
  moreover from this have "numeric (hd (dumps_int i))"
    using dumps_int_numeric [of i] by (cases "dumps_int i") auto
  ultimately show ?thesis using JInt by (auto simp: numeric_def)
qed (auto simp: dumps_str_def)

definition join_tail :: "('a \<Rightarrow> ustring) \<Rightarrow> nat \<Rightarrow> 'a list \<Rightarrow> ustring \<Rightarrow> ustring" where
  "join_tail f z xs r = (if xs = [] then z # r else 44 # comma_join (map f xs) @ z # r)"

lemma comma_join_Cons: "comma_join (map f (x # xs)) @ z # r = f x @ join_tail f z xs r"
  by (cases xs) (simp_all add: join_tail_def)

lemma delimited_join_tail: "\<not> numeric z \<Longrightarrow> delimited (join_tail f z xs r)"
  by (auto simp: join_tail_def delimited_def numeric_def)

lemma comma_join_delimits:
  assumes "\<And>x y r s. x \<in> set xs \<Longrightarrow> delimited r \<Longrightarrow> delimited s \<Longrightarrow> f x @ r = f y @ s \<Longrightarrow> x = y \<and> r = s"
    and head: "\<And>x. f x \<noteq> [] \<and> hd (f x) \<noteq> z" and z: "\<not> numeric z" "z \<noteq> 44"
    and "comma_join (map f xs) @ z # r = comma_join (map f ys) @ z # s"
  shows "xs = ys \<and> r = s"
  using assms(1,5)
proof (induction xs arbitrary: ys)
  case Nil
  show ?case
  proof (cases ys)
    case (Cons y ys')
    with Nil(2) have "f y @ join_tail f z ys' s = z # r"
      by (simp add: comma_join_Cons flip: list.map(2))
    with head [of y] show ?thesis by (cases "f y") auto
  qed (use Nil in simp)
next
  case (Cons x xs)
  have left: "comma_join (map f (x # xs)) @ z # r = f x @ join_tail f z xs r"
    by (rule comma_join_Cons)
  have "ys \<noteq> []"
  proof
    assume "ys = []"
    with Cons.prems(2) left have "f x @ join_tail f z xs r = z # s" by simp
    with head [of x] show False by (cases "f x") auto
  qed
  then obtain y ys' where ys: "ys = y # ys'" by (cases ys) auto
  have "f x @ join_tail f z xs r = f y @ join_tail f z ys' s"
    using Cons.prems(2) left unfolding ys comma_join_Cons by simp
  then have xy: "x = y" and rest: "join_tail f z xs r = join_tail f z ys' s"
    using Cons.prems(1) [of x] z(1) delimited_join_tail by (metis list.set_intros(1))+
  show ?case
  proof (cases "xs = []")
    case True
    with rest z(2) have "ys' = []" "r = s" by (auto simp: join_tail_def split: if_splits)
    with True xy ys show ?thesis by simp
  next
    case False
    with rest z(2) have "comma_join (map f xs) @ z # r = comma_join (map f ys') @ z # s"
      by (auto simp: join_tail_def split: if_splits)
    moreover have "x' \<in> set xs \<Longrightarrow> delimited r' \<Longrightarrow> delimited s' \<Longrightarrow> f x' @ r' = f y' @ s' \<Longrightarrow>
        x' = y' \<and> r' = s'" for x' y' r' s'
      by (rule Cons.prems(1)) simp_all
    ultimately have "xs = ys' \<and> r = s" using Cons.IH [of ys'] by blast
    with xy ys show ?thesis by simp
  qed
qed

lemma dumps_delimits:
  "delimited r \<Longrightarrow> delimited s \<Longrightarrow> dumps v @ r = dumps w @ s \<Longrightarrow> v = w \<and> r = s"
proof (induction v arbitrary: w r s)
  case (JArr xs)
  have "hd (dumps w) = 91" using JArr.prems(3) dumps_head [of w] by (cases "dumps w") auto
  then obtain ys where w: "w = JArr ys"
    using dumps_head [of w] by (cases w) (auto simp: numeric_def split: if_splits)
  with JArr.prems(3) have "comma_join (map dumps xs) @ 93 # r = comma_join (map dumps ys) @ 93 # s"
    by simp
  moreover have "dumps x \<noteq> [] \<and> hd (dumps x) \<noteq> 93" for x using dumps_head [of x] by simp
  ultimately have "xs = ys \<and> r = s"
    using JArr.IH by (intro comma_join_delimits [where f = dumps and z = 93])
      (auto simp: numeric_def)
  with w show ?case by simp
next
  case (JObj kvs)
  let ?f = "\<lambda>(k, v). dumps_str k @ [58] @ dumps v"
  have "hd (dumps w) = 123" using JObj.prems(3) dumps_head [of w] by (cases "dumps w") auto
  then obtain kws where w: "w = JObj kws"
    using dumps_head [of w] by (cases w) (auto simp: numeric_def split: if_splits)
  with JObj.prems(3) have eq: "comma_join (map ?f kvs) @ 125 # r = comma_join (map ?f kws) @ 125 # s"
    by simp
  have step: "p = q \<and> x = y" if p: "p \<in> set kvs" and xy: "delimited x" "delimited y"
      and e: "?f p @ x = ?f q @ y" for p q x y
  proof -
    obtain k u l t where pq: "p = (k, u)" "q = (l, t)" by (cases p; cases q) auto
    with e have "dumps_str k @ 58 # dumps u @ x = dumps_str l @ 58 # dumps t @ y" by simp
    then have "k = l" and "dumps u @ x = dumps t @ y" by (auto dest: dumps_str_delimits)
    with JObj.IH [of p u x y t] p pq xy show ?thesis by simp
  qed
  have "kvs = kws \<and> r = s"
    using step _ _ _ eq by (rule comma_join_delimits) (auto simp: numeric_def dumps_str_def)
  with w show ?case by simp
next
  case JNull
  have "hd (dumps w) = 110" using JNull.prems(3) dumps_head [of w] by (cases "dumps w") auto
  then have "w = JNull" using dumps_head [of w] by (cases w) (auto simp: numeric_def split: if_splits)
  with JNull.prems show ?case by simp
next
  case (JBool b)
  have "hd (dumps w) = (if b then 116 else 102)"
    using JBool.prems(3) dumps_head [of w] by (cases "dumps w") (auto split: if_splits)
  then have "w = JBool b"
    using dumps_head [of w] by (cases w) (auto simp: numeric_def split: if_splits)
  with JBool.prems show ?case by simp
next
  case (JInt i)
  have "numeric (hd (dumps w))"
    using JInt.prems(3) dumps_head [of w] dumps_head [of "JInt i"]
    by (cases "dumps w"; cases "dumps (JInt i)") auto
  then obtain j where "w = JInt j"
    using dumps_head [of w] by (cases w) (auto simp: numeric_def split: if_splits)
  with JInt.prems dumps_int_delimits [of r s i j] show ?case by simp
next
  case (JStr t)
  have "hd (dumps w) = 34"
    using JStr.prems(3) dumps_head [of w] by (cases "dumps w") (auto simp: dumps_str_def)
  then obtain u where "w = JStr u"
    using dumps_head [of w] by (cases w) (auto simp: numeric_def split: if_splits)
  with JStr.prems show ?case by (auto dest: dumps_str_delimits)
qed

lemma dumps_inj: "dumps v = dumps w \<Longrightarrow> v = w"
  using dumps_delimits [of "[]" "[]" v w] by (simp add: delimited_def)

section \<open>Normalisation and the canonical bytes\<close>

lemma ok_utf16_sort_key: "ok (utf16_sort_key s) \<longleftrightarrow> \<not> list_ex surrogate s"
  by (simp add: utf16_sort_key_def)

lemma ok_canonical_mapping:
  "ok (canonical_mapping items) \<longleftrightarrow>
     list_all (\<lambda>(k, r). k \<noteq> KNonStr \<and> \<not> list_ex surrogate (key_str k) \<and> ok r) items"
proof (cases "list_ex (\<lambda>(k, r). k = KNonStr) items")
  case True
  then show ?thesis by (auto simp: canonical_mapping_def list_ex_iff list_all_iff)
next
  case False
  then have "ok (canonical_mapping items) \<longleftrightarrow>
      ok (map_result (\<lambda>(k, r). utf16_sort_key (key_str k)) items) \<and>
      ok (map_result (\<lambda>(k, r). bind_result r (\<lambda>j. Inr (key_str k, j)))
            (sort_key (\<lambda>(k, r). utf16_be (key_str k)) items))"
    by (simp add: canonical_mapping_def)
  also have "\<dots> \<longleftrightarrow> (\<forall>(k, r) \<in> set items. \<not> list_ex surrogate (key_str k)) \<and> (\<forall>(k, r) \<in> set items. ok r)"
    by (auto simp: ok_map_result ok_utf16_sort_key split: prod.splits)
  finally show ?thesis using False by (auto simp: list_all_iff list_ex_iff)
qed

lemma ok_canonical_value: "ok (canonical_value v) \<longleftrightarrow> representable v"
proof (induction v rule: canonical_value.induct)
  case (3 s)
  then show ?case by (simp add: utf16_sort_key_def)
next
  case (6 items)
  then show ?case by (fastforce simp: ok_canonical_mapping list_all_iff)
next
  case (7 items)
  then show ?case by (fastforce simp: ok_canonical_mapping list_all_iff)
next
  case (8 xs)
  then show ?case by (simp add: ok_map_result list_all_iff)
qed auto

lemma utf16_be_inj:
  assumes "valid_str s" "valid_str t" "\<not> list_ex surrogate s" "\<not> list_ex surrogate t"
    and "utf16_be s = utf16_be t"
  shows "s = t"
proof (rule utf16.concat_map_inj)
  show "concat (map utf16_unit s) = concat (map utf16_unit t)"
    using assms(5) by (simp add: utf16_be_def)
qed (use assms in \<open>auto simp: valid_str_def list_all_iff list_ex_iff\<close>)

lemma canonical_mapping_order:
  assumes "mset items = mset items'" and "distinct (map fst items)"
    and "\<forall>(k, r) \<in> set items. valid_str (key_str k)"
  shows "canonical_mapping items = canonical_mapping items'"
proof -
  let ?keys = "\<lambda>(k, r). utf16_sort_key (key_str k)"
  have sets: "set items = set items'" using assms(1) by (rule mset_eq_setD)
  show ?thesis
  proof (cases "list_ex (\<lambda>(k, r). k = KNonStr) items")
    case True
    with sets show ?thesis by (simp add: canonical_mapping_def list_ex_iff)
  next
    case str: False
    show ?thesis
    proof (cases "\<exists>(k, r) \<in> set items. list_ex surrogate (key_str k)")
      case True
      have "map_result ?keys xs = Inl (ValueError ''canonical JSON strings may not contain lone surrogates'')"
        if "set xs = set items" for xs :: "(pykey \<times> json result) list"
        using True that
        by (intro map_result_same_error) (fastforce simp: ok_map_result utf16_sort_key_def split: if_splits)+
      with sets str show ?thesis by (simp add: canonical_mapping_def list_ex_iff)
    next
      case False
      have "inj_on (\<lambda>(k, r). utf16_be (key_str k)) (set items)"
      proof (rule inj_onI, clarify)
        fix k r k' r'
        assume mem: "(k, r) \<in> set items" "(k', r') \<in> set items"
          and eq: "utf16_be (key_str k) = utf16_be (key_str k')"
        from mem str have "k \<noteq> KNonStr" "k' \<noteq> KNonStr" by (auto simp: list_ex_iff)
        moreover have "key_str k = key_str k'"
          by (rule utf16_be_inj [OF _ _ _ _ eq]) (use mem False assms(3) in auto)
        ultimately have "k = k'" by (cases k; cases k') auto
        with mem assms(2) show "k = k' \<and> r = r'" by (auto dest: eq_key_imp_eq_value)
      qed
      with assms(1) have "sort_key (\<lambda>(k, r). utf16_be (key_str k)) items =
          sort_key (\<lambda>(k, r). utf16_be (key_str k)) items'"
        by (rule sort_key_unique)
      moreover have "ok (map_result ?keys items)" "ok (map_result ?keys items')"
        using False sets by (auto simp: ok_map_result utf16_sort_key_def)
      ultimately show ?thesis
        using str sets by (auto simp: canonical_mapping_def list_ex_iff ok_iff)
    qed
  qed
qed

lemma mset_map_mapping:
  assumes "mset xs = mset ys"
  shows "mset (map (\<lambda>(k, v). (k, f v)) xs) = mset (map (\<lambda>(k, v). (k, f v)) ys)"
  using assms by simp

lemma canonical_mapping_Inr:
  assumes "canonical_mapping items = Inr j"
  obtains kvs where "j = JObj kvs" and "sorted (map (\<lambda>(k, v). utf16_be k) kvs)"
    and "\<And>k v. (k, v) \<in> set kvs \<Longrightarrow> \<exists>k'. (k', Inr v) \<in> set items \<and> k = key_str k'"
proof -
  let ?items = "sort_key (\<lambda>(k, r). utf16_be (key_str k)) items"
  let ?f = "\<lambda>(k, r). bind_result r (\<lambda>j. Inr (key_str k, j))"
  from assms obtain kvs where j: "j = JObj kvs" and kvs: "map_result ?f ?items = Inr kvs"
    by (auto simp: canonical_mapping_def bind_result_eq_Inr split: if_splits)
  from kvs have all2: "list_all2 (\<lambda>x y. ?f x = Inr y) ?items kvs"
    by (simp add: map_result_Inr_iff)
  then have "map (\<lambda>(k, v). utf16_be k) kvs = map (\<lambda>(k, r). utf16_be (key_str k)) ?items"
    by (induction rule: list_all2_induct) (auto simp: bind_result_eq_Inr)
  then have "sorted (map (\<lambda>(k, v). utf16_be k) kvs)"
    using sorted_sort_key by metis
  moreover have "\<exists>k'. (k', Inr v) \<in> set items \<and> k = key_str k'" if "(k, v) \<in> set kvs" for k v
    using map_result_Inr_mem [OF kvs that] by (auto simp: bind_result_eq_Inr)
  ultimately show thesis using j that by blast
qed

lemma canonical_mapping_valid:
  assumes "canonical_mapping (map (\<lambda>(k, v). (k, canonical_value v)) items) = Inr j"
    and "\<And>k v w. (k, v) \<in> set items \<Longrightarrow> canonical_value v = Inr w \<Longrightarrow> valid_str (key_str k) \<and> valid_json w"
  shows "valid_json j"
proof -
  obtain kvs where j: "j = JObj kvs" and mem: "\<And>k v. (k, v) \<in> set kvs \<Longrightarrow>
      \<exists>k'. (k', Inr v) \<in> set (map (\<lambda>(k, v). (k, canonical_value v)) items) \<and> k = key_str k'"
    using canonical_mapping_Inr [OF assms(1)] by metis
  have "valid_str k \<and> valid_json v" if "(k, v) \<in> set kvs" for k v
    using mem [OF that] assms(2) by (auto dest: sym)
  with j show ?thesis by (auto simp: list_all_iff)
qed

lemma canonical_value_valid:
  "canonical_value v = Inr j \<Longrightarrow> py_wf v \<Longrightarrow> valid_json j"
proof (induction v arbitrary: j rule: canonical_value.induct)
  case (6 items)
  from 6(2) have "canonical_mapping (map (\<lambda>(k, v). (k, canonical_value v)) items) = Inr j" by simp
  then show ?case by (rule canonical_mapping_valid) (use 6 in \<open>fastforce simp: list_all_iff\<close>)
next
  case (7 items)
  from 7(2) have "canonical_mapping (map (\<lambda>(k, v). (k, canonical_value v)) items) = Inr j" by simp
  then show ?case by (rule canonical_mapping_valid) (use 7 in \<open>fastforce simp: list_all_iff\<close>)
next
  case (8 xs)
  then obtain js where js: "map_result canonical_value xs = Inr js" "j = JArr js"
    by (auto simp: bind_result_eq_Inr)
  with 8 show ?case by (auto simp: list_all_iff dest: map_result_Inr_mem)
qed (auto simp: bind_result_eq_Inr split: if_splits)

lemma valid_str_append [simp]: "valid_str (s @ t) \<longleftrightarrow> valid_str s \<and> valid_str t"
  and valid_str_Cons [simp]: "valid_str (c # s) \<longleftrightarrow> c < 1114112 \<and> valid_str s"
  and valid_str_Nil [simp]: "valid_str []"
  by (simp_all add: valid_str_def)

lemma valid_dumps_str: "valid_str s \<Longrightarrow> valid_str (dumps_str s)"
  by (induction s) (auto simp: dumps_str_def escape_char_def hex_digit_def)

lemma valid_dumps_int: "valid_str (dumps_int i)"
  using dumps_int_numeric [of i] by (auto simp: valid_str_def list_all_iff numeric_def)

lemma valid_comma_join: "list_all valid_str xs \<Longrightarrow> valid_str (comma_join xs)"
  by (induction xs rule: comma_join.induct) auto

lemma valid_dumps: "valid_json v \<Longrightarrow> valid_str (dumps v)"
proof (induction v)
  case (JArr xs)
  then have "valid_str (comma_join (map dumps xs))"
    by (intro valid_comma_join) (auto simp: list_all_iff)
  then show ?case by simp
next
  case (JObj kvs)
  then have "valid_str (comma_join (map (\<lambda>(k, v). dumps_str k @ [58] @ dumps v) kvs))"
    by (intro valid_comma_join) (fastforce simp: list_all_iff valid_dumps_str)
  then show ?case by simp
qed (auto simp: valid_dumps_str valid_dumps_int)

section \<open>Main results\<close>

text \<open>the serialiser succeeds exactly on the JSON subset it names: no floats, no bytes or other
  objects, string keys only, no surrogate code points and integers of at most 53 bits.\<close>

lemma canonical_sha256_total: "ok (canonical_sha256 sha256_hex v) \<longleftrightarrow> representable v"
  by (simp add: canonical_sha256_def canonical_json_bytes_def ok_canonical_value)

text \<open>the canonical bytes of a mapping do not depend on the order in which its items were
  inserted (the error raised, if any, does not either).\<close>

lemma canonical_json_bytes_order_independent:
  assumes "py_wf (PMapping xs)" and "mset xs = mset ys"
  shows "canonical_json_bytes (PMapping xs) = canonical_json_bytes (PMapping ys)"
proof -
  have "canonical_mapping (map (\<lambda>(k, v). (k, canonical_value v)) xs) =
      canonical_mapping (map (\<lambda>(k, v). (k, canonical_value v)) ys)"
    using assms by (intro canonical_mapping_order)
      (auto simp: mset_map_mapping comp_def split_def list_all_iff)
  then show ?thesis by (simp add: canonical_json_bytes_def)
qed

text \<open>C18: the canonical encoding is injective: values with equal canonical bytes have the same
  normal form, so an equal digest means equal content unless SHA-256 itself collides.\<close>

theorem canonical_json_bytes_injective:
  assumes "py_wf v" "py_wf w"
    and "canonical_json_bytes v = Inr bs" "canonical_json_bytes w = Inr bs"
  shows "canonical_value v = canonical_value w"
proof -
  obtain j k where jk: "canonical_value v = Inr j" "canonical_value w = Inr k"
      "utf8 (dumps j) = utf8 (dumps k)"
    using assms(3,4) by (auto simp: canonical_json_bytes_def bind_result_eq_Inr)
  then have "valid_str (dumps j)" "valid_str (dumps k)"
    using assms(1,2) by (auto intro: valid_dumps canonical_value_valid)
  then have "dumps j = dumps k"
    using jk(3) utf8.concat_map_inj by (simp add: utf8_def valid_str_def)
  then have "j = k" by (rule dumps_inj)
  with jk show ?thesis by simp
qed

theorem canonical_json_bytes_injective_witness:
  "canonical_value (PModel [(KStr [97], PInt 7)]) = canonical_value (PMapping [(KStr [97], PInt 7)])"
  by (rule canonical_json_bytes_injective
      [where bs = "utf8 (dumps (JObj [([97], JInt 7)]))"])
    (simp_all add: valid_str_def canonical_json_bytes_def canonical_mapping_def utf16_sort_key_def
      surrogate_def MAX_SAFE_INTEGER_def)

end
