(* ===== verification/Payload.thy ===== *)
theory Payload
  imports Canonical
begin

text \<open>
  Payloads under a digest.  Contracts compute identifiers and integrity digests as
  \<open>canonical_sha256\<close> of a mapping with literal keys.  This theory names the builders of such mappings
  (\<open>jobj\<close>, \<open>jstr\<close>, \<open>jopt\<close>, \<open>jstrs\<close>, ...) and shows what a digest determines: two payloads with the same
  keys and the same digest agree on every field, unless SHA-256 collides on these two inputs
  (\<open>collision_free\<close>, a statement about the two inputs only, since no function into 64 hexadecimal
  characters is injective).
\<close>

definition jstr :: "string \<Rightarrow> pyval" where
  "jstr s = PStr (ustr s)"

definition jopt :: "string option \<Rightarrow> pyval" where
  "jopt s = (case s of None \<Rightarrow> PNone | Some t \<Rightarrow> jstr t)"

definition joptint :: "int option \<Rightarrow> pyval" where
  "joptint i = (case i of None \<Rightarrow> PNone | Some n \<Rightarrow> PInt n)"

definition jstrs :: "string list \<Rightarrow> pyval" where
  "jstrs ss = PSequence (map jstr ss)"

definition jobj :: "(string \<times> pyval) list \<Rightarrow> pyval" where
  "jobj fs = PMapping (map (\<lambda>(k, v). (KStr (ustr k), v)) fs)"

definition jmodel :: "(string \<times> pyval) list \<Rightarrow> pyval" where
  "jmodel fs = PModel (map (\<lambda>(k, v). (KStr (ustr k), v)) fs)"

definition safe_int :: "int \<Rightarrow> bool" where
  "safe_int i \<longleftrightarrow> - MAX_SAFE_INTEGER \<le> i \<and> i \<le> MAX_SAFE_INTEGER"

section \<open>Strings of bytes as Python strings\<close>

lemma of_char_small: "of_char c < (256 :: nat)"
  by (metis of_char_mod_256 mod_less_divisor zero_less_numeral)

lemma ustr_inj [simp]: "ustr s = ustr t \<longleftrightarrow> s = t"
  unfolding ustr_def by (rule inj_map_eq_map) (simp add: inj_def)

lemma ustr_no_surrogate: "\<not> list_ex surrogate (ustr s)"
proof -
  have "\<not> surrogate (of_char c)" for c :: char
    using of_char_small [of c] unfolding surrogate_def by linarith
  then show ?thesis by (simp add: ustr_def list_ex_iff)
qed

lemma valid_str_ustr [simp]: "valid_str (ustr s)"
proof -
  have "of_char c < (1114112 :: nat)" for c :: char
    using of_char_small [of c] by linarith
  then show ?thesis by (simp add: valid_str_def ustr_def list_all_iff)
qed

lemma representable_jstr [simp]:
  "representable (jstr s)" "representable (jopt os)" "representable (jstrs ss)"
  by (simp_all add: jstr_def jopt_def jstrs_def ustr_no_surrogate list_all_iff split: option.splits)

lemma representable_joptint [simp]: "representable (joptint i) \<longleftrightarrow> opt_ok safe_int i"
  by (cases i) (simp_all add: joptint_def safe_int_def)

lemma representable_jobj [simp]: "representable (jobj fs) \<longleftrightarrow> (\<forall>(k, v) \<in> set fs. representable v)"
  by (auto simp: jobj_def list_all_iff ustr_no_surrogate)

lemma py_wf_builders [simp]:
  "py_wf (jstr s)" "py_wf (jopt os)" "py_wf (jstrs ss)" "py_wf (joptint i)"
  by (simp_all add: jstr_def jopt_def jstrs_def joptint_def list_all_iff split: option.splits)

lemma py_wf_jobj [simp]: "py_wf (jobj fs) \<longleftrightarrow> distinct (map fst fs) \<and> (\<forall>(k, v) \<in> set fs. py_wf v)"
proof -
  have "map fst (map (\<lambda>(k, v). (KStr (ustr k), v)) fs) = map (\<lambda>k. KStr (ustr k)) (map fst fs)" by auto
  moreover have "distinct (map (\<lambda>k. KStr (ustr k)) (map fst fs)) \<longleftrightarrow> distinct (map fst fs)"
    unfolding distinct_map by (auto simp: inj_on_def)
  ultimately have "distinct (map fst (map (\<lambda>(k, v). (KStr (ustr k), v)) fs)) \<longleftrightarrow> distinct (map fst fs)"
    by (simp only:)
  then show ?thesis by (simp only: jobj_def py_wf.simps) (auto simp: list_all_iff)
qed

lemma jmodel_as_jobj [simp]:
  "canonical_value (jmodel fs) = canonical_value (jobj fs)"
  "representable (jmodel fs) \<longleftrightarrow> representable (jobj fs)"
  "py_wf (jmodel fs) \<longleftrightarrow> py_wf (jobj fs)"
proof -
  show "canonical_value (jmodel fs) = canonical_value (jobj fs)" by (simp add: jmodel_def jobj_def)
  show "representable (jmodel fs) \<longleftrightarrow> representable (jobj fs)"
    unfolding jmodel_def jobj_def by (simp only: representable.simps)
  show "py_wf (jmodel fs) \<longleftrightarrow> py_wf (jobj fs)"
    unfolding jmodel_def jobj_def by (simp only: py_wf.simps)
qed

lemma canonical_builders [simp]:
  "canonical_value (jstr s) = Inr (JStr (ustr s))"
  "canonical_value (jopt os) = Inr (case os of None \<Rightarrow> JNull | Some t \<Rightarrow> JStr (ustr t))"
  "canonical_value (jstrs ss) = Inr (JArr (map (\<lambda>s. JStr (ustr s)) ss))"
proof -
  show s: "canonical_value (jstr s) = Inr (JStr (ustr s))" for s
    by (simp add: jstr_def utf16_sort_key_def ustr_no_surrogate)
  then show "canonical_value (jopt os) = Inr (case os of None \<Rightarrow> JNull | Some t \<Rightarrow> JStr (ustr t))"
    by (cases os) (simp_all add: jopt_def)
  have "map_result canonical_value (map jstr ss) = Inr (map (\<lambda>s. JStr (ustr s)) ss)"
    by (induction ss) (simp_all add: s)
  then show "canonical_value (jstrs ss) = Inr (JArr (map (\<lambda>s. JStr (ustr s)) ss))"
    by (simp add: jstrs_def)
qed

lemma case_JStr_inj:
  "(case a of None \<Rightarrow> JNull | Some t \<Rightarrow> JStr (ustr t)) = (case b of None \<Rightarrow> JNull | Some t \<Rightarrow> JStr (ustr t)) \<longleftrightarrow> a = b"
  by (cases a; cases b) auto

lemma map_JStr_inj: "map (\<lambda>s. JStr (ustr s)) ss = map (\<lambda>s. JStr (ustr s)) ts \<longleftrightarrow> ss = ts"
  by (rule inj_map_eq_map) (simp add: inj_def)

lemma canonical_PInt_inj:
  "safe_int i \<Longrightarrow> canonical_value (PInt i) = canonical_value (PInt j) \<Longrightarrow> i = j"
  by (simp add: safe_int_def split: if_splits)

lemma canonical_joptint_inj:
  "opt_ok safe_int i \<Longrightarrow> canonical_value (joptint i) = canonical_value (joptint j) \<Longrightarrow> i = j"
  by (cases i; cases j) (auto simp: joptint_def safe_int_def split: if_splits)

section \<open>What a digest determines\<close>

lemma ok_canonical_sha256: "ok (canonical_sha256 H v) \<longleftrightarrow> representable v"
  by (simp add: canonical_sha256_def canonical_json_bytes_def ok_canonical_value)

lemma canonical_sha256_range: "canonical_sha256 H v = Inr h \<Longrightarrow> \<exists>bs. h = H bs"
  by (auto simp: canonical_sha256_def bind_result_eq_Inr)

definition collision_free :: "(nat list \<Rightarrow> string) \<Rightarrow> pyval \<Rightarrow> pyval \<Rightarrow> bool" where
  "collision_free H v w \<longleftrightarrow>
     (canonical_sha256 H v = canonical_sha256 H w \<longrightarrow> canonical_json_bytes v = canonical_json_bytes w)"

lemma canonical_value_of_bytes:
  assumes "py_wf v" "py_wf w" "representable v"
    and "canonical_json_bytes v = canonical_json_bytes w"
  shows "canonical_value v = canonical_value w"
proof -
  obtain j where j: "canonical_value v = Inr j"
    using assms(3) ok_canonical_value by (auto simp: ok_iff)
  with assms(4) obtain k where k: "canonical_value w = Inr k" and eq: "utf8 (dumps j) = utf8 (dumps k)"
    by (cases "canonical_value w") (auto simp: canonical_json_bytes_def)
  from j k have "valid_str (dumps j)" "valid_str (dumps k)"
    using assms(1,2) by (auto intro: valid_dumps canonical_value_valid)
  with eq have "dumps j = dumps k"
    using utf8.concat_map_inj by (simp add: utf8_def valid_str_def)
  then show ?thesis using dumps_inj j k by auto
qed

lemma canonical_mapping_entries:
  assumes "canonical_mapping items = Inr j"
  obtains kvs where "j = JObj kvs" and "set kvs = {(key_str k, w) |k w. (k, Inr w) \<in> set items}"
proof -
  let ?items = "sort_key (\<lambda>(k, r). utf16_be (key_str k)) items"
  let ?f = "\<lambda>(k, r). bind_result r (\<lambda>j. Inr (key_str k, j))"
  from assms obtain kvs where j: "j = JObj kvs" and kvs: "map_result ?f ?items = Inr kvs"
    by (auto simp: canonical_mapping_def bind_result_eq_Inr split: if_splits)
  from map_result_Inr_set [OF kvs] have "set kvs = {(key_str k, w) |k w. (k, Inr w) \<in> set items}"
    by (auto simp: bind_result_eq_Inr elim!: rev_bexI)
  with j show thesis by (rule that)
qed

lemma jobj_entries:
  assumes "canonical_value (jobj fs) = Inr j"
  obtains kvs where "j = JObj kvs"
    and "\<And>k v. (k, v) \<in> set fs \<Longrightarrow> canonical_value v = Inr w \<Longrightarrow> (ustr k, w) \<in> set kvs"
    and "\<And>k w. (ustr k, w) \<in> set kvs \<Longrightarrow> \<exists>v. (k, v) \<in> set fs \<and> canonical_value v = Inr w"
proof -
  have "canonical_mapping (map (\<lambda>(k, v). (k, canonical_value v)) (map (\<lambda>(k, v). (KStr (ustr k), v)) fs)) = Inr j"
    using assms by (simp add: jobj_def)
  from canonical_mapping_entries [OF this] obtain kvs where kvs: "j = JObj kvs"
    "set kvs = {(key_str k, w) |k w. (k, Inr w) \<in>
       set (map (\<lambda>(k, v). (k, canonical_value v)) (map (\<lambda>(k, v). (KStr (ustr k), v)) fs))}" by blast
  show thesis
  proof (rule that)
    show "j = JObj kvs" by (rule kvs)
    show "(ustr k, w) \<in> set kvs" if "(k, v) \<in> set fs" "canonical_value v = Inr w" for k v
      using that unfolding kvs(2) by force
    show "\<exists>v. (k, v) \<in> set fs \<and> canonical_value v = Inr w'" if "(ustr k, w') \<in> set kvs" for k w'
      using that unfolding kvs(2) by (auto dest: sym)
  qed
qed

lemma jobj_field_eq:
  assumes eq: "canonical_value (jobj fs) = canonical_value (jobj gs)"
    and rep: "representable (jobj fs)" and gs: "distinct (map fst gs)"
    and mem: "(k, v) \<in> set fs" "(k, w) \<in> set gs"
  shows "canonical_value v = canonical_value w"
proof -
  obtain j where j: "canonical_value (jobj fs) = Inr j"
    using rep ok_canonical_value ok_iff by metis
  have "representable v" using rep mem(1) by auto
  then obtain x where x: "canonical_value v = Inr x"
    using ok_canonical_value by (auto simp: ok_iff)
  obtain kvs where "j = JObj kvs" "(ustr k, x) \<in> set kvs"
    using jobj_entries [OF j] mem(1) x by metis
  then obtain w' where "(k, w') \<in> set gs" "canonical_value w' = Inr x"
    using jobj_entries [of gs j] j eq by (metis json.inject(5))
  with gs mem(2) x show ?thesis by (metis eq_key_imp_eq_value)
qed

text \<open>Two payloads with the same keys and the same digest agree field by field.\<close>

lemma canonical_PInt: "safe_int i \<Longrightarrow> canonical_value (PInt i) = Inr (JInt i)"
  by (simp add: safe_int_def)

lemma jobj_fields_eq:
  assumes "canonical_value (jobj fs) = canonical_value (jobj gs)" "representable (jobj fs)"
    and keys: "map fst fs = map fst gs" "distinct (map fst gs)"
  shows "map (\<lambda>x. canonical_value (snd x)) fs = map (\<lambda>x. canonical_value (snd x)) gs"
proof (rule nth_equalityI)
  show len: "length (map (\<lambda>x. canonical_value (snd x)) fs) = length (map (\<lambda>x. canonical_value (snd x)) gs)"
    using keys(1) by (metis length_map)
  fix i assume i: "i < length (map (\<lambda>x. canonical_value (snd x)) fs)"
  then have "(fst (fs ! i), snd (fs ! i)) \<in> set fs" "(fst (gs ! i), snd (gs ! i)) \<in> set gs"
    using len by (simp_all add: nth_mem)
  moreover have "fst (fs ! i) = fst (gs ! i)"
    using keys(1) i len by (metis length_map nth_map)
  ultimately have "canonical_value (snd (fs ! i)) = canonical_value (snd (gs ! i))"
    using jobj_field_eq [OF assms(1,2) keys(2)] by metis
  with i len show "map (\<lambda>x. canonical_value (snd x)) fs ! i = map (\<lambda>x. canonical_value (snd x)) gs ! i"
    by simp
qed

lemma same_digest_fields:
  assumes "canonical_sha256 H (jobj fs) = Inr h" "canonical_sha256 H (jobj gs) = Inr h"
    and "collision_free H (jobj fs) (jobj gs)" "py_wf (jobj fs)" "py_wf (jobj gs)"
    and "map fst fs = map fst gs"
  shows "map (\<lambda>x. canonical_value (snd x)) fs = map (\<lambda>x. canonical_value (snd x)) gs"
proof (rule jobj_fields_eq)
  show rep: "representable (jobj fs)"
    using assms(1) ok_canonical_sha256 by (metis ok_simps(1))
  show "canonical_value (jobj fs) = canonical_value (jobj gs)"
    using assms rep by (intro canonical_value_of_bytes) (simp_all add: collision_free_def)
qed (use assms in auto)

lemma collision_free_refl [simp]: "collision_free H v v"
  by (simp add: collision_free_def)

text \<open>A concrete digest function for evaluation: every input has the digest of 64 zeros.\<close>

definition hex64 :: "char \<Rightarrow> string" where
  "hex64 c = replicate 64 c"

definition zero_hash :: "nat list \<Rightarrow> string" where
  "zero_hash bs = hex64 (CHR ''0'')"

lemma Sha256_hex64: "is_hex c \<Longrightarrow> Sha256 (hex64 c)"
  by (simp add: Sha256_def hex64_def list_all_iff)

lemma Sha256_zero_hash: "Sha256 (zero_hash bs)"
  unfolding zero_hash_def by (rule Sha256_hex64) code_simp

lemma canonical_sha256_zero_hash: "representable v \<Longrightarrow> canonical_sha256 zero_hash v = Inr (hex64 (CHR ''0''))"
  by (metis ok_canonical_sha256 ok_iff canonical_sha256_range zero_hash_def)

text \<open>A concrete digest function without collisions: the bytes in unary.\<close>

definition unary_hash :: "nat list \<Rightarrow> string" where
  "unary_hash bs = concat (map (\<lambda>n. replicate n (CHR ''1'') @ ''0'') bs)"

lemma unary_digit_delimits:
  "replicate m (CHR ''1'') @ (CHR ''0'') # x = replicate n (CHR ''1'') @ (CHR ''0'') # y \<Longrightarrow> m = n \<and> x = y"
proof (induction m arbitrary: n)
  case 0
  then show ?case by (cases n) auto
next
  case (Suc m)
  then show ?case by (cases n) auto
qed

lemma unary_hash_inj: "unary_hash as = unary_hash bs \<Longrightarrow> as = bs"
proof (induction as arbitrary: bs)
  case Nil
  then show ?case by (cases bs) (auto simp: unary_hash_def)
next
  case (Cons a as)
  then obtain b bs' where bs: "bs = b # bs'" by (cases bs) (auto simp: unary_hash_def)
  with Cons.prems have "a = b \<and> unary_hash as = unary_hash bs'"
    using unary_digit_delimits [of a "unary_hash as" b "unary_hash bs'"] by (simp add: unary_hash_def)
  with Cons.IH bs show ?case by auto
qed

lemma collision_free_unary_hash: "collision_free unary_hash v w"
  by (auto simp: collision_free_def canonical_sha256_def bind_result_def split: sum.splits dest: unary_hash_inj)

section \<open>Sealed contracts\<close>

text \<open>
  The three methods around the digest field of a contract class are the same in every class:
  \<open>computed_sha256\<close> digests the \<open>model_dump\<close> without the digest field, \<open>has_valid_sha256\<close> compares, and
  \<open>with_computed_sha256\<close> stores.  The locale states what they promise once.
\<close>

definition UNSET_SHA256 :: string where
  "UNSET_SHA256 = hex64 (CHR ''0'')"

definition computed_sha256 :: "(nat list \<Rightarrow> string) \<Rightarrow> (string \<times> pyval) list \<Rightarrow> string result" where
  "computed_sha256 H dump = canonical_sha256 H (jobj dump)"

definition has_valid_sha256 :: "(nat list \<Rightarrow> string) \<Rightarrow> (string \<times> pyval) list \<Rightarrow> string \<Rightarrow> bool result" where
  "has_valid_sha256 H dump digest = bind_result (computed_sha256 H dump) (\<lambda>h. Inr (digest = h))"

locale sealed_record =
  fixes dump :: "'a \<Rightarrow> (string \<times> pyval) list"
    and digest :: "'a \<Rightarrow> string"
    and set_digest :: "string \<Rightarrow> 'a \<Rightarrow> 'a"
  assumes digest_set: "digest (set_digest h x) = h"
    and dump_set: "dump (set_digest h x) = dump x"
begin

lemma sealing_is_valid:
  assumes "computed_sha256 H (dump x) = Inr h"
  shows "has_valid_sha256 H (dump (set_digest h x)) (digest (set_digest h x)) = Inr True"
  using assms by (simp add: has_valid_sha256_def dump_set digest_set)

lemma valid_digest: "has_valid_sha256 H (dump x) (digest x) = Inr True \<longleftrightarrow> computed_sha256 H (dump x) = Inr (digest x)"
  by (auto simp: has_valid_sha256_def bind_result_eq_Inr)

lemma valid_representable: "has_valid_sha256 H (dump x) (digest x) = Inr True \<Longrightarrow> representable (jobj (dump x))"
  unfolding valid_digest computed_sha256_def using ok_canonical_sha256 by (metis ok_simps(1))

end

text \<open>A contract without free text: its payload is a well-formed mapping whatever the field values are.\<close>

locale sealed_contract = sealed_record +
  assumes dump_wf: "py_wf (jobj (dump x))"
begin

lemma same_digest_same_fields:
  assumes "has_valid_sha256 H (dump x) (digest x) = Inr True" "has_valid_sha256 H (dump y) (digest y) = Inr True"
    and "digest x = digest y" "collision_free H (jobj (dump x)) (jobj (dump y))"
    and "map fst (dump x) = map fst (dump y)"
  shows "map (\<lambda>f. canonical_value (snd f)) (dump x) = map (\<lambda>f. canonical_value (snd f)) (dump y)"
  using assms(1-3) unfolding valid_digest computed_sha256_def
  by (intro same_digest_fields [OF _ _ assms(4) dump_wf dump_wf assms(5)]) simp_all

end

lemma distinct_keys_append:
  "distinct (map fst (fs @ gs)) \<longleftrightarrow>
     distinct (map fst fs) \<and> distinct (map fst gs) \<and> (\<forall>k. k \<in> fst ` set fs \<longrightarrow> k \<notin> fst ` set gs)"
  by auto

end
