(* ===== verification/State_Machine.thy ===== *)
theory State_Machine
  imports Payload
begin

text \<open>
  The four run state machines of the gateway and the aggregate status of a request
  (\<open>src/contracts/state_machine.py\<close>).

  A \<open>state_snapshot\<close> is the persisted state of one machine instance, a \<open>transition_event\<close> an
  attempted move signed by a digest over its canonical JSON.  \<open>apply_transition\<close> is the single
  place where a snapshot changes.  Pydantic models are records; a constructor call is a function
  that returns the record or the exception its validators raise.  \<open>model_copy\<close> performs no
  validation in the source and is a plain record update here, so that snapshots stay valid is a
  theorem and not an effect of the constructor.

  The locale \<open>transition_table\<close> states what the transition tables promise; the lemmas about runs
  use them through its interpretation on the tables of the source.
\<close>

section \<open>Vocabulary and tables\<close>

datatype machine_name = Request | Execution | Artifact | Delivery

datatype state_value =
    RECEIVED | QUEUED | PLANNING | WAITING_CONFIRMATION | EXECUTING | VALIDATING_ARTIFACTS
  | DELIVERING | COMPLETED | PARTIAL | FAILED | CANCELLED | SUPERSEDED | NOT_STARTED | PLANNED
  | TICKET_ISSUED | CLAIMED | RUNNING | SUCCEEDED | FAILED_RETRYABLE | FAILED_FINAL | AMBIGUOUS
  | RECONCILE_REQUIRED | FENCED | NOT_REQUIRED | PENDING | CREATED | QC_PENDING | QC_PASSED
  | QC_FAILED | REJECTED | NOT_PLANNED | FETCHING | UPLOADING | SENDING | CHANNEL_ACCEPTED
  | DELIVERED

primrec machine_text :: "machine_name \<Rightarrow> string" where
  "machine_text Request = ''request''"
| "machine_text Execution = ''execution''"
| "machine_text Artifact = ''artifact''"
| "machine_text Delivery = ''delivery''"

primrec state_text :: "state_value \<Rightarrow> string" where
  "state_text RECEIVED = ''RECEIVED''"
| "state_text QUEUED = ''QUEUED''"
| "state_text PLANNING = ''PLANNING''"
| "state_text WAITING_CONFIRMATION = ''WAITING_CONFIRMATION''"
| "state_text EXECUTING = ''EXECUTING''"
| "state_text VALIDATING_ARTIFACTS = ''VALIDATING_ARTIFACTS''"
| "state_text DELIVERING = ''DELIVERING''"
| "state_text COMPLETED = ''COMPLETED''"
| "state_text PARTIAL = ''PARTIAL''"
| "state_text FAILED = ''FAILED''"
| "state_text CANCELLED = ''CANCELLED''"
| "state_text SUPERSEDED = ''SUPERSEDED''"
| "state_text NOT_STARTED = ''NOT_STARTED''"
| "state_text PLANNED = ''PLANNED''"
| "state_text TICKET_ISSUED = ''TICKET_ISSUED''"
| "state_text CLAIMED = ''CLAIMED''"
| "state_text RUNNING = ''RUNNING''"
| "state_text SUCCEEDED = ''SUCCEEDED''"
| "state_text FAILED_RETRYABLE = ''FAILED_RETRYABLE''"
| "state_text FAILED_FINAL = ''FAILED_FINAL''"
| "state_text AMBIGUOUS = ''AMBIGUOUS''"
| "state_text RECONCILE_REQUIRED = ''RECONCILE_REQUIRED''"
| "state_text FENCED = ''FENCED''"
| "state_text NOT_REQUIRED = ''NOT_REQUIRED''"
| "state_text PENDING = ''PENDING''"
| "state_text CREATED = ''CREATED''"
| "state_text QC_PENDING = ''QC_PENDING''"
| "state_text QC_PASSED = ''QC_PASSED''"
| "state_text QC_FAILED = ''QC_FAILED''"
| "state_text REJECTED = ''REJECTED''"
| "state_text NOT_PLANNED = ''NOT_PLANNED''"
| "state_text FETCHING = ''FETCHING''"
| "state_text UPLOADING = ''UPLOADING''"
| "state_text SENDING = ''SENDING''"
| "state_text CHANNEL_ACCEPTED = ''CHANNEL_ACCEPTED''"
| "state_text DELIVERED = ''DELIVERED''"

definition RequestStateValue :: "state_value set" where
  "RequestStateValue =
     {RECEIVED, QUEUED, PLANNING, WAITING_CONFIRMATION, EXECUTING, VALIDATING_ARTIFACTS, DELIVERING,
      COMPLETED, PARTIAL, FAILED, CANCELLED, SUPERSEDED}"

primrec STATE_VALUES :: "machine_name \<Rightarrow> state_value set" where
  "STATE_VALUES Request =
     {RECEIVED, QUEUED, PLANNING, WAITING_CONFIRMATION, EXECUTING, VALIDATING_ARTIFACTS, DELIVERING,
      COMPLETED, PARTIAL, FAILED, CANCELLED, SUPERSEDED}"
| "STATE_VALUES Execution =
     {NOT_STARTED, PLANNED, TICKET_ISSUED, CLAIMED, RUNNING, SUCCEEDED, FAILED_RETRYABLE,
      FAILED_FINAL, AMBIGUOUS, RECONCILE_REQUIRED, CANCELLED, FENCED}"
| "STATE_VALUES Artifact =
     {NOT_REQUIRED, PENDING, CREATED, QC_PENDING, QC_PASSED, QC_FAILED, REJECTED, SUPERSEDED}"
| "STATE_VALUES Delivery =
     {NOT_PLANNED, PLANNED, TICKET_ISSUED, FETCHING, UPLOADING, SENDING, CHANNEL_ACCEPTED, DELIVERED,
      FAILED_RETRYABLE, FAILED_FINAL, AMBIGUOUS, RECONCILE_REQUIRED, CANCELLED, FENCED}"

primrec INITIAL_STATES :: "machine_name \<Rightarrow> state_value" where
  "INITIAL_STATES Request = RECEIVED"
| "INITIAL_STATES Execution = NOT_STARTED"
| "INITIAL_STATES Artifact = PENDING"
| "INITIAL_STATES Delivery = NOT_PLANNED"

primrec TERMINAL_STATES :: "machine_name \<Rightarrow> state_value set" where
  "TERMINAL_STATES Request = {COMPLETED, PARTIAL, FAILED, CANCELLED, SUPERSEDED}"
| "TERMINAL_STATES Execution = {SUCCEEDED, FAILED_FINAL, CANCELLED, FENCED}"
| "TERMINAL_STATES Artifact = {NOT_REQUIRED, QC_PASSED, QC_FAILED, REJECTED, SUPERSEDED}"
| "TERMINAL_STATES Delivery = {DELIVERED, FAILED_FINAL, CANCELLED, FENCED}"

primrec TRANSITIONS :: "machine_name \<Rightarrow> (state_value \<times> state_value set) list" where
  "TRANSITIONS Request =
     [(RECEIVED, {QUEUED, PLANNING, FAILED, CANCELLED, SUPERSEDED}),
      (QUEUED, {PLANNING, FAILED, CANCELLED, SUPERSEDED}),
      (PLANNING, {WAITING_CONFIRMATION, EXECUTING, DELIVERING, FAILED, CANCELLED, SUPERSEDED}),
      (WAITING_CONFIRMATION, {PLANNING, EXECUTING, FAILED, CANCELLED, SUPERSEDED}),
      (EXECUTING, {VALIDATING_ARTIFACTS, DELIVERING, FAILED, CANCELLED, SUPERSEDED}),
      (VALIDATING_ARTIFACTS, {DELIVERING, FAILED, CANCELLED, SUPERSEDED}),
      (DELIVERING, {COMPLETED, PARTIAL, FAILED, CANCELLED, SUPERSEDED})]"
| "TRANSITIONS Execution =
     [(NOT_STARTED, {PLANNED, CANCELLED, FENCED}),
      (PLANNED, {TICKET_ISSUED, FAILED_FINAL, CANCELLED, FENCED}),
      (TICKET_ISSUED, {CLAIMED, FAILED_RETRYABLE, FAILED_FINAL, CANCELLED, FENCED}),
      (CLAIMED, {RUNNING, SUCCEEDED, FAILED_RETRYABLE, FAILED_FINAL, AMBIGUOUS, CANCELLED, FENCED}),
      (RUNNING, {SUCCEEDED, FAILED_RETRYABLE, FAILED_FINAL, AMBIGUOUS, CANCELLED, FENCED}),
      (FAILED_RETRYABLE, {TICKET_ISSUED, FAILED_FINAL, CANCELLED, FENCED}),
      (AMBIGUOUS, {RECONCILE_REQUIRED}),
      (RECONCILE_REQUIRED, {SUCCEEDED, FAILED_FINAL})]"
| "TRANSITIONS Artifact =
     [(PENDING, {CREATED, REJECTED, SUPERSEDED}),
      (CREATED, {QC_PENDING, REJECTED, SUPERSEDED}),
      (QC_PENDING, {QC_PASSED, QC_FAILED, REJECTED, SUPERSEDED})]"
| "TRANSITIONS Delivery =
     [(NOT_PLANNED, {PLANNED, CANCELLED, FENCED}),
      (PLANNED, {TICKET_ISSUED, FAILED_FINAL, CANCELLED, FENCED}),
      (TICKET_ISSUED, {FETCHING, SENDING, FAILED_RETRYABLE, FAILED_FINAL, CANCELLED, FENCED}),
      (FETCHING, {UPLOADING, SENDING, FAILED_RETRYABLE, FAILED_FINAL, CANCELLED, FENCED}),
      (UPLOADING, {SENDING, FAILED_RETRYABLE, FAILED_FINAL, AMBIGUOUS, CANCELLED, FENCED}),
      (SENDING, {CHANNEL_ACCEPTED, DELIVERED, FAILED_RETRYABLE, FAILED_FINAL, AMBIGUOUS, CANCELLED, FENCED}),
      (CHANNEL_ACCEPTED, {DELIVERED, AMBIGUOUS, RECONCILE_REQUIRED}),
      (FAILED_RETRYABLE, {TICKET_ISSUED, FAILED_FINAL, CANCELLED, FENCED}),
      (AMBIGUOUS, {RECONCILE_REQUIRED}),
      (RECONCILE_REQUIRED, {CHANNEL_ACCEPTED, DELIVERED, FAILED_FINAL})]"

text \<open>\<open>TRANSITIONS[machine].get(state, frozenset())\<close>\<close>

definition transitions_from :: "machine_name \<Rightarrow> state_value \<Rightarrow> state_value set" where
  "transitions_from m s = (case map_of (TRANSITIONS m) s of None \<Rightarrow> {} | Some t \<Rightarrow> t)"

primrec ALLOWED_OWNERS :: "machine_name \<Rightarrow> string set" where
  "ALLOWED_OWNERS Request = {''tiangong-total-gateway''}"
| "ALLOWED_OWNERS Artifact = {''tiangong-total-gateway''}"
| "ALLOWED_OWNERS Execution = {''tiangong-backend'', ''tiangong-total-gateway''}"
| "ALLOWED_OWNERS Delivery = {''tiangong-communication-service'', ''tiangong-total-gateway''}"

primrec EVIDENCE_REQUIRED :: "machine_name \<Rightarrow> state_value set" where
  "EVIDENCE_REQUIRED Request = {COMPLETED, PARTIAL, FAILED}"
| "EVIDENCE_REQUIRED Execution = {SUCCEEDED, FAILED_RETRYABLE, FAILED_FINAL, AMBIGUOUS, RECONCILE_REQUIRED}"
| "EVIDENCE_REQUIRED Artifact = {QC_PASSED, QC_FAILED, REJECTED}"
| "EVIDENCE_REQUIRED Delivery =
     {CHANNEL_ACCEPTED, DELIVERED, FAILED_RETRYABLE, FAILED_FINAL, AMBIGUOUS, RECONCILE_REQUIRED}"

section \<open>Snapshots and events\<close>

definition SCHEMA_VERSION :: string where
  "SCHEMA_VERSION = ''tiangong.gateway.contracts.v2''"

definition LEGACY_SCHEMA_VERSION :: string where
  "LEGACY_SCHEMA_VERSION = ''tiangong.gateway.contracts.v1''"

record state_snapshot =
  ss_schema_version :: string
  ss_machine :: machine_name
  ss_entity_id :: string
  ss_request_id :: string
  ss_run_id :: string
  ss_generation :: int
  ss_revision :: int
  ss_state :: state_value
  ss_created_at_ms :: int
  ss_updated_at_ms :: int
  ss_last_event_id :: "string option"

text \<open>Field constraints of the model, then the validator \<open>validate_machine_state\<close>.\<close>

definition snapshot_fields_ok :: "state_snapshot \<Rightarrow> bool" where
  "snapshot_fields_ok s \<longleftrightarrow>
     ss_schema_version s \<in> {LEGACY_SCHEMA_VERSION, SCHEMA_VERSION} \<and>
     OpaqueId (ss_entity_id s) \<and> RequestId (ss_request_id s) \<and> RunId (ss_run_id s) \<and>
     0 \<le> ss_generation s \<and> 0 \<le> ss_revision s \<and> 0 \<le> ss_created_at_ms s \<and>
     0 \<le> ss_updated_at_ms s \<and> opt_ok OpaqueId (ss_last_event_id s)"

definition StateSnapshot :: "state_snapshot \<Rightarrow> state_snapshot result" where
  "StateSnapshot s =
     (if \<not> snapshot_fields_ok s then Inl (ValueError ''field constraint'')
      else if ss_state s \<notin> STATE_VALUES (ss_machine s)
      then Inl (ValueError ''state does not belong to selected machine'')
      else if ss_updated_at_ms s < ss_created_at_ms s
      then Inl (ValueError ''state snapshot update predates creation'')
      else Inr s)"

definition is_terminal :: "state_snapshot \<Rightarrow> bool" where
  "is_terminal s \<longleftrightarrow> ss_state s \<in> TERMINAL_STATES (ss_machine s)"

record transition_event =
  te_schema_version :: string
  te_event_id :: string
  te_event_type :: string
  te_source_component_id :: string
  te_machine :: machine_name
  te_entity_id :: string
  te_request_id :: string
  te_run_id :: string
  te_generation :: int
  te_expected_revision :: int
  te_to_state :: state_value
  te_occurred_at_ms :: int
  te_fact_id :: "string option"
  te_evidence_sha256 :: "string option"
  te_side_effect_started :: bool
  te_event_sha256 :: string

definition event_fields_ok :: "transition_event \<Rightarrow> bool" where
  "event_fields_ok e \<longleftrightarrow>
     te_schema_version e \<in> {LEGACY_SCHEMA_VERSION, SCHEMA_VERSION} \<and>
     OpaqueId (te_event_id e) \<and> ReasonCode (te_event_type e) \<and>
     OpaqueId (te_source_component_id e) \<and> OpaqueId (te_entity_id e) \<and>
     RequestId (te_request_id e) \<and> RunId (te_run_id e) \<and> 0 \<le> te_generation e \<and>
     0 \<le> te_expected_revision e \<and> 0 \<le> te_occurred_at_ms e \<and> opt_ok OpaqueId (te_fact_id e) \<and>
     opt_ok Sha256 (te_evidence_sha256 e) \<and> Sha256 (te_event_sha256 e)"

definition TransitionEvent :: "transition_event \<Rightarrow> transition_event result" where
  "TransitionEvent e =
     (if \<not> event_fields_ok e then Inl (ValueError ''field constraint'')
      else if te_to_state e \<notin> STATE_VALUES (te_machine e)
      then Inl (ValueError ''target state does not belong to selected machine'')
      else Inr e)"

text \<open>\<open>model_dump(mode="json", exclude={"event_sha256"})\<close> and the digest over it.\<close>

definition event_dump :: "transition_event \<Rightarrow> pyval" where
  "event_dump e = jobj
     [(''schema_version'', jstr (te_schema_version e)),
      (''event_id'', jstr (te_event_id e)),
      (''event_type'', jstr (te_event_type e)),
      (''source_component_id'', jstr (te_source_component_id e)),
      (''machine'', jstr (machine_text (te_machine e))),
      (''entity_id'', jstr (te_entity_id e)),
      (''request_id'', jstr (te_request_id e)),
      (''run_id'', jstr (te_run_id e)),
      (''generation'', PInt (te_generation e)),
      (''expected_revision'', PInt (te_expected_revision e)),
      (''to_state'', jstr (state_text (te_to_state e))),
      (''occurred_at_ms'', PInt (te_occurred_at_ms e)),
      (''fact_id'', jopt (te_fact_id e)),
      (''evidence_sha256'', jopt (te_evidence_sha256 e)),
      (''side_effect_started'', PBool (te_side_effect_started e))]"

definition computed_event_sha256 :: "(nat list \<Rightarrow> string) \<Rightarrow> transition_event \<Rightarrow> string result" where
  "computed_event_sha256 sha256_hex e = canonical_sha256 sha256_hex (event_dump e)"

definition has_valid_event_sha256 :: "(nat list \<Rightarrow> string) \<Rightarrow> transition_event \<Rightarrow> bool result" where
  "has_valid_event_sha256 sha256_hex e =
     bind_result (computed_event_sha256 sha256_hex e) (\<lambda>h. Inr (te_event_sha256 e = h))"

definition with_computed_event_sha256 ::
    "(nat list \<Rightarrow> string) \<Rightarrow> transition_event \<Rightarrow> transition_event result" where
  "with_computed_event_sha256 sha256_hex e =
     bind_result (computed_event_sha256 sha256_hex e) (\<lambda>h. Inr (e\<lparr>te_event_sha256 := h\<rparr>))"

section \<open>Transitions\<close>

datatype disposition =
    APPLIED | DUPLICATE | LATE_IGNORED | FUTURE_REJECTED | REVISION_CONFLICT | OWNER_REJECTED
  | CONTEXT_REJECTED | TERMINAL_REJECTED | ILLEGAL_TRANSITION | EVIDENCE_REJECTED
  | EVENT_DIGEST_REJECTED | AMBIGUOUS_REQUIRED

record transition_decision =
  td_accepted :: bool
  td_disposition :: disposition
  td_reason_code :: string
  td_previous :: state_snapshot
  td_current :: state_snapshot

definition TransitionDecision :: "transition_decision \<Rightarrow> transition_decision result" where
  "TransitionDecision d =
     (if \<not> ReasonCode (td_reason_code d) then Inl (ValueError ''field constraint'')
      else if td_accepted d \<noteq> (td_disposition d = APPLIED)
      then Inl (ValueError ''only APPLIED transition is accepted'')
      else if \<not> td_accepted d \<and> td_previous d \<noteq> td_current d
      then Inl (ValueError ''rejected transition may not alter state'')
      else Inr d)"

definition new_state_snapshot ::
    "machine_name \<Rightarrow> string \<Rightarrow> string \<Rightarrow> string \<Rightarrow> int \<Rightarrow> int \<Rightarrow> bool \<Rightarrow> state_snapshot result" where
  "new_state_snapshot machine entity_id request_id run_id generation created_at_ms artifact_required =
     (let state = (if machine = Artifact \<and> \<not> artifact_required then NOT_REQUIRED
                   else INITIAL_STATES machine)
      in StateSnapshot
        \<lparr>ss_schema_version = SCHEMA_VERSION, ss_machine = machine, ss_entity_id = entity_id,
         ss_request_id = request_id, ss_run_id = run_id, ss_generation = generation,
         ss_revision = 0, ss_state = state, ss_created_at_ms = created_at_ms,
         ss_updated_at_ms = created_at_ms, ss_last_event_id = None\<rparr>)"

definition rejected :: "state_snapshot \<Rightarrow> disposition \<Rightarrow> string \<Rightarrow> transition_decision result" where
  "rejected snapshot dispo reason_code =
     TransitionDecision
       \<lparr>td_accepted = False, td_disposition = dispo, td_reason_code = reason_code,
        td_previous = snapshot, td_current = snapshot\<rparr>"

definition apply_transition ::
    "(nat list \<Rightarrow> string) \<Rightarrow> state_snapshot \<Rightarrow> transition_event \<Rightarrow> bool \<Rightarrow> transition_decision result" where
  "apply_transition sha256_hex snapshot event event_already_applied =
     bind_result (has_valid_event_sha256 sha256_hex event) (\<lambda>valid.
     if \<not> valid then rejected snapshot EVENT_DIGEST_REJECTED ''state.event.digest_invalid''
     else if event_already_applied then rejected snapshot DUPLICATE ''state.event.duplicate''
     else if te_machine event \<noteq> ss_machine snapshot \<or> te_entity_id event \<noteq> ss_entity_id snapshot \<or>
        te_request_id event \<noteq> ss_request_id snapshot \<or> te_run_id event \<noteq> ss_run_id snapshot
     then rejected snapshot CONTEXT_REJECTED ''state.event.context_mismatch''
     else if te_generation event < ss_generation snapshot
     then rejected snapshot LATE_IGNORED ''state.event.late_generation''
     else if te_generation event > ss_generation snapshot
     then rejected snapshot FUTURE_REJECTED ''state.event.future_generation''
     else if te_expected_revision event \<noteq> ss_revision snapshot
     then rejected snapshot REVISION_CONFLICT ''state.event.revision_conflict''
     else if te_occurred_at_ms event < ss_updated_at_ms snapshot
     then rejected snapshot LATE_IGNORED ''state.event.backdated''
     else if te_source_component_id event \<notin> ALLOWED_OWNERS (ss_machine snapshot)
     then rejected snapshot OWNER_REJECTED ''state.event.owner_rejected''
     else if is_terminal snapshot
     then rejected snapshot TERMINAL_REJECTED ''state.transition.terminal''
     else if te_to_state event \<notin> transitions_from (ss_machine snapshot) (ss_state snapshot)
     then rejected snapshot ILLEGAL_TRANSITION ''state.transition.illegal''
     else if ss_machine snapshot \<in> {Execution, Delivery} \<and> te_side_effect_started event \<and>
        te_to_state event \<in> {CANCELLED, FENCED, FAILED_RETRYABLE}
     then rejected snapshot AMBIGUOUS_REQUIRED ''state.side_effect.ambiguous_required''
     else if te_to_state event \<in> EVIDENCE_REQUIRED (ss_machine snapshot) \<and>
        \<not> (truthy (te_fact_id event) \<or> truthy (te_evidence_sha256 event))
     then rejected snapshot EVIDENCE_REJECTED ''state.transition.evidence_required''
     else TransitionDecision
       \<lparr>td_accepted = True, td_disposition = APPLIED, td_reason_code = ''state.transition.applied'',
        td_previous = snapshot,
        td_current = snapshot\<lparr>ss_revision := ss_revision snapshot + 1,
          ss_state := te_to_state event, ss_updated_at_ms := te_occurred_at_ms event,
          ss_last_event_id := Some (te_event_id event)\<rparr>\<rparr>)"

section \<open>Aggregate status of a request\<close>

datatype display_phase =
    Ph_received | Ph_planning | Ph_waiting_confirmation | Ph_executing | Ph_validating
  | Ph_delivering | Ph_channel_accepted | Ph_delivered | Ph_partial | Ph_failed | Ph_cancelled
  | Ph_superseded | Ph_reconcile_required

record aggregate_status =
  as_request_state :: state_value
  as_recommended_request_state :: state_value
  as_display_phase :: display_phase
  as_summary_code :: string
  as_can_claim_complete :: bool
  as_can_claim_delivered :: bool
  as_needs_reconciliation :: bool
  as_execution_count :: int
  as_artifact_count :: int
  as_delivery_count :: int

definition AggregateStatus :: "aggregate_status \<Rightarrow> aggregate_status result" where
  "AggregateStatus a =
     (if as_request_state a \<in> RequestStateValue \<and> as_recommended_request_state a \<in> RequestStateValue \<and>
         ReasonCode (as_summary_code a) \<and> 0 \<le> as_execution_count a \<and> 0 \<le> as_artifact_count a \<and>
         0 \<le> as_delivery_count a
      then Inr a else Inl (ValueError ''field constraint''))"

definition ensure_same_scope ::
    "state_snapshot \<Rightarrow> state_snapshot list \<Rightarrow> state_snapshot list result" where
  "ensure_same_scope request items =
     (if list_ex (\<lambda>item. ss_request_id item \<noteq> ss_request_id request \<or>
           ss_run_id item \<noteq> ss_run_id request \<or> ss_generation item \<noteq> ss_generation request) items
      then Inl (ValueError ''aggregate snapshot scope mismatch'')
      else Inr items)"

text \<open>The decision table of \<open>aggregate_request_status\<close>, after its argument checks: the nested
  function \<open>status\<close> and the chain of early returns.\<close>

definition status_of ::
    "state_snapshot \<Rightarrow> state_snapshot list \<Rightarrow> state_snapshot list \<Rightarrow> state_snapshot list \<Rightarrow>
     state_value \<Rightarrow> display_phase \<Rightarrow> string \<Rightarrow> bool \<Rightarrow> bool \<Rightarrow> bool \<Rightarrow> aggregate_status result" where
  "status_of request execution_items artifact_items delivery_items recommended phase code
     complete delivered reconcile =
     AggregateStatus
       \<lparr>as_request_state = ss_state request, as_recommended_request_state = recommended,
        as_display_phase = phase, as_summary_code = code, as_can_claim_complete = complete,
        as_can_claim_delivered = delivered, as_needs_reconciliation = reconcile,
        as_execution_count = int (length execution_items),
        as_artifact_count = int (length artifact_items),
        as_delivery_count = int (length delivery_items)\<rparr>"

definition in_states :: "state_value set \<Rightarrow> state_snapshot \<Rightarrow> bool" where
  "in_states S item \<longleftrightarrow> ss_state item \<in> S"

definition aggregate_decide ::
    "state_snapshot \<Rightarrow> state_snapshot list \<Rightarrow> state_snapshot list \<Rightarrow> state_snapshot list \<Rightarrow>
     aggregate_status result" where
  "aggregate_decide request execution_items artifact_items delivery_items =
     (let status = (\<lambda>recommended phase code.
            status_of request execution_items artifact_items delivery_items recommended phase code);
          all_children = execution_items @ artifact_items @ delivery_items;
          successful_delivery_states = {CHANNEL_ACCEPTED, DELIVERED}
      in
      if ss_state request = CANCELLED
      then status CANCELLED Ph_cancelled ''request.cancelled'' False False False
      else if ss_state request = SUPERSEDED
      then status SUPERSEDED Ph_superseded ''request.superseded'' False False False
      else if list_ex (in_states {AMBIGUOUS, RECONCILE_REQUIRED}) all_children
      then status (if delivery_items \<noteq> [] then DELIVERING else EXECUTING) Ph_reconcile_required
        ''request.reconcile_required'' False False True
      else if ss_state request = FAILED
      then status FAILED Ph_failed ''request.failed'' False False False
      else if ss_state request = PARTIAL
      then status PARTIAL Ph_partial ''request.partial'' False False False
      else if all_children = [] \<and> ss_state request \<in> {RECEIVED, QUEUED}
      then status (ss_state request) Ph_received ''request.received'' False False False
      else if all_children = [] \<and> ss_state request = PLANNING
      then status PLANNING Ph_planning ''request.planning'' False False False
      else if all_children = [] \<and> ss_state request = WAITING_CONFIRMATION
      then status WAITING_CONFIRMATION Ph_waiting_confirmation ''request.waiting_confirmation''
        False False False
      else if all_children = [] \<and> ss_state request = EXECUTING
      then status EXECUTING Ph_executing ''request.execution_not_started'' False False False
      else if all_children = [] \<and> ss_state request = VALIDATING_ARTIFACTS
      then status VALIDATING_ARTIFACTS Ph_validating ''request.artifact_validation_not_started''
        False False False
      else if list_ex (in_states {FAILED_FINAL, FENCED, CANCELLED}) (execution_items @ delivery_items) \<or>
         list_ex (in_states {QC_FAILED, REJECTED}) artifact_items
      then (if list_ex (in_states successful_delivery_states) delivery_items
            then status PARTIAL Ph_partial ''request.partial_delivery'' False False False
            else status FAILED Ph_failed ''request.child_failed'' False False False)
      else if list_ex (in_states {FAILED_RETRYABLE}) (execution_items @ delivery_items)
      then status
        (if list_ex (in_states {FAILED_RETRYABLE}) delivery_items then DELIVERING else EXECUTING)
        (if delivery_items \<noteq> [] then Ph_delivering else Ph_executing)
        ''request.retry_pending'' False False False
      else if execution_items \<noteq> [] \<and> \<not> list_all (in_states {SUCCEEDED}) execution_items
      then status EXECUTING Ph_executing ''request.execution_in_progress'' False False False
      else if artifact_items \<noteq> [] \<and>
         \<not> list_all (in_states {NOT_REQUIRED, QC_PASSED, SUPERSEDED}) artifact_items
      then status VALIDATING_ARTIFACTS Ph_validating ''request.artifact_validation_in_progress''
        False False False
      else if delivery_items = []
      then (if ss_state request = COMPLETED
            then status COMPLETED Ph_delivered ''request.delivered'' True True False
            else status
              (if ss_state request = WAITING_CONFIRMATION then WAITING_CONFIRMATION else DELIVERING)
              (if ss_state request = WAITING_CONFIRMATION then Ph_waiting_confirmation
               else Ph_delivering)
              ''request.delivery_not_planned'' False False False)
      else if list_all (in_states {DELIVERED}) delivery_items
      then status COMPLETED Ph_delivered ''request.delivered'' True True False
      else if list_all (in_states successful_delivery_states) delivery_items
      then status COMPLETED Ph_channel_accepted ''request.channel_accepted'' True False False
      else status DELIVERING Ph_delivering ''request.delivery_in_progress'' False False False)"

definition aggregate_request_status ::
    "state_snapshot \<Rightarrow> state_snapshot list \<Rightarrow> state_snapshot list \<Rightarrow> state_snapshot list \<Rightarrow>
     aggregate_status result" where
  "aggregate_request_status request executions artifacts deliveries =
     (if ss_machine request \<noteq> Request
      then Inl (ValueError ''aggregate root must be a request snapshot'')
      else bind_result (ensure_same_scope request executions) (\<lambda>execution_items.
      bind_result (ensure_same_scope request artifacts) (\<lambda>artifact_items.
      bind_result (ensure_same_scope request deliveries) (\<lambda>delivery_items.
      if list_ex (\<lambda>item. ss_machine item \<noteq> Execution) execution_items
      then Inl (ValueError ''execution aggregate contains wrong machine'')
      else if list_ex (\<lambda>item. ss_machine item \<noteq> Artifact) artifact_items
      then Inl (ValueError ''artifact aggregate contains wrong machine'')
      else if list_ex (\<lambda>item. ss_machine item \<noteq> Delivery) delivery_items
      then Inl (ValueError ''delivery aggregate contains wrong machine'')
      else aggregate_decide request execution_items artifact_items delivery_items))))"

section \<open>What the tables promise\<close>

locale transition_table =
  fixes states :: "'s set" and init :: 's and terminal :: "'s set" and succ :: "'s \<Rightarrow> 's set"
    and distance :: "'s \<Rightarrow> nat"
  assumes init_state: "init \<in> states"
    and terminal_states: "terminal \<subseteq> states"
    and succ_states: "s \<in> states \<Longrightarrow> succ s \<subseteq> states"
    and terminal_stuck: "s \<in> terminal \<Longrightarrow> succ s = {}"
    and progress: "s \<in> states \<Longrightarrow> s \<notin> terminal \<Longrightarrow> \<exists>t \<in> succ s. distance t < distance s"
begin

lemma stuck_iff_terminal: "s \<in> states \<Longrightarrow> succ s = {} \<longleftrightarrow> s \<in> terminal"
  using terminal_stuck progress by blast

lemma reaches_states: "(\<lambda>s t. t \<in> succ s)\<^sup>*\<^sup>* s t \<Longrightarrow> s \<in> states \<Longrightarrow> t \<in> states"
  by (induction rule: rtranclp_induct) (use succ_states in auto)

text \<open>From every state some terminal state can be reached, so no table has a trap.\<close>

lemma can_terminate: "s \<in> states \<Longrightarrow> \<exists>t \<in> terminal. (\<lambda>s t. t \<in> succ s)\<^sup>*\<^sup>* s t"
proof (induction "distance s" arbitrary: s rule: less_induct)
  case less
  show ?case
  proof (cases "s \<in> terminal")
    case True
    then show ?thesis by blast
  next
    case False
    with progress less.prems obtain t where t: "t \<in> succ s" "distance t < distance s" by blast
    with less.prems succ_states have "t \<in> states" by blast
    with less.hyps t(2) obtain u where "u \<in> terminal" "(\<lambda>s t. t \<in> succ s)\<^sup>*\<^sup>* t u" by blast
    with t(1) show ?thesis by (meson converse_rtranclp_into_rtranclp)
  qed
qed

end

text \<open>Distance to a terminal state: an ambiguous side effect has to be reconciled first.\<close>

definition exit_distance :: "machine_name \<Rightarrow> state_value \<Rightarrow> nat" where
  "exit_distance m s = (if s \<in> TERMINAL_STATES m then 0 else if s = AMBIGUOUS then 2 else 1)"

lemma table_progress:
  assumes "s \<in> STATE_VALUES m" "s \<notin> TERMINAL_STATES m"
  shows "\<exists>t \<in> transitions_from m s. exit_distance m t < exit_distance m s"
proof (cases m)
  case Request
  with assms have "FAILED \<in> transitions_from m s" by (auto simp: transitions_from_def)
  moreover have "exit_distance m FAILED < exit_distance m s"
    using assms Request by (simp add: exit_distance_def)
  ultimately show ?thesis by blast
next
  case Artifact
  with assms have "REJECTED \<in> transitions_from m s" by (auto simp: transitions_from_def)
  moreover have "exit_distance m REJECTED < exit_distance m s"
    using assms Artifact by (simp add: exit_distance_def)
  ultimately show ?thesis by blast
next
  case Execution
  with assms show ?thesis by (auto simp: transitions_from_def exit_distance_def)
next
  case Delivery
  with assms show ?thesis by (auto simp: transitions_from_def exit_distance_def)
qed

interpretation table: transition_table "STATE_VALUES m" "INITIAL_STATES m" "TERMINAL_STATES m"
    "transitions_from m" "exit_distance m" for m
proof
  show "INITIAL_STATES m \<in> STATE_VALUES m" by (cases m) simp_all
  show "TERMINAL_STATES m \<subseteq> STATE_VALUES m" by (cases m) simp_all
  show "transitions_from m s \<subseteq> STATE_VALUES m" for s
    by (cases m) (auto simp: transitions_from_def split: option.splits if_splits)
  show "transitions_from m s = {}" if "s \<in> TERMINAL_STATES m" for s
    using that by (cases m) (auto simp: transitions_from_def)
qed (rule table_progress)

section \<open>Decisions\<close>

lemma TransitionEvent_eq_Inr:
  "TransitionEvent e = Inr e' \<longleftrightarrow> e' = e \<and> event_fields_ok e \<and> te_to_state e \<in> STATE_VALUES (te_machine e)"
  by (auto simp: TransitionEvent_def)

lemma StateSnapshot_eq_Inr:
  "StateSnapshot s = Inr s' \<longleftrightarrow> s' = s \<and> snapshot_fields_ok s \<and> ss_state s \<in> STATE_VALUES (ss_machine s) \<and>
     ss_created_at_ms s \<le> ss_updated_at_ms s"
  by (auto simp: StateSnapshot_def)

lemma ok_StateSnapshot:
  "ok (StateSnapshot s) \<longleftrightarrow> snapshot_fields_ok s \<and> ss_state s \<in> STATE_VALUES (ss_machine s) \<and>
     ss_created_at_ms s \<le> ss_updated_at_ms s"
  by (auto simp: StateSnapshot_def)

text \<open>The guards of \<open>apply_transition\<close>, collected.\<close>

definition transition_enabled :: "state_snapshot \<Rightarrow> transition_event \<Rightarrow> bool" where
  "transition_enabled s e \<longleftrightarrow>
     te_machine e = ss_machine s \<and> te_entity_id e = ss_entity_id s \<and>
     te_request_id e = ss_request_id s \<and> te_run_id e = ss_run_id s \<and>
     te_generation e = ss_generation s \<and> te_expected_revision e = ss_revision s \<and>
     ss_updated_at_ms s \<le> te_occurred_at_ms e \<and>
     te_source_component_id e \<in> ALLOWED_OWNERS (ss_machine s) \<and>
     te_to_state e \<in> transitions_from (ss_machine s) (ss_state s) \<and>
     \<not> (ss_machine s \<in> {Execution, Delivery} \<and> te_side_effect_started e \<and>
         te_to_state e \<in> {CANCELLED, FENCED, FAILED_RETRYABLE}) \<and>
     (te_to_state e \<in> EVIDENCE_REQUIRED (ss_machine s) \<longrightarrow>
         truthy (te_fact_id e) \<or> truthy (te_evidence_sha256 e))"

definition advance :: "state_snapshot \<Rightarrow> transition_event \<Rightarrow> state_snapshot" where
  "advance s e = s\<lparr>ss_revision := ss_revision s + 1, ss_state := te_to_state e,
     ss_updated_at_ms := te_occurred_at_ms e, ss_last_event_id := Some (te_event_id e)\<rparr>"

lemma advance_simps [simp]:
  "ss_revision (advance s e) = ss_revision s + 1" "ss_state (advance s e) = te_to_state e"
  "ss_updated_at_ms (advance s e) = te_occurred_at_ms e"
  "ss_last_event_id (advance s e) = Some (te_event_id e)"
  "ss_machine (advance s e) = ss_machine s" "ss_entity_id (advance s e) = ss_entity_id s"
  "ss_request_id (advance s e) = ss_request_id s" "ss_run_id (advance s e) = ss_run_id s"
  "ss_generation (advance s e) = ss_generation s" "ss_created_at_ms (advance s e) = ss_created_at_ms s"
  "ss_schema_version (advance s e) = ss_schema_version s"
  by (simp_all add: advance_def)

lemma enabled_not_terminal: "transition_enabled s e \<Longrightarrow> \<not> is_terminal s"
  using table.terminal_stuck [of "ss_state s" "ss_machine s"]
  by (auto simp: transition_enabled_def is_terminal_def)

definition is_rejection :: "state_snapshot \<Rightarrow> transition_decision result \<Rightarrow> bool" where
  "is_rejection s r \<longleftrightarrow>
     (\<exists>d. r = Inr d \<and> td_previous d = s \<and> \<not> td_accepted d \<and> td_current d = s)"

lemma is_rejection_rejected: "ReasonCode r \<Longrightarrow> dispo \<noteq> APPLIED \<Longrightarrow> is_rejection s (rejected s dispo r)"
  by (simp add: rejected_def TransitionDecision_def is_rejection_def)

lemma is_rejection_if:
  "(b \<Longrightarrow> is_rejection s x) \<Longrightarrow> (\<not> b \<Longrightarrow> is_rejection s y) \<Longrightarrow> is_rejection s (if b then x else y)"
  by simp

lemmas string_class_defs = ReasonCode_def OpaqueId_def Sha256_def RequestId_def RunId_def
  prefixed_sha256_def is_hex_def is_digit_def is_lower_def is_upper_def

lemma state_reason_codes:
  "ReasonCode ''state.event.digest_invalid''" "ReasonCode ''state.event.duplicate''"
  "ReasonCode ''state.event.context_mismatch''" "ReasonCode ''state.event.late_generation''"
  "ReasonCode ''state.event.future_generation''" "ReasonCode ''state.event.revision_conflict''"
  "ReasonCode ''state.event.backdated''" "ReasonCode ''state.event.owner_rejected''"
  "ReasonCode ''state.transition.terminal''" "ReasonCode ''state.transition.illegal''"
  "ReasonCode ''state.side_effect.ambiguous_required''"
  "ReasonCode ''state.transition.evidence_required''" "ReasonCode ''state.transition.applied''"
  by code_simp+

lemma apply_transition_outcome:
  assumes "has_valid_event_sha256 H e = Inr valid"
  shows "\<exists>d. apply_transition H s e dup = Inr d \<and> td_previous d = s \<and>
    (if valid \<and> \<not> dup \<and> transition_enabled s e
     then td_accepted d \<and> td_disposition d = APPLIED \<and> td_current d = advance s e
     else \<not> td_accepted d \<and> td_current d = s)"
proof (cases "valid \<and> \<not> dup \<and> transition_enabled s e")
  case True
  then have "\<not> is_terminal s" using enabled_not_terminal by blast
  with True assms show ?thesis
    by (auto simp: apply_transition_def transition_enabled_def TransitionDecision_def advance_def
        state_reason_codes simp del: insert_iff)
next
  case False
  have "is_rejection s (apply_transition H s e dup)"
    unfolding apply_transition_def assms bind_result_Inr
    by (intro is_rejection_if is_rejection_rejected state_reason_codes disposition.distinct)
      (use False in \<open>unfold transition_enabled_def, blast | unfold transition_enabled_def, linarith\<close>)
  with False show ?thesis by (auto simp: is_rejection_def)
qed

section \<open>Runs\<close>

text \<open>
  One attempt to move a machine with a validated event, accepted or not.  Whether the event is
  already known (\<open>event_already_applied\<close>) is decided by the store; the step leaves it open.
\<close>

inductive machine_step :: "(nat list \<Rightarrow> string) \<Rightarrow> state_snapshot \<Rightarrow> state_snapshot \<Rightarrow> bool"
  for H :: "nat list \<Rightarrow> string" where
  attempt: "TransitionEvent e = Inr e \<Longrightarrow> apply_transition H s e dup = Inr d \<Longrightarrow>
    machine_step H s (td_current d)"

inductive_cases machine_stepE: "machine_step H s s'"

lemma apply_transition_Inr:
  assumes "apply_transition H s e dup = Inr d"
  shows "td_previous d = s"
    and "td_accepted d \<longleftrightarrow> has_valid_event_sha256 H e = Inr True \<and> \<not> dup \<and> transition_enabled s e"
    and "td_current d = (if td_accepted d then advance s e else s)"
proof -
  from assms obtain valid where v: "has_valid_event_sha256 H e = Inr valid"
    by (auto simp: apply_transition_def bind_result_eq_Inr)
  show "td_previous d = s"
    and "td_accepted d \<longleftrightarrow> has_valid_event_sha256 H e = Inr True \<and> \<not> dup \<and> transition_enabled s e"
    and "td_current d = (if td_accepted d then advance s e else s)"
    using apply_transition_outcome [OF v, of s dup] assms v by (auto split: if_splits)
qed

lemma machine_step_iff:
  "machine_step H s s' \<longleftrightarrow>
    (\<exists>e dup. TransitionEvent e = Inr e \<and> (\<exists>d. apply_transition H s e dup = Inr d) \<and>
      (s' = s \<or> has_valid_event_sha256 H e = Inr True \<and> \<not> dup \<and> transition_enabled s e \<and> s' = advance s e))"
  (is "?l \<longleftrightarrow> ?r")
proof
  assume ?l
  then show ?r by (rule machine_stepE) (metis apply_transition_Inr(2,3))
next
  assume ?r
  then obtain e dup d where e: "TransitionEvent e = Inr e" and d: "apply_transition H s e dup = Inr d"
    and s': "s' = s \<or> has_valid_event_sha256 H e = Inr True \<and> \<not> dup \<and> transition_enabled s e \<and> s' = advance s e"
    by blast
  show ?l
  proof (cases "td_current d = s'")
    case True
    with machine_step.attempt [OF e d] show ?thesis by simp
  next
    case False
    with s' apply_transition_Inr [OF d] have "s' = s" by auto
    from d obtain v where "has_valid_event_sha256 H e = Inr v"
      by (auto simp: apply_transition_def bind_result_eq_Inr)
    with apply_transition_outcome [of H e v s True]
    obtain d' where "apply_transition H s e True = Inr d'" "td_current d' = s" by auto
    with machine_step.attempt [OF e] \<open>s' = s\<close> show ?thesis by metis
  qed
qed

lemma machine_step_cases:
  assumes "machine_step H s s'"
  obtains (same) "s' = s"
  | (moved) e where "TransitionEvent e = Inr e" "has_valid_event_sha256 H e = Inr True"
      "transition_enabled s e" "s' = advance s e"
  using assms unfolding machine_step_iff by blast

lemma advance_valid:
  assumes "ok (StateSnapshot s)" "TransitionEvent e = Inr e" "transition_enabled s e"
  shows "ok (StateSnapshot (advance s e))"
  using assms by (auto simp: ok_StateSnapshot TransitionEvent_eq_Inr transition_enabled_def
      snapshot_fields_ok_def event_fields_ok_def)

definition same_instance :: "state_snapshot \<Rightarrow> state_snapshot \<Rightarrow> bool" where
  "same_instance s t \<longleftrightarrow> ss_machine t = ss_machine s \<and> ss_entity_id t = ss_entity_id s \<and>
     ss_request_id t = ss_request_id s \<and> ss_run_id t = ss_run_id s \<and>
     ss_generation t = ss_generation s \<and> ss_created_at_ms t = ss_created_at_ms s"

lemma machine_run_valid:
  assumes "(machine_step H)\<^sup>*\<^sup>* s t" "ok (StateSnapshot s)"
  shows "ok (StateSnapshot t)"
  using assms by (induction rule: rtranclp_induct)
    (auto elim!: machine_step_cases intro: advance_valid)

lemma machine_run_same_instance: "(machine_step H)\<^sup>*\<^sup>* s t \<Longrightarrow> same_instance s t"
proof (induction rule: rtranclp_induct)
  case (step t u)
  from step.hyps(2) step.IH show ?case by (cases rule: machine_step_cases) (auto simp: same_instance_def)
qed (simp add: same_instance_def)

lemma machine_run_monotone:
  assumes "(machine_step H)\<^sup>*\<^sup>* s t"
  shows "ss_revision s \<le> ss_revision t \<and> ss_updated_at_ms s \<le> ss_updated_at_ms t \<and>
    (ss_revision t = ss_revision s \<longrightarrow> t = s)"
  using assms
proof (induction rule: rtranclp_induct)
  case (step t u)
  from step.hyps(2) step.IH show ?case
    by (cases rule: machine_step_cases) (auto simp: transition_enabled_def)
qed simp

lemma machine_run_table:
  assumes "(machine_step H)\<^sup>*\<^sup>* s t"
  shows "(\<lambda>x y. y \<in> transitions_from (ss_machine s) x)\<^sup>*\<^sup>* (ss_state s) (ss_state t)"
  using assms
proof (induction rule: rtranclp_induct)
  case (step t u)
  have m: "ss_machine t = ss_machine s"
    using machine_run_same_instance [OF step.hyps(1)] by (simp add: same_instance_def)
  from step.hyps(2) show ?case
  proof (cases rule: machine_step_cases)
    case (moved e)
    with m have "te_to_state e \<in> transitions_from (ss_machine s) (ss_state t)"
      by (simp add: transition_enabled_def)
    with step.IH moved(4) show ?thesis by (auto intro: rtranclp.rtrancl_into_rtrancl)
  qed (use step.IH in simp)
qed simp

lemma new_state_snapshot_Inr:
  assumes "new_state_snapshot m ent req run gen t a = Inr s"
  shows "ok (StateSnapshot s)" "ss_revision s = 0" "ss_machine s = m"
    "ss_state s = (if m = Artifact \<and> \<not> a then NOT_REQUIRED else INITIAL_STATES m)"
  using assms by (auto simp: new_state_snapshot_def Let_def StateSnapshot_eq_Inr ok_StateSnapshot)

section \<open>Digest of an event\<close>

lemma representable_event_dump:
  "representable (event_dump e) \<longleftrightarrow>
    (\<forall>i \<in> {te_generation e, te_expected_revision e, te_occurred_at_ms e}.
      - MAX_SAFE_INTEGER \<le> i \<and> i \<le> MAX_SAFE_INTEGER)"
  by (auto simp: event_dump_def)

lemma ok_has_valid_event_sha256:
  "ok (has_valid_event_sha256 H e) \<longleftrightarrow> representable (event_dump e)"
  by (simp add: has_valid_event_sha256_def computed_event_sha256_def canonical_sha256_def
      canonical_json_bytes_def ok_canonical_value)

lemma ok_apply_transition: "ok (apply_transition H s e dup) \<longleftrightarrow> representable (event_dump e)"
proof (cases "has_valid_event_sha256 H e")
  case (Inl err)
  then have "\<not> representable (event_dump e)" using ok_has_valid_event_sha256 [of H e] by simp
  with Inl show ?thesis by (simp add: apply_transition_def)
next
  case (Inr v)
  then have "representable (event_dump e)" using ok_has_valid_event_sha256 [of H e] by simp
  with apply_transition_outcome [OF Inr] show ?thesis by (auto simp: ok_iff)
qed

section \<open>A generic move\<close>

text \<open>An event that moves a snapshot to a given successor state, reported by the gateway with a
  fact and no started side effect; used to show that machines are not stuck.\<close>

definition gateway_draft :: "state_snapshot \<Rightarrow> state_value \<Rightarrow> transition_event" where
  "gateway_draft s to =
     \<lparr>te_schema_version = SCHEMA_VERSION, te_event_id = ''evt'', te_event_type = ''move'',
      te_source_component_id = ''tiangong-total-gateway'', te_machine = ss_machine s,
      te_entity_id = ss_entity_id s, te_request_id = ss_request_id s, te_run_id = ss_run_id s,
      te_generation = ss_generation s, te_expected_revision = ss_revision s, te_to_state = to,
      te_occurred_at_ms = ss_updated_at_ms s, te_fact_id = Some ''fact'', te_evidence_sha256 = None,
      te_side_effect_started = False, te_event_sha256 = []\<rparr>"

lemma event_dump_ignores_sha: "event_dump (e\<lparr>te_event_sha256 := h\<rparr>) = event_dump e"
  by (simp add: event_dump_def)

lemma with_computed_event_sha256_valid:
  assumes "with_computed_event_sha256 H e = Inr e'"
  shows "has_valid_event_sha256 H e' = Inr True"
  using assms by (auto simp: with_computed_event_sha256_def has_valid_event_sha256_def
      computed_event_sha256_def bind_result_eq_Inr event_dump_ignores_sha)

lemma gateway_draft_ok:
  assumes "snapshot_fields_ok s" "Sha256 h"
  shows "event_fields_ok ((gateway_draft s to)\<lparr>te_event_sha256 := h\<rparr>)"
proof -
  have "OpaqueId ''evt''" "OpaqueId ''fact''" "ReasonCode ''move''" "OpaqueId ''tiangong-total-gateway''"
    by code_simp+
  with assms show ?thesis
    by (simp add: event_fields_ok_def gateway_draft_def snapshot_fields_ok_def)
qed

lemma gateway_draft_enabled:
  assumes "to \<in> transitions_from (ss_machine s) (ss_state s)"
  shows "transition_enabled s ((gateway_draft s to)\<lparr>te_event_sha256 := h\<rparr>)"
proof -
  have "''tiangong-total-gateway'' \<in> ALLOWED_OWNERS m" for m by (cases m) simp_all
  with assms show ?thesis by (simp add: transition_enabled_def gateway_draft_def)
qed

lemma gateway_moves:
  assumes s: "ok (StateSnapshot s)" and to: "to \<in> transitions_from (ss_machine s) (ss_state s)"
    and H: "\<And>bs. Sha256 (H bs)"
    and range: "ss_generation s \<le> MAX_SAFE_INTEGER" "ss_revision s \<le> MAX_SAFE_INTEGER"
      "ss_updated_at_ms s \<le> MAX_SAFE_INTEGER"
  shows "machine_step H s (advance s (gateway_draft s to))"
proof -
  let ?e = "gateway_draft s to"
  have fields: "snapshot_fields_ok s" and st: "ss_state s \<in> STATE_VALUES (ss_machine s)"
    using s by (simp_all add: ok_StateSnapshot)
  have "representable (event_dump ?e)"
    using range fields by (auto simp: representable_event_dump gateway_draft_def snapshot_fields_ok_def
        MAX_SAFE_INTEGER_def)
  then have "ok (has_valid_event_sha256 H ?e)" by (simp add: ok_has_valid_event_sha256)
  then obtain h where h: "computed_event_sha256 H ?e = Inr h"
    by (auto simp: ok_iff has_valid_event_sha256_def bind_result_eq_Inr)
  then have sha: "Sha256 h"
    using H by (auto simp: computed_event_sha256_def canonical_sha256_def bind_result_eq_Inr)
  let ?e' = "?e\<lparr>te_event_sha256 := h\<rparr>"
  have "to \<in> STATE_VALUES (ss_machine s)" using table.succ_states [OF st] to by blast
  then have ev: "TransitionEvent ?e' = Inr ?e'"
    using gateway_draft_ok [OF fields sha] by (simp add: TransitionEvent_eq_Inr gateway_draft_def)
  have valid: "has_valid_event_sha256 H ?e' = Inr True"
    by (rule with_computed_event_sha256_valid [of H ?e]) (simp add: with_computed_event_sha256_def h)
  have "advance s ?e' = advance s ?e" by (simp add: advance_def)
  then show ?thesis
    unfolding machine_step_iff
    using ev valid gateway_draft_enabled [OF to] apply_transition_outcome [OF valid, of s False] by metis
qed

lemma machine_can_terminate:
  assumes "ok (StateSnapshot s)" and "\<And>bs. Sha256 (H bs)"
    and "ss_generation s \<le> MAX_SAFE_INTEGER" "ss_updated_at_ms s \<le> MAX_SAFE_INTEGER"
      "ss_revision s + int (exit_distance (ss_machine s) (ss_state s)) \<le> MAX_SAFE_INTEGER"
  shows "\<exists>t. (machine_step H)\<^sup>*\<^sup>* s t \<and> is_terminal t"
  using assms(1,3,4,5)
proof (induction "exit_distance (ss_machine s) (ss_state s)" arbitrary: s rule: less_induct)
  case less
  show ?case
  proof (cases "is_terminal s")
    case False
    with less.prems(1) obtain to where to: "to \<in> transitions_from (ss_machine s) (ss_state s)"
        "exit_distance (ss_machine s) to < exit_distance (ss_machine s) (ss_state s)"
      using table_progress by (auto simp: is_terminal_def ok_StateSnapshot)
    have rev: "ss_revision s \<le> MAX_SAFE_INTEGER" using less.prems(4) by linarith
    let ?t = "advance s (gateway_draft s to)"
    note mv = gateway_moves [OF less.prems(1) to(1) assms(2) less.prems(2) rev less.prems(3)]
    have "\<exists>u. (machine_step H)\<^sup>*\<^sup>* ?t u \<and> is_terminal u"
    proof (rule less.hyps)
      show "ok (StateSnapshot ?t)"
        by (rule machine_run_valid [OF r_into_rtranclp [of "machine_step H", OF mv] less.prems(1)])
    qed (use less.prems to(2) in \<open>auto simp: gateway_draft_def\<close>)
    with mv show ?thesis by (meson converse_rtranclp_into_rtranclp)
  qed blast
qed

section \<open>Sample instances\<close>

text \<open>Concrete inputs for the witnesses below, and a stand-in for SHA-256 with its output format.\<close>

definition sample_request_id :: string where
  "sample_request_id = ''req_'' @ replicate 64 (CHR ''a'')"

definition sample_run_id :: string where
  "sample_run_id = ''run_'' @ replicate 64 (CHR ''b'')"

definition sample_snapshot :: "machine_name \<Rightarrow> state_value \<Rightarrow> state_snapshot" where
  "sample_snapshot m st =
     \<lparr>ss_schema_version = SCHEMA_VERSION, ss_machine = m, ss_entity_id = ''e1'',
      ss_request_id = sample_request_id, ss_run_id = sample_run_id,
      ss_generation = 0, ss_revision = 0, ss_state = st, ss_created_at_ms = 5,
      ss_updated_at_ms = 5, ss_last_event_id = None\<rparr>"

definition sample_event :: "machine_name \<Rightarrow> state_value \<Rightarrow> state_value \<Rightarrow> bool \<Rightarrow> transition_event" where
  "sample_event m st to started =
     (gateway_draft (sample_snapshot m st) to)
       \<lparr>te_side_effect_started := started, te_event_sha256 := zero_hash []\<rparr>"

lemma sample_snapshot_simps [simp]:
  "ss_machine (sample_snapshot m st) = m" "ss_state (sample_snapshot m st) = st"
  "ss_request_id (sample_snapshot m st) = sample_request_id"
  "ss_run_id (sample_snapshot m st) = sample_run_id"
  "ss_generation (sample_snapshot m st) = 0" "ss_revision (sample_snapshot m st) = 0"
  "ss_updated_at_ms (sample_snapshot m st) = 5" "ss_created_at_ms (sample_snapshot m st) = 5"
  by (simp_all add: sample_snapshot_def)

lemma sample_fields_ok: "snapshot_fields_ok (sample_snapshot m st)"
proof -
  have "OpaqueId ''e1''" by code_simp
  moreover have "RequestId sample_request_id" unfolding sample_request_id_def by code_simp
  moreover have "RunId sample_run_id" unfolding sample_run_id_def by code_simp
  ultimately show ?thesis by (simp add: snapshot_fields_ok_def sample_snapshot_def)
qed

lemma sample_snapshot_ok:
  "st \<in> STATE_VALUES m \<Longrightarrow> ok (StateSnapshot (sample_snapshot m st))"
  using sample_fields_ok [of m st] by (simp add: ok_StateSnapshot sample_snapshot_def)

lemma sample_event_ok:
  "to \<in> STATE_VALUES m \<Longrightarrow> TransitionEvent (sample_event m st to b) = Inr (sample_event m st to b)"
  using gateway_draft_ok [OF sample_fields_ok [of m st] Sha256_zero_hash [of "[]"], of to]
  by (simp add: TransitionEvent_eq_Inr sample_event_def event_fields_ok_def gateway_draft_def
      sample_snapshot_def)

lemma sample_event_valid: "has_valid_event_sha256 zero_hash (sample_event m st to b) = Inr True"
proof -
  have "representable (event_dump (sample_event m st to b))"
    by (simp add: representable_event_dump sample_event_def gateway_draft_def sample_snapshot_def
        MAX_SAFE_INTEGER_def)
  then have "ok (has_valid_event_sha256 zero_hash (sample_event m st to b))"
    by (simp add: ok_has_valid_event_sha256)
  then show ?thesis
    by (auto simp: ok_iff has_valid_event_sha256_def computed_event_sha256_def canonical_sha256_def
        bind_result_eq_Inr zero_hash_def sample_event_def)
qed

lemma sample_event_enabled:
  assumes "to \<in> transitions_from m st"
    and "\<not> (m \<in> {Execution, Delivery} \<and> b \<and> to \<in> {CANCELLED, FENCED, FAILED_RETRYABLE})"
  shows "transition_enabled (sample_snapshot m st) (sample_event m st to b)"
proof -
  have "''tiangong-total-gateway'' \<in> ALLOWED_OWNERS m" by (cases m) simp_all
  with assms show ?thesis
    by (auto simp: transition_enabled_def sample_event_def gateway_draft_def sample_snapshot_def)
qed

lemma sample_event_accepted:
  assumes "to \<in> transitions_from m st"
    and "\<not> (m \<in> {Execution, Delivery} \<and> b \<and> to \<in> {CANCELLED, FENCED, FAILED_RETRYABLE})"
  obtains d where "apply_transition zero_hash (sample_snapshot m st) (sample_event m st to b) False = Inr d"
    "td_accepted d" "ss_state (td_current d) = to"
  using apply_transition_outcome [OF sample_event_valid [of m st to b],
      where s = "sample_snapshot m st" and dup = False]
    sample_event_enabled [OF assms]
  by (auto simp: sample_event_def gateway_draft_def)

lemma sample_run:
  assumes "to \<in> transitions_from m st" "st \<in> STATE_VALUES m"
  obtains t where "(machine_step zero_hash)\<^sup>*\<^sup>* (sample_snapshot m st) t" "ss_state t = to"
proof -
  obtain d where d: "apply_transition zero_hash (sample_snapshot m st) (sample_event m st to False) False = Inr d"
      "ss_state (td_current d) = to"
    using sample_event_accepted [OF assms(1), of False] by auto
  have "to \<in> STATE_VALUES m" using table.succ_states assms by blast
  then have "machine_step zero_hash (sample_snapshot m st) (td_current d)"
    using sample_event_ok d(1) by (intro machine_step.attempt) auto
  with d(2) show thesis using that by blast
qed

section \<open>Main results: the state machines\<close>

text \<open>C10: \<open>apply_transition\<close> changes a snapshot only along its transition table: every snapshot
  reached from a newly created one by any sequence of validated events, accepted or not, satisfies
  the model validators (although \<open>model_copy\<close> does not run them) and belongs to the same request,
  run, generation and machine.\<close>

theorem machine_run_invariant:
  assumes "new_state_snapshot m ent req run gen t a = Inr s0" and "(machine_step H)\<^sup>*\<^sup>* s0 s"
  shows "StateSnapshot s = Inr s \<and> same_instance s0 s \<and> ss_state s \<in> STATE_VALUES m \<and>
    (\<lambda>x y. y \<in> transitions_from m x)\<^sup>*\<^sup>* (ss_state s0) (ss_state s)"
proof -
  have init: "ok (StateSnapshot s0)" "ss_machine s0 = m"
    using new_state_snapshot_Inr [OF assms(1)] by auto
  have "ok (StateSnapshot s)" using assms(2) init(1) by (rule machine_run_valid)
  moreover have "same_instance s0 s" using assms(2) by (rule machine_run_same_instance)
  ultimately show ?thesis
    using machine_run_table [OF assms(2)] init(2)
    by (auto simp: StateSnapshot_eq_Inr ok_StateSnapshot same_instance_def)
qed

theorem machine_run_invariant_witness:
  "\<exists>s. (machine_step zero_hash)\<^sup>*\<^sup>* (sample_snapshot Execution NOT_STARTED) s \<and> ss_state s = PLANNED \<and>
     StateSnapshot s = Inr s"
proof -
  have new: "new_state_snapshot Execution ''e1'' sample_request_id sample_run_id 0 5 True =
      Inr (sample_snapshot Execution NOT_STARTED)"
    using sample_snapshot_ok [of NOT_STARTED Execution]
    by (simp add: new_state_snapshot_def StateSnapshot_eq_Inr ok_StateSnapshot sample_snapshot_def)
  obtain t where t: "(machine_step zero_hash)\<^sup>*\<^sup>* (sample_snapshot Execution NOT_STARTED) t" "ss_state t = PLANNED"
    using sample_run [of PLANNED Execution NOT_STARTED] by (auto simp: transitions_from_def)
  from machine_run_invariant [OF new t(1)] t show ?thesis by blast
qed

text \<open>C3: an event that was accepted is never accepted again, at the snapshot it produced or at any
  later one, even if the store's duplicate check is bypassed: the decision is a rejection and the
  snapshot is unchanged.\<close>

theorem accepted_event_not_replayed:
  assumes "apply_transition H s e dup = Inr d" "td_accepted d" "(machine_step H)\<^sup>*\<^sup>* (td_current d) t"
  shows "\<exists>d'. apply_transition H t e dup' = Inr d' \<and> \<not> td_accepted d' \<and> td_current d' = t"
proof -
  note acc = apply_transition_Inr [OF assms(1)]
  have "has_valid_event_sha256 H e = Inr True" using acc(2) assms(2) by simp
  moreover have "\<not> transition_enabled t e"
    using acc assms(2) machine_run_monotone [OF assms(3)] by (auto simp: transition_enabled_def)
  ultimately show ?thesis using apply_transition_outcome [of H e True t dup'] by auto
qed

theorem accepted_event_not_replayed_witness:
  "\<exists>t d'. ss_state t = SUCCEEDED \<and>
     apply_transition zero_hash t (sample_event Execution RUNNING SUCCEEDED True) False = Inr d' \<and>
     \<not> td_accepted d' \<and> td_current d' = t"
proof -
  have tr: "SUCCEEDED \<in> transitions_from Execution RUNNING" by (simp add: transitions_from_def)
  obtain d where d: "apply_transition zero_hash (sample_snapshot Execution RUNNING)
      (sample_event Execution RUNNING SUCCEEDED True) False = Inr d" "td_accepted d"
      "ss_state (td_current d) = SUCCEEDED"
    using sample_event_accepted [OF tr, of True] by auto
  from accepted_event_not_replayed [OF d(1,2) rtranclp.rtrancl_refl, of False] d(3) show ?thesis by blast
qed

text \<open>C37: along any sequence of events the revision never decreases, a snapshot with the same
  revision is the same snapshot, time does not run backwards, and a terminal snapshot never
  changes.\<close>

theorem machine_run_linear:
  assumes "(machine_step H)\<^sup>*\<^sup>* s t"
  shows "ss_revision s \<le> ss_revision t \<and> ss_updated_at_ms s \<le> ss_updated_at_ms t \<and>
    (ss_revision t = ss_revision s \<longrightarrow> t = s) \<and> (is_terminal s \<longrightarrow> t = s)"
proof -
  have "t = s" if "is_terminal s"
    using assms that
  proof (induction rule: rtranclp_induct)
    case (step t u)
    then have "t = s" by blast
    with step.hyps(2) step.prems show ?case
      by (cases rule: machine_step_cases) (auto dest: enabled_not_terminal)
  qed simp
  with machine_run_monotone [OF assms] show ?thesis by blast
qed

theorem machine_run_linear_witness:
  "\<exists>t. (machine_step zero_hash)\<^sup>*\<^sup>* (sample_snapshot Artifact QC_PENDING) t \<and>
     ss_state t = QC_PASSED \<and> ss_updated_at_ms (sample_snapshot Artifact QC_PENDING) \<le> ss_updated_at_ms t"
proof -
  obtain t where t: "(machine_step zero_hash)\<^sup>*\<^sup>* (sample_snapshot Artifact QC_PENDING) t" "ss_state t = QC_PASSED"
    using sample_run [of QC_PASSED Artifact QC_PENDING] by (auto simp: transitions_from_def)
  from machine_run_linear [OF t(1)] t show ?thesis by blast
qed

text \<open>no machine is trapped: from every valid snapshot (with integers the digest accepts) some
  sequence of events leads to a terminal state.\<close>

lemma machine_terminable:
  assumes "ok (StateSnapshot s)" and "\<forall>bs. Sha256 (H bs)"
    and "ss_generation s \<le> MAX_SAFE_INTEGER" "ss_updated_at_ms s \<le> MAX_SAFE_INTEGER"
    and "ss_revision s + 2 \<le> MAX_SAFE_INTEGER"
  shows "\<exists>t. (machine_step H)\<^sup>*\<^sup>* s t \<and> is_terminal t"
proof (rule machine_can_terminate)
  have "exit_distance (ss_machine s) (ss_state s) \<le> 2" by (simp add: exit_distance_def)
  with assms(5) show "ss_revision s + int (exit_distance (ss_machine s) (ss_state s)) \<le> MAX_SAFE_INTEGER"
    by linarith
qed (use assms in auto)

text \<open>The snapshot has no field for the side effect: the flag counts in the event that carries it.  An execution
  whose start was reported with the flag set, as the gateway does when it moves a claimed execution to RUNNING,
  is retried when its failure is then reported without the flag.\<close>

lemma start_flag_not_remembered:
  "\<exists>d u. apply_transition zero_hash (sample_snapshot Execution CLAIMED)
      (sample_event Execution CLAIMED RUNNING True) False = Inr d \<and> td_accepted d \<and>
    (machine_step zero_hash)\<^sup>*\<^sup>* (td_current d) u \<and> ss_state u = TICKET_ISSUED"
proof -
  let ?s = "sample_snapshot Execution CLAIMED" and ?e = "sample_event Execution CLAIMED RUNNING True"
  have "RUNNING \<in> transitions_from Execution CLAIMED" by (simp add: transitions_from_def)
  then obtain d where d: "apply_transition zero_hash ?s ?e False = Inr d" "td_accepted d" "ss_state (td_current d) = RUNNING"
    using sample_event_accepted [of RUNNING Execution CLAIMED True] by auto
  let ?t = "td_current d" let ?u = "advance ?t (gateway_draft ?t FAILED_RETRYABLE)"
  let ?v = "advance ?u (gateway_draft ?u TICKET_ISSUED)"
  have t: "?t = advance ?s ?e" using apply_transition_Inr [OF d(1)] d(2) by simp
  have step: "machine_step zero_hash ?s ?t"
    by (rule machine_step.attempt [OF sample_event_ok d(1)]) simp
  have sha: "\<And>bs. Sha256 (zero_hash bs)" by (rule Sha256_zero_hash)
  have at: "te_occurred_at_ms ?e = 5" "te_to_state ?e = RUNNING" by (simp_all add: sample_event_def gateway_draft_def)
  have t_ok: "ok (StateSnapshot ?t)"
    by (rule machine_run_valid [OF r_into_rtranclp [of "machine_step zero_hash", OF step] sample_snapshot_ok]) simp
  have 1: "machine_step zero_hash ?t ?u"
    by (rule gateway_moves [OF t_ok _ sha]) (simp_all add: t at transitions_from_def MAX_SAFE_INTEGER_def advance_def)
  have u_ok: "ok (StateSnapshot ?u)" by (rule machine_run_valid [OF r_into_rtranclp [of "machine_step zero_hash", OF 1] t_ok])
  have 2: "machine_step zero_hash ?u ?v"
    by (rule gateway_moves [OF u_ok _ sha])
      (simp_all add: t at transitions_from_def MAX_SAFE_INTEGER_def advance_def gateway_draft_def)
  have "(machine_step zero_hash)\<^sup>*\<^sup>* ?t ?v" using 1 2 by (meson converse_rtranclp_into_rtranclp r_into_rtranclp)
  moreover have "ss_state ?v = TICKET_ISSUED" by (simp add: gateway_draft_def)
  ultimately show ?thesis using d by blast
qed

text \<open>C32: An execution that ends with a reported side effect is never executed again.  If an accepted event
  leaves RUNNING, or leaves CLAIMED without entering RUNNING, and itself reports a started side effect, or if
  the machine is already AMBIGUOUS, every later state is a reconciliation state or a final outcome: no new
  ticket, claim or run, and no cancellation.  A side effect reported only by the event that enters RUNNING is
  not covered: the machine does not remember it, as the lemma above shows.\<close>

theorem no_replay_after_side_effect:
  assumes "ss_machine s = Execution" "(machine_step H)\<^sup>*\<^sup>* t u"
    and "ss_state s = AMBIGUOUS \<and> t = s \<or>
      (ss_state s = RUNNING \<or> ss_state s = CLAIMED \<and> te_to_state e \<noteq> RUNNING) \<and>
      te_side_effect_started e \<and> apply_transition H s e dup = Inr d \<and> td_accepted d \<and> t = td_current d"
  shows "ss_state u \<in> {AMBIGUOUS, RECONCILE_REQUIRED, SUCCEEDED, FAILED_FINAL}"
proof -
  let ?Q = "{AMBIGUOUS, RECONCILE_REQUIRED, SUCCEEDED, FAILED_FINAL}"
  have t: "ss_state t \<in> ?Q \<and> ss_machine t = Execution"
    using assms(3)
  proof
    assume run: "(ss_state s = RUNNING \<or> ss_state s = CLAIMED \<and> te_to_state e \<noteq> RUNNING) \<and>
      te_side_effect_started e \<and> apply_transition H s e dup = Inr d \<and> td_accepted d \<and> t = td_current d"
    then have "apply_transition H s e dup = Inr d" "td_accepted d" by simp_all
    note acc = apply_transition_Inr [OF this(1)] this(2)
    have en: "transition_enabled s e" and adv: "t = advance s e" using acc run by simp_all
    have "te_to_state e \<in> transitions_from Execution (ss_state s)"
      and "te_to_state e \<notin> {CANCELLED, FENCED, FAILED_RETRYABLE}"
      using en run assms(1) unfolding transition_enabled_def by simp_all
    with run have "te_to_state e \<in> ?Q" by (auto simp: transitions_from_def)
    with adv assms(1) show ?thesis by simp
  qed (use assms(1) in auto)
  have "(\<lambda>x y. y \<in> transitions_from Execution x)\<^sup>*\<^sup>* (ss_state t) (ss_state u)"
    using machine_run_table [OF assms(2)] t by simp
  then show ?thesis
    using t by (induction rule: rtranclp_induct) (auto simp: transitions_from_def)
qed

theorem no_replay_after_side_effect_witness:
  "\<exists>t. ss_state t = AMBIGUOUS \<and>
     (\<forall>u. (machine_step zero_hash)\<^sup>*\<^sup>* t u \<longrightarrow>
        ss_state u \<in> {AMBIGUOUS, RECONCILE_REQUIRED, SUCCEEDED, FAILED_FINAL})"
proof -
  have tr: "AMBIGUOUS \<in> transitions_from Execution RUNNING" by (simp add: transitions_from_def)
  obtain d where d: "apply_transition zero_hash (sample_snapshot Execution RUNNING)
      (sample_event Execution RUNNING AMBIGUOUS True) False = Inr d" "td_accepted d"
      "ss_state (td_current d) = AMBIGUOUS"
    using sample_event_accepted [OF tr, of True] by auto
  have "ss_state u \<in> {AMBIGUOUS, RECONCILE_REQUIRED, SUCCEEDED, FAILED_FINAL}"
    if "(machine_step zero_hash)\<^sup>*\<^sup>* (td_current d) u" for u
    using that d by (intro no_replay_after_side_effect
        [of "sample_snapshot Execution RUNNING" zero_hash "td_current d" u
          "sample_event Execution RUNNING AMBIGUOUS True" False d])
      (auto simp: sample_snapshot_def sample_event_def)
  with d(3) show ?thesis by blast
qed

text \<open>\<open>apply_transition\<close> raises exactly when an integer of the event is outside the range of
  canonical JSON; the validators of \<open>TransitionDecision\<close> never fail.\<close>

lemma apply_transition_raises_iff:
  assumes "TransitionEvent e = Inr e"
  shows "(\<exists>err. apply_transition H s e dup = Inl err) \<longleftrightarrow>
    MAX_SAFE_INTEGER < te_generation e \<or> MAX_SAFE_INTEGER < te_expected_revision e \<or>
    MAX_SAFE_INTEGER < te_occurred_at_ms e"
proof -
  have "(\<exists>err. apply_transition H s e dup = Inl err) \<longleftrightarrow> \<not> representable (event_dump e)"
    using ok_apply_transition [of H s e dup] by (simp flip: not_ok_iff)
  moreover have "0 \<le> te_generation e" "0 \<le> te_expected_revision e" "0 \<le> te_occurred_at_ms e"
    using assms by (simp_all add: TransitionEvent_eq_Inr event_fields_ok_def)
  ultimately show ?thesis by (auto simp: representable_event_dump MAX_SAFE_INTEGER_def)
qed

section \<open>Main results: the aggregate status\<close>

text \<open>A property of the status a decision returns, proved branch by branch.\<close>

definition agg_sat :: "(bool \<Rightarrow> bool \<Rightarrow> bool \<Rightarrow> state_value \<Rightarrow> bool) \<Rightarrow> aggregate_status result \<Rightarrow> bool" where
  "agg_sat P r \<longleftrightarrow> (\<exists>a. r = Inr a \<and>
     P (as_can_claim_complete a) (as_can_claim_delivered a) (as_needs_reconciliation a)
       (as_recommended_request_state a))"

lemma agg_sat_if:
  "(b \<Longrightarrow> agg_sat P x) \<Longrightarrow> (\<not> b \<Longrightarrow> agg_sat P y) \<Longrightarrow> agg_sat P (if b then x else y)"
  by simp

lemma agg_sat_status:
  assumes "ss_state r \<in> RequestStateValue" "rec \<in> RequestStateValue" "ReasonCode code" "P c d n rec"
  shows "agg_sat P (status_of r es as ds rec ph code c d n)"
  using assms by (simp add: agg_sat_def status_of_def AggregateStatus_def)

lemma request_reason_codes:
  "ReasonCode ''request.cancelled''" "ReasonCode ''request.superseded''"
  "ReasonCode ''request.reconcile_required''" "ReasonCode ''request.failed''"
  "ReasonCode ''request.partial''" "ReasonCode ''request.received''" "ReasonCode ''request.planning''"
  "ReasonCode ''request.waiting_confirmation''" "ReasonCode ''request.execution_not_started''"
  "ReasonCode ''request.artifact_validation_not_started''" "ReasonCode ''request.partial_delivery''"
  "ReasonCode ''request.child_failed''" "ReasonCode ''request.retry_pending''"
  "ReasonCode ''request.execution_in_progress''" "ReasonCode ''request.artifact_validation_in_progress''"
  "ReasonCode ''request.delivered''" "ReasonCode ''request.delivery_not_planned''"
  "ReasonCode ''request.channel_accepted''" "ReasonCode ''request.delivery_in_progress''"
  by code_simp+

text \<open>What the aggregate may claim, read off the children directly.\<close>

definition work_done :: "state_snapshot \<Rightarrow> state_snapshot list \<Rightarrow> state_snapshot list \<Rightarrow> bool" where
  "work_done r es as \<longleftrightarrow>
     ss_state r \<notin> {CANCELLED, SUPERSEDED, FAILED, PARTIAL} \<and>
     (\<forall>x \<in> set es. ss_state x = SUCCEEDED) \<and>
     (\<forall>x \<in> set as. ss_state x \<in> {NOT_REQUIRED, QC_PASSED, SUPERSEDED})"

definition claim_complete ::
    "state_snapshot \<Rightarrow> state_snapshot list \<Rightarrow> state_snapshot list \<Rightarrow> state_snapshot list \<Rightarrow> bool" where
  "claim_complete r es as ds \<longleftrightarrow> work_done r es as \<and>
     (\<forall>x \<in> set ds. ss_state x \<in> {CHANNEL_ACCEPTED, DELIVERED}) \<and> (ds = [] \<longrightarrow> ss_state r = COMPLETED)"

definition claim_delivered ::
    "state_snapshot \<Rightarrow> state_snapshot list \<Rightarrow> state_snapshot list \<Rightarrow> state_snapshot list \<Rightarrow> bool" where
  "claim_delivered r es as ds \<longleftrightarrow> work_done r es as \<and>
     (\<forall>x \<in> set ds. ss_state x = DELIVERED) \<and> (ds = [] \<longrightarrow> ss_state r = COMPLETED)"

definition claim_reconcile ::
    "state_snapshot \<Rightarrow> state_snapshot list \<Rightarrow> state_snapshot list \<Rightarrow> state_snapshot list \<Rightarrow> bool" where
  "claim_reconcile r es as ds \<longleftrightarrow> ss_state r \<notin> {CANCELLED, SUPERSEDED} \<and>
     (\<exists>x \<in> set (es @ as @ ds). ss_state x \<in> {AMBIGUOUS, RECONCILE_REQUIRED})"

lemmas claim_defs = claim_complete_def claim_delivered_def claim_reconcile_def work_done_def
  in_states_def list_ex_iff list_all_iff

lemma in_states_simps:
  "list_ex (in_states S) xs \<longleftrightarrow> (\<exists>x \<in> set xs. ss_state x \<in> S)"
  "list_all (in_states S) xs \<longleftrightarrow> (\<forall>x \<in> set xs. ss_state x \<in> S)"
  by (simp_all add: in_states_def list_ex_iff list_all_iff)


lemma reconcile_excludes: "claim_reconcile r es as ds \<Longrightarrow> \<not> claim_complete r es as ds \<and> \<not> claim_delivered r es as ds"
  unfolding claim_reconcile_def claim_complete_def claim_delivered_def work_done_def by fastforce

lemma delivered_complete: "claim_delivered r es as ds \<Longrightarrow> claim_complete r es as ds"
  by (auto simp: claim_complete_def claim_delivered_def)

lemma complete_conditions:
  assumes "claim_complete r es as ds"
  shows "\<not> (\<exists>x \<in> set (es @ ds). ss_state x \<in> {FAILED_FINAL, FENCED, CANCELLED})"
    "\<not> (\<exists>x \<in> set as. ss_state x \<in> {QC_FAILED, REJECTED})"
    "\<not> (\<exists>x \<in> set (es @ ds). ss_state x \<in> {FAILED_RETRYABLE})"
    "\<forall>x \<in> set es. ss_state x \<in> {SUCCEEDED}"
    "\<forall>x \<in> set as. ss_state x \<in> {NOT_REQUIRED, QC_PASSED, SUPERSEDED}"
    "\<forall>x \<in> set ds. ss_state x \<in> {CHANNEL_ACCEPTED, DELIVERED}"
    "ss_state r \<notin> {CANCELLED, SUPERSEDED, FAILED, PARTIAL}"
    "ds = [] \<Longrightarrow> ss_state r = COMPLETED"
  using assms unfolding claim_complete_def work_done_def by force+


lemma decide_reconcile:
  assumes "ss_state r \<in> RequestStateValue" "claim_reconcile r es as ds"
  shows "agg_sat (\<lambda>c d n rec. \<not> c \<and> \<not> d \<and> n \<and> rec \<noteq> COMPLETED) (aggregate_decide r es as ds)"
proof -
  have "ss_state r \<noteq> CANCELLED" "ss_state r \<noteq> SUPERSEDED"
      "\<exists>x \<in> set (es @ as @ ds). ss_state x \<in> {AMBIGUOUS, RECONCILE_REQUIRED}"
    using assms(2) by (simp_all add: claim_reconcile_def del: set_append)
  then show ?thesis
    unfolding aggregate_decide_def Let_def in_states_simps if_not_P if_P
    by (simp del: set_append, intro conjI impI agg_sat_status assms(1) request_reason_codes)
      (simp_all add: RequestStateValue_def)
qed

lemma decide_complete:
  assumes "ss_state r \<in> RequestStateValue" "claim_complete r es as ds"
  shows "agg_sat (\<lambda>c d n rec. c \<and> (d \<longleftrightarrow> claim_delivered r es as ds) \<and> \<not> n \<and> rec = COMPLETED)
    (aggregate_decide r es as ds)"
proof -
  note cc = complete_conditions [OF assms(2)]
  have nr: "\<not> (\<exists>x \<in> set (es @ as @ ds). ss_state x \<in> {AMBIGUOUS, RECONCILE_REQUIRED})"
    using cc(4-6) by fastforce
  have kids: "\<not> (es @ as @ ds = [] \<and> ss_state r \<in> {RECEIVED, QUEUED})"
      "\<not> (es @ as @ ds = [] \<and> ss_state r = st)" if "st \<noteq> COMPLETED" for st
    using cc(8) that by auto
  have del: "claim_delivered r es as ds \<longleftrightarrow> ds = [] \<or> (\<forall>x \<in> set ds. ss_state x \<in> {DELIVERED})"
    using assms(2) by (auto simp: claim_complete_def claim_delivered_def)
  have e: "\<not> (es \<noteq> [] \<and> \<not> (\<forall>x \<in> set es. ss_state x \<in> {SUCCEEDED}))"
      "\<not> (as \<noteq> [] \<and> \<not> (\<forall>x \<in> set as. ss_state x \<in> {NOT_REQUIRED, QC_PASSED, SUPERSEDED}))"
    using cc(4,5) by blast+
  note simps = cc kids nr e if_False if_True simp_thms
  show ?thesis
  proof (cases "claim_delivered r es as ds")
    case True
    then have "ds = [] \<or> (\<forall>x \<in> set ds. ss_state x \<in> {DELIVERED})" by (simp only: del)
    then have "aggregate_decide r es as ds =
        status_of r es as ds COMPLETED Ph_delivered ''request.delivered'' True True False"
      unfolding aggregate_decide_def Let_def in_states_simps using simps by auto
    with True show ?thesis
      by (auto intro!: agg_sat_status assms(1) simp: RequestStateValue_def request_reason_codes)
  next
    case False
    then have "ds \<noteq> []" "\<not> (\<forall>x \<in> set ds. ss_state x \<in> {DELIVERED})" unfolding del by blast+
    then have "aggregate_decide r es as ds =
        status_of r es as ds COMPLETED Ph_channel_accepted ''request.channel_accepted'' True False False"
      unfolding aggregate_decide_def Let_def in_states_simps using simps by auto
    with False show ?thesis
      by (auto intro!: agg_sat_status assms(1) simp: RequestStateValue_def request_reason_codes)
  qed
qed

lemma decide_incomplete:
  assumes "ss_state r \<in> RequestStateValue" "\<not> claim_complete r es as ds" "\<not> claim_reconcile r es as ds"
  shows "agg_sat (\<lambda>c d n rec. \<not> c \<and> \<not> d \<and> \<not> n \<and> rec \<noteq> COMPLETED) (aggregate_decide r es as ds)"
  unfolding aggregate_decide_def Let_def in_states_simps
  apply (intro agg_sat_if agg_sat_status assms(1) request_reason_codes)
                      apply (simp_all (no_asm) add: RequestStateValue_def)
      apply (use assms(2,3) in \<open>unfold claim_reconcile_def claim_complete_def work_done_def, blast | force\<close>)+
  done

lemma aggregate_decide_sat:
  assumes "ss_state r \<in> RequestStateValue"
  shows "agg_sat (\<lambda>c d n rec. (c \<longleftrightarrow> claim_complete r es as ds) \<and> (d \<longleftrightarrow> claim_delivered r es as ds) \<and>
      (n \<longleftrightarrow> claim_reconcile r es as ds) \<and> (rec = COMPLETED \<longleftrightarrow> c)) (aggregate_decide r es as ds)"
proof -
  consider "claim_reconcile r es as ds" | "claim_complete r es as ds" "\<not> claim_reconcile r es as ds"
    | "\<not> claim_complete r es as ds" "\<not> claim_reconcile r es as ds" by blast
  then show ?thesis
    by cases (use decide_reconcile [OF assms] decide_complete [OF assms] decide_incomplete [OF assms]
        reconcile_excludes delivered_complete in \<open>fastforce simp: agg_sat_def\<close>)+
qed

definition aggregate_inputs_ok ::
    "state_snapshot \<Rightarrow> state_snapshot list \<Rightarrow> state_snapshot list \<Rightarrow> state_snapshot list \<Rightarrow> bool" where
  "aggregate_inputs_ok r es as ds \<longleftrightarrow> ss_machine r = Request \<and>
     (\<forall>x \<in> set (es @ as @ ds). ss_request_id x = ss_request_id r \<and> ss_run_id x = ss_run_id r \<and>
        ss_generation x = ss_generation r) \<and>
     (\<forall>x \<in> set es. ss_machine x = Execution) \<and> (\<forall>x \<in> set as. ss_machine x = Artifact) \<and>
     (\<forall>x \<in> set ds. ss_machine x = Delivery)"

lemma aggregate_inputs_ok_iff:
  "aggregate_request_status r es as ds =
     (if aggregate_inputs_ok r es as ds then aggregate_decide r es as ds
      else aggregate_request_status r es as ds)"
  by (auto simp: aggregate_request_status_def aggregate_inputs_ok_def ensure_same_scope_def list_ex_iff)

lemma aggregate_inputs_bad:
  "\<not> aggregate_inputs_ok r es as ds \<Longrightarrow> \<not> ok (aggregate_request_status r es as ds)"
  by (auto simp: aggregate_request_status_def aggregate_inputs_ok_def ensure_same_scope_def list_ex_iff)

text \<open>C38: the aggregate status of a request is computed for every valid request snapshot whose
  children belong to the same request, run and generation and to the right machines, and raises for
  every other input.  It claims completion exactly when every execution succeeded, every artifact
  is cleared and every delivery was at least accepted by its channel (with no delivery at all, only
  when the request itself is COMPLETED); it claims delivery exactly when in addition every delivery
  is confirmed; it asks for reconciliation exactly when some child is ambiguous; and it recommends
  COMPLETED only together with the completion claim.\<close>

theorem aggregate_request_status_sound:
  assumes "StateSnapshot r = Inr r"
  shows "if aggregate_inputs_ok r es as ds
    then \<exists>a. aggregate_request_status r es as ds = Inr a \<and>
      (as_can_claim_complete a \<longleftrightarrow> claim_complete r es as ds) \<and>
      (as_can_claim_delivered a \<longleftrightarrow> claim_delivered r es as ds) \<and>
      (as_needs_reconciliation a \<longleftrightarrow> claim_reconcile r es as ds) \<and>
      (as_recommended_request_state a = COMPLETED \<longleftrightarrow> as_can_claim_complete a)
    else \<exists>err. aggregate_request_status r es as ds = Inl err"
proof (cases "aggregate_inputs_ok r es as ds")
  case True
  then have "ss_machine r = Request" by (simp add: aggregate_inputs_ok_def)
  with assms have "ss_state r \<in> RequestStateValue"
    by (auto simp: StateSnapshot_eq_Inr RequestStateValue_def)
  with aggregate_decide_sat [OF this, of es as ds] True show ?thesis
    by (subst aggregate_inputs_ok_iff) (auto simp: agg_sat_def)
next
  case False
  with aggregate_inputs_bad show ?thesis by (auto simp: not_ok_iff)
qed

theorem aggregate_request_status_sound_witness:
  "\<exists>a. aggregate_request_status (sample_snapshot Request DELIVERING) [sample_snapshot Execution SUCCEEDED]
      [sample_snapshot Artifact QC_PASSED] [sample_snapshot Delivery CHANNEL_ACCEPTED] = Inr a \<and>
     as_can_claim_complete a \<and> \<not> as_can_claim_delivered a"
proof -
  have r: "StateSnapshot (sample_snapshot Request DELIVERING) = Inr (sample_snapshot Request DELIVERING)"
    using sample_snapshot_ok [of DELIVERING Request] by (simp add: StateSnapshot_eq_Inr ok_StateSnapshot)
  show ?thesis
    using aggregate_request_status_sound [OF r, of "[sample_snapshot Execution SUCCEEDED]"
        "[sample_snapshot Artifact QC_PASSED]" "[sample_snapshot Delivery CHANNEL_ACCEPTED]"]
    by (auto simp: aggregate_inputs_ok_def claim_complete_def claim_delivered_def work_done_def)
qed

text \<open>the retry branch mixes two sources: with a delivery present and only an execution
  waiting for its retry, the aggregate recommends EXECUTING while it displays the delivering
  phase.\<close>

lemma aggregate_retry_phase_mismatch:
  "\<exists>a. aggregate_request_status (sample_snapshot Request EXECUTING)
      [sample_snapshot Execution FAILED_RETRYABLE] [] [sample_snapshot Delivery NOT_PLANNED] = Inr a \<and>
     as_recommended_request_state a = EXECUTING \<and> as_display_phase a = Ph_delivering"
  by (simp add: aggregate_request_status_def ensure_same_scope_def aggregate_decide_def in_states_def
      status_of_def AggregateStatus_def RequestStateValue_def request_reason_codes)

end
