(* ===== verification/Rhythm.thy ===== *)
theory Rhythm
  imports Complex_Main Payload
begin

text \<open>
  The rhythm and resource plane of the world-understanding kernel:
  \<open>src/world_understanding/common/budgets.py\<close> (budgets with an interactive reserve),
  \<open>.../event.py\<close> (events and the debounce coalescer) and \<open>.../rhythm.py\<close> (bounded priority queues
  with admission control, telemetry and the adaptive debounce formula).

  Objects with mutable fields are records passed through; a method returns its result, which may
  be an exception, together with the object after the call, because the source leaves a partially
  updated object behind when it raises.  The dictionaries keyed by the five queue classes are total
  functions on strings, with \<open>QUEUE_CLASSES\<close> as their key set.  Componentwise arithmetic on costs is
  the group structure of the type \<open>work_cost\<close>, so that library facts on sums apply.
\<close>

section \<open>Budgets\<close>

datatype work_cost =
  WorkCost (token_cost: int) (compute_ms: int) (io_bytes: int) (latency_ms: int)

definition WorkCost_valid :: "work_cost \<Rightarrow> bool" where
  "WorkCost_valid c \<longleftrightarrow> 0 \<le> min (min (token_cost c) (compute_ms c)) (min (io_bytes c) (latency_ms c))"

definition mk_WorkCost :: "int \<Rightarrow> int \<Rightarrow> int \<Rightarrow> int \<Rightarrow> work_cost result" where
  "mk_WorkCost t c i l =
     (if min (min t c) (min i l) < 0 then Inl (ValueError ''work cost cannot be negative'')
      else Inr (WorkCost t c i l))"

record budget_config =
  token_budget :: int
  compute_budget_ms :: int
  io_budget_bytes :: int
  latency_budget_ms :: int
  interactive_token_reserve :: int
  interactive_compute_reserve_ms :: int
  interactive_io_reserve_bytes :: int
  interactive_latency_reserve_ms :: int

definition BudgetConfig :: "budget_config \<Rightarrow> budget_config result" where
  "BudgetConfig c =
     (if list_ex (\<lambda>v. v < 0) [token_budget c, compute_budget_ms c, io_budget_bytes c,
           latency_budget_ms c, interactive_token_reserve c, interactive_compute_reserve_ms c,
           interactive_io_reserve_bytes c, interactive_latency_reserve_ms c]
      then Inl (ValueError ''budgets cannot be negative'')
      else if interactive_token_reserve c > token_budget c \<or>
         interactive_compute_reserve_ms c > compute_budget_ms c \<or>
         interactive_io_reserve_bytes c > io_budget_bytes c \<or>
         interactive_latency_reserve_ms c > latency_budget_ms c
      then Inl (ValueError ''interactive reserve exceeds total budget'')
      else Inr c)"

record budget_snapshot =
  token_remaining :: int
  compute_remaining_ms :: int
  io_remaining_bytes :: int
  latency_remaining_ms :: int
  snap_token_reserve :: int
  snap_compute_reserve_ms :: int
  snap_io_reserve_bytes :: int
  snap_latency_reserve_ms :: int

record budget_ledger =
  bl_config :: budget_config
  bl_token :: int
  bl_compute :: int
  bl_io :: int
  bl_latency :: int

definition BudgetLedger :: "budget_config \<Rightarrow> budget_ledger" where
  "BudgetLedger c =
     \<lparr>bl_config = c, bl_token = token_budget c, bl_compute = compute_budget_ms c,
      bl_io = io_budget_bytes c, bl_latency = latency_budget_ms c\<rparr>"

definition ledger_snapshot :: "budget_ledger \<Rightarrow> budget_snapshot" where
  "ledger_snapshot l =
     (let c = bl_config l in
      \<lparr>token_remaining = bl_token l, compute_remaining_ms = bl_compute l,
       io_remaining_bytes = bl_io l, latency_remaining_ms = bl_latency l,
       snap_token_reserve = interactive_token_reserve c,
       snap_compute_reserve_ms = interactive_compute_reserve_ms c,
       snap_io_reserve_bytes = interactive_io_reserve_bytes c,
       snap_latency_reserve_ms = interactive_latency_reserve_ms c\<rparr>)"

definition ledger_available :: "budget_ledger \<Rightarrow> bool \<Rightarrow> int \<times> int \<times> int \<times> int" where
  "ledger_available l interactive =
     (let c = bl_config l in
      if interactive then (bl_token l, bl_compute l, bl_io l, bl_latency l)
      else (max 0 (bl_token l - interactive_token_reserve c),
            max 0 (bl_compute l - interactive_compute_reserve_ms c),
            max 0 (bl_io l - interactive_io_reserve_bytes c),
            max 0 (bl_latency l - interactive_latency_reserve_ms c)))"

definition can_spend :: "budget_ledger \<Rightarrow> work_cost \<Rightarrow> bool \<Rightarrow> bool" where
  "can_spend l cost interactive =
     (case ledger_available l interactive of (t, c, i, la) \<Rightarrow>
        token_cost cost \<le> t \<and> compute_ms cost \<le> c \<and> io_bytes cost \<le> i \<and> latency_ms cost \<le> la)"

definition spend :: "budget_ledger \<Rightarrow> work_cost \<Rightarrow> bool \<Rightarrow> budget_ledger result" where
  "spend l cost interactive =
     (if \<not> can_spend l cost interactive then Inl (ValueError ''BUDGET_EXHAUSTED'')
      else Inr (l\<lparr>bl_token := bl_token l - token_cost cost, bl_compute := bl_compute l - compute_ms cost,
                  bl_io := bl_io l - io_bytes cost, bl_latency := bl_latency l - latency_ms cost\<rparr>))"

section \<open>Events and the coalescer\<close>

record hard_boundary =
  hb_life_id :: string
  hb_world_scope_hash :: string
  hb_principal_scope_hash :: string
  hb_queue_class :: string
  hb_world_cut_id :: "string option"
  hb_transaction_ref :: "string option"

definition boundary_sha256 :: "(nat list \<Rightarrow> string) \<Rightarrow> hard_boundary \<Rightarrow> string result" where
  "boundary_sha256 sha256_hex b = canonical_sha256 sha256_hex
     (jobj
        [(''domain'', jstr ''tiangong.world.rhythm-hard-boundary.v1''),
         (''life_id'', jstr (hb_life_id b)),
         (''world_scope_hash'', jstr (hb_world_scope_hash b)),
         (''principal_scope_hash'', jstr (hb_principal_scope_hash b)),
         (''queue_class'', jstr (hb_queue_class b)),
         (''world_cut_id'', jopt (hb_world_cut_id b)),
         (''transaction_ref'', jopt (hb_transaction_ref b))])"

record rhythm_event =
  ev_event_id :: string
  ev_coalesce_key :: string
  ev_boundary :: hard_boundary
  ev_arrived_at_ms :: int
  ev_payload_sha256 :: string
  ev_priority :: int

text \<open>The digest of a boundary never raises (its fields are strings or absent), so the exception
  branch of \<open>identity_key\<close> is unreachable.\<close>

definition identity_key :: "(nat list \<Rightarrow> string) \<Rightarrow> rhythm_event \<Rightarrow> string \<times> string" where
  "identity_key sha256_hex e =
     ((case boundary_sha256 sha256_hex (ev_boundary e) of Inr h \<Rightarrow> h | Inl _ \<Rightarrow> []), ev_coalesce_key e)"

record coalesced_event =
  ce_event :: rhythm_event
  ce_coalesced_count :: int
  ce_first_arrived_at_ms :: int
  ce_last_arrived_at_ms :: int

record event_coalescer =
  co_debounce_ms :: int
  co_pending :: "(string \<times> string) \<rightharpoonup> coalesced_event"
  co_debounce_by_queue :: "string \<rightharpoonup> int"

definition EventCoalescer :: "int \<Rightarrow> event_coalescer result" where
  "EventCoalescer debounce =
     (if debounce < 0 then Inl (ValueError ''debounce_ms must be non-negative'')
      else Inr \<lparr>co_debounce_ms = debounce, co_pending = Map.empty, co_debounce_by_queue = Map.empty\<rparr>)"

definition co_set_debounce_ms ::
    "event_coalescer \<Rightarrow> int \<Rightarrow> string option \<Rightarrow> event_coalescer result" where
  "co_set_debounce_ms co debounce queue_class =
     (if debounce < 0 then Inl (ValueError ''debounce_ms must be a non-negative integer'')
      else case queue_class of
        None \<Rightarrow> Inr (co\<lparr>co_debounce_ms := debounce\<rparr>)
      | Some q \<Rightarrow>
          if q = [] then Inl (ValueError ''queue_class must be non-empty'')
          else Inr (co\<lparr>co_debounce_by_queue := (co_debounce_by_queue co)(q \<mapsto> debounce)\<rparr>))"

definition debounce_for :: "event_coalescer \<Rightarrow> string \<Rightarrow> int" where
  "debounce_for co q = (case co_debounce_by_queue co q of None \<Rightarrow> co_debounce_ms co | Some d \<Rightarrow> d)"

datatype offer_status = COALESCED | NEW

definition offer ::
    "(nat list \<Rightarrow> string) \<Rightarrow> event_coalescer \<Rightarrow> rhythm_event \<Rightarrow>
     offer_status \<times> coalesced_event \<times> event_coalescer" where
  "offer H co event =
     (let key = identity_key H event; debounce = debounce_for co (hb_queue_class (ev_boundary event));
          fresh = \<lparr>ce_event = event, ce_coalesced_count = 1,
                   ce_first_arrived_at_ms = ev_arrived_at_ms event,
                   ce_last_arrived_at_ms = ev_arrived_at_ms event\<rparr>
      in case co_pending co key of
           Some prior \<Rightarrow>
             if ev_arrived_at_ms event - ce_last_arrived_at_ms prior \<le> debounce
             then let current = \<lparr>ce_event = event, ce_coalesced_count = ce_coalesced_count prior + 1,
                        ce_first_arrived_at_ms = ce_first_arrived_at_ms prior,
                        ce_last_arrived_at_ms = ev_arrived_at_ms event\<rparr>
                  in (COALESCED, current, co\<lparr>co_pending := (co_pending co)(key \<mapsto> current)\<rparr>)
             else (NEW, fresh, co\<lparr>co_pending := (co_pending co)(key \<mapsto> fresh)\<rparr>)
         | None \<Rightarrow> (NEW, fresh, co\<lparr>co_pending := (co_pending co)(key \<mapsto> fresh)\<rparr>))"

definition forget :: "(nat list \<Rightarrow> string) \<Rightarrow> event_coalescer \<Rightarrow> rhythm_event \<Rightarrow> event_coalescer" where
  "forget H co event = co\<lparr>co_pending := (co_pending co)(identity_key H event := None)\<rparr>"

section \<open>The rhythm plane\<close>

definition QUEUE_CLASSES :: "string list" where
  "QUEUE_CLASSES = [''INTERACTIVE'', ''FAST'', ''SEMANTIC'', ''REVALIDATION'', ''BACKGROUND'']"

record rhythm_config =
  queue_capacity :: int
  rc_debounce_ms :: int
  semantic_min_priority :: int
  revalidation_min_priority :: int
  rc_rho_target_milli :: int

definition RhythmConfig :: "rhythm_config \<Rightarrow> rhythm_config result" where
  "RhythmConfig c =
     (if queue_capacity c < 1 then Inl (ValueError ''queue_capacity must be positive'')
      else if rc_debounce_ms c < 0 \<or> \<not> (1 \<le> rc_rho_target_milli c \<and> rc_rho_target_milli c < 1000)
      then Inl (ValueError ''invalid rhythm config'')
      else Inr c)"

record work_item =
  wi_event :: rhythm_event
  wi_cost :: work_cost
  wi_semantic :: bool
  wi_revalidation :: bool

record admission_decision =
  ad_disposition :: string
  ad_reason_code :: string
  ad_queue_class :: string
  ad_coalesced_count :: int

record queue_telemetry =
  qt_queue_class :: string
  qt_arrival_count :: int
  qt_service_count :: int
  qt_arrival_rate_milli_per_sec :: int
  qt_service_rate_milli_per_sec :: int
  qt_rho_milli :: "int option"
  qt_oldest_queue_age_ms :: int
  qt_transform_latency_total_ms :: int
  qt_token_cost_total :: int
  qt_io_cost_total :: int
  qt_queue_depth :: int

record rhythm_plane =
  rp_config :: rhythm_config
  rp_budget :: budget_ledger
  rp_queues :: "string \<Rightarrow> work_item list"
  rp_coalescer :: event_coalescer
  rp_start_ms :: int
  rp_arrivals :: "string \<Rightarrow> int"
  rp_services :: "string \<Rightarrow> int"
  rp_latency :: "string \<Rightarrow> int"
  rp_tokens :: "string \<Rightarrow> int"
  rp_io :: "string \<Rightarrow> int"

definition RhythmPlane :: "rhythm_config \<Rightarrow> budget_ledger \<Rightarrow> int \<Rightarrow> rhythm_plane result" where
  "RhythmPlane config budget start_ms =
     bind_result (EventCoalescer (rc_debounce_ms config)) (\<lambda>co. Inr
       \<lparr>rp_config = config, rp_budget = budget, rp_queues = (\<lambda>_. []), rp_coalescer = co,
        rp_start_ms = start_ms, rp_arrivals = (\<lambda>_. 0), rp_services = (\<lambda>_. 0), rp_latency = (\<lambda>_. 0),
        rp_tokens = (\<lambda>_. 0), rp_io = (\<lambda>_. 0)\<rparr>)"

definition plane_set_debounce_ms ::
    "rhythm_plane \<Rightarrow> int \<Rightarrow> string option \<Rightarrow> rhythm_plane result" where
  "plane_set_debounce_ms p debounce queue_class =
     bind_result (co_set_debounce_ms (rp_coalescer p) debounce queue_class)
       (\<lambda>co. Inr (p\<lparr>rp_coalescer := co\<rparr>))"

definition item_queue :: "work_item \<Rightarrow> string" where
  "item_queue item = hb_queue_class (ev_boundary (wi_event item))"

definition validate_item :: "rhythm_plane \<Rightarrow> work_item \<Rightarrow> string result" where
  "validate_item p item =
     (if item_queue item \<notin> set QUEUE_CLASSES then Inl (ValueError ''UNKNOWN_QUEUE_CLASS'')
      else if wi_semantic item \<and> ev_priority (wi_event item) < semantic_min_priority (rp_config p)
      then Inr ''SEMANTIC_ADMISSION_FLOOR''
      else if wi_revalidation item \<and> ev_priority (wi_event item) < revalidation_min_priority (rp_config p)
      then Inr ''REVALIDATION_ADMISSION_FLOOR''
      else Inr [])"

definition committed_cost :: "rhythm_plane \<Rightarrow> work_cost" where
  "committed_cost p =
     (let items = concat (map (rp_queues p) QUEUE_CLASSES) in
      WorkCost (sum_list (map (\<lambda>i. token_cost (wi_cost i)) items))
        (sum_list (map (\<lambda>i. compute_ms (wi_cost i)) items))
        (sum_list (map (\<lambda>i. io_bytes (wi_cost i)) items))
        (sum_list (map (\<lambda>i. latency_ms (wi_cost i)) items)))"

definition can_commit :: "rhythm_plane \<Rightarrow> work_cost \<Rightarrow> bool \<Rightarrow> bool" where
  "can_commit p cost interactive =
     (let snap = ledger_snapshot (rp_budget p); committed = committed_cost p;
          token = max 0 (token_remaining snap - token_cost committed);
          compute = max 0 (compute_remaining_ms snap - compute_ms committed);
          io = max 0 (io_remaining_bytes snap - io_bytes committed);
          latency = max 0 (latency_remaining_ms snap - latency_ms committed);
          token' = (if interactive then token else max 0 (token - snap_token_reserve snap));
          compute' = (if interactive then compute else max 0 (compute - snap_compute_reserve_ms snap));
          io' = (if interactive then io else max 0 (io - snap_io_reserve_bytes snap));
          latency' = (if interactive then latency else max 0 (latency - snap_latency_reserve_ms snap))
      in token_cost cost \<le> token' \<and> compute_ms cost \<le> compute' \<and> io_bytes cost \<le> io' \<and>
         latency_ms cost \<le> latency')"

definition item_key :: "work_item \<Rightarrow> int \<times> int \<times> string" where
  "item_key item = (- ev_priority (wi_event item), ev_arrived_at_ms (wi_event item), ev_event_id (wi_event item))"

definition sort_queue :: "work_item list \<Rightarrow> work_item list" where
  "sort_queue q = sort_key item_key q"

text \<open>The \<open>for\<close> loop of \<open>submit\<close>: every queued item with the same identity offers the new event to
  the coalescer; the first offer that coalesces ends the loop with the index of that item.\<close>

fun scan_queue ::
    "(nat list \<Rightarrow> string) \<Rightarrow> rhythm_event \<Rightarrow> work_item list \<Rightarrow> nat \<Rightarrow> event_coalescer \<Rightarrow>
     event_coalescer \<times> (nat \<times> work_item \<times> coalesced_event) option" where
  "scan_queue H event [] index co = (co, None)"
| "scan_queue H event (existing # rest) index co =
     (if identity_key H (wi_event existing) = identity_key H event
      then (case offer H co event of
              (COALESCED, ce, co') \<Rightarrow> (co', Some (index, existing, ce))
            | (NEW, ce, co') \<Rightarrow> scan_queue H event rest (Suc index) co')
      else scan_queue H event rest (Suc index) co)"

definition cost_delta :: "work_cost \<Rightarrow> work_cost \<Rightarrow> work_cost" where
  "cost_delta new old =
     WorkCost (max 0 (token_cost new - token_cost old)) (max 0 (compute_ms new - compute_ms old))
       (max 0 (io_bytes new - io_bytes old)) (max 0 (latency_ms new - latency_ms old))"

definition decision :: "string \<Rightarrow> string \<Rightarrow> string \<Rightarrow> int \<Rightarrow> admission_decision" where
  "decision disp reason q n =
     \<lparr>ad_disposition = disp, ad_reason_code = reason, ad_queue_class = q, ad_coalesced_count = n\<rparr>"

definition submit ::
    "(nat list \<Rightarrow> string) \<Rightarrow> rhythm_plane \<Rightarrow> work_item \<Rightarrow> admission_decision result \<times> rhythm_plane" where
  "submit H p item =
     (let q = item_queue item;
          p1 = p\<lparr>rp_arrivals := (rp_arrivals p)(q := rp_arrivals p q + 1)\<rparr>
      in case validate_item p1 item of
           Inl e \<Rightarrow> (Inl e, p1)
         | Inr reason \<Rightarrow>
             if reason \<noteq> [] then (Inr (decision ''REJECTED'' reason q 1), p1)
             else let queue = rp_queues p1 q in
               case scan_queue H (wi_event item) queue 0 (rp_coalescer p1) of
                 (co, Some (index, existing, ce)) \<Rightarrow>
                   (let p2 = p1\<lparr>rp_coalescer := co\<rparr> in
                    if \<not> can_commit p2 (cost_delta (wi_cost item) (wi_cost existing)) (q = ''INTERACTIVE'')
                    then (Inr (decision ''BACKPRESSURE'' ''BUDGET_RESERVE'' q (ce_coalesced_count ce)), p2)
                    else (Inr (decision ''COALESCED'' ''DEBOUNCE_COALESCE'' q (ce_coalesced_count ce)),
                          p2\<lparr>rp_queues := (rp_queues p2)(q := sort_queue (queue[index := item]))\<rparr>))
               | (co, None) \<Rightarrow>
                   (let p2 = p1\<lparr>rp_coalescer := co\<rparr> in
                    if int (length queue) \<ge> queue_capacity (rp_config p2)
                    then (Inr (decision ''BACKPRESSURE'' ''QUEUE_CAPACITY'' q 1), p2)
                    else if \<not> can_commit p2 (wi_cost item) (q = ''INTERACTIVE'')
                    then (Inr (decision ''BACKPRESSURE'' ''BUDGET_RESERVE'' q 1), p2)
                    else (Inr (decision ''ADMITTED'' ''OK'' q 1),
                          p2\<lparr>rp_coalescer := snd (snd (offer H (rp_coalescer p2) (wi_event item))),
                             rp_queues := (rp_queues p2)(q := sort_queue (queue @ [item]))\<rparr>)))"

definition service_one ::
    "(nat list \<Rightarrow> string) \<Rightarrow> rhythm_plane \<Rightarrow> string \<Rightarrow> int \<Rightarrow> int \<Rightarrow>
     work_item option result \<times> rhythm_plane" where
  "service_one H p queue_class now_ms transform_latency_ms =
     (if queue_class \<notin> set QUEUE_CLASSES then (Inl (KeyError queue_class), p)
      else case rp_queues p queue_class of
        [] \<Rightarrow> (Inr None, p)
      | item # rest \<Rightarrow>
          (let p1 = p\<lparr>rp_queues := (rp_queues p)(queue_class := rest)\<rparr> in
           case spend (rp_budget p1) (wi_cost item) (queue_class = ''INTERACTIVE'') of
             Inl e \<Rightarrow> (Inl e, p1)
           | Inr budget \<Rightarrow>
               (Inr (Some item),
                p1\<lparr>rp_budget := budget,
                   rp_coalescer := forget H (rp_coalescer p1) (wi_event item),
                   rp_services := (rp_services p1)(queue_class := rp_services p1 queue_class + 1),
                   rp_latency := (rp_latency p1)(queue_class :=
                     rp_latency p1 queue_class + max 0 transform_latency_ms),
                   rp_tokens := (rp_tokens p1)(queue_class :=
                     rp_tokens p1 queue_class + token_cost (wi_cost item)),
                   rp_io := (rp_io p1)(queue_class :=
                     rp_io p1 queue_class + io_bytes (wi_cost item))\<rparr>)))"

definition telemetry :: "rhythm_plane \<Rightarrow> string \<Rightarrow> int \<Rightarrow> queue_telemetry result" where
  "telemetry p queue_class now_ms =
     (if queue_class \<notin> set QUEUE_CLASSES then Inl (KeyError queue_class)
      else
        let elapsed = max 1 (now_ms - rp_start_ms p);
            arrivals = rp_arrivals p queue_class; services = rp_services p queue_class;
            ar = arrivals * 1000000 div elapsed; sr = services * 1000000 div elapsed;
            rho = (if sr = 0 then None else Some (ar * 1000 div sr));
            queue = rp_queues p queue_class;
            oldest = (if queue = [] then 0
              else max 0 (now_ms - Min (set (map (\<lambda>i. ev_arrived_at_ms (wi_event i)) queue))))
        in Inr \<lparr>qt_queue_class = queue_class, qt_arrival_count = arrivals, qt_service_count = services,
          qt_arrival_rate_milli_per_sec = ar, qt_service_rate_milli_per_sec = sr, qt_rho_milli = rho,
          qt_oldest_queue_age_ms = oldest, qt_transform_latency_total_ms = rp_latency p queue_class,
          qt_token_cost_total = rp_tokens p queue_class, qt_io_cost_total = rp_io p queue_class,
          qt_queue_depth = int (length queue)\<rparr>)"

section \<open>Adaptive debounce\<close>

definition adaptive_debounce_ms :: "int \<Rightarrow> int \<Rightarrow> int \<Rightarrow> int \<Rightarrow> int result" where
  "adaptive_debounce_ms arrival_rate service_rate semantic_ratio rho_target =
     (if arrival_rate \<le> 0 \<or> service_rate \<le> 0 \<or> semantic_ratio \<le> 0 then Inr 0
      else if \<not> (1 \<le> rho_target \<and> rho_target < 1000) \<or> \<not> (0 \<le> semantic_ratio \<and> semantic_ratio \<le> 1000)
      then Inl (ValueError ''invalid debounce parameters'')
      else
        let lam = of_int arrival_rate / 1000 :: rat; mu = of_int service_rate / 1000;
            p = of_int semantic_ratio / 1000; rho = of_int rho_target / 1000;
            seconds = max 0 (p / (rho * mu) - 1 / lam)
        in Inr (ceiling (seconds * 1000)))"

section \<open>Costs as an ordered group\<close>

instantiation work_cost :: ordered_ab_group_add
begin

definition zero_work_cost :: work_cost where
  "zero_work_cost = WorkCost 0 0 0 0"

definition plus_work_cost :: "work_cost \<Rightarrow> work_cost \<Rightarrow> work_cost" where
  "plus_work_cost a b = WorkCost (token_cost a + token_cost b) (compute_ms a + compute_ms b)
     (io_bytes a + io_bytes b) (latency_ms a + latency_ms b)"

definition minus_work_cost :: "work_cost \<Rightarrow> work_cost \<Rightarrow> work_cost" where
  "minus_work_cost a b = WorkCost (token_cost a - token_cost b) (compute_ms a - compute_ms b)
     (io_bytes a - io_bytes b) (latency_ms a - latency_ms b)"

definition uminus_work_cost :: "work_cost \<Rightarrow> work_cost" where
  "uminus_work_cost a = WorkCost (- token_cost a) (- compute_ms a) (- io_bytes a) (- latency_ms a)"

definition less_eq_work_cost :: "work_cost \<Rightarrow> work_cost \<Rightarrow> bool" where
  "less_eq_work_cost a b \<longleftrightarrow> token_cost a \<le> token_cost b \<and> compute_ms a \<le> compute_ms b \<and>
     io_bytes a \<le> io_bytes b \<and> latency_ms a \<le> latency_ms b"

definition less_work_cost :: "work_cost \<Rightarrow> work_cost \<Rightarrow> bool" where
  "less_work_cost a b \<longleftrightarrow> a \<le> b \<and> \<not> b \<le> a"

instance
  by standard
    (auto simp: zero_work_cost_def plus_work_cost_def minus_work_cost_def uminus_work_cost_def
      less_eq_work_cost_def less_work_cost_def work_cost.expand)

end

lemmas cost_arith = zero_work_cost_def plus_work_cost_def minus_work_cost_def uminus_work_cost_def
  less_eq_work_cost_def

lemma cost_sel [simp]:
  "token_cost (a + b) = token_cost a + token_cost b" "compute_ms (a + b) = compute_ms a + compute_ms b"
  "io_bytes (a + b) = io_bytes a + io_bytes b" "latency_ms (a + b) = latency_ms a + latency_ms b"
  "token_cost (a - b) = token_cost a - token_cost b" "compute_ms (a - b) = compute_ms a - compute_ms b"
  "io_bytes (a - b) = io_bytes a - io_bytes b" "latency_ms (a - b) = latency_ms a - latency_ms b"
  "token_cost 0 = 0" "compute_ms 0 = 0" "io_bytes 0 = 0" "latency_ms 0 = 0"
  by (simp_all add: cost_arith)

lemma cost_sum_sel:
  "token_cost (sum_list cs) = sum_list (map token_cost cs)"
  "compute_ms (sum_list cs) = sum_list (map compute_ms cs)"
  "io_bytes (sum_list cs) = sum_list (map io_bytes cs)"
  "latency_ms (sum_list cs) = sum_list (map latency_ms cs)"
  by (induction cs) simp_all

lemma WorkCost_valid_iff: "WorkCost_valid c \<longleftrightarrow> 0 \<le> c"
  by (auto simp: WorkCost_valid_def cost_arith)

definition pos_part :: "work_cost \<Rightarrow> work_cost" where
  "pos_part c = WorkCost (max 0 (token_cost c)) (max 0 (compute_ms c)) (max 0 (io_bytes c))
     (max 0 (latency_ms c))"

lemma pos_part_nonneg: "0 \<le> c \<Longrightarrow> pos_part c = c"
  by (cases c) (auto simp: pos_part_def cost_arith)

lemma pos_part_diff_le: "0 \<le> c \<Longrightarrow> 0 \<le> r \<Longrightarrow> pos_part (c - r) \<le> c"
  by (auto simp: pos_part_def cost_arith)

lemma pos_part_ge: "c \<le> pos_part c"
  by (simp add: pos_part_def cost_arith)

section \<open>The ledger against the group of costs\<close>

definition remaining :: "budget_ledger \<Rightarrow> work_cost" where
  "remaining l = WorkCost (bl_token l) (bl_compute l) (bl_io l) (bl_latency l)"

definition total_budget :: "budget_config \<Rightarrow> work_cost" where
  "total_budget c = WorkCost (token_budget c) (compute_budget_ms c) (io_budget_bytes c) (latency_budget_ms c)"

definition reserve :: "budget_config \<Rightarrow> work_cost" where
  "reserve c = WorkCost (interactive_token_reserve c) (interactive_compute_reserve_ms c)
     (interactive_io_reserve_bytes c) (interactive_latency_reserve_ms c)"

definition spendable :: "budget_ledger \<Rightarrow> bool \<Rightarrow> work_cost" where
  "spendable l interactive =
     (if interactive then remaining l else pos_part (remaining l - reserve (bl_config l)))"

lemma BudgetConfig_eq_Inr:
  "BudgetConfig c = Inr c' \<longleftrightarrow> c' = c \<and> 0 \<le> total_budget c \<and> 0 \<le> reserve c \<and> reserve c \<le> total_budget c"
  by (auto simp: BudgetConfig_def total_budget_def reserve_def cost_arith)

lemma can_spend_iff: "can_spend l c b \<longleftrightarrow> c \<le> spendable l b"
  by (simp add: can_spend_def ledger_available_def spendable_def pos_part_def remaining_def
      reserve_def cost_arith Let_def)

lemma remaining_BudgetLedger [simp]: "remaining (BudgetLedger c) = total_budget c"
  and bl_config_BudgetLedger [simp]: "bl_config (BudgetLedger c) = c"
  by (simp_all add: remaining_def BudgetLedger_def total_budget_def)

lemma spend_eq_Inr:
  "spend l c b = Inr l' \<longleftrightarrow> c \<le> spendable l b \<and> bl_config l' = bl_config l \<and> remaining l' = remaining l - c"
  by (auto simp: spend_def can_spend_iff remaining_def cost_arith)

lemma spend_eq_Inl:
  "spend l c b = Inl e \<longleftrightarrow> \<not> c \<le> spendable l b \<and> e = ValueError ''BUDGET_EXHAUSTED''"
  by (auto simp: spend_def can_spend_iff)

lemma committed_cost_eq: "committed_cost p = sum_list (map wi_cost (concat (map (rp_queues p) QUEUE_CLASSES)))"
  by (rule work_cost.expand)
    (simp add: committed_cost_def cost_sum_sel Let_def map_concat comp_def)

lemma can_commit_iff:
  "can_commit p c b \<longleftrightarrow>
     c \<le> (let free = pos_part (remaining (rp_budget p) - committed_cost p) in
          if b then free else pos_part (free - reserve (bl_config (rp_budget p))))"
  by (simp add: can_commit_def ledger_snapshot_def pos_part_def remaining_def reserve_def cost_arith Let_def)

lemma distinct_QUEUE_CLASSES: "distinct QUEUE_CLASSES"
  by (simp add: QUEUE_CLASSES_def)

definition queue_cost :: "work_item list \<Rightarrow> work_cost" where
  "queue_cost xs = sum_list (map wi_cost xs)"

lemma queue_cost_simps [simp]:
  "queue_cost [] = 0" "queue_cost (x # xs) = wi_cost x + queue_cost xs"
  "queue_cost (xs @ ys) = queue_cost xs + queue_cost ys"
  by (simp_all add: queue_cost_def)

lemma queue_cost_mset: "mset xs = mset ys \<Longrightarrow> queue_cost xs = queue_cost ys"
  unfolding queue_cost_def by (metis mset_map sum_mset_sum_list)

lemma queue_cost_sort [simp]: "queue_cost (sort_queue xs) = queue_cost xs"
  by (rule queue_cost_mset) (simp add: sort_queue_def)

lemma queue_cost_update:
  "i < length xs \<Longrightarrow> queue_cost (xs[i := y]) = queue_cost xs - wi_cost (xs ! i) + wi_cost y"
  by (induction xs arbitrary: i) (auto simp: nth_Cons algebra_simps split: nat.split)

lemma queue_cost_nonneg: "(\<And>x. x \<in> set xs \<Longrightarrow> 0 \<le> wi_cost x) \<Longrightarrow> 0 \<le> queue_cost xs"
  by (induction xs) (auto intro: add_nonneg_nonneg)

lemma committed_cost_sum: "committed_cost p = (\<Sum>q\<in>set QUEUE_CLASSES. queue_cost (rp_queues p q))"
proof -
  have "committed_cost p = sum_list (map (\<lambda>q. queue_cost (rp_queues p q)) QUEUE_CLASSES)"
    by (simp add: committed_cost_eq queue_cost_def QUEUE_CLASSES_def)
  then show ?thesis
    by (simp add: sum_list_distinct_conv_sum_set distinct_QUEUE_CLASSES)
qed

lemma sum_fun_upd:
  fixes f :: "'a \<Rightarrow> 'b::ab_group_add"
  assumes "finite A" "q \<in> A"
  shows "(\<Sum>x\<in>A. (f(q := y)) x) = (\<Sum>x\<in>A. f x) - f q + y"
  using assms by (simp add: sum.remove [of A q] sum.If_cases algebra_simps Diff_eq)

lemma committed_cost_upd:
  assumes "q \<in> set QUEUE_CLASSES" and "rp_queues p' = (rp_queues p)(q := xs)"
  shows "committed_cost p' = committed_cost p - queue_cost (rp_queues p q) + queue_cost xs"
proof -
  have "(\<lambda>x. queue_cost (rp_queues p' x)) = (\<lambda>x. queue_cost (rp_queues p x))(q := queue_cost xs)"
    by (auto simp: assms(2))
  then have "committed_cost p' =
      (\<Sum>x\<in>set QUEUE_CLASSES. ((\<lambda>x. queue_cost (rp_queues p x))(q := queue_cost xs)) x)"
    by (metis (no_types, lifting) committed_cost_sum)
  also have "\<dots> = committed_cost p - queue_cost (rp_queues p q) + queue_cost xs"
    unfolding committed_cost_sum by (rule sum_fun_upd) (simp_all add: assms(1))
  finally show ?thesis .
qed

lemma committed_cost_cong: "rp_queues p' = rp_queues p \<Longrightarrow> committed_cost p' = committed_cost p"
  by (simp add: committed_cost_sum)

lemma cost_delta_ge: "new - old \<le> cost_delta new old"
  by (simp add: cost_delta_def cost_arith)

section \<open>Admission never overcommits\<close>

text \<open>
  What holds of the plane between calls: the reserve is a valid one, no queue is longer than the
  configured capacity, every queue is sorted by \<open>item_key\<close> and holds items of its own class with
  non-negative cost, only the five classes hold items, all admitted work together fits in what
  is left of the budget, and the counters account for the items and the tokens and bytes spent.
\<close>

definition queue_ok :: "rhythm_plane \<Rightarrow> string \<Rightarrow> bool" where
  "queue_ok p q \<longleftrightarrow>
     int (length (rp_queues p q)) \<le> queue_capacity (rp_config p) \<and>
     sorted (map item_key (rp_queues p q)) \<and>
     list_all (\<lambda>x. item_queue x = q \<and> 0 \<le> wi_cost x) (rp_queues p q) \<and>
     0 \<le> rp_services p q \<and> rp_services p q + int (length (rp_queues p q)) \<le> rp_arrivals p q"

definition plane_inv :: "rhythm_plane \<Rightarrow> bool" where
  "plane_inv p \<longleftrightarrow>
     1 \<le> queue_capacity (rp_config p) \<and> 0 \<le> reserve (bl_config (rp_budget p)) \<and>
     (\<forall>q \<in> set QUEUE_CLASSES. queue_ok p q) \<and>
     committed_cost p \<le> remaining (rp_budget p) \<and>
     bl_token (rp_budget p) + (\<Sum>q\<in>set QUEUE_CLASSES. rp_tokens p q) = token_budget (bl_config (rp_budget p)) \<and>
     bl_io (rp_budget p) + (\<Sum>q\<in>set QUEUE_CLASSES. rp_io p q) = io_budget_bytes (bl_config (rp_budget p))"

lemma plane_invD:
  assumes "plane_inv p"
  shows "0 \<le> reserve (bl_config (rp_budget p))" "committed_cost p \<le> remaining (rp_budget p)"
    "q \<in> set QUEUE_CLASSES \<Longrightarrow> queue_ok p q"
  using assms by (auto simp: plane_inv_def)

lemma queue_ok_item: "queue_ok p q \<Longrightarrow> x \<in> set (rp_queues p q) \<Longrightarrow> item_queue x = q \<and> 0 \<le> wi_cost x"
  by (simp add: queue_ok_def list_all_iff)

lemma plane_inv_committed_nonneg: "plane_inv p \<Longrightarrow> 0 \<le> committed_cost p"
  unfolding committed_cost_sum
  by (intro sum_nonneg queue_cost_nonneg) (metis plane_invD(3) queue_ok_item)

lemma plane_inv_queue_le:
  assumes "plane_inv p" "q \<in> set QUEUE_CLASSES"
  shows "queue_cost (rp_queues p q) \<le> remaining (rp_budget p)"
proof -
  have "queue_cost (rp_queues p q) \<le> committed_cost p"
    unfolding committed_cost_sum
    using sum_mono2 [of "set QUEUE_CLASSES" "{q}" "\<lambda>q. queue_cost (rp_queues p q)"] assms
    by (auto intro!: queue_cost_nonneg dest: plane_invD(3) queue_ok_item)
  with plane_invD(2) [OF assms(1)] show ?thesis by order
qed

lemma can_commit_fits:
  assumes "plane_inv p" "can_commit p c b"
  shows "committed_cost p + c \<le> remaining (rp_budget p)"
proof -
  let ?free = "remaining (rp_budget p) - committed_cost p"
  have nn: "0 \<le> ?free" using plane_invD(2) [OF assms(1)] by simp
  have "c \<le> ?free"
    using assms(2) pos_part_diff_le [OF nn plane_invD(1) [OF assms(1)]]
    by (auto simp: can_commit_iff pos_part_nonneg [OF nn] Let_def split: if_splits)
  then show ?thesis by (simp add: le_diff_eq add.commute)
qed

lemma plane_inv_coalescer [simp]: "plane_inv (p\<lparr>rp_coalescer := co\<rparr>) \<longleftrightarrow> plane_inv p"
  by (simp add: plane_inv_def queue_ok_def committed_cost_sum)

lemma plane_inv_arrival:
  assumes "plane_inv p"
  shows "plane_inv (p\<lparr>rp_arrivals := (rp_arrivals p)(q := rp_arrivals p q + 1)\<rparr>)"
  using assms by (auto simp: plane_inv_def queue_ok_def committed_cost_sum)

lemma scan_queue_found:
  "scan_queue H e xs n co = (co', Some (i, ex, ce)) \<Longrightarrow> n \<le> i \<and> i - n < length xs \<and> xs ! (i - n) = ex"
proof (induction xs arbitrary: n co)
  case (Cons x xs)
  show ?case
    using Cons.prems Cons.IH [of "Suc n"]
    by (fastforce split: if_splits offer_status.splits prod.splits simp: nth_Cons')
qed simp

lemma plane_inv_requeue:
  assumes inv: "plane_inv p" and q: "q \<in> set QUEUE_CLASSES"
    and same: "p' = p\<lparr>rp_coalescer := co, rp_queues := (rp_queues p)(q := sort_queue xs)\<rparr>"
    and len: "int (length xs) \<le> queue_capacity (rp_config p)"
      "rp_services p q + int (length xs) \<le> rp_arrivals p q"
    and items: "\<And>x. x \<in> set xs \<Longrightarrow> item_queue x = q \<and> 0 \<le> wi_cost x"
    and fits: "committed_cost p - queue_cost (rp_queues p q) + queue_cost xs \<le> remaining (rp_budget p)"
  shows "plane_inv p'"
proof -
  have "committed_cost p' \<le> remaining (rp_budget p)"
    using fits committed_cost_upd [OF q, of p' p "sort_queue xs"] by (simp add: same)
  moreover have "queue_ok p' r" if "r \<in> set QUEUE_CLASSES" for r
    using plane_invD(3) [OF inv that] len items
    by (auto simp: queue_ok_def same sort_queue_def list_all_iff)
  ultimately show ?thesis
    using inv by (simp add: plane_inv_def same)
qed

lemma arrival_room:
  "plane_inv p \<Longrightarrow> q \<in> set QUEUE_CLASSES \<Longrightarrow>
   rp_services p q + int (length (rp_queues p q)) + 1 \<le> rp_arrivals p q + 1"
  by (auto dest: plane_invD(3) simp: queue_ok_def)

lemma validate_item_class: "validate_item p item = Inr r \<Longrightarrow> item_queue item \<in> set QUEUE_CLASSES"
  by (simp add: validate_item_def split: if_splits)

definition arrived :: "rhythm_plane \<Rightarrow> string \<Rightarrow> rhythm_plane" where
  "arrived p q = p\<lparr>rp_arrivals := (rp_arrivals p)(q := rp_arrivals p q + 1)\<rparr>"

lemma plane_inv_arrived: "plane_inv p \<Longrightarrow> plane_inv (arrived p q)"
  unfolding arrived_def by (rule plane_inv_arrival)

lemma arrived_sel [simp]:
  "rp_queues (arrived p q) = rp_queues p" "rp_config (arrived p q) = rp_config p"
  "rp_budget (arrived p q) = rp_budget p" "rp_services (arrived p q) = rp_services p"
  "rp_coalescer (arrived p q) = rp_coalescer p" "rp_arrivals (arrived p q) q = rp_arrivals p q + 1"
  "validate_item (arrived p q) item = validate_item p item"
  by (simp_all add: arrived_def validate_item_def)

lemma plane_inv_replace:
  assumes inv: "plane_inv p" and q: "item_queue item \<in> set QUEUE_CLASSES" and cost: "0 \<le> wi_cost item"
    and i: "i < length (rp_queues p (item_queue item))"
    and commit: "can_commit p (cost_delta (wi_cost item) (wi_cost (rp_queues p (item_queue item) ! i))) b"
  shows "plane_inv (p\<lparr>rp_coalescer := co, rp_queues := (rp_queues p)(item_queue item :=
           sort_queue ((rp_queues p (item_queue item))[i := item]))\<rparr>)"
proof (rule plane_inv_requeue [OF inv q refl])
  let ?old = "wi_cost (rp_queues p (item_queue item) ! i)"
  have ok: "queue_ok p (item_queue item)" using plane_invD(3) [OF inv q] .
  then show "int (length ((rp_queues p (item_queue item))[i := item])) \<le> queue_capacity (rp_config p)"
    "rp_services p (item_queue item) + int (length ((rp_queues p (item_queue item))[i := item]))
       \<le> rp_arrivals p (item_queue item)"
    by (simp_all add: queue_ok_def)
  show "item_queue x = item_queue item \<and> 0 \<le> wi_cost x"
    if "x \<in> set ((rp_queues p (item_queue item))[i := item])" for x
    using that set_update_subset_insert queue_ok_item [OF ok] cost by fastforce
  have "committed_cost p - ?old + wi_cost item \<le> committed_cost p + cost_delta (wi_cost item) ?old"
    using cost_delta_ge [of "wi_cost item" ?old] by (simp add: algebra_simps)
  also have "\<dots> \<le> remaining (rp_budget p)"
    by (rule can_commit_fits [OF inv commit])
  finally show "committed_cost p - queue_cost (rp_queues p (item_queue item)) +
      queue_cost ((rp_queues p (item_queue item))[i := item]) \<le> remaining (rp_budget p)"
    by (simp add: queue_cost_update [OF i] algebra_simps)
qed

lemma plane_inv_append:
  assumes inv: "plane_inv p" and q: "item_queue item \<in> set QUEUE_CLASSES" and cost: "0 \<le> wi_cost item"
    and room: "int (length (rp_queues p (item_queue item))) < queue_capacity (rp_config p)"
      "rp_services p (item_queue item) + int (length (rp_queues p (item_queue item))) + 1
         \<le> rp_arrivals p (item_queue item)"
    and commit: "can_commit p (wi_cost item) b"
  shows "plane_inv (p\<lparr>rp_coalescer := co, rp_queues := (rp_queues p)(item_queue item :=
           sort_queue (rp_queues p (item_queue item) @ [item]))\<rparr>)"
proof (rule plane_inv_requeue [OF inv q refl])
  show "item_queue x = item_queue item \<and> 0 \<le> wi_cost x"
    if "x \<in> set (rp_queues p (item_queue item) @ [item])" for x
    using that queue_ok_item [OF plane_invD(3) [OF inv q]] cost by auto
  show "committed_cost p - queue_cost (rp_queues p (item_queue item)) +
      queue_cost (rp_queues p (item_queue item) @ [item]) \<le> remaining (rp_budget p)"
    using can_commit_fits [OF inv commit] by simp
qed (use room in simp_all)

lemma submit_cases:
  assumes "submit H p item = (r, p')" and "validate_item p item = Inr []"
  defines "q \<equiv> item_queue item"
  shows "rp_queues p' = rp_queues p \<and> (\<exists>co. p' = (arrived p q)\<lparr>rp_coalescer := co\<rparr>) \<and>
      (\<exists>reason n. r = Inr (decision ''BACKPRESSURE'' reason q n))
    \<or> (\<exists>co i n. i < length (rp_queues p q) \<and> r = Inr (decision ''COALESCED'' ''DEBOUNCE_COALESCE'' q n) \<and>
        can_commit (arrived p q) (cost_delta (wi_cost item) (wi_cost (rp_queues p q ! i))) (q = ''INTERACTIVE'') \<and>
        p' = (arrived p q)\<lparr>rp_coalescer := co, rp_queues := (rp_queues p)(q := sort_queue ((rp_queues p q)[i := item]))\<rparr>)
    \<or> (\<exists>co. r = Inr (decision ''ADMITTED'' ''OK'' q 1) \<and>
        int (length (rp_queues p q)) < queue_capacity (rp_config p) \<and>
        can_commit (arrived p q) (wi_cost item) (q = ''INTERACTIVE'') \<and>
        p' = (arrived p q)\<lparr>rp_coalescer := co, rp_queues := (rp_queues p)(q := sort_queue (rp_queues p q @ [item]))\<rparr>)"
proof -
  have cc: "can_commit ((arrived p q)\<lparr>rp_coalescer := co\<rparr>) c b = can_commit (arrived p q) c b" for co c b
    by (simp add: can_commit_def committed_cost_def)
  obtain co found where scan: "scan_queue H (wi_event item) (rp_queues p q) 0 (rp_coalescer p) = (co, found)"
    by fastforce
  note unf = assms(1) [unfolded submit_def Let_def, folded arrived_def q_def, simplified assms(2) arrived_sel scan]
  show ?thesis
  proof (cases found)
    case None
    then show ?thesis
      using unf by (auto simp: cc split: if_splits)
  next
    case (Some f)
    then obtain i ex ce where f: "found = Some (i, ex, ce)" by (cases f) auto
    then have found: "i < length (rp_queues p q)" "rp_queues p q ! i = ex"
      using scan_queue_found scan by fastforce+
    show ?thesis
    proof (cases "can_commit (arrived p q) (cost_delta (wi_cost item) (wi_cost ex)) (q = ''INTERACTIVE'')")
      case True
      show ?thesis
        by (rule disjI2, rule disjI1, rule exI [of _ co], rule exI [of _ i], rule exI [of _ "ce_coalesced_count ce"])
          (use unf f found True in \<open>simp add: cc\<close>)
    next
      case False
      show ?thesis
        by (rule disjI1) (use unf f False in \<open>auto simp: cc\<close>)
    qed
  qed
qed

lemma submit_inv:
  assumes inv: "plane_inv p" and cost: "0 \<le> wi_cost item" and "submit H p item = (r, p')"
  shows "plane_inv p'"
proof (cases "validate_item p item = Inr []")
  case False
  then have "p' = arrived p (item_queue item)"
    using assms(3) by (auto simp: submit_def Let_def arrived_def [symmetric] split: sum.splits if_splits)
  with plane_inv_arrived [OF inv] show ?thesis by simp
next
  case True
  let ?q = "item_queue item"
  note q = validate_item_class [OF True] and arr = plane_inv_arrived [OF inv, of ?q]
  from submit_cases [OF assms(3) True] show ?thesis
  proof (elim disjE conjE exE)
    fix co i
    assume "i < length (rp_queues p ?q)"
      "can_commit (arrived p ?q) (cost_delta (wi_cost item) (wi_cost (rp_queues p ?q ! i))) (?q = ''INTERACTIVE'')"
      "p' = (arrived p ?q)\<lparr>rp_coalescer := co, rp_queues := (rp_queues p)(?q := sort_queue ((rp_queues p ?q)[i := item]))\<rparr>"
    then show ?thesis
      using plane_inv_replace [OF arr q cost, of i] by simp
  next
    fix co
    assume "int (length (rp_queues p ?q)) < queue_capacity (rp_config p)"
      "can_commit (arrived p ?q) (wi_cost item) (?q = ''INTERACTIVE'')"
      "p' = (arrived p ?q)\<lparr>rp_coalescer := co, rp_queues := (rp_queues p)(?q := sort_queue (rp_queues p ?q @ [item]))\<rparr>"
    then show ?thesis
      using plane_inv_append [OF arr q cost] arrival_room [OF inv q] by simp
  qed (use arr in simp)
qed

lemma queue_ok_tl:
  "queue_ok p q \<Longrightarrow> rp_queues p q = x # xs \<Longrightarrow> rp_services p' q = rp_services p q + d \<Longrightarrow> 0 \<le> d \<Longrightarrow> d \<le> 1 \<Longrightarrow>
   rp_config p' = rp_config p \<Longrightarrow> rp_arrivals p' q = rp_arrivals p q \<Longrightarrow> rp_queues p' q = xs \<Longrightarrow> queue_ok p' q"
  by (simp add: queue_ok_def)

lemma spendable_le:
  "0 \<le> remaining l \<Longrightarrow> 0 \<le> reserve (bl_config l) \<Longrightarrow> spendable l b \<le> remaining l"
  by (simp add: spendable_def pos_part_diff_le)

lemma service_one_cases:
  assumes "service_one H p q now lat = (r, p')"
  shows "p' = p \<and> (q \<notin> set QUEUE_CLASSES \<and> r = Inl (KeyError q) \<or> q \<in> set QUEUE_CLASSES \<and> rp_queues p q = [] \<and> r = Inr None)
    \<or> q \<in> set QUEUE_CLASSES \<and> (\<exists>item rest. rp_queues p q = item # rest \<and> rp_queues p' = (rp_queues p)(q := rest) \<and>
        rp_config p' = rp_config p \<and> rp_arrivals p' = rp_arrivals p \<and>
        (r = Inl (ValueError ''BUDGET_EXHAUSTED'') \<and> \<not> wi_cost item \<le> spendable (rp_budget p) (q = ''INTERACTIVE'') \<and>
           p' = p\<lparr>rp_queues := (rp_queues p)(q := rest)\<rparr>
         \<or> r = Inr (Some item) \<and> spend (rp_budget p) (wi_cost item) (q = ''INTERACTIVE'') = Inr (rp_budget p') \<and>
           rp_services p' = (rp_services p)(q := rp_services p q + 1) \<and>
           rp_tokens p' = (rp_tokens p)(q := rp_tokens p q + token_cost (wi_cost item)) \<and>
           rp_io p' = (rp_io p)(q := rp_io p q + io_bytes (wi_cost item))))"
  using assms
  by (auto simp: service_one_def Let_def spend_eq_Inl split: if_splits list.splits sum.splits)

lemma service_one_inv:
  assumes inv: "plane_inv p" and "service_one H p q now lat = (r, p')"
  shows "plane_inv p'"
  using service_one_cases [OF assms(2)]
proof (elim disjE conjE exE)
  fix item rest
  assume q: "q \<in> set QUEUE_CLASSES" and items: "rp_queues p q = item # rest"
    and upd: "rp_queues p' = (rp_queues p)(q := rest)"
    and p': "p' = p\<lparr>rp_queues := (rp_queues p)(q := rest)\<rparr>"
  note ok = plane_invD(3) [OF inv q]
  have "committed_cost p = committed_cost p' + wi_cost item"
    using committed_cost_upd [OF q upd] by (simp add: items algebra_simps)
  moreover have "0 \<le> wi_cost item"
    using queue_ok_item [OF ok, of item] by (simp add: items)
  ultimately have "committed_cost p' \<le> committed_cost p" by simp
  moreover have "queue_ok p' r" if "r \<in> set QUEUE_CLASSES" for r
    using plane_invD(3) [OF inv that] queue_ok_tl [OF ok items, of p' 0]
    by (cases "r = q") (simp_all add: p' queue_ok_def)
  ultimately show ?thesis
    using inv by (auto simp: plane_inv_def p')
next
  fix item rest
  assume q: "q \<in> set QUEUE_CLASSES" and items: "rp_queues p q = item # rest"
    and upd: "rp_queues p' = (rp_queues p)(q := rest)"
    and same: "rp_config p' = rp_config p" "rp_arrivals p' = rp_arrivals p"
    and sp: "spend (rp_budget p) (wi_cost item) (q = ''INTERACTIVE'') = Inr (rp_budget p')"
    and sv: "rp_services p' = (rp_services p)(q := rp_services p q + 1)"
    and tk: "rp_tokens p' = (rp_tokens p)(q := rp_tokens p q + token_cost (wi_cost item))"
    and io: "rp_io p' = (rp_io p)(q := rp_io p q + io_bytes (wi_cost item))"
  note ok = plane_invD(3) [OF inv q]
  have rem: "remaining (rp_budget p') = remaining (rp_budget p) - wi_cost item"
    and cfg: "bl_config (rp_budget p') = bl_config (rp_budget p)"
    using sp by (simp_all add: spend_eq_Inr)
  have "committed_cost p' \<le> remaining (rp_budget p')"
    using committed_cost_upd [OF q upd] plane_invD(2) [OF inv] by (simp add: rem items algebra_simps)
  moreover have "queue_ok p' r" if "r \<in> set QUEUE_CLASSES" for r
    using plane_invD(3) [OF inv that] queue_ok_tl [OF ok items, of p' 1]
    by (cases "r = q") (simp_all add: same sv upd queue_ok_def)
  moreover have "(\<Sum>q\<in>set QUEUE_CLASSES. rp_tokens p' q) = (\<Sum>q\<in>set QUEUE_CLASSES. rp_tokens p q) + token_cost (wi_cost item)"
    "(\<Sum>q\<in>set QUEUE_CLASSES. rp_io p' q) = (\<Sum>q\<in>set QUEUE_CLASSES. rp_io p q) + io_bytes (wi_cost item)"
    unfolding tk io by (simp_all only: sum_fun_upd [OF _ q] finite_set)
  moreover have "bl_token (rp_budget p') = bl_token (rp_budget p) - token_cost (wi_cost item)"
    "bl_io (rp_budget p') = bl_io (rp_budget p) - io_bytes (wi_cost item)"
    using rem by (simp_all add: remaining_def cost_arith)
  ultimately show ?thesis
    using inv by (auto simp: plane_inv_def same cfg)
qed (use inv in simp_all)

section \<open>Runs of the plane\<close>

text \<open>
  A run starts from a plane built over a fresh ledger of a valid configuration, and every later
  state comes from a call of the public interface.  The cost of a submitted item is one that
  the constructor of \<open>WorkCost\<close> accepts.
\<close>

inductive plane_run :: "(nat list \<Rightarrow> string) \<Rightarrow> rhythm_plane \<Rightarrow> bool" for H where
  run_start: "BudgetConfig bc = Inr bc' \<Longrightarrow> RhythmConfig rc = Inr rc' \<Longrightarrow>
    RhythmPlane rc' (BudgetLedger bc') t = Inr p \<Longrightarrow> plane_run H p"
| run_submit: "plane_run H p \<Longrightarrow> WorkCost_valid (wi_cost item) \<Longrightarrow> submit H p item = (r, p') \<Longrightarrow> plane_run H p'"
| run_service: "plane_run H p \<Longrightarrow> service_one H p q now lat = (r, p') \<Longrightarrow> plane_run H p'"
| run_debounce: "plane_run H p \<Longrightarrow> plane_set_debounce_ms p d q = Inr p' \<Longrightarrow> plane_run H p'"

lemma RhythmPlane_inv:
  assumes "BudgetConfig bc = Inr bc'" "RhythmConfig rc = Inr rc'" "RhythmPlane rc' (BudgetLedger bc') t = Inr p"
  shows "plane_inv p"
proof -
  have "p = \<lparr>rp_config = rc', rp_budget = BudgetLedger bc', rp_queues = (\<lambda>_. []), rp_coalescer = rp_coalescer p,
        rp_start_ms = t, rp_arrivals = (\<lambda>_. 0), rp_services = (\<lambda>_. 0), rp_latency = (\<lambda>_. 0),
        rp_tokens = (\<lambda>_. 0), rp_io = (\<lambda>_. 0)\<rparr>"
    using assms(3) by (auto simp: RhythmPlane_def bind_result_eq_Inr)
  then have sel: "rp_config p = rc'" "rp_budget p = BudgetLedger bc'" "rp_queues p = (\<lambda>_. [])"
      "rp_arrivals p = (\<lambda>_. 0)" "rp_services p = (\<lambda>_. 0)" "rp_tokens p = (\<lambda>_. 0)" "rp_io p = (\<lambda>_. 0)"
    by (metis rhythm_plane.select_convs)+
  have "committed_cost p = 0" by (simp add: committed_cost_sum sel)
  moreover have "queue_ok p q" for q
    using assms(2) by (simp add: queue_ok_def sel RhythmConfig_def split: if_splits)
  ultimately show ?thesis
    using assms(1,2)
    by (simp add: plane_inv_def sel BudgetConfig_eq_Inr RhythmConfig_def BudgetLedger_def split: if_splits)
      (simp add: remaining_def total_budget_def)
qed

lemma plane_run_inv: "plane_run H p \<Longrightarrow> plane_inv p"
proof (induction rule: plane_run.induct)
  case (run_start bc bc' rc rc' t p)
  then show ?case by (rule RhythmPlane_inv)
next
  case (run_submit p item r p')
  then show ?case using submit_inv by (simp add: WorkCost_valid_iff)
next
  case (run_service p q now lat r p')
  then show ?case using service_one_inv by blast
next
  case (run_debounce p d q p')
  then show ?case by (auto simp: plane_set_debounce_ms_def bind_result_eq_Inr)
qed

section \<open>The ledger as an interface\<close>

text \<open>
  What a client of the ledger relies on: a spend takes exactly its cost, keeps the reserve, never
  overdraws, a background spend leaves the reserve untouched, and an interactive spend within the
  remaining budget succeeds.
\<close>

fun spends :: "('l \<Rightarrow> 'c \<Rightarrow> bool \<Rightarrow> 'l result) \<Rightarrow> 'l \<Rightarrow> ('c \<times> bool) list \<Rightarrow> 'l result" where
  "spends sp l [] = Inr l"
| "spends sp l ((c, b) # cs) = bind_result (sp l c b) (\<lambda>l'. spends sp l' cs)"

locale reserve_ledger =
  fixes rem :: "'l \<Rightarrow> 'c::ordered_ab_group_add" and res :: "'l \<Rightarrow> 'c"
    and sp :: "'l \<Rightarrow> 'c \<Rightarrow> bool \<Rightarrow> 'l result"
  assumes takes: "sp l c b = Inr l' \<Longrightarrow> rem l' = rem l - c \<and> res l' = res l"
    and no_overdraft: "0 \<le> res l \<Longrightarrow> 0 \<le> rem l \<Longrightarrow> sp l c b = Inr l' \<Longrightarrow> c \<le> rem l"
    and background: "res l \<le> rem l \<Longrightarrow> sp l c False = Inr l' \<Longrightarrow> res l \<le> rem l - c"
    and interactive: "c \<le> rem l \<Longrightarrow> ok (sp l c True)"
begin

lemma spends_account:
  "spends sp l ops = Inr l' \<Longrightarrow> rem l' = rem l - sum_list (map fst ops) \<and> res l' = res l"
proof (induction ops arbitrary: l)
  case (Cons op ops)
  then obtain m where "sp l (fst op) (snd op) = Inr m" "spends sp m ops = Inr l'"
    by (cases op) (auto simp: bind_result_eq_Inr)
  with takes Cons.IH [of m] show ?case by (auto simp: algebra_simps)
qed simp

lemma spends_no_overdraft:
  "0 \<le> res l \<Longrightarrow> 0 \<le> rem l \<Longrightarrow> spends sp l ops = Inr l' \<Longrightarrow> 0 \<le> rem l'"
proof (induction ops arbitrary: l)
  case (Cons op ops)
  then obtain m where m: "sp l (fst op) (snd op) = Inr m" "spends sp m ops = Inr l'"
    by (cases op) (auto simp: bind_result_eq_Inr)
  with no_overdraft [OF Cons.prems(1,2) m(1)] takes [OF m(1)] Cons.IH [of m] Cons.prems show ?case
    by simp
qed simp

lemma background_keeps_reserve:
  "res l \<le> rem l \<Longrightarrow> \<forall>op \<in> set ops. \<not> snd op \<Longrightarrow> spends sp l ops = Inr l' \<Longrightarrow> res l' \<le> rem l'"
proof (induction ops arbitrary: l)
  case (Cons op ops)
  then obtain m where m: "sp l (fst op) False = Inr m" "spends sp m ops = Inr l'"
    by (cases op) (auto simp: bind_result_eq_Inr)
  with background [OF Cons.prems(1) m(1)] takes [OF m(1)] Cons.IH [of m] Cons.prems show ?case
    by simp
qed simp

lemma interactive_spends_ok:
  "\<forall>c \<in> set cs. 0 \<le> c \<Longrightarrow> sum_list cs \<le> rem l \<Longrightarrow> ok (spends sp l (map (\<lambda>c. (c, True)) cs))"
proof (induction cs arbitrary: l)
  case (Cons c cs)
  have "0 \<le> sum_list cs" using Cons.prems(1) by (intro sum_list_nonneg) auto
  then have "c \<le> c + sum_list cs" by simp
  with Cons.prems have "c \<le> rem l" by (simp only: sum_list.Cons)
  then obtain m where m: "sp l c True = Inr m" using interactive by (auto simp: ok_iff)
  with takes have "rem m = rem l - c" by blast
  with Cons.prems have "sum_list cs \<le> rem m" by (simp add: le_diff_eq add.commute)
  with Cons.IH Cons.prems m show ?case by simp
qed simp

end

interpretation budget: reserve_ledger remaining "\<lambda>l. reserve (bl_config l)" spend
proof unfold_locales
  show "c \<le> remaining l" if "0 \<le> reserve (bl_config l)" "0 \<le> remaining l" "spend l c b = Inr l'" for l c b l'
    using that spendable_le by (auto simp: spend_eq_Inr intro: order.trans)
  show "reserve (bl_config l) \<le> remaining l - c"
    if "reserve (bl_config l) \<le> remaining l" "spend l c False = Inr l'" for l c l'
    using that pos_part_nonneg [of "remaining l - reserve (bl_config l)"]
    by (simp add: spend_eq_Inr spendable_def algebra_simps)
  show "ok (spend l c True)" if "c \<le> remaining l" for c l
    using that by (simp add: spend_def can_spend_iff spendable_def)
qed (simp add: spend_eq_Inr)

section \<open>What the plane guarantees\<close>

text \<open>C34: The interactive reserve.  From a fresh ledger of a valid configuration, after any sequence of
  background spends that the ledger accepts, interactive work whose total cost is within the
  reserve can be spent in full, one cost after the other, and the ledger is never overdrawn.\<close>

theorem interactive_reserve_guarantee:
  assumes "BudgetConfig bc = Inr bc'" and "\<forall>op \<in> set ops. \<not> snd op"
    and "spends spend (BudgetLedger bc') ops = Inr l"
    and "\<forall>c \<in> set cs. 0 \<le> c" and "sum_list cs \<le> reserve bc'"
  shows "\<exists>l'. spends spend l (map (\<lambda>c. (c, True)) cs) = Inr l' \<and>
    remaining l' = total_budget bc - sum_list (map fst ops) - sum_list cs \<and> 0 \<le> remaining l'"
proof -
  have bc: "bc' = bc" "0 \<le> reserve bc" "reserve bc \<le> total_budget bc"
    using assms(1) by (auto simp: BudgetConfig_eq_Inr)
  have acc: "remaining l = total_budget bc - sum_list (map fst ops)" "reserve (bl_config l) = reserve bc"
    using budget.spends_account [OF assms(3)] bc by simp_all
  have "reserve (bl_config l) \<le> remaining l"
    using budget.background_keeps_reserve [OF _ assms(2,3)] bc by simp
  with acc assms(5) bc have fits: "sum_list cs \<le> remaining l" by (metis order.trans)
  then obtain l' where l': "spends spend l (map (\<lambda>c. (c, True)) cs) = Inr l'"
    using budget.interactive_spends_ok [OF assms(4)] by (auto simp: ok_iff)
  have "remaining l' = remaining l - sum_list cs"
    using budget.spends_account [OF l'] by (simp add: comp_def)
  with fits l' acc show ?thesis by simp
qed

definition sample_budget :: budget_config where
  "sample_budget =
     \<lparr>token_budget = 100, compute_budget_ms = 100, io_budget_bytes = 100, latency_budget_ms = 100,
      interactive_token_reserve = 20, interactive_compute_reserve_ms = 0,
      interactive_io_reserve_bytes = 0, interactive_latency_reserve_ms = 0\<rparr>"

theorem interactive_reserve_guarantee_witness:
  "\<exists>l'. spends spend ((BudgetLedger sample_budget)\<lparr>bl_token := 20\<rparr>)
     [(WorkCost 12 0 0 0, True), (WorkCost 8 0 0 0, True)] = Inr l' \<and> remaining l' = WorkCost 0 100 100 100"
  using interactive_reserve_guarantee
    [of sample_budget sample_budget "[(WorkCost 80 0 0 0, False)]"
      "(BudgetLedger sample_budget)\<lparr>bl_token := 20\<rparr>" "[WorkCost 12 0 0 0, WorkCost 8 0 0 0]"]
  by (simp add: sample_budget_def BudgetConfig_def BudgetLedger_def spend_def can_spend_def
      ledger_available_def total_budget_def reserve_def cost_arith)

text \<open>C5: Every state of a run of the plane: no queue exceeds the capacity, the work admitted and not
  yet served fits in what is left of the budget, the budget is not overdrawn, every queue is in
  service order, and the counters account for the items, the tokens and the bytes.\<close>

theorem plane_run_never_overcommits:
  assumes "plane_run H p" and "q \<in> set QUEUE_CLASSES"
  shows "int (length (rp_queues p q)) \<le> queue_capacity (rp_config p) \<and>
    sorted (map item_key (rp_queues p q)) \<and>
    rp_services p q + int (length (rp_queues p q)) \<le> rp_arrivals p q \<and>
    committed_cost p \<le> remaining (rp_budget p) \<and> 0 \<le> remaining (rp_budget p) \<and>
    token_budget (bl_config (rp_budget p)) - bl_token (rp_budget p) = (\<Sum>q\<in>set QUEUE_CLASSES. rp_tokens p q) \<and>
    io_budget_bytes (bl_config (rp_budget p)) - bl_io (rp_budget p) = (\<Sum>q\<in>set QUEUE_CLASSES. rp_io p q)"
proof -
  have inv: "plane_inv p" by (rule plane_run_inv [OF assms(1)])
  have "0 \<le> remaining (rp_budget p)"
    using plane_inv_committed_nonneg [OF inv] plane_invD(2) [OF inv] by order
  with plane_invD(3) [OF inv assms(2)] inv show ?thesis
    unfolding plane_inv_def queue_ok_def by (intro conjI; linarith | blast)
qed

fun serve_all ::
    "(nat list \<Rightarrow> string) \<Rightarrow> string \<Rightarrow> (int \<times> int) list \<Rightarrow> rhythm_plane \<Rightarrow>
     work_item option result list \<times> rhythm_plane" where
  "serve_all H q [] p = ([], p)"
| "serve_all H q ((now, lat) # ts) p =
     (let (r, p') = service_one H p q now lat; (rs, p'') = serve_all H q ts p' in (r # rs, p''))"

lemma interactive_service_ok:
  assumes inv: "plane_inv p" and items: "rp_queues p ''INTERACTIVE'' = item # rest"
    and call: "service_one H p ''INTERACTIVE'' now lat = (r, p')"
  shows "r = Inr (Some item) \<and> rp_queues p' ''INTERACTIVE'' = rest"
proof -
  have q: "''INTERACTIVE'' \<in> set QUEUE_CLASSES" by (simp add: QUEUE_CLASSES_def)
  have "0 \<le> queue_cost rest"
    using queue_ok_item [OF plane_invD(3) [OF inv q]] by (intro queue_cost_nonneg) (simp add: items)
  then have "wi_cost item \<le> wi_cost item + queue_cost rest" by simp
  also have "\<dots> \<le> remaining (rp_budget p)"
    using plane_inv_queue_le [OF inv q] by (simp add: items)
  finally have "wi_cost item \<le> spendable (rp_budget p) True" by (simp add: spendable_def)
  with service_one_cases [OF call] q items show ?thesis by auto
qed

text \<open>C39: Interactive work is never lost to the budget: in every state of a run, serving the
  INTERACTIVE queue as often as it has items returns exactly those items, in order of priority,
  arrival and event id, and no call raises.\<close>

theorem interactive_queue_drains:
  assumes "plane_run H p" and "length ts = length (rp_queues p ''INTERACTIVE'')"
  shows "fst (serve_all H ''INTERACTIVE'' ts p) = map (\<lambda>i. Inr (Some i)) (rp_queues p ''INTERACTIVE'') \<and>
    rp_queues (snd (serve_all H ''INTERACTIVE'' ts p)) ''INTERACTIVE'' = [] \<and>
    sorted (map item_key (rp_queues p ''INTERACTIVE''))"
proof -
  have "plane_inv p \<Longrightarrow> length ts = length (rp_queues p ''INTERACTIVE'') \<Longrightarrow>
    fst (serve_all H ''INTERACTIVE'' ts p) = map (\<lambda>i. Inr (Some i)) (rp_queues p ''INTERACTIVE'') \<and>
    rp_queues (snd (serve_all H ''INTERACTIVE'' ts p)) ''INTERACTIVE'' = []" for p
  proof (induction ts arbitrary: p)
    case (Cons t ts)
    then obtain item rest where items: "rp_queues p ''INTERACTIVE'' = item # rest"
      by (cases "rp_queues p ''INTERACTIVE''") auto
    obtain r p' where call: "service_one H p ''INTERACTIVE'' (fst t) (snd t) = (r, p')" by fastforce
    with interactive_service_ok [OF Cons.prems(1) items call] service_one_inv [OF Cons.prems(1) call]
      Cons.IH [of p'] Cons.prems(2) items
    show ?case by (cases t) (auto simp: split_beta)
  qed simp
  moreover have "sorted (map item_key (rp_queues p ''INTERACTIVE''))"
    using plane_invD(3) [OF plane_run_inv [OF assms(1)], of "''INTERACTIVE''"]
    by (simp add: queue_ok_def QUEUE_CLASSES_def)
  ultimately show ?thesis using plane_run_inv [OF assms(1)] assms(2) by blast
qed

text \<open>A plane with the default rhythm configuration and a small budget, for evaluation.\<close>

definition sample_rhythm_event :: "string \<Rightarrow> string \<Rightarrow> string \<Rightarrow> int \<Rightarrow> rhythm_event" where
  "sample_rhythm_event eid key q t =
     \<lparr>ev_event_id = eid, ev_coalesce_key = key,
      ev_boundary = \<lparr>hb_life_id = ''life'', hb_world_scope_hash = ''w'', hb_principal_scope_hash = ''p'',
        hb_queue_class = q, hb_world_cut_id = None, hb_transaction_ref = None\<rparr>,
      ev_arrived_at_ms = t, ev_payload_sha256 = ''x'', ev_priority = 0\<rparr>"

definition sample_item :: "string \<Rightarrow> string \<Rightarrow> string \<Rightarrow> int \<Rightarrow> int \<Rightarrow> work_item" where
  "sample_item eid key q t c =
     \<lparr>wi_event = sample_rhythm_event eid key q t, wi_cost = WorkCost c 0 0 0, wi_semantic = False, wi_revalidation = False\<rparr>"

definition sample_config :: rhythm_config where
  "sample_config = \<lparr>queue_capacity = 256, rc_debounce_ms = 100, semantic_min_priority = 50,
     revalidation_min_priority = 25, rc_rho_target_milli = 800\<rparr>"

definition sample_plane :: rhythm_plane where
  "sample_plane = \<lparr>rp_config = sample_config, rp_budget = BudgetLedger sample_budget, rp_queues = (\<lambda>_. []),
     rp_coalescer = \<lparr>co_debounce_ms = 100, co_pending = Map.empty, co_debounce_by_queue = Map.empty\<rparr>,
     rp_start_ms = 0, rp_arrivals = (\<lambda>_. 0), rp_services = (\<lambda>_. 0), rp_latency = (\<lambda>_. 0),
     rp_tokens = (\<lambda>_. 0), rp_io = (\<lambda>_. 0)\<rparr>"

lemma sample_plane_run: "plane_run H sample_plane"
  by (rule run_start [of sample_budget sample_budget sample_config sample_config 0])
    (simp_all add: BudgetConfig_def sample_budget_def RhythmConfig_def sample_config_def RhythmPlane_def
      EventCoalescer_def sample_plane_def)

fun submit_all ::
    "(nat list \<Rightarrow> string) \<Rightarrow> work_item list \<Rightarrow> rhythm_plane \<Rightarrow> admission_decision result list \<times> rhythm_plane" where
  "submit_all H [] p = ([], p)"
| "submit_all H (i # is) p = (let (r, p') = submit H p i; (rs, p'') = submit_all H is p' in (r # rs, p''))"

lemma plane_run_submit_all:
  "plane_run H p \<Longrightarrow> \<forall>i \<in> set is. WorkCost_valid (wi_cost i) \<Longrightarrow> plane_run H (snd (submit_all H is p))"
proof (induction "is" arbitrary: p)
  case (Cons i "is")
  obtain r p' where "submit H p i = (r, p')" by fastforce
  with Cons run_submit [of H p i r p'] show ?case by (simp add: split_beta)
qed simp

lemmas plane_eval = submit_def service_one_def sample_plane_def sample_item_def sample_rhythm_event_def sample_config_def
  sample_budget_def BudgetLedger_def item_queue_def validate_item_def QUEUE_CLASSES_def offer_def debounce_for_def
  can_commit_def ledger_snapshot_def committed_cost_def sort_queue_def spend_def can_spend_def ledger_available_def
  forget_def cost_delta_def decision_def identity_key_def Let_def

text \<open>Two items admitted by the sample plane: background work worth 80 of the 100 tokens and
  interactive work worth the reserved 20.\<close>

definition sample_work :: "work_item list" where
  "sample_work = [sample_item ''b'' ''kb'' ''BACKGROUND'' 0 80, sample_item ''i'' ''ki'' ''INTERACTIVE'' 0 20]"

lemma sample_work_run: "plane_run H (snd (submit_all H sample_work sample_plane))"
  by (rule plane_run_submit_all [OF sample_plane_run])
    (simp add: sample_work_def sample_item_def WorkCost_valid_def)

lemma sample_work_queues:
  "rp_queues (snd (submit_all H sample_work sample_plane)) ''BACKGROUND'' = [sample_item ''b'' ''kb'' ''BACKGROUND'' 0 80]"
  "rp_queues (snd (submit_all H sample_work sample_plane)) ''INTERACTIVE'' = [sample_item ''i'' ''ki'' ''INTERACTIVE'' 0 20]"
  "fst (submit_all H sample_work sample_plane) =
     [Inr (decision ''ADMITTED'' ''OK'' ''BACKGROUND'' 1), Inr (decision ''ADMITTED'' ''OK'' ''INTERACTIVE'' 1)]"
  by (simp_all add: sample_work_def plane_eval)

theorem plane_run_never_overcommits_witness:
  "committed_cost (snd (submit_all (\<lambda>_. []) sample_work sample_plane)) \<le>
   remaining (rp_budget (snd (submit_all (\<lambda>_. []) sample_work sample_plane)))"
  using plane_run_never_overcommits [OF sample_work_run, of "''BACKGROUND''" "\<lambda>_. []"]
  by (simp add: QUEUE_CLASSES_def)

theorem interactive_queue_drains_witness:
  "fst (serve_all (\<lambda>_. []) ''INTERACTIVE'' [(5, 1)] (snd (submit_all (\<lambda>_. []) sample_work sample_plane))) =
     [Inr (Some (sample_item ''i'' ''ki'' ''INTERACTIVE'' 0 20))]"
  using interactive_queue_drains [OF sample_work_run, of "[(5, 1)]" "\<lambda>_. []"]
  by (simp add: sample_work_queues)

text \<open>An admitted background item can be dropped.  With 100 tokens of which 20 are reserved, background
  work of 80 and interactive work of 20 are both admitted; once the interactive item is served, serving
  the background item raises \<open>BUDGET_EXHAUSTED\<close> although 80 tokens are left, and the item has already
  been popped from its queue, without a service being counted and without its coalescer entry
  being forgotten.\<close>

lemma admitted_background_item_dropped:
  "let (rs, p) = submit_all H sample_work sample_plane;
       (r1, p1) = service_one H p ''INTERACTIVE'' 1 0;
       (r2, p2) = service_one H p1 ''BACKGROUND'' 2 0;
       background = sample_item ''b'' ''kb'' ''BACKGROUND'' 0 80
   in map ok rs = [True, True] \<and> rp_queues p ''BACKGROUND'' = [background] \<and>
      r1 = Inr (Some (sample_item ''i'' ''ki'' ''INTERACTIVE'' 0 20)) \<and> bl_token (rp_budget p1) = 80 \<and>
      r2 = Inl (ValueError ''BUDGET_EXHAUSTED'') \<and> rp_queues p2 ''BACKGROUND'' = [] \<and>
      rp_services p2 ''BACKGROUND'' = 0 \<and>
      co_pending (rp_coalescer p2) (identity_key H (wi_event background)) \<noteq> None"
  by (simp add: sample_work_def plane_eval)

text \<open>The coalescer counts one arrival twice.  When an item with the same identity is still queued but
  the debounce window has passed, \<open>submit\<close> offers the event once in the scan (which starts a new entry)
  and again on admission (which coalesces it with itself): the decision reports one event, the
  coalescer entry says two.\<close>

lemma admitted_event_counted_twice:
  fixes item :: work_item
  defines "q \<equiv> item_queue item" and "e \<equiv> wi_event item"
  assumes "validate_item p item = Inr []" and "rp_queues p q = [old]"
    and "identity_key H (wi_event old) = identity_key H e"
    and "co_pending (rp_coalescer p) (identity_key H e) = Some prior"
    and "ev_arrived_at_ms e - ce_last_arrived_at_ms prior > debounce_for (rp_coalescer p) q"
    and "0 \<le> debounce_for (rp_coalescer p) q"
    and "2 \<le> queue_capacity (rp_config p)" and "can_commit p (wi_cost item) (q = ''INTERACTIVE'')"
  shows "fst (submit H p item) = Inr (decision ''ADMITTED'' ''OK'' q 1) \<and>
    (\<exists>ce. co_pending (rp_coalescer (snd (submit H p item))) (identity_key H e) = Some ce \<and>
          ce_event ce = e \<and> ce_coalesced_count ce = 2)"
proof -
  have cc: "can_commit (p\<lparr>rp_arrivals := a, rp_coalescer := co\<rparr>) (wi_cost item) b = can_commit p (wi_cost item) b"
    for a co b by (simp add: can_commit_def committed_cost_def)
  have v: "validate_item (p\<lparr>rp_arrivals := a\<rparr>) item = Inr []" for a
    using assms(3) by (auto simp: validate_item_def split: if_splits)
  have dp: "debounce_for (rp_coalescer p\<lparr>co_pending := m\<rparr>) c = debounce_for (rp_coalescer p) c" for m c
    by (simp add: debounce_for_def cong: option.case_cong)
  have d: "debounce_for (rp_coalescer p) (hb_queue_class (ev_boundary e)) = debounce_for (rp_coalescer p) q"
    by (simp add: q_def e_def item_queue_def)
  show ?thesis
    using assms(4-10)
    by (simp add: submit_def Let_def v cc offer_def d dp q_def [symmetric] e_def [symmetric])
qed

text \<open>A queue-specific debounce changes the timing of that queue class alone; only the default form
  reaches classes that have no override, and a debounce is never negative after construction.\<close>

lemma set_debounce_isolated:
  assumes "plane_set_debounce_ms p d (Some q) = Inr p'"
  shows "debounce_for (rp_coalescer p') q = d \<and> 0 \<le> d \<and>
    (\<forall>r. r \<noteq> q \<longrightarrow> debounce_for (rp_coalescer p') r = debounce_for (rp_coalescer p) r) \<and>
    rp_queues p' = rp_queues p \<and> rp_budget p' = rp_budget p"
  using assms
  by (auto simp: plane_set_debounce_ms_def co_set_debounce_ms_def bind_result_eq_Inr debounce_for_def
      split: if_splits option.splits)

text \<open>The adaptive debounce.  For valid rates the result is the least whole number of milliseconds, not
  below zero, for which batching arrivals of rate \<open>lam\<close> over the window keeps the semantic load
  \<open>p\<close> within \<open>rho * mu * (window + 1/lam)\<close>.\<close>

lemma adaptive_debounce_ms_least:
  fixes ar sr ratio rho :: int
  defines "lam \<equiv> of_int ar / 1000 :: rat" and "mu \<equiv> of_int sr / 1000 :: rat"
    and "p \<equiv> of_int ratio / 1000 :: rat" and "r \<equiv> of_int rho / 1000 :: rat"
  assumes "0 < ar" "0 < sr" "0 < ratio" "ratio \<le> 1000" "1 \<le> rho" "rho < 1000"
  shows "\<exists>d. adaptive_debounce_ms ar sr ratio rho = Inr d \<and> 0 \<le> d \<and>
    p \<le> r * mu * (of_int d / 1000 + 1 / lam) \<and>
    (\<forall>d' \<ge> 0. p \<le> r * mu * (of_int d' / 1000 + 1 / lam) \<longrightarrow> d \<le> d')"
proof -
  define d where "d = ceiling (max 0 (p / (r * mu) - 1 / lam) * 1000)"
  have pos: "0 < r * mu" "0 < lam"
    using assms by (simp_all add: r_def mu_def lam_def)
  have scaled: "x \<le> k / 1000 + y \<longleftrightarrow> (x - y) * 1000 \<le> k" for x y k :: rat
    by (simp add: field_simps)
  have fit: "p \<le> r * mu * (of_int k / 1000 + 1 / lam) \<longleftrightarrow> (p / (r * mu) - 1 / lam) * 1000 \<le> of_int k" for k
  proof -
    have "p \<le> r * mu * (of_int k / 1000 + 1 / lam) \<longleftrightarrow> p / (r * mu) \<le> of_int k / 1000 + 1 / lam"
      using pos_divide_le_eq [OF pos(1)] by (simp add: mult.commute)
    also have "\<dots> \<longleftrightarrow> (p / (r * mu) - 1 / lam) * 1000 \<le> of_int k"
      by (rule scaled)
    finally show ?thesis .
  qed
  have "adaptive_debounce_ms ar sr ratio rho = Inr d"
    using assms(5-) unfolding d_def lam_def mu_def p_def r_def
    by (simp only: adaptive_debounce_ms_def Let_def) simp
  moreover have "0 \<le> d"
    unfolding d_def zero_le_ceiling by (rule less_le_trans [of _ 0]) simp_all
  moreover have "(p / (r * mu) - 1 / lam) * 1000 \<le> of_int d"
    unfolding d_def by (rule order.trans [OF mult_right_mono le_of_int_ceiling]) simp_all
  moreover have "d \<le> k" if "0 \<le> k" "(p / (r * mu) - 1 / lam) * 1000 \<le> of_int k" for k
    unfolding d_def ceiling_le_iff using that by (simp only: max_def split: if_split) simp
  ultimately show ?thesis by (auto simp: fit)
qed

text \<open>Telemetry is honest: for a known class it reports the depth of the queue, the arrivals seen and the
  age of the oldest queued item, which no queued item exceeds, and \<open>rho\<close> is absent exactly when the
  measured service rate is zero.\<close>

lemma telemetry_faithful:
  assumes "q \<in> set QUEUE_CLASSES"
  shows "\<exists>t. telemetry p q now = Inr t \<and> qt_queue_depth t = int (length (rp_queues p q)) \<and>
    qt_arrival_count t = rp_arrivals p q \<and> qt_service_count t = rp_services p q \<and>
    0 \<le> qt_oldest_queue_age_ms t \<and>
    (\<forall>i \<in> set (rp_queues p q). now - ev_arrived_at_ms (wi_event i) \<le> qt_oldest_queue_age_ms t) \<and>
    (rp_queues p q \<noteq> [] \<longrightarrow> (\<exists>i \<in> set (rp_queues p q). qt_oldest_queue_age_ms t = max 0 (now - ev_arrived_at_ms (wi_event i)))) \<and>
    (qt_rho_milli t = None \<longleftrightarrow> qt_service_rate_milli_per_sec t = 0)"
proof -
  let ?ages = "(\<lambda>i. ev_arrived_at_ms (wi_event i)) ` set (rp_queues p q)"
  have "Min ?ages \<in> ?ages" if "rp_queues p q \<noteq> []" using that by (intro Min_in) auto
  moreover have "Min ?ages \<le> ev_arrived_at_ms (wi_event i)" if "i \<in> set (rp_queues p q)" for i
    using that by (intro Min_le) auto
  ultimately show ?thesis
    using assms by (fastforce simp: telemetry_def Let_def)
qed

end
