(* ===== verification/Cognition_Evidence.thy ===== *)
theory Cognition_Evidence
  imports Payload
begin

text \<open>
  The evidence contract of the cognition system, \<open>src/contracts/cognition_evidence.py\<close>: the source
  reference, the evidence record with its field constraints and validators in the order pydantic
  runs them, the content-derived identifier and the integrity digest.  Fields with a \<open>Literal\<close> type
  are strings restricted to the literals.  The observation is a sequence of code points; Unicode
  normalisation to NFC is the parameter \<open>nfc\<close> (the Unicode database is not part of the
  repository).  SHA-256 is the parameter \<open>H\<close>.
\<close>

record cognition_source_ref =
  sr_source_kind :: string
  sr_object_id :: string
  sr_object_revision :: int
  sr_sha256 :: string
  sr_span_start :: "int option"
  sr_span_end :: "int option"

definition COGNITION_CONTRACT_SCHEMA_VERSION :: string where
  "COGNITION_CONTRACT_SCHEMA_VERSION = ''tiangong.cognition.contracts.v1''"

definition CognitionDomain :: "string list" where
  "CognitionDomain = [''software'', ''self'', ''user'', ''environment'', ''organization'', ''external'']"

definition EvidenceClass :: "string list" where
  "EvidenceClass = [''observed'', ''user_asserted'', ''execution_verified'', ''model_inference'',
     ''reflection'', ''prospective'', ''migration_verified'']"

definition CognitionEvidenceSourceKind :: "string list" where
  "CognitionEvidenceSourceKind = [''memory'', ''fact_execution'', ''code_perception'', ''user_instruction'',
     ''system_authority'', ''model_synthesis'', ''migration'']"

definition CognitionObservationMode :: "string list" where
  "CognitionObservationMode = [''positive'', ''negative'', ''aggregate'']"

definition CognitionExtractorKind :: "string list" where
  "CognitionExtractorKind = [''deterministic'', ''direct_tool'', ''memory_projection'', ''llm_synthesis'', ''migration'']"

definition CognitionVolatilityClass :: "string list" where
  "CognitionVolatilityClass = [''transient'', ''short'', ''medium'', ''long'', ''structural'']"

definition CognitionPrivacyScope :: "string list" where
  "CognitionPrivacyScope = [''public'', ''relationship'', ''private'', ''secret'', ''system'']"

definition CognitionEvidenceId :: "string \<Rightarrow> bool" where
  "CognitionEvidenceId s \<longleftrightarrow> prefixed_sha256 ''cev_'' s"

definition CognitionAncestorId :: "string \<Rightarrow> bool" where
  "CognitionAncestorId s \<longleftrightarrow> prefixed_sha256 ''cog_'' s"

definition sorted_unique :: "string list \<Rightarrow> string list result" where
  "sorted_unique v =
     (if v \<noteq> sorted_set v
      then Inl (ValueError ''set-like cognition evidence fields must be sorted and unique'')
      else Inr v)"

definition text_ok :: "(ustring \<Rightarrow> ustring) \<Rightarrow> ustring \<Rightarrow> ustring result" where
  "text_ok nfc v =
     (if nfc v \<noteq> v \<or> 0 \<in> set v
      then Inl (ValueError ''cognition evidence text must be NFC and contain no NUL'')
      else Inr v)"

definition source_ref_fields_ok :: "cognition_source_ref \<Rightarrow> bool" where
  "source_ref_fields_ok r \<longleftrightarrow>
     sr_source_kind r \<in> set CognitionEvidenceSourceKind \<and> OpaqueId (sr_object_id r) \<and>
     1 \<le> sr_object_revision r \<and> sr_object_revision r \<le> MAX_SAFE_INTEGER \<and> Sha256 (sr_sha256 r) \<and>
     opt_ok (\<lambda>i. 0 \<le> i) (sr_span_start r) \<and> opt_ok (\<lambda>i. 0 \<le> i) (sr_span_end r)"

definition CognitionSourceRef :: "cognition_source_ref \<Rightarrow> cognition_source_ref result" where
  "CognitionSourceRef r =
     (if \<not> source_ref_fields_ok r then Inl (ValueError ''field constraint'')
      else case (sr_span_start r, sr_span_end r) of
        (None, None) \<Rightarrow> Inr r
      | (Some a, Some b) \<Rightarrow>
          if a > b then Inl (ValueError ''cognition source span is inverted'') else Inr r
      | _ \<Rightarrow> Inl (ValueError ''cognition source span must be all-or-none''))"

definition source_ref_fields :: "cognition_source_ref \<Rightarrow> (string \<times> pyval) list" where
  "source_ref_fields r =
     [(''source_kind'', jstr (sr_source_kind r)), (''object_id'', jstr (sr_object_id r)),
      (''object_revision'', PInt (sr_object_revision r)), (''sha256'', jstr (sr_sha256 r)),
      (''span_start'', joptint (sr_span_start r)), (''span_end'', joptint (sr_span_end r))]"

record cognition_evidence =
  cv_schema_version :: string
  cv_evidence_id :: string
  cv_life_id :: string
  cv_domain :: string
  cv_world_scope_hash :: string
  cv_principal_scope_hash :: string
  cv_privacy_scope :: string
  cv_source_ref :: cognition_source_ref
  cv_evidence_class :: string
  cv_source_credibility_milli :: int
  cv_authority_ceiling_milli :: int
  cv_provenance_integrity_milli :: int
  cv_observation_mode :: string
  cv_observation :: ustring
  cv_coverage_milli :: int
  cv_search_scope_hash :: "string option"
  cv_independence_group_hash :: string
  cv_lineage_root_hashes :: "string list"
  cv_derived_from_evidence_ids :: "string list"
  cv_ancestor_cognition_ids :: "string list"
  cv_content_object_id :: string
  cv_content_sha256 :: string
  cv_extractor_kind :: string
  cv_observed_at_ms :: int
  cv_valid_from_ms :: int
  cv_valid_until_ms :: "int option"
  cv_volatility_class :: string
  cv_evidence_sha256 :: string

definition evidence_id_fields :: "cognition_evidence \<Rightarrow> (string \<times> pyval) list" where
  "evidence_id_fields e =
     [(''domain'', jstr ''tiangong.cognition.evidence-id.v1''), (''life_id'', jstr (cv_life_id e)),
      (''cognition_domain'', jstr (cv_domain e)), (''world_scope_hash'', jstr (cv_world_scope_hash e)),
      (''principal_scope_hash'', jstr (cv_principal_scope_hash e)),
      (''privacy_scope'', jstr (cv_privacy_scope e)),
      (''source_ref'', jmodel (source_ref_fields (cv_source_ref e))),
      (''evidence_class'', jstr (cv_evidence_class e)),
      (''source_credibility_milli'', PInt (cv_source_credibility_milli e)),
      (''authority_ceiling_milli'', PInt (cv_authority_ceiling_milli e)),
      (''provenance_integrity_milli'', PInt (cv_provenance_integrity_milli e)),
      (''observation_mode'', jstr (cv_observation_mode e)), (''observation'', PStr (cv_observation e)),
      (''coverage_milli'', PInt (cv_coverage_milli e)), (''search_scope_hash'', jopt (cv_search_scope_hash e)),
      (''independence_group_hash'', jstr (cv_independence_group_hash e)),
      (''lineage_root_hashes'', jstrs (cv_lineage_root_hashes e)),
      (''derived_from_evidence_ids'', jstrs (cv_derived_from_evidence_ids e)),
      (''ancestor_cognition_ids'', jstrs (cv_ancestor_cognition_ids e)),
      (''content_object_id'', jstr (cv_content_object_id e)), (''content_sha256'', jstr (cv_content_sha256 e)),
      (''extractor_kind'', jstr (cv_extractor_kind e)), (''observed_at_ms'', PInt (cv_observed_at_ms e)),
      (''valid_from_ms'', PInt (cv_valid_from_ms e)), (''valid_until_ms'', joptint (cv_valid_until_ms e)),
      (''volatility_class'', jstr (cv_volatility_class e))]"

definition derive_cognition_evidence_id ::
    "(nat list \<Rightarrow> string) \<Rightarrow> cognition_evidence \<Rightarrow> string result" where
  "derive_cognition_evidence_id H e =
     bind_result (canonical_sha256 H (jobj (evidence_id_fields e))) (\<lambda>h. Inr (''cev_'' @ h))"

text \<open>The field constraints, including the two field validators.\<close>

definition evidence_fields_ok :: "(ustring \<Rightarrow> ustring) \<Rightarrow> cognition_evidence \<Rightarrow> bool" where
  "evidence_fields_ok nfc e \<longleftrightarrow>
     cv_schema_version e = COGNITION_CONTRACT_SCHEMA_VERSION \<and> CognitionEvidenceId (cv_evidence_id e) \<and>
     OpaqueId (cv_life_id e) \<and> cv_domain e \<in> set CognitionDomain \<and>
     Sha256 (cv_world_scope_hash e) \<and> Sha256 (cv_principal_scope_hash e) \<and>
     cv_privacy_scope e \<in> set CognitionPrivacyScope \<and> ok (CognitionSourceRef (cv_source_ref e)) \<and>
     cv_evidence_class e \<in> set EvidenceClass \<and> milli (cv_source_credibility_milli e) \<and>
     milli (cv_authority_ceiling_milli e) \<and> milli (cv_provenance_integrity_milli e) \<and>
     cv_observation_mode e \<in> set CognitionObservationMode \<and>
     1 \<le> length (cv_observation e) \<and> length (cv_observation e) \<le> 50000 \<and> valid_str (cv_observation e) \<and>
     ok (text_ok nfc (cv_observation e)) \<and> milli (cv_coverage_milli e) \<and>
     opt_ok Sha256 (cv_search_scope_hash e) \<and> Sha256 (cv_independence_group_hash e) \<and>
     list_all Sha256 (cv_lineage_root_hashes e) \<and> 1 \<le> length (cv_lineage_root_hashes e) \<and>
     length (cv_lineage_root_hashes e) \<le> 256 \<and> ok (sorted_unique (cv_lineage_root_hashes e)) \<and>
     list_all CognitionEvidenceId (cv_derived_from_evidence_ids e) \<and>
     length (cv_derived_from_evidence_ids e) \<le> 256 \<and> ok (sorted_unique (cv_derived_from_evidence_ids e)) \<and>
     list_all CognitionAncestorId (cv_ancestor_cognition_ids e) \<and>
     length (cv_ancestor_cognition_ids e) \<le> 256 \<and> ok (sorted_unique (cv_ancestor_cognition_ids e)) \<and>
     OpaqueId (cv_content_object_id e) \<and> Sha256 (cv_content_sha256 e) \<and>
     cv_extractor_kind e \<in> set CognitionExtractorKind \<and>
     0 \<le> cv_observed_at_ms e \<and> cv_observed_at_ms e \<le> MAX_SAFE_INTEGER \<and>
     0 \<le> cv_valid_from_ms e \<and> cv_valid_from_ms e \<le> MAX_SAFE_INTEGER \<and>
     opt_ok (\<lambda>t. 0 \<le> t \<and> t \<le> MAX_SAFE_INTEGER) (cv_valid_until_ms e) \<and>
     cv_volatility_class e \<in> set CognitionVolatilityClass \<and> Sha256 (cv_evidence_sha256 e)"

definition validate_provenance_and_scope :: "cognition_evidence \<Rightarrow> unit result" where
  "validate_provenance_and_scope e =
     (if cv_source_credibility_milli e > cv_authority_ceiling_milli e
      then Inl (ValueError ''derived cognition evidence cannot exceed its provenance authority ceiling'')
      else if (case cv_valid_until_ms e of None \<Rightarrow> False | Some t \<Rightarrow> t < cv_valid_from_ms e)
      then Inl (ValueError ''cognition evidence validity interval is inverted'')
      else if cv_evidence_class e \<noteq> ''prospective'' \<and> cv_observed_at_ms e < cv_valid_from_ms e
      then Inl (ValueError ''non-prospective cognition evidence cannot be observed before it is valid'')
      else if cv_observation_mode e \<in> {''negative'', ''aggregate''} \<and>
        (cv_search_scope_hash e = None \<or> cv_coverage_milli e \<le> 0)
      then Inl (ValueError ''negative or aggregate cognition evidence requires scoped positive coverage'')
      else if cv_observation_mode e \<notin> {''negative'', ''aggregate''} \<and> cv_search_scope_hash e \<noteq> None
      then Inl (ValueError ''positive cognition evidence must not claim a negative-search scope'')
      else if cv_evidence_id e \<in> set (cv_derived_from_evidence_ids e)
      then Inl (ValueError ''cognition evidence cannot derive from itself'')
      else if cv_extractor_kind e = ''llm_synthesis'' \<and> cv_evidence_class e \<notin> {''model_inference'', ''reflection''}
      then Inl (ValueError ''LLM-synthesized cognition evidence must remain inference or reflection'')
      else if sr_source_kind (cv_source_ref e) = ''model_synthesis'' \<and>
        cv_evidence_class e \<notin> {''model_inference'', ''reflection''}
      then Inl (ValueError ''model-synthesis sources cannot be relabeled as direct cognition evidence'')
      else Inr ())"

definition CognitionEvidence ::
    "(nat list \<Rightarrow> string) \<Rightarrow> (ustring \<Rightarrow> ustring) \<Rightarrow> cognition_evidence \<Rightarrow> cognition_evidence result" where
  "CognitionEvidence H nfc e =
     (if \<not> evidence_fields_ok nfc e then Inl (ValueError ''field constraint'')
      else bind_result (validate_provenance_and_scope e) (\<lambda>_.
        bind_result (derive_cognition_evidence_id H e) (\<lambda>expected.
          if cv_evidence_id e \<noteq> expected
          then Inl (ValueError ''cognition evidence ID does not match its immutable evidence payload'')
          else Inr e)))"

text \<open>\<open>model_dump(mode="json", exclude={"evidence_sha256"})\<close> keeps the declaration order; the digest
  does not depend on it.\<close>

definition evidence_dump_fields :: "cognition_evidence \<Rightarrow> (string \<times> pyval) list" where
  "evidence_dump_fields e =
     [(''schema_version'', jstr (cv_schema_version e)), (''evidence_id'', jstr (cv_evidence_id e)),
      (''life_id'', jstr (cv_life_id e)), (''domain'', jstr (cv_domain e)),
      (''world_scope_hash'', jstr (cv_world_scope_hash e)),
      (''principal_scope_hash'', jstr (cv_principal_scope_hash e)),
      (''privacy_scope'', jstr (cv_privacy_scope e)),
      (''source_ref'', jobj (source_ref_fields (cv_source_ref e))),
      (''evidence_class'', jstr (cv_evidence_class e)),
      (''source_credibility_milli'', PInt (cv_source_credibility_milli e)),
      (''authority_ceiling_milli'', PInt (cv_authority_ceiling_milli e)),
      (''provenance_integrity_milli'', PInt (cv_provenance_integrity_milli e)),
      (''observation_mode'', jstr (cv_observation_mode e)), (''observation'', PStr (cv_observation e)),
      (''coverage_milli'', PInt (cv_coverage_milli e)), (''search_scope_hash'', jopt (cv_search_scope_hash e)),
      (''independence_group_hash'', jstr (cv_independence_group_hash e)),
      (''lineage_root_hashes'', jstrs (cv_lineage_root_hashes e)),
      (''derived_from_evidence_ids'', jstrs (cv_derived_from_evidence_ids e)),
      (''ancestor_cognition_ids'', jstrs (cv_ancestor_cognition_ids e)),
      (''content_object_id'', jstr (cv_content_object_id e)), (''content_sha256'', jstr (cv_content_sha256 e)),
      (''extractor_kind'', jstr (cv_extractor_kind e)), (''observed_at_ms'', PInt (cv_observed_at_ms e)),
      (''valid_from_ms'', PInt (cv_valid_from_ms e)), (''valid_until_ms'', joptint (cv_valid_until_ms e)),
      (''volatility_class'', jstr (cv_volatility_class e))]"

definition computed_evidence_sha256 :: "(nat list \<Rightarrow> string) \<Rightarrow> cognition_evidence \<Rightarrow> string result" where
  "computed_evidence_sha256 H e = canonical_sha256 H (jobj (evidence_dump_fields e))"

definition has_valid_evidence_sha256 :: "(nat list \<Rightarrow> string) \<Rightarrow> cognition_evidence \<Rightarrow> bool result" where
  "has_valid_evidence_sha256 H e =
     bind_result (computed_evidence_sha256 H e) (\<lambda>h. Inr (cv_evidence_sha256 e = h))"

definition with_computed_evidence_sha256 ::
    "(nat list \<Rightarrow> string) \<Rightarrow> cognition_evidence \<Rightarrow> cognition_evidence result" where
  "with_computed_evidence_sha256 H e =
     bind_result (computed_evidence_sha256 H e) (\<lambda>h. Inr (e\<lparr>cv_evidence_sha256 := h\<rparr>))"

section \<open>An identifier determines its evidence\<close>

lemma CognitionEvidence_eq_Inr:
  "CognitionEvidence H nfc e = Inr e' \<longleftrightarrow>
     e' = e \<and> evidence_fields_ok nfc e \<and> validate_provenance_and_scope e = Inr () \<and>
     derive_cognition_evidence_id H e = Inr (cv_evidence_id e)"
  by (auto simp: CognitionEvidence_def bind_result_eq_Inr split: if_splits)

lemma CognitionSourceRef_ok_fields: "ok (CognitionSourceRef r) \<Longrightarrow> source_ref_fields_ok r"
  by (auto simp: CognitionSourceRef_def split: if_splits)

lemma source_ref_keys: "map fst (source_ref_fields r) = map fst (source_ref_fields r')"
  and evidence_id_keys: "map fst (evidence_id_fields e) = map fst (evidence_id_fields e')"
  by (simp_all add: source_ref_fields_def evidence_id_fields_def)

lemma source_ref_py_wf [simp]: "py_wf (jobj (source_ref_fields r))"
  by (simp add: source_ref_fields_def)

lemma evidence_id_py_wf: "valid_str (cv_observation e) \<Longrightarrow> py_wf (jobj (evidence_id_fields e))"
  by (simp add: evidence_id_fields_def source_ref_fields_def)

lemma source_ref_determined:
  assumes "representable (jobj (source_ref_fields r))" "representable (jobj (source_ref_fields r'))"
    and "canonical_value (jobj (source_ref_fields r)) = canonical_value (jobj (source_ref_fields r'))"
  shows "r = r'"
proof -
  have ints: "safe_int (sr_object_revision r)" "safe_int (sr_object_revision r')"
    "opt_ok safe_int (sr_span_start r)" "opt_ok safe_int (sr_span_end r)"
    using assms(1,2) by (simp_all add: source_ref_fields_def safe_int_def)
  have "map (\<lambda>x. canonical_value (snd x)) (source_ref_fields r) =
      map (\<lambda>x. canonical_value (snd x)) (source_ref_fields r')"
    by (rule jobj_fields_eq [OF assms(3,1) source_ref_keys]) (simp add: source_ref_fields_def)
  with ints show "r = r'"
    by (intro cognition_source_ref.equality)
      (auto simp: source_ref_fields_def canonical_PInt simp del: canonical_value.simps(4)
        dest: canonical_joptint_inj)
qed

lemma milli_safe_int: "milli i \<Longrightarrow> safe_int i"
  by (simp add: safe_int_def MAX_SAFE_INTEGER_def)

lemma evidence_ints_safe:
  assumes "evidence_fields_ok nfc e"
  shows "safe_int (cv_source_credibility_milli e)" "safe_int (cv_authority_ceiling_milli e)"
    "safe_int (cv_provenance_integrity_milli e)" "safe_int (cv_coverage_milli e)"
    "safe_int (cv_observed_at_ms e)" "safe_int (cv_valid_from_ms e)" "opt_ok safe_int (cv_valid_until_ms e)"
  using assms
  by (simp_all only: evidence_fields_ok_def milli_safe_int)
    (cases "cv_valid_until_ms e"; simp add: safe_int_def MAX_SAFE_INTEGER_def)+

text \<open>C40: The identifier of an evidence record binds its payload.  Two records the contract accepts under
  the same \<open>evidence_id\<close> agree in every field except the integrity digest, unless SHA-256 collides
  on their two payloads.\<close>

theorem evidence_id_binds_payload:
  assumes "CognitionEvidence H nfc e = Inr e" "CognitionEvidence H nfc e' = Inr e'"
    and "cv_evidence_id e = cv_evidence_id e'"
    and "collision_free H (jobj (evidence_id_fields e)) (jobj (evidence_id_fields e'))"
  shows "e' = e\<lparr>cv_evidence_sha256 := cv_evidence_sha256 e'\<rparr>"
proof -
  have ok: "evidence_fields_ok nfc e" "evidence_fields_ok nfc e'"
    using assms(1,2) by (simp_all add: CognitionEvidence_eq_Inr)
  then have wf: "valid_str (cv_observation e)" "valid_str (cv_observation e')"
    and schema: "cv_schema_version e = cv_schema_version e'"
    by (simp_all add: evidence_fields_ok_def)
  obtain h where h: "canonical_sha256 H (jobj (evidence_id_fields e)) = Inr h"
      "canonical_sha256 H (jobj (evidence_id_fields e')) = Inr h"
  proof -
    obtain a b where "canonical_sha256 H (jobj (evidence_id_fields e)) = Inr a" "cv_evidence_id e = ''cev_'' @ a"
      "canonical_sha256 H (jobj (evidence_id_fields e')) = Inr b" "cv_evidence_id e' = ''cev_'' @ b"
      using assms(1,2)
      by (auto simp: CognitionEvidence_eq_Inr derive_cognition_evidence_id_def bind_result_eq_Inr)
    with assms(3) that show thesis by simp
  qed
  note fields = same_digest_fields [OF h assms(4) evidence_id_py_wf [OF wf(1)] evidence_id_py_wf [OF wf(2)]
      evidence_id_keys]
  have rep: "representable (jobj (evidence_id_fields e))" "representable (jobj (evidence_id_fields e'))"
    using h ok_canonical_sha256 by (metis ok_simps(1))+
  have "representable (PStr (cv_observation e))" "representable (PStr (cv_observation e'))"
    "representable (jobj (source_ref_fields (cv_source_ref e)))"
    "representable (jobj (source_ref_fields (cv_source_ref e')))"
    using rep by (simp_all add: evidence_id_fields_def)
  moreover from this have "cv_source_ref e = cv_source_ref e'"
    using fields by (intro source_ref_determined) (simp_all add: evidence_id_fields_def)
  ultimately show ?thesis
    using fields schema assms(3) evidence_ints_safe [OF ok(1)] evidence_ints_safe [OF ok(2)]
    by (intro cognition_evidence.equality)
      (simp_all add: evidence_id_fields_def canonical_PInt case_JStr_inj map_JStr_inj utf16_sort_key_def
        canonical_joptint_inj del: canonical_value.simps(4))
qed

definition sample_ref :: "string \<Rightarrow> cognition_source_ref" where
  "sample_ref kind = \<lparr>sr_source_kind = kind, sr_object_id = ''obj1'', sr_object_revision = 1,
     sr_sha256 = hex64 (CHR ''1''), sr_span_start = None, sr_span_end = None\<rparr>"

definition sample_evidence :: "string \<Rightarrow> string \<Rightarrow> string \<Rightarrow> string list \<Rightarrow> cognition_evidence" where
  "sample_evidence cls kind grp roots =
     \<lparr>cv_schema_version = COGNITION_CONTRACT_SCHEMA_VERSION, cv_evidence_id = ''cev_'' @ hex64 (CHR ''0''),
      cv_life_id = ''life1'', cv_domain = ''software'', cv_world_scope_hash = hex64 (CHR ''2''),
      cv_principal_scope_hash = hex64 (CHR ''3''), cv_privacy_scope = ''public'',
      cv_source_ref = sample_ref kind, cv_evidence_class = cls,
      cv_source_credibility_milli = 900, cv_authority_ceiling_milli = 1000, cv_provenance_integrity_milli = 1000,
      cv_observation_mode = ''positive'', cv_observation = [111, 107], cv_coverage_milli = 1000,
      cv_search_scope_hash = None, cv_independence_group_hash = grp, cv_lineage_root_hashes = roots,
      cv_derived_from_evidence_ids = [], cv_ancestor_cognition_ids = [], cv_content_object_id = ''obj2'',
      cv_content_sha256 = hex64 (CHR ''6''), cv_extractor_kind = ''deterministic'', cv_observed_at_ms = 100,
      cv_valid_from_ms = 50, cv_valid_until_ms = None, cv_volatility_class = ''structural'',
      cv_evidence_sha256 = hex64 (CHR ''0'')\<rparr>"

lemma sample_evidence_representable:
  "representable (jobj (evidence_id_fields (sample_evidence cls kind grp roots)))"
  "representable (jobj (evidence_dump_fields (sample_evidence cls kind grp roots)))"
  by (simp_all add: evidence_id_fields_def evidence_dump_fields_def source_ref_fields_def sample_evidence_def
      sample_ref_def MAX_SAFE_INTEGER_def surrogate_def)

lemma sample_evidence_fields:
  "evidence_fields_ok (\<lambda>s. s) (sample_evidence ''observed'' ''code_perception'' (hex64 (CHR ''4'')) [hex64 (CHR ''5'')])"
proof -
  have hex: "Sha256 (hex64 (CHR ''0''))" "Sha256 (hex64 (CHR ''1''))" "Sha256 (hex64 (CHR ''2''))"
    "Sha256 (hex64 (CHR ''3''))" "Sha256 (hex64 (CHR ''4''))" "Sha256 (hex64 (CHR ''5''))" "Sha256 (hex64 (CHR ''6''))"
    by (rule Sha256_hex64, code_simp)+
  have ids: "OpaqueId ''life1''" "OpaqueId ''obj1''" "OpaqueId ''obj2''" by code_simp+
  show ?thesis
    by (simp add: evidence_fields_ok_def sample_evidence_def sample_ref_def hex ids CognitionEvidenceId_def
        prefixed_sha256_def CognitionDomain_def CognitionPrivacyScope_def CognitionSourceRef_def
        source_ref_fields_ok_def CognitionEvidenceSourceKind_def EvidenceClass_def CognitionObservationMode_def
        text_ok_def sorted_unique_def sorted_set_def CognitionExtractorKind_def CognitionVolatilityClass_def
        MAX_SAFE_INTEGER_def valid_str_def)
qed

lemma sample_evidence_accepted:
  "CognitionEvidence zero_hash (\<lambda>s. s) (sample_evidence ''observed'' ''code_perception'' (hex64 (CHR ''4'')) [hex64 (CHR ''5'')]) =
     Inr (sample_evidence ''observed'' ''code_perception'' (hex64 (CHR ''4'')) [hex64 (CHR ''5'')])"
  unfolding CognitionEvidence_eq_Inr derive_cognition_evidence_id_def
    canonical_sha256_zero_hash [OF sample_evidence_representable(1)]
  using sample_evidence_fields
  by (simp add: validate_provenance_and_scope_def sample_evidence_def sample_ref_def)

lemma evidence_resealed:
  assumes "Sha256 h" and "CognitionEvidence H nfc e = Inr e"
  shows "CognitionEvidence H nfc (e\<lparr>cv_evidence_sha256 := h\<rparr>) = Inr (e\<lparr>cv_evidence_sha256 := h\<rparr>)"
proof -
  have "derive_cognition_evidence_id H (e\<lparr>cv_evidence_sha256 := h\<rparr>) = derive_cognition_evidence_id H e"
    by (simp add: derive_cognition_evidence_id_def evidence_id_fields_def)
  moreover have "validate_provenance_and_scope (e\<lparr>cv_evidence_sha256 := h\<rparr>) = validate_provenance_and_scope e"
    by (simp add: validate_provenance_and_scope_def cong: option.case_cong if_cong)
  moreover have "evidence_fields_ok nfc e \<Longrightarrow> evidence_fields_ok nfc (e\<lparr>cv_evidence_sha256 := h\<rparr>)"
    using assms(1) by (simp add: evidence_fields_ok_def)
  ultimately show ?thesis
    using assms(2) by (simp add: CognitionEvidence_eq_Inr)
qed

theorem evidence_id_binds_payload_witness:
  "let e = sample_evidence ''observed'' ''code_perception'' (hex64 (CHR ''4'')) [hex64 (CHR ''5'')];
       e' = e\<lparr>cv_evidence_sha256 := hex64 (CHR ''7'')\<rparr>
   in CognitionEvidence zero_hash (\<lambda>s. s) e = Inr e \<and> CognitionEvidence zero_hash (\<lambda>s. s) e' = Inr e' \<and>
      e' = e\<lparr>cv_evidence_sha256 := cv_evidence_sha256 e'\<rparr>"
proof -
  let ?e = "sample_evidence ''observed'' ''code_perception'' (hex64 (CHR ''4'')) [hex64 (CHR ''5'')]"
  let ?e' = "?e\<lparr>cv_evidence_sha256 := hex64 (CHR ''7'')\<rparr>"
  have "Sha256 (hex64 (CHR ''7''))" by (rule Sha256_hex64) code_simp
  then have acc: "CognitionEvidence zero_hash (\<lambda>s. s) ?e' = Inr ?e'" by (rule evidence_resealed [OF _ sample_evidence_accepted])
  have "evidence_id_fields ?e' = evidence_id_fields ?e" by (simp add: evidence_id_fields_def)
  then have "?e' = ?e\<lparr>cv_evidence_sha256 := cv_evidence_sha256 ?e'\<rparr>"
    by (intro evidence_id_binds_payload [OF sample_evidence_accepted acc]) simp_all
  with acc sample_evidence_accepted show ?thesis by (simp add: Let_def)
qed

end
