(* ===== verification/Stability.thy ===== *)
theory Stability
  imports Cognition_Evidence "HOL-Library.Monad_Syntax"
begin

text \<open>
  Evidence aggregation and the stability policy of the cognition system,
  \<open>src/world_understanding/cognition/stability.py\<close>: integer weights of single pieces of evidence,
  the union-find that collapses evidence connected by a declared group or a shared lineage root,
  discounted group scores, the noisy-or totals, the report and the level it supports.

  The union-find loop \<open>while parent[index] != index\<close> is a \<open>partial_function\<close> into \<open>option\<close>: not
  returning is the value \<open>None\<close>, and it is proved that it always returns.  A function that may also
  raise returns \<open>'a result option\<close>.
\<close>

section \<open>The policy\<close>

record stability_policy =
  sp_schema :: string
  same_source_gamma_milli :: int
  max_clock_skew_ms :: int
  provisional_threshold_milli :: int
  stable_threshold_milli :: int
  core_threshold_milli :: int
  stable_max_counter_milli :: int
  core_max_counter_milli :: int

definition StabilityPolicy :: stability_policy where
  "StabilityPolicy =
     \<lparr>sp_schema = ''tiangong.world_cognition.stability.v1'', same_source_gamma_milli = 250,
      max_clock_skew_ms = 5 * 60 * 1000, provisional_threshold_milli = 300, stable_threshold_milli = 600,
      core_threshold_milli = 850, stable_max_counter_milli = 350, core_max_counter_milli = 150\<rparr>"

definition CLASS_FACTOR_MILLI :: "(string \<times> int) list" where
  "CLASS_FACTOR_MILLI =
     [(''observed'', 1000), (''execution_verified'', 1000), (''migration_verified'', 1000),
      (''user_asserted'', 700), (''model_inference'', 0), (''reflection'', 0), (''prospective'', 0)]"

definition SOURCE_FACTOR_MILLI :: "(string \<times> int) list" where
  "SOURCE_FACTOR_MILLI =
     [(''fact_execution'', 1000), (''code_perception'', 950), (''system_authority'', 1000),
      (''migration'', 1000), (''user_instruction'', 750), (''memory'', 600), (''model_synthesis'', 0)]"

definition HALF_LIFE_MS :: "(string \<times> int option) list" where
  "HALF_LIFE_MS =
     [(''transient'', Some (5 * 60 * 1000)), (''short'', Some (6 * 60 * 60 * 1000)),
      (''medium'', Some (3 * 24 * 60 * 60 * 1000)), (''long'', Some (30 * 24 * 60 * 60 * 1000)),
      (''structural'', None)]"

definition DIRECT_CLASSES :: "string set" where
  "DIRECT_CLASSES = {''observed'', ''execution_verified'', ''migration_verified''}"

definition DIRECT_SOURCES :: "string set" where
  "DIRECT_SOURCES = {''fact_execution'', ''code_perception'', ''system_authority'', ''migration''}"

definition policy_dict :: "stability_policy \<Rightarrow> (string \<times> pyval) list" where
  "policy_dict p =
     [(''schema'', jstr (sp_schema p)), (''same_source_gamma_milli'', PInt (same_source_gamma_milli p)),
      (''max_clock_skew_ms'', PInt (max_clock_skew_ms p)),
      (''provisional_threshold_milli'', PInt (provisional_threshold_milli p)),
      (''stable_threshold_milli'', PInt (stable_threshold_milli p)),
      (''core_threshold_milli'', PInt (core_threshold_milli p)),
      (''stable_max_counter_milli'', PInt (stable_max_counter_milli p)),
      (''core_max_counter_milli'', PInt (core_max_counter_milli p)),
      (''class_factor_milli'', jobj (map (\<lambda>(k, i). (k, PInt i)) CLASS_FACTOR_MILLI)),
      (''source_factor_milli'', jobj (map (\<lambda>(k, i). (k, PInt i)) SOURCE_FACTOR_MILLI)),
      (''half_life_ms'', jobj (map (\<lambda>(k, i). (k, joptint i)) HALF_LIFE_MS)),
      (''effective_independence'', jstr ''declared-group-or-shared-lineage-connected-component'')]"

definition policy_sha256 :: "(nat list \<Rightarrow> string) \<Rightarrow> stability_policy \<Rightarrow> string result" where
  "policy_sha256 H p = canonical_sha256 H (jobj (policy_dict p))"

section \<open>The weight of one piece of evidence\<close>

record weighted_evidence =
  we_evidence_id :: string
  we_declared_group :: string
  we_lineage_roots :: "string list"
  we_group :: string
  we_weight_milli :: int
  we_pre_fresh_weight_milli :: int
  we_direct :: bool

definition clamp_milli :: "int \<Rightarrow> int" where
  "clamp_milli v = max 0 (min 1000 v)"

definition milli_mul :: "int list \<Rightarrow> int" where
  "milli_mul values = clamp_milli (foldl (\<lambda>result value. result * clamp_milli value div 1000) 1000 values)"

definition freshness_milli :: "cognition_evidence \<Rightarrow> int \<Rightarrow> int" where
  "freshness_milli e now_ms =
     (case map_of HALF_LIFE_MS (cv_volatility_class e) of
        Some (Some half_life) \<Rightarrow>
          let age = max 0 (now_ms - cv_observed_at_ms e)
          in clamp_milli (1000 * half_life div (half_life + age))
      | _ \<Rightarrow> 1000)"

record cognition_scope =
  sc_cognition_id :: string
  sc_life_id :: string
  sc_domain :: string
  sc_world_scope_hash :: string
  sc_principal_scope_hash :: string

definition get_factor :: "(string \<times> int) list \<Rightarrow> string \<Rightarrow> int" where
  "get_factor table k = (case map_of table k of None \<Rightarrow> 0 | Some v \<Rightarrow> v)"

definition weight_one ::
    "(nat list \<Rightarrow> string) \<Rightarrow> cognition_scope \<Rightarrow> int \<Rightarrow> stability_policy \<Rightarrow> cognition_evidence \<Rightarrow>
     (weighted_evidence option \<times> string option) result" where
  "weight_one H scope now_ms policy e =
     bind_result (has_valid_evidence_sha256 H e) (\<lambda>valid. Inr
       (if \<not> valid then (None, Some ''invalid'')
        else if cv_life_id e \<noteq> sc_life_id scope \<or> cv_domain e \<noteq> sc_domain scope \<or>
          cv_world_scope_hash e \<noteq> sc_world_scope_hash scope \<or>
          cv_principal_scope_hash e \<noteq> sc_principal_scope_hash scope
        then (None, Some ''invalid'')
        else if sc_cognition_id scope \<in> set (cv_ancestor_cognition_ids e) then (None, Some ''self'')
        else if cv_valid_from_ms e > now_ms then (None, Some ''not_yet_valid'')
        else if (case cv_valid_until_ms e of None \<Rightarrow> False | Some t \<Rightarrow> t < now_ms) then (None, Some ''expired'')
        else if cv_observed_at_ms e > now_ms + max_clock_skew_ms policy then (None, Some ''invalid'')
        else
          let authority = min (min (cv_source_credibility_milli e) (cv_authority_ceiling_milli e))
                (cv_provenance_integrity_milli e);
              class_factor = get_factor CLASS_FACTOR_MILLI (cv_evidence_class e);
              source_factor = get_factor SOURCE_FACTOR_MILLI (sr_source_kind (cv_source_ref e));
              coverage_factor = (if cv_observation_mode e \<in> {''negative'', ''aggregate''} then cv_coverage_milli e
                else 1000);
              pre_fresh = milli_mul [authority, class_factor, source_factor, coverage_factor];
              final = milli_mul [pre_fresh, freshness_milli e now_ms];
              direct = (cv_evidence_class e \<in> DIRECT_CLASSES \<and>
                sr_source_kind (cv_source_ref e) \<in> DIRECT_SOURCES \<and> final > 0)
          in (Some \<lparr>we_evidence_id = cv_evidence_id e, we_declared_group = cv_independence_group_hash e,
                we_lineage_roots = cv_lineage_root_hashes e, we_group = cv_independence_group_hash e,
                we_weight_milli = final, we_pre_fresh_weight_milli = pre_fresh, we_direct = direct\<rparr>,
              if final > 0 then None else Some ''zero'')))"

section \<open>Effective independence groups\<close>

partial_function (option) uf_find :: "nat list \<Rightarrow> nat \<Rightarrow> (nat \<times> nat list) option" where
  "uf_find parent index =
     (if parent ! index \<noteq> index
      then let parent' = parent[index := parent ! (parent ! index)] in uf_find parent' (parent' ! index)
      else Some (index, parent))"

definition uf_union :: "nat list \<Rightarrow> nat \<Rightarrow> nat \<Rightarrow> nat list option" where
  "uf_union parent left right =
     do { (a, parent1) \<leftarrow> uf_find parent left;
          (b, parent2) \<leftarrow> uf_find parent1 right;
          Some (if a \<noteq> b then (if a > b then parent2[a := b] else parent2[b := a]) else parent2) }"

definition tokens :: "weighted_evidence \<Rightarrow> string list" where
  "tokens item = (''g:'' @ we_declared_group item) # map (\<lambda>root. ''r:'' @ root) (we_lineage_roots item)"

type_synonym link_state = "nat list \<times> (string \<rightharpoonup> nat)"

fun link_tokens :: "nat \<Rightarrow> string list \<Rightarrow> link_state \<Rightarrow> link_state option" where
  "link_tokens index [] st = Some st"
| "link_tokens index (token # ts) (parent, owner) =
     (case owner token of
        None \<Rightarrow> link_tokens index ts (parent, owner(token \<mapsto> index))
      | Some previous \<Rightarrow>
          do { parent' \<leftarrow> uf_union parent index previous; link_tokens index ts (parent', owner) })"

fun link_items :: "nat \<Rightarrow> weighted_evidence list \<Rightarrow> link_state \<Rightarrow> link_state option" where
  "link_items index [] st = Some st"
| "link_items index (item # rest) st =
     do { st' \<leftarrow> link_tokens index (tokens item) st; link_items (Suc index) rest st' }"

text \<open>\<open>members.setdefault(root, []).append(index)\<close> on a dictionary in insertion order.\<close>

fun setdefault_append :: "'k \<Rightarrow> 'v \<Rightarrow> ('k \<times> 'v list) list \<Rightarrow> ('k \<times> 'v list) list" where
  "setdefault_append k v [] = [(k, [v])]"
| "setdefault_append k v ((k', vs) # rest) =
     (if k' = k then (k', vs @ [v]) # rest else (k', vs) # setdefault_append k v rest)"

fun collect_members ::
    "nat list \<Rightarrow> nat list \<Rightarrow> (nat \<times> nat list) list \<Rightarrow> (nat \<times> nat list) list option" where
  "collect_members parent [] members = Some members"
| "collect_members parent (index # rest) members =
     do { (root, parent') \<leftarrow> uf_find parent index;
          collect_members parent' rest (setdefault_append root index members) }"

definition component_payload :: "weighted_evidence list \<Rightarrow> nat list \<Rightarrow> pyval" where
  "component_payload combined indices = jobj
     [(''domain'', jstr ''tiangong.cognition.effective-independence.v1''),
      (''declared_groups'', jstrs (sorted_set (map (\<lambda>i. we_declared_group (combined ! i)) indices))),
      (''lineage_roots'', jstrs (sorted_set (concat (map (\<lambda>i. we_lineage_roots (combined ! i)) indices))))]"

fun effective_groups ::
    "(nat list \<Rightarrow> string) \<Rightarrow> weighted_evidence list \<Rightarrow> (nat \<times> nat list) list \<Rightarrow> (nat \<rightharpoonup> string) \<Rightarrow>
     (nat \<rightharpoonup> string) result" where
  "effective_groups H combined [] eff = Inr eff"
| "effective_groups H combined ((root, indices) # rest) eff =
     bind_result (canonical_sha256 H (component_payload combined indices)) (\<lambda>key.
       effective_groups H combined rest (foldl (\<lambda>m i. m(i \<mapsto> key)) eff indices))"

definition regroup :: "(nat \<rightharpoonup> string) \<Rightarrow> nat \<times> weighted_evidence \<Rightarrow> weighted_evidence result" where
  "regroup eff = (\<lambda>(index, item). case eff index of
     None \<Rightarrow> Inl (KeyError []) | Some key \<Rightarrow> Inr (item\<lparr>we_group := key\<rparr>))"

definition normalize_effective_groups ::
    "(nat list \<Rightarrow> string) \<Rightarrow> weighted_evidence list \<Rightarrow> weighted_evidence list \<Rightarrow>
     (weighted_evidence list \<times> weighted_evidence list) result option" where
  "normalize_effective_groups H support counter =
     (let combined = support @ counter in
      if combined = [] then Some (Inr (support, counter))
      else
        do { (parent, owner) \<leftarrow> link_items 0 combined ([0..<length combined], Map.empty);
             members \<leftarrow> collect_members parent [0..<length combined] [];
             Some (bind_result (effective_groups H combined members Map.empty) (\<lambda>eff.
               bind_result (map_result (regroup eff) (enumerate 0 combined)) (\<lambda>normalized.
                 Inr (take (length support) normalized, drop (length support) normalized)))) })"

section \<open>Scores and the report\<close>

definition noisy_or :: "int list \<Rightarrow> int" where
  "noisy_or values =
     foldl (\<lambda>combined value. let v = clamp_milli value in min 1000 (combined + v - combined * v div 1000)) 0 values"

definition item_weight :: "bool \<Rightarrow> weighted_evidence \<Rightarrow> int" where
  "item_weight use_pre_fresh item = (if use_pre_fresh then we_pre_fresh_weight_milli item else we_weight_milli item)"

definition group_total :: "int \<Rightarrow> bool \<Rightarrow> weighted_evidence list \<Rightarrow> int" where
  "group_total gamma_milli use_pre_fresh items =
     (let ordered = rev (sort_key (\<lambda>item. (item_weight use_pre_fresh item, we_evidence_id item)) (rev items))
      in fst (foldl (\<lambda>(total, factor) item.
           (total + item_weight use_pre_fresh item * factor div 1000, factor * gamma_milli div 1000)) (0, 1000) ordered))"

definition group_scores :: "int \<Rightarrow> bool \<Rightarrow> weighted_evidence list \<Rightarrow> (string \<times> int) list \<times> string list" where
  "group_scores gamma_milli use_pre_fresh weighted =
     (let groups = dict_fromkeys (map we_group weighted);
          members = (\<lambda>g. filter (\<lambda>item. we_group item = g) weighted)
      in (map (\<lambda>g. (g, min 1000 (group_total gamma_milli use_pre_fresh (members g)))) groups,
          filter (\<lambda>g. list_ex we_direct (members g)) groups))"

definition scores_in_order :: "(string \<times> int) list \<Rightarrow> int list" where
  "scores_in_order scores = map (\<lambda>g. the (map_of scores g)) (sort (map fst scores))"

record stability_report =
  support_milli :: int
  counter_milli :: int
  net_milli :: int
  support_groups :: "string list"
  counter_groups :: "string list"
  direct_support_groups :: "string list"
  conflicted_groups :: "string list"
  dropped_self_derived :: "string list"
  dropped_expired :: "string list"
  dropped_not_yet_valid :: "string list"
  dropped_invalid :: "string list"
  zero_authority :: "string list"
  correlation_discount_milli :: int
  staleness_penalty_milli :: int

text \<open>The inner function \<open>collect\<close>: the identifiers seen, the target list and the dropped
  identifiers by reason are threaded through.\<close>

fun collect ::
    "(nat list \<Rightarrow> string) \<Rightarrow> cognition_scope \<Rightarrow> int \<Rightarrow> stability_policy \<Rightarrow> cognition_evidence list \<Rightarrow>
     string set \<Rightarrow> weighted_evidence list \<Rightarrow> (string \<Rightarrow> string list) \<Rightarrow>
     (weighted_evidence list \<times> (string \<Rightarrow> string list)) result" where
  "collect H scope now policy [] seen target dropped = Inr (target, dropped)"
| "collect H scope now policy (e # rest) seen target dropped =
     (if cv_evidence_id e \<in> seen then collect H scope now policy rest seen target dropped
      else
        let seen' = insert (cv_evidence_id e) seen in
        bind_result (weight_one H scope now policy e) (\<lambda>(item, reason).
          case item of
            Some w \<Rightarrow>
              if we_weight_milli w > 0 then collect H scope now policy rest seen' (target @ [w]) dropped
              else (case reason of
                Some r \<Rightarrow> collect H scope now policy rest seen' target
                  (dropped(r := dropped r @ [cv_evidence_id e]))
              | None \<Rightarrow> collect H scope now policy rest seen' target dropped)
          | None \<Rightarrow> (case reason of
                Some r \<Rightarrow> collect H scope now policy rest seen' target
                  (dropped(r := dropped r @ [cv_evidence_id e]))
              | None \<Rightarrow> collect H scope now policy rest seen' target dropped)))"

definition conflicted_of :: "weighted_evidence list \<Rightarrow> weighted_evidence list \<Rightarrow> string list" where
  "conflicted_of support counter = filter (\<lambda>g. g \<in> set (map we_group counter)) (map we_group support)"

definition build_report ::
    "stability_policy \<Rightarrow> (string \<Rightarrow> string list) \<Rightarrow> weighted_evidence list \<Rightarrow> weighted_evidence list \<Rightarrow> stability_report" where
  "build_report policy dropped support0 counter0 =
     (let conflicted = conflicted_of support0 counter0;
          support = filter (\<lambda>item. we_group item \<notin> set conflicted) support0;
          counter = filter (\<lambda>item. we_group item \<notin> set conflicted) counter0;
          gamma = same_source_gamma_milli policy;
          (support_scores, direct_groups) = group_scores gamma False support;
          (counter_scores, _) = group_scores gamma False counter;
          (support_pre_fresh, _) = group_scores gamma True support;
          (counter_pre_fresh, _) = group_scores gamma True counter;
          support_total = noisy_or (scores_in_order support_scores);
          counter_total = noisy_or (scores_in_order counter_scores);
          support_ungrouped = noisy_or (map we_weight_milli (sort_key we_evidence_id support));
          counter_ungrouped = noisy_or (map we_weight_milli (sort_key we_evidence_id counter));
          support_no_stale = noisy_or (scores_in_order support_pre_fresh);
          counter_no_stale = noisy_or (scores_in_order counter_pre_fresh)
      in \<lparr>support_milli = support_total, counter_milli = counter_total,
          net_milli = max 0 (support_total - counter_total),
          support_groups = sort (map fst (filter (\<lambda>(g, score). score > 0) support_scores)),
          counter_groups = sort (map fst (filter (\<lambda>(g, score). score > 0) counter_scores)),
          direct_support_groups = sort (filter (\<lambda>g. get_factor support_scores g > 0) direct_groups),
          conflicted_groups = sorted_set conflicted,
          dropped_self_derived = sorted_set (dropped ''self''),
          dropped_expired = sorted_set (dropped ''expired''),
          dropped_not_yet_valid = sorted_set (dropped ''not_yet_valid''),
          dropped_invalid = sorted_set (dropped ''invalid''),
          zero_authority = sorted_set (dropped ''zero''),
          correlation_discount_milli = min 1000
            (max 0 (support_ungrouped - support_total) + max 0 (counter_ungrouped - counter_total)),
          staleness_penalty_milli = min 1000
            (max 0 (support_no_stale - support_total) + max 0 (counter_no_stale - counter_total))\<rparr>)"

definition evaluate_evidence ::
    "(nat list \<Rightarrow> string) \<Rightarrow> cognition_scope \<Rightarrow> cognition_evidence list \<Rightarrow> cognition_evidence list \<Rightarrow> int \<Rightarrow>
     stability_policy option \<Rightarrow> stability_report result option" where
  "evaluate_evidence H scope support counter now_ms opt_policy =
     (let policy = (case opt_policy of None \<Rightarrow> StabilityPolicy | Some p \<Rightarrow> p) in
      case collect H scope now_ms policy support {} [] (\<lambda>_. []) of
        Inl err \<Rightarrow> Some (Inl err)
      | Inr (support_items, dropped) \<Rightarrow>
          (case collect H scope now_ms policy counter {} [] dropped of
             Inl err \<Rightarrow> Some (Inl err)
           | Inr (counter_items, dropped') \<Rightarrow>
               map_option (\<lambda>r. bind_result r (\<lambda>(s, c). Inr (build_report policy dropped' s c)))
                 (normalize_effective_groups H support_items counter_items)))"

definition highest_eligible_level :: "stability_report \<Rightarrow> stability_policy option \<Rightarrow> string" where
  "highest_eligible_level report opt_policy =
     (let policy = (case opt_policy of None \<Rightarrow> StabilityPolicy | Some p \<Rightarrow> p) in
      if net_milli report \<ge> core_threshold_milli policy \<and> length (support_groups report) \<ge> 3 \<and>
        length (direct_support_groups report) \<ge> 1 \<and> counter_milli report \<le> core_max_counter_milli policy
      then ''C3''
      else if net_milli report \<ge> stable_threshold_milli policy \<and> length (support_groups report) \<ge> 2 \<and>
        length (direct_support_groups report) \<ge> 1 \<and> counter_milli report \<le> stable_max_counter_milli policy
      then ''C2''
      else if net_milli report \<ge> provisional_threshold_milli policy \<and> length (support_groups report) \<ge> 1
      then ''C1''
      else ''C0'')"

definition challenge_is_material :: "stability_report \<Rightarrow> string \<Rightarrow> bool" where
  "challenge_is_material report current_level =
     (let thresholds = [(''C0'', (300, 1)), (''C1'', (350, 1)), (''C2'', (500, 1)), (''C3'', (650, 2)), (''C4'', (750, 2))];
          (threshold, groups) = (case map_of thresholds current_level of None \<Rightarrow> (1000 :: int, 99) | Some tg \<Rightarrow> tg)
      in if counter_milli report \<ge> 900 \<and> length (counter_groups report) \<ge> 1 then True
         else counter_milli report \<ge> threshold \<and> length (counter_groups report) \<ge> groups)"

section \<open>The union-find\<close>

text \<open>Parent pointers never point upwards, so every index has a representative, computed here by
  following the pointers without changing them.\<close>

definition uf_ok :: "nat list \<Rightarrow> bool" where
  "uf_ok p \<longleftrightarrow> (\<forall>i < length p. p ! i \<le> i)"

function rep :: "nat list \<Rightarrow> nat \<Rightarrow> nat" where
  "rep p i = (if p ! i < i then rep p (p ! i) else i)"
  by auto
termination by (relation "measure snd") auto

declare rep.simps [simp del]

lemma rep_le: "rep p i \<le> i"
  by (induction p i rule: rep.induct) (subst rep.simps, auto)

lemma rep_root: "uf_ok p \<Longrightarrow> i < length p \<Longrightarrow> p ! rep p i = rep p i"
proof (induction p i rule: rep.induct)
  case (1 p i)
  show ?case
  proof (cases "p ! i < i")
    case True
    with 1 have "p ! rep p (p ! i) = rep p (p ! i)" by auto
    with True show ?thesis by (simp add: rep.simps [of p i])
  next
    case False
    moreover have "p ! i \<le> i" using 1(2,3) by (simp add: uf_ok_def)
    ultimately show ?thesis by (simp add: rep.simps [of p i])
  qed
qed

lemma rep_fixed: "p ! r = r \<Longrightarrow> rep p r = r"
  by (subst rep.simps) simp

lemma rep_rep: "uf_ok p \<Longrightarrow> i < length p \<Longrightarrow> rep p (rep p i) = rep p i"
  by (rule rep_fixed) (rule rep_root)

lemma rep_parent: "uf_ok p \<Longrightarrow> i < length p \<Longrightarrow> rep p (p ! i) = rep p i"
  by (metis le_neq_implies_less rep.simps uf_ok_def)

lemma uf_ok_halve: "uf_ok p \<Longrightarrow> i < length p \<Longrightarrow> uf_ok (p[i := p ! (p ! i)])"
  unfolding uf_ok_def by (auto simp: nth_list_update) (meson le_trans order.strict_trans1)

lemma rep_halve:
  assumes "uf_ok p" "i < length p" "j < length p"
  shows "rep (p[i := p ! (p ! i)]) j = rep p j"
  using assms(3)
proof (induction j rule: less_induct)
  case (less j)
  let ?q = "p[i := p ! (p ! i)]"
  have le: "p ! j \<le> j" "p ! i \<le> i" "p ! (p ! i) \<le> p ! i"
    using assms less.prems by (auto simp: uf_ok_def intro: le_less_trans)
  show ?case
  proof (cases "?q ! j < j")
    case True
    then have "rep ?q j = rep p (?q ! j)"
      using less.IH [OF True] less.prems by (simp add: rep.simps [of ?q j])
    moreover have "rep p (?q ! j) = rep p j"
      using assms less.prems le rep_parent [of p] by (cases "j = i") (auto intro: le_less_trans)
    ultimately show ?thesis by simp
  next
    case False
    then have "\<not> p ! j < j"
      using le assms(2) less.prems by (cases "j = i") auto
    with False show ?thesis by (simp add: rep.simps [of ?q j] rep.simps [of p j])
  qed
qed

text \<open>The loop of \<open>find\<close> returns the representative, and compressing the path changes no
  representative.\<close>

lemma uf_find_returns:
  assumes "uf_ok p" "i < length p"
  shows "\<exists>p'. uf_find p i = Some (rep p i, p') \<and> uf_ok p' \<and> length p' = length p \<and>
    (\<forall>j < length p. rep p' j = rep p j)"
  using assms
proof (induction i arbitrary: p rule: less_induct)
  case (less i)
  let ?q = "p[i := p ! (p ! i)]"
  show ?case
  proof (cases "p ! i = i")
    case True
    then show ?thesis
      using less.prems by (subst uf_find.simps) (auto simp: rep_fixed)
  next
    case False
    then have "p ! i < i"
      using less.prems by (simp add: uf_ok_def le_neq_implies_less)
    then have lt: "p ! i < i" "?q ! i \<le> p ! i"
      using less.prems by (auto simp: uf_ok_def)
    have step: "uf_find p i = uf_find ?q (?q ! i)"
      using False by (subst uf_find.simps) (simp add: Let_def)
    have ok: "uf_ok ?q" using less.prems by (rule uf_ok_halve)
    moreover have "?q ! i < length ?q" using lt less.prems by simp
    moreover have "?q ! i < i" using lt by simp
    ultimately obtain p' where p': "uf_find ?q (?q ! i) = Some (rep ?q (?q ! i), p')" "uf_ok p'"
        "length p' = length ?q" "\<forall>j < length ?q. rep p' j = rep ?q j"
      using less.IH by blast
    moreover have "rep ?q (?q ! i) = rep p i"
      using rep_parent [OF ok, of i] rep_halve [OF less.prems, of i] less.prems by (metis length_list_update)
    ultimately show ?thesis
      using step rep_halve [OF less.prems] by auto
  qed
qed

lemma rep_link:
  assumes "uf_ok p" "b < length p" "p ! a = a" "p ! b = b" "a < b" "j < length p"
  shows "rep (p[b := a]) j = (if rep p j = b then a else rep p j)"
  using assms(6)
proof (induction j rule: less_induct)
  case (less j)
  let ?q = "p[b := a]"
  have le: "p ! j \<le> j" using assms(1) less.prems by (simp add: uf_ok_def)
  have a: "rep ?q a = a" using assms by (intro rep_fixed) simp
  show ?case
  proof (cases "j = b")
    case True
    with assms(2-5) a show ?thesis by (simp add: rep.simps [of ?q b] rep_fixed)
  next
    case False
    show ?thesis
    proof (cases "p ! j < j")
      case True
      with False less.IH [OF True] less.prems show ?thesis
        by (simp add: rep.simps [of ?q j] rep.simps [of p j])
    next
      case root: False
      with False show ?thesis
        by (simp add: rep.simps [of ?q j] rep.simps [of p j])
    qed
  qed
qed

lemma uf_ok_link: "uf_ok p \<Longrightarrow> a \<le> b \<Longrightarrow> uf_ok (p[b := a])"
  unfolding uf_ok_def by (metis length_list_update nth_list_update_eq nth_list_update_neq)

text \<open>
  The interface the linking loop relies on: a structure that keeps a partition of the indices
  below its size, with a union that always returns and merges exactly the classes of its two
  arguments.
\<close>

locale partition_structure =
  fixes inv :: "'s \<Rightarrow> bool" and size_of :: "'s \<Rightarrow> nat" and cls :: "'s \<Rightarrow> nat \<Rightarrow> nat"
    and union_op :: "'s \<Rightarrow> nat \<Rightarrow> nat \<Rightarrow> 's option"
  assumes union_returns: "inv s \<Longrightarrow> l < size_of s \<Longrightarrow> r < size_of s \<Longrightarrow>
      \<exists>s'. union_op s l r = Some s' \<and> inv s' \<and> size_of s' = size_of s"
    and union_merges: "inv s \<Longrightarrow> l < size_of s \<Longrightarrow> r < size_of s \<Longrightarrow> union_op s l r = Some s' \<Longrightarrow>
      x < size_of s \<Longrightarrow> y < size_of s \<Longrightarrow>
      cls s' x = cls s' y \<longleftrightarrow>
        cls s x = cls s y \<or> cls s x \<in> {cls s l, cls s r} \<and> cls s y \<in> {cls s l, cls s r}"
begin

lemma union_sound:
  assumes "inv s" "l < size_of s" "r < size_of s" "union_op s l r = Some s'"
    and "equivp R" "R l r"
    and "\<And>x y. x < size_of s \<Longrightarrow> y < size_of s \<Longrightarrow> cls s x = cls s y \<Longrightarrow> R x y"
    and "x < size_of s" "y < size_of s" "cls s' x = cls s' y"
  shows "R x y"
proof -
  have "cls s x = cls s y \<or> cls s x \<in> {cls s l, cls s r} \<and> cls s y \<in> {cls s l, cls s r}"
    using union_merges [OF assms(1-4,8,9)] assms(10) by blast
  then show ?thesis
  proof (elim disjE conjE)
    assume "cls s x = cls s y"
    then show ?thesis by (rule assms(7) [OF assms(8,9)])
  next
    assume "cls s x \<in> {cls s l, cls s r}" "cls s y \<in> {cls s l, cls s r}"
    then have "R x l \<or> R x r" "R l y \<or> R r y"
      using assms(2,3,7,8,9) by (metis empty_iff insert_iff)+
    then show ?thesis
      using assms(6) equivp_symp [OF assms(5)] equivp_transp [OF assms(5)] by blast
  qed
qed

end

lemma uf_union_returns:
  assumes "uf_ok p" "l < length p" "r < length p"
  shows "\<exists>p'. uf_union p l r = Some p' \<and> uf_ok p' \<and> length p' = length p \<and>
    (\<forall>j < length p. rep p' j = (if rep p j = max (rep p l) (rep p r) then min (rep p l) (rep p r) else rep p j))"
proof -
  obtain p1 where p1: "uf_find p l = Some (rep p l, p1)" "uf_ok p1" "length p1 = length p"
      "\<forall>j < length p. rep p1 j = rep p j"
    using uf_find_returns [OF assms(1,2)] by blast
  obtain p2 where p2: "uf_find p1 r = Some (rep p r, p2)" "uf_ok p2" "length p2 = length p"
      "\<forall>j < length p. rep p2 j = rep p j"
    using uf_find_returns [OF p1(2), of r] p1(3,4) assms(3) by auto
  have roots: "p2 ! rep p l = rep p l" "p2 ! rep p r = rep p r" "rep p l < length p2" "rep p r < length p2"
    using rep_root [OF p2(2)] p2(3,4) assms(2,3) rep_le [of p] by (metis le_less_trans)+
  have union: "uf_union p l r = Some (if rep p l \<noteq> rep p r then (if rep p l > rep p r then p2[rep p l := rep p r]
      else p2[rep p r := rep p l]) else p2)"
    by (simp add: uf_union_def p1(1) p2(1))
  consider "rep p l = rep p r" | "rep p l > rep p r" | "rep p l < rep p r" by linarith
  then show ?thesis
  proof cases
    case 1
    then show ?thesis using union p2 by auto
  next
    case 2
    then show ?thesis
      using union p2 roots rep_link [OF p2(2) roots(3,2,1)] by (auto simp: uf_ok_link)
  next
    case 3
    then show ?thesis
      using union p2 roots rep_link [OF p2(2) roots(4,1,2)] by (auto simp: uf_ok_link)
  qed
qed

interpretation uf: partition_structure uf_ok length rep uf_union
proof unfold_locales
  show "\<exists>s'. uf_union s l r = Some s' \<and> uf_ok s' \<and> length s' = length s"
    if "uf_ok s" "l < length s" "r < length s" for s l r
    using uf_union_returns [OF that] by blast
  show "rep s' x = rep s' y \<longleftrightarrow> rep s x = rep s y \<or> rep s x \<in> {rep s l, rep s r} \<and> rep s y \<in> {rep s l, rep s r}"
    if "uf_ok s" "l < length s" "r < length s" "uf_union s l r = Some s'" "x < length s" "y < length s"
    for s l r s' x y
    using uf_union_returns [OF that(1-3)] that(4-6) by (auto simp: max_def min_def)
qed

section \<open>Effective groups are the connected components\<close>

definition shares :: "weighted_evidence list \<Rightarrow> nat \<Rightarrow> nat \<Rightarrow> bool" where
  "shares items i j \<longleftrightarrow> i < length items \<and> j < length items \<and>
     (we_declared_group (items ! i) = we_declared_group (items ! j) \<or>
      set (we_lineage_roots (items ! i)) \<inter> set (we_lineage_roots (items ! j)) \<noteq> {})"

definition connected :: "weighted_evidence list \<Rightarrow> nat \<Rightarrow> nat \<Rightarrow> bool" where
  "connected items = (shares items)\<^sup>*\<^sup>*"

lemma shares_tokens:
  assumes "i < length items" "j < length items" "t \<in> set (tokens (items ! i))" "t \<in> set (tokens (items ! j))"
  shows "shares items i j"
  using assms by (auto simp: shares_def tokens_def)

lemma shares_token:
  assumes "shares items i j"
  obtains t where "t \<in> set (tokens (items ! i))" "t \<in> set (tokens (items ! j))"
  using assms by (auto simp: shares_def tokens_def)

lemma equivp_connected: "equivp (connected items)"
proof (rule equivpI)
  show "reflp (connected items)" by (simp add: connected_def reflp_def)
  have "symp (shares items)" by (auto simp: symp_def shares_def)
  then show "symp (connected items)" unfolding connected_def by (rule symp_rtranclp)
  show "transp (connected items)" by (auto simp: connected_def transp_def)
qed

lemma connected_refl [simp]: "connected items i i"
  by (simp add: connected_def)

definition link_inv :: "weighted_evidence list \<Rightarrow> (nat \<times> string) set \<Rightarrow> link_state \<Rightarrow> bool" where
  "link_inv items linked st \<longleftrightarrow> (case st of (p, owner) \<Rightarrow>
     uf_ok p \<and> length p = length items \<and>
     (\<forall>x < length items. \<forall>y < length items. rep p x = rep p y \<longrightarrow> connected items x y) \<and>
     (\<forall>t j. owner t = Some j \<longrightarrow> j < length items \<and> t \<in> set (tokens (items ! j))) \<and>
     (\<forall>i t. (i, t) \<in> linked \<longrightarrow> i < length items \<and> (\<exists>j. owner t = Some j \<and> rep p i = rep p j)))"

lemma link_inv_own:
  assumes "link_inv items linked (p, owner)" "owner t = None" "i < length items" "t \<in> set (tokens (items ! i))"
  shows "link_inv items (insert (i, t) linked) (p, owner(t \<mapsto> i))"
proof -
  have "(k, t) \<notin> linked" for k using assms(1,2) by (fastforce simp: link_inv_def)
  with assms show ?thesis unfolding link_inv_def by auto
qed

lemma link_inv_union:
  assumes inv: "link_inv items linked (p, owner)" and own: "owner t = Some j"
    and i: "i < length items" "t \<in> set (tokens (items ! i))"
  shows "\<exists>p'. uf_union p i j = Some p' \<and> link_inv items (insert (i, t) linked) (p', owner)"
proof -
  have p: "uf_ok p" "length p = length items"
    and sound: "\<And>x y. x < length items \<Longrightarrow> y < length items \<Longrightarrow> rep p x = rep p y \<Longrightarrow> connected items x y"
    and j: "j < length items" "t \<in> set (tokens (items ! j))"
    and linked: "\<And>k u. (k, u) \<in> linked \<Longrightarrow> k < length items \<and> (\<exists>m. owner u = Some m \<and> rep p k = rep p m)"
    and owned: "\<And>u m. owner u = Some m \<Longrightarrow> m < length items \<and> u \<in> set (tokens (items ! m))"
    using inv own by (auto simp: link_inv_def)
  obtain p' where p': "uf_union p i j = Some p'" "uf_ok p'" "length p' = length p"
    using uf.union_returns [OF p(1), of i j] p(2) i(1) j(1) by auto
  note merges = uf.union_merges [OF p(1) _ _ p'(1), unfolded p(2), OF i(1) j(1)]
  have ij: "connected items i j"
    using shares_tokens [OF i(1) j(1) i(2) j(2)] by (simp add: connected_def)
  have "connected items x y" if "x < length items" "y < length items" "rep p' x = rep p' y" for x y
    using uf.union_sound [OF p(1) _ _ p'(1) equivp_connected ij, unfolded p(2), OF i(1) j(1) sound that] .
  moreover have "k < length items \<and> (\<exists>m. owner u = Some m \<and> rep p' k = rep p' m)"
    if "(k, u) \<in> insert (i, t) linked" for k u
  proof (cases "(k, u) \<in> linked")
    case True
    with linked [OF True] owned show ?thesis using merges by blast
  next
    case False
    with that have "k = i" "u = t" by auto
    with own i(1) j(1) merges show ?thesis by auto
  qed
  ultimately have "link_inv items (insert (i, t) linked) (p', owner)"
    using p' p(2) owned by (auto simp: link_inv_def)
  with p'(1) show ?thesis by blast
qed

lemma link_tokens_returns:
  assumes "link_inv items linked st" "i < length items" "set ts \<subseteq> set (tokens (items ! i))"
  shows "\<exists>st'. link_tokens i ts st = Some st' \<and> link_inv items (linked \<union> {i} \<times> set ts) st'"
  using assms
proof (induction i ts st arbitrary: linked rule: link_tokens.induct)
  case (2 i t ts p owner)
  show ?case
  proof (cases "owner t")
    case None
    have "link_inv items (insert (i, t) linked) (p, owner(t \<mapsto> i))"
      using link_inv_own [OF 2(3) None] 2(4,5) by simp
    from 2(1) [OF None this] 2(4,5) None show ?thesis by (simp add: insert_Times_insert)
  next
    case (Some j)
    obtain p' where p': "uf_union p i j = Some p'" "link_inv items (insert (i, t) linked) (p', owner)"
      using link_inv_union [OF 2(3) Some] 2(4,5) by auto
    from 2(2) [OF Some p'] 2(4,5) Some p'(1) show ?thesis by (simp add: insert_Times_insert)
  qed
qed simp

lemma link_items_returns:
  assumes "link_inv items {(i, t) |i t. i < k \<and> t \<in> set (tokens (items ! i))} st"
    and "drop k items = rest" "k \<le> length items"
  shows "\<exists>st'. link_items k rest st = Some st' \<and>
    link_inv items {(i, t) |i t. i < length items \<and> t \<in> set (tokens (items ! i))} st'"
  using assms
proof (induction rest arbitrary: k st)
  case Nil
  then show ?case by simp
next
  case (Cons x rest)
  then have k: "k < length items" "items ! k = x" "drop (Suc k) items = rest"
    by (auto simp: drop_eq_Nil Cons_nth_drop_Suc [symmetric] not_le [symmetric] dest: sym)
      (metis Cons_nth_drop_Suc drop_eq_Nil list.inject list.simps(3) not_le)+
  obtain st1 where st1: "link_tokens k (tokens x) st = Some st1"
      "link_inv items ({(i, t) |i t. i < k \<and> t \<in> set (tokens (items ! i))} \<union> {k} \<times> set (tokens x)) st1"
    using link_tokens_returns [OF Cons.prems(1) k(1)] k(2) by blast
  moreover have "{(i, t) |i t. i < k \<and> t \<in> set (tokens (items ! i))} \<union> {k} \<times> set (tokens x) =
      {(i, t) |i t. i < Suc k \<and> t \<in> set (tokens (items ! i))}"
    using k(2) by (auto simp: less_Suc_eq)
  ultimately show ?case
    using Cons.IH [of "Suc k" st1] k by simp
qed

lemma uf_ok_upt: "uf_ok [0..<n]" and rep_upt: "i < n \<Longrightarrow> rep [0..<n] i = i"
  by (simp_all add: uf_ok_def rep_fixed)

lemma link_inv_init: "link_inv items {} ([0..<length items], Map.empty)"
  using uf_ok_upt by (auto simp: link_inv_def rep_upt)

text \<open>After the linking loop two indices have the same representative exactly if they are
  connected.\<close>

lemma link_items_components:
  "\<exists>p owner. link_items 0 items ([0..<length items], Map.empty) = Some (p, owner) \<and>
     uf_ok p \<and> length p = length items \<and>
     (\<forall>i < length items. \<forall>j < length items. rep p i = rep p j \<longleftrightarrow> connected items i j)"
proof -
  obtain p owner where st: "link_items 0 items ([0..<length items], Map.empty) = Some (p, owner)"
    and inv: "link_inv items {(i, t) |i t. i < length items \<and> t \<in> set (tokens (items ! i))} (p, owner)"
    using link_items_returns [of items 0] link_inv_init by fastforce
  have sh: "rep p i = rep p j" if "shares items i j" for i j
    using shares_token [OF that] inv that
    by (auto simp: link_inv_def shares_def) (metis option.inject)+
  have "rep p i = rep p j" if "connected items i j" for i j
    using that unfolding connected_def by (induction rule: rtranclp_induct) (auto dest: sh)
  moreover have "uf_ok p" "length p = length items"
    "\<And>i j. i < length items \<Longrightarrow> j < length items \<Longrightarrow> rep p i = rep p j \<Longrightarrow> connected items i j"
    using inv by (simp_all add: link_inv_def)
  ultimately show ?thesis using st by blast
qed

text \<open>The members loop groups the indices by representative, in order.\<close>

lemma setdefault_append_keys:
  "map fst (setdefault_append k v ms) = (if k \<in> set (map fst ms) then map fst ms else map fst ms @ [k])"
  by (induction k v ms rule: setdefault_append.induct) auto

lemma setdefault_append_map_of:
  "map_of (setdefault_append k v ms) = (map_of ms)(k \<mapsto> (case map_of ms k of None \<Rightarrow> [v] | Some vs \<Rightarrow> vs @ [v]))"
  by (induction k v ms rule: setdefault_append.induct) (auto simp: fun_eq_iff)

lemma collect_members_returns:
  assumes "uf_ok p" "length p = n" "m \<le> n" "distinct (map fst ms)"
    and "\<And>i. i < n \<Longrightarrow> rep p i = f i"
    and "\<And>r. map_of ms r = (let is = filter (\<lambda>i. f i = r) [0..<m] in if is = [] then None else Some is)"
  shows "\<exists>ms'. collect_members p [m..<n] ms = Some ms' \<and> distinct (map fst ms') \<and>
    (\<forall>r. map_of ms' r = (let is = filter (\<lambda>i. f i = r) [0..<n] in if is = [] then None else Some is))"
  using assms
proof (induction "n - m" arbitrary: m p ms)
  case 0
  then show ?case by simp
next
  case (Suc d)
  then have m: "m < n" by simp
  obtain p' where p': "uf_find p m = Some (f m, p')" "uf_ok p'" "length p' = n"
      "\<forall>j < n. rep p' j = rep p j"
    using uf_find_returns [OF Suc.prems(1), of m] Suc.prems(2,5) m by auto
  let ?ms = "setdefault_append (f m) m ms"
  have "\<exists>ms'. collect_members p' [Suc m..<n] ?ms = Some ms' \<and> distinct (map fst ms') \<and>
    (\<forall>r. map_of ms' r = (let is = filter (\<lambda>i. f i = r) [0..<n] in if is = [] then None else Some is))"
  proof (rule Suc.hyps(1))
    show "d = n - Suc m" using Suc.hyps(2) by simp
    show "distinct (map fst ?ms)"
      unfolding setdefault_append_keys using Suc.prems(4) by simp
    show "rep p' i = f i" if "i < n" for i using p'(4) Suc.prems(5) that by simp
    show "map_of ?ms r = (let is = filter (\<lambda>i. f i = r) [0..<Suc m] in if is = [] then None else Some is)" for r
      unfolding setdefault_append_map_of using Suc.prems(6) [of r]
      by (auto simp: Let_def Suc.prems(6))
  qed (use p' m in auto)
  with p'(1) m show ?case by (simp add: upt_conv_Cons)
qed

lemma members_returned:
  assumes "uf_ok p" "length p = n"
  shows "\<exists>ms. collect_members p [0..<n] [] = Some ms \<and> distinct (map fst ms) \<and>
    (\<forall>r is. (r, is) \<in> set ms \<longleftrightarrow> is \<noteq> [] \<and> is = filter (\<lambda>i. rep p i = r) [0..<n])"
proof -
  obtain ms where ms: "collect_members p [0..<n] [] = Some ms" "distinct (map fst ms)"
      "\<forall>r. map_of ms r = (let is = filter (\<lambda>i. rep p i = r) [0..<n] in if is = [] then None else Some is)"
    using collect_members_returns [OF assms, of 0 "[]" "rep p"] by auto
  have "(r, is) \<in> set ms \<longleftrightarrow> is \<noteq> [] \<and> is = filter (\<lambda>i. rep p i = r) [0..<n]" for r "is"
  proof -
    have "(r, is) \<in> set ms \<longleftrightarrow> map_of ms r = Some is" using ms(2) by (simp add: map_of_eq_Some_iff)
    with ms(3) show ?thesis by (auto simp: Let_def)
  qed
  with ms show ?thesis by blast
qed

definition component :: "weighted_evidence list \<Rightarrow> nat list \<Rightarrow> nat \<Rightarrow> nat list" where
  "component items p i = filter (\<lambda>j. rep p j = rep p i) [0..<length items]"

lemma foldl_map_upd: "foldl (\<lambda>m i. m(i \<mapsto> key)) m is = (\<lambda>i. if i \<in> set is then Some key else m i)"
  by (induction "is" arbitrary: m) auto

lemma component_payload_representable: "representable (component_payload items is)"
  and component_payload_wf: "py_wf (component_payload items is)"
  by (simp_all add: component_payload_def)

definition component_key :: "(nat list \<Rightarrow> string) \<Rightarrow> weighted_evidence list \<Rightarrow> nat list \<Rightarrow> string" where
  "component_key H items is = (case canonical_sha256 H (component_payload items is) of Inr k \<Rightarrow> k | Inl _ \<Rightarrow> [])"

lemma component_key: "canonical_sha256 H (component_payload items is) = Inr (component_key H items is)"
proof -
  have "ok (canonical_sha256 H (component_payload items is))"
    by (simp only: ok_canonical_sha256 component_payload_representable)
  then show ?thesis by (auto simp: component_key_def ok_iff)
qed

lemma effective_groups_returns:
  assumes "\<And>r is i. (r, is) \<in> set ms \<Longrightarrow> i \<in> set is \<Longrightarrow> is = cmp i"
  shows "effective_groups H items ms eff =
    Inr (\<lambda>i. if i \<in> \<Union> (set ` snd ` set ms) then Some (component_key H items (cmp i)) else eff i)"
  using assms
proof (induction ms arbitrary: eff)
  case (Cons m ms)
  obtain r js where m: "m = (r, js)" by fastforce
  have js: "component_key H items (cmp i) = component_key H items js" if "i \<in> set js" for i
    using Cons.prems [of r js i] m that by simp
  have "effective_groups H items (m # ms) eff =
      effective_groups H items ms (\<lambda>i. if i \<in> set js then Some (component_key H items js) else eff i)"
    by (simp add: m component_key foldl_map_upd)
  also have "\<dots> = Inr (\<lambda>i. if i \<in> \<Union> (set ` snd ` set ms) then Some (component_key H items (cmp i))
      else if i \<in> set js then Some (component_key H items js) else eff i)"
    using Cons.prems by (intro Cons.IH) (meson list.set_intros(2))
  also have "\<dots> = Inr (\<lambda>i. if i \<in> \<Union> (set ` snd ` set (m # ms)) then Some (component_key H items (cmp i)) else eff i)"
    using m js by (auto simp: fun_eq_iff)
  finally show ?case .
qed simp

definition regrouped :: "(nat list \<Rightarrow> string) \<Rightarrow> weighted_evidence list \<Rightarrow> nat list \<Rightarrow> nat \<Rightarrow> weighted_evidence" where
  "regrouped H items p i = (items ! i)\<lparr>we_group := component_key H items (component items p i)\<rparr>"

lemma normalize_effective_groups_returns:
  fixes support counter :: "weighted_evidence list"
  defines "items \<equiv> support @ counter"
  shows "\<exists>p. (\<forall>i < length items. \<forall>j < length items. rep p i = rep p j \<longleftrightarrow> connected items i j) \<and>
    normalize_effective_groups H support counter =
      Some (Inr (map (regrouped H items p) [0..<length support],
                 map (regrouped H items p) [length support..<length items]))"
proof -
  obtain p owner where p: "link_items 0 items ([0..<length items], Map.empty) = Some (p, owner)"
      "uf_ok p" "length p = length items"
      "\<forall>i < length items. \<forall>j < length items. rep p i = rep p j \<longleftrightarrow> connected items i j"
    using link_items_components by blast
  obtain ms where ms: "collect_members p [0..<length items] [] = Some ms"
      "\<forall>r is. (r, is) \<in> set ms \<longleftrightarrow> is \<noteq> [] \<and> is = filter (\<lambda>i. rep p i = r) [0..<length items]"
    using members_returned [OF p(2,3)] by blast
  let ?eff = "\<lambda>i. if i \<in> \<Union> (set ` snd ` set ms) then Some (component_key H items (component items p i)) else None"
  have eff: "effective_groups H items ms Map.empty = Inr ?eff"
    by (rule effective_groups_returns) (use ms(2) in \<open>auto simp: component_def\<close>)
  have covered: "i \<in> \<Union> (set ` snd ` set ms)" if "i < length items" for i
  proof -
    have "(rep p i, filter (\<lambda>j. rep p j = rep p i) [0..<length items]) \<in> set ms"
      using ms(2) that by (auto simp: filter_empty_conv)
    then show ?thesis using that by force
  qed
  have "map_result (regroup ?eff) (enumerate 0 items) =
      Inr (map (\<lambda>(i, x). regrouped H items p i) (enumerate 0 items))"
    using covered by (intro map_result_total)
      (auto simp: regroup_def regrouped_def enumerate_eq_zip set_zip)
  moreover have "map (\<lambda>(i, x). regrouped H items p i) (enumerate 0 items) = map (regrouped H items p) [0..<length items]"
    by (rule nth_equalityI) (simp_all add: nth_enumerate_eq)
  ultimately have "normalize_effective_groups H support counter = (if items = [] then Some (Inr (support, counter))
      else Some (Inr (take (length support) (map (regrouped H items p) [0..<length items]),
                      drop (length support) (map (regrouped H items p) [0..<length items]))))"
    using p(1) ms(1) eff by (simp add: normalize_effective_groups_def items_def [symmetric] Let_def)
  moreover have "take (length support) [0..<length items] = [0..<length support]"
    "drop (length support) [0..<length items] = [length support..<length items]"
    by (simp_all add: items_def take_upt drop_upt)
  moreover have "support = [] \<and> counter = []" if "items = []" using that by (simp add: items_def)
  ultimately show ?thesis using p(4) by (auto simp: take_map drop_map)
qed

section \<open>Components, stated without the algorithm\<close>

definition component_of :: "weighted_evidence list \<Rightarrow> nat \<Rightarrow> nat list" where
  "component_of items i = filter (connected items i) [0..<length items]"

lemma connected_sym: "connected items i j \<longleftrightarrow> connected items j i"
  using equivp_symp [OF equivp_connected] by blast

lemma connected_trans: "connected items i j \<Longrightarrow> connected items j k \<Longrightarrow> connected items i k"
  using equivp_transp [OF equivp_connected] by blast

lemma component_of_eq: "connected items i j \<Longrightarrow> component_of items i = component_of items j"
  unfolding component_of_def by (rule filter_cong) (metis connected_sym connected_trans)+

lemma component_component_of:
  assumes "\<forall>i < length items. \<forall>j < length items. rep p i = rep p j \<longleftrightarrow> connected items i j" "i < length items"
  shows "component items p i = component_of items i"
  unfolding component_def component_of_def using assms connected_sym by (intro filter_cong) auto

lemma component_payload_determines:
  assumes "collision_free H (component_payload items is) (component_payload items js)"
    and "component_key H items is = component_key H items js"
  shows "set (map (\<lambda>i. we_declared_group (items ! i)) is) = set (map (\<lambda>i. we_declared_group (items ! i)) js)"
proof -
  let ?fs = "\<lambda>is. [(''domain'', jstr ''tiangong.cognition.effective-independence.v1''),
      (''declared_groups'', jstrs (sorted_set (map (\<lambda>i. we_declared_group (items ! i)) is))),
      (''lineage_roots'', jstrs (sorted_set (concat (map (\<lambda>i. we_lineage_roots (items ! i)) is))))]"
  have "map (\<lambda>x. canonical_value (snd x)) (?fs is) = map (\<lambda>x. canonical_value (snd x)) (?fs js)"
    by (rule same_digest_fields [of H _ "component_key H items is"])
      (use assms component_key [of H items] component_payload_wf in
        \<open>simp_all add: component_payload_def [symmetric] del: py_wf_jobj\<close>)
  then have "sorted_set (map (\<lambda>i. we_declared_group (items ! i)) is) =
      sorted_set (map (\<lambda>i. we_declared_group (items ! i)) js)"
    by (simp add: map_JStr_inj)
  then show ?thesis by (simp only: sorted_set_eq_iff)
qed

lemma normalized_items:
  fixes support counter :: "weighted_evidence list"
  defines "items \<equiv> support @ counter"
  assumes "normalize_effective_groups H support counter = Some (Inr (s', c'))"
  shows "length s' = length support" "length c' = length counter"
    and "\<And>i. i < length items \<Longrightarrow>
      (s' @ c') ! i = (items ! i)\<lparr>we_group := component_key H items (component_of items i)\<rparr>"
proof -
  obtain p where p: "\<forall>i < length items. \<forall>j < length items. rep p i = rep p j \<longleftrightarrow> connected items i j"
    and eq: "s' = map (regrouped H items p) [0..<length support]"
      "c' = map (regrouped H items p) [length support..<length items]"
    using normalize_effective_groups_returns [of support counter H] assms(2) unfolding items_def by auto
  show "length s' = length support" "length c' = length counter"
    by (simp_all add: eq items_def)
  have "s' @ c' = map (regrouped H items p) [0..<length items]"
    unfolding eq items_def
    using upt_add_eq_append [of 0 "length support" "length counter"] by simp
  then show "(s' @ c') ! i = (items ! i)\<lparr>we_group := component_key H items (component_of items i)\<rparr>"
    if "i < length items" for i
    using that component_component_of [OF p that] by (simp add: regrouped_def)
qed

text \<open>C4: The effective independence groups are the connected components of the evidence under
  \<open>same declared group or a shared lineage root\<close>: the union-find always returns, changes nothing
  but the group of an item, and two items get the same group exactly if they are connected (unless
  SHA-256 collides on the payloads of two components).\<close>

theorem effective_groups_are_components:
  assumes "\<forall>i < length (support @ counter). \<forall>j < length (support @ counter).
      collision_free H (component_payload (support @ counter) (component_of (support @ counter) i))
        (component_payload (support @ counter) (component_of (support @ counter) j))"
  shows "\<exists>s' c'. normalize_effective_groups H support counter = Some (Inr (s', c')) \<and>
    length s' = length support \<and> length c' = length counter \<and>
    (\<forall>i < length (support @ counter). \<exists>g. (s' @ c') ! i = ((support @ counter) ! i)\<lparr>we_group := g\<rparr>) \<and>
    (\<forall>i < length (support @ counter). \<forall>j < length (support @ counter).
       we_group ((s' @ c') ! i) = we_group ((s' @ c') ! j) \<longleftrightarrow> connected (support @ counter) i j)"
proof -
  let ?items = "support @ counter"
  obtain s' c' where norm: "normalize_effective_groups H support counter = Some (Inr (s', c'))"
    using normalize_effective_groups_returns [of support counter H] by blast
  note items = normalized_items [OF norm]
  have "we_group ((s' @ c') ! i) = we_group ((s' @ c') ! j) \<longleftrightarrow> connected ?items i j"
    if ij: "i < length ?items" "j < length ?items" for i j
  proof
    assume "we_group ((s' @ c') ! i) = we_group ((s' @ c') ! j)"
    then have "set (map (\<lambda>i. we_declared_group (?items ! i)) (component_of ?items i)) =
        set (map (\<lambda>i. we_declared_group (?items ! i)) (component_of ?items j))"
      using items(3) ij assms by (intro component_payload_determines [of H]) simp_all
    moreover have "i \<in> set (component_of ?items i)" using ij by (simp add: component_of_def)
    ultimately obtain k where k: "k \<in> set (component_of ?items j)"
        "we_declared_group (?items ! i) = we_declared_group (?items ! k)" by (auto simp: image_def)
    then have "shares ?items i k" using ij by (simp add: shares_def component_of_def)
    then have "connected ?items i k" by (simp add: connected_def)
    then show "connected ?items i j"
      using k(1) connected_sym connected_trans by (fastforce simp: component_of_def)
  qed (use items(3) ij component_of_eq in simp)
  with norm items show ?thesis by blast
qed

definition sample_item_weight :: "string \<Rightarrow> string \<Rightarrow> string list \<Rightarrow> weighted_evidence" where
  "sample_item_weight eid grp roots =
     \<lparr>we_evidence_id = eid, we_declared_group = grp, we_lineage_roots = roots, we_group = grp,
      we_weight_milli = 500, we_pre_fresh_weight_milli = 500, we_direct = True\<rparr>"

theorem effective_groups_are_components_witness:
  "\<exists>s' c'. normalize_effective_groups zero_hash
      [sample_item_weight ''a'' ''g1'' [''r''], sample_item_weight ''b'' ''g2'' [''r'', ''q'']] [] = Some (Inr (s', c')) \<and>
    we_group ((s' @ c') ! 0) = we_group ((s' @ c') ! 1)"
proof -
  let ?items = "[sample_item_weight ''a'' ''g1'' [''r''], sample_item_weight ''b'' ''g2'' [''r'', ''q'']]"
  have "shares ?items 0 1" by (simp add: shares_def sample_item_weight_def)
  then have c: "connected ?items 0 1" by (simp add: connected_def)
  have all: "connected ?items i j" if "i < 2" "j < 2" for i j
    using that c connected_sym [of ?items 0 1] by (auto simp: less_2_cases_iff)
  have free: "collision_free zero_hash (component_payload (?items @ []) (component_of (?items @ []) i))
        (component_payload (?items @ []) (component_of (?items @ []) j))"
    if "i < length (?items @ [])" "j < length (?items @ [])" for i j
  proof -
    have "component_of ?items i = component_of ?items j"
      by (rule component_of_eq, rule all) (use that in simp_all)
    then show ?thesis by (simp only: append_Nil2 collision_free_refl)
  qed
  have "\<exists>s' c'. normalize_effective_groups zero_hash ?items [] = Some (Inr (s', c')) \<and>
      length s' = length ?items \<and> length c' = length ([] :: weighted_evidence list) \<and>
      (\<forall>i < length (?items @ []). \<exists>g. (s' @ c') ! i = ((?items @ []) ! i)\<lparr>we_group := g\<rparr>) \<and>
      (\<forall>i < length (?items @ []). \<forall>j < length (?items @ []).
         we_group ((s' @ c') ! i) = we_group ((s' @ c') ! j) \<longleftrightarrow> connected (?items @ []) i j)"
    by (rule effective_groups_are_components) (use free in blast)
  then obtain s' c' where "normalize_effective_groups zero_hash ?items [] = Some (Inr (s', c'))"
    "we_group ((s' @ c') ! 0) = we_group ((s' @ c') ! 1) \<longleftrightarrow> connected ?items 0 1" by auto
  with c show ?thesis by blast
qed

section \<open>What is collected\<close>

lemma collect_sound:
  "collect H scope now pol es seen target dropped = Inr (target', dropped') \<Longrightarrow>
   \<exists>ws. target' = target @ ws \<and>
     (\<forall>w \<in> set ws. we_weight_milli w > 0 \<and> (\<exists>e \<in> set es. \<exists>r. weight_one H scope now pol e = Inr (Some w, r)))"
proof (induction es arbitrary: seen target dropped)
  case (Cons e es)
  show ?case
  proof (cases "cv_evidence_id e \<in> seen")
    case True
    with Cons.IH [of seen target dropped] Cons.prems show ?thesis by auto
  next
    case False
    let ?seen = "insert (cv_evidence_id e) seen"
    from Cons.prems False obtain item reason where w: "weight_one H scope now pol e = Inr (item, reason)"
      by (cases "weight_one H scope now pol e") auto
    show ?thesis
    proof (cases "\<exists>w. item = Some w \<and> we_weight_milli w > 0")
      case True
      then obtain v where v: "item = Some v" "we_weight_milli v > 0" by blast
      with Cons.prems False w have "collect H scope now pol es ?seen (target @ [v]) dropped = Inr (target', dropped')"
        by (simp add: Let_def)
      from Cons.IH [OF this] obtain ws where "target' = target @ v # ws"
        "\<forall>w \<in> set ws. we_weight_milli w > 0 \<and> (\<exists>e \<in> set es. \<exists>r. weight_one H scope now pol e = Inr (Some w, r))"
        by auto
      with v w show ?thesis by (intro exI [of _ "v # ws"]) auto
    next
      case none: False
      then obtain d where "collect H scope now pol es ?seen target d = Inr (target', dropped')"
        using Cons.prems False w
        by (auto simp: Let_def split: option.splits if_splits)
      from Cons.IH [OF this] show ?thesis by auto
    qed
  qed
qed simp

lemma collect_returns:
  assumes "\<And>e. e \<in> set es \<Longrightarrow> ok (weight_one H scope now pol e)"
  shows "ok (collect H scope now pol es seen target dropped)"
  using assms
proof (induction es arbitrary: seen target dropped)
  case (Cons e es)
  then obtain item reason where "weight_one H scope now pol e = Inr (item, reason)"
    by (metis list.set_intros(1) ok_iff surj_pair)
  moreover have "ok (collect H scope now pol es s t d)" for s t d using Cons by simp
  ultimately show ?case by (simp add: Let_def split: option.splits)
qed simp

lemma weight_one_Some:
  assumes "weight_one H scope now pol e = Inr (Some w, r)"
  shows "we_lineage_roots w = cv_lineage_root_hashes e" "we_declared_group w = cv_independence_group_hash e"
    "sc_cognition_id scope \<notin> set (cv_ancestor_cognition_ids e)"
    "has_valid_evidence_sha256 H e = Inr True"
    "we_pre_fresh_weight_milli w = milli_mul [min (min (cv_source_credibility_milli e) (cv_authority_ceiling_milli e))
        (cv_provenance_integrity_milli e), get_factor CLASS_FACTOR_MILLI (cv_evidence_class e),
        get_factor SOURCE_FACTOR_MILLI (sr_source_kind (cv_source_ref e)),
        if cv_observation_mode e \<in> {''negative'', ''aggregate''} then cv_coverage_milli e else 1000]"
    "we_weight_milli w = milli_mul [we_pre_fresh_weight_milli w, freshness_milli e now]"
  using assms by (auto simp: weight_one_def bind_result_eq_Inr Let_def split: if_splits)

section \<open>Bounds and groups of the report\<close>

lemma clamp_milli_bounds [simp]: "0 \<le> clamp_milli v" "clamp_milli v \<le> 1000"
  by (simp_all add: clamp_milli_def)

lemma noisy_or_step_bounds:
  assumes "milli c" "milli v"
  shows "milli (min 1000 (c + v - c * v div 1000))"
  using milli_mult_div [OF assms] assms by auto

lemma noisy_or_bounds: "milli (noisy_or vs)"
proof -
  have "milli (foldl (\<lambda>c v. let v = clamp_milli v in min 1000 (c + v - c * v div 1000)) c vs)" if "milli c" for c
    using that
  proof (induction vs arbitrary: c)
    case (Cons v vs)
    have "milli (min 1000 (c + clamp_milli v - c * clamp_milli v div 1000))"
      using Cons.prems by (intro noisy_or_step_bounds) simp_all
    from Cons.IH [OF this] show ?case by (simp add: Let_def)
  qed simp
  then show ?thesis by (simp add: noisy_or_def)
qed

lemma group_scores_keys: "map fst (fst (group_scores g b ws)) = dict_fromkeys (map we_group ws)"
  by (simp add: group_scores_def Let_def comp_def)

lemma support_groups_build_report:
  defines "r pol d s c \<equiv> build_report pol d s c"
  shows "distinct (support_groups (r pol d s c))"
    and "set (support_groups (r pol d s c)) \<subseteq> we_group ` set s - we_group ` set c"
    and "distinct (counter_groups (r pol d s c))"
    and "set (counter_groups (r pol d s c)) \<subseteq> we_group ` set c - we_group ` set s"
    and "set (direct_support_groups (r pol d s c)) \<subseteq> set (support_groups (r pol d s c))"
proof -
  let ?conf = "set (conflicted_of s c)"
  let ?s = "filter (\<lambda>item. we_group item \<notin> ?conf) s" and ?c = "filter (\<lambda>item. we_group item \<notin> ?conf) c"
  let ?gamma = "same_source_gamma_milli pol"
  have conf: "?conf = we_group ` set s \<inter> we_group ` set c" by (auto simp: conflicted_of_def)
  have sg: "support_groups (r pol d s c) =
      sort (map fst (filter (\<lambda>(g, score). score > 0) (fst (group_scores ?gamma False ?s))))"
    and cg: "counter_groups (r pol d s c) =
      sort (map fst (filter (\<lambda>(g, score). score > 0) (fst (group_scores ?gamma False ?c))))"
    and dg: "direct_support_groups (r pol d s c) = sort (filter
      (\<lambda>g. get_factor (fst (group_scores ?gamma False ?s)) g > 0) (snd (group_scores ?gamma False ?s)))"
    by (simp_all add: r_def build_report_def Let_def split_beta)
  have dist: "distinct (map fst (filter P (fst (group_scores ?gamma False xs))))" for xs and P :: "string \<times> int \<Rightarrow> bool"
    by (rule distinct_map_filter) (simp add: group_scores_keys)
  have sub: "set (map fst (filter P (fst (group_scores ?gamma False xs)))) \<subseteq> we_group ` set xs"
    for xs and P :: "string \<times> int \<Rightarrow> bool"
    using arg_cong [OF group_scores_keys [of ?gamma False xs], of set] by auto
  have images: "we_group ` set ?s = we_group ` set s - we_group ` set c"
    "we_group ` set ?c = we_group ` set c - we_group ` set s"
    unfolding conf by auto
  show "distinct (support_groups (r pol d s c))" "distinct (counter_groups (r pol d s c))"
    using dist by (simp_all add: sg cg)
  show "set (support_groups (r pol d s c)) \<subseteq> we_group ` set s - we_group ` set c"
    unfolding sg set_sort images(1) [symmetric] by (rule sub)
  show "set (counter_groups (r pol d s c)) \<subseteq> we_group ` set c - we_group ` set s"
    unfolding cg set_sort images(2) [symmetric] by (rule sub)
  show "set (direct_support_groups (r pol d s c)) \<subseteq> set (support_groups (r pol d s c))"
  proof
    fix g assume "g \<in> set (direct_support_groups (r pol d s c))"
    then have "get_factor (fst (group_scores ?gamma False ?s)) g > 0" by (simp add: dg)
    then obtain v where "map_of (fst (group_scores ?gamma False ?s)) g = Some v" "v > 0"
      by (auto simp: get_factor_def split: option.splits)
    then show "g \<in> set (support_groups (r pol d s c))"
      by (force simp: sg dest: map_of_SomeD)
  qed
qed

lemma build_report_bounds:
  defines "r pol d s c \<equiv> build_report pol d s c"
  shows "milli (support_milli (r pol d s c))" "milli (counter_milli (r pol d s c))"
    "net_milli (r pol d s c) = max 0 (support_milli (r pol d s c) - counter_milli (r pol d s c))"
    "milli (correlation_discount_milli (r pol d s c))" "milli (staleness_penalty_milli (r pol d s c))"
  using noisy_or_bounds by (simp_all add: r_def build_report_def Let_def split_beta)

lemma evaluate_evidence_Inr:
  assumes "evaluate_evidence H scope support counter now pol = Some (Inr report)"
  obtains s c s' c' d d' policy where
    "collect H scope now policy support {} [] (\<lambda>_. []) = Inr (s, d)"
    "collect H scope now policy counter {} [] d = Inr (c, d')"
    "normalize_effective_groups H s c = Some (Inr (s', c'))"
    "report = build_report policy d' s' c'" "policy = (case pol of None \<Rightarrow> StabilityPolicy | Some p \<Rightarrow> p)"
  using assms
  by (auto simp: evaluate_evidence_def Let_def bind_result_eq_Inr split: sum.splits prod.splits)

text \<open>Two normalised support items with a common lineage root are in one group.\<close>

lemma normalized_same_root:
  assumes "normalize_effective_groups H s c = Some (Inr (s', c'))" "i < length s" "j < length s"
    and "root \<in> set (we_lineage_roots (s ! i))" "root \<in> set (we_lineage_roots (s ! j))"
  shows "we_group (s' ! i) = we_group (s' ! j)"
proof -
  note items = normalized_items [OF assms(1)]
  have "shares (s @ c) i j" using assms(2-5) by (auto simp: shares_def nth_append)
  then have "component_of (s @ c) i = component_of (s @ c) j"
    by (intro component_of_eq) (simp add: connected_def)
  then show ?thesis
    using items(3) [of i] items(3) [of j] items(1) assms(2,3) by (simp add: nth_append)
qed

section \<open>Main results: quorum, authority and totality\<close>

lemma support_group_origin:
  assumes eval: "evaluate_evidence H scope support counter now pol = Some (Inr report)"
  obtains s c s' c' where "normalize_effective_groups H s c = Some (Inr (s', c'))"
    and "\<And>g. g \<in> set (support_groups report) \<Longrightarrow> \<exists>i < length s. we_group (s' ! i) = g"
    and "\<And>i. i < length s \<Longrightarrow> we_weight_milli (s ! i) > 0 \<and>
          (\<exists>e \<in> set support. \<exists>r p. weight_one H scope now p e = Inr (Some (s ! i), r))"
proof -
  obtain s c s' c' d d' p where
    col: "collect H scope now p support {} [] (\<lambda>_. []) = Inr (s, d)"
    and norm: "normalize_effective_groups H s c = Some (Inr (s', c'))"
    and rep: "report = build_report p d' s' c'"
    using eval by (rule evaluate_evidence_Inr)
  have "\<exists>i < length s. we_group (s' ! i) = g" if "g \<in> set (support_groups report)" for g
  proof -
    have "g \<in> we_group ` set s'" using support_groups_build_report(2) that unfolding rep by blast
    then show ?thesis using normalized_items(1) [OF norm] by (auto simp: in_set_conv_nth)
  qed
  moreover have "we_weight_milli (s ! i) > 0 \<and> (\<exists>e \<in> set support. \<exists>r p. weight_one H scope now p e = Inr (Some (s ! i), r))"
    if "i < length s" for i
    using collect_sound [OF col] nth_mem [OF that] by fastforce
  ultimately show thesis by (rule that [OF norm])
qed

lemma length_support_groups:
  "evaluate_evidence H scope support counter now pol = Some (Inr report) \<Longrightarrow>
   length (support_groups report) = card (set (support_groups report))"
  by (erule evaluate_evidence_Inr) (simp add: distinct_card support_groups_build_report)

text \<open>C11: A quorum cannot be forged from one lineage.  If every piece of supporting evidence descends from
  a lineage root in \<open>R\<close>, whatever independence groups it declares, the report counts at most
  \<open>card R\<close> support groups; level C2 needs two roots and level C3 three.\<close>

theorem quorum_bounded_by_lineage:
  assumes eval: "evaluate_evidence H scope support counter now pol = Some (Inr report)"
    and R: "finite R" "\<forall>e \<in> set support. set (cv_lineage_root_hashes e) \<inter> R \<noteq> {}"
  shows "length (support_groups report) \<le> card R \<and>
    (highest_eligible_level report pol' = ''C2'' \<longrightarrow> 2 \<le> card R) \<and>
    (highest_eligible_level report pol' = ''C3'' \<longrightarrow> 3 \<le> card R)"
proof -
  obtain s c s' c' where norm: "normalize_effective_groups H s c = Some (Inr (s', c'))"
    and groups: "\<And>g. g \<in> set (support_groups report) \<Longrightarrow> \<exists>i < length s. we_group (s' ! i) = g"
    and origin: "\<And>i. i < length s \<Longrightarrow> we_weight_milli (s ! i) > 0 \<and>
          (\<exists>e \<in> set support. \<exists>r p. weight_one H scope now p e = Inr (Some (s ! i), r))"
    using support_group_origin [OF eval] by blast
  have root: "\<exists>x. x \<in> set (we_lineage_roots (s ! i)) \<inter> R" if "i < length s" for i
    using origin [OF that] R(2) weight_one_Some(1) by fastforce
  have "\<forall>g \<in> set (support_groups report). \<exists>x i. i < length s \<and> we_group (s' ! i) = g \<and>
      x \<in> set (we_lineage_roots (s ! i)) \<and> x \<in> R"
    using groups root by blast
  then obtain f where f: "\<And>g. g \<in> set (support_groups report) \<Longrightarrow> \<exists>i < length s. we_group (s' ! i) = g \<and>
      f g \<in> set (we_lineage_roots (s ! i)) \<and> f g \<in> R"
    by metis
  have "inj_on f (set (support_groups report))"
    by (rule inj_onI) (metis f normalized_same_root [OF norm])
  moreover have "f ` set (support_groups report) \<subseteq> R" using f by blast
  ultimately have "card (set (support_groups report)) \<le> card R"
    using card_inj_on_le R(1) by blast
  then have "length (support_groups report) \<le> card R"
    using length_support_groups [OF eval] by simp
  then show ?thesis
    by (auto simp: highest_eligible_level_def Let_def split: if_splits)
qed

definition without_authority :: "string \<Rightarrow> cognition_evidence \<Rightarrow> bool" where
  "without_authority cognition_id e \<longleftrightarrow>
     cv_evidence_class e \<in> {''model_inference'', ''reflection'', ''prospective''} \<or>
     sr_source_kind (cv_source_ref e) = ''model_synthesis'' \<or> cognition_id \<in> set (cv_ancestor_cognition_ids e)"

lemma milli_mul_zero: "0 \<in> set vs \<Longrightarrow> milli_mul vs = 0"
proof -
  assume zero: "0 \<in> set vs"
  have zero_clamp: "clamp_milli 0 = 0" by (simp add: clamp_milli_def)
  have stay: "foldl (\<lambda>result value. result * clamp_milli value div 1000) 0 xs = 0" for xs
    by (induction xs) simp_all
  have "foldl (\<lambda>result value. result * clamp_milli value div 1000) a vs = 0" for a
    using zero by (induction vs arbitrary: a) (auto simp: stay zero_clamp)
  then show "milli_mul vs = 0" by (simp add: milli_mul_def clamp_milli_def)
qed

lemma without_authority_weight:
  assumes "without_authority (sc_cognition_id scope) e" "weight_one H scope now pol e = Inr (Some w, r)"
  shows "we_weight_milli w = 0"
proof -
  have "get_factor CLASS_FACTOR_MILLI (cv_evidence_class e) = 0 \<or>
      get_factor SOURCE_FACTOR_MILLI (sr_source_kind (cv_source_ref e)) = 0"
    using assms(1) weight_one_Some(3) [OF assms(2)]
    by (auto simp: without_authority_def get_factor_def CLASS_FACTOR_MILLI_def SOURCE_FACTOR_MILLI_def)
  then have "we_pre_fresh_weight_milli w = 0"
    unfolding weight_one_Some(5) [OF assms(2)] by (intro milli_mul_zero) auto
  then show ?thesis
    unfolding weight_one_Some(6) [OF assms(2)] by (intro milli_mul_zero) simp
qed

lemma build_report_no_support: "support_milli (build_report pol d [] c) = 0"
proof -
  have "support_milli (build_report pol d s c) = noisy_or (scores_in_order (fst (group_scores (same_source_gamma_milli pol) False
      (filter (\<lambda>item. we_group item \<notin> set (conflicted_of s c)) s))))" for s
    by (simp add: build_report_def Let_def split_beta)
  from this [of "[]"] show ?thesis
    by (simp add: group_scores_def dict_fromkeys_def scores_in_order_def noisy_or_def)
qed

lemma normalize_empty_support:
  "normalize_effective_groups H [] c = Some (Inr (s', c')) \<Longrightarrow> s' = []"
  using normalized_items(1) by fastforce

text \<open>C35: Model output and self-derived evidence carry no authority.  If every supporting item is an
  inference, a reflection, a prospective statement or a model synthesis, or descends from the very
  cognition it supports, the support is zero, there is no support group and the level is C0.\<close>

theorem no_authority_no_support:
  assumes eval: "evaluate_evidence H scope support counter now pol = Some (Inr report)"
    and "\<forall>e \<in> set support. without_authority (sc_cognition_id scope) e"
    and "0 < provisional_threshold_milli (case pol' of None \<Rightarrow> StabilityPolicy | Some p \<Rightarrow> p)"
  shows "support_milli report = 0 \<and> net_milli report = 0 \<and> support_groups report = [] \<and>
    highest_eligible_level report pol' = ''C0''"
proof -
  obtain s c s' c' d d' p where
    col: "collect H scope now p support {} [] (\<lambda>_. []) = Inr (s, d)"
    and norm: "normalize_effective_groups H s c = Some (Inr (s', c'))"
    and rep: "report = build_report p d' s' c'"
    using eval by (rule evaluate_evidence_Inr)
  have "s = []"
  proof (rule ccontr)
    assume "s \<noteq> []"
    then obtain w where "w \<in> set s" by (meson list.set_sel(1))
    then obtain e r where "e \<in> set support" "we_weight_milli w > 0" "weight_one H scope now p e = Inr (Some w, r)"
      using collect_sound [OF col] by auto
    with assms(2) without_authority_weight show False by fastforce
  qed
  then have "s' = []" using norm normalize_empty_support by blast
  then have "support_milli report = 0" "support_groups report = []"
    using support_groups_build_report(2) [of p d' "[]" c'] build_report_no_support [of p d' c']
    by (simp_all add: rep)
  moreover from this have "net_milli report = 0"
    using build_report_bounds(2,3) by (simp add: rep)
  ultimately show ?thesis
    using assms(3) by (auto simp: highest_eligible_level_def Let_def)
qed

lemma accepted_evidence_weighs:
  assumes "CognitionEvidence H nfc e = Inr e"
  shows "ok (weight_one H scope now pol e)"
proof -
  have "derive_cognition_evidence_id H e = Inr (cv_evidence_id e)"
    using assms by (simp add: CognitionEvidence_eq_Inr)
  then obtain h where "canonical_sha256 H (jobj (evidence_id_fields e)) = Inr h"
    by (auto simp: derive_cognition_evidence_id_def bind_result_eq_Inr)
  then have "representable (jobj (evidence_id_fields e))"
    using ok_canonical_sha256 by (metis ok_simps(1))
  then have "representable (jobj (evidence_dump_fields e))"
    by (simp add: evidence_id_fields_def evidence_dump_fields_def)
  then have "ok (has_valid_evidence_sha256 H e)"
    by (simp add: has_valid_evidence_sha256_def computed_evidence_sha256_def ok_canonical_sha256)
  then show ?thesis by (simp add: weight_one_def)
qed

text \<open>On evidence the contract accepts, \<open>evaluate_evidence\<close> always returns a report and never raises;
  all scores are integers between 0 and 1000, the net support is the margin of support over
  counter-evidence, no group counts on both sides, and direct groups are support groups.\<close>

lemma evaluate_evidence_total:
  assumes "\<forall>e \<in> set support \<union> set counter. CognitionEvidence H nfc e = Inr e"
  shows "\<exists>report. evaluate_evidence H scope support counter now pol = Some (Inr report) \<and>
    milli (support_milli report) \<and> milli (counter_milli report) \<and>
    net_milli report = max 0 (support_milli report - counter_milli report) \<and>
    milli (correlation_discount_milli report) \<and> milli (staleness_penalty_milli report) \<and>
    distinct (support_groups report) \<and> set (support_groups report) \<inter> set (counter_groups report) = {} \<and>
    set (direct_support_groups report) \<subseteq> set (support_groups report)"
proof -
  let ?pol = "case pol of None \<Rightarrow> StabilityPolicy | Some p \<Rightarrow> p"
  have w: "ok (weight_one H scope now p e)" if "e \<in> set support \<union> set counter" for e p
    using assms that accepted_evidence_weighs by blast
  obtain s d where s: "collect H scope now ?pol support {} [] (\<lambda>_. []) = Inr (s, d)"
    using collect_returns w by (metis UnI1 ok_iff surj_pair)
  obtain c d' where c: "collect H scope now ?pol counter {} [] d = Inr (c, d')"
    using collect_returns w by (metis UnI2 ok_iff surj_pair)
  obtain s' c' where "normalize_effective_groups H s c = Some (Inr (s', c'))"
    using normalize_effective_groups_returns by blast
  with s c have eval: "evaluate_evidence H scope support counter now pol = Some (Inr (build_report ?pol d' s' c'))"
    by (simp add: evaluate_evidence_def Let_def)
  have "set (support_groups (build_report ?pol d' s' c')) \<inter> set (counter_groups (build_report ?pol d' s' c')) = {}"
    using support_groups_build_report(2,4) by blast
  then show ?thesis
    using eval build_report_bounds [of ?pol d' s' c'] support_groups_build_report(1,5) [of ?pol d' s' c'] by blast
qed

definition sample_observation :: cognition_evidence where
  "sample_observation = sample_evidence ''observed'' ''code_perception'' (hex64 (CHR ''4'')) [hex64 (CHR ''5'')]"

definition sample_scope :: cognition_scope where
  "sample_scope = \<lparr>sc_cognition_id = ''cog_1'', sc_life_id = ''life1'', sc_domain = ''software'',
     sc_world_scope_hash = hex64 (CHR ''2''), sc_principal_scope_hash = hex64 (CHR ''3'')\<rparr>"

lemma sample_observation_accepted: "CognitionEvidence zero_hash (\<lambda>s. s) sample_observation = Inr sample_observation"
  unfolding sample_observation_def by (rule sample_evidence_accepted)

lemma sample_evaluates:
  "\<exists>report. evaluate_evidence zero_hash scope [sample_evidence cls kind grp roots] [] now pol = Some (Inr report)"
proof -
  let ?e = "sample_evidence cls kind grp roots" and ?pol = "case pol of None \<Rightarrow> StabilityPolicy | Some p \<Rightarrow> p"
  have "ok (weight_one zero_hash scope now ?pol ?e)"
    using sample_evidence_representable(2)
    by (simp add: weight_one_def has_valid_evidence_sha256_def computed_evidence_sha256_def ok_canonical_sha256
        del: representable_jobj)
  then obtain s d where "collect zero_hash scope now ?pol [?e] {} [] (\<lambda>_. []) = Inr (s, d)"
    using collect_returns [of "[?e]"] by (metis empty_iff empty_set ok_iff set_ConsD surj_pair)
  moreover obtain s' c' where "normalize_effective_groups zero_hash s [] = Some (Inr (s', c'))"
    using normalize_effective_groups_returns by blast
  ultimately show ?thesis by (simp add: evaluate_evidence_def Let_def)
qed

theorem quorum_bounded_by_lineage_witness:
  "\<exists>report. evaluate_evidence zero_hash sample_scope [sample_evidence ''observed'' ''memory'' ''g'' [''r'']] [] 200 None =
     Some (Inr report) \<and> length (support_groups report) \<le> 1"
proof -
  obtain report where eval: "evaluate_evidence zero_hash sample_scope
      [sample_evidence ''observed'' ''memory'' ''g'' [''r'']] [] 200 None = Some (Inr report)"
    using sample_evaluates by blast
  with quorum_bounded_by_lineage [OF eval, of "{''r''}"] show ?thesis
    by (auto simp: sample_evidence_def)
qed

theorem no_authority_no_support_witness:
  "\<exists>report. evaluate_evidence zero_hash sample_scope [sample_evidence ''reflection'' ''memory'' ''g'' [''r'']] [] 200 None =
     Some (Inr report) \<and> highest_eligible_level report None = ''C0''"
proof -
  obtain report where eval: "evaluate_evidence zero_hash sample_scope
      [sample_evidence ''reflection'' ''memory'' ''g'' [''r'']] [] 200 None = Some (Inr report)"
    using sample_evaluates by blast
  with no_authority_no_support [OF eval, of None] show ?thesis
    by (auto simp: StabilityPolicy_def without_authority_def sample_evidence_def)
qed

end
