(* ===== verification/Dynamics.thy ===== *)
theory Dynamics
  imports Rhythm Stability
begin

text \<open>
  The feedback controllers of the world-understanding kernel, \<open>src/world_understanding/dynamics\<close>:
  cost-aware revalidation planning over the rhythm plane, queue control, aggregation of transform
  and projection telemetry, backoff of fruitless inquiries, damping of cognition levels and the
  semantic throttle.  Each controller is a pure function of its telemetry, apart from the two that
  call the rhythm plane (\<open>plan\<close>, \<open>apply_queue_control\<close>), which thread its state.
\<close>

section \<open>Revalidation\<close>

record revalidation_signals =
  rs_stale_hazard_milli :: int
  rs_impact_milli :: int
  rs_need_milli :: int
  rs_uncertainty_milli :: int
  rs_dirty_milli :: int
  rs_validation_cost_milli :: "int option"

definition RevalidationSignals :: "revalidation_signals \<Rightarrow> revalidation_signals result" where
  "RevalidationSignals s =
     (if \<not> list_all (\<lambda>v. 0 \<le> v \<and> v \<le> 1000) [rs_stale_hazard_milli s, rs_impact_milli s, rs_need_milli s,
            rs_uncertainty_milli s, rs_dirty_milli s]
      then Inl (ValueError ''REVALIDATION_SIGNAL_INVALID'')
      else if \<not> opt_ok (\<lambda>c. 0 \<le> c) (rs_validation_cost_milli s)
      then Inl (ValueError ''REVALIDATION_COST_INVALID'')
      else Inr s)"

record revalidation_policy =
  rv_priority_floor_milli :: int
  rv_epsilon_cost_milli :: int
  rv_min_delay_ms :: int
  rv_max_delay_ms :: int

definition RevalidationPolicy :: "revalidation_policy \<Rightarrow> revalidation_policy result" where
  "RevalidationPolicy p =
     (if \<not> (0 \<le> rv_priority_floor_milli p \<and> rv_priority_floor_milli p \<le> 1000) \<or> rv_epsilon_cost_milli p \<le> 0 \<or>
         rv_min_delay_ms p < 0 \<or> rv_max_delay_ms p < rv_min_delay_ms p
      then Inl (ValueError ''REVALIDATION_POLICY_INVALID'')
      else Inr p)"

record revalidation_plan =
  pl_disposition :: string
  pl_reason_code :: string
  pl_priority_milli :: int
  pl_recommended_delay_ms :: int
  pl_rhythm_decision :: "admission_decision option"

definition revalidation_priority_milli :: "revalidation_signals \<Rightarrow> int \<Rightarrow> int result" where
  "revalidation_priority_milli s epsilon_cost_milli =
     (case rs_validation_cost_milli s of
        None \<Rightarrow> Inl (ValueError ''REVALIDATION_COST_TELEMETRY_UNAVAILABLE'')
      | Some cost \<Rightarrow>
          let product = foldl (\<lambda>product value. product * value div 1000) 1000
                [rs_stale_hazard_milli s, rs_impact_milli s, rs_need_milli s, rs_uncertainty_milli s, rs_dirty_milli s]
          in if cost + epsilon_cost_milli = 0 then Inl ZeroDivisionError
             else Inr (min 1000 (product * 1000 div (cost + epsilon_cost_milli))))"

text \<open>The planner's rhythm plane is optional; the plane after the call is returned with the plan.\<close>

definition plan ::
    "(nat list \<Rightarrow> string) \<Rightarrow> revalidation_policy \<Rightarrow> rhythm_plane option \<Rightarrow> revalidation_signals \<Rightarrow>
     rhythm_event option \<Rightarrow> work_cost \<Rightarrow> revalidation_plan result \<times> rhythm_plane option" where
  "plan H policy rhythm signals event cost =
     (let mk = (\<lambda>disp reason prio delay dec. \<lparr>pl_disposition = disp, pl_reason_code = reason,
            pl_priority_milli = prio, pl_recommended_delay_ms = delay, pl_rhythm_decision = dec\<rparr>) in
      if rs_stale_hazard_milli signals = 0 \<and> rs_dirty_milli signals = 0
      then (Inr (mk ''SKIP'' ''REVALIDATION_STABLE_WORLD'' 0 (rv_max_delay_ms policy) None), rhythm)
      else if rs_validation_cost_milli signals = None
      then (Inr (mk ''DEFERRED'' ''REVALIDATION_COST_TELEMETRY_UNAVAILABLE'' 0 (rv_max_delay_ms policy) None), rhythm)
      else case revalidation_priority_milli signals (rv_epsilon_cost_milli policy) of
        Inl e \<Rightarrow> (Inl e, rhythm)
      | Inr priority \<Rightarrow>
          let span = rv_max_delay_ms policy - rv_min_delay_ms policy;
              delay = rv_max_delay_ms policy - span * priority div 1000
          in if priority < rv_priority_floor_milli policy
             then (Inr (mk ''DEFERRED'' ''REVALIDATION_PRIORITY_FLOOR'' priority delay None), rhythm)
             else case rhythm of
               None \<Rightarrow> (Inr (mk ''ADMITTED'' ''OK'' priority delay None), rhythm)
             | Some plane \<Rightarrow>
                 (case event of
                    None \<Rightarrow> (Inr (mk ''REJECTED'' ''REVALIDATION_QUEUE_REQUIRED'' priority delay None), rhythm)
                  | Some ev \<Rightarrow>
                      if hb_queue_class (ev_boundary ev) \<noteq> ''REVALIDATION''
                      then (Inr (mk ''REJECTED'' ''REVALIDATION_QUEUE_REQUIRED'' priority delay None), rhythm)
                      else
                        let ev' = ev\<lparr>ev_priority := max (ev_priority ev) priority\<rparr>;
                            item = \<lparr>wi_event = ev', wi_cost = cost, wi_semantic = False, wi_revalidation = True\<rparr>
                        in case submit H plane item of
                             (Inl e, plane') \<Rightarrow> (Inl e, Some plane')
                           | (Inr d, plane') \<Rightarrow>
                               (Inr (mk (ad_disposition d) (ad_reason_code d) priority delay (Some d)), Some plane')))"

section \<open>Queue control\<close>

record queue_control_policy =
  qc_rho_target_milli :: int
  qc_max_debounce_ms :: int
  qc_min_service_rate :: int

definition QueueControlPolicy :: "queue_control_policy \<Rightarrow> queue_control_policy result" where
  "QueueControlPolicy p =
     (if \<not> (1 \<le> qc_rho_target_milli p \<and> qc_rho_target_milli p < 1000) \<or> qc_max_debounce_ms p < 0 \<or>
         qc_min_service_rate p \<le> 0
      then Inl (ValueError ''QUEUE_CONTROL_POLICY_INVALID'')
      else Inr p)"

definition default_queue_control :: queue_control_policy where
  "default_queue_control = \<lparr>qc_rho_target_milli = 800, qc_max_debounce_ms = 30000, qc_min_service_rate = 1\<rparr>"

record queue_control_plan =
  qp_queue_class :: string
  qp_telemetry_available :: bool
  qp_rho_milli :: "int option"
  qp_overload :: bool
  qp_preserve_interactive :: bool
  qp_recommended_debounce_ms :: int
  qp_reason_code :: string

definition derive_queue_control ::
    "queue_telemetry \<Rightarrow> int \<Rightarrow> queue_control_policy \<Rightarrow> queue_control_plan result" where
  "derive_queue_control t semantic_ratio policy =
     (let q = qt_queue_class t; service = qt_service_rate_milli_per_sec t;
          arrival = qt_arrival_rate_milli_per_sec t in
      if \<not> (0 \<le> semantic_ratio \<and> semantic_ratio \<le> 1000) then Inl (ValueError ''QUEUE_SEMANTIC_RATIO_INVALID'')
      else if arrival < 0 \<or> service < 0 \<or> qt_queue_depth t < 0 then Inl (ValueError ''QUEUE_TELEMETRY_INVALID'')
      else if service < qc_min_service_rate policy then
        (if arrival \<le> 0
         then Inr \<lparr>qp_queue_class = q, qp_telemetry_available = False, qp_rho_milli = None, qp_overload = False,
           qp_preserve_interactive = (q \<noteq> ''INTERACTIVE''), qp_recommended_debounce_ms = 0,
           qp_reason_code = ''QUEUE_TELEMETRY_INSUFFICIENT''\<rparr>
         else Inr \<lparr>qp_queue_class = q, qp_telemetry_available = False, qp_rho_milli = None, qp_overload = True,
           qp_preserve_interactive = (q \<noteq> ''INTERACTIVE''), qp_recommended_debounce_ms = qc_max_debounce_ms policy,
           qp_reason_code = ''QUEUE_SERVICE_UNAVAILABLE''\<rparr>)
      else
        bind_result (case qt_rho_milli t of
            None \<Rightarrow> if service = 0 then Inl ZeroDivisionError else Inr (arrival * 1000 div service)
          | Some r \<Rightarrow> Inr r) (\<lambda>rho.
        bind_result (adaptive_debounce_ms arrival service semantic_ratio (qc_rho_target_milli policy)) (\<lambda>raw.
          let debounce = min (qc_max_debounce_ms policy) (max 0 raw);
              overload = (rho \<ge> qc_rho_target_milli policy)
          in Inr \<lparr>qp_queue_class = q, qp_telemetry_available = True, qp_rho_milli = Some rho, qp_overload = overload,
               qp_preserve_interactive = (q \<noteq> ''INTERACTIVE''), qp_recommended_debounce_ms = debounce,
               qp_reason_code = (if overload then ''QUEUE_OVERLOAD'' else ''QUEUE_WITHIN_CAPACITY'')\<rparr>)))"

definition apply_queue_control :: "rhythm_plane \<Rightarrow> queue_control_plan \<Rightarrow> (int \<times> rhythm_plane) result" where
  "apply_queue_control rhythm qplan =
     (if qp_queue_class qplan = ''INTERACTIVE'' then Inr (co_debounce_ms (rp_coalescer rhythm), rhythm)
      else bind_result (plane_set_debounce_ms rhythm (qp_recommended_debounce_ms qplan) (Some (qp_queue_class qplan)))
        (\<lambda>rhythm'. Inr (debounce_for (rp_coalescer rhythm') (qp_queue_class qplan), rhythm')))"

section \<open>Transform telemetry\<close>

record transform_cost_observation =
  tc_transform_id :: string
  tc_transform_version :: string
  tc_input_count :: int
  tc_output_count :: int
  tc_token_cost :: int
  tc_cpu_time_ms :: int
  tc_wall_time_ms :: int
  tc_io_bytes :: int
  tc_llm_latency_ms :: int
  tc_success :: bool
  tc_failure_type :: "string option"
  tc_created_at_ms :: int
  tc_telemetry_only :: bool
  tc_empirical_evidence_weight_milli :: int

definition count_ok :: "int \<Rightarrow> bool" where
  "count_ok i \<longleftrightarrow> 0 \<le> i \<and> i \<le> MAX_SAFE_INTEGER"

definition TransformCostObservation :: "transform_cost_observation \<Rightarrow> transform_cost_observation result" where
  "TransformCostObservation t =
     (if OpaqueId (tc_transform_id t) \<and> OpaqueId (tc_transform_version t) \<and>
         list_all count_ok [tc_input_count t, tc_output_count t, tc_token_cost t, tc_cpu_time_ms t, tc_wall_time_ms t,
           tc_io_bytes t, tc_llm_latency_ms t, tc_created_at_ms t] \<and> opt_ok OpaqueId (tc_failure_type t) \<and>
         tc_telemetry_only t \<and> tc_empirical_evidence_weight_milli t = 0
      then Inr t else Inl (ValueError ''field constraint''))"

record transform_quality_profile =
  tq_transform_id :: string
  tq_transform_version :: string
  tq_domain :: string
  tq_precision_estimate_milli :: "int option"
  tq_recall_estimate_milli :: "int option"
  tq_coverage_estimate_milli :: int
  tq_false_merge_rate_milli :: "int option"
  tq_false_relation_rate_milli :: "int option"
  tq_downstream_challenge_rate_milli :: int
  tq_mean_cost_milli :: int
  tq_p95_latency_ms :: int
  tq_sample_count :: int
  tq_last_calibrated_at_ms :: int
  tq_telemetry_only :: bool
  tq_empirical_evidence_weight_milli :: int

definition TransformQualityProfile :: "transform_quality_profile \<Rightarrow> transform_quality_profile result" where
  "TransformQualityProfile t =
     (if OpaqueId (tq_transform_id t) \<and> OpaqueId (tq_transform_version t) \<and> OpaqueId (tq_domain t) \<and>
         list_all (opt_ok (\<lambda>v. 0 \<le> v \<and> v \<le> 1000)) [tq_precision_estimate_milli t, tq_recall_estimate_milli t,
           tq_false_merge_rate_milli t, tq_false_relation_rate_milli t] \<and>
         milli (tq_coverage_estimate_milli t) \<and> milli (tq_downstream_challenge_rate_milli t) \<and>
         list_all count_ok [tq_mean_cost_milli t, tq_p95_latency_ms t, tq_sample_count t, tq_last_calibrated_at_ms t] \<and>
         tq_telemetry_only t \<and> tq_empirical_evidence_weight_milli t = 0
      then Inr t else Inl (ValueError ''field constraint''))"

record transform_feedback_profile =
  tf_transform_id :: string
  tf_transform_version :: string
  tf_sample_count :: int
  tf_success_count :: int
  tf_success_rate_milli :: int
  tf_mean_wall_time_ms :: int
  tf_p95_wall_time_ms :: int
  tf_mean_token_cost :: int
  tf_mean_io_bytes :: int
  tf_validation_cost_milli :: "int option"
  tf_downstream_challenge_rate_milli :: "int option"
  tf_quality_sample_count :: int
  tf_telemetry_only :: bool
  tf_empirical_evidence_weight_milli :: int

definition nearest_rank_p95 :: "int list \<Rightarrow> int" where
  "nearest_rank_p95 values =
     (if values = [] then 0
      else let ordered = sort values; rank = max 1 ((95 * length ordered + 99) div 100)
           in ordered ! (min (length ordered) rank - 1))"

fun check_observations ::
    "string \<Rightarrow> string \<Rightarrow> transform_cost_observation list \<Rightarrow> unit result" where
  "check_observations tid ver [] = Inr ()"
| "check_observations tid ver (item # rest) =
     (if tc_transform_id item \<noteq> tid \<or> tc_transform_version item \<noteq> ver
      then Inl (ValueError ''TRANSFORM_TELEMETRY_IDENTITY_MISMATCH'')
      else if \<not> tc_telemetry_only item \<or> tc_empirical_evidence_weight_milli item \<noteq> 0
      then Inl (ValueError ''TRANSFORM_COST_TELEMETRY_AUTHORITY_INVALID'')
      else check_observations tid ver rest)"

definition check_quality :: "string \<Rightarrow> string \<Rightarrow> transform_quality_profile option \<Rightarrow> unit result" where
  "check_quality tid ver quality =
     (case quality of None \<Rightarrow> Inr ()
      | Some q \<Rightarrow>
          if tq_transform_id q \<noteq> tid \<or> tq_transform_version q \<noteq> ver
          then Inl (ValueError ''TRANSFORM_QUALITY_IDENTITY_MISMATCH'')
          else if \<not> tq_telemetry_only q \<or> tq_empirical_evidence_weight_milli q \<noteq> 0
          then Inl (ValueError ''TRANSFORM_QUALITY_AUTHORITY_INVALID'')
          else Inr ())"

definition build_transform_feedback ::
    "transform_cost_observation list \<Rightarrow> transform_quality_profile option \<Rightarrow> transform_feedback_profile result" where
  "build_transform_feedback observations quality =
     (case observations of
        [] \<Rightarrow> Inl (ValueError ''TRANSFORM_COST_TELEMETRY_REQUIRED'')
      | first # _ \<Rightarrow>
          let tid = tc_transform_id first; ver = tc_transform_version first in
          bind_result (check_observations tid ver observations) (\<lambda>_.
          bind_result (check_quality tid ver quality) (\<lambda>_.
            let count = int (length observations); success = int (length (filter tc_success observations));
                sampled = (case quality of None \<Rightarrow> None | Some q \<Rightarrow> if tq_sample_count q \<le> 0 then None else Some q)
            in Inr \<lparr>tf_transform_id = tid, tf_transform_version = ver, tf_sample_count = count,
                 tf_success_count = success, tf_success_rate_milli = success * 1000 div count,
                 tf_mean_wall_time_ms = sum_list (map tc_wall_time_ms observations) div count,
                 tf_p95_wall_time_ms = nearest_rank_p95 (map tc_wall_time_ms observations),
                 tf_mean_token_cost = sum_list (map tc_token_cost observations) div count,
                 tf_mean_io_bytes = sum_list (map tc_io_bytes observations) div count,
                 tf_validation_cost_milli = map_option tq_mean_cost_milli sampled,
                 tf_downstream_challenge_rate_milli = map_option tq_downstream_challenge_rate_milli sampled,
                 tf_quality_sample_count = (case quality of None \<Rightarrow> 0 | Some q \<Rightarrow> tq_sample_count q),
                 tf_telemetry_only = True, tf_empirical_evidence_weight_milli = 0\<rparr>)))"

section \<open>Projection telemetry\<close>

record projection_feedback_observation =
  po_life_id :: string
  po_world_scope_hash :: string
  po_query_id :: string
  po_token_budget :: int
  po_estimated_tokens :: int
  po_overflow_state :: string
  po_optional_item_count :: int
  po_expansion_handle_count :: int
  po_expansion_use_count :: int
  po_created_at_ms :: int
  po_telemetry_only :: bool
  po_empirical_evidence_weight_milli :: int

definition ProjectionFeedbackObservation ::
    "projection_feedback_observation \<Rightarrow> projection_feedback_observation result" where
  "ProjectionFeedbackObservation o1 =
     (if po_life_id o1 = [] \<or> length (po_world_scope_hash o1) \<noteq> 64 \<or> po_query_id o1 = [] \<or>
         list_ex (\<lambda>v. v < 0) [po_token_budget o1, po_estimated_tokens o1, po_optional_item_count o1,
           po_expansion_handle_count o1, po_expansion_use_count o1, po_created_at_ms o1]
      then Inl (ValueError ''PROJECTION_FEEDBACK_INVALID'')
      else if po_expansion_use_count o1 > po_expansion_handle_count o1
      then Inl (ValueError ''PROJECTION_EXPANSION_USE_INVALID'')
      else Inr o1)"

record projection_feedback_profile =
  pf_life_id :: string
  pf_world_scope_hash :: string
  pf_sample_count :: int
  pf_mean_token_utilization_milli :: int
  pf_truncation_rate_milli :: int
  pf_expansion_use_rate_milli :: int
  pf_mean_optional_items :: int
  pf_recommended_optional_scale_milli :: int
  pf_telemetry_only :: bool
  pf_empirical_evidence_weight_milli :: int

definition token_utilization :: "projection_feedback_observation \<Rightarrow> int" where
  "token_utilization item =
     (if po_token_budget item = 0 then 0 else min 1000 (po_estimated_tokens item * 1000 div po_token_budget item))"

definition build_projection_feedback ::
    "projection_feedback_observation list \<Rightarrow> projection_feedback_profile result" where
  "build_projection_feedback observations =
     (case observations of
        [] \<Rightarrow> Inl (ValueError ''PROJECTION_FEEDBACK_REQUIRED'')
      | first # _ \<Rightarrow>
          let n = int (length observations) in
          if list_ex (\<lambda>item. po_life_id item \<noteq> po_life_id first \<or> po_world_scope_hash item \<noteq> po_world_scope_hash first)
            observations
          then Inl (ValueError ''PROJECTION_FEEDBACK_SCOPE_MISMATCH'')
          else if list_ex (\<lambda>item. \<not> po_telemetry_only item \<or> po_empirical_evidence_weight_milli item \<noteq> 0) observations
          then Inl (ValueError ''PROJECTION_FEEDBACK_AUTHORITY_INVALID'')
          else
            let trunc = int (length (filter (\<lambda>item. po_overflow_state item \<in> {''BUDGET_TRUNCATED'', ''MANDATORY_OVERFLOW''})
                  observations));
                handles = sum_list (map po_expansion_handle_count observations);
                used = sum_list (map po_expansion_use_count observations);
                optional = sum_list (map po_optional_item_count observations);
                trunc_rate = trunc * 1000 div n;
                expansion_rate = (if handles = 0 then 0 else used * 1000 div handles);
                scale = (if trunc_rate \<ge> 500 \<and> expansion_rate \<le> 250 then 500
                  else if trunc_rate \<ge> 250 \<and> expansion_rate \<le> 400 then 750 else 1000)
            in Inr \<lparr>pf_life_id = po_life_id first, pf_world_scope_hash = po_world_scope_hash first,
                 pf_sample_count = n,
                 pf_mean_token_utilization_milli = sum_list (map token_utilization observations) div n,
                 pf_truncation_rate_milli = trunc_rate, pf_expansion_use_rate_milli = expansion_rate,
                 pf_mean_optional_items = optional div n, pf_recommended_optional_scale_milli = scale,
                 pf_telemetry_only = True, pf_empirical_evidence_weight_milli = 0\<rparr>)"

section \<open>Inquiry backoff\<close>

record inquiry_backoff_policy =
  ib_zero_gain_threshold_milli :: int
  ib_reset_gain_milli :: int
  ib_base_backoff_ms :: int
  ib_max_backoff_ms :: int

definition InquiryBackoffPolicy :: "inquiry_backoff_policy \<Rightarrow> inquiry_backoff_policy result" where
  "InquiryBackoffPolicy p =
     (if \<not> (0 \<le> ib_zero_gain_threshold_milli p \<and> ib_zero_gain_threshold_milli p < ib_reset_gain_milli p \<and>
            ib_reset_gain_milli p \<le> 1000)
      then Inl (ValueError ''INQUIRY_BACKOFF_GAIN_POLICY_INVALID'')
      else if ib_base_backoff_ms p \<le> 0 \<or> ib_max_backoff_ms p < ib_base_backoff_ms p
      then Inl (ValueError ''INQUIRY_BACKOFF_TIME_POLICY_INVALID'')
      else Inr p)"

definition default_backoff_policy :: inquiry_backoff_policy where
  "default_backoff_policy = \<lparr>ib_zero_gain_threshold_milli = 25, ib_reset_gain_milli = 100,
     ib_base_backoff_ms = 60000, ib_max_backoff_ms = 3600000\<rparr>"

record inquiry_gain_observation =
  ig_life_id :: string
  ig_world_scope_hash :: string
  ig_family_key :: string
  ig_outcome_sha256 :: string
  ig_closed_at_ms :: int
  ig_information_gain_milli :: int
  ig_resolved :: bool

record inquiry_backoff_state =
  bs_life_id :: string
  bs_world_scope_hash :: string
  bs_family_key :: string
  bs_consecutive_zero_gain :: int
  bs_backoff_until_ms :: int
  bs_backoff_remaining_ms :: int
  bs_reason_code :: string

text \<open>The loop over the reversed history: counts from the latest observation back.\<close>

fun count_zero_gain :: "inquiry_backoff_policy \<Rightarrow> inquiry_gain_observation list \<Rightarrow> nat" where
  "count_zero_gain policy [] = 0"
| "count_zero_gain policy (item # rest) =
     (if ig_information_gain_milli item \<ge> ib_reset_gain_milli policy then 0
      else if ig_information_gain_milli item \<le> ib_zero_gain_threshold_milli policy \<and> \<not> ig_resolved item
      then Suc (count_zero_gain policy rest)
      else 0)"

definition relevant_observations :: "string \<Rightarrow> inquiry_gain_observation list \<Rightarrow> inquiry_gain_observation list" where
  "relevant_observations family_key observations =
     sort_key (\<lambda>x. (ig_closed_at_ms x, ig_outcome_sha256 x)) (filter (\<lambda>item. ig_family_key item = family_key) observations)"

definition backoff_delay :: "inquiry_backoff_policy \<Rightarrow> nat \<Rightarrow> int" where
  "backoff_delay policy n =
     (let exponent = min 30 (n - 1) in min (ib_max_backoff_ms policy) (ib_base_backoff_ms policy * 2 ^ exponent))"

definition derive_inquiry_backoff ::
    "inquiry_gain_observation list \<Rightarrow> string \<Rightarrow> string \<Rightarrow> string \<Rightarrow> int \<Rightarrow> inquiry_backoff_policy \<Rightarrow>
     inquiry_backoff_state result" where
  "derive_inquiry_backoff observations family_key life_id world_scope_hash now_ms policy =
     (let mk = (\<lambda>count until rem reason. \<lparr>bs_life_id = life_id, bs_world_scope_hash = world_scope_hash,
            bs_family_key = family_key, bs_consecutive_zero_gain = count, bs_backoff_until_ms = until,
            bs_backoff_remaining_ms = rem, bs_reason_code = reason\<rparr>);
          relevant = relevant_observations family_key observations in
      if now_ms < 0 \<or> family_key = [] \<or> life_id = [] \<or> length world_scope_hash \<noteq> 64
      then Inl (ValueError ''INQUIRY_BACKOFF_INPUT_INVALID'')
      else if list_ex (\<lambda>item. ig_life_id item \<noteq> life_id \<or> ig_world_scope_hash item \<noteq> world_scope_hash)
        (filter (\<lambda>item. ig_family_key item = family_key) observations)
      then Inl (ValueError ''INQUIRY_BACKOFF_SCOPE_MISMATCH'')
      else if relevant = [] then Inr (mk 0 0 0 ''INQUIRY_BACKOFF_CLEAR'')
      else
        let count = count_zero_gain policy (rev relevant) in
        if count = 0 then Inr (mk 0 0 0 ''INQUIRY_BACKOFF_CLEAR'')
        else
          let delay = backoff_delay policy count; until = ig_closed_at_ms (last relevant) + delay;
              remaining = max 0 (until - now_ms)
          in Inr (mk (int count) until remaining
               (if remaining \<noteq> 0 then ''INQUIRY_ZERO_GAIN_BACKOFF'' else ''INQUIRY_BACKOFF_ELAPSED'')))"

section \<open>Damping of cognition levels\<close>

definition LEVEL_ORDER :: "(string \<times> int) list" where
  "LEVEL_ORDER = [(''C0'', 0), (''C1'', 1), (''C2'', 2), (''C3'', 3), (''C4'', 4)]"

record cognition_damping_policy =
  cd_promotion_confirmations :: int
  cd_demotion_confirmations :: int
  cd_min_dwell_ms :: int

definition CognitionDampingPolicy :: "cognition_damping_policy \<Rightarrow> cognition_damping_policy result" where
  "CognitionDampingPolicy p =
     (if cd_promotion_confirmations p < 1 \<or> cd_demotion_confirmations p < 1 \<or> cd_min_dwell_ms p < 0
      then Inl (ValueError ''COGNITION_DAMPING_POLICY_INVALID'') else Inr p)"

record timed_stability_report =
  ts_life_id :: string
  ts_world_scope_hash :: string
  ts_report :: stability_report
  ts_observed_at_ms :: int

definition TimedStabilityReport :: "timed_stability_report \<Rightarrow> timed_stability_report result" where
  "TimedStabilityReport r =
     (if ts_life_id r = [] \<or> length (ts_world_scope_hash r) \<noteq> 64
      then Inl (ValueError ''COGNITION_DAMPING_SCOPE_INVALID'')
      else if ts_observed_at_ms r < 0 then Inl (ValueError ''COGNITION_DAMPING_TIME_INVALID'')
      else Inr r)"

record cognition_damping_decision =
  dd_current_level :: string
  dd_candidate_level :: string
  dd_resulting_level :: string
  dd_confirmation_count :: int
  dd_changed :: bool
  dd_reason_code :: string

fun count_confirmations :: "string \<Rightarrow> timed_stability_report list \<Rightarrow> nat" where
  "count_confirmations candidate [] = 0"
| "count_confirmations candidate (item # rest) =
     (if highest_eligible_level (ts_report item) None \<noteq> candidate then 0
      else Suc (count_confirmations candidate rest))"

definition damp_cognition_level ::
    "string \<Rightarrow> string \<Rightarrow> string \<Rightarrow> timed_stability_report list \<Rightarrow> int \<Rightarrow> int \<Rightarrow> cognition_damping_policy \<Rightarrow>
     cognition_damping_decision result" where
  "damp_cognition_level current life_id world_scope_hash reports last_changed now policy =
     (let mk = (\<lambda>cand res n ch reason. \<lparr>dd_current_level = current, dd_candidate_level = cand,
            dd_resulting_level = res, dd_confirmation_count = n, dd_changed = ch, dd_reason_code = reason\<rparr>) in
      if current \<notin> set (map fst LEVEL_ORDER) \<or> now < last_changed \<or> life_id = [] \<or> length world_scope_hash \<noteq> 64
      then Inl (ValueError ''COGNITION_DAMPING_INPUT_INVALID'')
      else if current = ''C4'' then Inr (mk ''C4'' ''C4'' 0 False ''COGNITION_C4_RULES_UNCHANGED'')
      else if list_ex (\<lambda>item. ts_life_id item \<noteq> life_id \<or> ts_world_scope_hash item \<noteq> world_scope_hash) reports
      then Inl (ValueError ''COGNITION_DAMPING_SCOPE_MISMATCH'')
      else
        let ordered = sort_key ts_observed_at_ms reports in
        if ordered = [] then Inr (mk current current 0 False ''COGNITION_NO_NEW_REPORT'')
        else
          let candidate = highest_eligible_level (ts_report (last ordered)) None in
          if candidate = current then Inr (mk candidate current 1 False ''COGNITION_STABLE'')
          else
            let promote = get_factor LEVEL_ORDER candidate > get_factor LEVEL_ORDER current;
                required = (if promote then cd_promotion_confirmations policy else cd_demotion_confirmations policy);
                count = int (count_confirmations candidate (rev ordered))
            in if now - last_changed < cd_min_dwell_ms policy
               then Inr (mk candidate current count False ''COGNITION_DWELL_HOLD'')
               else if count < required then Inr (mk candidate current count False ''COGNITION_CONFIRMATION_HOLD'')
               else Inr (mk candidate candidate count True ''COGNITION_LEVEL_CHANGED''))"

section \<open>Semantic throttle\<close>

record semantic_throttle_policy =
  st_rho_target_milli :: int
  st_high_churn_hazard_milli :: int
  st_challenge_rate_milli :: int
  st_min_quality_samples :: int

definition SemanticThrottlePolicy :: "semantic_throttle_policy \<Rightarrow> semantic_throttle_policy result" where
  "SemanticThrottlePolicy p =
     (if \<not> (1 \<le> st_rho_target_milli p \<and> st_rho_target_milli p < 1000) \<or> \<not> milli (st_high_churn_hazard_milli p) \<or>
         \<not> milli (st_challenge_rate_milli p) \<or> st_min_quality_samples p < 1
      then Inl (ValueError ''SEMANTIC_THROTTLE_POLICY_INVALID'') else Inr p)"

record semantic_throttle_snapshot =
  sn_queue :: queue_telemetry
  sn_stale_hazard_milli :: int
  sn_quality :: "transform_quality_profile option"

definition SemanticThrottleSnapshot :: "semantic_throttle_snapshot \<Rightarrow> semantic_throttle_snapshot result" where
  "SemanticThrottleSnapshot s =
     (if \<not> milli (sn_stale_hazard_milli s) then Inl (ValueError ''SEMANTIC_THROTTLE_HAZARD_INVALID'') else Inr s)"

record semantic_throttle_decision =
  sd_allowed :: bool
  sd_reason_code :: string

definition evaluate_semantic_throttle ::
    "semantic_throttle_snapshot \<Rightarrow> semantic_throttle_policy \<Rightarrow> semantic_throttle_decision" where
  "evaluate_semantic_throttle snapshot policy =
     (let queue = sn_queue snapshot;
          rho = (case qt_rho_milli queue of Some r \<Rightarrow> Some r
            | None \<Rightarrow> if qt_service_rate_milli_per_sec queue > 0
                then Some (qt_arrival_rate_milli_per_sec queue * 1000 div qt_service_rate_milli_per_sec queue) else None)
      in if qt_queue_class queue \<noteq> ''SEMANTIC'' then \<lparr>sd_allowed = False, sd_reason_code = ''SEMANTIC_QUEUE_REQUIRED''\<rparr>
         else if rho = None \<and> qt_arrival_rate_milli_per_sec queue > 0
         then \<lparr>sd_allowed = False, sd_reason_code = ''SEMANTIC_SERVICE_UNAVAILABLE''\<rparr>
         else if (case rho of None \<Rightarrow> False | Some r \<Rightarrow> r \<ge> st_rho_target_milli policy)
         then \<lparr>sd_allowed = False, sd_reason_code = ''SEMANTIC_QUEUE_OVERLOAD''\<rparr>
         else if (case sn_quality snapshot of None \<Rightarrow> False
            | Some q \<Rightarrow> tq_sample_count q \<ge> st_min_quality_samples policy \<and>
                sn_stale_hazard_milli snapshot \<ge> st_high_churn_hazard_milli policy \<and>
                tq_downstream_challenge_rate_milli q \<ge> st_challenge_rate_milli policy)
         then \<lparr>sd_allowed = False, sd_reason_code = ''SEMANTIC_NOISY_WORLD''\<rparr>
         else \<lparr>sd_allowed = True, sd_reason_code = ''OK''\<rparr>)"

section \<open>Revalidation: bounds and the state of the plane\<close>

lemma foldl_milli_product:
  "milli a \<Longrightarrow> list_all (\<lambda>v. 0 \<le> v \<and> v \<le> 1000) vs \<Longrightarrow>
   milli (foldl (\<lambda>product value. product * value div 1000) a vs)"
proof (induction vs arbitrary: a)
  case (Cons v vs)
  from Cons.prems have "milli (a * v div 1000)" by (intro milli_mult_div) auto
  from Cons.IH [OF this] Cons.prems show ?case by simp
qed simp

lemma revalidation_priority_bounds:
  assumes "RevalidationSignals s = Inr s'" "rs_validation_cost_milli s = Some c" "0 < eps"
  shows "\<exists>prio. revalidation_priority_milli s eps = Inr prio \<and> milli prio"
proof -
  let ?vs = "[rs_stale_hazard_milli s, rs_impact_milli s, rs_need_milli s, rs_uncertainty_milli s, rs_dirty_milli s]"
  have c: "0 < c + eps" using assms by (auto simp: RevalidationSignals_def split: if_splits)
  have "list_all (\<lambda>v. 0 \<le> v \<and> v \<le> 1000) ?vs"
    using assms(1) unfolding RevalidationSignals_def by (metis Inl_Inr_False)
  then have "milli (foldl (\<lambda>product value. product * value div 1000) 1000 ?vs)"
    by (intro foldl_milli_product) simp_all
  then have "0 \<le> foldl (\<lambda>product value. product * value div 1000) 1000 ?vs * 1000 div (c + eps)"
    using c by (simp add: pos_imp_zdiv_nonneg_iff del: foldl_Cons)
  with c assms(2) show ?thesis
    by (simp add: revalidation_priority_milli_def Let_def del: foldl_Cons)
qed

lemma delay_bounds:
  fixes lo hi prio :: int
  assumes "milli prio" "lo \<le> hi"
  shows "lo \<le> hi - (hi - lo) * prio div 1000" "hi - (hi - lo) * prio div 1000 \<le> hi"
proof -
  have "(hi - lo) * prio \<le> (hi - lo) * 1000" using assms by (intro mult_left_mono) auto
  then have "(hi - lo) * prio div 1000 \<le> hi - lo" by (intro div_le_of_le_mult) auto
  moreover have "0 \<le> (hi - lo) * prio div 1000" using assms by (simp add: pos_imp_zdiv_nonneg_iff)
  ultimately show "lo \<le> hi - (hi - lo) * prio div 1000" "hi - (hi - lo) * prio div 1000 \<le> hi" by auto
qed

lemma submit_known_class_ok:
  assumes "item_queue item \<in> set QUEUE_CLASSES"
  shows "\<exists>d. fst (submit H p item) = Inr d"
  using assms
  by (auto simp: submit_def Let_def validate_item_def split: prod.split option.split)

text \<open>Planning a revalidation on a valid policy and valid signals never raises, recommends a delay within
  the policy's window and a priority of at most 1000, admits nothing below the priority floor, and
  leaves the rhythm plane in a state of a run (so all its guarantees persist).\<close>

lemma revalidation_plan_sound:
  assumes "RevalidationPolicy pol = Inr pol'" "RevalidationSignals s = Inr s'"
    and "plane_run H p" "WorkCost_valid c"
    and "plan H pol (Some p) s ev c = (r, p')"
  shows "\<exists>pl q. r = Inr pl \<and> p' = Some q \<and> plane_run H q \<and> milli (pl_priority_milli pl) \<and>
    rv_min_delay_ms pol \<le> pl_recommended_delay_ms pl \<and> pl_recommended_delay_ms pl \<le> rv_max_delay_ms pol \<and>
    (pl_priority_milli pl < rv_priority_floor_milli pol \<longrightarrow> pl_disposition pl \<in> {''SKIP'', ''DEFERRED''} \<and> q = p)"
proof -
  have pol: "0 < rv_epsilon_cost_milli pol" "rv_min_delay_ms pol \<le> rv_max_delay_ms pol"
    using assms(1) by (auto simp: RevalidationPolicy_def split: if_splits)
  show ?thesis
  proof (cases "rs_stale_hazard_milli s = 0 \<and> rs_dirty_milli s = 0 \<or> rs_validation_cost_milli s = None")
    case True
    then show ?thesis
      using assms(3,5) pol by (cases "rs_stale_hazard_milli s = 0 \<and> rs_dirty_milli s = 0") (auto simp: plan_def Let_def)
  next
    case False
    then obtain cost prio where cost: "rs_validation_cost_milli s = Some cost"
      and prio: "revalidation_priority_milli s (rv_epsilon_cost_milli pol) = Inr prio" "milli prio"
      using revalidation_priority_bounds [OF assms(2) _ pol(1)] by auto
    note d = delay_bounds [OF prio(2) pol(2)]
    let ?delay = "rv_max_delay_ms pol - (rv_max_delay_ms pol - rv_min_delay_ms pol) * prio div 1000"
    show ?thesis
    proof (cases "prio < rv_priority_floor_milli pol \<or> ev = None \<or> hb_queue_class (ev_boundary (the ev)) \<noteq> ''REVALIDATION''")
      case True
      then show ?thesis
        using assms(3,5) False prio d cost by (auto simp: plan_def Let_def split: option.splits if_splits)
    next
      case sub: False
      then obtain e where e: "ev = Some e" "hb_queue_class (ev_boundary e) = ''REVALIDATION''" by auto
      let ?item = "\<lparr>wi_event = e\<lparr>ev_priority := max (ev_priority e) prio\<rparr>, wi_cost = c, wi_semantic = False,
          wi_revalidation = True\<rparr>"
      have "item_queue ?item \<in> set QUEUE_CLASSES" by (simp add: item_queue_def e(2) QUEUE_CLASSES_def)
      then obtain dec q where q: "submit H p ?item = (Inr dec, q)"
        using submit_known_class_ok by (metis prod.collapse)
      have "plane_run H q" by (rule run_submit [OF assms(3) _ q]) (simp add: assms(4))
      with q assms(5) False sub e prio d cost show ?thesis by (auto simp: plan_def Let_def)
    qed
  qed
qed

definition sample_revalidation :: revalidation_policy where
  "sample_revalidation = \<lparr>rv_priority_floor_milli = 25, rv_epsilon_cost_milli = 1, rv_min_delay_ms = 1000,
     rv_max_delay_ms = 3600000\<rparr>"

definition sample_signals :: revalidation_signals where
  "sample_signals = \<lparr>rs_stale_hazard_milli = 900, rs_impact_milli = 800, rs_need_milli = 1000,
     rs_uncertainty_milli = 500, rs_dirty_milli = 1000, rs_validation_cost_milli = Some 399\<rparr>"

section \<open>Queue control closes the loop without touching interactive work\<close>

lemma telemetry_nonneg:
  assumes "plane_run H p" "q \<in> set QUEUE_CLASSES" "telemetry p q now = Inr t"
  shows "0 \<le> qt_arrival_rate_milli_per_sec t" "0 \<le> qt_service_rate_milli_per_sec t" "0 \<le> qt_queue_depth t"
    "qt_queue_class t = q"
proof -
  have "queue_ok p q" using plane_invD(3) [OF plane_run_inv [OF assms(1)] assms(2)] .
  then have "0 \<le> rp_services p q" "0 \<le> rp_arrivals p q" by (auto simp: queue_ok_def)
  with assms(2,3) show "0 \<le> qt_arrival_rate_milli_per_sec t" "0 \<le> qt_service_rate_milli_per_sec t"
    "0 \<le> qt_queue_depth t" "qt_queue_class t = q"
    by (auto simp: telemetry_def Let_def pos_imp_zdiv_nonneg_iff)
qed

lemma adaptive_debounce_ok:
  "1 \<le> rho \<Longrightarrow> rho < 1000 \<Longrightarrow> 0 \<le> ratio \<Longrightarrow> ratio \<le> 1000 \<Longrightarrow> ok (adaptive_debounce_ms ar sr ratio rho)"
  by (simp add: adaptive_debounce_ms_def Let_def)

lemma derive_queue_control_ok:
  assumes "QueueControlPolicy pol = Inr pol'" "milli ratio"
    and "0 \<le> qt_arrival_rate_milli_per_sec t" "0 \<le> qt_service_rate_milli_per_sec t" "0 \<le> qt_queue_depth t"
  shows "\<exists>qp. derive_queue_control t ratio pol = Inr qp \<and> qp_queue_class qp = qt_queue_class t \<and>
    0 \<le> qp_recommended_debounce_ms qp \<and> qp_recommended_debounce_ms qp \<le> qc_max_debounce_ms pol"
proof -
  have pol: "1 \<le> qc_rho_target_milli pol" "qc_rho_target_milli pol < 1000" "0 \<le> qc_max_debounce_ms pol"
      "0 < qc_min_service_rate pol"
    using assms(1) by (auto simp: QueueControlPolicy_def split: if_splits)
  obtain raw where "adaptive_debounce_ms (qt_arrival_rate_milli_per_sec t) (qt_service_rate_milli_per_sec t) ratio
      (qc_rho_target_milli pol) = Inr raw"
    using adaptive_debounce_ok [of "qc_rho_target_milli pol" ratio] pol assms(2) by (auto simp: ok_iff)
  with pol assms(2-5) show ?thesis
    by (cases "qt_rho_milli t") (auto simp: derive_queue_control_def Let_def)
qed

text \<open>Closing the control loop.  For every reachable plane and every non-interactive queue class,
  measuring the class, deriving a control plan and applying it succeeds, sets a debounce within
  the policy's limit for that class, leaves the debounce of every other class (INTERACTIVE among
  them) as it was, and the plane stays in a state of a run.\<close>

lemma queue_control_loop:
  assumes "plane_run H p" "q \<in> set QUEUE_CLASSES" "q \<noteq> ''INTERACTIVE''"
    and "QueueControlPolicy pol = Inr pol'" "milli ratio"
  shows "\<exists>t qp d p'. telemetry p q now = Inr t \<and> derive_queue_control t ratio pol = Inr qp \<and>
    apply_queue_control p qp = Inr (d, p') \<and> plane_run H p' \<and> debounce_for (rp_coalescer p') q = d \<and>
    0 \<le> d \<and> d \<le> qc_max_debounce_ms pol \<and>
    (\<forall>r. r \<noteq> q \<longrightarrow> debounce_for (rp_coalescer p') r = debounce_for (rp_coalescer p) r)"
proof -
  obtain t where t: "telemetry p q now = Inr t"
    using assms(2) by (auto simp: telemetry_def Let_def)
  note nn = telemetry_nonneg [OF assms(1,2) t]
  obtain qp where qp: "derive_queue_control t ratio pol = Inr qp" "qp_queue_class qp = q"
      "0 \<le> qp_recommended_debounce_ms qp" "qp_recommended_debounce_ms qp \<le> qc_max_debounce_ms pol"
    using derive_queue_control_ok [OF assms(4,5) nn(1-3)] nn(4) by auto
  let ?d = "qp_recommended_debounce_ms qp"
  let ?p' = "p\<lparr>rp_coalescer := (rp_coalescer p)\<lparr>co_debounce_by_queue := (co_debounce_by_queue (rp_coalescer p))(q \<mapsto> ?d)\<rparr>\<rparr>"
  have "q \<noteq> []" using assms(2) by (auto simp: QUEUE_CLASSES_def)
  then have set: "plane_set_debounce_ms p ?d (Some q) = Inr ?p'"
    using qp(3) by (simp add: plane_set_debounce_ms_def co_set_debounce_ms_def)
  have deb: "debounce_for (rp_coalescer ?p') r = (if r = q then ?d else debounce_for (rp_coalescer p) r)" for r
    by (simp add: debounce_for_def cong: option.case_cong)
  have "apply_queue_control p qp = Inr (?d, ?p')"
    using assms(3) qp(2) set deb by (simp add: apply_queue_control_def)
  moreover have "plane_run H ?p'" by (rule run_debounce [OF assms(1) set])
  ultimately show ?thesis
    using t qp deb by (intro exI [of _ t] exI [of _ qp] exI [of _ ?d] exI [of _ ?p']) auto
qed

section \<open>Damping prevents oscillation\<close>

text \<open>A sequence of damping calls: the caller keeps the level and the time of its last change, and a
  call that raises leaves both.  The trace lists the changes with their times.\<close>

fun damping_trace ::
    "cognition_damping_policy \<Rightarrow> string \<Rightarrow> string \<Rightarrow> string \<Rightarrow> int \<Rightarrow> (timed_stability_report list \<times> int) list \<Rightarrow>
     (int \<times> string \<times> string) list" where
  "damping_trace pol life scope level last_changed [] = []"
| "damping_trace pol life scope level last_changed ((reports, now) # calls) =
     (case damp_cognition_level level life scope reports last_changed now pol of
        Inl _ \<Rightarrow> damping_trace pol life scope level last_changed calls
      | Inr d \<Rightarrow>
          if dd_changed d
          then (now, level, dd_resulting_level d) # damping_trace pol life scope (dd_resulting_level d) now calls
          else damping_trace pol life scope level last_changed calls)"

lemma damp_changed:
  assumes "damp_cognition_level level life scope reports last_changed now pol = Inr d" "dd_changed d"
  shows "cd_min_dwell_ms pol \<le> now - last_changed" "dd_resulting_level d = dd_candidate_level d"
    "dd_candidate_level d \<noteq> level" "level \<noteq> ''C4''"
    "dd_confirmation_count d = int (count_confirmations (dd_candidate_level d) (rev (sort_key ts_observed_at_ms reports)))"
    "dd_confirmation_count d \<ge> (if get_factor LEVEL_ORDER (dd_candidate_level d) > get_factor LEVEL_ORDER level
       then cd_promotion_confirmations pol else cd_demotion_confirmations pol)"
  using assms by (auto simp: damp_cognition_level_def Let_def split: if_splits)

lemma damping_trace_late:
  "(t, a, b) \<in> set (damping_trace pol life scope level since calls) \<Longrightarrow> 0 \<le> cd_min_dwell_ms pol \<Longrightarrow>
   since + cd_min_dwell_ms pol \<le> t"
proof (induction pol life scope level since calls rule: damping_trace.induct)
  case (2 pol life scope level last_changed reports now calls)
  show ?case
  proof (cases "damp_cognition_level level life scope reports last_changed now pol")
    case (Inl e)
    with 2 show ?thesis by simp
  next
    case (Inr d)
    show ?thesis
    proof (cases "dd_changed d")
      case True
      note now = damp_changed(1) [OF Inr True]
      show ?thesis
        using 2(4,5) 2(2) [OF Inr True] Inr True now by auto
    next
      case False
      with Inr 2 show ?thesis by simp
    qed
  qed
qed simp

lemma count_confirmations_take:
  "n \<le> count_confirmations c xs \<Longrightarrow>
   n \<le> length xs \<and> list_all (\<lambda>r. highest_eligible_level (ts_report r) None = c) (take n xs)"
proof (induction xs arbitrary: n)
  case (Cons x xs)
  then show ?case by (cases n) (auto split: if_splits)
qed simp

text \<open>C20: Levels do not oscillate.  Along any sequence of damping calls two changes of level are at least
  the dwell time apart, every change leaves C0..C3 for a different level, and it is confirmed: the
  required number of latest reports all support exactly the new level.\<close>

theorem damping_no_oscillation:
  assumes "CognitionDampingPolicy pol = Inr pol'"
  shows "sorted_wrt (\<lambda>(t, _) (t', _). t + cd_min_dwell_ms pol \<le> t') (damping_trace pol life scope level since calls) \<and>
    (\<forall>(t, a, b) \<in> set (damping_trace pol life scope level since calls). a \<noteq> b \<and> a \<noteq> ''C4'' \<and>
       (\<exists>reports n. (reports, t) \<in> set calls \<and> 1 \<le> n \<and> n \<le> length reports \<and>
          int n = (if get_factor LEVEL_ORDER b > get_factor LEVEL_ORDER a
            then cd_promotion_confirmations pol else cd_demotion_confirmations pol) \<and>
          list_all (\<lambda>r. highest_eligible_level (ts_report r) None = b)
            (take n (rev (sort_key ts_observed_at_ms reports)))))"
proof -
  have pol: "0 \<le> cd_min_dwell_ms pol" "1 \<le> cd_promotion_confirmations pol" "1 \<le> cd_demotion_confirmations pol"
    using assms by (auto simp: CognitionDampingPolicy_def split: if_splits)
  have "sorted_wrt (\<lambda>(t, _) (t', _). t + cd_min_dwell_ms pol \<le> t') (damping_trace pol life scope level since calls)"
    using pol(1)
    by (induction pol life scope level since calls rule: damping_trace.induct)
      (auto split: sum.splits dest: damping_trace_late)
  moreover have "a \<noteq> b \<and> a \<noteq> ''C4'' \<and> (\<exists>reports n. (reports, t) \<in> set calls \<and> 1 \<le> n \<and> n \<le> length reports \<and>
          int n = (if get_factor LEVEL_ORDER b > get_factor LEVEL_ORDER a
            then cd_promotion_confirmations pol else cd_demotion_confirmations pol) \<and>
          list_all (\<lambda>r. highest_eligible_level (ts_report r) None = b)
            (take n (rev (sort_key ts_observed_at_ms reports))))"
    if "(t, a, b) \<in> set (damping_trace pol life scope level since calls)" for t a b
    using that pol(2,3)
  proof (induction pol life scope level since calls rule: damping_trace.induct)
    case (2 pol life scope level last_changed reports now calls)
    show ?case
    proof (cases "\<exists>d. damp_cognition_level level life scope reports last_changed now pol = Inr d \<and> dd_changed d \<and>
        (t, a, b) = (now, level, dd_resulting_level d)")
      case True
      then obtain d where d: "damp_cognition_level level life scope reports last_changed now pol = Inr d"
        "dd_changed d" "t = now" "a = level" "b = dd_resulting_level d" by auto
      note ch = damp_changed [OF d(1,2)]
      let ?n = "nat (if get_factor LEVEL_ORDER b > get_factor LEVEL_ORDER a
            then cd_promotion_confirmations pol else cd_demotion_confirmations pol)"
      have "?n \<le> count_confirmations b (rev (sort_key ts_observed_at_ms reports))"
        using ch(2,5,6) d(4,5) by (auto split: if_splits)
      from count_confirmations_take [OF this] ch(2,3,4) d 2(5,6) show ?thesis
        by (intro conjI exI [of _ reports] exI [of _ ?n]) auto
    next
      case False
      then show ?thesis
        using 2 by (cases "damp_cognition_level level life scope reports last_changed now pol")
          (fastforce split: if_splits)+
    qed
  qed simp
  ultimately show ?thesis by blast
qed

definition sample_report :: stability_report where
  "sample_report = \<lparr>support_milli = 0, counter_milli = 0, net_milli = 0, support_groups = [], counter_groups = [],
     direct_support_groups = [], conflicted_groups = [], dropped_self_derived = [], dropped_expired = [],
     dropped_not_yet_valid = [], dropped_invalid = [], zero_authority = [], correlation_discount_milli = 0,
     staleness_penalty_milli = 0\<rparr>"

definition sample_timed :: "int \<Rightarrow> timed_stability_report" where
  "sample_timed t = \<lparr>ts_life_id = ''l'', ts_world_scope_hash = hex64 (CHR ''a''), ts_report = sample_report, ts_observed_at_ms = t\<rparr>"

definition sample_damping :: cognition_damping_policy where
  "sample_damping = \<lparr>cd_promotion_confirmations = 2, cd_demotion_confirmations = 2, cd_min_dwell_ms = 60000\<rparr>"

theorem damping_no_oscillation_witness:
  "damping_trace sample_damping ''l'' (hex64 (CHR ''a'')) ''C1'' 0
     [([sample_timed 1], 70000), ([sample_timed 1, sample_timed 2], 80000)] = [(80000, ''C1'', ''C0'')] \<and>
   sorted_wrt (\<lambda>(t, _) (t', _). t + 60000 \<le> t')
     (damping_trace sample_damping ''l'' (hex64 (CHR ''a'')) ''C1'' 0
       [([sample_timed 1], 70000), ([sample_timed 1, sample_timed 2], 80000)])"
proof -
  have "CognitionDampingPolicy sample_damping = Inr sample_damping"
    by (simp add: CognitionDampingPolicy_def sample_damping_def)
  from damping_no_oscillation [OF this, of "''l''" "hex64 (CHR ''a'')" "''C1''" 0
      "[([sample_timed 1], 70000), ([sample_timed 1, sample_timed 2], 80000)]"]
  show ?thesis
    by (simp add: Let_def damp_cognition_level_def LEVEL_ORDER_def sample_timed_def sample_report_def sample_damping_def
        hex64_def highest_eligible_level_def StabilityPolicy_def get_factor_def)
qed

section \<open>Backoff of fruitless inquiries\<close>

lemma insort_key_snoc: "f y < f x \<Longrightarrow> insort_key f y (zs @ [x]) = insort_key f y zs @ [x]"
  by (induction zs) auto

lemma insort_key_max: "\<forall>y \<in> set xs. f y < f x \<Longrightarrow> insort_key f x xs = xs @ [x]"
  by (induction xs) (auto dest: leD)

lemma sort_key_insert_max:
  assumes "\<And>y. y \<in> set (xs @ ys) \<Longrightarrow> f y < f x"
  shows "sort_key f (xs @ x # ys) = sort_key f (xs @ ys) @ [x]"
  using assms by (induction xs) (simp_all add: insort_key_snoc insort_key_max)

lemma relevant_insert:
  assumes "ig_family_key x = family"
    and "\<And>y. y \<in> set (xs @ ys) \<Longrightarrow> ig_family_key y = family \<Longrightarrow> ig_closed_at_ms y < ig_closed_at_ms x"
  shows "relevant_observations family (xs @ x # ys) = relevant_observations family (xs @ ys) @ [x]"
proof -
  let ?f = "\<lambda>x. (ig_closed_at_ms x, ig_outcome_sha256 x)" and ?F = "filter (\<lambda>y. ig_family_key y = family)"
  have "sort_key ?f (?F xs @ x # ?F ys) = sort_key ?f (?F xs @ ?F ys) @ [x]"
    by (rule sort_key_insert_max) (use assms(2) in auto)
  with assms(1) show ?thesis by (simp add: relevant_observations_def)
qed

text \<open>Exponential backoff.  When the latest inquiry of a family closes after all earlier ones: if it brought
  (almost) no information and resolved nothing, the run of fruitless inquiries grows by one and
  the next attempt is held back by the base delay doubled once per earlier failure, up to the
  maximum; otherwise the backoff is cleared.\<close>

lemma inquiry_backoff_step:
  assumes "InquiryBackoffPolicy pol = Inr pol'"
    and "derive_inquiry_backoff (xs @ ys) family life scope now pol = Inr st"
    and x: "ig_family_key x = family" "ig_life_id x = life" "ig_world_scope_hash x = scope"
    and "\<forall>y \<in> set (xs @ ys). ig_family_key y = family \<longrightarrow> ig_closed_at_ms y < ig_closed_at_ms x"
  shows "\<exists>st'. derive_inquiry_backoff (xs @ x # ys) family life scope now pol = Inr st' \<and>
    (if ig_information_gain_milli x \<le> ib_zero_gain_threshold_milli pol \<and> \<not> ig_resolved x
     then bs_consecutive_zero_gain st' = bs_consecutive_zero_gain st + 1 \<and>
       bs_backoff_until_ms st' = ig_closed_at_ms x +
         min (ib_max_backoff_ms pol) (ib_base_backoff_ms pol * 2 ^ nat (min 30 (bs_consecutive_zero_gain st)))
     else bs_consecutive_zero_gain st' = 0 \<and> bs_backoff_remaining_ms st' = 0)"
proof -
  let ?zero = "ig_information_gain_milli x \<le> ib_zero_gain_threshold_milli pol \<and> \<not> ig_resolved x"
  let ?rel = "relevant_observations family (xs @ ys)"
  have pol: "ib_zero_gain_threshold_milli pol < ib_reset_gain_milli pol"
    using assms(1) by (auto simp: InquiryBackoffPolicy_def split: if_splits)
  have inputs: "\<not> (now < 0 \<or> family = [] \<or> life = [] \<or> length scope \<noteq> 64)"
    and scope: "\<not> list_ex (\<lambda>item. ig_life_id item \<noteq> life \<or> ig_world_scope_hash item \<noteq> scope)
      (filter (\<lambda>item. ig_family_key item = family) (xs @ ys))"
    using assms(2) by (auto simp: derive_inquiry_backoff_def Let_def split: if_splits)
  have count: "bs_consecutive_zero_gain st = int (count_zero_gain pol (rev ?rel))"
    using assms(2) by (auto simp: derive_inquiry_backoff_def Let_def split: if_splits)
  have rel: "relevant_observations family (xs @ x # ys) = ?rel @ [x]"
    using x(1) assms(6) by (intro relevant_insert) auto
  have zero: "count_zero_gain pol (rev (?rel @ [x])) = (if ?zero then Suc (count_zero_gain pol (rev ?rel)) else 0)"
    using pol by auto
  have n: "nat (min 30 (int n)) = min 30 n" for n :: nat by simp
  have scope': "\<not> list_ex (\<lambda>item. ig_life_id item \<noteq> life \<or> ig_world_scope_hash item \<noteq> scope)
      (filter (\<lambda>item. ig_family_key item = family) (xs @ x # ys))" using scope x by simp
  have some: "?rel @ [x] \<noteq> []" by simp
  note computed = derive_inquiry_backoff_def rel Let_def if_not_P [OF inputs] if_not_P [OF scope'] if_not_P [OF some]
  show ?thesis
  proof (cases ?zero)
    case True
    then have some': "count_zero_gain pol (rev (?rel @ [x])) \<noteq> 0" unfolding zero by simp
    show ?thesis unfolding computed if_not_P [OF some'] if_P [OF True]
      unfolding zero if_P [OF True] by (intro exI conjI, rule refl) (simp_all add: count backoff_delay_def n)
  next
    case False
    then have none: "count_zero_gain pol (rev (?rel @ [x])) = 0" unfolding zero by simp
    show ?thesis unfolding computed if_P [OF none] if_not_P [OF False]
      by (intro exI conjI, rule refl) simp_all
  qed
qed

text \<open>The count of fruitless inquiries and the deadline do not depend on when they are computed.\<close>

lemma inquiry_backoff_later:
  assumes "derive_inquiry_backoff obs family life scope now pol = Inr st" and "0 \<le> now'"
  shows "\<exists>st'. derive_inquiry_backoff obs family life scope now' pol = Inr st' \<and>
    bs_consecutive_zero_gain st' = bs_consecutive_zero_gain st \<and> bs_backoff_until_ms st' = bs_backoff_until_ms st"
proof -
  let ?rel = "relevant_observations family obs"
  have inputs: "\<not> (now < 0 \<or> family = [] \<or> life = [] \<or> length scope \<noteq> 64)"
    and scope: "\<not> list_ex (\<lambda>item. ig_life_id item \<noteq> life \<or> ig_world_scope_hash item \<noteq> scope)
      (filter (\<lambda>item. ig_family_key item = family) obs)"
    using assms(1) by (auto simp: derive_inquiry_backoff_def Let_def split: if_splits)
  have now': "\<not> (now' < 0 \<or> family = [] \<or> life = [] \<or> length scope \<noteq> 64)" using inputs assms(2) by simp
  note computed = derive_inquiry_backoff_def Let_def if_not_P [OF scope] if_not_P [OF inputs] if_not_P [OF now']
  show ?thesis
  proof (cases "?rel = []")
    case True
    with assms(1) show ?thesis unfolding computed if_P [OF True] by (auto simp del: One_nat_def)
  next
    case rel: False
    show ?thesis
    proof (cases "count_zero_gain pol (rev ?rel) = 0")
      case True
      show ?thesis using assms(1) unfolding computed if_not_P [OF rel] if_P [OF True] sum.inject by fastforce
    next
      case False
      show ?thesis using assms(1) unfolding computed if_not_P [OF rel] if_not_P [OF False] sum.inject
        by (elim subst) (intro exI conjI, rule refl, simp_all)
    qed
  qed
qed

definition sample_gain :: "int \<Rightarrow> int \<Rightarrow> inquiry_gain_observation" where
  "sample_gain t gain = \<lparr>ig_life_id = ''l'', ig_world_scope_hash = hex64 (CHR ''a''), ig_family_key = ''f'',
     ig_outcome_sha256 = ''s'', ig_closed_at_ms = t, ig_information_gain_milli = gain, ig_resolved = False\<rparr>"

section \<open>The 95th percentile\<close>

lemma sorted_count_le:
  fixes xs :: "int list"
  assumes "sorted xs" "k < length xs"
  shows "Suc k \<le> length (filter (\<lambda>v. v \<le> xs ! k) xs)"
    and "q < xs ! k \<Longrightarrow> length (filter (\<lambda>v. v \<le> q) xs) \<le> k"
proof -
  have split: "length (filter P xs) = length (filter P (take (Suc k) xs)) + length (filter P (drop (Suc k) xs))" for P
    by (metis append_take_drop_id filter_append length_append)
  have "filter (\<lambda>v. v \<le> xs ! k) (take (Suc k) xs) = take (Suc k) xs"
    using assms by (auto simp: filter_id_conv in_set_conv_nth sorted_nth_mono)
  with split [of "\<lambda>v. v \<le> xs ! k"] assms(2) show "Suc k \<le> length (filter (\<lambda>v. v \<le> xs ! k) xs)" by simp
  assume q: "q < xs ! k"
  have "filter (\<lambda>v. v \<le> q) (drop k xs) = []"
  proof (rule ccontr)
    assume "filter (\<lambda>v. v \<le> q) (drop k xs) \<noteq> []"
    then obtain v where "v \<in> set (drop k xs)" "v \<le> q" by (auto simp: filter_empty_conv)
    then obtain j where "k + j < length xs" "xs ! (k + j) \<le> q"
      by (auto simp: in_set_conv_nth less_diff_conv add.commute)
    with sorted_nth_mono [OF assms(1), of k "k + j"] q show False by simp
  qed
  then have "length (filter (\<lambda>v. v \<le> q) xs) = length (filter (\<lambda>v. v \<le> q) (take k xs))"
    by (metis append_Nil2 append_take_drop_id filter_append)
  also have "\<dots> \<le> length (take k xs)" by (rule length_filter_le)
  also have "\<dots> \<le> k" by simp
  finally show "length (filter (\<lambda>v. v \<le> q) xs) \<le> k" .
qed

text \<open>The nearest-rank percentile.  For a non-empty sample \<open>nearest_rank_p95\<close> is a sampled value, at
  least 95 percent of the sample does not exceed it, and no smaller sampled value has this property.\<close>

lemma nearest_rank_p95_correct:
  assumes "vs \<noteq> []"
  shows "nearest_rank_p95 vs \<in> set vs \<and>
    95 * length vs \<le> 100 * length (filter (\<lambda>v. v \<le> nearest_rank_p95 vs) vs) \<and>
    (\<forall>q. q < nearest_rank_p95 vs \<longrightarrow> 100 * length (filter (\<lambda>v. v \<le> q) vs) < 95 * length vs)"
proof -
  let ?n = "length vs" and ?r = "(95 * length vs + 99) div 100"
  have n: "1 \<le> ?n" using assms by (cases vs) auto
  have r: "1 \<le> ?r" "?r \<le> ?n" "95 * ?n \<le> 100 * ?r" "100 * (?r - 1) < 95 * ?n"
    using n by linarith+
  have p: "nearest_rank_p95 vs = sort vs ! (?r - 1)"
    using assms r(1,2) by (simp add: nearest_rank_p95_def Let_def max_def min_def)
  have k: "?r - 1 < length (sort vs)" using r(1,2) by simp
  have count: "length (filter P (sort vs)) = length (filter P vs)" for P
    by (metis mset_filter mset_sort size_mset)
  note le = sorted_count_le [OF sorted_sort k]
  have "sort vs ! (?r - 1) \<in> set vs" using nth_mem [OF k] by simp
  moreover have "95 * ?n \<le> 100 * length (filter (\<lambda>v. v \<le> sort vs ! (?r - 1)) vs)"
    using le(1) r(1,3) unfolding count by linarith
  moreover have "100 * length (filter (\<lambda>v. v \<le> q) vs) < 95 * ?n" if "q < sort vs ! (?r - 1)" for q
    using le(2) [OF that] r(4) unfolding count by linarith
  ultimately show ?thesis unfolding p by blast
qed

end
