(* ===== verification/Repair_Policy.thy ===== *)
theory Repair_Policy
  imports Payload "HOL-Library.FSet"
begin

text \<open>
  The deterministic verification repair policy, \<open>src/total_gateway/verification_repair_policy.py\<close>:
  the policy configuration with its budgets and predicate sets, its digest, the disposition matrix
  \<open>evaluate_disposition\<close> and the budget-aware decision \<open>compute_disposition_action\<close>.  On top of it
  the decision loop of \<open>VerificationRepairCoordinator.process_readiness\<close>
  (\<open>src/total_gateway/verification_repair_coordinator.py\<close>, with its default
  \<open>reuse_persisted_prefix=False\<close>): one disposition per failed plan entry, with the generation budget
  counted within the round.  What the coordinator reads from the store for an entry (executed
  attempts, earlier failures, successor depth, effect state) is the record \<open>failed_entry\<close>.
\<close>

section \<open>Configuration\<close>

definition POLICY_VERSION :: string where
  "POLICY_VERSION = ''v1''"

definition MAX_ATTEMPTS_PER_PLAN_ENTRY :: int where
  "MAX_ATTEMPTS_PER_PLAN_ENTRY = 2"

definition MAX_TOTAL_AUTO_REPAIRS_PER_GENERATION :: int where
  "MAX_TOTAL_AUTO_REPAIRS_PER_GENERATION = 4"

definition MAX_SAME_FAILURE_SIGNATURE_REPEATS :: int where
  "MAX_SAME_FAILURE_SIGNATURE_REPEATS = 2"

definition MAX_SUBJECT_SUCCESSOR_DEPTH :: int where
  "MAX_SUBJECT_SUCCESSOR_DEPTH = 4"

definition MAX_SIDE_EFFECTING_REPAIRS_PER_ENTRY :: int where
  "MAX_SIDE_EFFECTING_REPAIRS_PER_ENTRY = 1"

definition AUTO_REPAIRABLE_CONTENT_PREDICATES :: "string fset" where
  "AUTO_REPAIRABLE_CONTENT_PREDICATES =
     {|''artifact.nonempty'', ''artifact.min_visible_text_chars'', ''xlsx.required_columns'',
       ''xlsx.min_data_rows'', ''text.required_markers'', ''pptx.min_nonempty_slides'',
       ''csv.required_columns''|}"

definition EFFECT_POSTCONDITION_PREDICATES :: "string fset" where
  "EFFECT_POSTCONDITION_PREDICATES =
     {|''effect.target_exists'', ''effect.target_sha256_matches'', ''effect.required_change_observed'',
       ''effect.terminal_succeeded''|}"

definition REPOSITORY_REPAIRABLE_PREDICATES :: "string fset" where
  "REPOSITORY_REPAIRABLE_PREDICATES = {|''repository.required_paths_changed''|}"

definition REPOSITORY_NON_REPAIRABLE :: "string fset" where
  "REPOSITORY_NON_REPAIRABLE =
     {|''repository.forbidden_paths_unchanged'', ''repository.source_authority_valid'',
       ''repository.no_generated_mirror_direct_edit''|}"

record repair_policy_config =
  max_attempts_per_plan_entry :: int
  max_total_auto_repairs_per_generation :: int
  max_same_failure_signature_repeats :: int
  max_subject_successor_depth :: int
  max_side_effecting_repairs_per_entry :: int
  auto_repairable_content_predicates :: "string fset"
  effect_postcondition_predicates :: "string fset"
  repository_repairable_predicates :: "string fset"
  repository_non_repairable :: "string fset"

definition DEFAULT_POLICY :: repair_policy_config where
  "DEFAULT_POLICY =
     \<lparr>max_attempts_per_plan_entry = MAX_ATTEMPTS_PER_PLAN_ENTRY,
      max_total_auto_repairs_per_generation = MAX_TOTAL_AUTO_REPAIRS_PER_GENERATION,
      max_same_failure_signature_repeats = MAX_SAME_FAILURE_SIGNATURE_REPEATS,
      max_subject_successor_depth = MAX_SUBJECT_SUCCESSOR_DEPTH,
      max_side_effecting_repairs_per_entry = MAX_SIDE_EFFECTING_REPAIRS_PER_ENTRY,
      auto_repairable_content_predicates = AUTO_REPAIRABLE_CONTENT_PREDICATES,
      effect_postcondition_predicates = EFFECT_POSTCONDITION_PREDICATES,
      repository_repairable_predicates = REPOSITORY_REPAIRABLE_PREDICATES,
      repository_non_repairable = REPOSITORY_NON_REPAIRABLE\<rparr>"

definition config_payload :: "repair_policy_config \<Rightarrow> (string \<times> pyval) list" where
  "config_payload p =
     [(''policy_version'', jstr POLICY_VERSION),
      (''max_attempts_per_plan_entry'', PInt (max_attempts_per_plan_entry p)),
      (''max_total_auto_repairs_per_generation'', PInt (max_total_auto_repairs_per_generation p)),
      (''max_same_failure_signature_repeats'', PInt (max_same_failure_signature_repeats p)),
      (''max_subject_successor_depth'', PInt (max_subject_successor_depth p)),
      (''max_side_effecting_repairs_per_entry'', PInt (max_side_effecting_repairs_per_entry p)),
      (''auto_repairable_content_predicates'', jstrs (sorted_list_of_fset (auto_repairable_content_predicates p))),
      (''effect_postcondition_predicates'', jstrs (sorted_list_of_fset (effect_postcondition_predicates p))),
      (''repository_repairable_predicates'', jstrs (sorted_list_of_fset (repository_repairable_predicates p))),
      (''repository_non_repairable'', jstrs (sorted_list_of_fset (repository_non_repairable p)))]"

definition config_sha256 :: "(nat list \<Rightarrow> string) \<Rightarrow> repair_policy_config \<Rightarrow> string result" where
  "config_sha256 H p = canonical_sha256 H (jobj (config_payload p))"

section \<open>The disposition matrix\<close>

text \<open>The argument \<open>verification_status\<close> of the two functions is never read; it is left out.\<close>

datatype disposition_action = REPAIR | WAIT | RECONCILE | REVIEW

definition evaluate_disposition ::
    "string \<Rightarrow> string \<Rightarrow> int \<Rightarrow> int \<Rightarrow> int \<Rightarrow> bool \<Rightarrow> repair_policy_config \<Rightarrow> disposition_action \<times> string list" where
  "evaluate_disposition predicate_type failure_kind attempt_no max_attempts same_signature_count
       effect_is_ambiguous p =
     (if effect_is_ambiguous then (RECONCILE, [''repair_policy.ambiguous_effect_no_replay''])
      else if failure_kind = ''MISSING_EVIDENCE'' then (WAIT, [''repair_policy.missing_evidence_wait''])
      else if failure_kind = ''INCONCLUSIVE'' then (WAIT, [''repair_policy.inconclusive_wait''])
      else if failure_kind = ''AUTHORITY_ERROR'' then (RECONCILE, [''repair_policy.authority_error_reconcile''])
      else if failure_kind \<in> {''PLAN_CONFIG_ERROR'', ''RECORD_MISMATCH''}
      then (REVIEW, [''repair_policy.'' @ ascii_lower failure_kind @ ''_review''])
      else if failure_kind = ''VERIFICATION_FAILED'' then
        (if attempt_no \<ge> max_attempts then (REVIEW, [''repair_policy.entry_budget_exhausted''])
         else if same_signature_count \<ge> max_same_failure_signature_repeats p
         then (REVIEW, [''repair_policy.same_failure_signature_repeat''])
         else if predicate_type |\<in>| repository_non_repairable p
         then (REVIEW, [''repair_policy.repository_non_repairable''])
         else if predicate_type |\<in>| auto_repairable_content_predicates p
         then (REPAIR, [''repair_policy.deterministic_content_repairable''])
         else if predicate_type |\<in>| effect_postcondition_predicates p
         then (REPAIR, [''repair_policy.effect_postcondition_repairable''])
         else if predicate_type |\<in>| repository_repairable_predicates p
         then (REPAIR, [''repair_policy.repository_path_repairable''])
         else (REVIEW, [''repair_policy.predicate_not_in_repairability_matrix'']))
      else (REVIEW, [''repair_policy.unhandled_failure_kind'']))"

definition extra_reasons :: "int \<Rightarrow> int \<Rightarrow> int \<Rightarrow> string \<Rightarrow> repair_policy_config \<Rightarrow> string list" where
  "extra_reasons successor_depth generation_repair_count side_effect_repair_count subject_kind p =
     (if generation_repair_count \<ge> max_total_auto_repairs_per_generation p
      then [''repair_policy.generation_budget_exhausted''] else []) @
     (if successor_depth \<ge> max_subject_successor_depth p
      then [''repair_policy.successor_depth_exhausted''] else []) @
     (if subject_kind \<in> {''effect'', ''repository''} \<and>
         side_effect_repair_count \<ge> max_side_effecting_repairs_per_entry p
      then [''repair_policy.side_effect_budget_exhausted''] else [])"

definition compute_disposition_action ::
    "string \<Rightarrow> string \<Rightarrow> int \<Rightarrow> int \<Rightarrow> int \<Rightarrow> int \<Rightarrow> int \<Rightarrow> string \<Rightarrow> bool \<Rightarrow> repair_policy_config \<Rightarrow>
      disposition_action \<times> string list" where
  "compute_disposition_action predicate_type failure_kind attempt_no same_signature_count successor_depth
       generation_repair_count side_effect_repair_count subject_kind effect_is_ambiguous p =
     (let (base_action, base_reasons) =
            evaluate_disposition predicate_type failure_kind attempt_no (max_attempts_per_plan_entry p)
              same_signature_count effect_is_ambiguous p;
          extra = extra_reasons successor_depth generation_repair_count side_effect_repair_count subject_kind p
      in if extra \<noteq> [] \<and> base_action = REPAIR then (REVIEW, extra) else (base_action, base_reasons))"

section \<open>The decision round of the coordinator\<close>

text \<open>
  The answers of the store for one failed entry.  \<open>fe_effect_state\<close> is the answer of \<open>get_effect\<close>:
  \<open>Inl\<close> when the query raises, \<open>Inr None\<close> when there is no such effect.
\<close>

record failed_entry =
  fe_predicate_type :: string
  fe_failure_kind :: string
  fe_subject_kind :: string
  fe_failure_signature_sha256 :: string
  fe_readiness_sha256 :: string
  fe_prev_failures :: "(string \<times> string) list"
  fe_attempt_outcomes :: "string list"
  fe_successor_depth :: int
  fe_effect_state :: "string option result"

definition check_effect_ambiguity :: "failed_entry \<Rightarrow> bool" where
  "check_effect_ambiguity fe =
     (if fe_subject_kind fe \<noteq> ''effect'' then False
      else case fe_effect_state fe of
        Inl _ \<Rightarrow> True
      | Inr None \<Rightarrow> False
      | Inr (Some state) \<Rightarrow> state \<in> {''AMBIGUOUS'', ''SIDE_EFFECT_STARTED''})"

definition entry_has_ambiguous_attempt :: "failed_entry \<Rightarrow> bool" where
  "entry_has_ambiguous_attempt fe = list_ex (\<lambda>out. out = ''EXECUTION_AMBIGUOUS'') (fe_attempt_outcomes fe)"

definition same_sig_count :: "failed_entry \<Rightarrow> int" where
  "same_sig_count fe =
     int (card (set (fe_readiness_sha256 fe #
       map fst (filter (\<lambda>(readiness, signature). signature = fe_failure_signature_sha256 fe)
         (fe_prev_failures fe))))) - 1"

definition decide_entry :: "repair_policy_config \<Rightarrow> int \<Rightarrow> failed_entry \<Rightarrow> disposition_action \<times> string list" where
  "decide_entry p generation_repair_count fe =
     (let attempt_no = int (length (fe_attempt_outcomes fe)) in
      compute_disposition_action (fe_predicate_type fe) (fe_failure_kind fe) attempt_no (same_sig_count fe)
        (fe_successor_depth fe) generation_repair_count
        (if fe_subject_kind fe \<in> {''effect'', ''repository''} then attempt_no else 0)
        (fe_subject_kind fe) (check_effect_ambiguity fe \<or> entry_has_ambiguous_attempt fe) p)"

fun decide_round ::
    "repair_policy_config \<Rightarrow> int \<Rightarrow> failed_entry list \<Rightarrow> (disposition_action \<times> string list) list" where
  "decide_round p g [] = []"
| "decide_round p g (fe # fes) =
     (let d = decide_entry p g fe
      in d # decide_round p (if fst d = REPAIR then g + 1 else g) fes)"

text \<open>\<open>generation_repair_count\<close> before the loop: the REPAIR dispositions the store already has.\<close>

definition process_readiness ::
    "repair_policy_config \<Rightarrow> disposition_action list \<Rightarrow> bool \<Rightarrow> failed_entry list \<Rightarrow>
      (disposition_action \<times> string list) list" where
  "process_readiness p stored verification_ready fes =
     (if verification_ready then [] else decide_round p (int (count_list stored REPAIR)) fes)"

section \<open>Decisions\<close>

lemma evaluate_disposition_REPAIR:
  "fst (evaluate_disposition q k a m s amb p) = REPAIR \<longleftrightarrow>
     \<not> amb \<and> k = ''VERIFICATION_FAILED'' \<and> a < m \<and> s < max_same_failure_signature_repeats p \<and>
     q |\<notin>| repository_non_repairable p \<and>
     (q |\<in>| auto_repairable_content_predicates p \<or> q |\<in>| effect_postcondition_predicates p \<or>
      q |\<in>| repository_repairable_predicates p)"
  by (simp add: evaluate_disposition_def)

lemma extra_reasons_Nil:
  "extra_reasons depth g se kind p = [] \<longleftrightarrow>
     g < max_total_auto_repairs_per_generation p \<and> depth < max_subject_successor_depth p \<and>
     (kind \<in> {''effect'', ''repository''} \<longrightarrow> se < max_side_effecting_repairs_per_entry p)"
  by (simp add: extra_reasons_def not_le)

lemma compute_disposition_action_REPAIR:
  "fst (compute_disposition_action q k a s depth g se kind amb p) = REPAIR \<longleftrightarrow>
     fst (evaluate_disposition q k a (max_attempts_per_plan_entry p) s amb p) = REPAIR \<and>
     extra_reasons depth g se kind p = []"
  by (cases "evaluate_disposition q k a (max_attempts_per_plan_entry p) s amb p")
    (auto simp: compute_disposition_action_def Let_def)

lemma decide_entry_REPAIR:
  assumes "fst (decide_entry p g fe) = REPAIR"
  shows "g < max_total_auto_repairs_per_generation p"
    and "\<not> check_effect_ambiguity fe" and "\<not> entry_has_ambiguous_attempt fe"
    and "int (length (fe_attempt_outcomes fe)) < max_attempts_per_plan_entry p"
  using assms
  by (simp_all add: decide_entry_def Let_def compute_disposition_action_REPAIR evaluate_disposition_REPAIR
      extra_reasons_Nil)

text \<open>C12: The repair decision is exactly the repairability matrix within the budgets.  A failed entry gets
  REPAIR if and only if its effect is not ambiguous, the failure is a failed verification, the entry has
  attempts left, the same failure has not repeated too often, its predicate is in one of the three
  repairable sets and not in the non-repairable one, and the generation, successor-depth and (for effects
  and repositories) side-effect budgets are all unspent.\<close>

theorem repair_iff_within_every_budget:
  "fst (compute_disposition_action q kind_of_failure a s depth g se kind amb p) = REPAIR \<longleftrightarrow>
     \<not> amb \<and> kind_of_failure = ''VERIFICATION_FAILED'' \<and> a < max_attempts_per_plan_entry p \<and>
     s < max_same_failure_signature_repeats p \<and> q |\<notin>| repository_non_repairable p \<and>
     q |\<in>| auto_repairable_content_predicates p |\<union>| effect_postcondition_predicates p |\<union>|
       repository_repairable_predicates p \<and>
     g < max_total_auto_repairs_per_generation p \<and> depth < max_subject_successor_depth p \<and>
     (if kind \<in> {''effect'', ''repository''} then se < max_side_effecting_repairs_per_entry p else True)"
  unfolding compute_disposition_action_REPAIR evaluate_disposition_REPAIR extra_reasons_Nil
  by auto

lemma decide_round_repairs:
  "int (count_list (map fst (decide_round p g fes)) REPAIR) \<le> max 0 (max_total_auto_repairs_per_generation p - g)"
proof (induction fes arbitrary: g)
  case (Cons fe fes)
  show ?case
  proof (cases "fst (decide_entry p g fe) = REPAIR")
    case True
    with decide_entry_REPAIR(1) [OF True] Cons.IH [of "g + 1"] show ?thesis by (simp add: Let_def)
  next
    case False
    with Cons.IH [of g] show ?thesis by (simp add: Let_def)
  qed
qed simp

lemma decide_round_length [simp]: "length (decide_round p g fes) = length fes"
  by (induction fes arbitrary: g) (simp_all add: Let_def)

lemma decide_round_nth:
  "i < length fes \<Longrightarrow> \<exists>g'. decide_round p g fes ! i = decide_entry p g' (fes ! i)"
proof (induction fes arbitrary: g i)
  case (Cons fe fes)
  then show ?case by (cases i) (auto simp: Let_def)
qed simp

text \<open>C36: One round of repair decisions respects the generation budget and never replays an ambiguous
  effect.  Counting the REPAIR dispositions already stored, a round brings their number at most to the
  budget of the generation (it grants none when the budget is already spent), and every entry it repairs
  has attempts left, no ambiguous earlier attempt and no effect in an ambiguous or started state.\<close>

theorem repair_round_within_generation_budget:
  assumes "ds = process_readiness p stored False fes"
  shows "int (count_list stored REPAIR) + int (count_list (map fst ds) REPAIR) \<le>
           max (int (count_list stored REPAIR)) (max_total_auto_repairs_per_generation p) \<and>
         (\<forall>i < length fes. fst (ds ! i) = REPAIR \<longrightarrow>
            int (length (fe_attempt_outcomes (fes ! i))) < max_attempts_per_plan_entry p \<and>
            ''EXECUTION_AMBIGUOUS'' \<notin> set (fe_attempt_outcomes (fes ! i)) \<and>
            (fe_subject_kind (fes ! i) = ''effect'' \<longrightarrow>
               fe_effect_state (fes ! i) \<notin> {Inr (Some ''AMBIGUOUS''), Inr (Some ''SIDE_EFFECT_STARTED'')} \<and>
               ok (fe_effect_state (fes ! i))))"
proof (intro conjI allI impI)
  have ds: "ds = decide_round p (int (count_list stored REPAIR)) fes"
    using assms by (simp add: process_readiness_def)
  show "int (count_list stored REPAIR) + int (count_list (map fst ds) REPAIR) \<le>
      max (int (count_list stored REPAIR)) (max_total_auto_repairs_per_generation p)"
    using decide_round_repairs [of p "int (count_list stored REPAIR)" fes] unfolding ds by linarith
  fix i assume "i < length fes" and "fst (ds ! i) = REPAIR"
  then obtain g where "fst (decide_entry p g (fes ! i)) = REPAIR"
    using decide_round_nth [of i fes p "int (count_list stored REPAIR)"] by (auto simp: ds)
  note d = decide_entry_REPAIR [OF this]
  show "int (length (fe_attempt_outcomes (fes ! i))) < max_attempts_per_plan_entry p" by (rule d(4))
  show "''EXECUTION_AMBIGUOUS'' \<notin> set (fe_attempt_outcomes (fes ! i))"
    using d(3) by (simp add: entry_has_ambiguous_attempt_def list_ex_iff)
  assume "fe_subject_kind (fes ! i) = ''effect''"
  with d(2) show "fe_effect_state (fes ! i) \<notin> {Inr (Some ''AMBIGUOUS''), Inr (Some ''SIDE_EFFECT_STARTED'')}"
    and "ok (fe_effect_state (fes ! i))"
    by (auto simp: check_effect_ambiguity_def split: sum.splits)
qed

definition sample_entry :: "string \<Rightarrow> string \<Rightarrow> string option result \<Rightarrow> failed_entry" where
  "sample_entry predicate kind state =
     \<lparr>fe_predicate_type = predicate, fe_failure_kind = ''VERIFICATION_FAILED'', fe_subject_kind = kind,
      fe_failure_signature_sha256 = hex64 (CHR ''1''), fe_readiness_sha256 = hex64 (CHR ''2''),
      fe_prev_failures = [(hex64 (CHR ''3''), hex64 (CHR ''1''))], fe_attempt_outcomes = [],
      fe_successor_depth = 0, fe_effect_state = state\<rparr>"

definition sample_failures :: "failed_entry list" where
  "sample_failures =
     [sample_entry ''effect.target_exists'' ''effect'' (Inr (Some ''AMBIGUOUS'')),
      sample_entry ''xlsx.min_data_rows'' ''artifact'' (Inr None),
      sample_entry ''csv.required_columns'' ''artifact'' (Inr None)]"

lemma sample_round:
  "process_readiness DEFAULT_POLICY [REPAIR, WAIT, REPAIR, REPAIR] False sample_failures =
     [(RECONCILE, [''repair_policy.ambiguous_effect_no_replay'']),
      (REPAIR, [''repair_policy.deterministic_content_repairable'']),
      (REVIEW, [''repair_policy.generation_budget_exhausted''])]"
  by code_simp

lemma default_generation_budget: "max_total_auto_repairs_per_generation DEFAULT_POLICY = 4"
  by (simp add: DEFAULT_POLICY_def MAX_TOTAL_AUTO_REPAIRS_PER_GENERATION_def)

theorem repair_round_within_generation_budget_witness:
  "3 + int (count_list (map fst (process_readiness DEFAULT_POLICY [REPAIR, WAIT, REPAIR, REPAIR] False sample_failures)) REPAIR)
     \<le> 4 \<and> fst (process_readiness DEFAULT_POLICY [REPAIR, WAIT, REPAIR, REPAIR] False sample_failures ! 1) = REPAIR"
  using repair_round_within_generation_budget [where p = DEFAULT_POLICY and stored = "[REPAIR, WAIT, REPAIR, REPAIR]" and fes = sample_failures, OF refl]
  by (simp add: sample_round default_generation_budget)

section \<open>The digest of a configuration\<close>

lemma config_payload_py_wf: "py_wf (jobj (config_payload p))"
  by (simp add: config_payload_def)

lemma config_payload_keys: "map fst (config_payload p) = map fst (config_payload p')"
  by (simp add: config_payload_def)

lemma sorted_list_of_fset_inject: "sorted_list_of_fset A = sorted_list_of_fset B \<longleftrightarrow> A = B"
  by (metis sorted_list_of_fset_simps(2))

text \<open>The configuration digest covers the whole policy.  Two configurations with the same
  \<open>config_sha256\<close> agree in every budget and every predicate set, unless SHA-256 collides on their two
  payloads: a disposition that carries the digest carries the policy it was decided under.\<close>

lemma config_digest_determines_policy:
  assumes "config_sha256 H p = Inr h" "config_sha256 H p' = Inr h"
    and "collision_free H (jobj (config_payload p)) (jobj (config_payload p'))"
  shows "p = p'"
proof -
  note h = assms(1,2) [unfolded config_sha256_def]
  have rep: "representable (jobj (config_payload p))" "representable (jobj (config_payload p'))"
    using h ok_canonical_sha256 by (metis ok_simps(1))+
  have ints: "safe_int (max_attempts_per_plan_entry p)" "safe_int (max_total_auto_repairs_per_generation p)"
    "safe_int (max_same_failure_signature_repeats p)" "safe_int (max_subject_successor_depth p)"
    "safe_int (max_side_effecting_repairs_per_entry p)"
    "safe_int (max_attempts_per_plan_entry p')" "safe_int (max_total_auto_repairs_per_generation p')"
    "safe_int (max_same_failure_signature_repeats p')" "safe_int (max_subject_successor_depth p')"
    "safe_int (max_side_effecting_repairs_per_entry p')"
    using rep by (simp_all add: config_payload_def safe_int_def)
  note fields = same_digest_fields [OF h assms(3) config_payload_py_wf config_payload_py_wf config_payload_keys]
  show ?thesis
    using fields ints
    by (intro repair_policy_config.equality)
      (simp_all add: config_payload_def canonical_PInt map_JStr_inj sorted_list_of_fset_inject
        del: canonical_value.simps(4))
qed

lemma ok_config_sha256_default: "ok (config_sha256 H (DEFAULT_POLICY\<lparr>max_attempts_per_plan_entry := 3\<rparr>))"
  unfolding config_sha256_def ok_canonical_sha256
  by (simp add: config_payload_def DEFAULT_POLICY_def MAX_ATTEMPTS_PER_PLAN_ENTRY_def
        MAX_TOTAL_AUTO_REPAIRS_PER_GENERATION_def MAX_SAME_FAILURE_SIGNATURE_REPEATS_def
        MAX_SUBJECT_SUCCESSOR_DEPTH_def MAX_SIDE_EFFECTING_REPAIRS_PER_ENTRY_def MAX_SAFE_INTEGER_def)

end
