(* ===== verification/Composition_Profile.thy ===== *)
theory Composition_Profile
  imports Payload
begin

text \<open>
  The fixed composition capability profiles, \<open>src/contracts/composition_profile.py\<close>, and the risk
  classes \<open>RiskClass\<close> and side effects \<open>SideEffectClass\<close> of \<open>src/contracts/execution.py\<close> they speak
  about.  A profile digest is SHA-256 (parameter \<open>H\<close>) of a constant document that \<open>json.dumps\<close> writes
  with sorted keys; the documents are given with their keys sorted.  Arguments of an action are Python
  values; \<open>type(x) is list\<close> is \<open>PSequence\<close>.
\<close>

section \<open>Risk classes and side effects\<close>

datatype risk_class = A0 | A1 | A2 | A3 | A4 | A5

fun risk_index :: "risk_class \<Rightarrow> nat" where
  "risk_index A0 = 0"
| "risk_index A1 = 1"
| "risk_index A2 = 2"
| "risk_index A3 = 3"
| "risk_index A4 = 4"
| "risk_index A5 = 5"

fun risk_name :: "risk_class \<Rightarrow> string" where
  "risk_name A0 = ''A0''"
| "risk_name A1 = ''A1''"
| "risk_name A2 = ''A2''"
| "risk_name A3 = ''A3''"
| "risk_name A4 = ''A4''"
| "risk_name A5 = ''A5''"

lemma risk_index_inj: "risk_index r = risk_index s \<longleftrightarrow> r = s"
  by (cases r; cases s) simp_all

lemma risk_name_inj [simp]: "risk_name r = risk_name s \<longleftrightarrow> r = s"
  by (cases r; cases s) simp_all

instantiation risk_class :: linorder
begin

definition less_eq_risk_class :: "risk_class \<Rightarrow> risk_class \<Rightarrow> bool" where
  "less_eq_risk_class r s \<longleftrightarrow> risk_index r \<le> risk_index s"

definition less_risk_class :: "risk_class \<Rightarrow> risk_class \<Rightarrow> bool" where
  "less_risk_class r s \<longleftrightarrow> risk_index r < risk_index s"

instance
  by standard (auto simp: less_eq_risk_class_def less_risk_class_def risk_index_inj)

end

lemmas risk_order = less_eq_risk_class_def less_risk_class_def

lemma risk_le_A5 [simp]: "r \<le> A5"
  by (cases r) (simp_all add: risk_order)

lemma A5_le_risk [simp]: "A5 \<le> r \<longleftrightarrow> r = A5"
  by (cases r) (simp_all add: risk_order)

definition SideEffectClass :: "string list" where
  "SideEffectClass = [''none'', ''read'', ''local_write'', ''external_write'', ''external_send'', ''destructive'']"

section \<open>Profiles\<close>

definition WORKSPACE_WRITE_PROFILE_ID :: string where
  "WORKSPACE_WRITE_PROFILE_ID = ''composition.workspace-write.v1''"

definition WRITE_ACTIONS :: "(string \<times> risk_class \<times> string) list" where
  "WRITE_ACTIONS = [(''file.write'', A3, ''write''), (''code.write'', A3, ''write''),
     (''code.patch_replace'', A3, ''write''), (''file.mkdir'', A2, ''write'')]"

definition WORKSPACE_WRITE_ACTIONS :: "string list" where
  "WORKSPACE_WRITE_ACTIONS = map fst WRITE_ACTIONS"

definition WORKSPACE_READ_ACTIONS :: "string list" where
  "WORKSPACE_READ_ACTIONS = [''file.read'', ''file.list'', ''file.hash'']"

definition js :: "string \<Rightarrow> json" where
  "js s = JStr (ustr s)"

definition PROFILE_DOCUMENT :: json where
  "PROFILE_DOCUMENT = JObj
     [(ustr ''allow_python'', JBool False), (ustr ''allow_shell'', JBool False),
      (ustr ''code_write'', js ''syntax_check_false''), (ustr ''id'', js WORKSPACE_WRITE_PROFILE_ID),
      (ustr ''max_utf8_bytes'', JInt 1048576), (ustr ''patch'', js ''literal-positive-count-no-noop''),
      (ustr ''path_policy'', js ''workspace_only''),
      (ustr ''read_actions'', JArr (map js (sort WORKSPACE_READ_ACTIONS))),
      (ustr ''target_snapshot'', js ''native-path-and-content-sha256''),
      (ustr ''write_actions'',
        JObj (map (\<lambda>(k, r, e). (ustr k, JArr [js (risk_name r), js e])) (sort_key fst WRITE_ACTIONS)))]"

definition WORKSPACE_WRITE_PROFILE_SHA256 :: "(nat list \<Rightarrow> string) \<Rightarrow> string" where
  "WORKSPACE_WRITE_PROFILE_SHA256 H = H (utf8 (dumps PROFILE_DOCUMENT))"

definition WORKSPACE_PYTHON_PROFILE_ID :: string where
  "WORKSPACE_PYTHON_PROFILE_ID = ''composition.workspace-python.v1''"

definition WORKSPACE_PYTHON_PROFILE_SHA256 :: "(nat list \<Rightarrow> string) \<Rightarrow> string" where
  "WORKSPACE_PYTHON_PROFILE_SHA256 H = H (utf8 (dumps (JObj
     [(ustr ''allow_inline_code'', JBool False), (ustr ''argv'', js ''bounded-string-list''),
      (ustr ''commit'', js ''success-only-workspace-create-update-no-delete''),
      (ustr ''containment'', js ''windows-appcontainer''),
      (ustr ''environment'', js ''allowlist-no-parent-secrets''), (ustr ''execution_action'', js ''python.run''),
      (ustr ''id'', js WORKSPACE_PYTHON_PROFILE_ID), (ustr ''max_changed_bytes'', JInt 4194304),
      (ustr ''max_output_bytes'', JInt 4194304), (ustr ''memory_limit_bytes'', JInt 2147483648),
      (ustr ''network'', js ''denied''), (ustr ''process_limit'', JInt 32),
      (ustr ''require_os_containment'', JBool True), (ustr ''target'', js ''existing-workspace-py-script''),
      (ustr ''timeout_seconds'', JInt 60),
      (ustr ''write_profile_sha256'', js (WORKSPACE_WRITE_PROFILE_SHA256 H))])))"

definition composition_profile_valid :: "(nat list \<Rightarrow> string) \<Rightarrow> string option \<Rightarrow> string option \<Rightarrow> bool" where
  "composition_profile_valid H profile_id profile_sha256 \<longleftrightarrow>
     (profile_id, profile_sha256) \<in>
       {(None, None), (Some WORKSPACE_WRITE_PROFILE_ID, Some (WORKSPACE_WRITE_PROFILE_SHA256 H)),
        (Some WORKSPACE_PYTHON_PROFILE_ID, Some (WORKSPACE_PYTHON_PROFILE_SHA256 H))}"

definition composition_profile_risk_ceiling ::
    "(nat list \<Rightarrow> string) \<Rightarrow> string option \<Rightarrow> string option \<Rightarrow> risk_class result" where
  "composition_profile_risk_ceiling H profile_id profile_sha256 =
     (if \<not> composition_profile_valid H profile_id profile_sha256
      then Inl (ValueError ''unknown composition profile'')
      else Inr (if profile_id = None then A0
                else if profile_id = Some WORKSPACE_PYTHON_PROFILE_ID then A4 else A3))"

definition composition_authority_allowed ::
    "(nat list \<Rightarrow> string) \<Rightarrow> string \<Rightarrow> risk_class \<Rightarrow> string list \<Rightarrow> bool \<Rightarrow> bool \<Rightarrow>
      string option \<Rightarrow> string option \<Rightarrow> bool" where
  "composition_authority_allowed H action_id risk allowed_side_effects allow_shell allow_python
       profile_id profile_sha256 =
     (if \<not> composition_profile_valid H profile_id profile_sha256 \<or> allow_shell then False
      else let effects = set allowed_side_effects in
        if profile_id = Some WORKSPACE_PYTHON_PROFILE_ID \<and> action_id = ''python.run''
        then risk = A4 \<and> allow_python \<and> effects = {''local_write'', ''read''}
        else if allow_python then False
        else if profile_id = None then risk = A0 \<and> effects \<subseteq> {''none'', ''read''}
        else if action_id \<in> set WORKSPACE_READ_ACTIONS then risk = A0 \<and> effects = {''read''}
        else case map_of WRITE_ACTIONS action_id of
          None \<Rightarrow> False
        | Some (expected_risk, _) \<Rightarrow> risk = expected_risk \<and> effects = {''local_write'', ''read''})"

section \<open>Arguments of a profiled action\<close>

definition get_arg :: "(pykey \<times> pyval) list \<Rightarrow> string \<Rightarrow> pyval option" where
  "get_arg args k = map_of args (KStr (ustr k))"

definition get_arg_or :: "(pykey \<times> pyval) list \<Rightarrow> string \<Rightarrow> pyval \<Rightarrow> pyval" where
  "get_arg_or args k d = (case get_arg args k of None \<Rightarrow> d | Some v \<Rightarrow> v)"

definition extra_keys :: "(pykey \<times> pyval) list \<Rightarrow> string list \<Rightarrow> bool" where
  "extra_keys args allowed \<longleftrightarrow> list_ex (\<lambda>(k, _). k \<notin> set (map (\<lambda>a. KStr (ustr a)) allowed)) args"

text \<open>\<open>len(s.encode("utf-8"))\<close>; a lone surrogate raises \<open>UnicodeEncodeError\<close>, a \<open>ValueError\<close>.\<close>

definition utf8_length :: "ustring \<Rightarrow> nat result" where
  "utf8_length s =
     (if list_ex surrogate s then Inl (ValueError ''surrogates not allowed'') else Inr (length (utf8 s)))"

definition argv_item_bad :: "pyval \<Rightarrow> bool result" where
  "argv_item_bad item =
     (case item of
        PStr s \<Rightarrow> bind_result (utf8_length s) (\<lambda>n. Inr (n > 4096 \<or> 0 \<in> set s))
      | _ \<Rightarrow> Inr True)"

fun any_result :: "('a \<Rightarrow> bool result) \<Rightarrow> 'a list \<Rightarrow> bool result" where
  "any_result f [] = Inr False"
| "any_result f (x # xs) = bind_result (f x) (\<lambda>b. if b then Inr True else any_result f xs)"

definition python_arguments_bad :: "(pykey \<times> pyval) list \<Rightarrow> bool result" where
  "python_arguments_bad args =
     (if extra_keys args [''argv'', ''timeout''] then Inr True
      else case get_arg_or args ''timeout'' (PInt 30) of
        PInt t \<Rightarrow>
          if \<not> (1 \<le> t \<and> t \<le> 60) then Inr True
          else (case get_arg_or args ''argv'' (PSequence []) of
            PSequence items \<Rightarrow> if length items > 64 then Inr True else any_result argv_item_bad items
          | _ \<Rightarrow> Inr True)
      | _ \<Rightarrow> Inr True)"

definition allowed_write_keys :: "(string \<times> string list) list" where
  "allowed_write_keys =
     [(''file.write'', [''content'', ''encoding'', ''binary'']),
      (''code.write'', [''content'', ''encoding'', ''binary'', ''syntax_check'', ''language'']),
      (''code.patch_replace'', [''find'', ''replace'', ''count'', ''regex'', ''allow_noop'', ''encoding'']),
      (''file.mkdir'', [''exist_ok''])]"

definition check_content :: "(pykey \<times> pyval) list \<Rightarrow> unit result" where
  "check_content args =
     bind_result
       (case get_arg args ''content'' of
          Some (PStr s) \<Rightarrow> bind_result (utf8_length s) (\<lambda>n. Inr (n > 1048576))
        | _ \<Rightarrow> Inr True)
       (\<lambda>bad. if bad then Inl (ValueError ''controlled write requires bounded UTF-8 text'')
          else if get_arg_or args ''binary'' (PBool False) \<noteq> PBool False
          then Inl (ValueError ''controlled write does not allow binary encoding'')
          else Inr ())"

text \<open>
  \<open>str.lower\<close> and \<open>replace("_", "-")\<close> followed by a comparison with \<open>utf-8\<close> and \<open>utf8\<close>: no character
  outside ASCII lowers to one of the letters u, t, f, so only the ASCII letters are folded.
\<close>

definition fold_encoding :: "ustring \<Rightarrow> ustring" where
  "fold_encoding s = map (\<lambda>c. if 65 \<le> c \<and> c \<le> 90 then c + 32 else if c = 95 then 45 else c) s"

definition check_encoding :: "(pykey \<times> pyval) list \<Rightarrow> unit result" where
  "check_encoding args =
     (case get_arg_or args ''encoding'' (PStr (ustr ''utf-8'')) of
        PStr s \<Rightarrow> if fold_encoding s \<notin> {ustr ''utf-8'', ustr ''utf8''}
          then Inl (ValueError ''controlled write requires UTF-8'') else Inr ()
      | _ \<Rightarrow> Inl (AttributeError ''lower''))"

definition patch_arguments_ok :: "(pykey \<times> pyval) list \<Rightarrow> bool" where
  "patch_arguments_ok args \<longleftrightarrow>
     (case get_arg args ''find'' of Some (PStr s) \<Rightarrow> s \<noteq> [] | _ \<Rightarrow> False) \<and>
     (case get_arg_or args ''replace'' (PStr []) of PStr _ \<Rightarrow> True | _ \<Rightarrow> False) \<and>
     (case get_arg args ''count'' of Some (PInt n) \<Rightarrow> 1 \<le> n \<and> n \<le> 10000 | _ \<Rightarrow> False) \<and>
     get_arg_or args ''regex'' (PBool False) = PBool False \<and>
     get_arg_or args ''allow_noop'' (PBool False) = PBool False"

fun str_of :: "pyval \<Rightarrow> ustring" where
  "str_of (PStr s) = s"
| "str_of _ = []"

definition check_patch :: "(pykey \<times> pyval) list \<Rightarrow> unit result" where
  "check_patch args =
     (if \<not> patch_arguments_ok args
      then Inl (ValueError ''controlled patch requires a bounded literal replacement'')
      else bind_result (utf8_length (str_of (get_arg_or args ''find'' (PStr [])))) (\<lambda>m.
           bind_result (utf8_length (str_of (get_arg_or args ''replace'' (PStr [])))) (\<lambda>n.
             if m + n > 1048576 then Inl (ValueError ''controlled patch content is too large'') else Inr ())))"

definition validate_write_arguments :: "string \<Rightarrow> pyval \<Rightarrow> unit result" where
  "validate_write_arguments action_id arguments =
     (case (map_of allowed_write_keys action_id, arguments) of
        (Some allowed, PMapping args) \<Rightarrow>
          if action_id \<notin> set WORKSPACE_WRITE_ACTIONS
          then Inl (ValueError ''action is outside the composition execution profile'')
          else if extra_keys args allowed then Inl (ValueError ''unsupported controlled write argument'')
          else bind_result (if action_id \<in> {''file.write'', ''code.write''} then check_content args else Inr ()) (\<lambda>_.
               bind_result (check_encoding args) (\<lambda>_.
                 if action_id = ''code.write'' \<and> get_arg args ''syntax_check'' \<noteq> Some (PBool False)
                 then Inl (ValueError ''controlled code.write requires syntax_check=false; execution is separate'')
                 else if action_id = ''code.patch_replace'' then check_patch args else Inr ()))
      | _ \<Rightarrow> Inl (ValueError ''action is outside the composition execution profile''))"

definition validate_composition_arguments ::
    "(nat list \<Rightarrow> string) \<Rightarrow> string \<Rightarrow> pyval \<Rightarrow> string option \<Rightarrow> string option \<Rightarrow> unit result" where
  "validate_composition_arguments H action_id arguments profile_id profile_sha256 =
     (if \<not> composition_profile_valid H profile_id profile_sha256
      then Inl (ValueError ''unknown composition execution profile'')
      else if profile_id = None \<or> action_id \<in> set WORKSPACE_READ_ACTIONS then Inr ()
      else if profile_id = Some WORKSPACE_PYTHON_PROFILE_ID \<and> action_id = ''python.run'' then
        bind_result (case arguments of PMapping args \<Rightarrow> python_arguments_bad args | _ \<Rightarrow> Inr True)
          (\<lambda>bad. if bad
             then Inl (ValueError ''controlled Python requires bounded argv and timeout; inline code is not allowed'')
             else Inr ())
      else validate_write_arguments action_id arguments)"

section \<open>What a profile grants\<close>

lemma composition_profile_valid_cases:
  assumes "composition_profile_valid H pid psha"
  obtains "pid = None" | "pid = Some WORKSPACE_WRITE_PROFILE_ID" | "pid = Some WORKSPACE_PYTHON_PROFILE_ID"
  using assms by (auto simp: composition_profile_valid_def)

lemma WRITE_ACTIONS_risk: "map_of WRITE_ACTIONS a = Some (r, e) \<Longrightarrow> r \<le> A3"
  by (auto simp: WRITE_ACTIONS_def risk_order split: if_splits)

lemma profile_ids_distinct [simp]: "WORKSPACE_WRITE_PROFILE_ID \<noteq> WORKSPACE_PYTHON_PROFILE_ID"
  by (simp add: WORKSPACE_WRITE_PROFILE_ID_def WORKSPACE_PYTHON_PROFILE_ID_def)

lemma authority_allowed_effects:
  assumes "composition_authority_allowed H a risk effs sh py pid psha"
  shows "set effs \<subseteq> {''none'', ''read'', ''local_write''}"
  using assms by (auto simp: composition_authority_allowed_def Let_def split: if_splits option.splits prod.splits)

lemma authority_allowed_python:
  assumes "composition_authority_allowed H a risk effs sh py pid psha" and py
  shows "pid = Some WORKSPACE_PYTHON_PROFILE_ID \<and> a = ''python.run'' \<and> risk = A4"
  using assms by (auto simp: composition_authority_allowed_def Let_def split: if_splits option.splits prod.splits)

lemma authority_allowed_valid:
  "composition_authority_allowed H a risk effs sh py pid psha \<Longrightarrow> composition_profile_valid H pid psha \<and> \<not> sh"
  by (simp add: composition_authority_allowed_def split: if_splits)

lemma authority_allowed_risk:
  assumes "composition_authority_allowed H a risk effs sh py pid psha"
  shows "risk \<le> (if pid = None then A0 else if pid = Some WORKSPACE_PYTHON_PROFILE_ID then A4 else A3)"
proof (cases "pid = Some WORKSPACE_PYTHON_PROFILE_ID \<and> a = ''python.run''")
  case True
  with assms show ?thesis by (simp add: composition_authority_allowed_def Let_def split: if_splits)
next
  case False
  consider (no_profile) "pid = None" "risk = A0" | (reading) "pid \<noteq> None" "risk = A0"
    | (writing) e where "pid \<noteq> None" "map_of WRITE_ACTIONS a = Some (risk, e)"
    using assms False
    by (cases "map_of WRITE_ACTIONS a")
      (auto simp: composition_authority_allowed_def Let_def split: if_splits)
  then show ?thesis
  proof cases
    case writing
    from WRITE_ACTIONS_risk [OF writing(2)] writing(1) show ?thesis by (cases risk) (simp_all add: risk_order)
  qed (simp_all add: risk_order)
qed

text \<open>A composition profile bounds the authority it grants.  Whatever \<open>composition_authority_allowed\<close>
  accepts is under a known profile, has a risk class no higher than the ceiling the profile declares (A0
  without a profile, A3 for workspace writes, A4 for workspace Python), never has shell access, never
  reaches outside the workspace (no external write, no sending, nothing destructive), and has Python access
  only for the action \<open>python.run\<close> under the Python profile.\<close>

lemma composition_authority_within_ceiling:
  assumes "composition_authority_allowed H action_id risk effs allow_shell allow_python pid psha"
  shows "(\<exists>ceiling. composition_profile_risk_ceiling H pid psha = Inr ceiling \<and> risk \<le> ceiling \<and> ceiling < A5) \<and>
     \<not> allow_shell \<and> set effs \<subseteq> {''none'', ''read'', ''local_write''} \<and>
     (allow_python \<longrightarrow> pid = Some WORKSPACE_PYTHON_PROFILE_ID \<and> action_id = ''python.run'' \<and> risk = A4)"
proof (intro conjI impI)
  show "\<exists>ceiling. composition_profile_risk_ceiling H pid psha = Inr ceiling \<and> risk \<le> ceiling \<and> ceiling < A5"
    using authority_allowed_valid [OF assms] authority_allowed_risk [OF assms]
    by (auto simp: composition_profile_risk_ceiling_def risk_order split: if_splits)
  show "\<not> allow_shell" using authority_allowed_valid [OF assms] by simp
  show "set effs \<subseteq> {''none'', ''read'', ''local_write''}" by (rule authority_allowed_effects [OF assms])
qed (use authority_allowed_python [OF assms] in simp_all)

lemma sample_python_authority:
  "composition_authority_allowed H ''python.run'' A4 [''local_write'', ''read''] False True
     (Some WORKSPACE_PYTHON_PROFILE_ID) (Some (WORKSPACE_PYTHON_PROFILE_SHA256 H))"
  by (auto simp: composition_authority_allowed_def composition_profile_valid_def)

section \<open>What accepted arguments are\<close>

lemma check_content_Inr:
  "check_content args = Inr () \<Longrightarrow>
     \<exists>s. get_arg args ''content'' = Some (PStr s) \<and> length (utf8 s) \<le> 1048576 \<and> \<not> list_ex surrogate s"
  by (auto simp: check_content_def bind_result_eq_Inr utf8_length_def split: option.splits pyval.splits if_splits)

lemma check_patch_Inr:
  assumes "check_patch args = Inr ()"
  shows "\<exists>s n. get_arg args ''find'' = Some (PStr s) \<and> s \<noteq> [] \<and> get_arg args ''count'' = Some (PInt n) \<and>
     1 \<le> n \<and> n \<le> 10000 \<and>
     length (utf8 s) + length (utf8 (str_of (get_arg_or args ''replace'' (PStr [])))) \<le> 1048576"
proof -
  from assms have ok: "patch_arguments_ok args"
    and len: "length (utf8 (str_of (get_arg_or args ''find'' (PStr [])))) +
      length (utf8 (str_of (get_arg_or args ''replace'' (PStr [])))) \<le> 1048576"
    by (auto simp: check_patch_def bind_result_eq_Inr utf8_length_def split: if_splits)
  from ok obtain s n where "get_arg args ''find'' = Some (PStr s)" "s \<noteq> []" "get_arg args ''count'' = Some (PInt n)"
    "1 \<le> n" "n \<le> 10000"
    by (auto simp: patch_arguments_ok_def split: option.splits pyval.splits)
  with len show ?thesis by (auto simp: get_arg_or_def)
qed

lemma any_result_False: "any_result f xs = Inr False \<Longrightarrow> x \<in> set xs \<Longrightarrow> f x = Inr False"
  by (induction xs) (auto simp: bind_result_eq_Inr split: if_splits)

lemma argv_item_ok: "argv_item_bad v = Inr False \<Longrightarrow> \<exists>s. v = PStr s \<and> length (utf8 s) \<le> 4096 \<and> 0 \<notin> set s"
  by (auto simp: argv_item_bad_def bind_result_eq_Inr utf8_length_def split: pyval.splits if_splits)

lemma python_arguments_ok:
  assumes "python_arguments_bad args = Inr False"
  shows "\<exists>t items. get_arg_or args ''timeout'' (PInt 30) = PInt t \<and> 1 \<le> t \<and> t \<le> 60 \<and>
     get_arg_or args ''argv'' (PSequence []) = PSequence items \<and> length items \<le> 64 \<and>
     (\<forall>v \<in> set items. \<exists>s. v = PStr s \<and> length (utf8 s) \<le> 4096 \<and> 0 \<notin> set s)"
proof -
  from assms obtain t items where "get_arg_or args ''timeout'' (PInt 30) = PInt t" "1 \<le> t" "t \<le> 60"
    "get_arg_or args ''argv'' (PSequence []) = PSequence items" "length items \<le> 64"
    and any: "any_result argv_item_bad items = Inr False"
    by (auto simp: python_arguments_bad_def split: if_splits pyval.splits)
  moreover have "\<forall>v \<in> set items. \<exists>s. v = PStr s \<and> length (utf8 s) \<le> 4096 \<and> 0 \<notin> set s"
    using any_result_False [OF any] argv_item_ok by blast
  ultimately show ?thesis by auto
qed

lemma python_arguments_keys: "python_arguments_bad args = Inr False \<Longrightarrow> \<not> extra_keys args [''argv'', ''timeout'']"
  by (auto simp: python_arguments_bad_def split: if_splits)

lemma validate_write_arguments_Inr:
  assumes "validate_write_arguments a arguments = Inr ()"
  obtains args where "arguments = PMapping args" "a \<in> set WORKSPACE_WRITE_ACTIONS"
    "a \<in> {''file.write'', ''code.write''} \<longrightarrow> check_content args = Inr ()"
    "a = ''code.patch_replace'' \<longrightarrow> check_patch args = Inr ()"
    "a = ''code.write'' \<longrightarrow> get_arg args ''syntax_check'' = Some (PBool False)"
  using assms
  by (auto simp: validate_write_arguments_def bind_result_eq_Inr split: option.splits pyval.splits if_splits)

text \<open>Arguments accepted under a composition profile are bounded.  When a profiled action other than a
  read passes \<open>validate_composition_arguments\<close>, its arguments are a mapping and it is either one of the
  workspace write actions or \<open>python.run\<close> under the Python profile; a written file has at most 1 MiB of
  encodable text, \<open>code.write\<close> never runs a syntax check, a patch replaces a nonempty literal at most 10000
  times with at most 1 MiB of text, and a Python run has no argument besides \<open>argv\<close> and \<open>timeout\<close>, at most
  60 seconds and at most 64 arguments of at most 4096 bytes without NUL.\<close>

lemma composition_arguments_bounded:
  assumes "validate_composition_arguments H a arguments (Some pid) psha = Inr ()"
    and "a \<notin> set WORKSPACE_READ_ACTIONS"
  shows "\<exists>args. arguments = PMapping args \<and>
     (a \<in> set WORKSPACE_WRITE_ACTIONS \<or> a = ''python.run'' \<and> pid = WORKSPACE_PYTHON_PROFILE_ID) \<and>
     (a \<in> {''file.write'', ''code.write''} \<longrightarrow>
        (\<exists>s. get_arg args ''content'' = Some (PStr s) \<and> length (utf8 s) \<le> 1048576 \<and> \<not> list_ex surrogate s)) \<and>
     (a = ''code.write'' \<longrightarrow> get_arg args ''syntax_check'' = Some (PBool False)) \<and>
     (a = ''code.patch_replace'' \<longrightarrow>
        (\<exists>s n. get_arg args ''find'' = Some (PStr s) \<and> s \<noteq> [] \<and> get_arg args ''count'' = Some (PInt n) \<and>
           1 \<le> n \<and> n \<le> 10000 \<and>
           length (utf8 s) + length (utf8 (str_of (get_arg_or args ''replace'' (PStr [])))) \<le> 1048576)) \<and>
     (a = ''python.run'' \<longrightarrow> \<not> extra_keys args [''argv'', ''timeout''] \<and>
        (\<exists>t items. get_arg_or args ''timeout'' (PInt 30) = PInt t \<and> 1 \<le> t \<and> t \<le> 60 \<and>
           get_arg_or args ''argv'' (PSequence []) = PSequence items \<and> length items \<le> 64 \<and>
           (\<forall>v \<in> set items. \<exists>s. v = PStr s \<and> length (utf8 s) \<le> 4096 \<and> 0 \<notin> set s)))"
proof (cases "pid = WORKSPACE_PYTHON_PROFILE_ID \<and> a = ''python.run''")
  case True
  with assms obtain args where args: "arguments = PMapping args" "python_arguments_bad args = Inr False"
    by (auto simp: validate_composition_arguments_def bind_result_eq_Inr split: if_splits pyval.splits)
  show ?thesis
    using True python_arguments_ok [OF args(2)] python_arguments_keys [OF args(2)]
    by (intro exI [of _ args]) (simp add: args(1))
next
  case False
  with assms have "validate_write_arguments a arguments = Inr ()"
    by (auto simp: validate_composition_arguments_def split: if_splits)
  then obtain args where args: "arguments = PMapping args" "a \<in> set WORKSPACE_WRITE_ACTIONS"
    "a \<in> {''file.write'', ''code.write''} \<longrightarrow> check_content args = Inr ()"
    "a = ''code.patch_replace'' \<longrightarrow> check_patch args = Inr ()"
    "a = ''code.write'' \<longrightarrow> get_arg args ''syntax_check'' = Some (PBool False)"
    by (rule validate_write_arguments_Inr)
  from args(2) have "a \<noteq> ''python.run''" by (auto simp: WORKSPACE_WRITE_ACTIONS_def WRITE_ACTIONS_def)
  with args(2-5) check_content_Inr [of args] check_patch_Inr [of args] show ?thesis
    by (intro exI [of _ args]) (simp add: args(1))
qed

end
