(* ===== verification/Policy_Contracts.thy ===== *)
theory Policy_Contracts
  imports Composition_Profile
begin

text \<open>
  The contracts between the action policy and its callers: \<open>SourceRef\<close> (\<open>src/contracts/models.py\<close>),
  \<open>CompositionExecutionBindingV1\<close> (\<open>src/contracts/execution.py\<close>), the classes of
  \<open>src/contracts/policy.py\<close> up to \<open>PolicyDecision\<close> and \<open>ActionImpact\<close> (\<open>src/contracts/agency.py\<close>).  For
  each class: the record, the constraints of its fields together with the field validators
  (\<open>..._fields_ok\<close>), the model validators, and the mapping that is digested (\<open>..._dump\<close>, the
  \<open>model_dump\<close> without the digest field; fields with \<open>exclude_if\<close> are left out when absent).  The three
  methods around a digest are the same in every class (\<open>Payload\<close>), and each class interprets the locale
  \<open>sealed_contract\<close>.
\<close>

section \<open>Shared vocabulary\<close>

definition SCHEMA_VERSIONS :: "string list" where
  "SCHEMA_VERSIONS = [''tiangong.gateway.contracts.v1'', ''tiangong.gateway.contracts.v2'']"

definition SCHEMA_VERSION :: string where
  "SCHEMA_VERSION = ''tiangong.gateway.contracts.v2''"

definition ActionId :: "string \<Rightarrow> bool" where
  "ActionId s \<longleftrightarrow> 1 \<le> length s \<and> length s \<le> 160 \<and>
     match_head_tail (\<lambda>c. is_lower c \<or> is_digit c) (\<lambda>c. is_lower c \<or> is_digit c \<or> c \<in> set ''._:-'') s"

definition EffectId :: "string \<Rightarrow> bool" where
  "EffectId s \<longleftrightarrow> prefixed_sha256 ''eff_'' s"

definition set_like :: "string list \<Rightarrow> bool" where
  "set_like v \<longleftrightarrow> v = sorted_set v"

definition jdump :: "string \<Rightarrow> string option \<Rightarrow> (string \<times> pyval) list" where
  "jdump k v = (case v of None \<Rightarrow> [] | Some s \<Rightarrow> [(k, jstr s)])"

definition jdump_int :: "string \<Rightarrow> int option \<Rightarrow> (string \<times> pyval) list" where
  "jdump_int k v = (case v of None \<Rightarrow> [] | Some i \<Rightarrow> [(k, PInt i)])"

lemma jdump_simps [simp]:
  "jdump k None = []" "jdump k (Some s) = [(k, jstr s)]" "jdump_int k None = []" "jdump_int k (Some i) = [(k, PInt i)]"
  by (simp_all add: jdump_def jdump_int_def)

section \<open>Provenance references\<close>

definition SourceType :: "string list" where
  "SourceType = [''CURRENT_USER_INSTRUCTION'', ''PREAUTHORIZED_USER_FACT'', ''AUTHENTICATED_DIRECTORY'',
     ''EXTERNAL_DATA'', ''TOOL_DATA'']"

record source_ref =
  sf_source_type :: string
  sf_object_id :: string
  sf_object_revision :: int
  sf_sha256 :: string
  sf_span_start :: "int option"
  sf_span_end :: "int option"

definition SourceRef_fields_ok :: "source_ref \<Rightarrow> bool" where
  "SourceRef_fields_ok r \<longleftrightarrow>
     sf_source_type r \<in> set SourceType \<and> OpaqueId (sf_object_id r) \<and> 1 \<le> sf_object_revision r \<and>
     Sha256 (sf_sha256 r) \<and> opt_ok (\<lambda>i. 0 \<le> i) (sf_span_start r) \<and> opt_ok (\<lambda>i. 0 \<le> i) (sf_span_end r)"

definition SourceRef :: "source_ref \<Rightarrow> source_ref result" where
  "SourceRef r =
     (if \<not> SourceRef_fields_ok r then Inl (ValueError ''field constraint'')
      else case (sf_span_start r, sf_span_end r) of
        (None, None) \<Rightarrow> Inr r
      | (Some a, Some b) \<Rightarrow> if a > b then Inl (ValueError ''source ref span is inverted'') else Inr r
      | _ \<Rightarrow> Inl (ValueError ''source ref span must be all-or-none''))"

definition span_or_minus_one :: "int option \<Rightarrow> int" where
  "span_or_minus_one i = (case i of None \<Rightarrow> - 1 | Some n \<Rightarrow> n)"

definition source_sort_key :: "source_ref \<Rightarrow> string \<times> string \<times> int \<times> string \<times> int \<times> int" where
  "source_sort_key r = (sf_source_type r, sf_object_id r, sf_object_revision r, sf_sha256 r,
     span_or_minus_one (sf_span_start r), span_or_minus_one (sf_span_end r))"

definition source_ref_dump :: "source_ref \<Rightarrow> (string \<times> pyval) list" where
  "source_ref_dump r =
     [(''source_type'', jstr (sf_source_type r)), (''object_id'', jstr (sf_object_id r)),
      (''object_revision'', PInt (sf_object_revision r)), (''sha256'', jstr (sf_sha256 r)),
      (''span_start'', joptint (sf_span_start r)), (''span_end'', joptint (sf_span_end r))]"

definition source_refs_dump :: "source_ref list \<Rightarrow> pyval" where
  "source_refs_dump rs = PSequence (map (\<lambda>r. jobj (source_ref_dump r)) rs)"

section \<open>Composition bindings\<close>

record composition_binding =
  cb_schema_version :: string
  cb_binding_type :: string
  cb_executable_plan_id :: string
  cb_executable_plan_sha256 :: string
  cb_step_id :: string
  cb_step_binding_sha256 :: string
  cb_request_id :: string
  cb_run_id :: string
  cb_generation :: int
  cb_effect_id :: string
  cb_action_id :: string
  cb_action_version :: string
  cb_materialized_arguments_sha256 :: string
  cb_canonical_invocation_sha256 :: string
  cb_target_sha256 :: string
  cb_target_snapshot_sha256 :: "string option"
  cb_workspace_id :: string
  cb_workspace_scope_hash :: string
  cb_attempt :: "int option"
  cb_continuation_delegation_id :: "string option"
  cb_continuation_delegation_sha256 :: "string option"
  cb_dependency_evidence_sha256 :: "string option"
  cb_supersedes_authorization_id :: "string option"
  cb_supersedes_effect_id :: "string option"
  cb_supersedes_claim_sha256 :: "string option"
  cb_binding_sha256 :: string
  cb_execution_profile_id :: "string option"
  cb_execution_profile_sha256 :: "string option"

definition composition_binding_fields_ok :: "composition_binding \<Rightarrow> bool" where
  "composition_binding_fields_ok b \<longleftrightarrow>
     cb_schema_version b = ''tiangong.composition-execution-binding.v1'' \<and>
     cb_binding_type b = ''COMPOSITION_STEP'' \<and> OpaqueId (cb_executable_plan_id b) \<and>
     Sha256 (cb_executable_plan_sha256 b) \<and> OpaqueId (cb_step_id b) \<and> Sha256 (cb_step_binding_sha256 b) \<and>
     RequestId (cb_request_id b) \<and> RunId (cb_run_id b) \<and> 0 \<le> cb_generation b \<and> EffectId (cb_effect_id b) \<and>
     ActionId (cb_action_id b) \<and> OpaqueId (cb_action_version b) \<and>
     Sha256 (cb_materialized_arguments_sha256 b) \<and> Sha256 (cb_canonical_invocation_sha256 b) \<and>
     Sha256 (cb_target_sha256 b) \<and> opt_ok Sha256 (cb_target_snapshot_sha256 b) \<and>
     OpaqueId (cb_workspace_id b) \<and> Sha256 (cb_workspace_scope_hash b) \<and>
     opt_ok (\<lambda>n. 1 \<le> n) (cb_attempt b) \<and> opt_ok OpaqueId (cb_continuation_delegation_id b) \<and>
     opt_ok Sha256 (cb_continuation_delegation_sha256 b) \<and> opt_ok Sha256 (cb_dependency_evidence_sha256 b) \<and>
     opt_ok OpaqueId (cb_supersedes_authorization_id b) \<and> opt_ok EffectId (cb_supersedes_effect_id b) \<and>
     opt_ok Sha256 (cb_supersedes_claim_sha256 b) \<and> Sha256 (cb_binding_sha256 b) \<and>
     opt_ok OpaqueId (cb_execution_profile_id b) \<and> opt_ok Sha256 (cb_execution_profile_sha256 b)"

definition validate_continuation_shape :: "(nat list \<Rightarrow> string) \<Rightarrow> composition_binding \<Rightarrow> unit result" where
  "validate_continuation_shape H b =
     (let continuation = [cb_attempt b \<noteq> None, cb_continuation_delegation_id b \<noteq> None,
            cb_continuation_delegation_sha256 b \<noteq> None, cb_dependency_evidence_sha256 b \<noteq> None];
          predecessor = [cb_supersedes_authorization_id b \<noteq> None, cb_supersedes_effect_id b \<noteq> None,
            cb_supersedes_claim_sha256 b \<noteq> None]
      in if \<not> composition_profile_valid H (cb_execution_profile_id b) (cb_execution_profile_sha256 b)
         then Inl (ValueError ''composition execution profile is unknown or incomplete'')
         else if \<not> list_ex (\<lambda>x. x) continuation then
           (if list_ex (\<lambda>x. x) predecessor
            then Inl (ValueError ''composition binding predecessor requires continuation evidence'') else Inr ())
         else if \<not> list_all (\<lambda>x. x) continuation
         then Inl (ValueError ''composition binding continuation evidence is incomplete'')
         else if cb_attempt b = Some 1 then
           (if list_ex (\<lambda>x. x) predecessor
            then Inl (ValueError ''first composition attempt cannot supersede another claim'') else Inr ())
         else if \<not> list_all (\<lambda>x. x) predecessor
         then Inl (ValueError ''later composition attempt requires a complete predecessor'')
         else Inr ())"

definition composition_binding_dump :: "composition_binding \<Rightarrow> (string \<times> pyval) list" where
  "composition_binding_dump b =
     [(''schema_version'', jstr (cb_schema_version b)), (''binding_type'', jstr (cb_binding_type b)),
      (''executable_plan_id'', jstr (cb_executable_plan_id b)),
      (''executable_plan_sha256'', jstr (cb_executable_plan_sha256 b)), (''step_id'', jstr (cb_step_id b)),
      (''step_binding_sha256'', jstr (cb_step_binding_sha256 b)), (''request_id'', jstr (cb_request_id b)),
      (''run_id'', jstr (cb_run_id b)), (''generation'', PInt (cb_generation b)),
      (''effect_id'', jstr (cb_effect_id b)), (''action_id'', jstr (cb_action_id b)),
      (''action_version'', jstr (cb_action_version b)),
      (''materialized_arguments_sha256'', jstr (cb_materialized_arguments_sha256 b)),
      (''canonical_invocation_sha256'', jstr (cb_canonical_invocation_sha256 b)),
      (''target_sha256'', jstr (cb_target_sha256 b)), (''workspace_id'', jstr (cb_workspace_id b)),
      (''workspace_scope_hash'', jstr (cb_workspace_scope_hash b))] @
     jdump ''target_snapshot_sha256'' (cb_target_snapshot_sha256 b) @ jdump_int ''attempt'' (cb_attempt b) @
     jdump ''continuation_delegation_id'' (cb_continuation_delegation_id b) @
     jdump ''continuation_delegation_sha256'' (cb_continuation_delegation_sha256 b) @
     jdump ''dependency_evidence_sha256'' (cb_dependency_evidence_sha256 b) @
     jdump ''supersedes_authorization_id'' (cb_supersedes_authorization_id b) @
     jdump ''supersedes_effect_id'' (cb_supersedes_effect_id b) @
     jdump ''supersedes_claim_sha256'' (cb_supersedes_claim_sha256 b) @
     jdump ''execution_profile_id'' (cb_execution_profile_id b) @
     jdump ''execution_profile_sha256'' (cb_execution_profile_sha256 b)"

definition binding_has_valid_sha256 :: "(nat list \<Rightarrow> string) \<Rightarrow> composition_binding \<Rightarrow> bool result" where
  "binding_has_valid_sha256 H b = has_valid_sha256 H (composition_binding_dump b) (cb_binding_sha256 b)"

definition CompositionExecutionBindingV1 ::
    "(nat list \<Rightarrow> string) \<Rightarrow> composition_binding \<Rightarrow> composition_binding result" where
  "CompositionExecutionBindingV1 H b =
     (if \<not> composition_binding_fields_ok b then Inl (ValueError ''field constraint'')
      else bind_result (validate_continuation_shape H b) (\<lambda>_. Inr b))"

lemma jdump_keys [simp]:
  "k' \<in> fst ` set (jdump k v) \<longleftrightarrow> k' = k \<and> v \<noteq> None" "distinct (map fst (jdump k v))"
  "k' \<in> fst ` set (jdump_int k i) \<longleftrightarrow> k' = k \<and> i \<noteq> None" "distinct (map fst (jdump_int k i))"
  by (cases v; cases i; auto)+

lemma jdump_mem [simp]:
  "(a, w) \<in> set (jdump k v) \<longleftrightarrow> a = k \<and> (\<exists>s. v = Some s \<and> w = jstr s)"
  "(a, w) \<in> set (jdump_int k i) \<longleftrightarrow> a = k \<and> (\<exists>n. i = Some n \<and> w = PInt n)"
  by (cases v; auto) (cases i; auto)

lemma composition_binding_dump_wf: "py_wf (jobj (composition_binding_dump b))"
proof -
  have "distinct (map fst (composition_binding_dump b))"
    unfolding composition_binding_dump_def distinct_keys_append
    by (simp add: image_Un)
  moreover have "\<forall>(k, v) \<in> set (composition_binding_dump b). py_wf v"
    by (auto simp: composition_binding_dump_def)
  ultimately show ?thesis by simp
qed

interpretation composition_seal: sealed_contract composition_binding_dump cb_binding_sha256
    "\<lambda>h b. b\<lparr>cb_binding_sha256 := h\<rparr>"
proof
  show "composition_binding_dump (b\<lparr>cb_binding_sha256 := h\<rparr>) = composition_binding_dump b" for b h
    by (simp add: composition_binding_dump_def)
qed (simp, rule composition_binding_dump_wf)

section \<open>Action intents\<close>

record resource_envelope =
  re_max_runtime_ms :: int
  re_max_output_bytes :: int
  re_max_tool_calls :: int

definition ResourceEnvelope_ok :: "resource_envelope \<Rightarrow> bool" where
  "ResourceEnvelope_ok r \<longleftrightarrow>
     1 \<le> re_max_runtime_ms r \<and> re_max_runtime_ms r \<le> 3600000 \<and>
     0 \<le> re_max_output_bytes r \<and> re_max_output_bytes r \<le> 2147483648 \<and>
     1 \<le> re_max_tool_calls r \<and> re_max_tool_calls r \<le> 10000"

definition resource_envelope_dump :: "resource_envelope \<Rightarrow> (string \<times> pyval) list" where
  "resource_envelope_dump r =
     [(''max_runtime_ms'', PInt (re_max_runtime_ms r)), (''max_output_bytes'', PInt (re_max_output_bytes r)),
      (''max_tool_calls'', PInt (re_max_tool_calls r))]"

record action_intent =
  ai_schema_version :: string
  ai_intent_id :: string
  ai_source :: string
  ai_life_id :: string
  ai_principal_scope_hash :: string
  ai_conversation_scope_hash :: string
  ai_request_id :: string
  ai_run_id :: string
  ai_generation :: int
  ai_action_id :: string
  ai_action_version :: string
  ai_arguments_sha256 :: string
  ai_workspace_id :: string
  ai_workspace_scope_hash :: string
  ai_input_object_refs :: "string list"
  ai_requested_side_effects :: "string list"
  ai_requested_resources :: resource_envelope
  ai_skill_id :: "string option"
  ai_skill_version :: "string option"
  ai_skill_sha256 :: "string option"
  ai_source_refs :: "source_ref list"
  ai_source_set_sha256 :: string
  ai_canonical_invocation_sha256 :: string
  ai_target_ref :: "string option"
  ai_target_snapshot_sha256 :: "string option"
  ai_life_snapshot_revision :: "int option"
  ai_life_snapshot_sha256 :: "string option"
  ai_payload_sha256 :: string
  ai_attachment_set_sha256 :: string
  ai_composition_execution_binding :: "composition_binding option"
  ai_created_at_ms :: int
  ai_expires_at_ms :: int
  ai_intent_sha256 :: string

definition validate_sorted_unique_source_refs :: "source_ref list \<Rightarrow> source_ref list result" where
  "validate_sorted_unique_source_refs v =
     (let keys = map source_sort_key v
      in if keys \<noteq> sorted_set keys then Inl (ValueError ''set-like policy fields must be sorted and unique'')
         else Inr v)"

definition ActionIntent_fields_ok :: "(nat list \<Rightarrow> string) \<Rightarrow> action_intent \<Rightarrow> bool" where
  "ActionIntent_fields_ok H i \<longleftrightarrow>
     ai_schema_version i \<in> set SCHEMA_VERSIONS \<and> OpaqueId (ai_intent_id i) \<and>
     ai_source i \<in> {''chat'', ''life_scheduler'', ''system''} \<and> OpaqueId (ai_life_id i) \<and>
     Sha256 (ai_principal_scope_hash i) \<and> Sha256 (ai_conversation_scope_hash i) \<and>
     RequestId (ai_request_id i) \<and> RunId (ai_run_id i) \<and> 0 \<le> ai_generation i \<and>
     ActionId (ai_action_id i) \<and> OpaqueId (ai_action_version i) \<and> Sha256 (ai_arguments_sha256 i) \<and>
     OpaqueId (ai_workspace_id i) \<and> Sha256 (ai_workspace_scope_hash i) \<and>
     list_all OpaqueId (ai_input_object_refs i) \<and> length (ai_input_object_refs i) \<le> 256 \<and>
     set_like (ai_input_object_refs i) \<and>
     list_all (\<lambda>e. e \<in> set SideEffectClass) (ai_requested_side_effects i) \<and>
     length (ai_requested_side_effects i) \<le> 6 \<and> set_like (ai_requested_side_effects i) \<and>
     ResourceEnvelope_ok (ai_requested_resources i) \<and> opt_ok OpaqueId (ai_skill_id i) \<and>
     opt_ok OpaqueId (ai_skill_version i) \<and> opt_ok Sha256 (ai_skill_sha256 i) \<and>
     list_all (\<lambda>r. ok (SourceRef r)) (ai_source_refs i) \<and> 1 \<le> length (ai_source_refs i) \<and>
     length (ai_source_refs i) \<le> 1024 \<and> ok (validate_sorted_unique_source_refs (ai_source_refs i)) \<and>
     Sha256 (ai_source_set_sha256 i) \<and> Sha256 (ai_canonical_invocation_sha256 i) \<and>
     opt_ok OpaqueId (ai_target_ref i) \<and> opt_ok Sha256 (ai_target_snapshot_sha256 i) \<and>
     opt_ok (\<lambda>n. 1 \<le> n) (ai_life_snapshot_revision i) \<and> opt_ok Sha256 (ai_life_snapshot_sha256 i) \<and>
     Sha256 (ai_payload_sha256 i) \<and> Sha256 (ai_attachment_set_sha256 i) \<and>
     opt_ok (\<lambda>b. ok (CompositionExecutionBindingV1 H b)) (ai_composition_execution_binding i) \<and>
     0 \<le> ai_created_at_ms i \<and> 0 \<le> ai_expires_at_ms i \<and> Sha256 (ai_intent_sha256 i)"

definition canonical_invocation :: "action_intent \<Rightarrow> (string \<times> pyval) list" where
  "canonical_invocation i =
     [(''action_id'', jstr (ai_action_id i)), (''action_version'', jstr (ai_action_version i)),
      (''payload_sha256'', jstr (ai_payload_sha256 i)), (''target_ref'', jopt (ai_target_ref i)),
      (''workspace_id'', jstr (ai_workspace_id i))]"

definition binding_matches_intent :: "composition_binding \<Rightarrow> action_intent \<Rightarrow> bool" where
  "binding_matches_intent b i \<longleftrightarrow>
     cb_request_id b = ai_request_id i \<and> cb_run_id b = ai_run_id i \<and> cb_generation b = ai_generation i \<and>
     cb_action_id b = ai_action_id i \<and> cb_action_version b = ai_action_version i \<and>
     cb_materialized_arguments_sha256 b = ai_payload_sha256 i \<and>
     cb_canonical_invocation_sha256 b = ai_canonical_invocation_sha256 i \<and>
     cb_target_snapshot_sha256 b = ai_target_snapshot_sha256 i \<and> cb_workspace_id b = ai_workspace_id i \<and>
     cb_workspace_scope_hash b = ai_workspace_scope_hash i"

definition present_count :: "bool list \<Rightarrow> nat" where
  "present_count bs = length (filter (\<lambda>b. b) bs)"

definition validate_scope :: "(nat list \<Rightarrow> string) \<Rightarrow> action_intent \<Rightarrow> unit result" where
  "validate_scope H i =
     (if \<not> (ai_created_at_ms i \<le> ai_expires_at_ms i \<and> ai_expires_at_ms i \<le> ai_created_at_ms i + 60000)
      then Inl (ValueError ''action intent lifetime is invalid'')
      else if present_count [ai_skill_id i \<noteq> None, ai_skill_version i \<noteq> None, ai_skill_sha256 i \<noteq> None] \<notin> {0, 3}
      then Inl (ValueError ''action intent Skill binding is incomplete'')
      else if present_count [ai_life_snapshot_revision i \<noteq> None, ai_life_snapshot_sha256 i \<noteq> None] \<notin> {0, 2}
      then Inl (ValueError ''action intent life snapshot binding is incomplete'')
      else if ai_source i = ''life_scheduler'' \<and> ai_life_snapshot_revision i = None
      then Inl (ValueError ''life scheduler intents must bind a life snapshot'')
      else bind_result (canonical_sha256 H (source_refs_dump (ai_source_refs i))) (\<lambda>source_set.
        if ai_source_set_sha256 i \<noteq> source_set
        then Inl (ValueError ''action intent source set digest is invalid'')
        else bind_result (canonical_sha256 H (jobj (canonical_invocation i))) (\<lambda>invocation.
          if ai_canonical_invocation_sha256 i \<noteq> invocation
          then Inl (ValueError ''action intent canonical invocation digest is invalid'')
          else case ai_composition_execution_binding i of
            None \<Rightarrow> Inr ()
          | Some b \<Rightarrow> bind_result (binding_has_valid_sha256 H b) (\<lambda>valid.
              if \<not> valid then Inl (ValueError ''action intent composition binding digest is invalid'')
              else if \<not> binding_matches_intent b i
              then Inl (ValueError ''action intent composition binding does not match intent scope'')
              else Inr ()))))"

definition ActionIntent :: "(nat list \<Rightarrow> string) \<Rightarrow> action_intent \<Rightarrow> action_intent result" where
  "ActionIntent H i =
     (if \<not> ActionIntent_fields_ok H i then Inl (ValueError ''field constraint'')
      else bind_result (validate_scope H i) (\<lambda>_. Inr i))"

definition source_evidence_refs :: "action_intent \<Rightarrow> string list" where
  "source_evidence_refs i = map sf_object_id (ai_source_refs i)"

definition binding_entry :: "composition_binding option \<Rightarrow> (string \<times> pyval) list" where
  "binding_entry ob = (case ob of None \<Rightarrow> []
     | Some b \<Rightarrow> [(''composition_execution_binding'',
         jobj (composition_binding_dump b @ [(''binding_sha256'', jstr (cb_binding_sha256 b))]))])"

definition intent_dump :: "action_intent \<Rightarrow> (string \<times> pyval) list" where
  "intent_dump i =
     [(''schema_version'', jstr (ai_schema_version i)), (''intent_id'', jstr (ai_intent_id i)),
      (''source'', jstr (ai_source i)), (''life_id'', jstr (ai_life_id i)),
      (''principal_scope_hash'', jstr (ai_principal_scope_hash i)),
      (''conversation_scope_hash'', jstr (ai_conversation_scope_hash i)),
      (''request_id'', jstr (ai_request_id i)), (''run_id'', jstr (ai_run_id i)),
      (''generation'', PInt (ai_generation i)), (''action_id'', jstr (ai_action_id i)),
      (''action_version'', jstr (ai_action_version i)), (''arguments_sha256'', jstr (ai_arguments_sha256 i)),
      (''workspace_id'', jstr (ai_workspace_id i)), (''workspace_scope_hash'', jstr (ai_workspace_scope_hash i)),
      (''input_object_refs'', jstrs (ai_input_object_refs i)),
      (''requested_side_effects'', jstrs (ai_requested_side_effects i)),
      (''requested_resources'', jobj (resource_envelope_dump (ai_requested_resources i))),
      (''skill_id'', jopt (ai_skill_id i)), (''skill_version'', jopt (ai_skill_version i)),
      (''skill_sha256'', jopt (ai_skill_sha256 i)), (''source_refs'', source_refs_dump (ai_source_refs i)),
      (''source_set_sha256'', jstr (ai_source_set_sha256 i)),
      (''canonical_invocation_sha256'', jstr (ai_canonical_invocation_sha256 i)),
      (''target_ref'', jopt (ai_target_ref i)), (''target_snapshot_sha256'', jopt (ai_target_snapshot_sha256 i)),
      (''life_snapshot_revision'', joptint (ai_life_snapshot_revision i)),
      (''life_snapshot_sha256'', jopt (ai_life_snapshot_sha256 i)), (''payload_sha256'', jstr (ai_payload_sha256 i)),
      (''attachment_set_sha256'', jstr (ai_attachment_set_sha256 i)),
      (''created_at_ms'', PInt (ai_created_at_ms i)), (''expires_at_ms'', PInt (ai_expires_at_ms i))] @
     binding_entry (ai_composition_execution_binding i)"

definition intent_has_valid_sha256 :: "(nat list \<Rightarrow> string) \<Rightarrow> action_intent \<Rightarrow> bool result" where
  "intent_has_valid_sha256 H i = has_valid_sha256 H (intent_dump i) (ai_intent_sha256 i)"

section \<open>Action permissions and the registry\<close>

datatype action_effect = Read | Verify | Create | Write | Update | Execute

fun effect_name :: "action_effect \<Rightarrow> string" where
  "effect_name Read = ''read''"
| "effect_name Verify = ''verify''"
| "effect_name Create = ''create''"
| "effect_name Write = ''write''"
| "effect_name Update = ''update''"
| "effect_name Execute = ''execute''"

datatype path_policy = No_path | Workspace_only | Object_grant_only

fun path_policy_name :: "path_policy \<Rightarrow> string" where
  "path_policy_name No_path = ''no_path''"
| "path_policy_name Workspace_only = ''workspace_only''"
| "path_policy_name Object_grant_only = ''object_grant_only''"

record action_permission =
  ap_schema_version :: string
  ap_action_id :: string
  ap_action_version :: string
  ap_registry_risk :: risk_class
  ap_effective_risk :: risk_class
  ap_effect :: action_effect
  ap_handler :: string
  ap_executable :: bool
  ap_allowed_side_effects :: "string list"
  ap_path_policy :: path_policy
  ap_allow_absolute_paths :: bool
  ap_allow_shell :: bool
  ap_allow_python :: bool
  ap_requires_confirmation :: bool
  ap_source_manifest_sha256 :: string
  ap_permission_sha256 :: string

definition ActionPermission_fields_ok :: "action_permission \<Rightarrow> bool" where
  "ActionPermission_fields_ok p \<longleftrightarrow>
     ap_schema_version p \<in> set SCHEMA_VERSIONS \<and> ActionId (ap_action_id p) \<and> OpaqueId (ap_action_version p) \<and>
     length (ap_handler p) \<le> 256 \<and> ap_executable p \<and>
     list_all (\<lambda>e. e \<in> set SideEffectClass) (ap_allowed_side_effects p) \<and>
     length (ap_allowed_side_effects p) \<le> 6 \<and> set_like (ap_allowed_side_effects p) \<and>
     Sha256 (ap_source_manifest_sha256 p) \<and> Sha256 (ap_permission_sha256 p)"

fun effect_floor :: "action_effect \<Rightarrow> risk_class" where
  "effect_floor Read = A0"
| "effect_floor Verify = A0"
| "effect_floor Create = A2"
| "effect_floor Write = A2"
| "effect_floor Update = A3"
| "effect_floor Execute = A3"

definition validate_floor :: "action_permission \<Rightarrow> unit result" where
  "validate_floor p =
     (if ap_effective_risk p < max (ap_registry_risk p) (effect_floor (ap_effect p))
      then Inl (ValueError ''effective action risk is below a machine floor'')
      else if ap_effective_risk p = A5 then Inl (ValueError ''A5 action cannot be executable'')
      else if ap_requires_confirmation p then Inl (ValueError ''A0-A4 permissions must not require confirmation'')
      else if (ap_allow_shell p \<or> ap_allow_python p) \<and> ap_effective_risk p \<noteq> A4
      then Inl (ValueError ''privileged execution must remain classified as A4'')
      else if ''destructive'' \<in> set (ap_allowed_side_effects p) \<and> ap_effective_risk p \<noteq> A4
      then Inl (ValueError ''destructive permission must be A4'')
      else Inr ())"

definition ActionPermission :: "action_permission \<Rightarrow> action_permission result" where
  "ActionPermission p =
     (if \<not> ActionPermission_fields_ok p then Inl (ValueError ''field constraint'')
      else bind_result (validate_floor p) (\<lambda>_. Inr p))"

definition permission_dump :: "action_permission \<Rightarrow> (string \<times> pyval) list" where
  "permission_dump p =
     [(''schema_version'', jstr (ap_schema_version p)), (''action_id'', jstr (ap_action_id p)),
      (''action_version'', jstr (ap_action_version p)), (''registry_risk'', jstr (risk_name (ap_registry_risk p))),
      (''effective_risk'', jstr (risk_name (ap_effective_risk p))), (''effect'', jstr (effect_name (ap_effect p))),
      (''handler'', jstr (ap_handler p)), (''executable'', PBool (ap_executable p)),
      (''allowed_side_effects'', jstrs (ap_allowed_side_effects p)),
      (''path_policy'', jstr (path_policy_name (ap_path_policy p))),
      (''allow_absolute_paths'', PBool (ap_allow_absolute_paths p)), (''allow_shell'', PBool (ap_allow_shell p)),
      (''allow_python'', PBool (ap_allow_python p)), (''requires_confirmation'', PBool (ap_requires_confirmation p)),
      (''source_manifest_sha256'', jstr (ap_source_manifest_sha256 p))]"

definition permission_has_valid_sha256 :: "(nat list \<Rightarrow> string) \<Rightarrow> action_permission \<Rightarrow> bool result" where
  "permission_has_valid_sha256 H p = has_valid_sha256 H (permission_dump p) (ap_permission_sha256 p)"

record action_registry =
  ar_schema_version :: string
  ar_registry_id :: string
  ar_revision :: int
  ar_generated_at_ms :: int
  ar_source_manifest_sha256 :: string
  ar_executable_count :: int
  ar_permissions :: "action_permission list"
  ar_registry_sha256 :: string

definition registry_dump :: "action_registry \<Rightarrow> (string \<times> pyval) list" where
  "registry_dump r =
     [(''schema_version'', jstr (ar_schema_version r)), (''registry_id'', jstr (ar_registry_id r)),
      (''revision'', PInt (ar_revision r)), (''generated_at_ms'', PInt (ar_generated_at_ms r)),
      (''source_manifest_sha256'', jstr (ar_source_manifest_sha256 r)),
      (''executable_count'', PInt (ar_executable_count r)),
      (''permissions'', PSequence (map (\<lambda>p. jobj (permission_dump p @
          [(''permission_sha256'', jstr (ap_permission_sha256 p))])) (ar_permissions r)))]"

definition ActionRegistrySnapshot_fields_ok :: "action_registry \<Rightarrow> bool" where
  "ActionRegistrySnapshot_fields_ok r \<longleftrightarrow>
     ar_schema_version r \<in> set SCHEMA_VERSIONS \<and> OpaqueId (ar_registry_id r) \<and> 1 \<le> ar_revision r \<and>
     0 \<le> ar_generated_at_ms r \<and> Sha256 (ar_source_manifest_sha256 r) \<and> 1 \<le> ar_executable_count r \<and>
     ar_executable_count r \<le> 10000 \<and> list_all (\<lambda>p. ok (ActionPermission p)) (ar_permissions r) \<and>
     1 \<le> length (ar_permissions r) \<and> length (ar_permissions r) \<le> 10000 \<and> Sha256 (ar_registry_sha256 r)"

definition permission_rejected :: "(nat list \<Rightarrow> string) \<Rightarrow> string \<Rightarrow> action_permission \<Rightarrow> bool result" where
  "permission_rejected H manifest p =
     bind_result (permission_has_valid_sha256 H p) (\<lambda>valid.
       Inr (\<not> valid \<or> ap_source_manifest_sha256 p \<noteq> manifest))"

definition validate_permissions :: "(nat list \<Rightarrow> string) \<Rightarrow> action_registry \<Rightarrow> unit result" where
  "validate_permissions H r =
     (let keys = map ap_action_id (ar_permissions r) in
      if keys \<noteq> sorted_set keys \<or> ar_executable_count r \<noteq> int (length keys)
      then Inl (ValueError ''action registry permissions are incomplete or unordered'')
      else bind_result (any_result (permission_rejected H (ar_source_manifest_sha256 r)) (ar_permissions r)) (\<lambda>bad.
        if bad then Inl (ValueError ''action registry contains an invalid permission'') else Inr ()))"

definition ActionRegistrySnapshot :: "(nat list \<Rightarrow> string) \<Rightarrow> action_registry \<Rightarrow> action_registry result" where
  "ActionRegistrySnapshot H r =
     (if \<not> ActionRegistrySnapshot_fields_ok r then Inl (ValueError ''field constraint'')
      else bind_result (validate_permissions H r) (\<lambda>_. Inr r))"

definition registry_has_valid_sha256 :: "(nat list \<Rightarrow> string) \<Rightarrow> action_registry \<Rightarrow> bool result" where
  "registry_has_valid_sha256 H r = has_valid_sha256 H (registry_dump r) (ar_registry_sha256 r)"

definition composition_permission_allowed ::
    "(nat list \<Rightarrow> string) \<Rightarrow> action_permission \<Rightarrow> string option \<Rightarrow> string option \<Rightarrow> bool result" where
  "composition_permission_allowed H p profile_id profile_sha256 =
     bind_result (permission_has_valid_sha256 H p) (\<lambda>valid. Inr (
       if \<not> valid \<or> ap_requires_confirmation p \<or> ap_registry_risk p \<noteq> ap_effective_risk p \<or>
          \<not> composition_authority_allowed H (ap_action_id p) (ap_effective_risk p) (ap_allowed_side_effects p)
             (ap_allow_shell p) (ap_allow_python p) profile_id profile_sha256
       then False
       else if profile_id = None then ap_effect p \<in> {Read, Verify}
       else ap_effect p = (if ap_action_id p \<in> set WORKSPACE_READ_ACTIONS then Read else Write) \<and>
            ap_path_policy p = Workspace_only \<and> ap_allow_absolute_paths p))"

text \<open>A step of a validated plan, as far as \<open>composition_completion_scope\<close> reads it.\<close>

record composition_step =
  cs_permission :: action_permission
  cs_action_id :: string
  cs_execution_profile_id :: "string option"
  cs_execution_profile_sha256 :: "string option"

definition step_rejected :: "(nat list \<Rightarrow> string) \<Rightarrow> composition_step \<Rightarrow> bool result" where
  "step_rejected H s =
     bind_result (composition_permission_allowed H (cs_permission s) (cs_execution_profile_id s)
       (cs_execution_profile_sha256 s)) (\<lambda>allowed. Inr (\<not> allowed))"

definition composition_completion_scope :: "(nat list \<Rightarrow> string) \<Rightarrow> composition_step list \<Rightarrow> string result" where
  "composition_completion_scope H steps =
     bind_result (any_result (step_rejected H) steps) (\<lambda>bad.
       if bad then Inl (ValueError ''composition completion profile is invalid'')
       else if list_ex (\<lambda>s. cs_action_id s = ''python.run'') steps then Inr ''workspace_python_terminal_execution''
       else if list_ex (\<lambda>s. cs_action_id s \<in> set WORKSPACE_WRITE_ACTIONS) steps
       then Inr ''workspace_file_terminal_execution''
       else Inr ''read_only_terminal_execution'')"

section \<open>Confirmation and Skill grants\<close>

record user_confirmation_grant =
  uc_schema_version :: string
  uc_confirmation_id :: string
  uc_decision_id :: string
  uc_impact_sha256 :: string
  uc_action_id :: string
  uc_arguments_sha256 :: string
  uc_workspace_scope_hash :: string
  uc_principal_scope_hash :: string
  uc_risk_class :: risk_class
  uc_confirmer :: string
  uc_nonce :: string
  uc_issued_at_ms :: int
  uc_expires_at_ms :: int
  uc_confirmation_sha256 :: string

definition UserConfirmationGrant :: "user_confirmation_grant \<Rightarrow> user_confirmation_grant result" where
  "UserConfirmationGrant g =
     (if \<not> (uc_schema_version g \<in> set SCHEMA_VERSIONS \<and> OpaqueId (uc_confirmation_id g) \<and>
          OpaqueId (uc_decision_id g) \<and> Sha256 (uc_impact_sha256 g) \<and> ActionId (uc_action_id g) \<and>
          Sha256 (uc_arguments_sha256 g) \<and> Sha256 (uc_workspace_scope_hash g) \<and>
          Sha256 (uc_principal_scope_hash g) \<and> uc_risk_class g = A4 \<and> uc_confirmer g = ''user'' \<and>
          OpaqueId (uc_nonce g) \<and> 0 \<le> uc_issued_at_ms g \<and> 0 \<le> uc_expires_at_ms g \<and>
          Sha256 (uc_confirmation_sha256 g))
      then Inl (ValueError ''field constraint'')
      else if \<not> (uc_issued_at_ms g \<le> uc_expires_at_ms g \<and> uc_expires_at_ms g \<le> uc_issued_at_ms g + 600000)
      then Inl (ValueError ''confirmation grant lifetime is invalid'')
      else Inr g)"

record skill_activation_grant =
  sg_schema_version :: string
  sg_activation_id :: string
  sg_selection_id :: string
  sg_request_id :: string
  sg_run_id :: string
  sg_generation :: int
  sg_principal_scope_hash :: string
  sg_skill_catalog_hash :: string
  sg_capability_manifest_hash :: string
  sg_skill_id :: string
  sg_skill_version :: string
  sg_skill_sha256 :: string
  sg_allowed_action_ids :: "string list"
  sg_issued_at_ms :: int
  sg_expires_at_ms :: int
  sg_activation_sha256 :: string

definition SkillActivationGrant_fields_ok :: "skill_activation_grant \<Rightarrow> bool" where
  "SkillActivationGrant_fields_ok g \<longleftrightarrow>
     sg_schema_version g \<in> set SCHEMA_VERSIONS \<and> OpaqueId (sg_activation_id g) \<and> OpaqueId (sg_selection_id g) \<and>
     RequestId (sg_request_id g) \<and> RunId (sg_run_id g) \<and> 0 \<le> sg_generation g \<and>
     Sha256 (sg_principal_scope_hash g) \<and> Sha256 (sg_skill_catalog_hash g) \<and>
     Sha256 (sg_capability_manifest_hash g) \<and> OpaqueId (sg_skill_id g) \<and> OpaqueId (sg_skill_version g) \<and>
     Sha256 (sg_skill_sha256 g) \<and> list_all ActionId (sg_allowed_action_ids g) \<and>
     1 \<le> length (sg_allowed_action_ids g) \<and> length (sg_allowed_action_ids g) \<le> 4096 \<and>
     set_like (sg_allowed_action_ids g) \<and> 0 \<le> sg_issued_at_ms g \<and> 0 \<le> sg_expires_at_ms g \<and>
     Sha256 (sg_activation_sha256 g)"

definition SkillActivationGrant :: "skill_activation_grant \<Rightarrow> skill_activation_grant result" where
  "SkillActivationGrant g =
     (if \<not> SkillActivationGrant_fields_ok g then Inl (ValueError ''field constraint'')
      else if \<not> (sg_issued_at_ms g \<le> sg_expires_at_ms g \<and> sg_expires_at_ms g \<le> sg_issued_at_ms g + 3600000)
      then Inl (ValueError ''Skill activation lifetime is invalid'')
      else Inr g)"

definition activation_dump :: "skill_activation_grant \<Rightarrow> (string \<times> pyval) list" where
  "activation_dump g =
     [(''schema_version'', jstr (sg_schema_version g)), (''activation_id'', jstr (sg_activation_id g)),
      (''selection_id'', jstr (sg_selection_id g)), (''request_id'', jstr (sg_request_id g)),
      (''run_id'', jstr (sg_run_id g)), (''generation'', PInt (sg_generation g)),
      (''principal_scope_hash'', jstr (sg_principal_scope_hash g)),
      (''skill_catalog_hash'', jstr (sg_skill_catalog_hash g)),
      (''capability_manifest_hash'', jstr (sg_capability_manifest_hash g)), (''skill_id'', jstr (sg_skill_id g)),
      (''skill_version'', jstr (sg_skill_version g)), (''skill_sha256'', jstr (sg_skill_sha256 g)),
      (''allowed_action_ids'', jstrs (sg_allowed_action_ids g)), (''issued_at_ms'', PInt (sg_issued_at_ms g)),
      (''expires_at_ms'', PInt (sg_expires_at_ms g))]"

definition activation_has_valid_sha256 :: "(nat list \<Rightarrow> string) \<Rightarrow> skill_activation_grant \<Rightarrow> bool result" where
  "activation_has_valid_sha256 H g = has_valid_sha256 H (activation_dump g) (sg_activation_sha256 g)"

section \<open>Policy decisions\<close>

datatype policy_outcome = ALLOW | REQUIRE_CONFIRMATION | REJECT

fun outcome_name :: "policy_outcome \<Rightarrow> string" where
  "outcome_name ALLOW = ''ALLOW''"
| "outcome_name REQUIRE_CONFIRMATION = ''REQUIRE_CONFIRMATION''"
| "outcome_name REJECT = ''REJECT''"

record policy_decision =
  pd_schema_version :: string
  pd_decision_id :: string
  pd_intent_sha256 :: string
  pd_impact_id :: string
  pd_impact_sha256 :: string
  pd_action_permission_sha256 :: string
  pd_action_registry_sha256 :: string
  pd_capability_manifest_hash :: string
  pd_component_manifest_hash :: string
  pd_policy_snapshot_sha256 :: string
  pd_policy_coverage_version :: string
  pd_policy_coverage_sha256 :: string
  pd_computed_risk :: risk_class
  pd_outcome :: policy_outcome
  pd_confirmation_id :: "string option"
  pd_confirmation_sha256 :: "string option"
  pd_skill_activation_id :: "string option"
  pd_skill_activation_sha256 :: "string option"
  pd_composition_execution_binding :: "composition_binding option"
  pd_reason_codes :: "string list"
  pd_decided_at_ms :: int
  pd_decision_sha256 :: string

definition PolicyDecision_fields_ok :: "policy_decision \<Rightarrow> bool" where
  "PolicyDecision_fields_ok d \<longleftrightarrow>
     pd_schema_version d \<in> set SCHEMA_VERSIONS \<and> OpaqueId (pd_decision_id d) \<and> Sha256 (pd_intent_sha256 d) \<and>
     OpaqueId (pd_impact_id d) \<and> Sha256 (pd_impact_sha256 d) \<and> Sha256 (pd_action_permission_sha256 d) \<and>
     Sha256 (pd_action_registry_sha256 d) \<and> Sha256 (pd_capability_manifest_hash d) \<and>
     Sha256 (pd_component_manifest_hash d) \<and> Sha256 (pd_policy_snapshot_sha256 d) \<and>
     OpaqueId (pd_policy_coverage_version d) \<and> Sha256 (pd_policy_coverage_sha256 d) \<and>
     opt_ok OpaqueId (pd_confirmation_id d) \<and> opt_ok Sha256 (pd_confirmation_sha256 d) \<and>
     opt_ok OpaqueId (pd_skill_activation_id d) \<and> opt_ok Sha256 (pd_skill_activation_sha256 d) \<and>
     1 \<le> length (pd_reason_codes d) \<and> length (pd_reason_codes d) \<le> 64 \<and> set_like (pd_reason_codes d) \<and>
     0 \<le> pd_decided_at_ms d \<and> Sha256 (pd_decision_sha256 d)"

definition validate_outcome :: "(nat list \<Rightarrow> string) \<Rightarrow> policy_decision \<Rightarrow> unit result" where
  "validate_outcome H d =
     (if present_count [pd_confirmation_id d \<noteq> None, pd_confirmation_sha256 d \<noteq> None] \<notin> {0, 2}
      then Inl (ValueError ''policy confirmation binding is incomplete'')
      else if present_count [pd_skill_activation_id d \<noteq> None, pd_skill_activation_sha256 d \<noteq> None] \<notin> {0, 2}
      then Inl (ValueError ''policy Skill binding is incomplete'')
      else if pd_computed_risk d = A5 \<and> pd_outcome d \<noteq> REJECT
      then Inl (ValueError ''A5 policy decision must reject'')
      else if pd_computed_risk d \<noteq> A5 \<and> pd_outcome d = REQUIRE_CONFIRMATION
      then Inl (ValueError ''A0-A4 policy decisions cannot require confirmation'')
      else if pd_confirmation_id d \<noteq> None
      then Inl (ValueError ''A0-A5 policy decisions do not consume confirmation grants'')
      else case pd_composition_execution_binding d of
        None \<Rightarrow> Inr ()
      | Some b \<Rightarrow> bind_result (binding_has_valid_sha256 H b) (\<lambda>valid.
          if valid then Inr () else Inl (ValueError ''policy composition binding digest is invalid'')))"

definition PolicyDecision :: "(nat list \<Rightarrow> string) \<Rightarrow> policy_decision \<Rightarrow> policy_decision result" where
  "PolicyDecision H d =
     (if \<not> PolicyDecision_fields_ok d then Inl (ValueError ''field constraint'')
      else bind_result (validate_outcome H d) (\<lambda>_. Inr d))"

definition decision_dump :: "policy_decision \<Rightarrow> (string \<times> pyval) list" where
  "decision_dump d =
     [(''schema_version'', jstr (pd_schema_version d)), (''decision_id'', jstr (pd_decision_id d)),
      (''intent_sha256'', jstr (pd_intent_sha256 d)), (''impact_id'', jstr (pd_impact_id d)),
      (''impact_sha256'', jstr (pd_impact_sha256 d)),
      (''action_permission_sha256'', jstr (pd_action_permission_sha256 d)),
      (''action_registry_sha256'', jstr (pd_action_registry_sha256 d)),
      (''capability_manifest_hash'', jstr (pd_capability_manifest_hash d)),
      (''component_manifest_hash'', jstr (pd_component_manifest_hash d)),
      (''policy_snapshot_sha256'', jstr (pd_policy_snapshot_sha256 d)),
      (''policy_coverage_version'', jstr (pd_policy_coverage_version d)),
      (''policy_coverage_sha256'', jstr (pd_policy_coverage_sha256 d)),
      (''computed_risk'', jstr (risk_name (pd_computed_risk d))), (''outcome'', jstr (outcome_name (pd_outcome d))),
      (''confirmation_id'', jopt (pd_confirmation_id d)), (''confirmation_sha256'', jopt (pd_confirmation_sha256 d)),
      (''skill_activation_id'', jopt (pd_skill_activation_id d)),
      (''skill_activation_sha256'', jopt (pd_skill_activation_sha256 d)),
      (''reason_codes'', jstrs (pd_reason_codes d)), (''decided_at_ms'', PInt (pd_decided_at_ms d))] @
     binding_entry (pd_composition_execution_binding d)"

definition decision_with_computed_sha256 :: "(nat list \<Rightarrow> string) \<Rightarrow> policy_decision \<Rightarrow> policy_decision result" where
  "decision_with_computed_sha256 H d =
     bind_result (computed_sha256 H (decision_dump d)) (\<lambda>h. Inr (d\<lparr>pd_decision_sha256 := h\<rparr>))"

definition decision_has_valid_sha256 :: "(nat list \<Rightarrow> string) \<Rightarrow> policy_decision \<Rightarrow> bool result" where
  "decision_has_valid_sha256 H d = has_valid_sha256 H (decision_dump d) (pd_decision_sha256 d)"

section \<open>Action impacts\<close>

definition ViabilityDimensionName :: "string list" where
  "ViabilityDimensionName = [''runtime_availability'', ''recoverability'', ''identity_continuity'',
     ''data_integrity'', ''memory_integrity'', ''context_continuity'', ''resource_headroom'',
     ''cognitive_certainty'', ''trust_and_authorization'', ''commitment_continuity'', ''security_margin'']"

record viability_delta =
  vd_dimension :: string
  vd_delta_milli :: int
  vd_confidence_milli :: int
  vd_causal_hypothesis_ids :: "string list"

definition ViabilityDelta_ok :: "viability_delta \<Rightarrow> bool" where
  "ViabilityDelta_ok d \<longleftrightarrow>
     vd_dimension d \<in> set ViabilityDimensionName \<and> - 1000 \<le> vd_delta_milli d \<and> vd_delta_milli d \<le> 1000 \<and>
     milli (vd_confidence_milli d) \<and>
     list_all (prefixed_sha256 ''chy_'') (vd_causal_hypothesis_ids d) \<and>
     length (vd_causal_hypothesis_ids d) \<le> 256 \<and> set_like (vd_causal_hypothesis_ids d)"

definition viability_delta_dump :: "viability_delta \<Rightarrow> (string \<times> pyval) list" where
  "viability_delta_dump d =
     [(''dimension'', jstr (vd_dimension d)), (''delta_milli'', PInt (vd_delta_milli d)),
      (''confidence_milli'', PInt (vd_confidence_milli d)),
      (''causal_hypothesis_ids'', jstrs (vd_causal_hypothesis_ids d))]"

definition LifeEventId :: "string \<Rightarrow> bool" where
  "LifeEventId s \<longleftrightarrow> prefixed_sha256 ''lev_'' s"

definition LIFE_CONTRACT_SCHEMA_VERSION :: string where
  "LIFE_CONTRACT_SCHEMA_VERSION = ''tiangong.life.contracts.v4''"

record action_impact =
  im_schema_version :: string
  im_impact_id :: string
  im_life_id :: string
  im_action_id :: string
  im_intent_sha256 :: string
  im_dynamic_risk :: risk_class
  im_target_snapshot_sha256 :: "string option"
  im_affected_internal_nodes :: "string list"
  im_touches_identity :: bool
  im_touches_soul :: bool
  im_touches_memory_keys :: bool
  im_touches_policy :: bool
  im_touches_core_code :: bool
  im_workspace_scope_milli :: int
  im_external_recipient_count :: int
  im_credential_scope_milli :: int
  im_privacy_scope_milli :: int
  im_blast_radius_milli :: int
  im_irreversibility_milli :: int
  im_uncertainty_milli :: int
  im_rollback_proof_ref :: "string option"
  im_estimated_resource_cost_milli :: int
  im_predicted_viability_deltas :: "viability_delta list"
  im_source_event_ids :: "string list"
  im_created_at_ms :: int
  im_impact_sha256 :: string

definition ActionImpact_fields_ok :: "action_impact \<Rightarrow> bool" where
  "ActionImpact_fields_ok m \<longleftrightarrow>
     im_schema_version m \<in> {''tiangong.life.contracts.v3'', ''tiangong.life.contracts.v4''} \<and>
     OpaqueId (im_impact_id m) \<and> OpaqueId (im_life_id m) \<and> OpaqueId (im_action_id m) \<and>
     Sha256 (im_intent_sha256 m) \<and> opt_ok Sha256 (im_target_snapshot_sha256 m) \<and>
     list_all OpaqueId (im_affected_internal_nodes m) \<and> length (im_affected_internal_nodes m) \<le> 1024 \<and>
     set_like (im_affected_internal_nodes m) \<and> milli (im_workspace_scope_milli m) \<and>
     0 \<le> im_external_recipient_count m \<and> im_external_recipient_count m \<le> 1000000 \<and>
     milli (im_credential_scope_milli m) \<and> milli (im_privacy_scope_milli m) \<and> milli (im_blast_radius_milli m) \<and>
     milli (im_irreversibility_milli m) \<and> milli (im_uncertainty_milli m) \<and>
     opt_ok OpaqueId (im_rollback_proof_ref m) \<and> milli (im_estimated_resource_cost_milli m) \<and>
     list_all ViabilityDelta_ok (im_predicted_viability_deltas m) \<and>
     length (im_predicted_viability_deltas m) \<le> 64 \<and> set_like (map vd_dimension (im_predicted_viability_deltas m)) \<and>
     list_all LifeEventId (im_source_event_ids m) \<and> 1 \<le> length (im_source_event_ids m) \<and>
     length (im_source_event_ids m) \<le> 1024 \<and> set_like (im_source_event_ids m) \<and>
     0 \<le> im_created_at_ms m \<and> im_created_at_ms m \<le> MAX_SAFE_INTEGER \<and> Sha256 (im_impact_sha256 m)"

definition ActionImpact :: "action_impact \<Rightarrow> action_impact result" where
  "ActionImpact m =
     (if \<not> ActionImpact_fields_ok m then Inl (ValueError ''field constraint'')
      else if im_irreversibility_milli m \<ge> 800 \<and> im_rollback_proof_ref m \<noteq> None
      then Inl (ValueError ''highly irreversible action cannot claim a rollback proof'')
      else Inr m)"

definition impact_dump :: "action_impact \<Rightarrow> (string \<times> pyval) list" where
  "impact_dump m =
     [(''schema_version'', jstr (im_schema_version m)), (''impact_id'', jstr (im_impact_id m)),
      (''life_id'', jstr (im_life_id m)), (''action_id'', jstr (im_action_id m)),
      (''intent_sha256'', jstr (im_intent_sha256 m)), (''dynamic_risk'', jstr (risk_name (im_dynamic_risk m))),
      (''target_snapshot_sha256'', jopt (im_target_snapshot_sha256 m)),
      (''affected_internal_nodes'', jstrs (im_affected_internal_nodes m)),
      (''touches_identity'', PBool (im_touches_identity m)), (''touches_soul'', PBool (im_touches_soul m)),
      (''touches_memory_keys'', PBool (im_touches_memory_keys m)), (''touches_policy'', PBool (im_touches_policy m)),
      (''touches_core_code'', PBool (im_touches_core_code m)),
      (''workspace_scope_milli'', PInt (im_workspace_scope_milli m)),
      (''external_recipient_count'', PInt (im_external_recipient_count m)),
      (''credential_scope_milli'', PInt (im_credential_scope_milli m)),
      (''privacy_scope_milli'', PInt (im_privacy_scope_milli m)),
      (''blast_radius_milli'', PInt (im_blast_radius_milli m)),
      (''irreversibility_milli'', PInt (im_irreversibility_milli m)),
      (''uncertainty_milli'', PInt (im_uncertainty_milli m)), (''rollback_proof_ref'', jopt (im_rollback_proof_ref m)),
      (''estimated_resource_cost_milli'', PInt (im_estimated_resource_cost_milli m)),
      (''predicted_viability_deltas'',
        PSequence (map (\<lambda>d. jobj (viability_delta_dump d)) (im_predicted_viability_deltas m))),
      (''source_event_ids'', jstrs (im_source_event_ids m)), (''created_at_ms'', PInt (im_created_at_ms m))]"

definition impact_has_valid_sha256 :: "(nat list \<Rightarrow> string) \<Rightarrow> action_impact \<Rightarrow> bool result" where
  "impact_has_valid_sha256 H m = has_valid_sha256 H (impact_dump m) (im_impact_sha256 m)"

definition impact_with_computed_sha256 :: "(nat list \<Rightarrow> string) \<Rightarrow> action_impact \<Rightarrow> action_impact result" where
  "impact_with_computed_sha256 H m =
     bind_result (computed_sha256 H (impact_dump m)) (\<lambda>h. Inr (m\<lparr>im_impact_sha256 := h\<rparr>))"

section \<open>The sealed classes\<close>

lemma nested_dump_wf [simp]:
  "py_wf (jobj (source_ref_dump r))" "py_wf (source_refs_dump rs)" "py_wf (jobj (resource_envelope_dump e))"
  "py_wf (PSequence (map (\<lambda>d. jobj (viability_delta_dump d)) ds))"
  by (simp_all add: source_ref_dump_def source_refs_dump_def resource_envelope_dump_def viability_delta_dump_def
      list_all_iff)

lemma binding_entry_wf: "py_wf (jobj (composition_binding_dump b @ [(''binding_sha256'', jstr h)]))"
proof -
  have "''binding_sha256'' \<notin> fst ` set (composition_binding_dump b)"
    unfolding composition_binding_dump_def by (simp add: image_Un)
  with composition_binding_dump_wf [of b] show ?thesis by (auto simp: py_wf_jobj distinct_keys_append)
qed

lemma binding_entry_keys:
  "distinct (map fst (binding_entry ob))" "k \<in> fst ` set (binding_entry ob) \<Longrightarrow> k = ''composition_execution_binding''"
  "(k, v) \<in> set (binding_entry ob) \<Longrightarrow> py_wf v"
  using binding_entry_wf by (auto simp: binding_entry_def simp del: py_wf_jobj split: option.splits)

lemma dump_with_binding_wf:
  assumes "py_wf (jobj fs)" and "''composition_execution_binding'' \<notin> fst ` set fs"
  shows "py_wf (jobj (fs @ binding_entry ob))"
proof -
  from assms(1) have fs: "distinct (map fst fs)" "\<forall>(k, v) \<in> set fs. py_wf v" unfolding py_wf_jobj by simp_all
  have "distinct (map fst (fs @ binding_entry ob))"
    unfolding distinct_keys_append
  proof (intro conjI allI impI)
    fix k assume "k \<in> fst ` set fs"
    then show "k \<notin> fst ` set (binding_entry ob)" using assms(2) binding_entry_keys(2) by metis
  qed (use fs(1) binding_entry_keys(1) in simp_all)
  moreover have "\<forall>(k, v) \<in> set (fs @ binding_entry ob). py_wf v"
    using fs(2) binding_entry_keys(3) by auto
  ultimately show ?thesis unfolding py_wf_jobj by simp
qed

lemma intent_dump_wf: "py_wf (jobj (intent_dump i))"
  unfolding intent_dump_def by (rule dump_with_binding_wf) (simp_all add: resource_envelope_dump_def)

lemma decision_dump_wf: "py_wf (jobj (decision_dump d))"
  unfolding decision_dump_def by (rule dump_with_binding_wf) simp_all

interpretation permission_seal: sealed_contract permission_dump ap_permission_sha256 "\<lambda>h p. p\<lparr>ap_permission_sha256 := h\<rparr>"
  by unfold_locales (simp_all add: permission_dump_def)

interpretation activation_seal: sealed_contract activation_dump sg_activation_sha256 "\<lambda>h g. g\<lparr>sg_activation_sha256 := h\<rparr>"
  by unfold_locales (simp_all add: activation_dump_def)

interpretation intent_seal: sealed_contract intent_dump ai_intent_sha256 "\<lambda>h i. i\<lparr>ai_intent_sha256 := h\<rparr>"
proof
  show "intent_dump (i\<lparr>ai_intent_sha256 := h\<rparr>) = intent_dump i" for i h by (simp add: intent_dump_def)
qed (simp, rule intent_dump_wf)

interpretation decision_seal: sealed_contract decision_dump pd_decision_sha256 "\<lambda>h d. d\<lparr>pd_decision_sha256 := h\<rparr>"
proof
  show "decision_dump (d\<lparr>pd_decision_sha256 := h\<rparr>) = decision_dump d" for d h by (simp add: decision_dump_def)
qed (simp, rule decision_dump_wf)

interpretation impact_seal: sealed_contract impact_dump im_impact_sha256 "\<lambda>h m. m\<lparr>im_impact_sha256 := h\<rparr>"
  by unfold_locales (simp_all add: impact_dump_def viability_delta_dump_def list_all_iff)

lemma effect_name_inj [simp]: "effect_name e = effect_name e' \<longleftrightarrow> e = e'"
  by (cases e; cases e') simp_all

lemma path_policy_name_inj [simp]: "path_policy_name e = path_policy_name e' \<longleftrightarrow> e = e'"
  by (cases e; cases e') simp_all

text \<open>The digest of an action permission covers everything the permission grants.  Two permissions with
  valid digests and the same \<open>permission_sha256\<close> are the same permission, unless SHA-256 collides on their
  two payloads: a decision that records the digest records the risk class, the side effects, the path
  policy and the shell and Python flags it was made with.\<close>

lemma permission_digest_determines_grant:
  assumes "permission_has_valid_sha256 H p = Inr True" "permission_has_valid_sha256 H q = Inr True"
    and "ap_permission_sha256 p = ap_permission_sha256 q"
    and "collision_free H (jobj (permission_dump p)) (jobj (permission_dump q))"
  shows "p = q"
proof -
  have "map (\<lambda>f. canonical_value (snd f)) (permission_dump p) = map (\<lambda>f. canonical_value (snd f)) (permission_dump q)"
    using assms(1,2) unfolding permission_has_valid_sha256_def
    by (rule permission_seal.same_digest_same_fields [OF _ _ assms(3,4)]) (simp add: permission_dump_def)
  with assms(3) show ?thesis
    by (intro action_permission.equality) (simp_all add: permission_dump_def map_JStr_inj)
qed

definition sample_permission :: "risk_class \<Rightarrow> string list \<Rightarrow> action_permission" where
  "sample_permission risk effects =
     \<lparr>ap_schema_version = SCHEMA_VERSION, ap_action_id = ''file.write'', ap_action_version = ''1'',
      ap_registry_risk = risk, ap_effective_risk = risk, ap_effect = Write, ap_handler = ''h'',
      ap_executable = True, ap_allowed_side_effects = effects, ap_path_policy = Workspace_only,
      ap_allow_absolute_paths = True, ap_allow_shell = False, ap_allow_python = False,
      ap_requires_confirmation = False, ap_source_manifest_sha256 = hex64 (CHR ''1''),
      ap_permission_sha256 = hex64 (CHR ''0'')\<rparr>"

lemma permission_representable: "representable (jobj (permission_dump p))"
  by (simp add: permission_dump_def)

lemma permission_computed_sha256: "\<exists>h. computed_sha256 H (permission_dump p) = Inr h"
  unfolding computed_sha256_def using permission_representable [of p] ok_canonical_sha256 by (simp add: ok_iff)

end
