(* ===== verification/Impact.thy ===== *)
theory Impact
  imports Policy_Contracts
begin

text \<open>
  The deterministic evaluation of an action's impact, \<open>src/total_gateway/impact_evaluator.py\<close>:
  \<open>compute_action_impact\<close> recomputes the floors of every impact dimension from the intent and the
  permission, and \<open>risk_from_action_impact\<close> reads the risk class back.  What the caller passes beside the
  intent and the permission is the record \<open>impact_inputs\<close>, with the keyword arguments' defaults in
  \<open>default_inputs\<close>.  The derivation of caller values from argument text and the file system
  (\<open>derive_impact_knobs\<close>, \<open>probe_target_state\<close>) is outside: it only chooses these inputs.
\<close>

definition RISK_MILLI :: "risk_class \<Rightarrow> int result" where
  "RISK_MILLI r = (case r of A0 \<Rightarrow> Inr 0 | A1 \<Rightarrow> Inr 100 | A2 \<Rightarrow> Inr 300 | A3 \<Rightarrow> Inr 500 | A4 \<Rightarrow> Inr 700
     | A5 \<Rightarrow> Inl (KeyError ''A5''))"

definition check_milli :: "int \<Rightarrow> string \<Rightarrow> int result" where
  "check_milli value name =
     (if \<not> (0 \<le> value \<and> value \<le> 1000) then Inl (ValueError (name @ '' must be an integer milli value''))
      else Inr value)"

definition risk_band :: "int \<Rightarrow> risk_class" where
  "risk_band critical =
     (if critical = 0 then A0
      else if critical \<le> 200 then A1
      else if critical \<le> 400 then A2
      else if critical \<le> 600 then A3
      else if critical \<le> 800 then A4
      else A5)"

definition resource_cost :: "action_intent \<Rightarrow> int" where
  "resource_cost i =
     (let resources = ai_requested_resources i in
      max (max (min 1000 (re_max_runtime_ms resources * 1000 div 3600000))
        (min 1000 (re_max_output_bytes resources * 1000 div 2147483648)))
        (min 1000 (re_max_tool_calls resources * 1000 div 10000)))"

record impact_inputs =
  in_affected_internal_nodes :: "string list"
  in_touches_identity :: bool
  in_touches_soul :: bool
  in_touches_memory_keys :: bool
  in_touches_policy :: bool
  in_touches_core_code :: bool
  in_external_recipient_count :: int
  in_credential_scope_milli :: int
  in_privacy_scope_milli :: int
  in_blast_radius_milli :: int
  in_irreversibility_milli :: int
  in_uncertainty_milli :: int
  in_rollback_proof_ref :: "string option"
  in_predicted_viability_deltas :: "viability_delta list"
  in_target_snapshot_sha256 :: "string option"

definition default_inputs :: impact_inputs where
  "default_inputs =
     \<lparr>in_affected_internal_nodes = [], in_touches_identity = False, in_touches_soul = False,
      in_touches_memory_keys = False, in_touches_policy = False, in_touches_core_code = False,
      in_external_recipient_count = 0, in_credential_scope_milli = 0, in_privacy_scope_milli = 0,
      in_blast_radius_milli = 0, in_irreversibility_milli = 0, in_uncertainty_milli = 0,
      in_rollback_proof_ref = None, in_predicted_viability_deltas = [], in_target_snapshot_sha256 = None\<rparr>"

text \<open>The six dimensions and five flags of an impact, and the largest of them as one number.\<close>

record impact_dims =
  di_workspace :: int
  di_credential :: int
  di_privacy :: int
  di_blast :: int
  di_irreversible :: int
  di_uncertainty :: int
  di_recipients :: int
  di_identity :: bool
  di_soul :: bool
  di_memory_keys :: bool
  di_policy :: bool
  di_core_code :: bool

text \<open>The statement \<open>if b: v = max(v, k)\<close>.\<close>

definition raise_if :: "bool \<Rightarrow> int \<Rightarrow> int \<Rightarrow> int" where
  "raise_if b k v = (if b then max v k else v)"

definition critical_value :: "impact_dims \<Rightarrow> int" where
  "critical_value d =
     (let critical = max (max (max (max (max (di_workspace d) (di_credential d)) (di_privacy d)) (di_blast d))
                 (di_irreversible d)) (di_uncertainty d);
          critical = raise_if (di_recipients d \<noteq> 0) 700 critical;
          critical = raise_if (di_core_code d \<or> di_credential d \<noteq> 0) 900 critical
      in if di_identity d \<or> di_soul d \<or> di_memory_keys d \<or> di_policy d then 1000 else critical)"

definition impact_validate_inputs ::
    "(nat list \<Rightarrow> string) \<Rightarrow> action_intent \<Rightarrow> action_permission \<Rightarrow> impact_inputs \<Rightarrow> int \<Rightarrow> unit result" where
  "impact_validate_inputs H i p x created_at_ms =
     bind_result (intent_has_valid_sha256 H i) (\<lambda>vi.
     bind_result (if vi then permission_has_valid_sha256 H p else Inr False) (\<lambda>vp.
       if \<not> vi \<or> \<not> vp then Inl (ValueError ''impact input digest is invalid'')
       else if ai_action_id i \<noteq> ap_action_id p \<or> ai_action_version i \<noteq> ap_action_version p
       then Inl (ValueError ''impact action binding is invalid'')
       else if created_at_ms < ai_created_at_ms i \<or> created_at_ms > ai_expires_at_ms i
       then Inl (ValueError ''impact evaluation is outside the intent lifetime'')
       else if \<not> (0 \<le> in_external_recipient_count x \<and> in_external_recipient_count x \<le> 1000000)
       then Inl (ValueError ''external recipient count is invalid'')
       else if \<not> opt_ok Sha256 (in_target_snapshot_sha256 x)
       then Inl (ValueError ''target snapshot digest is invalid'')
       else if list_ex (\<lambda>v. v = [] \<or> length v > 160) (sorted_set (in_affected_internal_nodes x))
       then Inl (ValueError ''affected internal node identity is invalid'')
       else if sorted_set (filter LifeEventId (source_evidence_refs i)) = []
       then Inl (ValueError ''ActionImpact requires persisted LifeEvent evidence'')
       else bind_result (check_milli (in_credential_scope_milli x) ''credential scope'') (\<lambda>_.
            bind_result (check_milli (in_privacy_scope_milli x) ''privacy scope'') (\<lambda>_.
            bind_result (check_milli (in_blast_radius_milli x) ''blast radius'') (\<lambda>_.
            bind_result (check_milli (in_irreversibility_milli x) ''irreversibility'') (\<lambda>_.
            bind_result (check_milli (in_uncertainty_milli x) ''uncertainty'') (\<lambda>_. Inr ())))))))"

text \<open>The floors, in the order the code raises them.\<close>

definition raise_floors :: "action_permission \<Rightarrow> int \<Rightarrow> impact_inputs \<Rightarrow> impact_dims" where
  "raise_floors p floor x =
     (let effects = set (ap_allowed_side_effects p);
          workspace = raise_if (''local_write'' \<in> effects) 300 0;
          workspace = raise_if (ap_effective_risk p = A3) 500 workspace;
          blast = raise_if (ap_effective_risk p = A4) floor (in_blast_radius_milli x);
          external = (''external_write'' \<in> effects \<or> ''external_send'' \<in> effects);
          blast = raise_if external 700 blast;
          privacy = raise_if external 500 (in_privacy_scope_milli x);
          irreversible = raise_if (''destructive'' \<in> effects) 700 (in_irreversibility_milli x);
          recipients = in_external_recipient_count x;
          blast = raise_if (recipients \<noteq> 0) 700 blast;
          privacy = raise_if (recipients \<noteq> 0) 500 privacy;
          folded_nodes = ascii_lower (join_space (sorted_set (in_affected_internal_nodes x)));
          identity = (in_touches_identity x \<or> contains_text ''identity'' folded_nodes);
          soul = (in_touches_soul x \<or> contains_text ''soul'' folded_nodes);
          memory_keys = (in_touches_memory_keys x \<or> contains_text ''memory_key'' folded_nodes);
          policy = (in_touches_policy x \<or> contains_text ''policy'' folded_nodes);
          core_code = (in_touches_core_code x \<or> contains_text ''core_code'' folded_nodes);
          sovereign = (identity \<or> soul \<or> memory_keys \<or> policy);
          blast = (if sovereign then 1000 else blast);
          irreversible = (if sovereign then 1000 else irreversible);
          blast = raise_if core_code 900 blast;
          uncertainty = raise_if core_code 900 (in_uncertainty_milli x);
          credential = raise_if (in_credential_scope_milli x \<noteq> 0) 900 (in_credential_scope_milli x)
      in \<lparr>di_workspace = workspace, di_credential = credential, di_privacy = privacy, di_blast = blast,
          di_irreversible = irreversible, di_uncertainty = uncertainty, di_recipients = recipients,
          di_identity = identity, di_soul = soul, di_memory_keys = memory_keys, di_policy = policy,
          di_core_code = core_code\<rparr>)"

definition impact_id_fields :: "action_intent \<Rightarrow> action_permission \<Rightarrow> int \<Rightarrow> (string \<times> pyval) list" where
  "impact_id_fields i p created_at_ms =
     [(''intent_sha256'', jstr (ai_intent_sha256 i)), (''permission_sha256'', jstr (ap_permission_sha256 p)),
      (''created_at_ms'', PInt created_at_ms)]"

definition unsigned_impact ::
    "string \<Rightarrow> action_intent \<Rightarrow> impact_inputs \<Rightarrow> impact_dims \<Rightarrow> int \<Rightarrow> action_impact" where
  "unsigned_impact impact_id i x d created_at_ms =
     \<lparr>im_schema_version = LIFE_CONTRACT_SCHEMA_VERSION, im_impact_id = impact_id,
      im_life_id = ai_life_id i, im_action_id = ai_action_id i, im_intent_sha256 = ai_intent_sha256 i,
      im_dynamic_risk = risk_band (critical_value d),
      im_target_snapshot_sha256 = in_target_snapshot_sha256 x,
      im_affected_internal_nodes = sorted_set (in_affected_internal_nodes x),
      im_touches_identity = di_identity d, im_touches_soul = di_soul d,
      im_touches_memory_keys = di_memory_keys d, im_touches_policy = di_policy d,
      im_touches_core_code = di_core_code d, im_workspace_scope_milli = di_workspace d,
      im_external_recipient_count = di_recipients d, im_credential_scope_milli = di_credential d,
      im_privacy_scope_milli = di_privacy d, im_blast_radius_milli = di_blast d,
      im_irreversibility_milli = di_irreversible d, im_uncertainty_milli = di_uncertainty d,
      im_rollback_proof_ref = (if di_irreversible d \<ge> 800 then None else in_rollback_proof_ref x),
      im_estimated_resource_cost_milli = resource_cost i,
      im_predicted_viability_deltas = sort_key vd_dimension (in_predicted_viability_deltas x),
      im_source_event_ids = sorted_set (filter LifeEventId (source_evidence_refs i)),
      im_created_at_ms = created_at_ms, im_impact_sha256 = UNSET_SHA256\<rparr>"

definition compute_action_impact ::
    "(nat list \<Rightarrow> string) \<Rightarrow> action_intent \<Rightarrow> action_permission \<Rightarrow> impact_inputs \<Rightarrow> int \<Rightarrow> action_impact result" where
  "compute_action_impact H i p x created_at_ms =
     bind_result (impact_validate_inputs H i p x created_at_ms) (\<lambda>_.
     bind_result (RISK_MILLI (ap_effective_risk p)) (\<lambda>floor.
     bind_result (canonical_sha256 H (jobj (impact_id_fields i p created_at_ms))) (\<lambda>h.
     bind_result (ActionImpact (unsigned_impact (''impact-'' @ h) i x (raise_floors p floor x) created_at_ms))
       (impact_with_computed_sha256 H))))"

definition dims_of_impact :: "action_impact \<Rightarrow> impact_dims" where
  "dims_of_impact m =
     \<lparr>di_workspace = im_workspace_scope_milli m, di_credential = im_credential_scope_milli m,
      di_privacy = im_privacy_scope_milli m, di_blast = im_blast_radius_milli m,
      di_irreversible = im_irreversibility_milli m, di_uncertainty = im_uncertainty_milli m,
      di_recipients = im_external_recipient_count m, di_identity = im_touches_identity m,
      di_soul = im_touches_soul m, di_memory_keys = im_touches_memory_keys m,
      di_policy = im_touches_policy m, di_core_code = im_touches_core_code m\<rparr>"

definition risk_from_action_impact :: "(nat list \<Rightarrow> string) \<Rightarrow> action_impact \<Rightarrow> risk_class result" where
  "risk_from_action_impact H m =
     bind_result (impact_has_valid_sha256 H m) (\<lambda>valid.
       if \<not> valid then Inl (ValueError ''action impact digest is invalid'')
       else Inr (risk_band (critical_value (dims_of_impact m))))"

section \<open>Floors\<close>

lemma compute_action_impact_Inr:
  assumes "compute_action_impact H i p x t = Inr m"
  obtains floor h h' where "impact_validate_inputs H i p x t = Inr ()" "RISK_MILLI (ap_effective_risk p) = Inr floor"
    and "computed_sha256 H (impact_dump (unsigned_impact (''impact-'' @ h) i x (raise_floors p floor x) t)) = Inr h'"
    and "m = (unsigned_impact (''impact-'' @ h) i x (raise_floors p floor x) t)\<lparr>im_impact_sha256 := h'\<rparr>"
    and "ActionImpact_fields_ok (unsigned_impact (''impact-'' @ h) i x (raise_floors p floor x) t)"
  using assms
  by (auto simp: compute_action_impact_def bind_result_eq_Inr ActionImpact_def impact_with_computed_sha256_def
      split: if_splits)

lemma dims_of_unsigned_impact [simp]:
  "dims_of_impact ((unsigned_impact n i x d t)\<lparr>im_impact_sha256 := h\<rparr>) = d"
  by (simp add: dims_of_impact_def unsigned_impact_def)

lemma impact_validate_inputs_milli:
  assumes "impact_validate_inputs H i p x t = Inr ()"
  shows "milli (in_credential_scope_milli x)" "milli (in_privacy_scope_milli x)" "milli (in_blast_radius_milli x)"
    "milli (in_irreversibility_milli x)" "milli (in_uncertainty_milli x)"
    "ai_created_at_ms i \<le> t" "t \<le> ai_expires_at_ms i"
    "ai_action_id i = ap_action_id p" "ai_action_version i = ap_action_version p"
  using assms
  by (auto simp: impact_validate_inputs_def bind_result_eq_Inr check_milli_def split: if_splits)

lemma risk_band_ge:
  "601 \<le> c \<Longrightarrow> A4 \<le> risk_band c" "801 \<le> c \<Longrightarrow> risk_band c = A5" "401 \<le> c \<Longrightarrow> A3 \<le> risk_band c"
  by (simp_all add: risk_band_def risk_order)

lemma raise_if_ge: "v \<le> raise_if b k v" "b \<Longrightarrow> k \<le> raise_if b k v" "w \<le> v \<Longrightarrow> w \<le> raise_if b k v"
  by (auto simp: raise_if_def)

lemma raise_if_le: "v \<le> m \<Longrightarrow> k \<le> m \<Longrightarrow> raise_if b k v \<le> m"
  by (simp add: raise_if_def)

lemma critical_value_sovereign:
  "di_identity d \<or> di_soul d \<or> di_memory_keys d \<or> di_policy d \<Longrightarrow> critical_value d = 1000"
  by (simp add: critical_value_def Let_def)

lemma critical_value_bounds:
  assumes "di_workspace d \<le> 1000" "di_blast d \<le> 1000" "di_irreversible d \<le> 1000"
  shows "di_workspace d \<le> critical_value d" "di_blast d \<le> critical_value d" "di_irreversible d \<le> critical_value d"
    "di_recipients d \<noteq> 0 \<Longrightarrow> 700 \<le> critical_value d"
    "di_core_code d \<or> di_credential d \<noteq> 0 \<Longrightarrow> 900 \<le> critical_value d"
  using assms
  by (simp_all add: critical_value_def Let_def raise_if_ge(2) raise_if_ge(3))

lemma RISK_MILLI_bounds: "RISK_MILLI r = Inr f \<Longrightarrow> 0 \<le> f \<and> f \<le> 700" "RISK_MILLI A4 = Inr f \<Longrightarrow> f = 700"
  by (auto simp: RISK_MILLI_def split: risk_class.splits)

lemma raise_floors_simps [simp]:
  "di_recipients (raise_floors p f x) = in_external_recipient_count x"
  "di_credential (raise_floors p f x) =
     raise_if (in_credential_scope_milli x \<noteq> 0) 900 (in_credential_scope_milli x)"
  "di_core_code (raise_floors p f x) \<longleftrightarrow> in_touches_core_code x \<or>
     contains_text ''core_code'' (ascii_lower (join_space (sorted_set (in_affected_internal_nodes x))))"
  "di_identity (raise_floors p f x) \<longleftrightarrow> in_touches_identity x \<or>
     contains_text ''identity'' (ascii_lower (join_space (sorted_set (in_affected_internal_nodes x))))"
  "di_soul (raise_floors p f x) \<longleftrightarrow> in_touches_soul x \<or>
     contains_text ''soul'' (ascii_lower (join_space (sorted_set (in_affected_internal_nodes x))))"
  "di_memory_keys (raise_floors p f x) \<longleftrightarrow> in_touches_memory_keys x \<or>
     contains_text ''memory_key'' (ascii_lower (join_space (sorted_set (in_affected_internal_nodes x))))"
  "di_policy (raise_floors p f x) \<longleftrightarrow> in_touches_policy x \<or>
     contains_text ''policy'' (ascii_lower (join_space (sorted_set (in_affected_internal_nodes x))))"
  by (simp_all add: raise_floors_def Let_def)

lemma raise_floors_ge:
  assumes "in_blast_radius_milli x \<le> 1000" "in_irreversibility_milli x \<le> 1000"
  shows "in_credential_scope_milli x \<le> di_credential (raise_floors p f x)"
    "in_privacy_scope_milli x \<le> di_privacy (raise_floors p f x)"
    "in_blast_radius_milli x \<le> di_blast (raise_floors p f x)"
    "in_irreversibility_milli x \<le> di_irreversible (raise_floors p f x)"
    "in_uncertainty_milli x \<le> di_uncertainty (raise_floors p f x)"
  using assms by (simp_all add: raise_floors_def Let_def raise_if_ge)

lemma raise_floors_le:
  assumes "in_blast_radius_milli x \<le> 1000" "in_irreversibility_milli x \<le> 1000" "f \<le> 700"
  shows "di_workspace (raise_floors p f x) \<le> 1000" "di_blast (raise_floors p f x) \<le> 1000"
    "di_irreversible (raise_floors p f x) \<le> 1000"
  using assms by (simp_all add: raise_floors_def Let_def raise_if_le)

lemma raise_floors_permission:
  assumes "f \<le> 700"
  shows "ap_effective_risk p = A3 \<Longrightarrow> 500 \<le> di_workspace (raise_floors p f x)"
    "ap_effective_risk p = A4 \<Longrightarrow> f \<le> di_blast (raise_floors p f x)"
    "''external_write'' \<in> set (ap_allowed_side_effects p) \<or> ''external_send'' \<in> set (ap_allowed_side_effects p) \<Longrightarrow>
       700 \<le> di_blast (raise_floors p f x)"
    "''destructive'' \<in> set (ap_allowed_side_effects p) \<Longrightarrow> 700 \<le> di_irreversible (raise_floors p f x)"
  using assms by (simp_all add: raise_floors_def Let_def raise_if_ge)

lemma compute_action_impact_critical:
  assumes "compute_action_impact H i p x t = Inr m"
  shows "im_dynamic_risk m = risk_band (critical_value (dims_of_impact m))"
    and "impact_has_valid_sha256 H m = Inr True"
    and "im_intent_sha256 m = ai_intent_sha256 i" "im_life_id m = ai_life_id i" "im_action_id m = ai_action_id i"
proof -
  obtain n d h where sealed: "computed_sha256 H (impact_dump (unsigned_impact n i x d t)) = Inr h"
    and m: "m = (unsigned_impact n i x d t)\<lparr>im_impact_sha256 := h\<rparr>"
    using compute_action_impact_Inr [OF assms] by metis
  show "impact_has_valid_sha256 H m = Inr True"
    unfolding m impact_has_valid_sha256_def by (rule impact_seal.sealing_is_valid [OF sealed])
  show "im_dynamic_risk m = risk_band (critical_value (dims_of_impact m))"
    unfolding m dims_of_unsigned_impact by (simp add: unsigned_impact_def)
  show "im_intent_sha256 m = ai_intent_sha256 i" "im_life_id m = ai_life_id i" "im_action_id m = ai_action_id i"
    unfolding m by (simp_all add: unsigned_impact_def)
qed

lemma risk_of_computed_impact:
  "compute_action_impact H i p x t = Inr m \<Longrightarrow> risk_from_action_impact H m = Inr (im_dynamic_risk m)"
  using compute_action_impact_critical(1,2) by (simp add: risk_from_action_impact_def)

text \<open>Inputs that reach the machine's own identity, keys, policy, code or credentials.\<close>

definition sovereign_inputs :: "impact_inputs \<Rightarrow> bool" where
  "sovereign_inputs x \<longleftrightarrow>
     in_touches_identity x \<or> in_touches_soul x \<or> in_touches_memory_keys x \<or> in_touches_policy x \<or>
     in_touches_core_code x \<or> in_credential_scope_milli x \<noteq> 0 \<or>
     (\<exists>w \<in> {''identity'', ''soul'', ''memory_key'', ''policy'', ''core_code''}.
        contains_text w (ascii_lower (join_space (sorted_set (in_affected_internal_nodes x)))))"

lemma sovereign_inputs_A5:
  assumes "compute_action_impact H i p x t = Inr m" and "sovereign_inputs x"
  shows "im_dynamic_risk m = A5"
proof -
  obtain f where f: "dims_of_impact m = raise_floors p f x" "f \<le> 700"
    and x: "in_blast_radius_milli x \<le> 1000" "in_irreversibility_milli x \<le> 1000" "0 \<le> in_credential_scope_milli x"
    using compute_action_impact_Inr [OF assms(1)] RISK_MILLI_bounds(1) impact_validate_inputs_milli(1,3,4)
      dims_of_unsigned_impact by metis
  let ?d = "raise_floors p f x"
  have cred: "in_credential_scope_milli x \<noteq> 0 \<Longrightarrow> di_credential ?d \<noteq> 0"
    using x(3) by (auto simp: raise_if_def)
  have "di_identity ?d \<or> di_soul ?d \<or> di_memory_keys ?d \<or> di_policy ?d \<or> (di_core_code ?d \<or> di_credential ?d \<noteq> 0)"
    using assms(2) cred unfolding sovereign_inputs_def by (auto simp del: raise_floors_simps(2))
  then have "801 \<le> critical_value ?d"
    using critical_value_sovereign [of ?d] critical_value_bounds(5) [OF raise_floors_le [OF x(1,2) f(2)]] by fastforce
  then show ?thesis
    using compute_action_impact_critical(1) [OF assms(1)] by (simp add: f(1) risk_band_ge)
qed

text \<open>
  What the dimensions should be, without an order of the statements: a value raised by rules is the
  largest of the value and the levels whose condition holds.
\<close>

definition raised_to :: "int \<Rightarrow> (bool \<times> int) list \<Rightarrow> int" where
  "raised_to v rules = Max (insert v (snd ` set (filter fst rules)))"

lemma raised_to_simps [simp]:
  "raised_to v [] = v" "raised_to v ((b, k) # rules) = raised_to (raise_if b k v) rules"
proof -
  let ?S = "snd ` set (filter fst rules)"
  show "raised_to v [] = v" by (simp add: raised_to_def)
  have "Max (insert v (insert k A)) = Max (insert (max v k) A)" if "finite A" for A :: "int set"
    using that by (cases "A = {}") (simp_all add: ac_simps)
  from this [of ?S] show "raised_to v ((b, k) # rules) = raised_to (raise_if b k v) rules"
    by (simp add: raised_to_def raise_if_def)
qed

definition names_node :: "impact_inputs \<Rightarrow> string \<Rightarrow> bool" where
  "names_node x w \<longleftrightarrow> contains_text w (ascii_lower (join_space (sorted_set (in_affected_internal_nodes x))))"

definition acts_outside :: "action_permission \<Rightarrow> bool" where
  "acts_outside p \<longleftrightarrow> ''external_write'' \<in> set (ap_allowed_side_effects p) \<or>
     ''external_send'' \<in> set (ap_allowed_side_effects p)"

definition touches_own_core :: "action_impact \<Rightarrow> bool" where
  "touches_own_core m \<longleftrightarrow>
     im_touches_identity m \<or> im_touches_soul m \<or> im_touches_memory_keys m \<or> im_touches_policy m"

definition impact_floors_applied :: "action_permission \<Rightarrow> impact_inputs \<Rightarrow> action_impact \<Rightarrow> bool" where
  "impact_floors_applied p x m \<longleftrightarrow>
     im_external_recipient_count m = in_external_recipient_count x \<and>
     (im_touches_identity m \<longleftrightarrow> in_touches_identity x \<or> names_node x ''identity'') \<and>
     (im_touches_soul m \<longleftrightarrow> in_touches_soul x \<or> names_node x ''soul'') \<and>
     (im_touches_memory_keys m \<longleftrightarrow> in_touches_memory_keys x \<or> names_node x ''memory_key'') \<and>
     (im_touches_policy m \<longleftrightarrow> in_touches_policy x \<or> names_node x ''policy'') \<and>
     (im_touches_core_code m \<longleftrightarrow> in_touches_core_code x \<or> names_node x ''core_code'') \<and>
     im_workspace_scope_milli m =
       raised_to 0 [(''local_write'' \<in> set (ap_allowed_side_effects p), 300), (ap_effective_risk p = A3, 500)] \<and>
     im_credential_scope_milli m =
       raised_to (in_credential_scope_milli x) [(in_credential_scope_milli x \<noteq> 0, 900)] \<and>
     im_privacy_scope_milli m =
       raised_to (in_privacy_scope_milli x) [(acts_outside p, 500), (in_external_recipient_count x \<noteq> 0, 500)] \<and>
     im_blast_radius_milli m =
       raised_to (in_blast_radius_milli x)
         [(ap_effective_risk p = A4, 700), (acts_outside p, 700), (in_external_recipient_count x \<noteq> 0, 700),
          (im_touches_core_code m, 900), (touches_own_core m, 1000)] \<and>
     im_irreversibility_milli m =
       raised_to (in_irreversibility_milli x)
         [(''destructive'' \<in> set (ap_allowed_side_effects p), 700), (touches_own_core m, 1000)] \<and>
     im_uncertainty_milli m = raised_to (in_uncertainty_milli x) [(im_touches_core_code m, 900)] \<and>
     im_rollback_proof_ref m = (if im_irreversibility_milli m < 800 then in_rollback_proof_ref x else None)"

lemma floors_applied:
  assumes "compute_action_impact H i p x t = Inr m"
  shows "impact_floors_applied p x m"
proof -
  obtain f h h' where floor: "RISK_MILLI (ap_effective_risk p) = Inr f"
    and valid: "impact_validate_inputs H i p x t = Inr ()"
    and m: "m = (unsigned_impact (''impact-'' @ h) i x (raise_floors p f x) t)\<lparr>im_impact_sha256 := h'\<rparr>"
    using compute_action_impact_Inr [OF assms] by metis
  have x: "in_blast_radius_milli x \<le> 1000" "in_irreversibility_milli x \<le> 1000"
    using impact_validate_inputs_milli(3,4) [OF valid] by simp_all
  have A4: "raise_if (ap_effective_risk p = A4) f = raise_if (ap_effective_risk p = A4) 700"
    using floor by (cases "ap_effective_risk p = A4") (simp_all add: RISK_MILLI_def raise_if_def fun_eq_iff)
  have d: "dims_of_impact m = raise_floors p f x" unfolding m by (rule dims_of_unsigned_impact)
  have top: "raise_if b k v = (if b then 1000 else v)" if "k = 1000" "v \<le> 1000" for b k v
    using that by (simp add: raise_if_def)
  have le: "raise_if b k v \<le> 1000" if "k \<le> 1000" "v \<le> 1000" for b k v
    using that by (simp add: raise_if_def)
  have swap: "raise_if b k (if c then 1000 else v) = (if c then 1000 else raise_if b k v)" if "k \<le> 1000" for b k c v
    using that by (simp add: raise_if_def)
  have "di_workspace (raise_floors p f x) =
      raised_to 0 [(''local_write'' \<in> set (ap_allowed_side_effects p), 300), (ap_effective_risk p = A3, 500)]"
    "di_credential (raise_floors p f x) = raised_to (in_credential_scope_milli x) [(in_credential_scope_milli x \<noteq> 0, 900)]"
    "di_privacy (raise_floors p f x) =
      raised_to (in_privacy_scope_milli x) [(acts_outside p, 500), (in_external_recipient_count x \<noteq> 0, 500)]"
    "di_uncertainty (raise_floors p f x) = raised_to (in_uncertainty_milli x) [(di_core_code (raise_floors p f x), 900)]"
    by (simp_all add: raise_floors_def Let_def acts_outside_def)
  moreover have "di_blast (raise_floors p f x) = raised_to (in_blast_radius_milli x)
      [(ap_effective_risk p = A4, 700), (acts_outside p, 700), (in_external_recipient_count x \<noteq> 0, 700),
       (di_core_code (raise_floors p f x), 900),
       (di_identity (raise_floors p f x) \<or> di_soul (raise_floors p f x) \<or> di_memory_keys (raise_floors p f x) \<or>
        di_policy (raise_floors p f x), 1000)]"
    unfolding raised_to_simps
    by (subst top) (simp_all add: le x, simp add: raise_floors_def Let_def acts_outside_def swap A4)
  moreover have "di_irreversible (raise_floors p f x) = raised_to (in_irreversibility_milli x)
      [(''destructive'' \<in> set (ap_allowed_side_effects p), 700),
       (di_identity (raise_floors p f x) \<or> di_soul (raise_floors p f x) \<or> di_memory_keys (raise_floors p f x) \<or>
        di_policy (raise_floors p f x), 1000)]"
    unfolding raised_to_simps
    by (subst top) (simp_all add: le x, simp add: raise_floors_def Let_def)
  moreover have "im_rollback_proof_ref m = (if im_irreversibility_milli m < 800 then in_rollback_proof_ref x else None)"
    unfolding m by (simp add: unsigned_impact_def)
  moreover have dims: "im_workspace_scope_milli m = di_workspace (raise_floors p f x)"
    "im_credential_scope_milli m = di_credential (raise_floors p f x)"
    "im_privacy_scope_milli m = di_privacy (raise_floors p f x)" "im_blast_radius_milli m = di_blast (raise_floors p f x)"
    "im_irreversibility_milli m = di_irreversible (raise_floors p f x)"
    "im_uncertainty_milli m = di_uncertainty (raise_floors p f x)"
    "im_external_recipient_count m = di_recipients (raise_floors p f x)"
    "im_touches_identity m = di_identity (raise_floors p f x)" "im_touches_soul m = di_soul (raise_floors p f x)"
    "im_touches_memory_keys m = di_memory_keys (raise_floors p f x)" "im_touches_policy m = di_policy (raise_floors p f x)"
    "im_touches_core_code m = di_core_code (raise_floors p f x)"
    unfolding d [symmetric] by (simp_all add: dims_of_impact_def)
  ultimately show ?thesis
    unfolding impact_floors_applied_def touches_own_core_def
    by (simp only: raise_floors_simps(1,3-7) names_node_def)
qed

text \<open>C8: An impact never understates the risk.  Whatever the caller passes, the impact
  \<open>compute_action_impact\<close> returns is sealed by its digest and bound to the intent; reading its risk back
  gives exactly the class it records.  Every dimension is the largest of the caller's value and the floors
  that apply: local writes and class A3 on the workspace, outside effects and recipients on privacy and
  blast radius, class A4 on the blast radius, destruction on irreversibility, a credential, core code and
  the machine's own identity, soul, memory keys and policy on theirs; so no dimension is below the caller's
  value, and a rollback proof is dropped from 800 on.  A permission of class A3 or A4 yields at least that
  class; writing or sending outside, destroying, or reaching an external recipient yields at least A4; and
  touching identity, soul, memory keys, policy, core code or a credential yields A5.\<close>

theorem impact_never_understates_risk:
  assumes "compute_action_impact H i p x t = Inr m"
  shows "impact_has_valid_sha256 H m = Inr True \<and> im_intent_sha256 m = ai_intent_sha256 i \<and>
     risk_from_action_impact H m = Inr (im_dynamic_risk m) \<and> impact_floors_applied p x m \<and>
     in_credential_scope_milli x \<le> im_credential_scope_milli m \<and>
     in_privacy_scope_milli x \<le> im_privacy_scope_milli m \<and>
     in_blast_radius_milli x \<le> im_blast_radius_milli m \<and>
     in_irreversibility_milli x \<le> im_irreversibility_milli m \<and>
     in_uncertainty_milli x \<le> im_uncertainty_milli m \<and>
     (ap_effective_risk p \<in> {A3, A4} \<longrightarrow> ap_effective_risk p \<le> im_dynamic_risk m) \<and>
     (set (ap_allowed_side_effects p) \<inter> {''external_write'', ''external_send'', ''destructive''} \<noteq> {} \<or>
        in_external_recipient_count x \<noteq> 0 \<longrightarrow> A4 \<le> im_dynamic_risk m) \<and>
     (sovereign_inputs x \<longrightarrow> im_dynamic_risk m = A5)"
proof -
  obtain f where f: "dims_of_impact m = raise_floors p f x" "RISK_MILLI (ap_effective_risk p) = Inr f"
    and x: "in_blast_radius_milli x \<le> 1000" "in_irreversibility_milli x \<le> 1000"
    using compute_action_impact_Inr [OF assms] impact_validate_inputs_milli(3,4) dims_of_unsigned_impact by metis
  let ?d = "raise_floors p f x"
  have f700: "f \<le> 700" using RISK_MILLI_bounds(1) [OF f(2)] by simp
  note le = raise_floors_le [OF x f700, of p] and ge = raise_floors_ge [OF x, of p f]
    and floors = raise_floors_permission [OF f700, of p x]
  note crit = critical_value_bounds [OF le]
  have risk: "im_dynamic_risk m = risk_band (critical_value ?d)"
    using compute_action_impact_critical(1) [OF assms] f(1) by simp
  have dims: "im_credential_scope_milli m = di_credential ?d" "im_privacy_scope_milli m = di_privacy ?d"
    "im_blast_radius_milli m = di_blast ?d" "im_irreversibility_milli m = di_irreversible ?d"
    "im_uncertainty_milli m = di_uncertainty ?d"
    unfolding f(1) [symmetric] by (simp_all add: dims_of_impact_def)
  have a3: "ap_effective_risk p = A3 \<Longrightarrow> A3 \<le> im_dynamic_risk m"
    unfolding risk using floors(1) crit(1) by (intro risk_band_ge(3)) linarith
  have a4: "ap_effective_risk p = A4 \<Longrightarrow> A4 \<le> im_dynamic_risk m"
    unfolding risk using floors(2) crit(2) RISK_MILLI_bounds(2) f(2) by (intro risk_band_ge(1)) fastforce
  have out: "A4 \<le> im_dynamic_risk m"
    if "set (ap_allowed_side_effects p) \<inter> {''external_write'', ''external_send'', ''destructive''} \<noteq> {} \<or>
        in_external_recipient_count x \<noteq> 0"
  proof -
    have "700 \<le> critical_value ?d"
      using that floors(3,4) crit(2,3,4) by fastforce
    then show ?thesis unfolding risk by (intro risk_band_ge(1)) simp
  qed
  show ?thesis
    using compute_action_impact_critical [OF assms] risk_of_computed_impact [OF assms] floors_applied [OF assms] ge a3 a4 out
      sovereign_inputs_A5 [OF assms]
    by (auto simp: dims simp del: raise_floors_simps)
qed

section \<open>A concrete impact\<close>

lemma zero_hash_seal: "representable (jobj dump) \<Longrightarrow> has_valid_sha256 zero_hash dump (hex64 (CHR ''0'')) = Inr True"
  by (simp add: has_valid_sha256_def computed_sha256_def canonical_sha256_zero_hash del: representable_jobj)

definition sample_source :: "string \<Rightarrow> source_ref" where
  "sample_source kind = \<lparr>sf_source_type = kind, sf_object_id = ''lev_'' @ hex64 (CHR ''0''), sf_object_revision = 1,
     sf_sha256 = hex64 (CHR ''1''), sf_span_start = None, sf_span_end = None\<rparr>"

definition sample_intent :: action_intent where
  "sample_intent =
     \<lparr>ai_schema_version = SCHEMA_VERSION, ai_intent_id = ''intent1'', ai_source = ''chat'', ai_life_id = ''life1'',
      ai_principal_scope_hash = hex64 (CHR ''0''), ai_conversation_scope_hash = hex64 (CHR ''0''),
      ai_request_id = ''req_'' @ hex64 (CHR ''0''), ai_run_id = ''run_'' @ hex64 (CHR ''0''), ai_generation = 0,
      ai_action_id = ''file.write'', ai_action_version = ''1'', ai_arguments_sha256 = hex64 (CHR ''0''),
      ai_workspace_id = ''ws'', ai_workspace_scope_hash = hex64 (CHR ''0''), ai_input_object_refs = [],
      ai_requested_side_effects = [''local_write''],
      ai_requested_resources = \<lparr>re_max_runtime_ms = 1000, re_max_output_bytes = 1000, re_max_tool_calls = 1\<rparr>,
      ai_skill_id = None, ai_skill_version = None, ai_skill_sha256 = None,
      ai_source_refs = [sample_source ''CURRENT_USER_INSTRUCTION''], ai_source_set_sha256 = hex64 (CHR ''0''),
      ai_canonical_invocation_sha256 = hex64 (CHR ''0''), ai_target_ref = None, ai_target_snapshot_sha256 = None,
      ai_life_snapshot_revision = None, ai_life_snapshot_sha256 = None, ai_payload_sha256 = hex64 (CHR ''0''),
      ai_attachment_set_sha256 = hex64 (CHR ''0''), ai_composition_execution_binding = None,
      ai_created_at_ms = 1000, ai_expires_at_ms = 2000, ai_intent_sha256 = hex64 (CHR ''0'')\<rparr>"

lemma sample_intent_sealed: "intent_has_valid_sha256 zero_hash sample_intent = Inr True"
proof -
  have "representable (jobj (intent_dump sample_intent))"
    by (simp add: intent_dump_def sample_intent_def sample_source_def source_refs_dump_def source_ref_dump_def
        resource_envelope_dump_def binding_entry_def MAX_SAFE_INTEGER_def)
  from zero_hash_seal [OF this] show ?thesis
    by (simp add: intent_has_valid_sha256_def sample_intent_def)
qed

lemma sample_permission_sealed: "permission_has_valid_sha256 zero_hash (sample_permission risk effects) = Inr True"
  using zero_hash_seal [OF permission_representable] by (simp add: permission_has_valid_sha256_def sample_permission_def)

definition sample_inputs :: "bool \<Rightarrow> impact_inputs" where
  "sample_inputs touches_policy = default_inputs\<lparr>in_touches_policy := touches_policy, in_uncertainty_milli := 100\<rparr>"

abbreviation sample_unsigned :: "bool \<Rightarrow> action_impact" where
  "sample_unsigned b \<equiv> unsigned_impact (''impact-'' @ hex64 (CHR ''0'')) sample_intent (sample_inputs b)
     (raise_floors (sample_permission A3 [''local_write'']) 500 (sample_inputs b)) 1500"

lemma sample_inputs_validated:
  "impact_validate_inputs zero_hash sample_intent (sample_permission A3 [''local_write'']) (sample_inputs b) 1500 = Inr ()"
proof -
  have "LifeEventId (''lev_'' @ hex64 (CHR ''0''))"
    by (simp add: LifeEventId_def prefixed_sha256_def Sha256_hex64 is_hex_def is_digit_def)
  then have "filter LifeEventId (source_evidence_refs sample_intent) = [''lev_'' @ hex64 (CHR ''0'')]"
    by (simp add: source_evidence_refs_def sample_intent_def sample_source_def)
  then show ?thesis
    unfolding impact_validate_inputs_def sample_intent_sealed sample_permission_sealed
    by (simp add: sample_inputs_def default_inputs_def check_milli_def sorted_set_def)
      (simp add: sample_intent_def sample_permission_def)
qed

lemma Sha256_zeros: "Sha256 (hex64 (CHR ''0''))"
  by (rule Sha256_hex64) code_simp

lemma sample_impact_fields: "ActionImpact_fields_ok (sample_unsigned b)"
proof -
  have lev: "LifeEventId (''lev_'' @ hex64 (CHR ''0''))"
    by (simp add: LifeEventId_def prefixed_sha256_def Sha256_zeros)
  have ids: "OpaqueId (''impact-'' @ hex64 (CHR ''0''))" "OpaqueId ''life1''" "OpaqueId ''file.write''" by code_simp+
  show ?thesis
    by (cases b)
      (simp_all add: ActionImpact_fields_ok_def unsigned_impact_def sample_intent_def sample_source_def sample_inputs_def
        default_inputs_def sample_permission_def raise_floors_def Let_def raise_if_def resource_cost_def
        source_evidence_refs_def LIFE_CONTRACT_SCHEMA_VERSION_def ids [simplified] lev [simplified] Sha256_zeros ascii_lower_def set_like_def sorted_set_def
        MAX_SAFE_INTEGER_def UNSET_SHA256_def)
qed

lemma impact_representable:
  "ActionImpact_fields_ok m \<Longrightarrow> im_predicted_viability_deltas m = [] \<Longrightarrow> representable (jobj (impact_dump m))"
  by (simp add: impact_dump_def ActionImpact_fields_ok_def MAX_SAFE_INTEGER_def)

lemma sample_impact_id:
  "canonical_sha256 zero_hash (jobj (impact_id_fields i p 1500)) = Inr (hex64 (CHR ''0''))"
  by (rule canonical_sha256_zero_hash) (simp add: impact_id_fields_def MAX_SAFE_INTEGER_def)

lemma sample_impact:
  "compute_action_impact zero_hash sample_intent (sample_permission A3 [''local_write'']) (sample_inputs b) 1500 =
     Inr ((sample_unsigned b)\<lparr>im_impact_sha256 := hex64 (CHR ''0'')\<rparr>)"
proof -
  have risk: "RISK_MILLI (ap_effective_risk (sample_permission A3 [''local_write''])) = Inr 500"
    by (simp add: RISK_MILLI_def sample_permission_def)
  have "im_predicted_viability_deltas (sample_unsigned b) = []"
    by (simp add: unsigned_impact_def sample_inputs_def default_inputs_def)
  then have digest: "computed_sha256 zero_hash (impact_dump (sample_unsigned b)) = Inr (hex64 (CHR ''0''))"
    unfolding computed_sha256_def
    by (intro canonical_sha256_zero_hash impact_representable [OF sample_impact_fields]) simp
  have "im_rollback_proof_ref (sample_unsigned b) = None"
    by (simp add: unsigned_impact_def sample_inputs_def default_inputs_def)
  then have "ActionImpact (sample_unsigned b) = Inr (sample_unsigned b)"
    using sample_impact_fields [of b] by (simp add: ActionImpact_def)
  then show ?thesis
    unfolding compute_action_impact_def sample_inputs_validated risk sample_impact_id bind_result_Inr
    by (simp only: impact_with_computed_sha256_def digest bind_result_Inr)
qed

theorem impact_never_understates_risk_witness:
  "sovereign_inputs (sample_inputs True) \<and>
   im_dynamic_risk ((sample_unsigned True)\<lparr>im_impact_sha256 := hex64 (CHR ''0'')\<rparr>) = A5"
proof
  show sov: "sovereign_inputs (sample_inputs True)" by (simp add: sovereign_inputs_def sample_inputs_def)
  from impact_never_understates_risk [OF sample_impact [of True]] sov
  show "im_dynamic_risk ((sample_unsigned True)\<lparr>im_impact_sha256 := hex64 (CHR ''0'')\<rparr>) = A5" by blast
qed

end
