(* ===== verification/Policy_Engine.thy ===== *)
theory Policy_Engine
  imports Impact
begin

text \<open>
  The authority that turns an action intent into a decision, \<open>src/total_gateway/policy_engine.py\<close>:
  normalisation and validation of provenance references, the decision identifier, the constructor of
  \<open>PolicyEngine\<close> and \<open>PolicyEngine.evaluate\<close>.  \<open>PolicyEngineError\<close> is a \<open>ValueError\<close> and is written so.  The
  decision under construction is the pair of \<open>outcome\<close> (\<open>None\<close> while undecided) and the reason codes
  collected so far; the steps of \<open>evaluate\<close> are one definition each, in the order of the code, and
  \<open>evaluate\<close> composes them.
\<close>

section \<open>Provenance\<close>

definition UNTRUSTED_SOURCE_TYPES :: "string list" where
  "UNTRUSTED_SOURCE_TYPES = [''EXTERNAL_DATA'', ''TOOL_DATA'']"

definition AUTHORIZATION_SOURCE_TYPES :: "string list" where
  "AUTHORIZATION_SOURCE_TYPES = [''CURRENT_USER_INSTRUCTION'', ''PREAUTHORIZED_USER_FACT'', ''AUTHENTICATED_DIRECTORY'']"

text \<open>
  An element of the iterable of references: a \<open>SourceRef\<close> object, a mapping (\<open>None\<close> when it does not have
  the fields of a \<open>SourceRef\<close> with their types), or something else.
\<close>

datatype ref_item = Ref source_ref | Ref_mapping "source_ref option" | Ref_other

definition normalize_item :: "ref_item \<Rightarrow> source_ref result" where
  "normalize_item item =
     (case item of
        Ref r \<Rightarrow> Inr r
      | Ref_mapping (Some r) \<Rightarrow>
          (case SourceRef r of Inr r' \<Rightarrow> Inr r' | Inl _ \<Rightarrow> Inl (ValueError ''policy.source_ref_invalid''))
      | Ref_mapping None \<Rightarrow> Inl (ValueError ''policy.source_ref_invalid'')
      | Ref_other \<Rightarrow> Inl (ValueError ''policy.source_ref_invalid''))"

definition unique_refs :: "source_ref list \<Rightarrow> source_ref list" where
  "unique_refs refs = dict_values source_sort_key refs"

definition normalize_source_refs :: "ref_item list \<Rightarrow> source_ref list result" where
  "normalize_source_refs refs =
     bind_result (map_result normalize_item refs) (\<lambda>normalized. Inr (unique_refs normalized))"

fun first_untrusted :: "source_ref list \<Rightarrow> string option" where
  "first_untrusted [] = None"
| "first_untrusted (r # rs) =
     (if sf_source_type r \<in> set UNTRUSTED_SOURCE_TYPES then Some (sf_source_type r) else first_untrusted rs)"

definition validate_authorization_source_refs :: "ref_item list \<Rightarrow> source_ref list result" where
  "validate_authorization_source_refs refs =
     bind_result (normalize_source_refs refs) (\<lambda>normalized.
       case first_untrusted normalized of
         None \<Rightarrow> Inr normalized
       | Some t \<Rightarrow> Inl (ValueError (''policy.provenance_elevation:'' @ t)))"

section \<open>The engine\<close>

record policy_engine =
  pe_registry :: action_registry
  pe_policy_snapshot_sha256 :: string
  pe_skill_catalog_hash :: string
  pe_capability_manifest_hash :: string
  pe_component_manifest_hash :: string

definition PolicyEngine :: "(nat list \<Rightarrow> string) \<Rightarrow> policy_engine \<Rightarrow> policy_engine result" where
  "PolicyEngine H e =
     bind_result (registry_has_valid_sha256 H (pe_registry e)) (\<lambda>valid.
       if \<not> valid \<or>
          list_ex (\<lambda>value. length value \<noteq> 64)
            [pe_policy_snapshot_sha256 e, pe_skill_catalog_hash e, pe_capability_manifest_hash e,
             pe_component_manifest_hash e]
       then Inl (ValueError ''policy authority inputs are invalid'')
       else Inr e)"

definition decision_id_fields ::
    "action_intent \<Rightarrow> action_impact \<Rightarrow> action_registry \<Rightarrow> string \<Rightarrow> (string \<times> pyval) list" where
  "decision_id_fields i m r snapshot =
     [(''intent_sha256'', jstr (ai_intent_sha256 i)), (''impact_sha256'', jstr (im_impact_sha256 m)),
      (''registry_sha256'', jstr (ar_registry_sha256 r)), (''policy_snapshot_sha256'', jstr snapshot)]"

definition derive_policy_decision_id ::
    "(nat list \<Rightarrow> string) \<Rightarrow> action_intent \<Rightarrow> action_impact \<Rightarrow> action_registry \<Rightarrow> string \<Rightarrow> string result" where
  "derive_policy_decision_id H i m r snapshot =
     bind_result (canonical_sha256 H (jobj (decision_id_fields i m r snapshot))) (\<lambda>h.
       Inr (''policy-decision-'' @ h))"

definition find_permission :: "action_registry \<Rightarrow> action_intent \<Rightarrow> action_permission option" where
  "find_permission r i =
     find (\<lambda>p. ap_action_id p = ai_action_id i \<and> ap_action_version p = ai_action_version i) (ar_permissions r)"

type_synonym draft = "policy_outcome option \<times> string list"

text \<open>The checks before any risk is computed; the result is the permission of the action.\<close>

definition admit ::
    "(nat list \<Rightarrow> string) \<Rightarrow> policy_engine \<Rightarrow> action_intent \<Rightarrow> action_impact \<Rightarrow> int \<Rightarrow> action_permission result" where
  "admit H e i m decided_at_ms =
     bind_result (intent_has_valid_sha256 H i) (\<lambda>vi.
     bind_result (if vi then impact_has_valid_sha256 H m else Inr False) (\<lambda>vm.
       if \<not> vi \<or> \<not> vm then Inl (ValueError ''policy evidence digest is invalid'')
       else if \<not> (ai_created_at_ms i \<le> decided_at_ms \<and> decided_at_ms \<le> ai_expires_at_ms i)
       then Inl (ValueError ''policy decision is outside intent lifetime'')
       else if im_life_id m \<noteq> ai_life_id i \<or> im_action_id m \<noteq> ai_action_id i
       then Inl (ValueError ''policy impact binding is invalid'')
       else case find_permission (pe_registry e) i of
         None \<Rightarrow> Inl (ValueError ''policy action is not in the executable registry'')
       | Some p \<Rightarrow> bind_result (permission_has_valid_sha256 H p) (\<lambda>vp.
           if \<not> vp then Inl (ValueError ''policy action is not in the executable registry'')
           else if \<not> set (ai_requested_side_effects i) \<subseteq> set (ap_allowed_side_effects p)
           then Inl (ValueError ''policy requested side effects exceed the action permission'')
           else Inr p)))"

definition check_binding ::
    "(nat list \<Rightarrow> string) \<Rightarrow> action_intent \<Rightarrow> composition_binding option \<Rightarrow> draft \<Rightarrow> draft result" where
  "check_binding H i expected = (\<lambda>(outcome, reasons).
     case ai_composition_execution_binding i of
       Some b \<Rightarrow>
         (case expected of
            None \<Rightarrow> Inr (Some REJECT, ''policy.composition_binding_untrusted'' # reasons)
          | Some x \<Rightarrow>
              bind_result (binding_has_valid_sha256 H b) (\<lambda>vb.
              bind_result (if vb then binding_has_valid_sha256 H x else Inr False) (\<lambda>vx.
                if \<not> vb \<or> \<not> vx \<or> b \<noteq> x \<or> \<not> binding_matches_intent b i
                then Inr (Some REJECT, ''policy.composition_binding_mismatch'' # reasons)
                else Inr (outcome, ''policy.composition_binding_bound'' # reasons))))
     | None \<Rightarrow>
         (case expected of
            None \<Rightarrow> Inr (outcome, reasons)
          | Some _ \<Rightarrow> Inr (Some REJECT, ''policy.composition_binding_missing'' # reasons)))"

definition check_ceiling ::
    "(nat list \<Rightarrow> string) \<Rightarrow> action_intent \<Rightarrow> action_permission \<Rightarrow> risk_class \<Rightarrow>
      user_confirmation_grant option \<Rightarrow> composition_binding option \<Rightarrow> draft \<Rightarrow> draft result" where
  "check_ceiling H i p computed_risk confirmation expected = (\<lambda>(outcome, reasons).
     case expected of
       None \<Rightarrow> Inr (outcome, reasons)
     | Some x \<Rightarrow>
         bind_result (composition_permission_allowed H p (cb_execution_profile_id x) (cb_execution_profile_sha256 x))
           (\<lambda>allowed.
             if \<not> allowed \<or> computed_risk \<noteq> ap_effective_risk p \<or>
                \<not> set (ai_requested_side_effects i) \<subseteq> set (ap_allowed_side_effects p) \<or> confirmation \<noteq> None
             then Inr (Some REJECT, ''policy.composition_a0_ceiling_exceeded'' # reasons)
             else Inr (outcome, reasons)))"

definition check_provenance :: "ref_item list option \<Rightarrow> draft \<Rightarrow> draft result" where
  "check_provenance refs = (\<lambda>(outcome, reasons).
     case refs of
       None \<Rightarrow> Inr (outcome, reasons)
     | Some items \<Rightarrow>
         bind_result (normalize_source_refs items) (\<lambda>bound_refs.
           if list_ex (\<lambda>r. sf_source_type r \<in> set UNTRUSTED_SOURCE_TYPES) bound_refs
           then Inr (Some REJECT, ''policy.provenance_elevation'' # reasons)
           else Inr (outcome, ''policy.provenance_sources_bound'' # reasons)))"

definition decide_risk :: "risk_class \<Rightarrow> user_confirmation_grant option \<Rightarrow> draft \<Rightarrow> (policy_outcome \<times> string list) result" where
  "decide_risk computed_risk confirmation = (\<lambda>(outcome, reasons).
     if computed_risk = A5 then Inr (REJECT, ''policy.a5_forbidden'' # reasons)
     else case outcome of
       Some out \<Rightarrow> Inr (out, reasons)
     | None \<Rightarrow>
         if confirmation \<noteq> None then Inl (ValueError ''A0-A4 execution does not consume confirmation grants'')
         else Inr (ALLOW, ''policy.within_autonomous_ceiling'' # reasons))"

definition activation_bound :: "policy_engine \<Rightarrow> action_intent \<Rightarrow> int \<Rightarrow> skill_activation_grant \<Rightarrow> bool" where
  "activation_bound e i decided_at_ms g \<longleftrightarrow>
     sg_request_id g = ai_request_id i \<and> sg_run_id g = ai_run_id i \<and> sg_generation g = ai_generation i \<and>
     sg_principal_scope_hash g = ai_principal_scope_hash i \<and>
     sg_skill_catalog_hash g = pe_skill_catalog_hash e \<and>
     sg_capability_manifest_hash g = pe_capability_manifest_hash e \<and>
     Some (sg_skill_id g) = ai_skill_id i \<and> Some (sg_skill_version g) = ai_skill_version i \<and>
     Some (sg_skill_sha256 g) = ai_skill_sha256 i \<and> ai_action_id i \<in> set (sg_allowed_action_ids g) \<and>
     sg_issued_at_ms g \<le> decided_at_ms \<and> decided_at_ms \<le> sg_expires_at_ms g"

text \<open>The Skill step yields the outcome, the reasons and the activation that is bound, if any.\<close>

definition check_skill ::
    "(nat list \<Rightarrow> string) \<Rightarrow> policy_engine \<Rightarrow> action_intent \<Rightarrow> int \<Rightarrow> skill_activation_grant option \<Rightarrow>
      policy_outcome \<times> string list \<Rightarrow> (policy_outcome \<times> string list \<times> skill_activation_grant option) result" where
  "check_skill H e i decided_at_ms activation = (\<lambda>(outcome, reasons).
     case ai_skill_id i of
       Some _ \<Rightarrow>
         bind_result (case activation of None \<Rightarrow> Inr False | Some g \<Rightarrow> activation_has_valid_sha256 H g) (\<lambda>valid.
           case activation of
             Some g \<Rightarrow>
               if valid \<and> activation_bound e i decided_at_ms g
               then Inr (outcome, ''policy.skill_activation_bound'' # reasons, Some g)
               else Inr (REJECT, ''policy.skill_activation_missing_or_invalid'' # reasons, None)
           | None \<Rightarrow> Inr (REJECT, ''policy.skill_activation_missing_or_invalid'' # reasons, None))
     | None \<Rightarrow>
         if activation \<noteq> None then Inl (ValueError ''unskilled action cannot consume a Skill activation'')
         else Inr (outcome, reasons, None))"

definition draft_decision ::
    "policy_engine \<Rightarrow> action_intent \<Rightarrow> action_impact \<Rightarrow> action_permission \<Rightarrow> string \<Rightarrow> risk_class \<Rightarrow> int \<Rightarrow>
      policy_outcome \<times> string list \<times> skill_activation_grant option \<Rightarrow> policy_decision" where
  "draft_decision e i m p decision_id computed_risk decided_at_ms = (\<lambda>(outcome, reasons, activation).
     \<lparr>pd_schema_version = SCHEMA_VERSION, pd_decision_id = decision_id,
      pd_intent_sha256 = ai_intent_sha256 i, pd_impact_id = im_impact_id m, pd_impact_sha256 = im_impact_sha256 m,
      pd_action_permission_sha256 = ap_permission_sha256 p,
      pd_action_registry_sha256 = ar_registry_sha256 (pe_registry e),
      pd_capability_manifest_hash = pe_capability_manifest_hash e,
      pd_component_manifest_hash = pe_component_manifest_hash e,
      pd_policy_snapshot_sha256 = pe_policy_snapshot_sha256 e,
      pd_policy_coverage_version = ''unspecified'', pd_policy_coverage_sha256 = UNSET_SHA256,
      pd_computed_risk = computed_risk, pd_outcome = outcome,
      pd_confirmation_id = None, pd_confirmation_sha256 = None,
      pd_skill_activation_id = map_option sg_activation_id activation,
      pd_skill_activation_sha256 = map_option sg_activation_sha256 activation,
      pd_composition_execution_binding = ai_composition_execution_binding i,
      pd_reason_codes = sorted_set reasons, pd_decided_at_ms = decided_at_ms,
      pd_decision_sha256 = hex64 (CHR ''0'')\<rparr>)"

definition evaluate ::
    "(nat list \<Rightarrow> string) \<Rightarrow> policy_engine \<Rightarrow> action_intent \<Rightarrow> action_impact \<Rightarrow> int \<Rightarrow>
      user_confirmation_grant option \<Rightarrow> skill_activation_grant option \<Rightarrow> ref_item list option \<Rightarrow>
      composition_binding option \<Rightarrow> policy_decision result" where
  "evaluate H e i m decided_at_ms confirmation activation source_refs expected =
     bind_result (admit H e i m decided_at_ms) (\<lambda>p.
     bind_result (risk_from_action_impact H m) (\<lambda>impact_risk.
     bind_result (derive_policy_decision_id H i m (pe_registry e) (pe_policy_snapshot_sha256 e)) (\<lambda>decision_id.
       let computed_risk = max (ap_effective_risk p) impact_risk in
       bind_result (check_binding H i expected (None, [''policy.machine_risk_recomputed''])) (\<lambda>d1.
       bind_result (check_ceiling H i p computed_risk confirmation expected d1) (\<lambda>d2.
       bind_result (check_provenance source_refs d2) (\<lambda>d3.
       bind_result (decide_risk computed_risk confirmation d3) (\<lambda>d4.
       bind_result (check_skill H e i decided_at_ms activation d4) (\<lambda>d5.
       bind_result (PolicyDecision H (draft_decision e i m p decision_id computed_risk decided_at_ms d5))
         (decision_with_computed_sha256 H)))))))))"

section \<open>Normalised provenance\<close>

lemma SourceRef_Inr: "SourceRef r = Inr r' \<Longrightarrow> r' = r"
  by (auto simp: SourceRef_def split: if_splits option.splits)

lemma source_sort_key_inj:
  assumes "ok (SourceRef r)" "ok (SourceRef s)" "source_sort_key r = source_sort_key s"
  shows "r = s"
proof -
  have "opt_ok (\<lambda>i. 0 \<le> i) (sf_span_start r)" "opt_ok (\<lambda>i. 0 \<le> i) (sf_span_end r)"
    "opt_ok (\<lambda>i. 0 \<le> i) (sf_span_start s)" "opt_ok (\<lambda>i. 0 \<le> i) (sf_span_end s)"
    using assms(1,2) by (auto simp: SourceRef_def SourceRef_fields_ok_def split: if_splits)
  then have "sf_span_start r = sf_span_start s" "sf_span_end r = sf_span_end s"
    using assms(3) by (auto simp: source_sort_key_def span_or_minus_one_def split: option.splits)
  with assms(3) show ?thesis by (simp add: source_sort_key_def)
qed

lemma normalize_items_Ref [simp]: "map_result normalize_item (map Ref rs) = Inr rs"
  by (induction rs) (simp_all add: normalize_item_def)

text \<open>Provenance is normalised canonically.  The references a policy decision binds are strictly ordered
  by their sort key, hence free of duplicates; normalising them again changes nothing; and when the
  references are valid no reference is lost or invented, so two lists with the same references normalise to
  the same tuple, whatever their order and multiplicity.\<close>

lemma provenance_normal_form:
  assumes "map_result normalize_item items = Inr refs"
    and "normalize_source_refs items = Inr rs"
    and "\<forall>r \<in> set refs. ok (SourceRef r)"
  shows "sorted_wrt (<) (map source_sort_key rs) \<and> normalize_source_refs (map Ref rs) = Inr rs \<and>
     set rs = set refs \<and>
     (\<forall>refs'. set refs' = set refs \<longrightarrow> normalize_source_refs (map Ref refs') = Inr rs)"
proof -
  have rs: "rs = dict_values source_sort_key refs"
    using assms(1,2) by (simp add: normalize_source_refs_def unique_refs_def)
  have inj: "inj_on source_sort_key (set refs)"
    using assms(3) by (intro inj_onI source_sort_key_inj) auto
  have strict: "sorted_wrt (<) (map source_sort_key rs)"
    unfolding rs dict_values_keys by (rule sorted_set_strict)
  moreover have "dict_values source_sort_key rs = rs"
    using strict by (intro dict_values_fixpoint) (simp_all add: strict_sorted_iff)
  moreover have "set rs = set refs" unfolding rs by (rule dict_values_set [OF inj])
  moreover have "dict_values source_sort_key refs' = rs" if "set refs' = set refs" for refs'
    unfolding rs by (rule dict_values_cong_set [OF that inj])
  ultimately show ?thesis
    unfolding normalize_source_refs_def unique_refs_def normalize_items_Ref bind_result_Inr by blast
qed

lemma sample_source_ok: "kind \<in> set SourceType \<Longrightarrow> ok (SourceRef (sample_source kind))"
proof -
  have "OpaqueId (''lev_'' @ hex64 (CHR ''0''))" by code_simp
  moreover have "Sha256 (hex64 (CHR ''1''))" by (rule Sha256_hex64) code_simp
  ultimately show "kind \<in> set SourceType \<Longrightarrow> ok (SourceRef (sample_source kind))"
    by (simp add: SourceRef_def SourceRef_fields_ok_def sample_source_def)
qed

section \<open>What a decision promises\<close>

text \<open>
  The specification of ALLOW, without the order of the checks: the risk is below A5, no confirmation grant
  is presented, a composition binding is carried exactly when one is expected, is the expected one, sealed,
  about this intent and within its profile, the provenance presented is trusted, and a Skill is used with a
  sealed activation for this very request.
\<close>

definition authorizes ::
    "(nat list \<Rightarrow> string) \<Rightarrow> policy_engine \<Rightarrow> action_intent \<Rightarrow> action_permission \<Rightarrow> risk_class \<Rightarrow> int \<Rightarrow>
      user_confirmation_grant option \<Rightarrow> skill_activation_grant option \<Rightarrow> ref_item list option \<Rightarrow>
      composition_binding option \<Rightarrow> bool" where
  "authorizes H e i p risk t confirmation activation source_refs expected \<longleftrightarrow>
     risk < A5 \<and> confirmation = None \<and>
     ai_composition_execution_binding i = expected \<and>
     (case expected of None \<Rightarrow> True
      | Some b \<Rightarrow> binding_has_valid_sha256 H b = Inr True \<and> binding_matches_intent b i \<and>
          composition_permission_allowed H p (cb_execution_profile_id b) (cb_execution_profile_sha256 b) = Inr True \<and>
          risk = ap_effective_risk p) \<and>
     (case source_refs of None \<Rightarrow> True
      | Some items \<Rightarrow> (case normalize_source_refs items of Inl _ \<Rightarrow> False
          | Inr rs \<Rightarrow> list_all (\<lambda>r. sf_source_type r \<notin> set UNTRUSTED_SOURCE_TYPES) rs)) \<and>
     (case ai_skill_id i of None \<Rightarrow> activation = None
      | Some _ \<Rightarrow> (case activation of None \<Rightarrow> False
          | Some g \<Rightarrow> activation_has_valid_sha256 H g = Inr True \<and> activation_bound e i t g))"

text \<open>Every check either leaves the outcome as it is or rejects.\<close>

lemma check_binding_outcome:
  assumes "check_binding H i expected (outcome, reasons) = Inr d"
  shows "fst d = outcome \<or> fst d = Some REJECT" and "set reasons \<subseteq> set (snd d)"
    and "outcome = None \<Longrightarrow> fst d = None \<longleftrightarrow> ai_composition_execution_binding i = expected \<and>
      (case expected of None \<Rightarrow> True | Some b \<Rightarrow> binding_has_valid_sha256 H b = Inr True \<and> binding_matches_intent b i)"
  using assms
  by (auto simp: check_binding_def bind_result_eq_Inr split: option.splits if_splits)

lemma check_ceiling_outcome:
  assumes "check_ceiling H i p risk confirmation expected (outcome, reasons) = Inr d"
    and "set (ai_requested_side_effects i) \<subseteq> set (ap_allowed_side_effects p)"
  shows "fst d = outcome \<or> fst d = Some REJECT" and "set reasons \<subseteq> set (snd d)"
    and "outcome = None \<Longrightarrow> fst d = None \<longleftrightarrow>
      (case expected of None \<Rightarrow> True | Some b \<Rightarrow>
         composition_permission_allowed H p (cb_execution_profile_id b) (cb_execution_profile_sha256 b) = Inr True \<and>
         risk = ap_effective_risk p \<and> confirmation = None)"
  using assms
  by (auto simp: check_ceiling_def bind_result_eq_Inr split: option.splits if_splits)

lemma check_provenance_outcome:
  assumes "check_provenance source_refs (outcome, reasons) = Inr d"
  shows "fst d = outcome \<or> fst d = Some REJECT" and "set reasons \<subseteq> set (snd d)"
    and "outcome = None \<Longrightarrow> fst d = None \<longleftrightarrow>
      (case source_refs of None \<Rightarrow> True
       | Some items \<Rightarrow> (case normalize_source_refs items of Inl _ \<Rightarrow> False
           | Inr rs \<Rightarrow> list_all (\<lambda>r. sf_source_type r \<notin> set UNTRUSTED_SOURCE_TYPES) rs))"
  using assms
  by (auto simp: check_provenance_def bind_result_eq_Inr list_all_iff list_ex_iff split: option.splits if_splits sum.splits)

lemma decide_risk_outcome:
  assumes "decide_risk risk confirmation (outcome, reasons) = Inr d" and "outcome = None \<or> outcome = Some REJECT"
  shows "fst d \<in> {ALLOW, REJECT}" and "set reasons \<subseteq> set (snd d)"
    and "fst d = ALLOW \<longleftrightarrow> outcome = None \<and> risk < A5 \<and> confirmation = None"
    and "risk = A5 \<Longrightarrow> fst d = REJECT \<and> ''policy.a5_forbidden'' \<in> set (snd d)"
proof -
  have "risk < A5 \<longleftrightarrow> risk \<noteq> A5" by (metis risk_le_A5 le_neq_trans less_irrefl)
  then show "fst d \<in> {ALLOW, REJECT}" "set reasons \<subseteq> set (snd d)"
    "fst d = ALLOW \<longleftrightarrow> outcome = None \<and> risk < A5 \<and> confirmation = None"
    "risk = A5 \<Longrightarrow> fst d = REJECT \<and> ''policy.a5_forbidden'' \<in> set (snd d)"
    using assms by (auto simp: decide_risk_def split: if_splits option.splits)
qed

lemma check_skill_outcome:
  assumes "check_skill H e i t activation (outcome, reasons) = Inr d"
  shows "fst d = outcome \<or> fst d = REJECT" and "set reasons \<subseteq> set (fst (snd d))"
    and "outcome = ALLOW \<Longrightarrow> fst d = ALLOW \<longleftrightarrow>
      (case ai_skill_id i of None \<Rightarrow> activation = None
       | Some _ \<Rightarrow> (case activation of None \<Rightarrow> False
           | Some g \<Rightarrow> activation_has_valid_sha256 H g = Inr True \<and> activation_bound e i t g))"
  using assms
  by (auto simp: check_skill_def bind_result_eq_Inr split: option.splits if_splits)

lemma outcome_stays:
  assumes "out' = out \<or> out' = rejected" "out = good \<Longrightarrow> out' = good \<longleftrightarrow> Q" "rejected \<noteq> good"
  shows "out' = good \<longleftrightarrow> out = good \<and> Q"
  using assms by metis

lemma admit_Inr:
  assumes "admit H e i m t = Inr p"
  shows "intent_has_valid_sha256 H i = Inr True" "impact_has_valid_sha256 H m = Inr True"
    "ai_created_at_ms i \<le> t" "t \<le> ai_expires_at_ms i" "im_life_id m = ai_life_id i" "im_action_id m = ai_action_id i"
    "find_permission (pe_registry e) i = Some p" "permission_has_valid_sha256 H p = Inr True"
    "set (ai_requested_side_effects i) \<subseteq> set (ap_allowed_side_effects p)"
  using assms by (auto simp: admit_def bind_result_eq_Inr split: if_splits option.splits)

lemma evaluate_Inr:
  assumes "evaluate H e i m t confirmation activation source_refs expected = Inr d"
  obtains p r n d1 d2 d3 d4 d5 h where "admit H e i m t = Inr p" "risk_from_action_impact H m = Inr r"
    "check_binding H i expected (None, [''policy.machine_risk_recomputed'']) = Inr d1"
    "check_ceiling H i p (max (ap_effective_risk p) r) confirmation expected d1 = Inr d2"
    "check_provenance source_refs d2 = Inr d3"
    "decide_risk (max (ap_effective_risk p) r) confirmation d3 = Inr d4"
    "check_skill H e i t activation d4 = Inr d5"
    "derive_policy_decision_id H i m (pe_registry e) (pe_policy_snapshot_sha256 e) = Inr n"
    "computed_sha256 H (decision_dump (draft_decision e i m p n (max (ap_effective_risk p) r) t d5)) = Inr h"
    "d = (draft_decision e i m p n (max (ap_effective_risk p) r) t d5)\<lparr>pd_decision_sha256 := h\<rparr>"
  using assms
  by (auto simp: evaluate_def Let_def bind_result_eq_Inr PolicyDecision_def decision_with_computed_sha256_def
      split: if_splits)

lemma evaluate_outcome:
  assumes "evaluate H e i m t confirmation activation source_refs expected = Inr d"
    and "admit H e i m t = Inr p" and "risk_from_action_impact H m = Inr r"
  shows "pd_computed_risk d = max (ap_effective_risk p) r" and "pd_outcome d \<in> {ALLOW, REJECT}"
    and "pd_outcome d = ALLOW \<longleftrightarrow>
      authorizes H e i p (max (ap_effective_risk p) r) t confirmation activation source_refs expected"
    and "max (ap_effective_risk p) r = A5 \<Longrightarrow> ''policy.a5_forbidden'' \<in> set (pd_reason_codes d)"
    and "decision_has_valid_sha256 H d = Inr True"
    and "pd_intent_sha256 d = ai_intent_sha256 i" "pd_impact_sha256 d = im_impact_sha256 m"
      "pd_action_permission_sha256 d = ap_permission_sha256 p"
proof -
  let ?risk = "max (ap_effective_risk p) r"
  obtain n d1 d2 d3 d4 d5 h where step:
    "check_binding H i expected (None, [''policy.machine_risk_recomputed'']) = Inr d1"
    "check_ceiling H i p ?risk confirmation expected d1 = Inr d2" "check_provenance source_refs d2 = Inr d3"
    "decide_risk ?risk confirmation d3 = Inr d4" "check_skill H e i t activation d4 = Inr d5"
    and sealed: "computed_sha256 H (decision_dump (draft_decision e i m p n ?risk t d5)) = Inr h"
    and d: "d = (draft_decision e i m p n ?risk t d5)\<lparr>pd_decision_sha256 := h\<rparr>"
    using evaluate_Inr [OF assms(1)] assms(2,3) by (metis sum.inject(2))
  have out: "pd_outcome d = fst d5" "pd_reason_codes d = sorted_set (fst (snd d5))"
    by (cases d5; simp add: d draft_decision_def)+
  note eff = admit_Inr(9) [OF assms(2)]
  note s1 = check_binding_outcome [OF step(1)]
    and s2 = check_ceiling_outcome [of H i p ?risk confirmation expected "fst d1" "snd d1" d2, unfolded prod.collapse, OF step(2) eff]
    and s3 = check_provenance_outcome [of source_refs "fst d2" "snd d2" d3, unfolded prod.collapse, OF step(3)]
  have f3: "fst d3 = None \<or> fst d3 = Some REJECT" using s1(1) s2(1) s3(1) by metis
  note s4 = decide_risk_outcome [of ?risk confirmation "fst d3" "snd d3" d4, unfolded prod.collapse, OF step(4) f3]
    and s5 = check_skill_outcome [of H e i t activation "fst d4" "snd d4" d5, unfolded prod.collapse, OF step(5)]
  show "pd_computed_risk d = ?risk" "pd_intent_sha256 d = ai_intent_sha256 i" "pd_impact_sha256 d = im_impact_sha256 m"
      "pd_action_permission_sha256 d = ap_permission_sha256 p"
    by (cases d5; simp add: d draft_decision_def)+
  show "pd_outcome d \<in> {ALLOW, REJECT}" unfolding out using s4(1) s5(1) by auto
  show "''policy.a5_forbidden'' \<in> set (pd_reason_codes d)" if "?risk = A5"
    unfolding out using s4(4) [OF that] s5(2) by auto
  show "decision_has_valid_sha256 H d = Inr True"
    unfolding d decision_has_valid_sha256_def by (rule decision_seal.sealing_is_valid [OF sealed])
  have a5: "fst d5 = ALLOW \<longleftrightarrow> fst d4 = ALLOW \<and>
      (case ai_skill_id i of None \<Rightarrow> activation = None
       | Some _ \<Rightarrow> (case activation of None \<Rightarrow> False
           | Some g \<Rightarrow> activation_has_valid_sha256 H g = Inr True \<and> activation_bound e i t g))"
    by (rule outcome_stays [OF s5(1,3) policy_outcome.distinct(4)])
  have a3: "fst d3 = None \<longleftrightarrow> fst d2 = None \<and>
      (case source_refs of None \<Rightarrow> True
       | Some items \<Rightarrow> (case normalize_source_refs items of Inl _ \<Rightarrow> False
           | Inr rs \<Rightarrow> list_all (\<lambda>r. sf_source_type r \<notin> set UNTRUSTED_SOURCE_TYPES) rs))"
    by (rule outcome_stays [OF s3(1,3)]) simp_all
  have a2: "fst d2 = None \<longleftrightarrow> fst d1 = None \<and>
      (case expected of None \<Rightarrow> True | Some b \<Rightarrow>
         composition_permission_allowed H p (cb_execution_profile_id b) (cb_execution_profile_sha256 b) = Inr True \<and>
         ?risk = ap_effective_risk p \<and> confirmation = None)"
    by (rule outcome_stays [OF s2(1,3)]) simp_all
  show "pd_outcome d = ALLOW \<longleftrightarrow> authorizes H e i p ?risk t confirmation activation source_refs expected"
    unfolding out authorizes_def a5 s4(3) a3 a2 s1(3) [OF refl] by (cases expected; simp only: option.case; blast)
qed

text \<open>C1: The policy engine implements its specification.  Whenever \<open>evaluate\<close> returns a decision, the
  decision is sealed, is about this intent and impact, names a sealed permission of the registry that
  covers every requested side effect, was made within the lifetime of the intent, records as risk the larger
  of the permission's class and the impact's class, and is ALLOW exactly when the specification \<open>authorizes\<close>
  holds, REJECT otherwise (never a request for confirmation).\<close>

theorem policy_engine_refines_specification:
  assumes "evaluate H e i m t confirmation activation source_refs expected = Inr d"
  shows "\<exists>p r. find_permission (pe_registry e) i = Some p \<and> permission_has_valid_sha256 H p = Inr True \<and>
     set (ai_requested_side_effects i) \<subseteq> set (ap_allowed_side_effects p) \<and>
     ai_created_at_ms i \<le> t \<and> t \<le> ai_expires_at_ms i \<and>
     risk_from_action_impact H m = Inr r \<and> pd_computed_risk d = max (ap_effective_risk p) r \<and>
     decision_has_valid_sha256 H d = Inr True \<and> pd_intent_sha256 d = ai_intent_sha256 i \<and>
     pd_impact_sha256 d = im_impact_sha256 m \<and> pd_action_permission_sha256 d = ap_permission_sha256 p \<and>
     pd_outcome d = (if authorizes H e i p (pd_computed_risk d) t confirmation activation source_refs expected
                     then ALLOW else REJECT)"
proof -
  obtain p r where p: "admit H e i m t = Inr p" and r: "risk_from_action_impact H m = Inr r"
    using evaluate_Inr [OF assms] by metis
  note ev = evaluate_outcome [OF assms p r]
  have "pd_outcome d = (if authorizes H e i p (pd_computed_risk d) t confirmation activation source_refs expected
      then ALLOW else REJECT)"
    using ev(1,2,3) by (simp only: if_split) blast
  with admit_Inr [OF p] ev(1,5-8) r show ?thesis by blast
qed

section \<open>Every well-formed intent gets a decision\<close>

lemma hex_opaque: "is_hex c \<Longrightarrow> is_lower c \<or> is_digit c"
proof -
  have "CHR ''f'' \<le> CHR ''z''" by code_simp
  then show "is_hex c \<Longrightarrow> is_lower c \<or> is_digit c"
    unfolding is_hex_def is_lower_def by (metis order_trans)
qed

lemma decision_id_opaque: "Sha256 h \<Longrightarrow> OpaqueId (''policy-decision-'' @ h)"
proof -
  have head: "match_head_tail (\<lambda>c. is_upper c \<or> is_lower c \<or> is_digit c)
      (\<lambda>c. is_upper c \<or> is_lower c \<or> is_digit c \<or> c \<in> set ''._:@-'') ''policy-decision-''" by code_simp
  assume "Sha256 h"
  then have "length h = 64" "list_all (\<lambda>c. is_upper c \<or> is_lower c \<or> is_digit c \<or> c \<in> set ''._:@-'') h"
    using hex_opaque by (auto simp: Sha256_def list_all_iff)
  with head show "OpaqueId (''policy-decision-'' @ h)" by (simp add: OpaqueId_def)
qed

lemma reasons_grow:
  "check_binding H i expected (out, rs) = Inr (out', rs') \<Longrightarrow> length rs' \<le> length rs + 1"
  "check_ceiling H i p risk confirmation expected (out, rs) = Inr (out', rs') \<Longrightarrow> length rs' \<le> length rs + 1"
  "check_provenance refs (out, rs) = Inr (out', rs') \<Longrightarrow> length rs' \<le> length rs + 1"
  "decide_risk risk confirmation (out, rs) = Inr (res, rs') \<Longrightarrow> length rs' \<le> length rs + 1"
  "check_skill H e i t activation (res, rs) = Inr (res', rs', g) \<Longrightarrow> length rs' \<le> length rs + 1"
  by (auto simp: check_binding_def check_ceiling_def check_provenance_def decide_risk_def check_skill_def
      bind_result_eq_Inr split: option.splits if_splits)

lemma ok_permission_sealed: "ok (permission_has_valid_sha256 H p)"
  using permission_computed_sha256 [of H p] by (auto simp: permission_has_valid_sha256_def has_valid_sha256_def)

lemma ok_check_ceiling: "ok (check_ceiling H i p risk confirmation expected d)"
  using ok_permission_sealed [of H p]
  by (auto simp: check_ceiling_def composition_permission_allowed_def ok_iff split: option.splits prod.splits)

lemma ok_check_binding:
  assumes "opt_ok (\<lambda>b. ok (binding_has_valid_sha256 H b)) (ai_composition_execution_binding i)"
    and "opt_ok (\<lambda>b. ok (binding_has_valid_sha256 H b)) expected"
  shows "ok (check_binding H i expected d)"
  using assms by (auto simp: check_binding_def ok_iff split: option.splits prod.splits)

lemma ok_check_provenance: "opt_ok (\<lambda>rs. ok (normalize_source_refs rs)) refs \<Longrightarrow> ok (check_provenance refs d)"
  by (auto simp: check_provenance_def ok_iff split: option.splits prod.splits)

lemma ok_decide_risk: "ok (decide_risk risk None d)"
  by (auto simp: decide_risk_def split: option.splits prod.splits)

lemma ok_check_skill:
  assumes "ai_skill_id i = None \<Longrightarrow> activation = None" "opt_ok (\<lambda>g. ok (activation_has_valid_sha256 H g)) activation"
  shows "ok (check_skill H e i t activation d)"
  using assms by (auto simp: check_skill_def ok_iff split: option.splits prod.splits)

lemma check_skill_activation:
  "check_skill H e i t activation (out, rs) = Inr (out', rs', g) \<Longrightarrow> g = None \<or> g = activation"
  by (auto simp: check_skill_def bind_result_eq_Inr split: option.splits if_splits)

text \<open>The objects of a call, as their constructors accept them.\<close>

definition well_formed_call ::
    "(nat list \<Rightarrow> string) \<Rightarrow> policy_engine \<Rightarrow> action_intent \<Rightarrow> action_impact \<Rightarrow> skill_activation_grant option \<Rightarrow>
      ref_item list option \<Rightarrow> composition_binding option \<Rightarrow> bool" where
  "well_formed_call H e i m activation source_refs expected \<longleftrightarrow>
     ActionRegistrySnapshot H (pe_registry e) = Inr (pe_registry e) \<and> Sha256 (pe_policy_snapshot_sha256 e) \<and>
     Sha256 (pe_capability_manifest_hash e) \<and> Sha256 (pe_component_manifest_hash e) \<and>
     ActionIntent H i = Inr i \<and> ActionImpact m = Inr m \<and>
     opt_ok (\<lambda>b. ok (binding_has_valid_sha256 H b)) expected \<and>
     opt_ok (\<lambda>rs. ok (normalize_source_refs rs)) source_refs \<and>
     opt_ok (\<lambda>g. SkillActivationGrant g = Inr g \<and> ok (activation_has_valid_sha256 H g)) activation \<and>
     (ai_skill_id i = None \<longrightarrow> activation = None)"

lemma ActionIntent_binding:
  "ActionIntent H i = Inr i \<Longrightarrow> ai_composition_execution_binding i = Some b \<Longrightarrow> binding_has_valid_sha256 H b = Inr True"
  by (auto simp: ActionIntent_def validate_scope_def bind_result_eq_Inr split: if_splits)

lemma ActionIntent_fields: "ActionIntent H i = Inr i \<Longrightarrow> ActionIntent_fields_ok H i"
  by (simp add: ActionIntent_def split: if_splits)

lemma ActionImpact_fields: "ActionImpact m = Inr m \<Longrightarrow> ActionImpact_fields_ok m"
  by (simp add: ActionImpact_def split: if_splits)

lemma SkillActivationGrant_fields: "SkillActivationGrant g = Inr g \<Longrightarrow> SkillActivationGrant_fields_ok g"
  by (simp add: SkillActivationGrant_def split: if_splits)

lemma registered_permission_sha:
  assumes "ActionRegistrySnapshot H r = Inr r" "find_permission r i = Some p"
  shows "Sha256 (ap_permission_sha256 p)" "Sha256 (ar_registry_sha256 r)"
proof -
  have ok: "ActionRegistrySnapshot_fields_ok r" using assms(1) by (simp add: ActionRegistrySnapshot_def split: if_splits)
  then show "Sha256 (ar_registry_sha256 r)" by (simp add: ActionRegistrySnapshot_fields_ok_def)
  have "p \<in> set (ar_permissions r)" using assms(2) by (auto simp: find_permission_def find_Some_iff)
  with ok have "ok (ActionPermission p)" by (simp add: ActionRegistrySnapshot_fields_ok_def list_all_iff)
  then show "Sha256 (ap_permission_sha256 p)"
    by (auto simp: ActionPermission_def ActionPermission_fields_ok_def split: if_splits)
qed

lemma sorted_set_idem: "set_like (sorted_set xs)"
  unfolding set_like_def by (simp add: sorted_set_eq_iff)

lemma length_sorted_set: "length (sorted_set xs) \<le> length xs" "sorted_set xs = [] \<longleftrightarrow> xs = []"
  by (simp_all add: sorted_set_def length_remdups_leq)

lemma draft_decision_fields:
  assumes wf: "well_formed_call H e i m activation source_refs expected" and p: "admit H e i m t = Inr p"
    and n: "OpaqueId n" and rs: "1 \<le> length rs" "length rs \<le> 64" and g: "g = None \<or> g = activation"
  shows "PolicyDecision_fields_ok (draft_decision e i m p n risk t (res, rs, g))"
proof -
  have reg: "Sha256 (ap_permission_sha256 p)" "Sha256 (ar_registry_sha256 (pe_registry e))"
    using wf admit_Inr(7) [OF p] by (auto simp: well_formed_call_def intro: registered_permission_sha)
  have i: "Sha256 (ai_intent_sha256 i)" "0 \<le> ai_created_at_ms i"
    using wf ActionIntent_fields by (auto simp: well_formed_call_def ActionIntent_fields_ok_def)
  have m: "OpaqueId (im_impact_id m)" "Sha256 (im_impact_sha256 m)"
    using wf ActionImpact_fields by (auto simp: well_formed_call_def ActionImpact_fields_ok_def)
  have g_ok: "opt_ok OpaqueId (map_option sg_activation_id g)" "opt_ok Sha256 (map_option sg_activation_sha256 g)"
    using wf g SkillActivationGrant_fields
    by (cases activation; auto simp: well_formed_call_def SkillActivationGrant_fields_ok_def)+
  have e: "Sha256 (pe_policy_snapshot_sha256 e)" "Sha256 (pe_capability_manifest_hash e)"
    "Sha256 (pe_component_manifest_hash e)"
    using wf by (simp_all add: well_formed_call_def)
  have unspec: "OpaqueId ''unspecified''" by code_simp
  have len: "1 \<le> length (sorted_set rs)" "length (sorted_set rs) \<le> 64"
    using rs length_sorted_set [of rs] by (auto simp: Suc_le_eq)
  show ?thesis
    using reg i m g_ok e unspec len n sorted_set_idem [of rs] admit_Inr(3) [OF p] Sha256_zeros
    by (simp add: PolicyDecision_fields_ok_def draft_decision_def SCHEMA_VERSIONS_def SCHEMA_VERSION_def UNSET_SHA256_def)
qed

lemma draft_decision_outcome:
  assumes "well_formed_call H e i m activation source_refs expected" "res \<in> {ALLOW, REJECT}" "risk = A5 \<Longrightarrow> res = REJECT"
  shows "validate_outcome H (draft_decision e i m p n risk t (res, rs, g)) = Inr ()"
proof -
  have "binding_has_valid_sha256 H b = Inr True" if "ai_composition_execution_binding i = Some b" for b
    using assms(1) that by (auto simp: well_formed_call_def intro: ActionIntent_binding)
  with assms(2,3) show ?thesis
    by (auto simp: validate_outcome_def draft_decision_def present_count_def split: option.splits)
qed

lemma binding_entry_representable:
  assumes "opt_ok (\<lambda>b. binding_has_valid_sha256 H b = Inr True) ob" and "(k, v) \<in> set (binding_entry ob)"
  shows "representable v"
proof -
  obtain b where b: "ob = Some b"
      "v = jobj (composition_binding_dump b @ [(''binding_sha256'', jstr (cb_binding_sha256 b))])"
    using assms(2) by (auto simp: binding_entry_def split: option.splits)
  then have "representable (jobj (composition_binding_dump b))"
    using assms(1) composition_seal.valid_representable by (simp add: binding_has_valid_sha256_def del: representable_jobj)
  then show ?thesis unfolding b(2) by (auto simp: ball_Un)
qed

lemma draft_decision_representable:
  assumes "well_formed_call H e i m activation source_refs expected" and p: "admit H e i m t = Inr p"
  shows "representable (jobj (decision_dump (draft_decision e i m p n risk t (res, rs, g))))"
proof -
  have "representable (jobj (intent_dump i))"
    using admit_Inr(1) [OF p] intent_seal.valid_representable unfolding intent_has_valid_sha256_def by blast
  then have "ai_expires_at_ms i \<le> MAX_SAFE_INTEGER" by (simp add: intent_dump_def)
  moreover have "0 \<le> ai_created_at_ms i"
    using assms(1) ActionIntent_fields by (auto simp: well_formed_call_def ActionIntent_fields_ok_def)
  ultimately have t: "0 \<le> t" "t \<le> MAX_SAFE_INTEGER" using admit_Inr(3,4) [OF p] by auto
  have "opt_ok (\<lambda>b. binding_has_valid_sha256 H b = Inr True) (ai_composition_execution_binding i)"
    using assms(1) by (cases "ai_composition_execution_binding i") (auto simp: well_formed_call_def intro: ActionIntent_binding)
  from binding_entry_representable [OF this] t show ?thesis
    by (auto simp: decision_dump_def draft_decision_def MAX_SAFE_INTEGER_def)
qed

lemma decision_id_exists: "\<exists>bs. derive_policy_decision_id H i m r s = Inr (''policy-decision-'' @ H bs)"
proof -
  have "representable (jobj (decision_id_fields i m r s))" by (simp add: decision_id_fields_def)
  then obtain h where h: "canonical_sha256 H (jobj (decision_id_fields i m r s)) = Inr h"
    using ok_canonical_sha256 [of H] by (auto simp: ok_iff simp del: representable_jobj)
  then obtain bs where "h = H bs" using canonical_sha256_range by blast
  with h show ?thesis by (intro exI [of _ bs]) (simp add: derive_policy_decision_id_def)
qed

text \<open>The five checks of a well-formed call all return, with few reasons and a decided outcome.\<close>

lemma checks_return:
  assumes wf: "well_formed_call H e i m activation source_refs expected"
    and eff: "set (ai_requested_side_effects i) \<subseteq> set (ap_allowed_side_effects p)"
  obtains d1 d2 d3 d4 res rs g where
    "check_binding H i expected (None, [''policy.machine_risk_recomputed'']) = Inr d1"
    "check_ceiling H i p risk None expected d1 = Inr d2" "check_provenance source_refs d2 = Inr d3"
    "decide_risk risk None d3 = Inr d4" "check_skill H e i t activation d4 = Inr (res, rs, g)"
    "1 \<le> length rs" "length rs \<le> 64" "res \<in> {ALLOW, REJECT}" "risk = A5 \<longrightarrow> res = REJECT" "g = None \<or> g = activation"
proof -
  have bound: "opt_ok (\<lambda>b. ok (binding_has_valid_sha256 H b)) (ai_composition_execution_binding i)"
    using wf by (cases "ai_composition_execution_binding i") (auto simp: well_formed_call_def dest: ActionIntent_binding)
  have act: "opt_ok (\<lambda>g. ok (activation_has_valid_sha256 H g)) activation" "ai_skill_id i = None \<Longrightarrow> activation = None"
    using wf by (cases activation; auto simp: well_formed_call_def)+
  have calls: "opt_ok (\<lambda>b. ok (binding_has_valid_sha256 H b)) expected" "opt_ok (\<lambda>rs. ok (normalize_source_refs rs)) source_refs"
    using wf unfolding well_formed_call_def by blast+
  obtain o1 rs1 where d1: "check_binding H i expected (None, [''policy.machine_risk_recomputed'']) = Inr (o1, rs1)"
    using ok_check_binding [OF bound calls(1)] by (metis ok_iff surj_pair)
  obtain o2 rs2 where d2: "check_ceiling H i p risk None expected (o1, rs1) = Inr (o2, rs2)"
    using ok_check_ceiling by (metis ok_iff surj_pair)
  obtain o3 rs3 where d3: "check_provenance source_refs (o2, rs2) = Inr (o3, rs3)"
    using ok_check_provenance [OF calls(2)] by (metis ok_iff surj_pair)
  obtain out rs4 where d4: "decide_risk risk None (o3, rs3) = Inr (out, rs4)"
    using ok_decide_risk by (metis ok_iff surj_pair)
  obtain res rs5 g where d5: "check_skill H e i t activation (out, rs4) = Inr (res, rs5, g)"
    using ok_check_skill [OF act(2,1)] by (metis ok_iff prod_cases3)
  have out3: "o3 = None \<or> o3 = Some REJECT"
    using check_binding_outcome(1) [OF d1] check_ceiling_outcome(1) [OF d2 eff] check_provenance_outcome(1) [OF d3] by auto
  have "length rs5 \<le> 6"
    using reasons_grow(1) [OF d1] reasons_grow(2) [OF d2] reasons_grow(3) [OF d3] reasons_grow(4) [OF d4]
      reasons_grow(5) [OF d5] by simp
  moreover have "''policy.machine_risk_recomputed'' \<in> set rs5"
    using check_binding_outcome(2) [OF d1] check_ceiling_outcome(2) [OF d2 eff] check_provenance_outcome(2) [OF d3]
      decide_risk_outcome(2) [OF d4 out3] check_skill_outcome(2) [OF d5] by auto
  ultimately have len: "1 \<le> length rs5" "length rs5 \<le> 64" by (cases rs5; simp)+
  have res: "res \<in> {ALLOW, REJECT}" "risk = A5 \<longrightarrow> res = REJECT"
    using decide_risk_outcome(1,4) [OF d4 out3] check_skill_outcome(1) [OF d5] by auto
  show thesis by (rule that [OF d1 d2 d3 d4 d5 len res check_skill_activation [OF d5]])
qed

lemma evaluate_returns:
  assumes hash: "\<And>bs. Sha256 (H bs)"
    and wf: "well_formed_call H e i m activation source_refs expected"
    and p: "admit H e i m t = Inr p"
  shows "\<exists>d. evaluate H e i m t None activation source_refs expected = Inr d"
proof -
  obtain r where r: "risk_from_action_impact H m = Inr r"
    using admit_Inr(2) [OF p] by (simp add: risk_from_action_impact_def)
  let ?risk = "max (ap_effective_risk p) r"
  obtain bs where n: "derive_policy_decision_id H i m (pe_registry e) (pe_policy_snapshot_sha256 e) =
      Inr (''policy-decision-'' @ H bs)" using decision_id_exists by blast
  obtain d1 d2 d3 d4 res rs g where steps:
    "check_binding H i expected (None, [''policy.machine_risk_recomputed'']) = Inr d1"
    "check_ceiling H i p ?risk None expected d1 = Inr d2" "check_provenance source_refs d2 = Inr d3"
    "decide_risk ?risk None d3 = Inr d4" "check_skill H e i t activation d4 = Inr (res, rs, g)"
    and len: "1 \<le> length rs" "length rs \<le> 64"
    and res: "res \<in> {ALLOW, REJECT}" "?risk = A5 \<longrightarrow> res = REJECT" and g: "g = None \<or> g = activation"
    by (rule checks_return [OF wf admit_Inr(9) [OF p], where risk = ?risk and t = t])
  let ?d = "draft_decision e i m p (''policy-decision-'' @ H bs) ?risk t (res, rs, g)"
  have "PolicyDecision H ?d = Inr ?d"
    using draft_decision_fields [OF wf p decision_id_opaque [OF hash] len g]
      draft_decision_outcome [OF wf res(1) res(2) [rule_format]] unfolding PolicyDecision_def by simp
  moreover obtain h where "computed_sha256 H (decision_dump ?d) = Inr h"
    using draft_decision_representable [OF wf p] ok_canonical_sha256 unfolding computed_sha256_def by (metis ok_iff)
  ultimately have ev: "evaluate H e i m t None activation source_refs expected = Inr (?d\<lparr>pd_decision_sha256 := h\<rparr>)"
    unfolding evaluate_def Let_def p r n bind_result_Inr steps
    by (simp only: bind_result_Inr decision_with_computed_sha256_def)
  then show ?thesis by blast
qed

text \<open>C33: The policy engine decides without asking.  For a call whose objects their constructors accept, with
  an intent the registry admits and no confirmation grant, \<open>evaluate\<close> never raises: it returns a decision,
  and the decision is ALLOW as soon as the specification \<open>authorizes\<close> holds.  The only assumption about
  SHA-256 is that its hexadecimal digests have 64 hexadecimal characters.\<close>

theorem admitted_intent_is_decided:
  assumes hash: "\<And>bs. Sha256 (H bs)"
    and wf: "well_formed_call H e i m activation source_refs expected"
    and p: "admit H e i m t = Inr p"
  shows "\<exists>d r. evaluate H e i m t None activation source_refs expected = Inr d \<and>
     risk_from_action_impact H m = Inr r \<and>
     (authorizes H e i p (max (ap_effective_risk p) r) t None activation source_refs expected \<longrightarrow> pd_outcome d = ALLOW)"
proof -
  obtain r where r: "risk_from_action_impact H m = Inr r"
    using admit_Inr(2) [OF p] by (simp add: risk_from_action_impact_def)
  obtain d where d: "evaluate H e i m t None activation source_refs expected = Inr d"
    using evaluate_returns [OF assms] by blast
  show ?thesis using d r evaluate_outcome(3) [OF d p r] by blast
qed

section \<open>A concrete decision\<close>

definition sample_registry :: action_registry where
  "sample_registry =
     \<lparr>ar_schema_version = SCHEMA_VERSION, ar_registry_id = ''registry1'', ar_revision = 1, ar_generated_at_ms = 10,
      ar_source_manifest_sha256 = hex64 (CHR ''1''), ar_executable_count = 1,
      ar_permissions = [sample_permission A3 [''local_write'']], ar_registry_sha256 = hex64 (CHR ''0'')\<rparr>"

definition sample_engine :: policy_engine where
  "sample_engine =
     \<lparr>pe_registry = sample_registry, pe_policy_snapshot_sha256 = hex64 (CHR ''0''),
      pe_skill_catalog_hash = hex64 (CHR ''0''), pe_capability_manifest_hash = hex64 (CHR ''0''),
      pe_component_manifest_hash = hex64 (CHR ''0'')\<rparr>"

lemma Sha256_ones: "Sha256 (hex64 (CHR ''1''))"
  by (rule Sha256_hex64) code_simp

lemma sample_permission_ok: "ok (ActionPermission (sample_permission A3 [''local_write'']))"
proof -
  have ids: "ActionId ''file.write''" "OpaqueId ''1''" by code_simp+
  show ?thesis
    by (simp add: ActionPermission_def ActionPermission_fields_ok_def validate_floor_def sample_permission_def
        SCHEMA_VERSIONS_def SCHEMA_VERSION_def ids SideEffectClass_def set_like_def sorted_set_def Sha256_zeros
        Sha256_ones risk_order)
qed

lemma sample_registry_ok: "ActionRegistrySnapshot zero_hash sample_registry = Inr sample_registry"
proof -
  have "OpaqueId ''registry1''" by code_simp
  then have fields: "ActionRegistrySnapshot_fields_ok sample_registry"
    using sample_permission_ok
    by (simp add: ActionRegistrySnapshot_fields_ok_def sample_registry_def SCHEMA_VERSIONS_def SCHEMA_VERSION_def
        Sha256_zeros Sha256_ones)
  have "ap_source_manifest_sha256 (sample_permission A3 [''local_write'']) = hex64 (CHR ''1'')"
    by (simp add: sample_permission_def)
  then have "validate_permissions zero_hash sample_registry = Inr ()"
    by (simp add: validate_permissions_def sample_registry_def permission_rejected_def sample_permission_sealed
        sorted_set_def)
  with fields show ?thesis by (simp add: ActionRegistrySnapshot_def)
qed

lemma sample_intent_ok: "ActionIntent zero_hash sample_intent = Inr sample_intent"
proof -
  have ids: "OpaqueId ''intent1''" "OpaqueId ''life1''" "ActionId ''file.write''" "OpaqueId ''1''" "OpaqueId ''ws''"
    by code_simp+
  have pre: "RequestId (''req_'' @ hex64 (CHR ''0''))" "RunId (''run_'' @ hex64 (CHR ''0''))"
    by (simp_all add: RequestId_def RunId_def prefixed_sha256_def Sha256_zeros)
  have "ok (SourceRef (sample_source ''CURRENT_USER_INSTRUCTION''))" by (rule sample_source_ok) (simp add: SourceType_def)
  then have fields: "ActionIntent_fields_ok zero_hash sample_intent"
    by (simp add: ActionIntent_fields_ok_def sample_intent_def SCHEMA_VERSIONS_def SCHEMA_VERSION_def ids
        pre [simplified] Sha256_zeros set_like_def sorted_set_def SideEffectClass_def ResourceEnvelope_ok_def
        validate_sorted_unique_source_refs_def)
  have refs: "canonical_sha256 zero_hash (source_refs_dump (ai_source_refs sample_intent)) = Inr (hex64 (CHR ''0''))"
    by (rule canonical_sha256_zero_hash)
      (simp add: source_refs_dump_def source_ref_dump_def sample_intent_def sample_source_def MAX_SAFE_INTEGER_def)
  have inv: "canonical_sha256 zero_hash (jobj (canonical_invocation sample_intent)) = Inr (hex64 (CHR ''0''))"
    by (rule canonical_sha256_zero_hash) (simp add: canonical_invocation_def)
  have "validate_scope zero_hash sample_intent = Inr ()"
    unfolding validate_scope_def refs inv by (simp add: sample_intent_def present_count_def)
  with fields show ?thesis by (simp add: ActionIntent_def)
qed

lemma sample_impact_unsigned: "(sample_unsigned b)\<lparr>im_impact_sha256 := hex64 (CHR ''0'')\<rparr> = sample_unsigned b"
  by (simp add: unsigned_impact_def UNSET_SHA256_def)

lemma sample_impact_ok: "ActionImpact (sample_unsigned b) = Inr (sample_unsigned b)"
proof -
  have "im_rollback_proof_ref (sample_unsigned b) = None"
    by (simp add: unsigned_impact_def sample_inputs_def default_inputs_def)
  then show ?thesis unfolding ActionImpact_def using sample_impact_fields [of b] by simp
qed

abbreviation sample_refs :: "ref_item list option" where
  "sample_refs \<equiv> Some [Ref (sample_source ''CURRENT_USER_INSTRUCTION'')]"

lemma sample_call_well_formed: "well_formed_call zero_hash sample_engine sample_intent (sample_unsigned b) None sample_refs None"
  unfolding well_formed_call_def
  using sample_registry_ok sample_intent_ok sample_impact_ok [of b] Sha256_zeros
  by (simp add: sample_engine_def normalize_source_refs_def normalize_item_def)

lemma sample_impact_risk:
  "impact_has_valid_sha256 zero_hash (sample_unsigned b) = Inr True"
  "risk_from_action_impact zero_hash (sample_unsigned b) = Inr (if b then A5 else A3)"
proof -
  note m = sample_impact [of b, unfolded sample_impact_unsigned]
  show "impact_has_valid_sha256 zero_hash (sample_unsigned b) = Inr True" by (rule compute_action_impact_critical(2) [OF m])
  have "im_dynamic_risk (sample_unsigned b) = (if b then A5 else A3)"
    by (simp add: unsigned_impact_def risk_band_def critical_value_def Let_def raise_floors_def raise_if_def
        sample_inputs_def default_inputs_def sample_permission_def ascii_lower_def sorted_set_def)
  with risk_of_computed_impact [OF m]
  show "risk_from_action_impact zero_hash (sample_unsigned b) = Inr (if b then A5 else A3)" by simp
qed

lemma sample_admitted:
  "admit zero_hash sample_engine sample_intent (sample_unsigned b) 1500 = Inr (sample_permission A3 [''local_write''])"
proof -
  have "find_permission (pe_registry sample_engine) sample_intent = Some (sample_permission A3 [''local_write''])"
    by (simp add: find_permission_def sample_engine_def sample_registry_def sample_intent_def sample_permission_def)
  moreover have "im_life_id (sample_unsigned b) = ai_life_id sample_intent" "im_action_id (sample_unsigned b) = ai_action_id sample_intent"
    by (simp_all add: unsigned_impact_def)
  moreover have "set (ai_requested_side_effects sample_intent) \<subseteq>
      set (ap_allowed_side_effects (sample_permission A3 [''local_write'']))"
    "ai_created_at_ms sample_intent \<le> 1500" "1500 \<le> ai_expires_at_ms sample_intent"
    by (simp_all add: sample_intent_def sample_permission_def)
  ultimately show ?thesis
    unfolding admit_def sample_intent_sealed sample_impact_risk(1) by (simp add: sample_permission_sealed)
qed

lemma sample_authorized:
  "authorizes zero_hash sample_engine sample_intent (sample_permission A3 [''local_write'']) A3 1500 None None sample_refs None"
  by (simp add: authorizes_def sample_intent_def normalize_source_refs_def normalize_item_def unique_refs_def
      dict_values_def sorted_set_def sample_source_def UNTRUSTED_SOURCE_TYPES_def risk_order)

theorem admitted_intent_is_decided_witness:
  "\<exists>d. evaluate zero_hash sample_engine sample_intent (sample_unsigned False) 1500 None None sample_refs None = Inr d \<and>
     pd_outcome d = ALLOW"
proof -
  have "max (ap_effective_risk (sample_permission A3 [''local_write''])) A3 = A3" by (simp add: sample_permission_def)
  with admitted_intent_is_decided [OF Sha256_zero_hash sample_call_well_formed sample_admitted, of False]
    sample_authorized sample_impact_risk(2) [of False]
  show ?thesis by auto
qed

theorem policy_engine_refines_specification_witness:
  "\<exists>d. evaluate zero_hash sample_engine sample_intent (sample_unsigned True) 1500 None None sample_refs None = Inr d \<and>
     pd_computed_risk d = A5 \<and> pd_outcome d = REJECT"
proof -
  obtain d where d: "evaluate zero_hash sample_engine sample_intent (sample_unsigned True) 1500 None None sample_refs None = Inr d"
    using evaluate_returns [OF Sha256_zero_hash sample_call_well_formed sample_admitted] by blast
  from policy_engine_refines_specification [OF d] sample_impact_risk(2) [of True]
  have "pd_computed_risk d = A5" by (auto simp: max_def)
  with policy_engine_refines_specification [OF d] have "pd_outcome d = REJECT" by (auto simp: authorizes_def)
  with d \<open>pd_computed_risk d = A5\<close> show ?thesis by blast
qed

end
