(* ===== verification/World_Contracts.thy ===== *)
theory World_Contracts
  imports Payload
begin

text \<open>
  The contracts of the world understanding layer that the Known kernel exchanges
  (\<open>src/contracts/world_understanding/\<close>: \<open>_base.py\<close>, \<open>time.py\<close>, \<open>observability.py\<close>, \<open>authority.py\<close>, \<open>source.py\<close>,
  \<open>scope.py\<close>, \<open>known.py\<close>, \<open>derivation.py\<close>, \<open>world_cut.py\<close>).  For each class: a record with the fields of
  the class, the constraints of its fields together with the field validators (\<open>..._fields_ok\<close>), the
  model validator, the mapping \<open>model_dump\<close> returns (\<open>..._dump\<close>) and the constructor, which returns the
  record or the \<open>ValidationError\<close>.  Free text is a sequence of code points (\<open>ustring\<close>), the Unicode
  normalisation to NFC is the parameter \<open>nfc\<close>, SHA-256 is the parameter \<open>H\<close>.  The two classes of
  Known records share the fields of \<open>_KnownBase\<close>: they are one record with a field \<open>kr_derivation\<close> that
  holds what only \<open>DirectKnownRecord\<close> or only \<open>DerivedKnownRecord\<close> has.
\<close>

section \<open>Shared values\<close>

definition invalid :: "string \<Rightarrow> 'a result" where
  "invalid msg = Inl (ValidationError msg)"

definition TruthState :: "string list" where
  "TruthState = [''TRUE'', ''FALSE'', ''UNKNOWN'', ''CONFLICTED'']"

definition EpistemicState :: "string list" where
  "EpistemicState = [''CURRENT'', ''STALE'', ''CHALLENGED'', ''REVERIFYING'', ''RETIRED'']"

definition PrivacyScope :: "string list" where
  "PrivacyScope = [''public'', ''relationship'', ''private'', ''secret'', ''system'']"

definition WORLD_SCHEMA_VERSION :: string where
  "WORLD_SCHEMA_VERSION = ''tiangong.world-understanding.contracts.v1''"

definition normalized_text :: "(ustring \<Rightarrow> ustring) \<Rightarrow> ustring \<Rightarrow> bool" where
  "normalized_text nfc v \<longleftrightarrow> nfc v = v \<and> 0 \<notin> set v"

definition sorted_unique_strings :: "'a::linorder list \<Rightarrow> bool" where
  "sorted_unique_strings v \<longleftrightarrow> v = sorted_set v"

record record_ref =
  wr_record_type :: string
  wr_record_id :: string
  wr_revision :: "int option"
  wr_sha256 :: string

definition record_ref_fields_ok :: "record_ref \<Rightarrow> bool" where
  "record_ref_fields_ok r \<longleftrightarrow>
     OpaqueId (wr_record_type r) \<and> OpaqueId (wr_record_id r) \<and>
     opt_ok (\<lambda>n. 1 \<le> n \<and> n \<le> MAX_SAFE_INTEGER) (wr_revision r) \<and> Sha256 (wr_sha256 r)"

definition revision_or_zero :: "int option \<Rightarrow> int" where
  "revision_or_zero n = (case n of None \<Rightarrow> 0 | Some k \<Rightarrow> k)"

definition ref_sort_key :: "record_ref \<Rightarrow> string \<times> string \<times> int \<times> string" where
  "ref_sort_key r = (wr_record_type r, wr_record_id r, revision_or_zero (wr_revision r), wr_sha256 r)"

definition sorted_unique_refs :: "record_ref list \<Rightarrow> bool" where
  "sorted_unique_refs v \<longleftrightarrow> (let keys = map ref_sort_key v in keys = sorted_set keys)"

definition record_ref_dump :: "record_ref \<Rightarrow> pyval" where
  "record_ref_dump r =
     jobj [(''record_type'', jstr (wr_record_type r)), (''record_id'', jstr (wr_record_id r)),
       (''revision'', joptint (wr_revision r)), (''sha256'', jstr (wr_sha256 r))]"

definition record_refs_dump :: "record_ref list \<Rightarrow> pyval" where
  "record_refs_dump rs = PSequence (map record_ref_dump rs)"

definition jtext :: "ustring \<Rightarrow> pyval" where
  "jtext u = PStr u"

definition jsome :: "('a \<Rightarrow> pyval) \<Rightarrow> 'a option \<Rightarrow> pyval" where
  "jsome f v = (case v of None \<Rightarrow> PNone | Some x \<Rightarrow> f x)"

section \<open>World values\<close>

datatype small_value = SmallText ustring | SmallInt int | SmallBool bool | SmallNone

record small_object_item =
  so_key :: string
  so_value :: small_value

fun small_value_ok :: "(ustring \<Rightarrow> ustring) \<Rightarrow> small_value \<Rightarrow> bool" where
  "small_value_ok nfc (SmallText u) = normalized_text nfc u"
| "small_value_ok nfc _ = True"

fun small_value_dump :: "small_value \<Rightarrow> pyval" where
  "small_value_dump (SmallText u) = jtext u"
| "small_value_dump (SmallInt i) = PInt i"
| "small_value_dump (SmallBool b) = PBool b"
| "small_value_dump SmallNone = PNone"

definition small_object_item_dump :: "small_object_item \<Rightarrow> pyval" where
  "small_object_item_dump i = jobj [(''key'', jstr (so_key i)), (''value'', small_value_dump (so_value i))]"

definition WorldValueKind :: "string list" where
  "WorldValueKind = [''entity_ref'', ''record_ref'', ''string'', ''integer'', ''boolean'', ''number_milli'',
     ''string_set'', ''record_ref_set'', ''small_object'']"

record world_value =
  wv_kind :: string
  wv_entity_ref :: "string option"
  wv_record_ref :: "record_ref option"
  wv_string_value :: "ustring option"
  wv_integer_value :: "int option"
  wv_boolean_value :: "bool option"
  wv_number_milli :: "int option"
  wv_string_set :: "ustring list option"
  wv_record_ref_set :: "record_ref list option"
  wv_small_object :: "small_object_item list option"

definition world_value_fields_ok :: "(ustring \<Rightarrow> ustring) \<Rightarrow> world_value \<Rightarrow> bool" where
  "world_value_fields_ok nfc v \<longleftrightarrow>
     wv_kind v \<in> set WorldValueKind \<and> opt_ok OpaqueId (wv_entity_ref v) \<and>
     opt_ok record_ref_fields_ok (wv_record_ref v) \<and>
     opt_ok (\<lambda>s. length s \<le> 20000 \<and> normalized_text nfc s) (wv_string_value v) \<and>
     opt_ok (\<lambda>i. - MAX_SAFE_INTEGER \<le> i \<and> i \<le> MAX_SAFE_INTEGER) (wv_integer_value v) \<and>
     opt_ok (\<lambda>i. - 1000000000 \<le> i \<and> i \<le> 1000000000) (wv_number_milli v) \<and>
     opt_ok (\<lambda>ss. length ss \<le> 4096 \<and> list_all (normalized_text nfc) ss \<and> sorted_unique_strings ss)
       (wv_string_set v) \<and>
     opt_ok (\<lambda>rs. length rs \<le> 4096 \<and> list_all record_ref_fields_ok rs \<and> sorted_unique_refs rs)
       (wv_record_ref_set v) \<and>
     opt_ok (\<lambda>os. length os \<le> 256 \<and> list_all (\<lambda>i. OpaqueId (so_key i) \<and> small_value_ok nfc (so_value i)) os \<and>
       map so_key os = sorted_set (map so_key os)) (wv_small_object v)"

definition value_branches :: "world_value \<Rightarrow> (string \<times> bool) list" where
  "value_branches v =
     [(''entity_ref'', wv_entity_ref v \<noteq> None), (''record_ref'', wv_record_ref v \<noteq> None),
      (''string'', wv_string_value v \<noteq> None), (''integer'', wv_integer_value v \<noteq> None),
      (''boolean'', wv_boolean_value v \<noteq> None), (''number_milli'', wv_number_milli v \<noteq> None),
      (''string_set'', wv_string_set v \<noteq> None), (''record_ref_set'', wv_record_ref_set v \<noteq> None),
      (''small_object'', wv_small_object v \<noteq> None)]"

definition validate_exact_branch :: "world_value \<Rightarrow> bool" where
  "validate_exact_branch v \<longleftrightarrow>
     (let populated = value_branches v
      in length (filter snd populated) = 1 \<and> map_of populated (wv_kind v) = Some True)"

definition WorldValue :: "(ustring \<Rightarrow> ustring) \<Rightarrow> world_value \<Rightarrow> world_value result" where
  "WorldValue nfc v =
     (if \<not> world_value_fields_ok nfc v then invalid ''field constraint''
      else if \<not> validate_exact_branch v then invalid ''WorldValue must populate exactly its declared kind''
      else Inr v)"

definition world_value_dump :: "world_value \<Rightarrow> pyval" where
  "world_value_dump v =
     jobj [(''kind'', jstr (wv_kind v)), (''entity_ref'', jopt (wv_entity_ref v)),
       (''record_ref'', jsome record_ref_dump (wv_record_ref v)),
       (''string_value'', jsome jtext (wv_string_value v)), (''integer_value'', joptint (wv_integer_value v)),
       (''boolean_value'', jsome PBool (wv_boolean_value v)), (''number_milli'', joptint (wv_number_milli v)),
       (''string_set'', jsome (\<lambda>ss. PSequence (map jtext ss)) (wv_string_set v)),
       (''record_ref_set'', jsome record_refs_dump (wv_record_ref_set v)),
       (''small_object'', jsome (\<lambda>os. PSequence (map small_object_item_dump os)) (wv_small_object v))]"

text \<open>\<open>WorldValue(kind="string", string_value=s)\<close>: the other fields take their default.\<close>

definition string_world_value :: "ustring \<Rightarrow> world_value" where
  "string_world_value s =
     \<lparr>wv_kind = ''string'', wv_entity_ref = None, wv_record_ref = None, wv_string_value = Some s,
      wv_integer_value = None, wv_boolean_value = None, wv_number_milli = None, wv_string_set = None,
      wv_record_ref_set = None, wv_small_object = None\<rparr>"

section \<open>World time\<close>

record world_time =
  wt_valid_from_ms :: int
  wt_valid_until_ms :: "int option"
  wt_observed_at_ms :: "int option"
  wt_recorded_at_ms :: int

definition timestamp_ok :: "int \<Rightarrow> bool" where
  "timestamp_ok i \<longleftrightarrow> 0 \<le> i \<and> i \<le> MAX_SAFE_INTEGER"

definition world_time_fields_ok :: "world_time \<Rightarrow> bool" where
  "world_time_fields_ok t \<longleftrightarrow>
     timestamp_ok (wt_valid_from_ms t) \<and> opt_ok timestamp_ok (wt_valid_until_ms t) \<and>
     opt_ok timestamp_ok (wt_observed_at_ms t) \<and> timestamp_ok (wt_recorded_at_ms t)"

definition validate_ordering :: "world_time \<Rightarrow> unit result" where
  "validate_ordering t =
     (if (case wt_valid_until_ms t of None \<Rightarrow> False | Some u \<Rightarrow> u < wt_valid_from_ms t)
      then invalid ''valid time interval is inverted''
      else if (case wt_observed_at_ms t of None \<Rightarrow> False | Some p \<Rightarrow> p > wt_recorded_at_ms t)
      then invalid ''observation cannot occur after recording''
      else Inr ())"

definition WorldTime :: "world_time \<Rightarrow> world_time result" where
  "WorldTime t =
     (if \<not> world_time_fields_ok t then invalid ''field constraint''
      else bind_result (validate_ordering t) (\<lambda>_. Inr t))"

definition world_time_dump :: "world_time \<Rightarrow> pyval" where
  "world_time_dump t =
     jobj [(''valid_from_ms'', PInt (wt_valid_from_ms t)), (''valid_until_ms'', joptint (wt_valid_until_ms t)),
       (''observed_at_ms'', joptint (wt_observed_at_ms t)), (''recorded_at_ms'', PInt (wt_recorded_at_ms t))]"

section \<open>Observability\<close>

definition ObservabilityMode :: "string list" where
  "ObservabilityMode = [''OBSERVED'', ''PARTIAL'', ''NOT_OBSERVED'', ''UNOBSERVABLE'']"

definition compute_observability_quality_milli :: "int \<Rightarrow> int \<Rightarrow> int \<Rightarrow> int \<Rightarrow> int \<Rightarrow> int" where
  "compute_observability_quality_milli access scope_coverage time_coverage adapter measurement =
     (let numerator = access * scope_coverage * time_coverage * adapter * measurement
      in numerator div (1000 ^ 4))"

record observability_state =
  os_mode :: string
  os_access_milli :: int
  os_scope_coverage_milli :: int
  os_time_coverage_milli :: int
  os_adapter_quality_milli :: int
  os_measurement_quality_milli :: int
  os_combined_quality_milli :: int
  os_search_scope_hash :: "string option"

definition observability_fields_ok :: "observability_state \<Rightarrow> bool" where
  "observability_fields_ok s \<longleftrightarrow>
     os_mode s \<in> set ObservabilityMode \<and> milli (os_access_milli s) \<and> milli (os_scope_coverage_milli s) \<and>
     milli (os_time_coverage_milli s) \<and> milli (os_adapter_quality_milli s) \<and>
     milli (os_measurement_quality_milli s) \<and> milli (os_combined_quality_milli s) \<and>
     opt_ok Sha256 (os_search_scope_hash s)"

definition validate_quality :: "observability_state \<Rightarrow> unit result" where
  "validate_quality s =
     (let expected = compute_observability_quality_milli (os_access_milli s) (os_scope_coverage_milli s)
            (os_time_coverage_milli s) (os_adapter_quality_milli s) (os_measurement_quality_milli s)
      in if os_combined_quality_milli s \<noteq> expected
         then invalid ''combined observability quality must be deterministic''
         else if os_mode s \<in> {''NOT_OBSERVED'', ''UNOBSERVABLE''} \<and> os_combined_quality_milli s \<noteq> 0
         then invalid ''unobserved states cannot claim positive observation quality''
         else Inr ())"

definition ObservabilityState :: "observability_state \<Rightarrow> observability_state result" where
  "ObservabilityState s =
     (if \<not> observability_fields_ok s then invalid ''field constraint''
      else bind_result (validate_quality s) (\<lambda>_. Inr s))"

definition observability_dump :: "observability_state \<Rightarrow> pyval" where
  "observability_dump s =
     jobj [(''mode'', jstr (os_mode s)), (''access_milli'', PInt (os_access_milli s)),
       (''scope_coverage_milli'', PInt (os_scope_coverage_milli s)),
       (''time_coverage_milli'', PInt (os_time_coverage_milli s)),
       (''adapter_quality_milli'', PInt (os_adapter_quality_milli s)),
       (''measurement_quality_milli'', PInt (os_measurement_quality_milli s)),
       (''combined_quality_milli'', PInt (os_combined_quality_milli s)),
       (''search_scope_hash'', jopt (os_search_scope_hash s))]"

section \<open>Authority and sources\<close>

definition AuthorityDomain :: "string list" where
  "AuthorityDomain = [''IDENTITY_RUN_CONTEXT'', ''USER_HUMAN_INPUT'', ''SYSTEM_GOVERNANCE'', ''RUNTIME_ENVIRONMENT'',
     ''AUTHORIZATION'', ''EXECUTION_ACTION'', ''FILESYSTEM_ARTIFACT'', ''GIT_CODE'', ''WEB_EXTERNAL'',
     ''DESKTOP_UI_PROCESS'', ''MEMORY_EXPERIENCE'', ''KNOWLEDGE_DOCUMENT'', ''LIFE_CAPABILITY_STATE'',
     ''CONTEXT_CONTINUITY'', ''AUTONOMY_SELF_WILL'', ''TASK_RUN_LIFECYCLE'', ''EXECUTION_INTEGRITY'',
     ''OBSERVABILITY_METRICS'', ''MIGRATION_AUDIT'', ''INTERNAL_MODEL_OUTPUT'']"

definition SourceKind :: "string list" where
  "SourceKind = [''RUN_CONTEXT'', ''USER_CONVERSATION'', ''SYSTEM_GOVERNANCE'', ''RUNTIME_ENVIRONMENT'',
     ''AUTHORIZATION'', ''FACT_EXECUTION'', ''TOOL_RESULT'', ''FILESYSTEM'', ''GIT_CODE'', ''WEB_EXTERNAL'',
     ''DESKTOP_UI'', ''MEMORY'', ''KNOWLEDGE'', ''LIFE_LEARNING'', ''CONTEXT_CONTINUITY'', ''AUTONOMY'',
     ''CHAIN_EVENT'', ''EXECUTION_INTEGRITY'', ''METRICS'', ''MIGRATION_AUDIT'', ''MODEL_OUTPUT'',
     ''CONTEXT_REQUEST'', ''UNCLASSIFIED_SOURCE'']"

record world_source_ref =
  ws_source_kind :: string
  ws_object_id :: string
  ws_object_revision :: "int option"
  ws_sha256 :: string
  ws_locator :: "ustring option"
  ws_span_start :: "int option"
  ws_span_end :: "int option"
  ws_authority_domain :: "string option"
  ws_authority_ceiling_milli :: int
  ws_provenance_integrity_milli :: int

definition world_source_fields_ok :: "(ustring \<Rightarrow> ustring) \<Rightarrow> world_source_ref \<Rightarrow> bool" where
  "world_source_fields_ok nfc r \<longleftrightarrow>
     ws_source_kind r \<in> set SourceKind \<and> OpaqueId (ws_object_id r) \<and>
     opt_ok (\<lambda>n. 1 \<le> n \<and> n \<le> MAX_SAFE_INTEGER) (ws_object_revision r) \<and> Sha256 (ws_sha256 r) \<and>
     opt_ok (\<lambda>u. length u \<le> 4096 \<and> normalized_text nfc u) (ws_locator r) \<and>
     opt_ok timestamp_ok (ws_span_start r) \<and> opt_ok timestamp_ok (ws_span_end r) \<and>
     opt_ok (\<lambda>d. d \<in> set AuthorityDomain) (ws_authority_domain r) \<and>
     milli (ws_authority_ceiling_milli r) \<and> milli (ws_provenance_integrity_milli r)"

definition validate_span :: "world_source_ref \<Rightarrow> unit result" where
  "validate_span r =
     (if (ws_span_start r = None) \<noteq> (ws_span_end r = None) then invalid ''source span must be all-or-none''
      else if (case (ws_span_start r, ws_span_end r) of (Some a, Some b) \<Rightarrow> a > b | _ \<Rightarrow> False)
      then invalid ''source span is inverted''
      else if ws_source_kind r \<in> {''CONTEXT_REQUEST'', ''UNCLASSIFIED_SOURCE''} \<and>
        (ws_authority_domain r \<noteq> None \<or> ws_authority_ceiling_milli r \<noteq> 0)
      then invalid ''control/unclassified source refs cannot claim reality authority''
      else Inr ())"

definition WorldSourceRef :: "(ustring \<Rightarrow> ustring) \<Rightarrow> world_source_ref \<Rightarrow> world_source_ref result" where
  "WorldSourceRef nfc r =
     (if \<not> world_source_fields_ok nfc r then invalid ''field constraint''
      else bind_result (validate_span r) (\<lambda>_. Inr r))"

definition span_key :: "int option \<Rightarrow> int" where
  "span_key i = (case i of None \<Rightarrow> - 1 | Some n \<Rightarrow> n)"

definition world_source_sort_key :: "world_source_ref \<Rightarrow> string \<times> string \<times> int \<times> string \<times> int \<times> int" where
  "world_source_sort_key r =
     (ws_source_kind r, ws_object_id r, revision_or_zero (ws_object_revision r), ws_sha256 r,
      span_key (ws_span_start r), span_key (ws_span_end r))"

definition world_source_dump :: "world_source_ref \<Rightarrow> pyval" where
  "world_source_dump r =
     jobj [(''source_kind'', jstr (ws_source_kind r)), (''object_id'', jstr (ws_object_id r)),
       (''object_revision'', joptint (ws_object_revision r)), (''sha256'', jstr (ws_sha256 r)),
       (''locator'', jsome jtext (ws_locator r)), (''span_start'', joptint (ws_span_start r)),
       (''span_end'', joptint (ws_span_end r)), (''authority_domain'', jopt (ws_authority_domain r)),
       (''authority_ceiling_milli'', PInt (ws_authority_ceiling_milli r)),
       (''provenance_integrity_milli'', PInt (ws_provenance_integrity_milli r))]"

section \<open>World scope\<close>

record scope_binding =
  sb_key :: string
  sb_value :: ustring

record world_scope =
  sc_life_id :: string
  sc_world_id :: string
  sc_domain_id :: string
  sc_scope_bindings :: "scope_binding list"
  sc_world_scope_hash :: string
  sc_principal_scope_hash :: string
  sc_privacy_scope :: string

definition scope_binding_dump :: "scope_binding \<Rightarrow> pyval" where
  "scope_binding_dump b = jobj [(''key'', jstr (sb_key b)), (''value'', jtext (sb_value b))]"

definition derive_world_scope_hash ::
    "(nat list \<Rightarrow> string) \<Rightarrow> string \<Rightarrow> string \<Rightarrow> string \<Rightarrow> scope_binding list \<Rightarrow> string result" where
  "derive_world_scope_hash H life_id world_id domain_id scope_bindings =
     canonical_sha256 H (jobj
       [(''domain'', jstr ''tiangong.world.scope.v1''), (''life_id'', jstr life_id), (''world_id'', jstr world_id),
        (''domain_id'', jstr domain_id), (''scope_bindings'', PSequence (map scope_binding_dump scope_bindings))])"

definition world_scope_fields_ok :: "(ustring \<Rightarrow> ustring) \<Rightarrow> world_scope \<Rightarrow> bool" where
  "world_scope_fields_ok nfc s \<longleftrightarrow>
     OpaqueId (sc_life_id s) \<and> prefixed_sha256 ''wld_'' (sc_world_id s) \<and> OpaqueId (sc_domain_id s) \<and>
     length (sc_scope_bindings s) \<le> 64 \<and>
     list_all (\<lambda>b. OpaqueId (sb_key b) \<and> 1 \<le> length (sb_value b) \<and> length (sb_value b) \<le> 2048 \<and>
       normalized_text nfc (sb_value b)) (sc_scope_bindings s) \<and>
     distinct (map sb_key (sc_scope_bindings s)) \<and> Sha256 (sc_world_scope_hash s) \<and>
     Sha256 (sc_principal_scope_hash s) \<and> sc_privacy_scope s \<in> set PrivacyScope"

definition WorldScope :: "(nat list \<Rightarrow> string) \<Rightarrow> (ustring \<Rightarrow> ustring) \<Rightarrow> world_scope \<Rightarrow> world_scope result" where
  "WorldScope H nfc s =
     (if \<not> world_scope_fields_ok nfc s then invalid ''field constraint''
      else bind_result (derive_world_scope_hash H (sc_life_id s) (sc_world_id s) (sc_domain_id s) (sc_scope_bindings s))
        (\<lambda>expected. if sc_world_scope_hash s \<noteq> expected
           then invalid ''world_scope_hash does not match scope identity'' else Inr s))"

definition world_scope_dump :: "world_scope \<Rightarrow> pyval" where
  "world_scope_dump s =
     jobj [(''life_id'', jstr (sc_life_id s)), (''world_id'', jstr (sc_world_id s)),
       (''domain_id'', jstr (sc_domain_id s)),
       (''scope_bindings'', PSequence (map scope_binding_dump (sc_scope_bindings s))),
       (''world_scope_hash'', jstr (sc_world_scope_hash s)),
       (''principal_scope_hash'', jstr (sc_principal_scope_hash s)),
       (''privacy_scope'', jstr (sc_privacy_scope s))]"

section \<open>Known records\<close>

record direct_source =
  ds_source_envelope_id :: string
  ds_source_kind :: string
  ds_source_native_id :: string
  ds_source_payload_hash :: string
  ds_compiler_id :: string
  ds_compiler_version :: string

record derived_source =
  dv_parent_known_refs :: "record_ref list"
  dv_transform_id :: string
  dv_transform_version :: string
  dv_derivation_hash :: string

datatype known_derivation = Direct direct_source | Derived derived_source

record known_record =
  kr_schema_version :: string
  kr_known_id :: string
  kr_proposition_type :: string
  kr_subject_ref :: string
  kr_predicate :: string
  kr_object_value :: "world_value option"
  kr_object_ref :: "record_ref option"
  kr_world_scope :: world_scope
  kr_time :: world_time
  kr_authority_domain :: string
  kr_authority_ceiling_milli :: int
  kr_observability_state :: observability_state
  kr_coverage_milli :: "int option"
  kr_truth_state :: string
  kr_epistemic_state :: string
  kr_provenance_refs :: "world_source_ref list"
  kr_empirical_evidence_weight_milli :: int
  kr_record_hash :: string
  kr_derivation :: known_derivation

fun parent_known_refs :: "known_derivation \<Rightarrow> record_ref list" where
  "parent_known_refs (Direct d) = []"
| "parent_known_refs (Derived d) = dv_parent_known_refs d"

definition object_identity ::
    "world_value option \<Rightarrow> record_ref option \<Rightarrow> (string \<times> pyval) list result" where
  "object_identity object_value object_ref =
     (if (object_value = None) = (object_ref = None)
      then Inl (ValueError ''known proposition requires exactly one object value/ref'')
      else Inr [(''object_value'', jsome world_value_dump object_value),
                (''object_ref'', jsome record_ref_dump object_ref)])"

definition derive_direct_known_id ::
    "(nat list \<Rightarrow> string) \<Rightarrow> string \<Rightarrow> string \<Rightarrow> string \<Rightarrow> string \<Rightarrow> world_value option \<Rightarrow> record_ref option \<Rightarrow>
     string \<Rightarrow> string result" where
  "derive_direct_known_id H world_scope_hash proposition_type subject_ref predicate object_value object_ref
       source_envelope_id =
     bind_result (object_identity object_value object_ref) (\<lambda>obj.
     bind_result (canonical_sha256 H (jobj
       ([(''domain'', jstr ''tiangong.world.direct-known-id.v1''), (''world_scope_hash'', jstr world_scope_hash),
         (''proposition_type'', jstr proposition_type), (''subject_ref'', jstr subject_ref),
         (''predicate'', jstr predicate)] @ obj @ [(''source_envelope_id'', jstr source_envelope_id)])))
       (\<lambda>h. Inr (''wkn_'' @ h)))"

definition derive_derived_known_id ::
    "(nat list \<Rightarrow> string) \<Rightarrow> string \<Rightarrow> string \<Rightarrow> string \<Rightarrow> string \<Rightarrow> world_value option \<Rightarrow> record_ref option \<Rightarrow>
     string \<Rightarrow> record_ref list \<Rightarrow> string result" where
  "derive_derived_known_id H world_scope_hash proposition_type subject_ref predicate object_value object_ref
       transform_id parents =
     bind_result (object_identity object_value object_ref) (\<lambda>obj.
     bind_result (canonical_sha256 H (jobj
       ([(''domain'', jstr ''tiangong.world.derived-known-id.v1''), (''world_scope_hash'', jstr world_scope_hash),
         (''proposition_type'', jstr proposition_type), (''subject_ref'', jstr subject_ref),
         (''predicate'', jstr predicate)] @ obj @
        [(''transform_id'', jstr transform_id), (''parent_known_refs'', record_refs_dump parents)])))
       (\<lambda>h. Inr (''wkn_'' @ h)))"

definition derive_derivation_hash ::
    "(nat list \<Rightarrow> string) \<Rightarrow> string \<Rightarrow> string \<Rightarrow> record_ref list \<Rightarrow> string result" where
  "derive_derivation_hash H transform_id transform_version parents =
     canonical_sha256 H (jobj [(''transform_id'', jstr transform_id), (''transform_version'', jstr transform_version),
       (''parent_known_refs'', record_refs_dump parents)])"

definition known_base_fields_ok :: "(ustring \<Rightarrow> ustring) \<Rightarrow> known_record \<Rightarrow> bool" where
  "known_base_fields_ok nfc k \<longleftrightarrow>
     kr_schema_version k = WORLD_SCHEMA_VERSION \<and> prefixed_sha256 ''wkn_'' (kr_known_id k) \<and>
     OpaqueId (kr_proposition_type k) \<and> OpaqueId (kr_subject_ref k) \<and> OpaqueId (kr_predicate k) \<and>
     opt_ok (\<lambda>v. ok (WorldValue nfc v)) (kr_object_value k) \<and> opt_ok record_ref_fields_ok (kr_object_ref k) \<and>
     ok (WorldTime (kr_time k)) \<and> kr_authority_domain k \<in> set AuthorityDomain \<and>
     milli (kr_authority_ceiling_milli k) \<and> ok (ObservabilityState (kr_observability_state k)) \<and>
     opt_ok (\<lambda>c. milli c) (kr_coverage_milli k) \<and> kr_truth_state k \<in> set TruthState \<and>
     kr_epistemic_state k \<in> set EpistemicState \<and> length (kr_provenance_refs k) \<le> 4096 \<and>
     list_all (\<lambda>r. ok (WorldSourceRef nfc r)) (kr_provenance_refs k) \<and>
     milli (kr_empirical_evidence_weight_milli k) \<and> Sha256 (kr_record_hash k)"

definition validate_known_base :: "known_record \<Rightarrow> unit result" where
  "validate_known_base k =
     (if (kr_object_value k = None) = (kr_object_ref k = None)
      then invalid ''known proposition requires exactly one object value/ref''
      else if kr_empirical_evidence_weight_milli k > kr_authority_ceiling_milli k
      then invalid ''known evidence weight cannot exceed authority ceiling''
      else if (case kr_coverage_milli k of None \<Rightarrow> False
               | Some c \<Rightarrow> c > os_scope_coverage_milli (kr_observability_state k))
      then invalid ''known coverage cannot exceed observability scope coverage''
      else Inr ())"

definition direct_source_fields_ok :: "direct_source \<Rightarrow> bool" where
  "direct_source_fields_ok d \<longleftrightarrow>
     OpaqueId (ds_source_envelope_id d) \<and> ds_source_kind d \<in> set SourceKind \<and> OpaqueId (ds_source_native_id d) \<and>
     Sha256 (ds_source_payload_hash d) \<and> OpaqueId (ds_compiler_id d) \<and> OpaqueId (ds_compiler_version d)"

definition validate_direct :: "(nat list \<Rightarrow> string) \<Rightarrow> known_record \<Rightarrow> direct_source \<Rightarrow> unit result" where
  "validate_direct H k d =
     (if ds_source_kind d \<in> {''CONTEXT_REQUEST'', ''UNCLASSIFIED_SOURCE''}
      then invalid ''control or unclassified ingress cannot become Direct Known''
      else bind_result (derive_direct_known_id H (sc_world_scope_hash (kr_world_scope k)) (kr_proposition_type k)
             (kr_subject_ref k) (kr_predicate k) (kr_object_value k) (kr_object_ref k) (ds_source_envelope_id d))
        (\<lambda>expected. if kr_known_id k \<noteq> expected then invalid ''direct known id mismatch'' else Inr ()))"

definition derived_source_fields_ok :: "derived_source \<Rightarrow> bool" where
  "derived_source_fields_ok d \<longleftrightarrow>
     1 \<le> length (dv_parent_known_refs d) \<and> length (dv_parent_known_refs d) \<le> 4096 \<and>
     list_all record_ref_fields_ok (dv_parent_known_refs d) \<and> sorted_unique_refs (dv_parent_known_refs d) \<and>
     OpaqueId (dv_transform_id d) \<and> OpaqueId (dv_transform_version d) \<and> Sha256 (dv_derivation_hash d)"

definition validate_derived :: "(nat list \<Rightarrow> string) \<Rightarrow> known_record \<Rightarrow> derived_source \<Rightarrow> unit result" where
  "validate_derived H k d =
     bind_result (derive_derived_known_id H (sc_world_scope_hash (kr_world_scope k)) (kr_proposition_type k)
         (kr_subject_ref k) (kr_predicate k) (kr_object_value k) (kr_object_ref k) (dv_transform_id d)
         (dv_parent_known_refs d)) (\<lambda>expected.
     if kr_known_id k \<noteq> expected then invalid ''derived known id mismatch''
     else bind_result (derive_derivation_hash H (dv_transform_id d) (dv_transform_version d) (dv_parent_known_refs d))
       (\<lambda>h. if dv_derivation_hash d \<noteq> h then invalid ''derived known derivation_hash mismatch'' else Inr ()))"

definition DirectKnownRecord ::
    "(nat list \<Rightarrow> string) \<Rightarrow> (ustring \<Rightarrow> ustring) \<Rightarrow> known_record \<Rightarrow> direct_source \<Rightarrow> known_record result" where
  "DirectKnownRecord H nfc k d =
     (if \<not> (known_base_fields_ok nfc k \<and> ok (WorldScope H nfc (kr_world_scope k)) \<and> direct_source_fields_ok d)
      then invalid ''field constraint''
      else bind_result (validate_known_base k) (\<lambda>_. bind_result (validate_direct H k d) (\<lambda>_.
        Inr (k\<lparr>kr_derivation := Direct d\<rparr>))))"

definition DerivedKnownRecord ::
    "(nat list \<Rightarrow> string) \<Rightarrow> (ustring \<Rightarrow> ustring) \<Rightarrow> known_record \<Rightarrow> derived_source \<Rightarrow> known_record result" where
  "DerivedKnownRecord H nfc k d =
     (if \<not> (known_base_fields_ok nfc k \<and> ok (WorldScope H nfc (kr_world_scope k)) \<and> derived_source_fields_ok d)
      then invalid ''field constraint''
      else bind_result (validate_known_base k) (\<lambda>_. bind_result (validate_derived H k d) (\<lambda>_.
        Inr (k\<lparr>kr_derivation := Derived d\<rparr>))))"

fun known_derivation_dump :: "known_derivation \<Rightarrow> (string \<times> pyval) list" where
  "known_derivation_dump (Direct d) =
     [(''derivation_type'', jstr ''DIRECT''), (''parent_known_refs'', record_refs_dump []),
      (''source_envelope_id'', jstr (ds_source_envelope_id d)), (''source_kind'', jstr (ds_source_kind d)),
      (''source_native_id'', jstr (ds_source_native_id d)),
      (''source_payload_hash'', jstr (ds_source_payload_hash d)), (''compiler_id'', jstr (ds_compiler_id d)),
      (''compiler_version'', jstr (ds_compiler_version d))]"
| "known_derivation_dump (Derived d) =
     [(''derivation_type'', jstr ''DETERMINISTIC_DERIVED''),
      (''parent_known_refs'', record_refs_dump (dv_parent_known_refs d)),
      (''transform_id'', jstr (dv_transform_id d)), (''transform_version'', jstr (dv_transform_version d)),
      (''derivation_hash'', jstr (dv_derivation_hash d))]"

text \<open>\<open>may_authorize\<close> and \<open>may_execute\<close> are the literal \<open>False\<close> in every record.\<close>

definition known_dump :: "known_record \<Rightarrow> (string \<times> pyval) list" where
  "known_dump k =
     [(''schema_version'', jstr (kr_schema_version k)), (''known_id'', jstr (kr_known_id k)),
      (''proposition_type'', jstr (kr_proposition_type k)), (''subject_ref'', jstr (kr_subject_ref k)),
      (''predicate'', jstr (kr_predicate k)), (''object_value'', jsome world_value_dump (kr_object_value k)),
      (''object_ref'', jsome record_ref_dump (kr_object_ref k)), (''world_scope'', world_scope_dump (kr_world_scope k)),
      (''time'', world_time_dump (kr_time k)), (''authority_domain'', jstr (kr_authority_domain k)),
      (''authority_ceiling_milli'', PInt (kr_authority_ceiling_milli k)),
      (''observability_state'', observability_dump (kr_observability_state k)),
      (''coverage_milli'', joptint (kr_coverage_milli k)), (''truth_state'', jstr (kr_truth_state k)),
      (''epistemic_state'', jstr (kr_epistemic_state k)),
      (''provenance_refs'', PSequence (map world_source_dump (kr_provenance_refs k))),
      (''empirical_evidence_weight_milli'', PInt (kr_empirical_evidence_weight_milli k)),
      (''may_authorize'', PBool False), (''may_execute'', PBool False)] @ known_derivation_dump (kr_derivation k)"

definition known_has_valid_hash :: "(nat list \<Rightarrow> string) \<Rightarrow> known_record \<Rightarrow> bool result" where
  "known_has_valid_hash H k = has_valid_sha256 H (known_dump k) (kr_record_hash k)"

definition known_with_computed_hash :: "(nat list \<Rightarrow> string) \<Rightarrow> known_record \<Rightarrow> known_record result" where
  "known_with_computed_hash H k =
     bind_result (computed_sha256 H (known_dump k)) (\<lambda>h. Inr (k\<lparr>kr_record_hash := h\<rparr>))"

interpretation known_seal: sealed_record known_dump kr_record_hash "\<lambda>h k. k\<lparr>kr_record_hash := h\<rparr>"
  by standard (simp_all add: known_dump_def)

lemma known_sealed:
  assumes "known_with_computed_hash H k = Inr k'"
  shows "known_has_valid_hash H k' = Inr True" "k' = k\<lparr>kr_record_hash := kr_record_hash k'\<rparr>"
  using assms known_seal.sealing_is_valid
  by (auto simp: known_with_computed_hash_def known_has_valid_hash_def bind_result_eq_Inr)

section \<open>Derivations\<close>

record derivation_ref =
  dr_derivation_id :: string
  dr_scope :: world_scope
  dr_source_refs :: "record_ref list"
  dr_target_refs :: "record_ref list"
  dr_transform_type :: string
  dr_transform_version :: string
  dr_model_assisted :: bool
  dr_lineage_root_hashes :: "string list"
  dr_authority_ceiling_milli :: int
  dr_created_at_ms :: int
  dr_derivation_sha256 :: string

definition derive_derivation_id ::
    "(nat list \<Rightarrow> string) \<Rightarrow> string \<Rightarrow> record_ref list \<Rightarrow> record_ref list \<Rightarrow> string \<Rightarrow> string \<Rightarrow> string result" where
  "derive_derivation_id H world_scope_hash source_refs target_refs transform_type transform_version =
     bind_result (canonical_sha256 H (jobj
       [(''domain'', jstr ''tiangong.world.derivation-id.v1''), (''world_scope_hash'', jstr world_scope_hash),
        (''source_refs'', record_refs_dump source_refs), (''target_refs'', record_refs_dump target_refs),
        (''transform_type'', jstr transform_type), (''transform_version'', jstr transform_version)]))
       (\<lambda>h. Inr (''wdrv_'' @ h))"

definition derivation_ref_fields_ok :: "derivation_ref \<Rightarrow> bool" where
  "derivation_ref_fields_ok d \<longleftrightarrow>
     prefixed_sha256 ''wdrv_'' (dr_derivation_id d) \<and>
     1 \<le> length (dr_source_refs d) \<and> length (dr_source_refs d) \<le> 4096 \<and>
     list_all record_ref_fields_ok (dr_source_refs d) \<and> sorted_unique_refs (dr_source_refs d) \<and>
     1 \<le> length (dr_target_refs d) \<and> length (dr_target_refs d) \<le> 4096 \<and>
     list_all record_ref_fields_ok (dr_target_refs d) \<and> sorted_unique_refs (dr_target_refs d) \<and>
     OpaqueId (dr_transform_type d) \<and> OpaqueId (dr_transform_version d) \<and>
     1 \<le> length (dr_lineage_root_hashes d) \<and> length (dr_lineage_root_hashes d) \<le> 4096 \<and>
     list_all Sha256 (dr_lineage_root_hashes d) \<and> sorted_unique_strings (dr_lineage_root_hashes d) \<and>
     milli (dr_authority_ceiling_milli d) \<and> timestamp_ok (dr_created_at_ms d) \<and> Sha256 (dr_derivation_sha256 d)"

definition derivation_ref_check :: "(nat list \<Rightarrow> string) \<Rightarrow> derivation_ref \<Rightarrow> unit result" where
  "derivation_ref_check H d =
     (if set (map ref_sort_key (dr_source_refs d)) \<inter> set (map ref_sort_key (dr_target_refs d)) \<noteq> {}
      then invalid ''derivation cannot target the same exact record revision it consumes''
      else bind_result (derive_derivation_id H (sc_world_scope_hash (dr_scope d)) (dr_source_refs d) (dr_target_refs d)
             (dr_transform_type d) (dr_transform_version d))
        (\<lambda>expected. if dr_derivation_id d \<noteq> expected then invalid ''derivation id mismatch'' else Inr ()))"

definition DerivationRef ::
    "(nat list \<Rightarrow> string) \<Rightarrow> (ustring \<Rightarrow> ustring) \<Rightarrow> derivation_ref \<Rightarrow> derivation_ref result" where
  "DerivationRef H nfc d =
     (if \<not> (derivation_ref_fields_ok d \<and> ok (WorldScope H nfc (dr_scope d))) then invalid ''field constraint''
      else bind_result (derivation_ref_check H d) (\<lambda>_. Inr d))"

definition derivation_ref_dump :: "derivation_ref \<Rightarrow> (string \<times> pyval) list" where
  "derivation_ref_dump d =
     [(''derivation_id'', jstr (dr_derivation_id d)), (''scope'', world_scope_dump (dr_scope d)),
      (''source_refs'', record_refs_dump (dr_source_refs d)), (''target_refs'', record_refs_dump (dr_target_refs d)),
      (''transform_type'', jstr (dr_transform_type d)), (''transform_version'', jstr (dr_transform_version d)),
      (''model_assisted'', PBool (dr_model_assisted d)),
      (''lineage_root_hashes'', jstrs (dr_lineage_root_hashes d)),
      (''authority_ceiling_milli'', PInt (dr_authority_ceiling_milli d)),
      (''created_at_ms'', PInt (dr_created_at_ms d)), (''empirical_evidence_weight_milli'', PInt 0)]"

definition derivation_with_computed_hash :: "(nat list \<Rightarrow> string) \<Rightarrow> derivation_ref \<Rightarrow> derivation_ref result" where
  "derivation_with_computed_hash H d =
     bind_result (computed_sha256 H (derivation_ref_dump d)) (\<lambda>h. Inr (d\<lparr>dr_derivation_sha256 := h\<rparr>))"

interpretation derivation_seal: sealed_record derivation_ref_dump dr_derivation_sha256
    "\<lambda>h d. d\<lparr>dr_derivation_sha256 := h\<rparr>"
  by standard (simp_all add: derivation_ref_dump_def)

record derivation_edge =
  de_edge_id :: string
  de_scope :: world_scope
  de_derivation_ref :: record_ref
  de_source_ref :: record_ref
  de_target_ref :: record_ref
  de_edge_kind :: string
  de_created_at_ms :: int
  de_edge_sha256 :: string

definition derive_derivation_edge_id ::
    "(nat list \<Rightarrow> string) \<Rightarrow> string \<Rightarrow> record_ref \<Rightarrow> record_ref \<Rightarrow> record_ref \<Rightarrow> string \<Rightarrow> string result" where
  "derive_derivation_edge_id H world_scope_hash derivation source target edge_kind =
     bind_result (canonical_sha256 H (jobj
       [(''domain'', jstr ''tiangong.world.derivation-edge-id.v1''), (''world_scope_hash'', jstr world_scope_hash),
        (''derivation_ref'', record_ref_dump derivation), (''source_ref'', record_ref_dump source),
        (''target_ref'', record_ref_dump target), (''edge_kind'', jstr edge_kind)]))
       (\<lambda>h. Inr (''wdge_'' @ h))"

definition derivation_edge_fields_ok :: "derivation_edge \<Rightarrow> bool" where
  "derivation_edge_fields_ok e \<longleftrightarrow>
     prefixed_sha256 ''wdge_'' (de_edge_id e) \<and> record_ref_fields_ok (de_derivation_ref e) \<and>
     record_ref_fields_ok (de_source_ref e) \<and> record_ref_fields_ok (de_target_ref e) \<and>
     de_edge_kind e \<in> {''SOURCE_TO_DERIVATION'', ''DERIVATION_TO_TARGET''} \<and> timestamp_ok (de_created_at_ms e) \<and>
     Sha256 (de_edge_sha256 e)"

definition DerivationEdge ::
    "(nat list \<Rightarrow> string) \<Rightarrow> (ustring \<Rightarrow> ustring) \<Rightarrow> derivation_edge \<Rightarrow> derivation_edge result" where
  "DerivationEdge H nfc e =
     (if \<not> (derivation_edge_fields_ok e \<and> ok (WorldScope H nfc (de_scope e))) then invalid ''field constraint''
      else bind_result (derive_derivation_edge_id H (sc_world_scope_hash (de_scope e)) (de_derivation_ref e)
             (de_source_ref e) (de_target_ref e) (de_edge_kind e))
        (\<lambda>expected. if de_edge_id e \<noteq> expected then invalid ''derivation edge id mismatch'' else Inr e))"

definition derivation_edge_dump :: "derivation_edge \<Rightarrow> (string \<times> pyval) list" where
  "derivation_edge_dump e =
     [(''edge_id'', jstr (de_edge_id e)), (''scope'', world_scope_dump (de_scope e)),
      (''derivation_ref'', record_ref_dump (de_derivation_ref e)), (''source_ref'', record_ref_dump (de_source_ref e)),
      (''target_ref'', record_ref_dump (de_target_ref e)), (''edge_kind'', jstr (de_edge_kind e)),
      (''created_at_ms'', PInt (de_created_at_ms e)), (''empirical_evidence_weight_milli'', PInt 0)]"

definition edge_with_computed_hash :: "(nat list \<Rightarrow> string) \<Rightarrow> derivation_edge \<Rightarrow> derivation_edge result" where
  "edge_with_computed_hash H e =
     bind_result (computed_sha256 H (derivation_edge_dump e)) (\<lambda>h. Inr (e\<lparr>de_edge_sha256 := h\<rparr>))"

interpretation edge_seal: sealed_record derivation_edge_dump de_edge_sha256 "\<lambda>h e. e\<lparr>de_edge_sha256 := h\<rparr>"
  by standard (simp_all add: derivation_edge_dump_def)

section \<open>World cuts\<close>

record source_watermark =
  wm_source_kind :: string
  wm_watermark_type :: string
  wm_watermark_value :: ustring
  wm_sequence :: "int option"
  wm_watermark_sha256 :: string

definition source_watermark_fields_ok :: "source_watermark \<Rightarrow> bool" where
  "source_watermark_fields_ok w \<longleftrightarrow>
     wm_source_kind w \<in> set SourceKind \<and> OpaqueId (wm_watermark_type w) \<and> 1 \<le> length (wm_watermark_value w) \<and>
     length (wm_watermark_value w) \<le> 4096 \<and> opt_ok timestamp_ok (wm_sequence w) \<and> Sha256 (wm_watermark_sha256 w)"

text \<open>\<open>self.sequence or -1\<close>: an absent sequence and the sequence 0 have the same key.\<close>

definition watermark_sort_key :: "source_watermark \<Rightarrow> string \<times> string \<times> ustring \<times> int" where
  "watermark_sort_key w =
     (wm_source_kind w, wm_watermark_type w, wm_watermark_value w,
      (case wm_sequence w of None \<Rightarrow> - 1 | Some n \<Rightarrow> if n = 0 then - 1 else n))"

definition watermark_dump :: "source_watermark \<Rightarrow> pyval" where
  "watermark_dump w =
     jobj [(''source_kind'', jstr (wm_source_kind w)), (''watermark_type'', jstr (wm_watermark_type w)),
       (''watermark_value'', jtext (wm_watermark_value w)), (''sequence'', joptint (wm_sequence w)),
       (''watermark_sha256'', jstr (wm_watermark_sha256 w))]"

record world_cut =
  wc_schema_version :: string
  wc_cut_id :: string
  wc_scope :: world_scope
  wc_source_watermarks :: "source_watermark list"
  wc_time :: world_time
  wc_cut_sha256 :: string

definition derive_world_cut_id ::
    "(nat list \<Rightarrow> string) \<Rightarrow> string \<Rightarrow> source_watermark list \<Rightarrow> string result" where
  "derive_world_cut_id H world_scope_hash watermarks =
     bind_result (canonical_sha256 H (jobj
       [(''domain'', jstr ''tiangong.world.cut-id.v1''), (''world_scope_hash'', jstr world_scope_hash),
        (''watermarks'', PSequence (map watermark_dump watermarks))])) (\<lambda>h. Inr (''wcut_'' @ h))"

definition world_cut_fields_ok :: "world_cut \<Rightarrow> bool" where
  "world_cut_fields_ok c \<longleftrightarrow>
     wc_schema_version c = WORLD_SCHEMA_VERSION \<and> prefixed_sha256 ''wcut_'' (wc_cut_id c) \<and>
     length (wc_source_watermarks c) \<le> 256 \<and> list_all source_watermark_fields_ok (wc_source_watermarks c) \<and>
     map watermark_sort_key (wc_source_watermarks c) = sorted_set (map watermark_sort_key (wc_source_watermarks c)) \<and>
     ok (WorldTime (wc_time c)) \<and> Sha256 (wc_cut_sha256 c)"

definition WorldCut :: "(nat list \<Rightarrow> string) \<Rightarrow> (ustring \<Rightarrow> ustring) \<Rightarrow> world_cut \<Rightarrow> world_cut result" where
  "WorldCut H nfc c =
     (if \<not> (world_cut_fields_ok c \<and> ok (WorldScope H nfc (wc_scope c))) then invalid ''field constraint''
      else bind_result (derive_world_cut_id H (sc_world_scope_hash (wc_scope c)) (wc_source_watermarks c))
        (\<lambda>expected. if wc_cut_id c \<noteq> expected then invalid ''WorldCut id mismatch'' else Inr c))"

end
