(* ===== verification/Known_Common.thy ===== *)
theory Known_Common
  imports World_Contracts
begin

text \<open>
  The common kernel of world understanding (\<open>src/world_understanding/common/\<close>: \<open>identity.py\<close>, \<open>scope.py\<close>,
  \<open>provenance.py\<close>, \<open>time.py\<close>, \<open>observability.py\<close>, \<open>world_cut.py\<close>, \<open>transaction.py\<close>, \<open>epistemic.py\<close>) and
  \<open>src/world_understanding/scope_guard.py\<close>.  Exception classes the program declares are values
  \<open>Raised class message\<close>.  The invalidation worklist is a total function; its termination measure is the
  pair of the number of hashes not yet dirty and the length of the frontier.
\<close>

section \<open>Scope\<close>

definition same_scope_identity :: "world_scope \<Rightarrow> world_scope \<Rightarrow> bool" where
  "same_scope_identity l r \<longleftrightarrow>
     sc_life_id l = sc_life_id r \<and> sc_world_id l = sc_world_id r \<and>
     sc_world_scope_hash l = sc_world_scope_hash r \<and> sc_principal_scope_hash l = sc_principal_scope_hash r"

definition require_exact_scope :: "world_scope \<Rightarrow> world_scope \<Rightarrow> unit result" where
  "require_exact_scope expected actual =
     (if \<not> same_scope_identity expected actual then Inl (Raised ''CommonScopeMismatch'' ''SCOPE_MISMATCH'')
      else Inr ())"

definition require_exact_scope_batch :: "world_scope \<Rightarrow> world_scope list \<Rightarrow> unit result" where
  "require_exact_scope_batch expected scopes =
     bind_result (map_result (require_exact_scope expected) scopes) (\<lambda>_. Inr ())"

definition scope_contains :: "world_scope \<Rightarrow> world_scope \<Rightarrow> bool" where
  "scope_contains container member \<longleftrightarrow>
     (if sc_life_id container \<noteq> sc_life_id member \<or> sc_world_id container \<noteq> sc_world_id member then False
      else if sc_principal_scope_hash container \<noteq> sc_principal_scope_hash member then False
      else if sc_domain_id container \<noteq> sc_domain_id member then False
      else (let outer = set (map (\<lambda>b. (sb_key b, sb_value b)) (sc_scope_bindings container));
                inner = set (map (\<lambda>b. (sb_key b, sb_value b)) (sc_scope_bindings member))
            in outer \<subseteq> inner))"

definition require_same_world_scope :: "world_scope \<Rightarrow> world_scope \<Rightarrow> unit result" where
  "require_same_world_scope expected actual =
     (if sc_life_id actual \<noteq> sc_life_id expected \<or> sc_world_scope_hash actual \<noteq> sc_world_scope_hash expected
      then Inl (Raised ''ScopeMismatchError'' ''SCOPE_MISMATCH'')
      else if sc_principal_scope_hash actual \<noteq> sc_principal_scope_hash expected
      then Inl (Raised ''ScopeMismatchError'' ''PRINCIPAL_SCOPE_MISMATCH'')
      else Inr ())"

definition require_same_scope_parents :: "world_scope \<Rightarrow> known_record list \<Rightarrow> unit result" where
  "require_same_scope_parents target parents =
     bind_result (map_result (\<lambda>p. require_same_world_scope target (kr_world_scope p)) parents) (\<lambda>_. Inr ())"

section \<open>Provenance\<close>

definition merge_provenance :: "world_source_ref list list \<Rightarrow> world_source_ref list" where
  "merge_provenance ref_groups = dict_values world_source_sort_key (concat ref_groups)"

definition require_provenance :: "world_source_ref list \<Rightarrow> int \<Rightarrow> unit result" where
  "require_provenance refs empirical_weight_milli =
     (if empirical_weight_milli > 0 \<and> refs = [] then Inl (Raised ''ProvenanceBroken'' ''PROVENANCE_BROKEN'')
      else Inr ())"

definition independence_family :: "world_source_ref \<Rightarrow> string \<times> string" where
  "independence_family r = (ws_source_kind r, ws_object_id r)"

definition independent_evidence_count :: "world_source_ref list list \<Rightarrow> nat" where
  "independent_evidence_count ref_groups = length (remdups (map independence_family (concat ref_groups)))"

section \<open>Time\<close>

definition intersect_world_times :: "world_time list \<Rightarrow> world_time result" where
  "intersect_world_times ts =
     (if ts = [] then Inl (ValueError ''time intersection requires inputs'')
      else
        (let valid_from = Max (set (map wt_valid_from_ms ts));
             finite_ends = List.map_filter wt_valid_until_ms ts;
             valid_until = (if finite_ends \<noteq> [] then Some (Min (set finite_ends)) else None);
             observed_values = map wt_observed_at_ms ts;
             observed_at = (if None \<in> set observed_values then None
               else Some (Max (set (List.map_filter id observed_values))));
             recorded_at = Max (set (map wt_recorded_at_ms ts))
         in if (case valid_until of None \<Rightarrow> False | Some u \<Rightarrow> u < valid_from)
            then Inl (Raised ''TimeIntersectionEmpty'' ''TIME_INTERSECTION_EMPTY'')
            else WorldTime \<lparr>wt_valid_from_ms = valid_from, wt_valid_until_ms = valid_until,
              wt_observed_at_ms = observed_at, wt_recorded_at_ms = recorded_at\<rparr>))"

definition epistemic_freshness :: "string \<Rightarrow> int \<Rightarrow> int \<Rightarrow> int option \<Rightarrow> string result" where
  "epistemic_freshness current recorded_at_ms now_ms stale_after_ms =
     (if current \<in> {''CHALLENGED'', ''REVERIFYING'', ''RETIRED''} then Inr current
      else case stale_after_ms of None \<Rightarrow> Inr current
      | Some stale_after \<Rightarrow>
          if stale_after < 0 \<or> now_ms < recorded_at_ms then Inl (ValueError ''invalid freshness clock'')
          else Inr (if now_ms - recorded_at_ms > stale_after then ''STALE'' else current))"

section \<open>Observability\<close>

definition intersect_observability :: "observability_state list \<Rightarrow> observability_state result" where
  "intersect_observability states =
     (if states = [] then Inl (ValueError ''observability intersection requires inputs'')
      else
        (let access = Min (set (map os_access_milli states));
             scope = Min (set (map os_scope_coverage_milli states));
             time = Min (set (map os_time_coverage_milli states));
             adapter = Min (set (map os_adapter_quality_milli states));
             measurement = Min (set (map os_measurement_quality_milli states));
             combined = compute_observability_quality_milli access scope time adapter measurement;
             mode = (if combined = 0 then ''NOT_OBSERVED''
               else if list_all (\<lambda>s. os_mode s = ''OBSERVED'') states then ''OBSERVED'' else ''PARTIAL'');
             search_hashes = remdups (List.map_filter os_search_scope_hash states);
             search_scope_hash = (case search_hashes of [h] \<Rightarrow> Some h | _ \<Rightarrow> None)
         in ObservabilityState \<lparr>os_mode = mode, os_access_milli = access, os_scope_coverage_milli = scope,
              os_time_coverage_milli = time, os_adapter_quality_milli = adapter,
              os_measurement_quality_milli = measurement, os_combined_quality_milli = combined,
              os_search_scope_hash = search_scope_hash\<rparr>))"

definition effective_coverage_milli :: "known_record \<Rightarrow> int" where
  "effective_coverage_milli k =
     (case kr_coverage_milli k of Some c \<Rightarrow> c | None \<Rightarrow> os_scope_coverage_milli (kr_observability_state k))"

definition ascii_upper :: "string \<Rightarrow> string" where
  "ascii_upper s = map (\<lambda>c. if is_lower c then char_of (of_char c - 32 :: nat) else c) s"

definition starts_with :: "string \<Rightarrow> string \<Rightarrow> bool" where
  "starts_with p s \<longleftrightarrow> take (length p) s = p"

definition is_negative_known :: "known_record \<Rightarrow> bool" where
  "is_negative_known k \<longleftrightarrow>
     (let text = (case kr_object_value k of None \<Rightarrow> None | Some v \<Rightarrow> wv_string_value v)
      in if kr_proposition_type k = ''FILE_EXISTS'' \<and> text = Some (ustr ''false'') then True
         else list_ex (\<lambda>p. starts_with p (ascii_upper (kr_proposition_type k)))
                [''NOT_'', ''NO_'', ''MISSING_'', ''ABSENT_''])"

definition require_negative_evidence_coverage :: "known_record \<Rightarrow> int \<Rightarrow> unit result" where
  "require_negative_evidence_coverage k min_coverage_milli =
     (if \<not> is_negative_known k then Inr ()
      else if os_mode (kr_observability_state k) \<notin> {''OBSERVED'', ''PARTIAL''} \<or>
        effective_coverage_milli k < min_coverage_milli
      then Inl (Raised ''NegativeEvidenceInsufficient'' ''NEGATIVE_EVIDENCE_REQUIRES_COVERAGE'')
      else Inr ())"

section \<open>World cuts\<close>

datatype cut_relation = SAME | LEFT_DOMINATES | RIGHT_DOMINATES | DISJOINT | INCOMPATIBLE

definition watermark_key :: "source_watermark \<Rightarrow> string \<times> string" where
  "watermark_key w = (wm_source_kind w, wm_watermark_type w)"

definition watermark_map :: "world_cut \<Rightarrow> (string \<times> string) \<rightharpoonup> source_watermark" where
  "watermark_map c = map_of (rev (map (\<lambda>w. (watermark_key w, w)) (wc_source_watermarks c)))"

definition overlap_keys :: "world_cut \<Rightarrow> world_cut \<Rightarrow> (string \<times> string) list" where
  "overlap_keys l r = sorted_set (filter (\<lambda>k. k \<in> set (map watermark_key (wc_source_watermarks r)))
     (map watermark_key (wc_source_watermarks l)))"

text \<open>The loop over the overlap: \<open>None\<close> is the early return of \<open>INCOMPATIBLE\<close>.\<close>

datatype direction = LEFT | RIGHT

fun scan_directions ::
    "((string \<times> string) \<rightharpoonup> source_watermark) \<Rightarrow> ((string \<times> string) \<rightharpoonup> source_watermark) \<Rightarrow>
     (string \<times> string) list \<Rightarrow> direction set \<Rightarrow> direction set option" where
  "scan_directions lm rm [] directions = Some directions"
| "scan_directions lm rm (key # keys) directions =
     (case (lm key, rm key) of
        (Some a, Some b) \<Rightarrow>
          if wm_watermark_value a = wm_watermark_value b \<and> wm_sequence a = wm_sequence b
          then scan_directions lm rm keys directions
          else (case (wm_sequence a, wm_sequence b) of
              (Some m, Some n) \<Rightarrow>
                if m = n then None
                else scan_directions lm rm keys (insert (if m > n then LEFT else RIGHT) directions)
            | _ \<Rightarrow> None)
      | _ \<Rightarrow> None)"

definition compare_world_cuts :: "world_cut \<Rightarrow> world_cut \<Rightarrow> cut_relation" where
  "compare_world_cuts l r =
     (if \<not> ok (require_exact_scope (wc_scope l) (wc_scope r)) then INCOMPATIBLE
      else let overlap = overlap_keys l r
        in if overlap = [] then DISJOINT
           else case scan_directions (watermark_map l) (watermark_map r) overlap {} of
               None \<Rightarrow> INCOMPATIBLE
             | Some directions \<Rightarrow>
                 if card directions > 1 then INCOMPATIBLE
                 else if directions = {} then SAME
                 else if LEFT \<in> directions then LEFT_DOMINATES else RIGHT_DOMINATES)"

fun require_compatible_world_cuts :: "world_cut list \<Rightarrow> unit result" where
  "require_compatible_world_cuts [] = Inr ()"
| "require_compatible_world_cuts (left # rest) =
     (if list_ex (\<lambda>right. compare_world_cuts left right = INCOMPATIBLE) rest
      then Inl (Raised ''IncompatibleWorldCut'' ''WORLD_CUT_INCOMPATIBLE'')
      else require_compatible_world_cuts rest)"

section \<open>Scoped transactions\<close>

record transaction_item =
  ti_item_hash :: string
  ti_scope :: world_scope
  ti_world_cut :: "world_cut option"

record scoped_transaction =
  tx_scope :: world_scope
  tx_items :: "transaction_item list"
  tx_closed :: bool

definition new_transaction :: "world_scope \<Rightarrow> scoped_transaction" where
  "new_transaction scope = \<lparr>tx_scope = scope, tx_items = [], tx_closed = False\<rparr>"

definition stage :: "transaction_item \<Rightarrow> scoped_transaction \<Rightarrow> scoped_transaction result" where
  "stage item tx =
     (if tx_closed tx then Inl (RuntimeError ''transaction closed'')
      else bind_result (require_exact_scope (tx_scope tx) (ti_scope item)) (\<lambda>_.
           bind_result (require_compatible_world_cuts (List.map_filter ti_world_cut (tx_items tx @ [item]))) (\<lambda>_.
           Inr (tx\<lparr>tx_items := tx_items tx @ [item]\<rparr>))))"

definition commit :: "scoped_transaction \<Rightarrow> (transaction_item list \<times> scoped_transaction) result" where
  "commit tx =
     (if tx_closed tx then Inl (RuntimeError ''transaction closed'')
      else Inr (sort_key ti_item_hash (tx_items tx), tx\<lparr>tx_closed := True\<rparr>))"

definition rollback :: "scoped_transaction \<Rightarrow> scoped_transaction" where
  "rollback tx = tx\<lparr>tx_items := [], tx_closed := True\<rparr>"

section \<open>The epistemic plane\<close>

definition FORBIDDEN_EMPIRICAL_SOURCE_KINDS :: "string list" where
  "FORBIDDEN_EMPIRICAL_SOURCE_KINDS =
     [''MODEL_OUTPUT'', ''AUTONOMY'', ''CONTEXT_CONTINUITY'', ''MEMORY'', ''KNOWLEDGE'', ''WEB_EXTERNAL'']"

definition FORBIDDEN_SELF_PROOF_TYPES :: "string list" where
  "FORBIDDEN_SELF_PROOF_TYPES =
     [''WorldPrediction'', ''PredictionOutcome'', ''WorldHypothesis'', ''WorldCuriosity'', ''WorldInquiry'',
      ''InquiryOutcome'', ''WorldContextPacket'', ''WorldQuery'']"

record gamma_decision =
  gd_admissible :: bool
  gd_stable_promotion :: bool
  gd_truth_state :: string
  gd_epistemic_state :: string
  gd_effective_coverage_milli :: int
  gd_independent_evidence_count :: nat
  gd_reason_codes :: "string list"

definition EpistemicPlane :: "int \<Rightarrow> int result" where
  "EpistemicPlane min_negative_coverage_milli =
     (if \<not> milli min_negative_coverage_milli then Inl (ValueError ''min_negative_coverage_milli out of range'')
      else Inr min_negative_coverage_milli)"

fun source_kind_of :: "known_derivation \<Rightarrow> string option" where
  "source_kind_of (Direct d) = Some (ds_source_kind d)"
| "source_kind_of (Derived d) = None"

definition cut_check :: "world_scope \<Rightarrow> world_cut option \<Rightarrow> world_cut list \<Rightarrow> unit result" where
  "cut_check expected record_cut compatible_cuts =
     (case record_cut of None \<Rightarrow> Inr ()
      | Some c \<Rightarrow> bind_result (require_exact_scope expected (wc_scope c)) (\<lambda>_.
          require_compatible_world_cuts (c # compatible_cuts)))"

definition evaluate_known ::
    "int \<Rightarrow> known_record \<Rightarrow> world_scope \<Rightarrow> world_cut option \<Rightarrow> world_cut list \<Rightarrow> known_record list \<Rightarrow> gamma_decision" where
  "evaluate_known min_negative_coverage_milli k expected_scope record_cut compatible_cuts supporting_records =
     (let bad_scope = \<not> ok (require_exact_scope expected_scope (kr_world_scope k));
          bad_cut = \<not> ok (cut_check expected_scope record_cut compatible_cuts);
          empirical = kr_empirical_evidence_weight_milli k;
          bad_provenance = \<not> ok (require_provenance (kr_provenance_refs k) empirical);
          self_proof = (case source_kind_of (kr_derivation k) of None \<Rightarrow> False
            | Some s \<Rightarrow> s \<in> set FORBIDDEN_EMPIRICAL_SOURCE_KINDS \<and> empirical \<noteq> 0);
          bad_negative = \<not> ok (require_negative_evidence_coverage k min_negative_coverage_milli);
          support = k # supporting_records;
          independence = independent_evidence_count (map kr_provenance_refs support);
          unknown = (kr_truth_state k = ''UNKNOWN'');
          not_current = (kr_epistemic_state k \<in> {''STALE'', ''CHALLENGED'', ''REVERIFYING'', ''RETIRED''});
          admissible = (\<not> bad_scope \<and> \<not> bad_cut);
          stable = (\<not> bad_scope \<and> \<not> bad_cut \<and> \<not> bad_provenance \<and> \<not> self_proof \<and> \<not> bad_negative \<and>
            \<not> unknown \<and> \<not> not_current);
          reasons = (if bad_scope then [''SCOPE_MISMATCH''] else []) @
            (if bad_cut then [''WORLD_CUT_INCOMPATIBLE''] else []) @
            (if bad_provenance then [''PROVENANCE_BROKEN''] else []) @
            (if self_proof then [''SELF_PROOF_EMPIRICAL_FORBIDDEN''] else []) @
            (if bad_negative then [''NEGATIVE_EVIDENCE_REQUIRES_COVERAGE''] else []) @
            (if unknown then [''OPEN_WORLD_UNKNOWN''] else []) @
            (if not_current then [''EPISTEMIC_'' @ kr_epistemic_state k] else [])
      in \<lparr>gd_admissible = admissible, gd_stable_promotion = (stable \<and> admissible),
          gd_truth_state = kr_truth_state k, gd_epistemic_state = kr_epistemic_state k,
          gd_effective_coverage_milli = effective_coverage_milli k,
          gd_independent_evidence_count = independence, gd_reason_codes = sorted_set reasons\<rparr>)"

definition require_stable_known :: "int \<Rightarrow> known_record \<Rightarrow> world_scope \<Rightarrow> unit result" where
  "require_stable_known min_negative_coverage_milli k expected_scope =
     (let decision = evaluate_known min_negative_coverage_milli k expected_scope None [] []
      in if \<not> gd_admissible decision \<or> \<not> gd_stable_promotion decision
         then Inl (Raised ''EpistemicIntegrityError''
           (case gd_reason_codes decision of r # _ \<Rightarrow> r | [] \<Rightarrow> ''GAMMA_REJECTED''))
         else Inr ())"

definition validate_non_evidence_object :: "string \<Rightarrow> int \<Rightarrow> unit result" where
  "validate_non_evidence_object type_name empirical_evidence_weight_milli =
     (if type_name \<in> set FORBIDDEN_SELF_PROOF_TYPES \<and> empirical_evidence_weight_milli \<noteq> 0
      then Inl (Raised ''EpistemicIntegrityError'' ''SELF_PROOF_EMPIRICAL_FORBIDDEN'')
      else Inr ())"

section \<open>Invalidation\<close>

text \<open>
  \<open>descendants_by_parent.get(parent, ())\<close> on the mapping given as its items.  The order in which
  \<open>list(dirty)\<close> lists the initial set is not specified by the language: it is the argument
  \<open>frontier\<close>, any list with those elements.
\<close>

definition children_of :: "(string \<times> string list) list \<Rightarrow> string \<Rightarrow> string list" where
  "children_of descendants_by_parent parent =
     (case map_of descendants_by_parent parent of None \<Rightarrow> [] | Some cs \<Rightarrow> cs)"

fun visit_children :: "string list \<Rightarrow> string set \<Rightarrow> string list \<Rightarrow> string set \<times> string list" where
  "visit_children [] dirty frontier = (dirty, frontier)"
| "visit_children (child # rest) dirty frontier =
     (if child \<notin> dirty then visit_children rest (insert child dirty) (frontier @ [child])
      else visit_children rest dirty frontier)"

lemma visit_children_split:
  "\<exists>new. visit_children cs dirty frontier = (dirty \<union> set cs, frontier @ new) \<and>
     set new = set cs - dirty \<and> distinct new"
proof (induction cs arbitrary: dirty frontier)
  case (Cons c cs)
  show ?case
  proof (cases "c \<in> dirty")
    case True
    with Cons.IH [of dirty frontier] show ?thesis by (auto simp: insert_absorb)
  next
    case False
    with Cons.IH [of "insert c dirty" "frontier @ [c]"] obtain new
      where "visit_children cs (insert c dirty) (frontier @ [c]) = (insert c dirty \<union> set cs, (frontier @ [c]) @ new)"
        "set new = set cs - insert c dirty" "distinct new" by blast
    with False show ?thesis by (intro exI [of _ "c # new"]) auto
  qed
qed simp

definition all_children :: "(string \<times> string list) list \<Rightarrow> string set" where
  "all_children d = set (concat (map snd d))"

lemma children_of_subset: "set (children_of d p) \<subseteq> all_children d"
  by (cases "map_of d p") (auto simp: children_of_def all_children_def intro!: bexI [OF _ map_of_SomeD])

lemma invalidation_loop_decreases:
  assumes "visit_children (children_of d p) dirty (butlast (x # xs)) = (dirty', frontier')"
  shows "card (all_children d - dirty') < card (all_children d - dirty) \<or>
    card (all_children d - dirty') = card (all_children d - dirty) \<and> length frontier' < length (x # xs)"
proof -
  let ?U = "all_children d"
  from visit_children_split [of "children_of d p" dirty "butlast (x # xs)"] assms obtain new
    where D: "dirty' = dirty \<union> set (children_of d p)" and F: "frontier' = butlast (x # xs) @ new"
      and new: "set new = set (children_of d p) - dirty" by auto
  have fin: "finite (?U - dirty)" by (simp add: all_children_def)
  show ?thesis
  proof (cases "set (children_of d p) \<subseteq> dirty")
    case True
    with new have "new = []" by (metis Diff_eq_empty_iff set_empty)
    with True D F show ?thesis by (simp add: Un_absorb2)
  next
    case False
    with children_of_subset [of d p] have "?U - dirty' \<subset> ?U - dirty" unfolding D by auto
    with fin show ?thesis by (simp add: psubset_card_mono)
  qed
qed

function (sequential) invalidation_loop ::
    "(string \<times> string list) list \<Rightarrow> string set \<Rightarrow> string list \<Rightarrow> string set" where
  "invalidation_loop d dirty [] = dirty"
| "invalidation_loop d dirty (x # xs) =
     (let frontier = x # xs;
          parent = last frontier;
          (dirty', frontier') = visit_children (children_of d parent) dirty (butlast frontier)
      in invalidation_loop d dirty' frontier')"
  by pat_completeness auto

termination
proof (relation "measures [\<lambda>(d, dirty, frontier). card (all_children d - dirty), \<lambda>(d, dirty, frontier). length frontier]")
  fix d dirty and x :: string and xs frontier parent y dirty' frontier'
  assume a: "frontier = x # xs" "parent = last frontier"
    "y = visit_children (children_of d parent) dirty (butlast frontier)" "(dirty', frontier') = y"
  then have "visit_children (children_of d parent) dirty (butlast (x # xs)) = (dirty', frontier')" by simp
  from invalidation_loop_decreases [OF this]
  show "((d, dirty', frontier'), (d, dirty, x # xs))
      \<in> measures [\<lambda>(d, dirty, frontier). card (all_children d - dirty), \<lambda>(d, dirty, frontier). length frontier]"
    by auto
qed simp

record invalidation_result =
  iv_dirty_record_hashes :: "string list"
  iv_reason_code :: string
  iv_truth_mutated :: bool
  iv_epistemic_state_mutated :: bool

definition propagate_invalidation :: "string list \<Rightarrow> (string \<times> string list) list \<Rightarrow> invalidation_result" where
  "propagate_invalidation frontier descendants_by_parent =
     \<lparr>iv_dirty_record_hashes =
        sorted_list_of_set (invalidation_loop descendants_by_parent (set frontier) frontier),
      iv_reason_code = ''UPSTREAM_DIRTY'', iv_truth_mutated = False, iv_epistemic_state_mutated = False\<rparr>"

text \<open>The loop computes the hashes reachable from the changed ones.\<close>

definition descends :: "(string \<times> string list) list \<Rightarrow> (string \<times> string) set" where
  "descends d = {(p, c). c \<in> set (children_of d p)}"

lemma closed_contains_reachable:
  assumes "S \<subseteq> D" and "\<And>p c. p \<in> D \<Longrightarrow> (p, c) \<in> r \<Longrightarrow> c \<in> D"
  shows "r\<^sup>* `` S \<subseteq> D"
proof
  fix y assume "y \<in> r\<^sup>* `` S"
  then obtain x where x: "x \<in> S" "(x, y) \<in> r\<^sup>*" by auto
  from x(2) have "x \<in> D \<longrightarrow> y \<in> D" by (induction rule: rtrancl_induct) (use assms(2) in auto)
  with x(1) assms(1) show "y \<in> D" by auto
qed

lemma invalidation_loop_correct:
  assumes "set frontier \<subseteq> dirty" "\<And>p. p \<in> dirty - set frontier \<Longrightarrow> set (children_of d p) \<subseteq> dirty"
  shows "invalidation_loop d dirty frontier = (descends d)\<^sup>* `` dirty"
  using assms
proof (induction d dirty frontier rule: invalidation_loop.induct)
  case (1 d dirty)
  have "(descends d)\<^sup>* `` dirty \<subseteq> dirty"
    by (rule closed_contains_reachable) (use 1 in \<open>auto simp: descends_def\<close>)
  then show ?case by auto
next
  case (2 d dirty x xs)
  define p where "p = last (x # xs)"
  obtain new where v: "visit_children (children_of d p) dirty (butlast (x # xs)) =
      (dirty \<union> set (children_of d p), butlast (x # xs) @ new)" and new: "set new = set (children_of d p) - dirty"
    using visit_children_split by blast
  have xs: "set (x # xs) = insert p (set (butlast (x # xs)))"
    unfolding p_def by (metis append_butlast_last_id list.discI list.simps(15) rotate1.simps(2) set_rotate1)
  let ?D = "dirty \<union> set (children_of d p)"
  have step: "invalidation_loop d dirty (x # xs) = invalidation_loop d ?D (butlast (x # xs) @ new)"
    using v by (simp add: p_def Let_def del: butlast.simps)
  also have "\<dots> = (descends d)\<^sup>* `` ?D"
  proof (rule "2.IH" [OF refl p_def _ refl])
    show "(?D, butlast (x # xs) @ new) = visit_children (children_of d p) dirty (butlast (x # xs))" using v by simp
    show "set (butlast (x # xs) @ new) \<subseteq> ?D" using "2.prems"(1) xs new by auto
    fix q assume q: "q \<in> ?D - set (butlast (x # xs) @ new)"
    then have "q = p \<or> q \<in> dirty - set (x # xs)" using xs new by auto
    with "2.prems"(2) show "set (children_of d q) \<subseteq> ?D" by auto
  qed
  also have "\<dots> = (descends d)\<^sup>* `` dirty"
  proof -
    have "set (children_of d p) \<subseteq> (descends d)\<^sup>* `` dirty"
      using "2.prems"(1) xs by (auto simp: descends_def intro!: rev_ImageI [of p])
    then show ?thesis by (auto intro: rtrancl_trans)
  qed
  finally show ?case .
qed

lemma finite_descends: "finite S \<Longrightarrow> finite ((descends d)\<^sup>* `` S)"
proof -
  assume "finite S"
  have "(descends d)\<^sup>* `` S \<subseteq> S \<union> all_children d"
    by (rule closed_contains_reachable) (use children_of_subset in \<open>auto simp: descends_def\<close>)
  with \<open>finite S\<close> show ?thesis by (auto simp: all_children_def intro: finite_subset)
qed

text \<open>C26: Invalidation marks exactly what descends from a changed record: for every order in which the initial
  set is listed, the loop ends and the result is the sorted, repetition-free list of the hashes
  reachable from the changed ones over the mapping of descendants; no truth value and no epistemic
  state is changed.\<close>

theorem propagate_invalidation_reachable:
  "set (iv_dirty_record_hashes (propagate_invalidation changed d)) = (descends d)\<^sup>* `` set changed \<and>
   sorted_wrt (<) (iv_dirty_record_hashes (propagate_invalidation changed d)) \<and>
   iv_truth_mutated (propagate_invalidation changed d) = False \<and>
   iv_epistemic_state_mutated (propagate_invalidation changed d) = False"
proof -
  have loop: "invalidation_loop d (set changed) changed = (descends d)\<^sup>* `` set changed"
    by (rule invalidation_loop_correct) auto
  then show ?thesis
    using finite_descends [of "set changed" d] by (simp add: propagate_invalidation_def)
qed

section \<open>Intersections\<close>

lemma max_in: "xs \<noteq> [] \<Longrightarrow> \<exists>x \<in> set xs. Max (set (map f xs)) = f x"
proof -
  assume "xs \<noteq> []"
  then have "Max (set (map f xs)) \<in> set (map f xs)" by (intro Max_in) simp_all
  then show ?thesis by (simp only: set_map image_iff)
qed

lemma min_in: "xs \<noteq> [] \<Longrightarrow> \<exists>x \<in> set xs. Min (set (map f xs)) = f x"
proof -
  assume "xs \<noteq> []"
  then have "Min (set (map f xs)) \<in> set (map f xs)" by (intro Min_in) simp_all
  then show ?thesis by (simp only: set_map image_iff)
qed

lemma min_le: "x \<in> set xs \<Longrightarrow> Min (set (map f xs)) \<le> f x"
  by (rule Min_le) simp_all

lemma ok_WorldTime:
  "ok (WorldTime t) \<longleftrightarrow> world_time_fields_ok t \<and> validate_ordering t = Inr ()"
  by (auto simp: WorldTime_def invalid_def ok_iff bind_result_eq_Inr)

lemma WorldTime_Inr: "WorldTime t = Inr t' \<longleftrightarrow> t' = t \<and> ok (WorldTime t)"
  by (auto simp: WorldTime_def invalid_def ok_iff bind_result_eq_Inr split: if_splits)

lemma validate_ordering_ok:
  "validate_ordering t = Inr () \<longleftrightarrow>
     (\<forall>u. wt_valid_until_ms t = Some u \<longrightarrow> wt_valid_from_ms t \<le> u) \<and>
     (\<forall>p. wt_observed_at_ms t = Some p \<longrightarrow> p \<le> wt_recorded_at_ms t)"
  by (auto simp: validate_ordering_def invalid_def split: option.splits)

definition valid_at :: "world_time \<Rightarrow> int \<Rightarrow> bool" where
  "valid_at t x \<longleftrightarrow> wt_valid_from_ms t \<le> x \<and> (case wt_valid_until_ms t of None \<Rightarrow> True | Some u \<Rightarrow> x \<le> u)"

lemma set_map_filter: "set (List.map_filter f xs) = {y. \<exists>x \<in> set xs. f x = Some y}"
  by (force simp: List.map_filter_def)

lemma map_filter_eq_Nil: "List.map_filter f xs = [] \<longleftrightarrow> (\<forall>x \<in> set xs. f x = None)"
  by (induction xs) (auto simp: List.map_filter_simps split: option.splits)

definition meet_from :: "world_time list \<Rightarrow> int" where
  "meet_from ts = Max (set (map wt_valid_from_ms ts))"

definition meet_until :: "world_time list \<Rightarrow> int option" where
  "meet_until ts = (let ends = List.map_filter wt_valid_until_ms ts in if ends \<noteq> [] then Some (Min (set ends)) else None)"

definition meet_observed :: "world_time list \<Rightarrow> int option" where
  "meet_observed ts = (if None \<in> set (map wt_observed_at_ms ts) then None
     else Some (Max (set (List.map_filter id (map wt_observed_at_ms ts)))))"

definition meet_recorded :: "world_time list \<Rightarrow> int" where
  "meet_recorded ts = Max (set (map wt_recorded_at_ms ts))"

lemma intersect_world_times_meet:
  "intersect_world_times ts =
     (if ts = [] then Inl (ValueError ''time intersection requires inputs'')
      else if (case meet_until ts of None \<Rightarrow> False | Some u \<Rightarrow> u < meet_from ts)
      then Inl (Raised ''TimeIntersectionEmpty'' ''TIME_INTERSECTION_EMPTY'')
      else WorldTime \<lparr>wt_valid_from_ms = meet_from ts, wt_valid_until_ms = meet_until ts,
        wt_observed_at_ms = meet_observed ts, wt_recorded_at_ms = meet_recorded ts\<rparr>)"
  by (simp add: intersect_world_times_def meet_from_def meet_until_def meet_observed_def meet_recorded_def Let_def)

lemma meet_until_Some:
  assumes "meet_until ts = Some u"
  shows "\<exists>t \<in> set ts. wt_valid_until_ms t = Some u"
proof -
  have "u \<in> set (List.map_filter wt_valid_until_ms ts)"
    using assms Min_in [of "set (List.map_filter wt_valid_until_ms ts)"]
    by (auto simp: meet_until_def Let_def split: if_splits)
  then show ?thesis by (simp add: set_map_filter)
qed

lemma meet_until_le:
  assumes "t \<in> set ts" "wt_valid_until_ms t = Some v"
  shows "\<exists>u. meet_until ts = Some u \<and> u \<le> v"
proof -
  have v: "v \<in> set (List.map_filter wt_valid_until_ms ts)" using assms by (auto simp: set_map_filter)
  then have "List.map_filter wt_valid_until_ms ts \<noteq> []" by auto
  with v show ?thesis by (simp add: meet_until_def Let_def)
qed

lemma meet_from_in: "ts \<noteq> [] \<Longrightarrow> \<exists>t \<in> set ts. meet_from ts = wt_valid_from_ms t"
  unfolding meet_from_def by (rule max_in)

lemma meet_from_ge: "t \<in> set ts \<Longrightarrow> wt_valid_from_ms t \<le> meet_from ts"
  by (simp add: meet_from_def)

lemma meet_valid_at:
  assumes "ts \<noteq> []"
  shows "meet_from ts \<le> x \<and> (case meet_until ts of None \<Rightarrow> True | Some u \<Rightarrow> x \<le> u) \<longleftrightarrow> (\<forall>t \<in> set ts. valid_at t x)"
proof
  assume l: "meet_from ts \<le> x \<and> (case meet_until ts of None \<Rightarrow> True | Some u \<Rightarrow> x \<le> u)"
  show "\<forall>t \<in> set ts. valid_at t x"
  proof
    fix t assume t: "t \<in> set ts"
    with l meet_from_ge have "wt_valid_from_ms t \<le> x" by fastforce
    moreover have "x \<le> v" if "wt_valid_until_ms t = Some v" for v
      using meet_until_le [OF t that] l by auto
    ultimately show "valid_at t x" by (simp add: valid_at_def split: option.splits)
  qed
next
  assume r: "\<forall>t \<in> set ts. valid_at t x"
  have "meet_from ts \<le> x" using meet_from_in [OF assms] r by (auto simp: valid_at_def)
  moreover have "x \<le> u" if "meet_until ts = Some u" for u
    using meet_until_Some [OF that] r by (auto simp: valid_at_def)
  ultimately show "meet_from ts \<le> x \<and> (case meet_until ts of None \<Rightarrow> True | Some u \<Rightarrow> x \<le> u)"
    by (simp split: option.splits)
qed

lemma meet_time_ok:
  assumes "ts \<noteq> []" "\<forall>t \<in> set ts. ok (WorldTime t)"
    and "\<not> (case meet_until ts of None \<Rightarrow> False | Some u \<Rightarrow> u < meet_from ts)"
  shows "ok (WorldTime \<lparr>wt_valid_from_ms = meet_from ts, wt_valid_until_ms = meet_until ts,
        wt_observed_at_ms = meet_observed ts, wt_recorded_at_ms = meet_recorded ts\<rparr>)"
proof -
  have fields: "\<And>t. t \<in> set ts \<Longrightarrow> world_time_fields_ok t" and order: "\<And>t. t \<in> set ts \<Longrightarrow> validate_ordering t = Inr ()"
    using assms(2) by (auto simp: ok_WorldTime)
  have from_ok: "timestamp_ok (meet_from ts)"
    using meet_from_in [OF assms(1)] fields by (auto simp: world_time_fields_ok_def)
  have until_ok: "opt_ok timestamp_ok (meet_until ts)"
  proof (cases "meet_until ts")
    case (Some u)
    with meet_until_Some [OF Some] fields show ?thesis by (force simp: world_time_fields_ok_def)
  qed simp
  have rec_in: "\<exists>t \<in> set ts. meet_recorded ts = wt_recorded_at_ms t"
    unfolding meet_recorded_def using assms(1) by (rule max_in)
  then have rec_ok: "timestamp_ok (meet_recorded ts)" using fields by (auto simp: world_time_fields_ok_def)
  have obs: "\<exists>t \<in> set ts. wt_observed_at_ms t = Some q" if "meet_observed ts = Some q" for q
  proof -
    have none: "None \<notin> set (map wt_observed_at_ms ts)"
      and q: "q = Max (set (List.map_filter id (map wt_observed_at_ms ts)))"
      using that by (auto simp: meet_observed_def split: if_splits)
    then have "List.map_filter id (map wt_observed_at_ms ts) \<noteq> []"
      using assms(1) by (metis id_apply list.map_disc_iff list.set_intros(1) map_filter_eq_Nil neq_Nil_conv)
    then have "q \<in> set (List.map_filter id (map wt_observed_at_ms ts))" unfolding q by simp
    then show ?thesis by (auto simp: set_map_filter)
  qed
  have "q \<le> meet_recorded ts" "timestamp_ok q" if "meet_observed ts = Some q" for q
  proof -
    from obs [OF that] obtain t where t: "t \<in> set ts" "wt_observed_at_ms t = Some q" by auto
    then have "q \<le> wt_recorded_at_ms t" using order by (auto simp: validate_ordering_ok)
    moreover have "wt_recorded_at_ms t \<le> meet_recorded ts" using t(1) by (simp add: meet_recorded_def)
    ultimately show "q \<le> meet_recorded ts" by simp
    show "timestamp_ok q" using fields [OF t(1)] t(2) by (simp add: world_time_fields_ok_def)
  qed
  then show ?thesis
    using assms(3) from_ok until_ok rec_ok
    by (cases "meet_observed ts"; cases "meet_until ts")
      (auto simp: ok_WorldTime world_time_fields_ok_def validate_ordering_ok)
qed

text \<open>
  The intersection of valid times returns the interval of the instants valid in every one of them,
  or raises when there is no such instant; on validated inputs there is no third outcome.
\<close>

lemma intersect_world_times_correct:
  assumes "ts \<noteq> []" "\<forall>t \<in> set ts. ok (WorldTime t)"
  shows "(\<exists>t. intersect_world_times ts = Inr t \<and> ok (WorldTime t) \<and> (\<exists>x. valid_at t x) \<and>
            (\<forall>x. valid_at t x \<longleftrightarrow> (\<forall>s \<in> set ts. valid_at s x))) \<or>
         intersect_world_times ts = Inl (Raised ''TimeIntersectionEmpty'' ''TIME_INTERSECTION_EMPTY'') \<and>
            (\<nexists>x. \<forall>s \<in> set ts. valid_at s x)"
proof (cases "case meet_until ts of None \<Rightarrow> False | Some u \<Rightarrow> u < meet_from ts")
  case True
  then have "\<nexists>x. meet_from ts \<le> x \<and> (case meet_until ts of None \<Rightarrow> True | Some u \<Rightarrow> x \<le> u)"
    by (auto split: option.splits)
  with True assms(1) show ?thesis by (simp add: intersect_world_times_meet meet_valid_at)
next
  case False
  let ?t = "\<lparr>wt_valid_from_ms = meet_from ts, wt_valid_until_ms = meet_until ts,
        wt_observed_at_ms = meet_observed ts, wt_recorded_at_ms = meet_recorded ts\<rparr>"
  have "ok (WorldTime ?t)" using meet_time_ok assms False by blast
  moreover have "valid_at ?t x \<longleftrightarrow> (\<forall>s \<in> set ts. valid_at s x)" for x
    using meet_valid_at [OF assms(1), of x] by (simp add: valid_at_def)
  moreover have "valid_at ?t (meet_from ts)" using False by (auto simp: valid_at_def split: option.splits)
  moreover have "intersect_world_times ts = Inr ?t"
    using False assms(1) calculation(1) by (simp add: intersect_world_times_meet WorldTime_Inr)
  ultimately show ?thesis by blast
qed

lemma intersect_world_times_Inr:
  assumes "intersect_world_times ts = Inr t"
  shows "\<And>x. valid_at t x \<Longrightarrow> s \<in> set ts \<Longrightarrow> valid_at s x" "ok (WorldTime t)"
proof -
  have ts: "ts \<noteq> []" and t: "t = \<lparr>wt_valid_from_ms = meet_from ts, wt_valid_until_ms = meet_until ts,
        wt_observed_at_ms = meet_observed ts, wt_recorded_at_ms = meet_recorded ts\<rparr>" and "ok (WorldTime t)"
    using assms by (auto simp: intersect_world_times_meet WorldTime_Inr split: if_splits)
  then show "ok (WorldTime t)" by simp
  show "valid_at s x" if "valid_at t x" "s \<in> set ts" for x
    using meet_valid_at [OF ts, of x] that by (simp add: valid_at_def t)
qed

text \<open>Observability quality is monotone in every factor.\<close>

lemma ok_ObservabilityState: "ok (ObservabilityState s) \<longleftrightarrow> observability_fields_ok s \<and> validate_quality s = Inr ()"
  by (auto simp: ObservabilityState_def invalid_def ok_iff bind_result_eq_Inr)

lemma ObservabilityState_Inr: "ObservabilityState s = Inr s' \<longleftrightarrow> s' = s \<and> ok (ObservabilityState s)"
  by (auto simp: ObservabilityState_def invalid_def ok_iff bind_result_eq_Inr split: if_splits)

lemma quality_mono:
  assumes "0 \<le> a" "a \<le> a'" "0 \<le> b" "b \<le> b'" "0 \<le> c" "c \<le> c'" "0 \<le> d" "d \<le> d'" "0 \<le> e" "e \<le> e'"
  shows "compute_observability_quality_milli a b c d e \<le> compute_observability_quality_milli a' b' c' d' e'"
  unfolding compute_observability_quality_milli_def Let_def
  using assms by (intro zdiv_mono1 mult_mono) simp_all

lemma quality_bounds:
  assumes "milli a" "milli b" "milli c" "milli d" "milli e"
  shows "milli (compute_observability_quality_milli a b c d e)"
proof -
  have "compute_observability_quality_milli a b c d e \<le> compute_observability_quality_milli 1000 1000 1000 1000 1000"
    using assms by (intro quality_mono) auto
  moreover have "0 \<le> compute_observability_quality_milli a b c d e"
    using assms by (simp add: compute_observability_quality_milli_def pos_imp_zdiv_nonneg_iff)
  ultimately show ?thesis by (simp add: compute_observability_quality_milli_def)
qed

lemma intersect_observability_correct:
  assumes "states \<noteq> []" "\<forall>s \<in> set states. ok (ObservabilityState s)"
  shows "\<exists>m. intersect_observability states = Inr m \<and> ok (ObservabilityState m) \<and>
    os_scope_coverage_milli m = Min (set (map os_scope_coverage_milli states)) \<and>
    (\<forall>s \<in> set states. os_combined_quality_milli m \<le> os_combined_quality_milli s)"
proof -
  let ?min = "\<lambda>f. Min (set (map f states))"
  let ?q = "compute_observability_quality_milli (?min os_access_milli) (?min os_scope_coverage_milli)
    (?min os_time_coverage_milli) (?min os_adapter_quality_milli) (?min os_measurement_quality_milli)"
  define m where "m = \<lparr>os_mode = (if ?q = 0 then ''NOT_OBSERVED''
      else if list_all (\<lambda>s. os_mode s = ''OBSERVED'') states then ''OBSERVED'' else ''PARTIAL''),
    os_access_milli = ?min os_access_milli, os_scope_coverage_milli = ?min os_scope_coverage_milli,
    os_time_coverage_milli = ?min os_time_coverage_milli, os_adapter_quality_milli = ?min os_adapter_quality_milli,
    os_measurement_quality_milli = ?min os_measurement_quality_milli, os_combined_quality_milli = ?q,
    os_search_scope_hash = (case remdups (List.map_filter os_search_scope_hash states) of [h] \<Rightarrow> Some h | _ \<Rightarrow> None)\<rparr>"
  have ok_s: "\<And>s. s \<in> set states \<Longrightarrow> observability_fields_ok s" "\<And>s. s \<in> set states \<Longrightarrow> validate_quality s = Inr ()"
    using assms(2) by (auto simp: ok_ObservabilityState)
  have milli_min: "milli (?min f)" if "\<And>s. observability_fields_ok s \<Longrightarrow> milli (f s)" for f
    using min_in [OF assms(1), of f] ok_s(1) that by metis
  have milli: "milli (?min os_access_milli)" "milli (?min os_scope_coverage_milli)"
    "milli (?min os_time_coverage_milli)" "milli (?min os_adapter_quality_milli)"
    "milli (?min os_measurement_quality_milli)"
    by (intro milli_min; simp add: observability_fields_ok_def)+
  have hash: "opt_ok Sha256 (os_search_scope_hash m)"
  proof (cases "os_search_scope_hash m")
    case (Some h)
    then have "remdups (List.map_filter os_search_scope_hash states) = [h]"
      by (simp add: m_def split: list.splits)
    then have "h \<in> set (List.map_filter os_search_scope_hash states)" by (metis list.set_intros(1) set_remdups)
    then obtain s where s: "s \<in> set states" "os_search_scope_hash s = Some h" by (auto simp: set_map_filter)
    from ok_s(1) [OF s(1)] have "opt_ok Sha256 (os_search_scope_hash s)" by (simp add: observability_fields_ok_def)
    with s(2) Some show ?thesis by simp
  qed simp
  have quality: "milli ?q" by (rule quality_bounds) (use milli in simp_all)
  have "observability_fields_ok m"
    using milli quality hash by (simp add: observability_fields_ok_def m_def ObservabilityMode_def)
  moreover have "validate_quality m = Inr ()" by (simp add: validate_quality_def m_def)
  ultimately have ok_m: "ok (ObservabilityState m)" by (simp add: ok_ObservabilityState)
  moreover have "intersect_observability states = ObservabilityState m"
    using assms(1) by (simp only: intersect_observability_def Let_def m_def if_False)
  moreover have "?q \<le> os_combined_quality_milli s" if s: "s \<in> set states" for s
  proof -
    have "?q \<le> compute_observability_quality_milli (os_access_milli s) (os_scope_coverage_milli s)
        (os_time_coverage_milli s) (os_adapter_quality_milli s) (os_measurement_quality_milli s)"
      by (rule quality_mono) (use milli s in \<open>simp_all only: min_le\<close>)
    also have "\<dots> = os_combined_quality_milli s"
      using ok_s(2) [OF s] by (simp add: validate_quality_def Let_def invalid_def split: if_splits)
    finally show ?thesis .
  qed
  ultimately show ?thesis by (auto simp: ObservabilityState_Inr m_def)
qed

section \<open>Admission of Known records\<close>

definition fresh_truth :: "int \<Rightarrow> known_record \<Rightarrow> world_scope \<Rightarrow> bool" where
  "fresh_truth min_coverage k scope \<longleftrightarrow>
     same_scope_identity scope (kr_world_scope k) \<and>
     (kr_empirical_evidence_weight_milli k > 0 \<longrightarrow> kr_provenance_refs k \<noteq> []) \<and>
     (\<forall>d. kr_derivation k = Direct d \<longrightarrow> ds_source_kind d \<in> set FORBIDDEN_EMPIRICAL_SOURCE_KINDS \<longrightarrow>
        kr_empirical_evidence_weight_milli k = 0) \<and>
     (is_negative_known k \<longrightarrow> os_mode (kr_observability_state k) \<in> {''OBSERVED'', ''PARTIAL''} \<and>
        min_coverage \<le> effective_coverage_milli k) \<and>
     kr_truth_state k \<noteq> ''UNKNOWN'' \<and> kr_epistemic_state k \<notin> {''STALE'', ''CHALLENGED'', ''REVERIFYING'', ''RETIRED''}"

lemma self_proof_iff:
  "(case source_kind_of d of None \<Rightarrow> False | Some s \<Rightarrow> s \<in> S \<and> w \<noteq> (0::int)) \<longleftrightarrow>
     \<not> (\<forall>x. d = Direct x \<longrightarrow> ds_source_kind x \<in> S \<longrightarrow> w = 0)"
  by (cases d) auto

lemma ok_requirements:
  "ok (require_exact_scope s t) \<longleftrightarrow> same_scope_identity s t"
  "ok (require_provenance refs w) \<longleftrightarrow> (w > 0 \<longrightarrow> refs \<noteq> [])"
  "ok (require_negative_evidence_coverage k c) \<longleftrightarrow>
     (is_negative_known k \<longrightarrow> os_mode (kr_observability_state k) \<in> {''OBSERVED'', ''PARTIAL''} \<and>
        c \<le> effective_coverage_milli k)"
  by (auto simp: require_exact_scope_def require_provenance_def require_negative_evidence_coverage_def)

lemma cut_check_None [simp]: "cut_check s None cs = Inr ()"
  by (simp add: cut_check_def)

lemma stable_promotion_iff:
  "gd_stable_promotion (evaluate_known c k scope None cs ss) \<longleftrightarrow> fresh_truth c k scope"
  unfolding evaluate_known_def Let_def self_proof_iff ok_requirements fresh_truth_def cut_check_None ok_simps
  by (simp only: gamma_decision.simps ok_simps not_not) blast

lemma stable_admissible:
  "gd_stable_promotion (evaluate_known c k scope wcut cs ss) \<Longrightarrow> gd_admissible (evaluate_known c k scope wcut cs ss)"
  by (simp only: evaluate_known_def Let_def gamma_decision.simps not_not simp_thms)

text \<open>A record passes the gate exactly when it is a current, covered, provenanced truth of the scope.\<close>

lemma require_stable_known_ok: "ok (require_stable_known c k scope) \<longleftrightarrow> fresh_truth c k scope"
  using stable_admissible [of c k scope None "[]" "[]"] stable_promotion_iff [of c k scope "[]" "[]"]
  by (simp only: require_stable_known_def Let_def ok_simps split: if_splits) blast

lemma require_stable_known_error:
  "require_stable_known c k scope = Inl e \<Longrightarrow> \<exists>m. e = Raised ''EpistemicIntegrityError'' m"
  by (auto simp only: require_stable_known_def Let_def sum.simps split: if_splits)

section \<open>World cuts compare symmetrically\<close>

fun flip_relation :: "cut_relation \<Rightarrow> cut_relation" where
  "flip_relation LEFT_DOMINATES = RIGHT_DOMINATES"
| "flip_relation RIGHT_DOMINATES = LEFT_DOMINATES"
| "flip_relation r = r"

fun flip_direction :: "direction \<Rightarrow> direction" where
  "flip_direction LEFT = RIGHT"
| "flip_direction RIGHT = LEFT"

lemma flip_direction_inj: "inj flip_direction"
proof (rule injI)
  fix x y show "flip_direction x = flip_direction y \<Longrightarrow> x = y" by (cases x; cases y) simp_all
qed

lemma overlap_keys_commute: "overlap_keys r l = overlap_keys l r"
  unfolding overlap_keys_def sorted_set_eq_iff by auto

lemma scan_directions_flip:
  "scan_directions rm lm keys (flip_direction ` ds) = map_option (image flip_direction) (scan_directions lm rm keys ds)"
proof (induction keys arbitrary: ds)
  case (Cons key keys)
  note IH = Cons.IH [of ds] Cons.IH [of "insert LEFT ds"] Cons.IH [of "insert RIGHT ds"]
  show ?case
  proof (cases "lm key"; cases "rm key")
    fix a b assume a: "lm key = Some a" and b: "rm key = Some b"
    show ?thesis
    proof (cases "wm_sequence a"; cases "wm_sequence b")
      fix m n assume mn: "wm_sequence a = Some m" "wm_sequence b = Some n"
      consider "m = n" | "m < n" | "n < m" by linarith
      then show ?thesis using a b mn IH by cases auto
    qed (use a b IH in auto)
  qed simp_all
qed simp

lemma same_scope_identity_sym: "same_scope_identity s t \<longleftrightarrow> same_scope_identity t s"
  by (auto simp: same_scope_identity_def)

lemma directions_cases: "ds = {} \<or> ds = {LEFT} \<or> ds = {RIGHT} \<or> ds = {LEFT, RIGHT}"
proof -
  have "ds \<subseteq> {LEFT, RIGHT}"
  proof
    fix x show "x \<in> {LEFT, RIGHT}" by (cases x) simp_all
  qed
  then have "ds \<in> Pow {LEFT, RIGHT}" by simp
  then show ?thesis by (auto simp: Pow_insert)
qed

lemma compare_world_cuts_flip: "compare_world_cuts r l = flip_relation (compare_world_cuts l r)"
proof -
  have "scan_directions (watermark_map r) (watermark_map l) (overlap_keys l r) {} =
      map_option (image flip_direction) (scan_directions (watermark_map l) (watermark_map r) (overlap_keys l r) {})"
    using scan_directions_flip [of "watermark_map r" "watermark_map l" "overlap_keys l r" "{}"] by simp
  moreover have "flip_relation (if card ds > 1 then INCOMPATIBLE else if ds = {} then SAME
       else if LEFT \<in> ds then LEFT_DOMINATES else RIGHT_DOMINATES) =
     (let ds' = flip_direction ` ds in if card ds' > 1 then INCOMPATIBLE else if ds' = {} then SAME
       else if LEFT \<in> ds' then LEFT_DOMINATES else RIGHT_DOMINATES)" for ds
    using directions_cases [of ds] by auto
  ultimately show ?thesis
    using same_scope_identity_sym [of "wc_scope l" "wc_scope r"]
    by (simp add: compare_world_cuts_def ok_requirements overlap_keys_commute [of r l] Let_def split: option.splits)
qed

text \<open>
  The uniqueness that \<open>WorldCut\<close> validates is by kind, type, value and sequence, while cuts are
  compared through a dict keyed by kind and type: of several watermarks of one source only the last
  one is looked at.
\<close>

definition known_sample_scope :: world_scope where
  "known_sample_scope = \<lparr>sc_life_id = ''life'', sc_world_id = ''wld_'' @ hex64 (CHR ''0''), sc_domain_id = ''repo'',
     sc_scope_bindings = [], sc_world_scope_hash = hex64 (CHR ''0''), sc_principal_scope_hash = hex64 (CHR ''0''),
     sc_privacy_scope = ''private''\<rparr>"

definition sample_time :: world_time where
  "sample_time = \<lparr>wt_valid_from_ms = 0, wt_valid_until_ms = None, wt_observed_at_ms = Some 0, wt_recorded_at_ms = 0\<rparr>"

definition head_watermark :: "string \<Rightarrow> source_watermark" where
  "head_watermark value = \<lparr>wm_source_kind = ''GIT_CODE'', wm_watermark_type = ''head'', wm_watermark_value = ustr value,
     wm_sequence = None, wm_watermark_sha256 = hex64 (CHR ''0'')\<rparr>"

definition head_cut :: "string list \<Rightarrow> world_cut" where
  "head_cut values = \<lparr>wc_schema_version = WORLD_SCHEMA_VERSION, wc_cut_id = ''wcut_'' @ hex64 (CHR ''0''),
     wc_scope = known_sample_scope, wc_source_watermarks = map head_watermark values, wc_time = sample_time,
     wc_cut_sha256 = hex64 (CHR ''0'')\<rparr>"

lemma ok_known_sample_scope: "ok (WorldScope zero_hash nfc known_sample_scope)"
proof -
  have "world_scope_fields_ok nfc known_sample_scope"
    by (simp add: world_scope_fields_ok_def known_sample_scope_def) code_simp
  moreover have "derive_world_scope_hash zero_hash l w d [] = Inr (hex64 (CHR ''0''))" for l w d
    unfolding derive_world_scope_hash_def by (rule canonical_sha256_zero_hash) simp
  ultimately show ?thesis by (simp add: WorldScope_def known_sample_scope_def)
qed

lemma representable_watermark_dump: "representable (watermark_dump (head_watermark v))"
  by (simp add: watermark_dump_def head_watermark_def jtext_def ustr_no_surrogate)

lemma ok_head_cut:
  assumes "world_cut_fields_ok (head_cut vs)"
  shows "ok (WorldCut zero_hash nfc (head_cut vs))"
proof -
  have "derive_world_cut_id zero_hash h (map head_watermark vs) = Inr (''wcut_'' @ hex64 (CHR ''0''))" for h
    unfolding derive_world_cut_id_def
    by (subst canonical_sha256_zero_hash) (simp_all add: list_all_iff representable_watermark_dump)
  with assms show ?thesis
    by (simp add: WorldCut_def ok_known_sample_scope) (simp add: head_cut_def ok_known_sample_scope)
qed

lemma contradictory_watermark_ignored:
  "ok (WorldCut zero_hash nfc (head_cut [''a'', ''b''])) \<and> ok (WorldCut zero_hash nfc (head_cut [''b''])) \<and>
   compare_world_cuts (head_cut [''a'', ''b'']) (head_cut [''b'']) = SAME \<and>
   compare_world_cuts (head_cut [''a'']) (head_cut [''b'']) = INCOMPATIBLE"
proof (intro conjI)
  show "ok (WorldCut zero_hash nfc (head_cut [''a'', ''b'']))" by (rule ok_head_cut) code_simp
  show "ok (WorldCut zero_hash nfc (head_cut [''b'']))" by (rule ok_head_cut) code_simp
  show "compare_world_cuts (head_cut [''a'', ''b'']) (head_cut [''b'']) = SAME" by code_simp
  show "compare_world_cuts (head_cut [''a'']) (head_cut [''b'']) = INCOMPATIBLE" by code_simp
qed

section \<open>Transactions stay consistent\<close>

definition transaction_consistent :: "scoped_transaction \<Rightarrow> bool" where
  "transaction_consistent tx \<longleftrightarrow>
     (\<forall>i \<in> set (tx_items tx). same_scope_identity (tx_scope tx) (ti_scope i)) \<and>
     require_compatible_world_cuts (List.map_filter ti_world_cut (tx_items tx)) = Inr ()"

lemma transaction_consistent_steps:
  "transaction_consistent (new_transaction s)"
  "transaction_consistent tx \<Longrightarrow> stage i tx = Inr tx' \<Longrightarrow> transaction_consistent tx'"
  "transaction_consistent tx \<Longrightarrow> commit tx = Inr (is, tx') \<Longrightarrow>
     transaction_consistent tx' \<and> mset is = mset (tx_items tx) \<and> tx_closed tx'"
  "transaction_consistent (rollback tx)"
proof -
  show "transaction_consistent (new_transaction s)" "transaction_consistent (rollback tx)"
    by (simp_all add: transaction_consistent_def new_transaction_def rollback_def List.map_filter_simps)
  show "transaction_consistent tx \<Longrightarrow> stage i tx = Inr tx' \<Longrightarrow> transaction_consistent tx'"
    by (auto simp: transaction_consistent_def stage_def bind_result_eq_Inr require_exact_scope_def split: if_splits)
  show "transaction_consistent tx \<Longrightarrow> commit tx = Inr (is, tx') \<Longrightarrow>
     transaction_consistent tx' \<and> mset is = mset (tx_items tx) \<and> tx_closed tx'"
    by (auto simp: transaction_consistent_def commit_def split: if_splits)
qed

end
