(* ===== verification/Known_Set.thy ===== *)
theory Known_Set
  imports Known_Common
begin

text \<open>
  The active cut of Known records (\<open>src/world_understanding/known/set.py\<close>) and the rule that decides when a
  stored record may be depended on again (\<open>src/world_understanding/known/freshness.py\<close>).  A \<open>KnownSet\<close>
  keeps one dict by record hash and three \<open>defaultdict(list)\<close> indexes; dicts are association lists in
  insertion order.  The abstraction of a set is the list of its records in insertion order, and every
  index answers as a scan of that list would.  The locale \<open>record_store\<close> states what the closure engine
  relies on.
\<close>

section \<open>Dictionaries of lists\<close>

fun dict_append :: "'k \<Rightarrow> 'v \<Rightarrow> ('k \<times> 'v list) list \<Rightarrow> ('k \<times> 'v list) list" where
  "dict_append k v [] = [(k, [v])]"
| "dict_append k v ((k', vs) # d) = (if k' = k then (k', vs @ [v]) # d else (k', vs) # dict_append k v d)"

definition dict_get :: "('k \<times> 'v list) list \<Rightarrow> 'k \<Rightarrow> 'v list" where
  "dict_get d k = (case map_of d k of None \<Rightarrow> [] | Some vs \<Rightarrow> vs)"

lemma dict_get_append: "dict_get (dict_append k v d) k' = (if k' = k then dict_get d k @ [v] else dict_get d k')"
  by (induction k v d rule: dict_append.induct) (auto simp: dict_get_def)

lemma dict_get_fold_append:
  "dict_get (fold (\<lambda>k. dict_append k v) ks d) k' = dict_get d k' @ replicate (count_list ks k') v"
  by (induction ks arbitrary: d) (auto simp: dict_get_append replicate_append_same)

section \<open>The set\<close>

record known_set =
  ks_scope :: world_scope
  ks_max_records :: int
  ks_by_hash :: "(string \<times> known_record) list"
  ks_by_prop :: "(string \<times> known_record list) list"
  ks_by_prop_subject :: "((string \<times> string) \<times> known_record list) list"
  ks_by_root :: "(string \<times> known_record list) list"

definition empty_known_set :: "world_scope \<Rightarrow> int \<Rightarrow> known_set result" where
  "empty_known_set scope max_records =
     (if max_records < 1 then Inl (ValueError ''max_records must be positive'')
      else Inr \<lparr>ks_scope = scope, ks_max_records = max_records, ks_by_hash = [], ks_by_prop = [],
        ks_by_prop_subject = [], ks_by_root = []\<rparr>)"

definition index_record :: "known_record \<Rightarrow> known_set \<Rightarrow> known_set" where
  "index_record k s =
     s\<lparr>ks_by_hash := ks_by_hash s @ [(kr_record_hash k, k)],
       ks_by_prop := dict_append (kr_proposition_type k) k (ks_by_prop s),
       ks_by_prop_subject := dict_append (kr_proposition_type k, kr_subject_ref k) k (ks_by_prop_subject s),
       ks_by_root := fold (\<lambda>sha. dict_append sha k) (map ws_sha256 (kr_provenance_refs k)) (ks_by_root s)\<rparr>"

definition add_known :: "(nat list \<Rightarrow> string) \<Rightarrow> known_record \<Rightarrow> known_set \<Rightarrow> (bool \<times> known_set) result" where
  "add_known H k s =
     bind_result (require_same_world_scope (ks_scope s) (kr_world_scope k)) (\<lambda>_.
     bind_result (known_has_valid_hash H k) (\<lambda>valid.
     if \<not> valid then Inl (Raised ''InvalidKnownRecord'' ''known record hash is not canonical'')
     else if kr_record_hash k \<in> set (map fst (ks_by_hash s)) then Inr (False, s)
     else if int (length (ks_by_hash s)) \<ge> ks_max_records s
     then Inl (Raised ''ActiveCutOverflow'' ''finite active Known cut exceeded'')
     else Inr (True, index_record k s)))"

fun add_all_known :: "(nat list \<Rightarrow> string) \<Rightarrow> known_record list \<Rightarrow> known_set \<Rightarrow> known_set result" where
  "add_all_known H [] s = Inr s"
| "add_all_known H (k # ks) s = bind_result (add_known H k s) (\<lambda>(_, s'). add_all_known H ks s')"

definition KnownSet :: "(nat list \<Rightarrow> string) \<Rightarrow> world_scope \<Rightarrow> known_record list \<Rightarrow> int \<Rightarrow> known_set result" where
  "KnownSet H scope records max_records =
     bind_result (empty_known_set scope max_records) (\<lambda>s. add_all_known H records s)"

definition known_count :: "known_set \<Rightarrow> nat" where
  "known_count s = length (ks_by_hash s)"

definition known_records :: "known_set \<Rightarrow> known_record list" where
  "known_records s = map snd (sort_key fst (ks_by_hash s))"

definition get_hash :: "known_set \<Rightarrow> string \<Rightarrow> known_record option" where
  "get_hash s h = map_of (ks_by_hash s) h"

definition by_proposition :: "known_set \<Rightarrow> string \<Rightarrow> known_record list" where
  "by_proposition s p = dict_get (ks_by_prop s) p"

definition by_proposition_subject :: "known_set \<Rightarrow> string \<Rightarrow> string \<Rightarrow> known_record list" where
  "by_proposition_subject s p subject = dict_get (ks_by_prop_subject s) (p, subject)"

definition by_provenance_root :: "known_set \<Rightarrow> string \<Rightarrow> known_record list" where
  "by_provenance_root s sha = dict_get (ks_by_root s) sha"

definition known_ref :: "known_record \<Rightarrow> record_ref" where
  "known_ref k = \<lparr>wr_record_type = ''world_known'', wr_record_id = kr_known_id k, wr_revision = None,
     wr_sha256 = kr_record_hash k\<rparr>"

definition proposition_payload :: "known_record \<Rightarrow> pyval" where
  "proposition_payload k = jobj
     [(''domain'', jstr ''tiangong.world.known-proposition-signature.v1''),
      (''world_scope_hash'', jstr (sc_world_scope_hash (kr_world_scope k))),
      (''proposition_type'', jstr (kr_proposition_type k)), (''subject_ref'', jstr (kr_subject_ref k)),
      (''predicate'', jstr (kr_predicate k)), (''object_value'', jsome world_value_dump (kr_object_value k)),
      (''object_ref'', jsome record_ref_dump (kr_object_ref k))]"

definition proposition_signature :: "(nat list \<Rightarrow> string) \<Rightarrow> known_record \<Rightarrow> string result" where
  "proposition_signature H k = canonical_sha256 H (proposition_payload k)"

record known_set_snapshot =
  sn_scope :: world_scope
  sn_records :: "known_record list"
  sn_cut_sha256 :: string

definition snapshot :: "(nat list \<Rightarrow> string) \<Rightarrow> known_set \<Rightarrow> known_set_snapshot result" where
  "snapshot H s =
     (let records = known_records s
      in bind_result (canonical_sha256 H (jobj
           [(''domain'', jstr ''tiangong.world.known-active-cut.v1''), (''life_id'', jstr (sc_life_id (ks_scope s))),
            (''world_scope_hash'', jstr (sc_world_scope_hash (ks_scope s))),
            (''record_hashes'', jstrs (map kr_record_hash records))])) (\<lambda>h.
         Inr \<lparr>sn_scope = ks_scope s, sn_records = records, sn_cut_sha256 = h\<rparr>))"

section \<open>Freshness\<close>

definition VOLATILE_SOURCE_KINDS :: "string list" where
  "VOLATILE_SOURCE_KINDS = [''RUNTIME_ENVIRONMENT'', ''FACT_EXECUTION'', ''TOOL_RESULT'', ''FILESYSTEM'', ''GIT_CODE'',
     ''WEB_EXTERNAL'', ''DESKTOP_UI'', ''METRICS'', ''CHAIN_EVENT'', ''EXECUTION_INTEGRITY'']"

record known_freshness_decision =
  fd_reusable :: bool
  fd_requires_revalidation :: bool
  fd_stale :: bool
  fd_source_version_changed :: bool
  fd_revalidation_policy :: string
  fd_source_versions :: "(string \<times> string) list"
  fd_reasons :: "string list"

definition show_int :: "int \<Rightarrow> string" where
  "show_int i = map char_of (dumps_int i)"

definition source_key :: "world_source_ref \<Rightarrow> string" where
  "source_key r = ws_source_kind r @ '':'' @ ws_object_id r"

definition source_version :: "world_source_ref \<Rightarrow> string" where
  "source_version r =
     (case ws_object_revision r of
        Some n \<Rightarrow> ''revision:'' @ show_int n @ '':'' @ ws_sha256 r
      | None \<Rightarrow> ''sha256:'' @ ws_sha256 r)"

definition direct_source_version :: "direct_source \<Rightarrow> string \<times> string \<times> string" where
  "direct_source_version d =
     (ds_source_kind d @ '':'' @ ds_source_native_id d, ''sha256:'' @ ds_source_payload_hash d, ds_source_kind d)"

definition record_source_versions :: "known_record \<Rightarrow> (string \<times> string \<times> string) list" where
  "record_source_versions k =
     (let refs = map (\<lambda>r. (source_key r, source_version r, ws_source_kind r)) (kr_provenance_refs k);
          direct = (case kr_derivation k of
             Direct d \<Rightarrow> if fst (direct_source_version d) \<in> set (map fst refs) then [] else [direct_source_version d]
           | Derived _ \<Rightarrow> [])
      in dict_values fst (refs @ direct))"

definition evaluate_known_freshness ::
    "known_record \<Rightarrow> int \<Rightarrow> (string \<rightharpoonup> string) \<Rightarrow> string set \<Rightarrow> known_freshness_decision" where
  "evaluate_known_freshness k now current revalidated_source_keys =
     (let missing = (case wt_observed_at_ms (kr_time k) of None \<Rightarrow> [''missing_observed_at''] | Some _ \<Rightarrow> []);
          expired = (case wt_valid_until_ms (kr_time k) of None \<Rightarrow> False | Some u \<Rightarrow> now > u);
          versions = record_source_versions k;
          volatile_keys = map fst (filter (\<lambda>(key, version, kind). kind \<in> set VOLATILE_SOURCE_KINDS) versions);
          policy = (if volatile_keys \<noteq> [] then ''on_reuse'' else ''ttl'');
          changed_keys = map fst (filter (\<lambda>(key, version, kind).
            case current key of None \<Rightarrow> False | Some c \<Rightarrow> c \<noteq> version) versions);
          matched_keys = map fst (filter (\<lambda>(key, version, kind). current key = Some version) versions);
          revalidated = revalidated_source_keys \<union> set matched_keys;
          changed = (changed_keys \<noteq> []);
          stale = (expired \<or> changed);
          reasons = missing @ (if expired then [''validity_window_expired''] else []) @
            map (\<lambda>key. ''source_version_changed:'' @ key) changed_keys @
            map (\<lambda>key. ''volatile_source_revalidation_required:'' @ key) (filter (\<lambda>key. key \<notin> revalidated) volatile_keys) @
            (if stale \<and> versions = [] then [''revalidation_evidence_unavailable'']
             else if stale then map (\<lambda>key. ''stale_source_revalidation_required:'' @ key)
               (filter (\<lambda>key. key \<notin> revalidated) (map fst versions))
             else []);
          reasons = dict_fromkeys reasons;
          requires = (reasons \<noteq> [])
      in \<lparr>fd_reusable = (\<not> requires), fd_requires_revalidation = requires, fd_stale = stale,
          fd_source_version_changed = changed, fd_revalidation_policy = policy,
          fd_source_versions = map (\<lambda>(key, version, kind). (key, version)) versions, fd_reasons = reasons\<rparr>)"

fun join_comma :: "string list \<Rightarrow> string" where
  "join_comma [] = []"
| "join_comma [s] = s"
| "join_comma (s # ss) = s @ '','' @ join_comma ss"

definition require_dependency_reusable ::
    "known_set \<Rightarrow> known_record \<Rightarrow> int \<Rightarrow> (string \<rightharpoonup> string) \<Rightarrow> string set \<Rightarrow> known_record result" where
  "require_dependency_reusable s k now current revalidated =
     bind_result (require_same_world_scope (ks_scope s) (kr_world_scope k)) (\<lambda>_.
       let decision = evaluate_known_freshness k now current revalidated
       in if \<not> fd_reusable decision
          then Inl (Raised ''StaleKnownDependency''
            (''KNOWN_REVALIDATION_REQUIRED:'' @ kr_record_hash k @ '':'' @ join_comma (fd_reasons decision)))
          else Inr k)"

definition get_hash_for_dependency ::
    "known_set \<Rightarrow> string \<Rightarrow> int \<Rightarrow> (string \<rightharpoonup> string) \<Rightarrow> string set \<Rightarrow> known_record option result" where
  "get_hash_for_dependency s h now current revalidated =
     (case get_hash s h of None \<Rightarrow> Inr None
      | Some k \<Rightarrow> bind_result (require_dependency_reusable s k now current revalidated) (\<lambda>k. Inr (Some k)))"

section \<open>The contract of the set\<close>

locale record_store =
  fixes add :: "'r \<Rightarrow> 's \<Rightarrow> (bool \<times> 's) result"
    and elems :: "'s \<Rightarrow> 'r list"
    and inv :: "'s \<Rightarrow> bool"
  assumes add_new: "add r s = Inr (True, s') \<Longrightarrow> elems s' = elems s @ [r]"
    and add_old: "add r s = Inr (False, s') \<Longrightarrow> s' = s"
    and add_inv: "inv s \<Longrightarrow> add r s = Inr (b, s') \<Longrightarrow> inv s'"
begin

lemma elems_mono: "add r s = Inr (b, s') \<Longrightarrow> set (elems s) \<subseteq> set (elems s')"
  by (cases b) (auto dest: add_new add_old)

lemma elems_bound: "add r s = Inr (b, s') \<Longrightarrow> set (elems s') \<subseteq> insert r (set (elems s))"
  by (cases b) (auto dest: add_new add_old)

lemma new_or_same: "add r s = Inr (b, s') \<Longrightarrow> (b \<longrightarrow> elems s' = elems s @ [r]) \<and> (\<not> b \<longrightarrow> s' = s)"
  by (cases b) (auto dest: add_new add_old)

end

definition inserted :: "known_set \<Rightarrow> known_record list" where
  "inserted s = map snd (ks_by_hash s)"

definition root_occurrences :: "string \<Rightarrow> known_record list \<Rightarrow> known_record list" where
  "root_occurrences sha ks = concat (map (\<lambda>k. replicate (count_list (map ws_sha256 (kr_provenance_refs k)) sha) k) ks)"

definition known_set_ok :: "(nat list \<Rightarrow> string) \<Rightarrow> known_set \<Rightarrow> bool" where
  "known_set_ok H s \<longleftrightarrow>
     map fst (ks_by_hash s) = map kr_record_hash (inserted s) \<and> distinct (map kr_record_hash (inserted s)) \<and>
     (\<forall>k \<in> set (inserted s). known_has_valid_hash H k = Inr True \<and>
        require_same_world_scope (ks_scope s) (kr_world_scope k) = Inr ()) \<and>
     (\<forall>p. by_proposition s p = filter (\<lambda>k. kr_proposition_type k = p) (inserted s)) \<and>
     (\<forall>p u. by_proposition_subject s p u = filter (\<lambda>k. kr_proposition_type k = p \<and> kr_subject_ref k = u) (inserted s)) \<and>
     (\<forall>sha. by_provenance_root s sha = root_occurrences sha (inserted s))"

lemma add_known_cases:
  assumes "add_known H k s = Inr (b, s')"
  shows "require_same_world_scope (ks_scope s) (kr_world_scope k) = Inr ()" "known_has_valid_hash H k = Inr True"
    and "b \<Longrightarrow> kr_record_hash k \<notin> set (map fst (ks_by_hash s)) \<and> int (length (ks_by_hash s)) < ks_max_records s \<and>
      s' = index_record k s"
    and "\<not> b \<Longrightarrow> kr_record_hash k \<in> set (map fst (ks_by_hash s)) \<and> s' = s"
  using assms by (auto simp: add_known_def bind_result_eq_Inr split: if_splits)

lemma inserted_index_record [simp]: "inserted (index_record k s) = inserted s @ [k]"
  by (simp add: inserted_def index_record_def)

lemma index_record_lookups:
  "by_proposition (index_record k s) p =
     by_proposition s p @ (if kr_proposition_type k = p then [k] else [])"
  "by_proposition_subject (index_record k s) p u =
     by_proposition_subject s p u @ (if kr_proposition_type k = p \<and> kr_subject_ref k = u then [k] else [])"
  "by_provenance_root (index_record k s) sha =
     by_provenance_root s sha @ replicate (count_list (map ws_sha256 (kr_provenance_refs k)) sha) k"
  by (auto simp: by_proposition_def by_proposition_subject_def by_provenance_root_def index_record_def
      dict_get_append dict_get_fold_append)

lemma index_record_ok:
  assumes "known_set_ok H s" "kr_record_hash k \<notin> set (map fst (ks_by_hash s))"
    "known_has_valid_hash H k = Inr True" "require_same_world_scope (ks_scope s) (kr_world_scope k) = Inr ()"
  shows "known_set_ok H (index_record k s)"
proof -
  have keys: "map fst (ks_by_hash (index_record k s)) = map fst (ks_by_hash s) @ [kr_record_hash k]"
    and scope: "ks_scope (index_record k s) = ks_scope s" by (simp_all add: index_record_def)
  show ?thesis
    unfolding known_set_ok_def index_record_lookups inserted_index_record keys scope
    using assms by (auto simp: known_set_ok_def root_occurrences_def)
qed

interpretation known_store: record_store "add_known H" inserted "known_set_ok H"
proof
  show "add_known H k s = Inr (True, s') \<Longrightarrow> inserted s' = inserted s @ [k]" for k s s'
    using add_known_cases(3) [of H k s True s'] inserted_index_record [of k s] by metis
  show "add_known H k s = Inr (False, s') \<Longrightarrow> s' = s" for k s s'
    using add_known_cases(4) [of H k s False s'] by simp
  fix k s b s' assume "known_set_ok H s" and add: "add_known H k s = Inr (b, s')"
  then show "known_set_ok H s'"
    using add_known_cases [OF add] index_record_ok [of H s k] by (cases b) simp_all
qed

section \<open>The set refines a scan of its input\<close>

fun first_by_hash :: "known_record list \<Rightarrow> known_record list" where
  "first_by_hash [] = []"
| "first_by_hash (k # ks) = k # filter (\<lambda>x. kr_record_hash x \<noteq> kr_record_hash k) (first_by_hash ks)"

lemma known_set_ok_keys: "known_set_ok H s \<Longrightarrow> set (map fst (ks_by_hash s)) = kr_record_hash ` set (inserted s)"
  by (simp only: known_set_ok_def set_map)

lemma add_all_inserted:
  assumes "known_set_ok H s" "add_all_known H ks s = Inr s'"
  shows "known_set_ok H s' \<and> ks_max_records s' = ks_max_records s \<and> ks_scope s' = ks_scope s \<and>
    inserted s' = inserted s @ filter (\<lambda>k. kr_record_hash k \<notin> kr_record_hash ` set (inserted s)) (first_by_hash ks) \<and>
    (int (known_count s) \<le> ks_max_records s \<longrightarrow> int (known_count s') \<le> ks_max_records s)"
  using assms
proof (induction ks arbitrary: s)
  case (Cons k ks)
  from Cons.prems(2) obtain b s1 where add: "add_known H k s = Inr (b, s1)" and rest: "add_all_known H ks s1 = Inr s'"
    by (auto simp: bind_result_eq_Inr)
  have ok1: "known_set_ok H s1" using known_store.add_inv [OF Cons.prems(1) add] .
  note IH = Cons.IH [OF ok1 rest]
  note keys = known_set_ok_keys [OF Cons.prems(1)]
  show ?case
  proof (cases b)
    case True
    then have s1: "s1 = index_record k s" and new: "kr_record_hash k \<notin> kr_record_hash ` set (inserted s)"
      and room: "int (length (ks_by_hash s)) < ks_max_records s"
      using add_known_cases(3) [OF add] keys by auto
    have "ks_max_records s1 = ks_max_records s" "ks_scope s1 = ks_scope s" "known_count s1 = Suc (known_count s)"
      by (simp_all add: s1 index_record_def known_count_def)
    moreover have "int (known_count s1) \<le> ks_max_records s1"
      using room by (simp add: s1 index_record_def known_count_def)
    moreover have "filter (\<lambda>x. kr_record_hash x \<notin> kr_record_hash ` set (inserted s1)) (first_by_hash ks) =
        filter (\<lambda>x. kr_record_hash x \<notin> kr_record_hash ` set (inserted s))
          (filter (\<lambda>x. kr_record_hash x \<noteq> kr_record_hash k) (first_by_hash ks))"
      by (auto simp: s1 intro!: filter_cong)
    ultimately show ?thesis using IH new by (simp add: s1)
  next
    case False
    then have s1: "s1 = s" and old: "kr_record_hash k \<in> kr_record_hash ` set (inserted s)"
      using add_known_cases(4) [OF add] keys by auto
    have "filter (\<lambda>x. kr_record_hash x \<notin> kr_record_hash ` set (inserted s)) (first_by_hash ks) =
        filter (\<lambda>x. kr_record_hash x \<notin> kr_record_hash ` set (inserted s))
          (filter (\<lambda>x. kr_record_hash x \<noteq> kr_record_hash k) (first_by_hash ks))"
      unfolding filter_filter by (rule filter_cong) (use old in auto)
    with IH old show ?thesis by (simp add: s1)
  qed
qed simp

lemma empty_known_set_ok: "empty_known_set scope m = Inr s \<Longrightarrow> known_set_ok H s \<and> inserted s = [] \<and> ks_scope s = scope \<and>
    ks_max_records s = m \<and> known_count s = 0 \<and> 1 \<le> m"
  by (auto simp: empty_known_set_def known_set_ok_def inserted_def by_proposition_def by_proposition_subject_def
      by_provenance_root_def dict_get_def root_occurrences_def known_count_def split: if_splits)

lemma known_records_sorted:
  assumes "known_set_ok H s"
  shows "mset (known_records s) = mset (inserted s)" "sorted_wrt (<) (map kr_record_hash (known_records s))"
proof -
  let ?d = "ks_by_hash s"
  have keys: "map fst ?d = map kr_record_hash (map snd ?d)" "distinct (map fst ?d)"
    using assms by (simp_all only: known_set_ok_def inserted_def)
  show "mset (known_records s) = mset (inserted s)" by (simp add: known_records_def inserted_def)
  have "\<forall>x \<in> set ?d. fst x = kr_record_hash (snd x)" using keys(1) by simp
  then have "map kr_record_hash (known_records s) = map fst (sort_key fst ?d)"
    unfolding known_records_def map_map by (intro map_cong) auto
  also have "\<dots> = sort (map fst ?d)" by (rule map_sort_key)
  finally show "sorted_wrt (<) (map kr_record_hash (known_records s))"
    using keys(2) by (simp add: strict_sorted_iff)
qed

lemma get_hash_iff:
  assumes "known_set_ok H s"
  shows "get_hash s h = Some k \<longleftrightarrow> k \<in> set (inserted s) \<and> kr_record_hash k = h"
proof -
  let ?d = "ks_by_hash s"
  have keys: "map fst ?d = map kr_record_hash (map snd ?d)" "distinct (map fst ?d)"
    using assms by (simp_all only: known_set_ok_def inserted_def)
  have "\<forall>x \<in> set ?d. fst x = kr_record_hash (snd x)" using keys(1) by simp
  moreover have "get_hash s h = Some k \<longleftrightarrow> (h, k) \<in> set ?d" using keys(2) by (simp add: get_hash_def)
  ultimately show ?thesis by (auto simp: inserted_def image_iff intro: bexI [of _ "(h, k)"])
qed

text \<open>C9: A \<open>KnownSet\<close> built from a sequence of records behaves as the sequence itself, each record hash
  kept at its first occurrence: lookup by hash, by proposition, by proposition and subject, and by provenance root
  all answer as a scan of that sequence in order, iteration lists the same records by ascending hash,
  every record has its canonical hash and the scope of the set, and the bound on the number of records
  holds.\<close>

theorem known_set_refines_sequence:
  assumes "KnownSet H scope records max_records = Inr s"
  shows "(\<forall>h k. get_hash s h = Some k \<longleftrightarrow> k \<in> set (first_by_hash records) \<and> kr_record_hash k = h) \<and>
    (\<forall>p. by_proposition s p = filter (\<lambda>k. kr_proposition_type k = p) (first_by_hash records)) \<and>
    (\<forall>p u. by_proposition_subject s p u =
       filter (\<lambda>k. kr_proposition_type k = p \<and> kr_subject_ref k = u) (first_by_hash records)) \<and>
    (\<forall>sha. by_provenance_root s sha = root_occurrences sha (first_by_hash records)) \<and>
    mset (known_records s) = mset (first_by_hash records) \<and>
    sorted_wrt (<) (map kr_record_hash (known_records s)) \<and>
    list_all (\<lambda>k. known_has_valid_hash H k = Inr True \<and> require_same_world_scope scope (kr_world_scope k) = Inr ())
      (first_by_hash records) \<and>
    int (known_count s) \<le> max_records"
proof -
  from assms obtain s0 where "empty_known_set scope max_records = Inr s0" and all: "add_all_known H records s0 = Inr s"
    by (auto simp: KnownSet_def bind_result_eq_Inr)
  then have s0: "known_set_ok H s0" "inserted s0 = []" "ks_scope s0 = scope" "ks_max_records s0 = max_records"
    "known_count s0 = 0" "1 \<le> max_records"
    using empty_known_set_ok by blast+
  from add_all_inserted [OF s0(1) all] s0 have s: "known_set_ok H s" "inserted s = first_by_hash records"
    "ks_scope s = scope" "int (known_count s) \<le> max_records" by auto
  from s(1) show ?thesis
    using get_hash_iff [OF s(1)] known_records_sorted [OF s(1)] s(4)
    unfolding known_set_ok_def s(2,3) list_all_iff by blast
qed

section \<open>Freshness decides reuse\<close>

lemma freshness_reasons:
  "fd_reusable (evaluate_known_freshness k now current revalidated) \<longleftrightarrow>
     fd_reasons (evaluate_known_freshness k now current revalidated) = []"
  by (simp only: evaluate_known_freshness_def Let_def known_freshness_decision.simps not_not)

definition version_current :: "(string \<rightharpoonup> string) \<Rightarrow> string set \<Rightarrow> string \<times> string \<times> string \<Rightarrow> bool" where
  "version_current current revalidated v \<longleftrightarrow>
     (case v of (key, version, kind) \<Rightarrow>
        case current key of Some c \<Rightarrow> c = version
        | None \<Rightarrow> kind \<in> set VOLATILE_SOURCE_KINDS \<longrightarrow> key \<in> revalidated)"

definition changed_version :: "(string \<rightharpoonup> string) \<Rightarrow> string \<times> string \<times> string \<Rightarrow> bool" where
  "changed_version current = (\<lambda>(key, version, kind). case current key of None \<Rightarrow> False | Some c \<Rightarrow> c \<noteq> version)"

lemma versions_unique_key:
  assumes "(key, v) \<in> set (record_source_versions k)" "(key, w) \<in> set (record_source_versions k)"
  shows "v = w"
proof -
  obtain xs :: "(string \<times> string \<times> string) list" where xs: "record_source_versions k = dict_values fst xs"
    by (auto simp: record_source_versions_def Let_def)
  have "distinct (map fst (record_source_versions k))" by (simp add: xs dict_values_keys)
  with assms show ?thesis by (metis eq_key_imp_eq_value)
qed

lemma reasons_empty_iff:
  "fd_reasons (evaluate_known_freshness k now current revalidated) = [] \<longleftrightarrow>
     wt_observed_at_ms (kr_time k) \<noteq> None \<and>
     (case wt_valid_until_ms (kr_time k) of None \<Rightarrow> True | Some u \<Rightarrow> now \<le> u) \<and>
     filter (changed_version current) (record_source_versions k) = [] \<and>
     (\<forall>(key, version, kind) \<in> set (record_source_versions k). kind \<in> set VOLATILE_SOURCE_KINDS \<longrightarrow>
        key \<in> revalidated \<union> set (map fst (filter (\<lambda>(key, version, kind). current key = Some version)
          (record_source_versions k))))"
proof -
  let ?vs = "record_source_versions k"
  let ?rev = "revalidated \<union> set (map fst (filter (\<lambda>(key, version, kind). current key = Some version) ?vs))"
  have vol: "filter (\<lambda>key. key \<notin> R) (map fst (filter (\<lambda>(key, version, kind). kind \<in> V) xs)) = [] \<longleftrightarrow>
      (\<forall>(key, version, kind) \<in> set xs. kind \<in> V \<longrightarrow> key \<in> R)" for R V and xs :: "(string \<times> string \<times> string) list"
    by (induction xs) auto
  show ?thesis
    unfolding evaluate_known_freshness_def Let_def known_freshness_decision.simps dict_fromkeys_Nil_iff append_is_Nil_conv
      map_is_Nil_conv vol changed_version_def [symmetric]
    by (cases "wt_observed_at_ms (kr_time k)"; cases "wt_valid_until_ms (kr_time k)") (auto simp del: set_map)
qed

lemma freshness_flags:
  "fd_requires_revalidation (evaluate_known_freshness k now current revalidated) \<longleftrightarrow>
     \<not> fd_reusable (evaluate_known_freshness k now current revalidated)"
  "fd_source_version_changed (evaluate_known_freshness k now current revalidated) \<longleftrightarrow>
     list_ex (changed_version current) (record_source_versions k)"
  "fd_stale (evaluate_known_freshness k now current revalidated) \<longleftrightarrow>
     (case wt_valid_until_ms (kr_time k) of None \<Rightarrow> False | Some u \<Rightarrow> u < now) \<or>
     list_ex (changed_version current) (record_source_versions k)"
proof -
  have some: "map fst (filter P xs) \<noteq> [] \<longleftrightarrow> list_ex P xs" for P and xs :: "(string \<times> string \<times> string) list"
    by (auto simp: filter_empty_conv list_ex_iff)
  show "fd_requires_revalidation (evaluate_known_freshness k now current revalidated) \<longleftrightarrow>
     \<not> fd_reusable (evaluate_known_freshness k now current revalidated)"
    "fd_source_version_changed (evaluate_known_freshness k now current revalidated) \<longleftrightarrow>
     list_ex (changed_version current) (record_source_versions k)"
    "fd_stale (evaluate_known_freshness k now current revalidated) \<longleftrightarrow>
     (case wt_valid_until_ms (kr_time k) of None \<Rightarrow> False | Some u \<Rightarrow> u < now) \<or>
     list_ex (changed_version current) (record_source_versions k)"
    by (simp_all only: evaluate_known_freshness_def Let_def known_freshness_decision.simps not_not
        changed_version_def [symmetric] some)
qed

lemma reusable_iff:
  "fd_reusable (evaluate_known_freshness k now current revalidated) \<longleftrightarrow>
     wt_observed_at_ms (kr_time k) \<noteq> None \<and>
     (case wt_valid_until_ms (kr_time k) of None \<Rightarrow> True | Some u \<Rightarrow> now \<le> u) \<and>
     list_all (version_current current revalidated) (record_source_versions k)"
proof -
  let ?vs = "record_source_versions k"
  have matched: "key \<in> set (map fst (filter (\<lambda>(key, version, kind). current key = Some version) ?vs)) \<longleftrightarrow>
      current key = Some version" if "(key, version, kind) \<in> set ?vs" for key version kind
    using that by (auto simp: image_iff dest: versions_unique_key intro!: bexI [of _ "(key, version, kind)"])
  have "filter (changed_version current) ?vs = [] \<and>
     (\<forall>(key, version, kind) \<in> set ?vs. kind \<in> set VOLATILE_SOURCE_KINDS \<longrightarrow>
        key \<in> revalidated \<union> set (map fst (filter (\<lambda>(key, version, kind). current key = Some version) ?vs))) \<longleftrightarrow>
     (\<forall>v \<in> set ?vs. version_current current revalidated v)"
    unfolding filter_empty_conv ball_conj_distrib [symmetric] Un_iff
  proof (rule ball_cong [OF refl])
    fix v assume v: "v \<in> set ?vs"
    obtain key version kind where eq: "v = (key, version, kind)" by (cases v)
    show "(\<not> changed_version current v \<and> (case v of (key, version, kind) \<Rightarrow> kind \<in> set VOLATILE_SOURCE_KINDS \<longrightarrow>
        key \<in> revalidated \<or> key \<in> set (map fst (filter (\<lambda>(key, version, kind). current key = Some version) ?vs)))) =
      version_current current revalidated v"
      unfolding eq prod.case matched [OF v [unfolded eq]] version_current_def changed_version_def
      by (auto split: option.splits)
  qed
  then show ?thesis by (simp only: freshness_reasons reasons_empty_iff list_all_iff)
qed

text \<open>C24: A stored Known record is reusable exactly when it was observed, the end of its validity window has not
  passed, and each of its sources is current: a source whose current version is known must have the stored
  version (a trusted revalidation of the key does not outweigh a changed version), and a volatile source with
  no known current version must have been revalidated.  Otherwise revalidation is required, and the decision
  tells the cause: it says that a source changed exactly when a known current version differs from the stored
  one, and that the record is stale exactly when a source changed or the window has ended.  The start of the
  validity window is not tested: a record is reusable before it, other things being equal.\<close>

theorem freshness_reusable_iff:
  "(fd_reusable (evaluate_known_freshness k now current revalidated) \<longleftrightarrow>
      wt_observed_at_ms (kr_time k) \<noteq> None \<and>
      (case wt_valid_until_ms (kr_time k) of None \<Rightarrow> True | Some u \<Rightarrow> now \<le> u) \<and>
      list_all (version_current current revalidated) (record_source_versions k)) \<and>
   (fd_requires_revalidation (evaluate_known_freshness k now current revalidated) \<longleftrightarrow>
      \<not> fd_reusable (evaluate_known_freshness k now current revalidated)) \<and>
   (fd_source_version_changed (evaluate_known_freshness k now current revalidated) \<longleftrightarrow>
      list_ex (changed_version current) (record_source_versions k)) \<and>
   (fd_stale (evaluate_known_freshness k now current revalidated) \<longleftrightarrow>
      (case wt_valid_until_ms (kr_time k) of None \<Rightarrow> False | Some u \<Rightarrow> u < now) \<or>
      list_ex (changed_version current) (record_source_versions k))"
  by (intro conjI reusable_iff freshness_flags)

end
