(* ===== verification/Known_Closure.thy ===== *)
theory Known_Closure
  imports Known_Set
begin

text \<open>
  The deterministic closure of Known records (\<open>src/world_understanding/known/\<close>: \<open>rule.py\<close>, \<open>registry.py\<close>,
  \<open>authority_matrix.py\<close>, \<open>closure.py\<close>).  A rule is a record of its specification and its \<open>apply\<close>
  function, which may raise.  The engine's loop is bounded by \<open>max_rounds\<close> as in the code: the argument of
  \<open>closure_loop\<close> is the number of rounds left, and a non-empty delta with no round left raises
  \<open>ClosureLimitExceeded\<close>.  The text of a \<open>ValidationError\<close> is made by the validation library: it is
  the parameter \<open>vtext\<close>, and only diagnostics depend on it.
\<close>

section \<open>Rules and the registry\<close>

record rule_spec =
  rs_rule_id :: string
  rs_version :: string
  rs_output_authority_domain :: "string option"
  rs_accepted_parent_domains :: "string list"
  rs_allows_transitivity :: bool

record derived_candidate =
  dc_parents :: "known_record list"
  dc_proposition_type :: string
  dc_subject_ref :: string
  dc_predicate :: string
  dc_object_value :: "world_value option"
  dc_object_ref :: "record_ref option"

record known_rule =
  ru_spec :: rule_spec
  ru_apply :: "known_set \<Rightarrow> known_record list \<Rightarrow> derived_candidate list result"

record closure_diagnostic =
  cd_rule_id :: string
  cd_reason_code :: string
  cd_detail :: string

record rule_registry =
  rg_rules :: "(string \<times> known_rule) list"
  rg_declared_transitive_outputs :: "string list"

definition register :: "known_rule \<Rightarrow> bool \<Rightarrow> rule_registry \<Rightarrow> rule_registry result" where
  "register rule replace g =
     (let key = rs_rule_id (ru_spec rule)
      in if key = [] then Inl (ValueError ''rule_id required'')
         else if rs_allows_transitivity (ru_spec rule) \<and> key \<noteq> ''wu.rule.code.call-reachability'' \<and>
           rg_declared_transitive_outputs g = []
         then Inl (ValueError ''transitive rule requires explicit ontology declaration'')
         else if key \<in> set (map fst (rg_rules g)) \<and> \<not> replace
         then Inl (ValueError (''rule already registered: '' @ key))
         else Inr (g\<lparr>rg_rules := dict_set key rule (rg_rules g)\<rparr>))"

fun register_all :: "known_rule list \<Rightarrow> rule_registry \<Rightarrow> rule_registry result" where
  "register_all [] g = Inr g"
| "register_all (rule # rest) g = bind_result (register rule False g) (register_all rest)"

definition RuleRegistry :: "known_rule list \<Rightarrow> string list \<Rightarrow> rule_registry result" where
  "RuleRegistry rules declared = register_all rules \<lparr>rg_rules = [], rg_declared_transitive_outputs = declared\<rparr>"

definition registry_rules :: "rule_registry \<Rightarrow> known_rule list" where
  "registry_rules g = map snd (sort_key fst (rg_rules g))"

section \<open>Authority intersection\<close>

record derived_envelope =
  ev_authority_domain :: string
  ev_authority_ceiling_milli :: int
  ev_empirical_evidence_weight_milli :: int
  ev_provenance_refs :: "world_source_ref list"
  ev_observability_state :: observability_state
  ev_coverage_milli :: "int option"
  ev_time :: world_time
  ev_epistemic_state :: string

definition epistemic_order :: "(string \<times> nat) list" where
  "epistemic_order = [(''CURRENT'', 0), (''STALE'', 1), (''REVERIFYING'', 2), (''CHALLENGED'', 3), (''RETIRED'', 4)]"

text \<open>\<open>max(states, key=order.__getitem__)\<close>: the first state of greatest rank; an unknown state is a \<open>KeyError\<close>.\<close>

fun max_epistemic :: "string list \<Rightarrow> string result" where
  "max_epistemic [] = Inl (ValueError ''max() arg is an empty sequence'')"
| "max_epistemic (x # xs) =
     (case find (\<lambda>v. map_of epistemic_order v = None) (x # xs) of
        Some v \<Rightarrow> Inl (KeyError v)
      | None \<Rightarrow> Inr (foldl (\<lambda>best v. if the (map_of epistemic_order v) > the (map_of epistemic_order best) then v else best) x xs))"

definition authority_error :: "string \<Rightarrow> 'a result" where
  "authority_error msg = Inl (Raised ''AuthorityIntersectionError'' msg)"

definition merged_time :: "world_time list \<Rightarrow> world_time result" where
  "merged_time ts =
     (case intersect_world_times ts of
        Inl (Raised c m) \<Rightarrow> if c = ''TimeIntersectionEmpty'' then authority_error m else Inl (Raised c m)
      | r \<Rightarrow> r)"

definition intersect_authority :: "rule_spec \<Rightarrow> known_record list \<Rightarrow> derived_envelope result" where
  "intersect_authority spec parents =
     (if parents = [] then authority_error ''DERIVATION_REQUIRES_PARENTS''
      else let domains = remdups (map kr_authority_domain parents)
        in if rs_accepted_parent_domains spec \<noteq> [] \<and> list_ex (\<lambda>d. d \<notin> set (rs_accepted_parent_domains spec)) domains
           then authority_error ''AUTHORITY_DOMAIN_MISMATCH''
           else if length domains \<noteq> 1 then authority_error ''AUTHORITY_DOMAIN_INTERSECTION_EMPTY''
           else if (case rs_output_authority_domain spec of None \<Rightarrow> False | Some d \<Rightarrow> d \<noteq> hd domains)
           then authority_error ''AUTHORITY_DOMAIN_WIDENING_FORBIDDEN''
           else let ceiling = Min (set (map kr_authority_ceiling_milli parents));
                    weight = Min (set (ceiling # map kr_empirical_evidence_weight_milli parents));
                    coverage_values = map kr_coverage_milli parents;
                    coverage = (if None \<in> set coverage_values then None
                      else Some (Min (set (List.map_filter id coverage_values))))
             in bind_result (max_epistemic (map kr_epistemic_state parents)) (\<lambda>epistemic.
                bind_result (merged_time (map kr_time parents)) (\<lambda>time.
                bind_result (intersect_observability (map kr_observability_state parents)) (\<lambda>observability.
                Inr \<lparr>ev_authority_domain = hd domains, ev_authority_ceiling_milli = ceiling,
                  ev_empirical_evidence_weight_milli = weight,
                  ev_provenance_refs = merge_provenance (map kr_provenance_refs parents),
                  ev_observability_state = observability, ev_coverage_milli = coverage, ev_time = time,
                  ev_epistemic_state = epistemic\<rparr>))))"

section \<open>Materialisation\<close>

definition sorted_parent_refs :: "known_record list \<Rightarrow> record_ref list" where
  "sorted_parent_refs parents = sort_key ref_sort_key (map known_ref parents)"

definition check_parents :: "int \<Rightarrow> world_scope \<Rightarrow> known_record list \<Rightarrow> unit result" where
  "check_parents plane scope parents =
     bind_result (require_same_scope_parents scope parents) (\<lambda>_.
     if list_ex (\<lambda>p. kr_truth_state p \<noteq> ''TRUE'') parents then Inl (ValueError ''PARENT_NOT_TRUE'')
     else bind_result (map_result (\<lambda>p. require_stable_known plane p scope) parents) (\<lambda>_. Inr ()))"

definition child_record ::
    "world_scope \<Rightarrow> derived_candidate \<Rightarrow> derived_envelope \<Rightarrow> string \<Rightarrow> derived_source \<Rightarrow> known_record" where
  "child_record scope c e known_id d =
     \<lparr>kr_schema_version = WORLD_SCHEMA_VERSION, kr_known_id = known_id,
      kr_proposition_type = dc_proposition_type c, kr_subject_ref = dc_subject_ref c,
      kr_predicate = dc_predicate c, kr_object_value = dc_object_value c, kr_object_ref = dc_object_ref c,
      kr_world_scope = scope, kr_time = ev_time e, kr_authority_domain = ev_authority_domain e,
      kr_authority_ceiling_milli = ev_authority_ceiling_milli e,
      kr_observability_state = ev_observability_state e, kr_coverage_milli = ev_coverage_milli e,
      kr_truth_state = ''TRUE'', kr_epistemic_state = ev_epistemic_state e,
      kr_provenance_refs = ev_provenance_refs e,
      kr_empirical_evidence_weight_milli = ev_empirical_evidence_weight_milli e,
      kr_record_hash = UNSET_SHA256, kr_derivation = Derived d\<rparr>"

definition derive_child ::
    "(nat list \<Rightarrow> string) \<Rightarrow> (ustring \<Rightarrow> ustring) \<Rightarrow> rule_spec \<Rightarrow> derived_candidate \<Rightarrow> derived_envelope \<Rightarrow> world_scope \<Rightarrow>
     record_ref list \<Rightarrow> known_record result" where
  "derive_child H nfc spec c e scope parent_refs =
     bind_result (derive_derived_known_id H (sc_world_scope_hash scope) (dc_proposition_type c) (dc_subject_ref c)
       (dc_predicate c) (dc_object_value c) (dc_object_ref c) (rs_rule_id spec) parent_refs) (\<lambda>known_id.
     bind_result (derive_derivation_hash H (rs_rule_id spec) (rs_version spec) parent_refs) (\<lambda>derivation_hash.
     let d = \<lparr>dv_parent_known_refs = parent_refs, dv_transform_id = rs_rule_id spec,
           dv_transform_version = rs_version spec, dv_derivation_hash = derivation_hash\<rparr>
     in bind_result (DerivedKnownRecord H nfc (child_record scope c e known_id d) d) (known_with_computed_hash H)))"

definition derive_derivation ::
    "(nat list \<Rightarrow> string) \<Rightarrow> (ustring \<Rightarrow> ustring) \<Rightarrow> rule_spec \<Rightarrow> derived_envelope \<Rightarrow> world_scope \<Rightarrow> record_ref list \<Rightarrow>
     record_ref \<Rightarrow> derivation_ref result" where
  "derive_derivation H nfc spec e scope parent_refs child_ref =
     (let roots = sorted_set (map ws_sha256 (ev_provenance_refs e))
      in if roots = [] then Inl (ValueError ''PROVENANCE_ROOTS_EMPTY'')
         else bind_result (derive_derivation_id H (sc_world_scope_hash scope) parent_refs [child_ref]
                (rs_rule_id spec) (rs_version spec)) (\<lambda>derivation_id.
           bind_result (DerivationRef H nfc
             \<lparr>dr_derivation_id = derivation_id, dr_scope = scope, dr_source_refs = parent_refs,
              dr_target_refs = [child_ref], dr_transform_type = rs_rule_id spec,
              dr_transform_version = rs_version spec, dr_model_assisted = False, dr_lineage_root_hashes = roots,
              dr_authority_ceiling_milli = ev_authority_ceiling_milli e,
              dr_created_at_ms = wt_recorded_at_ms (ev_time e), dr_derivation_sha256 = UNSET_SHA256\<rparr>)
             (derivation_with_computed_hash H)))"

definition derive_edge ::
    "(nat list \<Rightarrow> string) \<Rightarrow> (ustring \<Rightarrow> ustring) \<Rightarrow> derived_envelope \<Rightarrow> world_scope \<Rightarrow> record_ref \<Rightarrow> record_ref \<Rightarrow>
     string \<Rightarrow> record_ref \<Rightarrow> derivation_edge result" where
  "derive_edge H nfc e scope derivation child_ref kind source =
     bind_result (derive_derivation_edge_id H (sc_world_scope_hash scope) derivation source child_ref kind) (\<lambda>edge_id.
     bind_result (DerivationEdge H nfc
       \<lparr>de_edge_id = edge_id, de_scope = scope, de_derivation_ref = derivation, de_source_ref = source,
        de_target_ref = child_ref, de_edge_kind = kind, de_created_at_ms = wt_recorded_at_ms (ev_time e),
        de_edge_sha256 = UNSET_SHA256\<rparr>) (edge_with_computed_hash H))"

definition materialize ::
    "(nat list \<Rightarrow> string) \<Rightarrow> (ustring \<Rightarrow> ustring) \<Rightarrow> int \<Rightarrow> rule_spec \<Rightarrow> derived_candidate \<Rightarrow>
     (known_record \<times> derivation_ref \<times> derivation_edge list) result" where
  "materialize H nfc plane spec c =
     (case dc_parents c of [] \<Rightarrow> Inl (ValueError ''deterministic derivation requires parents'')
      | first # _ \<Rightarrow>
        let scope = kr_world_scope first;
            parent_refs = sorted_parent_refs (dc_parents c)
        in bind_result (check_parents plane scope (dc_parents c)) (\<lambda>_.
           bind_result (intersect_authority spec (dc_parents c)) (\<lambda>e.
           bind_result (derive_child H nfc spec c e scope parent_refs) (\<lambda>child.
           bind_result (derive_derivation H nfc spec e scope parent_refs (known_ref child)) (\<lambda>derivation.
           let derivation_record = \<lparr>wr_record_type = ''world_derivation'', wr_record_id = dr_derivation_id derivation,
                 wr_revision = None, wr_sha256 = dr_derivation_sha256 derivation\<rparr>
           in bind_result (map_result (derive_edge H nfc e scope derivation_record (known_ref child) ''SOURCE_TO_DERIVATION'')
                parent_refs) (\<lambda>edges.
              bind_result (derive_edge H nfc e scope derivation_record (known_ref child) ''DERIVATION_TO_TARGET''
                derivation_record) (\<lambda>final_edge.
              Inr (child, derivation, edges @ [final_edge]))))))))"

section \<open>The closure engine\<close>

record closure_result =
  cr_known :: known_set
  cr_derivations :: "derivation_ref list"
  cr_edges :: "derivation_edge list"
  cr_diagnostics :: "closure_diagnostic list"
  cr_rounds :: nat
  cr_terminated :: bool
  cr_added_record_hashes :: "string list"
  cr_ancestry :: "string \<rightharpoonup> string set"

record closure_engine =
  en_rules :: "known_rule list"
  en_max_rounds :: int
  en_max_records :: int
  en_plane :: int

text \<open>The local variables of \<open>close\<close> that its loop updates.\<close>

record closure_state =
  cs_known :: known_set
  cs_derivations :: "derivation_ref list"
  cs_edges :: "derivation_edge list"
  cs_diagnostics :: "closure_diagnostic list"
  cs_ancestry :: "string \<rightharpoonup> string set"
  cs_delta :: "known_record list"
  cs_added :: "string list"

fun exc_class :: "py_error \<Rightarrow> string" where
  "exc_class (ValueError m) = ''ValueError''"
| "exc_class (TypeError m) = ''TypeError''"
| "exc_class (RuntimeError m) = ''RuntimeError''"
| "exc_class (KeyError m) = ''KeyError''"
| "exc_class (AttributeError m) = ''AttributeError''"
| "exc_class ZeroDivisionError = ''ZeroDivisionError''"
| "exc_class (ValidationError m) = ''ValidationError''"
| "exc_class (Raised c m) = c"

fun exc_str :: "(string \<Rightarrow> string) \<Rightarrow> py_error \<Rightarrow> string" where
  "exc_str vtext (ValueError m) = m"
| "exc_str vtext (TypeError m) = m"
| "exc_str vtext (RuntimeError m) = m"
| "exc_str vtext (KeyError m) = (CHR 0x27) # m @ [CHR 0x27]"
| "exc_str vtext (AttributeError m) = m"
| "exc_str vtext ZeroDivisionError = ''division by zero''"
| "exc_str vtext (ValidationError m) = vtext m"
| "exc_str vtext (Raised c m) = m"

definition exception_diagnostic :: "(string \<Rightarrow> string) \<Rightarrow> rule_spec \<Rightarrow> py_error \<Rightarrow> closure_diagnostic" where
  "exception_diagnostic vtext spec e =
     (if exc_class e \<in> {''AuthorityIntersectionError'', ''EpistemicIntegrityError''}
      then \<lparr>cd_rule_id = rs_rule_id spec, cd_reason_code = exc_str vtext e, cd_detail = []\<rparr>
      else \<lparr>cd_rule_id = rs_rule_id spec,
        cd_reason_code = (if exc_str vtext e \<noteq> [] then exc_str vtext e else exc_class e), cd_detail = []\<rparr>)"

definition ancestor_signatures ::
    "(nat list \<Rightarrow> string) \<Rightarrow> (string \<rightharpoonup> string set) \<Rightarrow> known_record list \<Rightarrow> string set result" where
  "ancestor_signatures H ancestry parents =
     bind_result (map_result (proposition_signature H) parents) (\<lambda>sigs.
       Inr (set sigs \<union> \<Union> (set (map (\<lambda>p. case ancestry (kr_record_hash p) of None \<Rightarrow> {} | Some a \<Rightarrow> a) parents))))"

definition admit_child ::
    "(nat list \<Rightarrow> string) \<Rightarrow> rule_spec \<Rightarrow> known_record \<times> derivation_ref \<times> derivation_edge list \<Rightarrow> string \<Rightarrow> string set \<Rightarrow>
     closure_state \<Rightarrow> closure_state result" where
  "admit_child H spec derived child_sig ancestor_sigs st =
     (case derived of (child, derivation, new_edges) \<Rightarrow>
      if child_sig \<in> ancestor_sigs
      then Inr (st\<lparr>cs_diagnostics := cs_diagnostics st @
        [\<lparr>cd_rule_id = rs_rule_id spec, cd_reason_code = ''SAME_REVISION_CYCLE'', cd_detail = kr_known_id child\<rparr>]\<rparr>)
      else bind_result (add_known H child (cs_known st)) (\<lambda>(added, known).
        Inr (if added
             then st\<lparr>cs_known := known, cs_ancestry := (cs_ancestry st)(kr_record_hash child \<mapsto> ancestor_sigs),
               cs_delta := cs_delta st @ [child], cs_added := cs_added st @ [kr_record_hash child],
               cs_derivations := cs_derivations st @ [derivation], cs_edges := cs_edges st @ new_edges\<rparr>
             else st)))"

definition try_candidate ::
    "(nat list \<Rightarrow> string) \<Rightarrow> (ustring \<Rightarrow> ustring) \<Rightarrow> int \<Rightarrow> rule_spec \<Rightarrow> derived_candidate \<Rightarrow> closure_state \<Rightarrow>
     closure_state result" where
  "try_candidate H nfc plane spec c st =
     bind_result (materialize H nfc plane spec c) (\<lambda>derived.
     bind_result (proposition_signature H (fst derived)) (\<lambda>child_sig.
     bind_result (ancestor_signatures H (cs_ancestry st) (dc_parents c)) (\<lambda>ancestor_sigs.
     admit_child H spec derived child_sig ancestor_sigs st)))"

definition process_candidate ::
    "(nat list \<Rightarrow> string) \<Rightarrow> (ustring \<Rightarrow> ustring) \<Rightarrow> (string \<Rightarrow> string) \<Rightarrow> int \<Rightarrow> rule_spec \<Rightarrow> derived_candidate \<Rightarrow>
     closure_state \<Rightarrow> closure_state result" where
  "process_candidate H nfc vtext plane spec c st =
     (case try_candidate H nfc plane spec c st of
        Inr st' \<Rightarrow> Inr st'
      | Inl e \<Rightarrow> if exc_class e = ''ActiveCutOverflow'' then Inl e
          else Inr (st\<lparr>cs_diagnostics := cs_diagnostics st @ [exception_diagnostic vtext spec e]\<rparr>))"

fun process_candidates ::
    "(nat list \<Rightarrow> string) \<Rightarrow> (ustring \<Rightarrow> ustring) \<Rightarrow> (string \<Rightarrow> string) \<Rightarrow> int \<Rightarrow> rule_spec \<Rightarrow> derived_candidate list \<Rightarrow>
     closure_state \<Rightarrow> closure_state result" where
  "process_candidates H nfc vtext plane spec [] st = Inr st"
| "process_candidates H nfc vtext plane spec (c # cs) st =
     bind_result (process_candidate H nfc vtext plane spec c st) (process_candidates H nfc vtext plane spec cs)"

fun apply_rules ::
    "(nat list \<Rightarrow> string) \<Rightarrow> (ustring \<Rightarrow> ustring) \<Rightarrow> (string \<Rightarrow> string) \<Rightarrow> int \<Rightarrow> known_record list \<Rightarrow> known_rule list \<Rightarrow>
     closure_state \<Rightarrow> closure_state result" where
  "apply_rules H nfc vtext plane delta [] st = Inr st"
| "apply_rules H nfc vtext plane delta (rule # rules) st =
     (case ru_apply rule (cs_known st) delta of
        Inl e \<Rightarrow> apply_rules H nfc vtext plane delta rules
          (st\<lparr>cs_diagnostics := cs_diagnostics st @
            [\<lparr>cd_rule_id = rs_rule_id (ru_spec rule), cd_reason_code = ''RULE_ERROR'', cd_detail = exc_class e\<rparr>]\<rparr>)
      | Inr candidates \<Rightarrow>
          bind_result (process_candidates H nfc vtext plane (ru_spec rule) candidates st)
            (apply_rules H nfc vtext plane delta rules))"

fun closure_loop ::
    "(nat list \<Rightarrow> string) \<Rightarrow> (ustring \<Rightarrow> ustring) \<Rightarrow> (string \<Rightarrow> string) \<Rightarrow> int \<Rightarrow> known_rule list \<Rightarrow> nat \<Rightarrow> nat \<Rightarrow>
     closure_state \<Rightarrow> (nat \<times> closure_state) result" where
  "closure_loop H nfc vtext plane rules rounds_left rounds st =
     (if cs_delta st = [] then Inr (rounds, st)
      else case rounds_left of
          0 \<Rightarrow> Inl (Raised ''ClosureLimitExceeded''
                 ''deterministic closure did not reach a fixed point within max_rounds'')
        | Suc n \<Rightarrow>
            bind_result (apply_rules H nfc vtext plane (cs_delta st) rules (st\<lparr>cs_delta := []\<rparr>))
              (closure_loop H nfc vtext plane rules n (Suc rounds)))"

declare closure_loop.simps [simp del]

fun admit_direct :: "(nat list \<Rightarrow> string) \<Rightarrow> known_record list \<Rightarrow> closure_state \<Rightarrow> closure_state result" where
  "admit_direct H [] st = Inr st"
| "admit_direct H (k # ks) st =
     bind_result (add_known H k (cs_known st)) (\<lambda>(added, known).
       admit_direct H ks (if added
         then st\<lparr>cs_known := known, cs_delta := cs_delta st @ [k], cs_added := cs_added st @ [kr_record_hash k],
           cs_ancestry := (cs_ancestry st)(kr_record_hash k \<mapsto> {})\<rparr>
         else st\<lparr>cs_known := known\<rparr>))"

definition KnownClosureEngine :: "rule_registry \<Rightarrow> int \<Rightarrow> int \<Rightarrow> int \<Rightarrow> closure_engine result" where
  "KnownClosureEngine registry max_rounds max_records plane =
     (if max_rounds < 1 then Inl (ValueError ''max_rounds must be positive'')
      else Inr \<lparr>en_rules = registry_rules registry, en_max_rounds = max_rounds, en_max_records = max_records,
        en_plane = plane\<rparr>)"

definition initial_state ::
    "(nat list \<Rightarrow> string) \<Rightarrow> closure_engine \<Rightarrow> known_record list \<Rightarrow> closure_result option \<Rightarrow> closure_state result" where
  "initial_state H en direct prior =
     (case prior of
        Some p \<Rightarrow> Inr \<lparr>cs_known = (cr_known p)\<lparr>ks_max_records := en_max_records en\<rparr>,
          cs_derivations = cr_derivations p, cs_edges = cr_edges p, cs_diagnostics = cr_diagnostics p,
          cs_ancestry = cr_ancestry p, cs_delta = [], cs_added = []\<rparr>
      | None \<Rightarrow>
        (case direct of [] \<Rightarrow> Inl (ValueError ''closure requires at least one Known record or a prior closure'')
         | k # _ \<Rightarrow> bind_result (empty_known_set (kr_world_scope k) (en_max_records en)) (\<lambda>known.
             Inr \<lparr>cs_known = known, cs_derivations = [], cs_edges = [], cs_diagnostics = [],
               cs_ancestry = Map.empty, cs_delta = [], cs_added = []\<rparr>)))"

definition close ::
    "(nat list \<Rightarrow> string) \<Rightarrow> (ustring \<Rightarrow> ustring) \<Rightarrow> (string \<Rightarrow> string) \<Rightarrow> closure_engine \<Rightarrow> known_record list \<Rightarrow>
     closure_result option \<Rightarrow> closure_result result" where
  "close H nfc vtext en direct prior =
     bind_result (initial_state H en direct prior) (\<lambda>st0.
     bind_result (admit_direct H direct st0) (\<lambda>st.
     if cs_delta st = [] then
       Inr \<lparr>cr_known = cs_known st, cr_derivations = cs_derivations st, cr_edges = cs_edges st,
         cr_diagnostics = cs_diagnostics st, cr_rounds = 0, cr_terminated = True, cr_added_record_hashes = [],
         cr_ancestry = cs_ancestry st\<rparr>
     else
       bind_result (closure_loop H nfc vtext (en_plane en) (en_rules en) (nat (en_max_rounds en)) 0 st)
         (\<lambda>(rounds, st').
       Inr \<lparr>cr_known = cs_known st', cr_derivations = sort_key dr_derivation_sha256 (cs_derivations st'),
         cr_edges = sort_key de_edge_sha256 (cs_edges st'),
         cr_diagnostics = sort_key (\<lambda>d. (cd_rule_id d, cd_reason_code d, cd_detail d)) (cs_diagnostics st'),
         cr_rounds = rounds, cr_terminated = True, cr_added_record_hashes = sort (cs_added st'),
         cr_ancestry = cs_ancestry st'\<rparr>)))"

section \<open>A derived record never exceeds its parents\<close>

definition coverage_within :: "int option \<Rightarrow> int option \<Rightarrow> bool" where
  "coverage_within c p \<longleftrightarrow> (\<forall>x. c = Some x \<longrightarrow> (\<exists>y. p = Some y \<and> x \<le> y))"

definition within_parent :: "int \<Rightarrow> known_record \<Rightarrow> known_record \<Rightarrow> bool" where
  "within_parent plane k p \<longleftrightarrow>
     fresh_truth plane p (kr_world_scope k) \<and> kr_truth_state p = ''TRUE'' \<and>
     kr_authority_domain k = kr_authority_domain p \<and>
     kr_authority_ceiling_milli k \<le> kr_authority_ceiling_milli p \<and>
     kr_empirical_evidence_weight_milli k \<le> kr_empirical_evidence_weight_milli p \<and>
     coverage_within (kr_coverage_milli k) (kr_coverage_milli p) \<and>
     (\<forall>x. valid_at (kr_time k) x \<longrightarrow> valid_at (kr_time p) x)"

definition derived_from :: "int \<Rightarrow> known_record \<Rightarrow> known_record list \<Rightarrow> bool" where
  "derived_from plane k ps \<longleftrightarrow>
     ps \<noteq> [] \<and> (\<exists>d. kr_derivation k = Derived d \<and> dv_parent_known_refs d = sorted_parent_refs ps) \<and>
     kr_truth_state k = ''TRUE'' \<and> kr_epistemic_state k = ''CURRENT'' \<and> kr_provenance_refs k \<noteq> [] \<and>
     set (kr_provenance_refs k) \<subseteq> \<Union> (set (map (\<lambda>p. set (kr_provenance_refs p)) ps)) \<and>
     (\<forall>p \<in> set ps. within_parent plane k p)"

lemma foldl_pick: "foldl (\<lambda>best v. if P v best then v else best) x xs \<in> set (x # xs)"
proof (induction xs arbitrary: x)
  case (Cons y xs)
  then have "foldl (\<lambda>best v. if P v best then v else best) (if P y x then y else x) xs \<in>
      set ((if P y x then y else x) # xs)" by blast
  then show ?case by (auto split: if_splits)
qed simp

lemma max_epistemic_in:
  assumes "max_epistemic xs = Inr e"
  shows "e \<in> set xs" "\<forall>x \<in> set xs. x \<in> fst ` set epistemic_order"
proof -
  from assms obtain y ys where xs: "xs = y # ys" by (cases xs) auto
  with assms have known: "find (\<lambda>v. map_of epistemic_order v = None) xs = None"
    and e: "e = foldl (\<lambda>best v. if the (map_of epistemic_order v) > the (map_of epistemic_order best) then v else best) y ys"
    by (simp_all only: max_epistemic.simps split: option.splits) simp_all
  show "e \<in> set xs" unfolding e xs by (rule foldl_pick)
  show "\<forall>x \<in> set xs. x \<in> fst ` set epistemic_order"
    using known unfolding find_None_iff map_of_eq_None_iff by blast
qed

lemma merged_time_Inr: "merged_time ts = Inr t \<longleftrightarrow> intersect_world_times ts = Inr t"
  by (auto simp: merged_time_def authority_error_def split: sum.splits py_error.splits)

lemma merge_provenance_subset: "set (merge_provenance gs) \<subseteq> \<Union> (set (map set gs))"
  unfolding merge_provenance_def using dict_values_subset [of world_source_sort_key "concat gs"] by auto

text \<open>What a successful authority intersection computed, and from which checks.\<close>

lemma intersect_authority_Inr:
  assumes "intersect_authority spec ps = Inr e"
  shows "ps \<noteq> []" "length (remdups (map kr_authority_domain ps)) = 1"
    "ev_authority_domain e = hd (remdups (map kr_authority_domain ps))"
    "ev_authority_ceiling_milli e = Min (set (map kr_authority_ceiling_milli ps))"
    "ev_empirical_evidence_weight_milli e =
       Min (set (ev_authority_ceiling_milli e # map kr_empirical_evidence_weight_milli ps))"
    "ev_coverage_milli e = (if None \<in> set (map kr_coverage_milli ps) then None
       else Some (Min (set (List.map_filter id (map kr_coverage_milli ps)))))"
    "max_epistemic (map kr_epistemic_state ps) = Inr (ev_epistemic_state e)"
    "intersect_world_times (map kr_time ps) = Inr (ev_time e)"
    "intersect_observability (map kr_observability_state ps) = Inr (ev_observability_state e)"
    "ev_provenance_refs e = merge_provenance (map kr_provenance_refs ps)"
  using assms
  unfolding intersect_authority_def Let_def authority_error_def
  by (auto simp only: bind_result_eq_Inr merged_time_Inr derived_envelope.simps sum.simps split: if_splits)

lemma intersect_authority_within:
  assumes "intersect_authority spec ps = Inr e" and "p \<in> set ps"
  shows "ev_authority_domain e = kr_authority_domain p"
    "ev_authority_ceiling_milli e \<le> kr_authority_ceiling_milli p"
    "ev_empirical_evidence_weight_milli e \<le> kr_empirical_evidence_weight_milli p"
    "coverage_within (ev_coverage_milli e) (kr_coverage_milli p)"
    "valid_at (ev_time e) x \<Longrightarrow> valid_at (kr_time p) x"
proof -
  note I = intersect_authority_Inr [OF assms(1)]
  from I(2) obtain d where d: "remdups (map kr_authority_domain ps) = [d]" by (auto simp: length_Suc_conv)
  with assms(2) have "kr_authority_domain p \<in> set [d]" by (metis image_eqI set_map set_remdups)
  with I(3) d show "ev_authority_domain e = kr_authority_domain p" by simp
  show "ev_authority_ceiling_milli e \<le> kr_authority_ceiling_milli p" unfolding I(4) using assms(2) by (rule min_le)
  show "ev_empirical_evidence_weight_milli e \<le> kr_empirical_evidence_weight_milli p"
    unfolding I(5) by (rule Min_le) (use assms(2) in auto)
  show "coverage_within (ev_coverage_milli e) (kr_coverage_milli p)"
  proof (cases "None \<in> set (map kr_coverage_milli ps)")
    case False
    with assms(2) obtain y where y: "kr_coverage_milli p = Some y" by (cases "kr_coverage_milli p") (force, auto)
    with assms(2) have "y \<in> set (List.map_filter id (map kr_coverage_milli ps))"
      by (auto simp: set_map_filter image_iff intro!: bexI [of _ p])
    then have "Min (set (List.map_filter id (map kr_coverage_milli ps))) \<le> y" by (intro Min_le) simp_all
    then show ?thesis unfolding I(6) coverage_within_def using False y by simp
  qed (simp add: coverage_within_def I(6))
  show "valid_at (ev_time e) x \<Longrightarrow> valid_at (kr_time p) x"
    using intersect_world_times_Inr(1) [OF I(8)] assms(2) by simp
qed

lemma materialize_Inr:
  assumes "materialize H nfc plane spec c = Inr (child, derivation, edges)"
  obtains e where "dc_parents c \<noteq> []"
    and "check_parents plane (kr_world_scope (hd (dc_parents c))) (dc_parents c) = Inr ()"
    and "intersect_authority spec (dc_parents c) = Inr e"
    and "derive_child H nfc spec c e (kr_world_scope (hd (dc_parents c))) (sorted_parent_refs (dc_parents c)) = Inr child"
    and "derive_derivation H nfc spec e (kr_world_scope (hd (dc_parents c))) (sorted_parent_refs (dc_parents c))
      (known_ref child) = Inr derivation"
  using assms by (cases "dc_parents c") (auto simp: materialize_def Let_def bind_result_eq_Inr)

lemma derive_child_Inr:
  assumes "derive_child H nfc spec c e scope refs = Inr child"
  obtains known_id d where "child = (child_record scope c e known_id d)\<lparr>kr_record_hash := kr_record_hash child\<rparr>"
    and "dv_parent_known_refs d = refs" and "known_has_valid_hash H child = Inr True"
    and "DerivedKnownRecord H nfc (child_record scope c e known_id d) d = Inr (child_record scope c e known_id d)"
proof -
  from assms obtain known_id dh k where
    k: "DerivedKnownRecord H nfc (child_record scope c e known_id
        \<lparr>dv_parent_known_refs = refs, dv_transform_id = rs_rule_id spec, dv_transform_version = rs_version spec,
         dv_derivation_hash = dh\<rparr>) \<lparr>dv_parent_known_refs = refs, dv_transform_id = rs_rule_id spec,
         dv_transform_version = rs_version spec, dv_derivation_hash = dh\<rparr> = Inr k"
    and child: "known_with_computed_hash H k = Inr child"
    by (auto simp: derive_child_def Let_def bind_result_eq_Inr)
  let ?d = "\<lparr>dv_parent_known_refs = refs, dv_transform_id = rs_rule_id spec, dv_transform_version = rs_version spec,
         dv_derivation_hash = dh\<rparr>"
  have eq: "k = child_record scope c e known_id ?d"
    using k by (auto simp: DerivedKnownRecord_def bind_result_eq_Inr invalid_def child_record_def split: if_splits)
  show thesis
  proof (rule that [of known_id ?d])
    show "child = (child_record scope c e known_id ?d)\<lparr>kr_record_hash := kr_record_hash child\<rparr>"
      using known_sealed(2) [OF child] eq by simp
    show "known_has_valid_hash H child = Inr True" by (rule known_sealed(1) [OF child])
    show "DerivedKnownRecord H nfc (child_record scope c e known_id ?d) ?d = Inr (child_record scope c e known_id ?d)"
      using k eq by simp
  qed simp
qed

lemma check_parents_ok:
  assumes "check_parents plane scope ps = Inr ()" "p \<in> set ps"
  shows "fresh_truth plane p scope" "kr_truth_state p = ''TRUE''"
proof -
  from assms(1) have truth: "\<not> list_ex (\<lambda>p. kr_truth_state p \<noteq> ''TRUE'') ps"
    and "ok (map_result (\<lambda>p. require_stable_known plane p scope) ps)"
    by (auto simp: check_parents_def bind_result_eq_Inr ok_iff split: if_splits)
  with assms(2) show "fresh_truth plane p scope" by (auto simp: ok_map_result require_stable_known_ok)
  from truth assms(2) show "kr_truth_state p = ''TRUE''" by (auto simp: list_ex_iff)
qed

lemma materialize_sound:
  assumes "materialize H nfc plane spec c = Inr (child, derivation, edges)"
  shows "derived_from plane child (dc_parents c)" "known_has_valid_hash H child = Inr True"
proof -
  from assms obtain e where ps: "dc_parents c \<noteq> []"
    and check: "check_parents plane (kr_world_scope (hd (dc_parents c))) (dc_parents c) = Inr ()"
    and auth: "intersect_authority spec (dc_parents c) = Inr e"
    and child: "derive_child H nfc spec c e (kr_world_scope (hd (dc_parents c))) (sorted_parent_refs (dc_parents c)) = Inr child"
    and der: "derive_derivation H nfc spec e (kr_world_scope (hd (dc_parents c))) (sorted_parent_refs (dc_parents c))
      (known_ref child) = Inr derivation"
    by (rule materialize_Inr)
  from child obtain known_id d where
    c: "child = (child_record (kr_world_scope (hd (dc_parents c))) c e known_id d)\<lparr>kr_record_hash := kr_record_hash child\<rparr>"
    and d: "dv_parent_known_refs d = sorted_parent_refs (dc_parents c)" and h: "known_has_valid_hash H child = Inr True"
    by (rule derive_child_Inr)
  from c have fields: "kr_truth_state child = ''TRUE''" "kr_epistemic_state child = ev_epistemic_state e"
    "kr_derivation child = Derived d" "kr_provenance_refs child = ev_provenance_refs e"
    "kr_world_scope child = kr_world_scope (hd (dc_parents c))" "kr_authority_domain child = ev_authority_domain e"
    "kr_authority_ceiling_milli child = ev_authority_ceiling_milli e"
    "kr_empirical_evidence_weight_milli child = ev_empirical_evidence_weight_milli e"
    "kr_coverage_milli child = ev_coverage_milli e" "kr_time child = ev_time e"
    by (metis child_record_def known_record.select_convs known_record.update_convs(18))+
  show "known_has_valid_hash H child = Inr True" by (rule h)
  note I = intersect_authority_Inr [OF auth]
  have current: "ev_epistemic_state e = ''CURRENT''"
  proof -
    obtain p where p: "p \<in> set (dc_parents c)" "ev_epistemic_state e = kr_epistemic_state p"
      using max_epistemic_in(1) [OF I(7)] by auto
    then have "kr_epistemic_state p \<in> fst ` set epistemic_order" using max_epistemic_in(2) [OF I(7)] by auto
    with check_parents_ok(1) [OF check p(1)] p(2) show ?thesis by (auto simp: fresh_truth_def epistemic_order_def)
  qed
  have prov: "ev_provenance_refs e \<noteq> []"
  proof
    assume "ev_provenance_refs e = []"
    with der show False by (simp add: derive_derivation_def sorted_set_def Let_def)
  qed
  have "within_parent plane child p" if "p \<in> set (dc_parents c)" for p
    unfolding within_parent_def fields
    using intersect_authority_within [OF auth that] check_parents_ok [OF check that] by simp
  then show "derived_from plane child (dc_parents c)"
    unfolding derived_from_def fields
    using ps d current prov merge_provenance_subset [of "map kr_provenance_refs (dc_parents c)"] I(10)
    by (simp add: comp_def)
qed

section \<open>Steps of the engine\<close>

text \<open>What one candidate may do to the state: nothing but a diagnostic, or one new record derived from the parents.\<close>

definition same_records :: "closure_state \<Rightarrow> closure_state \<Rightarrow> bool" where
  "same_records st st' \<longleftrightarrow> cs_known st' = cs_known st \<and> cs_delta st' = cs_delta st \<and> cs_added st' = cs_added st \<and>
     cs_ancestry st' = cs_ancestry st \<and> set (cs_diagnostics st) \<subseteq> set (cs_diagnostics st')"

definition adds_record ::
    "(nat list \<Rightarrow> string) \<Rightarrow> int \<Rightarrow> known_record list \<Rightarrow> known_record \<Rightarrow> closure_state \<Rightarrow> closure_state \<Rightarrow> bool" where
  "adds_record H plane ps child st st' \<longleftrightarrow>
     derived_from plane child ps \<and> add_known H child (cs_known st) = Inr (True, cs_known st') \<and>
     cs_delta st' = cs_delta st @ [child] \<and> cs_added st' = cs_added st @ [kr_record_hash child] \<and>
     cs_diagnostics st' = cs_diagnostics st"

lemma admit_child_step:
  assumes "admit_child H spec (child, d, es) sig anc st = Inr st'" "derived_from plane child ps"
  shows "same_records st st' \<or> adds_record H plane ps child st st'"
proof (cases "sig \<in> anc")
  case True
  with assms(1) show ?thesis by (auto simp: admit_child_def same_records_def)
next
  case False
  with assms(1) obtain b known where add: "add_known H child (cs_known st) = Inr (b, known)"
    and st': "st' = (if b then st\<lparr>cs_known := known, cs_ancestry := (cs_ancestry st)(kr_record_hash child \<mapsto> anc),
            cs_delta := cs_delta st @ [child], cs_added := cs_added st @ [kr_record_hash child],
            cs_derivations := cs_derivations st @ [d], cs_edges := cs_edges st @ es\<rparr> else st)"
    by (auto simp: admit_child_def bind_result_eq_Inr)
  then show ?thesis using assms(2) by (cases b) (auto simp: same_records_def adds_record_def)
qed

lemma try_candidate_step:
  assumes "try_candidate H nfc plane spec c st = Inr st'"
  shows "same_records st st' \<or> (\<exists>child. adds_record H plane (dc_parents c) child st st')"
proof -
  from assms obtain child d es sig anc where m: "materialize H nfc plane spec c = Inr (child, d, es)"
    and r: "admit_child H spec (child, d, es) sig anc st = Inr st'"
    unfolding try_candidate_def bind_result_eq_Inr by (metis prod_cases3)
  from admit_child_step [OF r materialize_sound(1) [OF m]] show ?thesis by blast
qed

lemma process_candidate_step:
  assumes "process_candidate H nfc vtext plane spec c st = Inr st'"
  shows "same_records st st' \<or> (\<exists>child. adds_record H plane (dc_parents c) child st st')"
proof (cases "try_candidate H nfc plane spec c st")
  case (Inl e)
  with assms show ?thesis by (auto simp: process_candidate_def same_records_def split: if_splits)
next
  case (Inr s)
  with assms have "s = st'" by (simp add: process_candidate_def)
  with Inr try_candidate_step show ?thesis by blast
qed

inductive_set engine_step ::
    "(nat list \<Rightarrow> string) \<Rightarrow> int \<Rightarrow> known_record list set \<Rightarrow> (closure_state \<times> closure_state) set"
  for H :: "nat list \<Rightarrow> string" and plane :: int and parents :: "known_record list set" where
  diagnose: "same_records st st' \<Longrightarrow> (st, st') \<in> engine_step H plane parents"
| derive: "ps \<in> parents \<Longrightarrow> adds_record H plane ps child st st' \<Longrightarrow> (st, st') \<in> engine_step H plane parents"

inductive_cases engine_stepE: "(st, st') \<in> engine_step H plane parents"

lemma process_candidates_steps:
  "process_candidates H nfc vtext plane spec cs st = Inr st' \<Longrightarrow>
     (st, st') \<in> (engine_step H plane (dc_parents ` set cs))\<^sup>*"
proof (induction cs arbitrary: st)
  case (Cons c cs)
  then obtain s where step: "process_candidate H nfc vtext plane spec c st = Inr s"
    and rest: "process_candidates H nfc vtext plane spec cs s = Inr st'" by (auto simp: bind_result_eq_Inr)
  have mono: "engine_step H plane (dc_parents ` set cs) \<subseteq> engine_step H plane (dc_parents ` set (c # cs))"
    by (auto elim!: engine_stepE intro: engine_step.intros)
  have "(st, s) \<in> engine_step H plane (dc_parents ` set (c # cs))"
    using process_candidate_step [OF step] by (auto intro: engine_step.intros)
  with Cons.IH [OF rest] rtrancl_mono [OF mono] show ?case by (meson converse_rtrancl_into_rtrancl in_mono)
qed simp

text \<open>The records of a state only grow.\<close>

definition grows :: "closure_state \<Rightarrow> closure_state \<Rightarrow> bool" where
  "grows st st' \<longleftrightarrow> set (inserted (cs_known st)) \<subseteq> set (inserted (cs_known st')) \<and>
     set (cs_diagnostics st) \<subseteq> set (cs_diagnostics st') \<and> ks_max_records (cs_known st') = ks_max_records (cs_known st) \<and>
     ks_scope (cs_known st') = ks_scope (cs_known st)"

lemma add_known_keeps:
  "add_known H k s = Inr (b, s') \<Longrightarrow> ks_max_records s' = ks_max_records s \<and> ks_scope s' = ks_scope s"
  using add_known_cases(3,4) [of H k s b s'] by (cases b) (auto simp: index_record_def)

lemma grows_refl [simp]: "grows st st"
  by (simp add: grows_def)

lemma grows_trans: "grows a b \<Longrightarrow> grows b c \<Longrightarrow> grows a c"
  by (auto simp: grows_def)

lemma engine_step_grows: "(st, st') \<in> engine_step H plane ps \<Longrightarrow> grows st st'"
  by (erule engine_stepE)
    (auto simp: grows_def same_records_def adds_record_def dest: add_known_keeps known_store.add_new)

lemma engine_steps_grow: "(st, st') \<in> (engine_step H plane ps)\<^sup>* \<Longrightarrow> grows st st'"
  by (induction rule: rtrancl_induct) (auto intro: grows_trans engine_step_grows)

section \<open>Grounded records\<close>

text \<open>
  The least set that contains the given records and every record derived from grounded parents: the
  least fixed point the engine approximates from below.
\<close>

inductive grounded :: "int \<Rightarrow> known_record set \<Rightarrow> known_record \<Rightarrow> bool"
  for plane :: int and base :: "known_record set" where
  given: "k \<in> base \<Longrightarrow> grounded plane base k"
| derived: "derived_from plane k ps \<Longrightarrow> (\<And>p. p \<in> set ps \<Longrightarrow> grounded plane base p) \<Longrightarrow> grounded plane base k"

lemma grounded_mono: "grounded plane base k \<Longrightarrow> base \<subseteq> base' \<Longrightarrow> grounded plane base' k"
  by (induction rule: grounded.induct) (auto intro: grounded.intros)

definition state_ok :: "(nat list \<Rightarrow> string) \<Rightarrow> int \<Rightarrow> known_record set \<Rightarrow> closure_state \<Rightarrow> bool" where
  "state_ok H plane base st \<longleftrightarrow>
     known_set_ok H (cs_known st) \<and> (\<forall>k \<in> set (inserted (cs_known st)). grounded plane base k) \<and>
     set (cs_delta st) \<subseteq> set (inserted (cs_known st)) \<and>
     (int (known_count (cs_known st)) \<le> ks_max_records (cs_known st))"

lemma known_count_inserted: "known_count s = length (inserted s)"
  by (simp add: known_count_def inserted_def)

lemma add_known_new:
  assumes "add_known H k s = Inr (True, s')"
  shows "inserted s' = inserted s @ [k]" "int (known_count s) < ks_max_records s"
    "known_set_ok H s \<Longrightarrow> known_set_ok H s'"
  using known_store.add_new [OF assms] known_store.add_inv [OF _ assms] add_known_cases(3) [OF assms]
  by (simp_all add: known_count_def)

lemma engine_step_ok:
  assumes "(st, st') \<in> engine_step H plane parents" "state_ok H plane base st"
    and "\<forall>ps \<in> parents. set ps \<subseteq> set (inserted (cs_known st))"
  shows "state_ok H plane base st'"
  using assms(1)
proof (rule engine_stepE)
  assume "same_records st st'"
  with assms(2) show ?thesis by (simp add: state_ok_def same_records_def)
next
  fix ps child assume ps: "ps \<in> parents" and "adds_record H plane ps child st st'"
  then have add: "add_known H child (cs_known st) = Inr (True, cs_known st')" and d: "derived_from plane child ps"
    and delta: "cs_delta st' = cs_delta st @ [child]" by (auto simp: adds_record_def)
  have "grounded plane base child"
    by (rule grounded.derived [OF d]) (use assms(2,3) ps in \<open>auto simp: state_ok_def\<close>)
  with assms(2) add_known_new [OF add] add_known_keeps [OF add] delta show ?thesis
    by (auto simp: state_ok_def known_count_inserted)
qed

lemma engine_steps_ok:
  assumes "(st, st') \<in> (engine_step H plane parents)\<^sup>*" "state_ok H plane base st"
    and "\<forall>ps \<in> parents. set ps \<subseteq> set (inserted (cs_known st))"
  shows "state_ok H plane base st'"
  using assms(1)
proof (induction rule: rtrancl_induct)
  case base
  show ?case by (rule assms(2))
next
  case (step s t)
  have "grows st s" by (rule engine_steps_grow [OF step.hyps(1)])
  with assms(3) have "\<forall>ps \<in> parents. set ps \<subseteq> set (inserted (cs_known s))" by (auto simp: grows_def)
  with engine_step_ok [OF step.hyps(2) step.IH] show ?case by blast
qed

section \<open>Rounds\<close>

text \<open>
  What the engine relies on in a rule: its candidates have parents in the set it is given.  Under this
  law every record of a closure is grounded in the records it was given.
\<close>

locale rule_base =
  fixes H :: "nat list \<Rightarrow> string" and rules :: "known_rule list"
  assumes parents_known: "rule \<in> set rules \<Longrightarrow> known_set_ok H s \<Longrightarrow> set delta \<subseteq> set (inserted s) \<Longrightarrow>
    ru_apply rule s delta = Inr cs \<Longrightarrow> c \<in> set cs \<Longrightarrow> set (dc_parents c) \<subseteq> set (inserted s)"
begin

lemma apply_rules_ok:
  "apply_rules H nfc vtext plane delta rs st = Inr st' \<Longrightarrow> set rs \<subseteq> set rules \<Longrightarrow> state_ok H plane base st \<Longrightarrow>
     set delta \<subseteq> set (inserted (cs_known st)) \<Longrightarrow> state_ok H plane base st' \<and> grows st st'"
proof (induction rs arbitrary: st)
  case (Cons rule rs)
  show ?case
  proof (cases "ru_apply rule (cs_known st) delta")
    case (Inl e)
    let ?st = "st\<lparr>cs_diagnostics := cs_diagnostics st @
            [\<lparr>cd_rule_id = rs_rule_id (ru_spec rule), cd_reason_code = ''RULE_ERROR'', cd_detail = exc_class e\<rparr>]\<rparr>"
    have "state_ok H plane base ?st" "grows st ?st" using Cons.prems(3) by (auto simp: state_ok_def grows_def)
    with Cons.IH [of ?st] Cons.prems Inl show ?thesis by (auto intro: grows_trans)
  next
    case (Inr cs)
    with Cons.prems(1) obtain s where s: "process_candidates H nfc vtext plane (ru_spec rule) cs st = Inr s"
      and rest: "apply_rules H nfc vtext plane delta rs s = Inr st'" by (auto simp: bind_result_eq_Inr)
    have "known_set_ok H (cs_known st)" using Cons.prems(3) by (simp add: state_ok_def)
    then have "\<forall>ps \<in> dc_parents ` set cs. set ps \<subseteq> set (inserted (cs_known st))"
      using parents_known [OF _ _ Cons.prems(4) Inr] Cons.prems(2) by auto
    then have "state_ok H plane base s" "grows st s"
      using engine_steps_ok [OF process_candidates_steps [OF s] Cons.prems(3)]
        engine_steps_grow [OF process_candidates_steps [OF s]] by blast+
    moreover from this have "set delta \<subseteq> set (inserted (cs_known s))" using Cons.prems(4) by (auto simp: grows_def)
    ultimately show ?thesis using Cons.IH [OF rest] Cons.prems(2) by (auto intro: grows_trans)
  qed
qed simp

lemma closure_loop_ok:
  "closure_loop H nfc vtext plane rules n rounds st = Inr (rounds', st') \<Longrightarrow> state_ok H plane base st \<Longrightarrow>
     state_ok H plane base st' \<and> grows st st' \<and> cs_delta st' = [] \<and> rounds' \<le> rounds + n"
proof (induction n arbitrary: rounds st)
  case 0
  then show ?case by (auto simp: closure_loop.simps split: if_splits)
next
  case (Suc n)
  show ?case
  proof (cases "cs_delta st = []")
    case True
    with Suc.prems show ?thesis by (simp add: closure_loop.simps)
  next
    case False
    with Suc.prems(1) obtain s where s: "apply_rules H nfc vtext plane (cs_delta st) rules (st\<lparr>cs_delta := []\<rparr>) = Inr s"
      and rest: "closure_loop H nfc vtext plane rules n (Suc rounds) s = Inr (rounds', st')"
      by (subst (asm) closure_loop.simps) (auto simp: bind_result_eq_Inr)
    have "state_ok H plane base s \<and> grows (st\<lparr>cs_delta := []\<rparr>) s"
      by (rule apply_rules_ok [OF s]) (use Suc.prems(2) in \<open>auto simp: state_ok_def\<close>)
    moreover from this have "grows st s" by (simp add: grows_def)
    ultimately show ?thesis using Suc.IH [OF rest] by (auto intro: grows_trans)
  qed
qed

end

lemma admit_direct_ok:
  "admit_direct H ks st = Inr st' \<Longrightarrow> state_ok H plane base st \<Longrightarrow> set ks \<subseteq> base \<Longrightarrow>
     state_ok H plane base st' \<and> grows st st' \<and>
     set (inserted (cs_known st')) - set (cs_delta st') \<subseteq> set (inserted (cs_known st)) - set (cs_delta st)"
proof (induction ks arbitrary: st)
  case (Cons k ks)
  then obtain b known where add: "add_known H k (cs_known st) = Inr (b, known)"
    and rest: "admit_direct H ks (if b
         then st\<lparr>cs_known := known, cs_delta := cs_delta st @ [k], cs_added := cs_added st @ [kr_record_hash k],
           cs_ancestry := (cs_ancestry st)(kr_record_hash k \<mapsto> {})\<rparr>
         else st\<lparr>cs_known := known\<rparr>) = Inr st'"
    by (auto simp: bind_result_eq_Inr)
  show ?case
  proof (cases b)
    case True
    let ?s = "st\<lparr>cs_known := known, cs_delta := cs_delta st @ [k], cs_added := cs_added st @ [kr_record_hash k],
           cs_ancestry := (cs_ancestry st)(kr_record_hash k \<mapsto> {})\<rparr>"
    have "add_known H k (cs_known st) = Inr (True, known)" using add True by simp
    note new = add_known_new [OF this] add_known_keeps [OF this]
    have "state_ok H plane base ?s"
      using Cons.prems(2,3) new by (auto simp: state_ok_def known_count_inserted intro: grounded.given)
    moreover have "grows st ?s" using new by (auto simp: grows_def)
    moreover have "set (inserted (cs_known ?s)) - set (cs_delta ?s) \<subseteq> set (inserted (cs_known st)) - set (cs_delta st)"
      using new(1) by auto
    ultimately show ?thesis using Cons.IH [of ?s] rest True Cons.prems(3) by (auto intro: grows_trans)
  next
    case False
    then have "known = cs_known st" using known_store.add_old add by simp
    with Cons.IH [of st] rest False Cons.prems show ?thesis by simp
  qed
qed simp

definition result_ok :: "(nat list \<Rightarrow> string) \<Rightarrow> closure_engine \<Rightarrow> known_record set \<Rightarrow> closure_result \<Rightarrow> bool" where
  "result_ok H en base r \<longleftrightarrow>
     known_set_ok H (cr_known r) \<and> (\<forall>k \<in> set (inserted (cr_known r)). grounded (en_plane en) base k) \<and>
     int (known_count (cr_known r)) \<le> en_max_records en \<and> int (cr_rounds r) \<le> max 0 (en_max_rounds en)"

lemma set_max_records [simp]:
  "inserted (s\<lparr>ks_max_records := m\<rparr>) = inserted s" "known_count (s\<lparr>ks_max_records := m\<rparr>) = known_count s"
  "known_set_ok H (s\<lparr>ks_max_records := m\<rparr>) \<longleftrightarrow> known_set_ok H s"
  by (simp_all add: inserted_def known_count_def known_set_ok_def by_proposition_def by_proposition_subject_def
      by_provenance_root_def)

lemma initial_state_ok:
  assumes "initial_state H en direct prior = Inr st" and "\<forall>p. prior = Some p \<longrightarrow> result_ok H en base p"
  shows "state_ok H (en_plane en) base st" "cs_delta st = []"
proof -
  show "state_ok H (en_plane en) base st"
  proof (cases prior)
    case (Some p)
    with assms show ?thesis by (auto simp: initial_state_def state_ok_def result_ok_def)
  next
    case None
    with assms(1) obtain k ks known where "direct = k # ks"
      and known: "empty_known_set (kr_world_scope k) (en_max_records en) = Inr known"
      and st: "cs_known st = known" "cs_delta st = []"
      by (auto simp: initial_state_def bind_result_eq_Inr split: list.splits)
    with empty_known_set_ok [OF known, of H] show ?thesis by (simp add: state_ok_def)
  qed
  show "cs_delta st = []"
    using assms(1) by (auto simp: initial_state_def bind_result_eq_Inr split: option.splits list.splits)
qed

text \<open>The outcome of a call that returned, through its two exits.\<close>

lemma close_Inr:
  assumes "close H nfc vtext en direct prior = Inr r"
  obtains st0 st rounds st' where "initial_state H en direct prior = Inr st0" and "admit_direct H direct st0 = Inr st"
    and "cs_delta st = [] \<and> st' = st \<and> rounds = 0 \<or>
      closure_loop H nfc vtext (en_plane en) (en_rules en) (nat (en_max_rounds en)) 0 st = Inr (rounds, st')"
    and "cr_known r = cs_known st'" and "set (cr_diagnostics r) = set (cs_diagnostics st')" and "cr_rounds r = rounds"
    and "cr_terminated r"
proof -
  from assms obtain st0 st where i: "initial_state H en direct prior = Inr st0" and a: "admit_direct H direct st0 = Inr st"
    unfolding close_def bind_result_eq_Inr by auto
  show thesis
  proof (cases "cs_delta st = []")
    case True
    show thesis by (rule that [OF i a, of st 0]) (use assms i a True in \<open>auto simp: close_def\<close>)
  next
    case False
    with assms i a obtain rounds st' where
      l: "closure_loop H nfc vtext (en_plane en) (en_rules en) (nat (en_max_rounds en)) 0 st = Inr (rounds, st')"
      by (auto simp: close_def bind_result_eq_Inr)
    show thesis by (rule that [OF i a, of st' rounds]) (use assms i a False l in \<open>auto simp: close_def\<close>)
  qed
qed

context rule_base
begin

lemma close_ok:
  assumes "close H nfc vtext en direct prior = Inr r" "en_rules en = rules"
    and "\<forall>p. prior = Some p \<longrightarrow> result_ok H en base p"
  shows "result_ok H en (base \<union> set direct) r"
proof -
  from assms(1) obtain st0 st rounds st' where i: "initial_state H en direct prior = Inr st0"
    and a: "admit_direct H direct st0 = Inr st"
    and l: "cs_delta st = [] \<and> st' = st \<and> rounds = 0 \<or>
      closure_loop H nfc vtext (en_plane en) (en_rules en) (nat (en_max_rounds en)) 0 st = Inr (rounds, st')"
    and r: "cr_known r = cs_known st'" "cr_rounds r = rounds"
    by (rule close_Inr)
  let ?base = "base \<union> set direct"
  have "\<forall>p. prior = Some p \<longrightarrow> result_ok H en ?base p"
    using assms(3) by (auto simp: result_ok_def intro: grounded_mono)
  from initial_state_ok(1) [OF i this] have "state_ok H (en_plane en) ?base st0" .
  with admit_direct_ok [OF a] have st: "state_ok H (en_plane en) ?base st" "grows st0 st" by auto
  have "state_ok H (en_plane en) ?base st' \<and> grows st st' \<and> rounds \<le> nat (en_max_rounds en)"
    using l
  proof
    assume "closure_loop H nfc vtext (en_plane en) (en_rules en) (nat (en_max_rounds en)) 0 st = Inr (rounds, st')"
    from closure_loop_ok [OF this [unfolded assms(2)] st(1)] show ?thesis by simp
  qed (use st in simp)
  moreover have "ks_max_records (cs_known st0) = en_max_records en"
    using i empty_known_set_ok
    by (fastforce simp: initial_state_def bind_result_eq_Inr split: option.splits list.splits)
  ultimately show ?thesis using r st(2) by (auto simp: result_ok_def state_ok_def grows_def)
qed

end

section \<open>The loop ends at a fixed point or at the record bound\<close>

lemma process_candidate_error:
  "process_candidate H nfc vtext plane spec c st = Inl e \<Longrightarrow> exc_class e = ''ActiveCutOverflow''"
  by (auto simp: process_candidate_def split: sum.splits if_splits)

lemma process_candidates_error:
  "process_candidates H nfc vtext plane spec cs st = Inl e \<Longrightarrow> exc_class e = ''ActiveCutOverflow''"
  by (induction cs arbitrary: st) (auto simp: bind_result_eq_Inl dest: process_candidate_error)

lemma apply_rules_error:
  "apply_rules H nfc vtext plane delta rs st = Inl e \<Longrightarrow> exc_class e = ''ActiveCutOverflow''"
  by (induction rs arbitrary: st) (auto simp: bind_result_eq_Inl dest: process_candidates_error split: sum.splits)

text \<open>New records are counted once, in the delta of the round that found them.\<close>

definition counts :: "closure_state \<Rightarrow> closure_state \<Rightarrow> bool" where
  "counts st st' \<longleftrightarrow>
     known_count (cs_known st') + length (cs_delta st) = known_count (cs_known st) + length (cs_delta st') \<and>
     ks_max_records (cs_known st') = ks_max_records (cs_known st) \<and>
     (int (known_count (cs_known st)) \<le> ks_max_records (cs_known st) \<longrightarrow>
        int (known_count (cs_known st')) \<le> ks_max_records (cs_known st'))"

lemma engine_step_counts: "(st, st') \<in> engine_step H plane ps \<Longrightarrow> counts st st'"
proof (erule engine_stepE)
  assume "same_records st st'"
  then show "counts st st'" by (simp add: same_records_def counts_def)
next
  fix p child assume "adds_record H plane p child st st'"
  then have add: "add_known H child (cs_known st) = Inr (True, cs_known st')" and "cs_delta st' = cs_delta st @ [child]"
    by (auto simp: adds_record_def)
  with add_known_new(1,2) [OF add] add_known_keeps [OF add] show "counts st st'"
    by (simp add: counts_def known_count_inserted)
qed

lemma engine_steps_count: "(st, st') \<in> (engine_step H plane ps)\<^sup>* \<Longrightarrow> counts st st'"
  by (induction rule: rtrancl_induct) (auto simp: counts_def dest: engine_step_counts)

lemma apply_rules_counts: "apply_rules H nfc vtext plane delta rs st = Inr st' \<Longrightarrow> counts st st'"
proof (induction rs arbitrary: st)
  case (Cons rule rs)
  show ?case
  proof (cases "ru_apply rule (cs_known st) delta")
    case (Inl e)
    with Cons show ?thesis by (fastforce simp: counts_def)
  next
    case (Inr cs)
    with Cons.prems obtain s where s: "process_candidates H nfc vtext plane (ru_spec rule) cs st = Inr s"
      and rest: "apply_rules H nfc vtext plane delta rs s = Inr st'" by (auto simp: bind_result_eq_Inr)
    from engine_steps_count [OF process_candidates_steps [OF s]] Cons.IH [OF rest] show ?thesis
      by (auto simp: counts_def)
  qed
qed (simp add: counts_def)

lemma closure_loop_outcome:
  assumes "int (known_count (cs_known st)) \<le> ks_max_records (cs_known st)"
    and "ks_max_records (cs_known st) < int (known_count (cs_known st) + n) \<or> cs_delta st = []"
  shows "case closure_loop H nfc vtext plane rules n rounds st of
      Inr (r, st') \<Rightarrow> cs_delta st' = [] | Inl e \<Rightarrow> exc_class e = ''ActiveCutOverflow''"
  using assms
proof (induction n arbitrary: rounds st)
  case 0
  then show ?case by (auto simp: closure_loop.simps)
next
  case (Suc n)
  show ?case
  proof (cases "cs_delta st = []")
    case True
    then show ?thesis by (simp add: closure_loop.simps)
  next
    case False
    show ?thesis
    proof (cases "apply_rules H nfc vtext plane (cs_delta st) rules (st\<lparr>cs_delta := []\<rparr>)")
      case (Inl e)
      with False apply_rules_error [OF Inl] show ?thesis by (subst closure_loop.simps) simp
    next
      case (Inr s)
      have c: "known_count (cs_known s) = known_count (cs_known st) + length (cs_delta s)"
        "ks_max_records (cs_known s) = ks_max_records (cs_known st)"
        "int (known_count (cs_known s)) \<le> ks_max_records (cs_known s)"
        using apply_rules_counts [OF Inr] Suc.prems(1) by (auto simp: counts_def)
      have "ks_max_records (cs_known s) < int (known_count (cs_known s) + n) \<or> cs_delta s = []"
        using c(1,2) Suc.prems(2) False by (cases "cs_delta s") auto
      from Suc.IH [OF c(3) this, of "Suc rounds"] False Inr show ?thesis by (subst closure_loop.simps) simp
    qed
  qed
qed

lemma admit_direct_counts: "admit_direct H ks st = Inr st' \<Longrightarrow> counts st st'"
proof (induction ks arbitrary: st)
  case (Cons k ks)
  then obtain b known where add: "add_known H k (cs_known st) = Inr (b, known)"
    and rest: "admit_direct H ks (if b
         then st\<lparr>cs_known := known, cs_delta := cs_delta st @ [k], cs_added := cs_added st @ [kr_record_hash k],
           cs_ancestry := (cs_ancestry st)(kr_record_hash k \<mapsto> {})\<rparr>
         else st\<lparr>cs_known := known\<rparr>) = Inr st'"
    by (auto simp: bind_result_eq_Inr)
  show ?case
  proof (cases b)
    case True
    have "add_known H k (cs_known st) = Inr (True, known)" using add True by simp
    note new = add_known_new(1,2) [OF this] add_known_keeps [OF this]
    from Cons.IH [OF rest] True new show ?thesis by (auto simp: counts_def known_count_inserted)
  next
    case False
    then have "known = cs_known st" using known_store.add_old add by simp
    with Cons.IH [OF rest] False show ?thesis by (auto simp: counts_def)
  qed
qed (simp add: counts_def)

lemma admit_direct_add_all:
  "ok (admit_direct H ks st) \<longleftrightarrow> ok (add_all_known H ks (cs_known st))"
proof (induction ks arbitrary: st)
  case (Cons k ks)
  show ?case
  proof (cases "add_known H k (cs_known st)")
    case (Inr x)
    then obtain b known where "add_known H k (cs_known st) = Inr (b, known)" by (cases x) auto
    with Cons.IH show ?thesis by (cases b) simp_all
  qed simp
qed simp

lemma close_outcome:
  assumes "KnownSet H (kr_world_scope k) (k # ks) (en_max_records en) = Inr s"
    and "en_max_records en \<le> en_max_rounds en"
  shows "(\<exists>r. close H nfc vtext en (k # ks) None = Inr r \<and> cr_terminated r) \<or>
    (\<exists>e. close H nfc vtext en (k # ks) None = Inl e \<and> exc_class e = ''ActiveCutOverflow'')"
proof -
  from assms(1) obtain s0 where s0: "empty_known_set (kr_world_scope k) (en_max_records en) = Inr s0"
    and all: "add_all_known H (k # ks) s0 = Inr s" by (auto simp: KnownSet_def bind_result_eq_Inr)
  obtain st0 where i: "initial_state H en (k # ks) None = Inr st0" and st0: "cs_known st0 = s0" "cs_delta st0 = []"
    using s0 by (simp add: initial_state_def)
  have "ok (admit_direct H (k # ks) st0)" unfolding admit_direct_add_all st0(1) all by simp
  then obtain st where a: "admit_direct H (k # ks) st0 = Inr st" by (auto simp: ok_iff)
  have c: "known_count (cs_known st) = length (cs_delta st)" "ks_max_records (cs_known st) = en_max_records en"
    "int (known_count (cs_known st)) \<le> ks_max_records (cs_known st)"
    using admit_direct_counts [OF a] empty_known_set_ok [OF s0] st0 by (auto simp: counts_def)
  show ?thesis
  proof (cases "cs_delta st = []")
    case True
    with i a show ?thesis by (simp add: close_def)
  next
    case False
    then have "ks_max_records (cs_known st) < int (known_count (cs_known st) + nat (en_max_rounds en))"
      using c(1,2) assms(2) by (cases "cs_delta st") auto
    from closure_loop_outcome [OF c(3) disjI1 [OF this], of H nfc vtext "en_plane en" "en_rules en" 0]
    show ?thesis using i a False by (auto simp: close_def split: sum.splits)
  qed
qed

section \<open>Saturation\<close>

text \<open>
  A candidate is settled when its record is in the set or when a diagnostic names why it is not: the
  exception of its materialisation, or the cycle it would close.
\<close>

definition settled ::
    "(nat list \<Rightarrow> string) \<Rightarrow> (ustring \<Rightarrow> ustring) \<Rightarrow> (string \<Rightarrow> string) \<Rightarrow> int \<Rightarrow> rule_spec \<Rightarrow> known_set \<Rightarrow>
     closure_diagnostic set \<Rightarrow> derived_candidate \<Rightarrow> bool" where
  "settled H nfc vtext plane spec known diags c \<longleftrightarrow>
     (case materialize H nfc plane spec c of
        Inl e \<Rightarrow> exception_diagnostic vtext spec e \<in> diags
      | Inr (child, _, _) \<Rightarrow> kr_record_hash child \<in> kr_record_hash ` set (inserted known) \<or>
          \<lparr>cd_rule_id = rs_rule_id spec, cd_reason_code = ''SAME_REVISION_CYCLE'', cd_detail = kr_known_id child\<rparr> \<in> diags)"

lemma settled_mono:
  "settled H nfc vtext plane spec (cs_known st) (set (cs_diagnostics st)) c \<Longrightarrow> grows st st' \<Longrightarrow>
     settled H nfc vtext plane spec (cs_known st') (set (cs_diagnostics st')) c"
  by (auto simp: settled_def grows_def split: sum.splits prod.splits)

lemma settled_set_max_records [simp]:
  "settled H nfc vtext plane spec (s\<lparr>ks_max_records := m\<rparr>) diags c \<longleftrightarrow> settled H nfc vtext plane spec s diags c"
  unfolding settled_def set_max_records ..

lemma valid_hash_signature:
  assumes "known_has_valid_hash H k = Inr True"
  shows "\<exists>sig. proposition_signature H k = Inr sig"
proof -
  have "representable (jobj (known_dump k))"
    using assms known_seal.valid_representable by (simp add: known_has_valid_hash_def)
  then have "representable (jsome world_value_dump (kr_object_value k))" "representable (jsome record_ref_dump (kr_object_ref k))"
    by (simp_all add: known_dump_def)
  then have "representable (proposition_payload k)" by (simp add: proposition_payload_def)
  then show ?thesis using ok_canonical_sha256 by (simp add: proposition_signature_def ok_iff [symmetric])
qed

lemma process_candidate_settles:
  assumes p: "process_candidate H nfc vtext plane spec c st = Inr st'"
    and known: "known_set_ok H (cs_known st)" "set (dc_parents c) \<subseteq> set (inserted (cs_known st))"
  shows "settled H nfc vtext plane spec (cs_known st') (set (cs_diagnostics st')) c"
proof (cases "materialize H nfc plane spec c")
  case (Inl e)
  then have "try_candidate H nfc plane spec c st = Inl e" by (simp add: try_candidate_def)
  with p Inl show ?thesis by (auto simp: settled_def process_candidate_def split: if_splits)
next
  case (Inr m)
  obtain child d es where m: "m = (child, d, es)" by (cases m)
  note mat = Inr [unfolded m]
  from materialize_sound [OF mat] have h: "known_has_valid_hash H child = Inr True"
    and der: "derived_from plane child (dc_parents c)" by blast+
  obtain sig where sig: "proposition_signature H child = Inr sig" using valid_hash_signature [OF h] by blast
  have "ok (map_result (proposition_signature H) (dc_parents c))"
    unfolding ok_map_result
  proof
    fix q assume "q \<in> set (dc_parents c)"
    with known have "known_has_valid_hash H q = Inr True" by (auto simp: known_set_ok_def)
    from valid_hash_signature [OF this] show "ok (proposition_signature H q)" by (simp add: ok_iff)
  qed
  then obtain anc where anc: "ancestor_signatures H (cs_ancestry st) (dc_parents c) = Inr anc"
    by (auto simp: ancestor_signatures_def ok_iff)
  have try_eq: "try_candidate H nfc plane spec c st = admit_child H spec (child, d, es) sig anc st"
    using mat sig anc by (simp add: try_candidate_def)
  obtain first rest where ps: "dc_parents c = first # rest" using der by (cases "dc_parents c") (auto simp: derived_from_def)
  have scope: "require_same_world_scope (ks_scope (cs_known st)) (kr_world_scope child) = Inr ()"
  proof -
    have "within_parent plane child first" using der ps by (simp add: derived_from_def)
    then have "same_scope_identity (kr_world_scope child) (kr_world_scope first)"
      by (simp add: within_parent_def fresh_truth_def)
    moreover have "require_same_world_scope (ks_scope (cs_known st)) (kr_world_scope first) = Inr ()"
      using known ps by (auto simp: known_set_ok_def)
    ultimately show ?thesis by (auto simp: require_same_world_scope_def same_scope_identity_def split: if_splits)
  qed
  have keys: "set (map fst (ks_by_hash (cs_known st))) = kr_record_hash ` set (inserted (cs_known st))"
    by (rule known_set_ok_keys [OF known(1)])
  consider (cycle) "sig \<in> anc" | (old) "sig \<notin> anc" "kr_record_hash child \<in> kr_record_hash ` set (inserted (cs_known st))"
    | (full) "sig \<notin> anc" "kr_record_hash child \<notin> kr_record_hash ` set (inserted (cs_known st))"
        "int (length (ks_by_hash (cs_known st))) \<ge> ks_max_records (cs_known st)"
    | (new) "sig \<notin> anc" "kr_record_hash child \<notin> kr_record_hash ` set (inserted (cs_known st))"
        "\<not> int (length (ks_by_hash (cs_known st))) \<ge> ks_max_records (cs_known st)" by blast
  then show ?thesis
  proof cases
    case cycle
    with p try_eq show ?thesis by (auto simp: settled_def mat process_candidate_def admit_child_def)
  next
    case old
    have "add_known H child (cs_known st) = Inr (False, cs_known st)"
      using scope h old(2) unfolding add_known_def keys by simp
    with p try_eq old show ?thesis by (auto simp: settled_def mat process_candidate_def admit_child_def)
  next
    case full
    have "add_known H child (cs_known st) = Inl (Raised ''ActiveCutOverflow'' ''finite active Known cut exceeded'')"
      using scope h full(2,3) unfolding add_known_def keys by simp
    with p try_eq full(1) show ?thesis by (simp add: process_candidate_def admit_child_def)
  next
    case new
    have "add_known H child (cs_known st) = Inr (True, index_record child (cs_known st))"
      using scope h new(2,3) unfolding add_known_def keys by simp
    with p try_eq new(1) show ?thesis by (auto simp: settled_def mat process_candidate_def admit_child_def)
  qed
qed

lemma process_candidates_settle:
  "process_candidates H nfc vtext plane spec cs st = Inr st' \<Longrightarrow> state_ok H plane base st \<Longrightarrow>
     \<forall>c \<in> set cs. set (dc_parents c) \<subseteq> set (inserted (cs_known st)) \<Longrightarrow> c \<in> set cs \<Longrightarrow>
     settled H nfc vtext plane spec (cs_known st') (set (cs_diagnostics st')) c"
proof (induction cs arbitrary: st)
  case (Cons x cs)
  then obtain s where s: "process_candidate H nfc vtext plane spec x st = Inr s"
    and rest: "process_candidates H nfc vtext plane spec cs s = Inr st'" by (auto simp: bind_result_eq_Inr)
  have one: "process_candidates H nfc vtext plane spec [x] st = Inr s" using s by simp
  have "grows st s" and s_ok: "state_ok H plane base s"
    using engine_steps_grow [OF process_candidates_steps [OF one]]
      engine_steps_ok [OF process_candidates_steps [OF one] Cons.prems(2)] Cons.prems(3) by auto
  then have parents: "\<forall>c \<in> set cs. set (dc_parents c) \<subseteq> set (inserted (cs_known s))"
    using Cons.prems(3) by (auto simp: grows_def)
  show ?case
  proof (cases "c \<in> set cs")
    case True
    with Cons.IH [OF rest s_ok parents] show ?thesis by blast
  next
    case False
    with Cons.prems(4) have c: "c = x" by simp
    have "settled H nfc vtext plane spec (cs_known s) (set (cs_diagnostics s)) x"
      by (rule process_candidate_settles [OF s]) (use Cons.prems in \<open>auto simp: state_ok_def\<close>)
    then show ?thesis unfolding c by (rule settled_mono) (rule engine_steps_grow [OF process_candidates_steps [OF rest]])
  qed
qed simp

definition no_strays :: "closure_state \<Rightarrow> closure_state \<Rightarrow> bool" where
  "no_strays st st' \<longleftrightarrow>
     set (inserted (cs_known st')) - set (cs_delta st') \<subseteq> set (inserted (cs_known st)) - set (cs_delta st)"

lemma engine_steps_no_strays: "(st, st') \<in> (engine_step H plane ps)\<^sup>* \<Longrightarrow> no_strays st st'"
proof (induction rule: rtrancl_induct)
  case (step s t)
  have "no_strays s t"
    using step.hyps(2)
    by (rule engine_stepE) (auto simp: no_strays_def same_records_def adds_record_def dest!: known_store.add_new)
  with step.IH show ?case by (auto simp: no_strays_def)
qed (simp add: no_strays_def)

lemma apply_rules_no_strays: "apply_rules H nfc vtext plane delta rs st = Inr st' \<Longrightarrow> no_strays st st'"
proof (induction rs arbitrary: st)
  case (Cons rule rs)
  show ?case
  proof (cases "ru_apply rule (cs_known st) delta")
    case (Inl e)
    with Cons show ?thesis by (fastforce simp: no_strays_def)
  next
    case (Inr cs)
    with Cons.prems obtain s where s: "process_candidates H nfc vtext plane (ru_spec rule) cs st = Inr s"
      and rest: "apply_rules H nfc vtext plane delta rs s = Inr st'" by (auto simp: bind_result_eq_Inr)
    from engine_steps_no_strays [OF process_candidates_steps [OF s]] Cons.IH [OF rest] show ?thesis
      by (auto simp: no_strays_def)
  qed
qed (simp add: no_strays_def)

definition saturated ::
    "(nat list \<Rightarrow> string) \<Rightarrow> known_rule \<Rightarrow> (known_record \<Rightarrow> derived_candidate list) \<Rightarrow> (ustring \<Rightarrow> ustring) \<Rightarrow>
     (string \<Rightarrow> string) \<Rightarrow> int \<Rightarrow> known_set \<Rightarrow> closure_diagnostic set \<Rightarrow> known_record set \<Rightarrow> bool" where
  "saturated H rule f nfc vtext plane known diags ks \<longleftrightarrow>
     (\<forall>k \<in> ks. \<forall>c \<in> set (f k). settled H nfc vtext plane (ru_spec rule) known diags c)"

text \<open>
  A rule that looks at one record at a time and never raises.  At the fixed point each of its candidates
  is settled, for every record of the set and not only for the last delta.
\<close>

locale saturating_rule = rule_base +
  fixes rule :: known_rule and f :: "known_record \<Rightarrow> derived_candidate list"
  assumes rule_in: "rule \<in> set rules"
    and pointwise: "ru_apply rule s delta = Inr (concat (map f delta))"
begin

lemma saturated_mono:
  "saturated H rule f nfc vtext plane (cs_known st) (set (cs_diagnostics st)) ks \<Longrightarrow> grows st st' \<Longrightarrow>
     saturated H rule f nfc vtext plane (cs_known st') (set (cs_diagnostics st')) ks"
  unfolding saturated_def by (blast intro: settled_mono)

lemma apply_rules_saturate:
  "apply_rules H nfc vtext plane delta rs st = Inr st' \<Longrightarrow> set rs \<subseteq> set rules \<Longrightarrow> state_ok H plane base st \<Longrightarrow>
     set delta \<subseteq> set (inserted (cs_known st)) \<Longrightarrow> rule \<in> set rs \<Longrightarrow>
     saturated H rule f nfc vtext plane (cs_known st') (set (cs_diagnostics st')) (set delta)"
proof (induction rs arbitrary: st)
  case (Cons r rs)
  have first: "state_ok H plane base s \<and> grows st s" if "apply_rules H nfc vtext plane delta [r] st = Inr s" for s
    using apply_rules_ok [OF that _ Cons.prems(3,4)] Cons.prems(2) by simp
  show ?case
  proof (cases "rule \<in> set rs")
    case True
    obtain s where s: "apply_rules H nfc vtext plane delta [r] st = Inr s"
      and rest: "apply_rules H nfc vtext plane delta rs s = Inr st'"
      using Cons.prems(1) by (auto simp: bind_result_eq_Inr split: sum.splits)
    with first [OF s] Cons.IH [OF rest] Cons.prems(2,4) True show ?thesis by (auto simp: grows_def)
  next
    case False
    with Cons.prems(5) have r: "r = rule" by simp
    let ?cs = "concat (map f delta)"
    obtain s where s: "process_candidates H nfc vtext plane (ru_spec rule) ?cs st = Inr s"
      and rest: "apply_rules H nfc vtext plane delta rs s = Inr st'"
      using Cons.prems(1) by (auto simp: r pointwise bind_result_eq_Inr)
    have "known_set_ok H (cs_known st)" using Cons.prems(3) by (simp add: state_ok_def)
    then have parents: "\<forall>c \<in> set ?cs. set (dc_parents c) \<subseteq> set (inserted (cs_known st))"
      using parents_known [OF rule_in _ Cons.prems(4) pointwise] by blast
    have "settled H nfc vtext plane (ru_spec rule) (cs_known s) (set (cs_diagnostics s)) c" if "c \<in> set ?cs" for c
      by (rule process_candidates_settle [OF s Cons.prems(3) parents that])
    then have "saturated H rule f nfc vtext plane (cs_known s) (set (cs_diagnostics s)) (set delta)"
      by (auto simp: saturated_def)
    moreover have "apply_rules H nfc vtext plane delta [r] st = Inr s" using s by (simp add: r pointwise)
    then have "state_ok H plane base s \<and> grows st s" by (rule first)
    moreover have "grows s st'"
      using apply_rules_ok [OF rest] Cons.prems(2,4) calculation(2) by (auto simp: grows_def)
    ultimately show ?thesis using saturated_mono by blast
  qed
qed simp

lemma closure_loop_saturates:
  "closure_loop H nfc vtext plane rules n rounds st = Inr (rounds', st') \<Longrightarrow> state_ok H plane base st \<Longrightarrow>
     saturated H rule f nfc vtext plane (cs_known st) (set (cs_diagnostics st)) (set (inserted (cs_known st)) - set (cs_delta st)) \<Longrightarrow>
     saturated H rule f nfc vtext plane (cs_known st') (set (cs_diagnostics st')) (set (inserted (cs_known st')))"
proof (induction n arbitrary: rounds st)
  case 0
  then show ?case by (auto simp: closure_loop.simps split: if_splits)
next
  case (Suc n)
  show ?case
  proof (cases "cs_delta st = []")
    case True
    with Suc.prems show ?thesis by (simp add: closure_loop.simps)
  next
    case False
    let ?st = "st\<lparr>cs_delta := []\<rparr>"
    from False Suc.prems(1) obtain s where s: "apply_rules H nfc vtext plane (cs_delta st) rules ?st = Inr s"
      and rest: "closure_loop H nfc vtext plane rules n (Suc rounds) s = Inr (rounds', st')"
      by (subst (asm) closure_loop.simps) (auto simp: bind_result_eq_Inr)
    have ok: "state_ok H plane base ?st" "set (cs_delta st) \<subseteq> set (inserted (cs_known ?st))"
      using Suc.prems(2) by (auto simp: state_ok_def)
    have s_ok: "state_ok H plane base s" "grows ?st s" using apply_rules_ok [OF s _ ok] by auto
    then have old: "saturated H rule f nfc vtext plane (cs_known s) (set (cs_diagnostics s))
        (set (inserted (cs_known st)) - set (cs_delta st))"
      using saturated_mono [of nfc vtext plane ?st] Suc.prems(3) by simp
    have new: "saturated H rule f nfc vtext plane (cs_known s) (set (cs_diagnostics s)) (set (cs_delta st))"
      using apply_rules_saturate [OF s _ ok rule_in] by simp
    have "set (inserted (cs_known s)) - set (cs_delta s) \<subseteq> set (inserted (cs_known st))"
      using apply_rules_no_strays [OF s] by (simp add: no_strays_def)
    with old new have "saturated H rule f nfc vtext plane (cs_known s) (set (cs_diagnostics s))
        (set (inserted (cs_known s)) - set (cs_delta s))"
      by (auto simp: saturated_def)
    from Suc.IH [OF rest s_ok(1) this] show ?thesis .
  qed
qed

lemma close_saturates:
  assumes "close H nfc vtext en direct prior = Inr r" "en_rules en = rules"
    and prior: "\<forall>p. prior = Some p \<longrightarrow> result_ok H en base p \<and>
      saturated H rule f nfc vtext (en_plane en) (cr_known p) (set (cr_diagnostics p)) (set (inserted (cr_known p)))"
  shows "saturated H rule f nfc vtext (en_plane en) (cr_known r) (set (cr_diagnostics r)) (set (inserted (cr_known r)))"
proof -
  from assms(1) obtain st0 st rounds st' where i: "initial_state H en direct prior = Inr st0"
    and a: "admit_direct H direct st0 = Inr st"
    and l: "cs_delta st = [] \<and> st' = st \<and> rounds = 0 \<or>
      closure_loop H nfc vtext (en_plane en) (en_rules en) (nat (en_max_rounds en)) 0 st = Inr (rounds, st')"
    and r: "cr_known r = cs_known st'" "set (cr_diagnostics r) = set (cs_diagnostics st')"
    by (rule close_Inr)
  have "\<forall>p. prior = Some p \<longrightarrow> result_ok H en (base \<union> set direct) p"
    using prior by (auto simp: result_ok_def intro: grounded_mono)
  note st0 = initial_state_ok [OF i this]
  have st: "state_ok H (en_plane en) (base \<union> set direct) st" "grows st0 st"
    "set (inserted (cs_known st)) - set (cs_delta st) \<subseteq> set (inserted (cs_known st0))"
    using admit_direct_ok [OF a st0(1)] by auto
  have "saturated H rule f nfc vtext (en_plane en) (cs_known st0) (set (cs_diagnostics st0)) (set (inserted (cs_known st0)))"
  proof (cases prior)
    case None
    with i have "inserted (cs_known st0) = []"
      using empty_known_set_ok by (fastforce simp: initial_state_def bind_result_eq_Inr split: list.splits)
    then show ?thesis by (simp add: saturated_def)
  next
    case (Some p)
    with i have "cs_known st0 = (cr_known p)\<lparr>ks_max_records := en_max_records en\<rparr>"
      "cs_diagnostics st0 = cr_diagnostics p" by (auto simp: initial_state_def)
    with Some prior show ?thesis by (simp add: saturated_def)
  qed
  with st(2,3) have "saturated H rule f nfc vtext (en_plane en) (cs_known st) (set (cs_diagnostics st))
      (set (inserted (cs_known st)) - set (cs_delta st))"
    using saturated_mono by (auto simp: saturated_def)
  with l closure_loop_saturates [OF _ st(1)] show ?thesis
    unfolding r assms(2) by auto
qed

end

section \<open>Sequences of closures\<close>

text \<open>An engine is closed over some records first, and its result is then extended any number of times.\<close>

inductive closure_run ::
    "(nat list \<Rightarrow> string) \<Rightarrow> (ustring \<Rightarrow> ustring) \<Rightarrow> (string \<Rightarrow> string) \<Rightarrow> closure_engine \<Rightarrow> known_record set \<Rightarrow>
     closure_result \<Rightarrow> bool"
  for H :: "nat list \<Rightarrow> string" and nfc :: "ustring \<Rightarrow> ustring" and vtext :: "string \<Rightarrow> string" and en :: closure_engine where
  start: "close H nfc vtext en direct None = Inr r \<Longrightarrow> closure_run H nfc vtext en (set direct) r"
| extend: "closure_run H nfc vtext en base p \<Longrightarrow> close H nfc vtext en direct (Some p) = Inr r \<Longrightarrow>
     closure_run H nfc vtext en (base \<union> set direct) r"

context rule_base
begin

lemma closure_run_ok: "closure_run H nfc vtext en base r \<Longrightarrow> en_rules en = rules \<Longrightarrow> result_ok H en base r"
proof (induction rule: closure_run.induct)
  case (start direct r)
  from close_ok [OF start.hyps start.prems, of "{}"] show ?case by simp
next
  case (extend base p direct r)
  with close_ok [OF extend.hyps(2) extend.prems, of base] show ?case by simp
qed

end

context saturating_rule
begin

lemma closure_run_saturated:
  "closure_run H nfc vtext en base r \<Longrightarrow> en_rules en = rules \<Longrightarrow>
     saturated H rule f nfc vtext (en_plane en) (cr_known r) (set (cr_diagnostics r)) (set (inserted (cr_known r)))"
proof (induction rule: closure_run.induct)
  case (start direct r)
  from close_saturates [OF start.hyps start.prems, of "{}"] show ?case by simp
next
  case (extend base p direct r)
  with close_saturates [OF extend.hyps(2) extend.prems, of base] closure_run_ok [OF extend.hyps(1)] show ?case by simp
qed

end

section \<open>Derived records validate\<close>

lemma DerivedKnownRecord_hash:
  assumes "DerivedKnownRecord H nfc k d = Inr k'" "Sha256 h"
  shows "DerivedKnownRecord H nfc (k\<lparr>kr_record_hash := h\<rparr>) d = Inr (k'\<lparr>kr_record_hash := h\<rparr>)"
proof -
  have "known_base_fields_ok nfc k \<Longrightarrow> known_base_fields_ok nfc (k\<lparr>kr_record_hash := h\<rparr>)"
    using assms(2) by (simp add: known_base_fields_ok_def)
  moreover have "validate_known_base (k\<lparr>kr_record_hash := h\<rparr>) = validate_known_base k"
    "validate_derived H (k\<lparr>kr_record_hash := h\<rparr>) d = validate_derived H k d"
    by (cases k, simp_all only: validate_known_base_def validate_derived_def known_record.select_convs
        known_record.update_convs)+
  ultimately show ?thesis
    using assms(1) by (auto simp: DerivedKnownRecord_def bind_result_eq_Inr invalid_def split: if_splits)
qed

lemma digest_is_Sha256: "computed_sha256 H fs = Inr h \<Longrightarrow> \<forall>bs. Sha256 (H bs) \<Longrightarrow> Sha256 h"
  unfolding computed_sha256_def by (auto dest: canonical_sha256_range)

definition sealed_derivation :: "(nat list \<Rightarrow> string) \<Rightarrow> (ustring \<Rightarrow> ustring) \<Rightarrow> derivation_ref \<Rightarrow> bool" where
  "sealed_derivation H nfc d \<longleftrightarrow>
     DerivationRef H nfc d = Inr d \<and> computed_sha256 H (derivation_ref_dump d) = Inr (dr_derivation_sha256 d)"

definition sealed_edge :: "(nat list \<Rightarrow> string) \<Rightarrow> (ustring \<Rightarrow> ustring) \<Rightarrow> derivation_edge \<Rightarrow> bool" where
  "sealed_edge H nfc e \<longleftrightarrow>
     DerivationEdge H nfc e = Inr e \<and> computed_sha256 H (derivation_edge_dump e) = Inr (de_edge_sha256 e)"

definition derivation_record :: "derivation_ref \<Rightarrow> record_ref" where
  "derivation_record d = \<lparr>wr_record_type = ''world_derivation'', wr_record_id = dr_derivation_id d,
     wr_revision = None, wr_sha256 = dr_derivation_sha256 d\<rparr>"

lemma DerivationRef_Inr:
  "DerivationRef H nfc d = Inr d' \<longleftrightarrow> d' = d \<and> derivation_ref_fields_ok d \<and> ok (WorldScope H nfc (dr_scope d)) \<and>
     derivation_ref_check H d = Inr ()"
  by (auto simp: DerivationRef_def invalid_def bind_result_eq_Inr split: if_splits)

lemma DerivationEdge_Inr:
  "DerivationEdge H nfc e = Inr e' \<longleftrightarrow> e' = e \<and> derivation_edge_fields_ok e \<and> ok (WorldScope H nfc (de_scope e)) \<and>
     derive_derivation_edge_id H (sc_world_scope_hash (de_scope e)) (de_derivation_ref e) (de_source_ref e)
       (de_target_ref e) (de_edge_kind e) = Inr (de_edge_id e)"
  by (auto simp: DerivationEdge_def invalid_def bind_result_eq_Inr split: if_splits)

lemma derive_derivation_sealed:
  assumes "derive_derivation H nfc spec e scope refs child_ref = Inr d" and "\<forall>bs. Sha256 (H bs)"
  shows "sealed_derivation H nfc d" "dr_scope d = scope" "dr_source_refs d = refs" "dr_target_refs d = [child_ref]"
    "\<not> dr_model_assisted d" "dr_lineage_root_hashes d = sorted_set (map ws_sha256 (ev_provenance_refs e))"
    "dr_authority_ceiling_milli d = ev_authority_ceiling_milli e"
proof -
  obtain i where v: "bind_result (DerivationRef H nfc
       \<lparr>dr_derivation_id = i, dr_scope = scope, dr_source_refs = refs, dr_target_refs = [child_ref],
        dr_transform_type = rs_rule_id spec, dr_transform_version = rs_version spec, dr_model_assisted = False,
        dr_lineage_root_hashes = sorted_set (map ws_sha256 (ev_provenance_refs e)),
        dr_authority_ceiling_milli = ev_authority_ceiling_milli e, dr_created_at_ms = wt_recorded_at_ms (ev_time e),
        dr_derivation_sha256 = UNSET_SHA256\<rparr>) (derivation_with_computed_hash H) = Inr d"
    (is "bind_result (DerivationRef H nfc ?d) _ = _")
    using assms(1) by (auto simp: derive_derivation_def Let_def bind_result_eq_Inr split: if_splits)
  then obtain h where ok: "DerivationRef H nfc ?d = Inr ?d" and h: "computed_sha256 H (derivation_ref_dump ?d) = Inr h"
    and d: "d = ?d\<lparr>dr_derivation_sha256 := h\<rparr>"
    by (auto simp: bind_result_eq_Inr derivation_with_computed_hash_def DerivationRef_Inr)
  have fields: "derivation_ref_fields_ok ?d \<Longrightarrow> derivation_ref_fields_ok d"
    using digest_is_Sha256 [OF h assms(2)] unfolding d by (simp add: derivation_ref_fields_ok_def)
  have check: "derivation_ref_check H d = derivation_ref_check H ?d" "dr_scope d = dr_scope ?d"
    unfolding d by (simp_all add: derivation_ref_check_def)
  have "DerivationRef H nfc d = Inr d" using ok fields unfolding DerivationRef_Inr check by blast
  moreover have "computed_sha256 H (derivation_ref_dump d) = Inr (dr_derivation_sha256 d)"
    using h unfolding d derivation_seal.dump_set derivation_seal.digest_set .
  ultimately show "sealed_derivation H nfc d" by (simp add: sealed_derivation_def)
  show "dr_scope d = scope" "dr_source_refs d = refs" "dr_target_refs d = [child_ref]" "\<not> dr_model_assisted d"
    "dr_lineage_root_hashes d = sorted_set (map ws_sha256 (ev_provenance_refs e))"
    "dr_authority_ceiling_milli d = ev_authority_ceiling_milli e"
    by (simp_all add: d)
qed

lemma derive_edge_sealed:
  assumes "derive_edge H nfc e scope derivation child_ref kind source = Inr g" and "\<forall>bs. Sha256 (H bs)"
  shows "sealed_edge H nfc g \<and> de_scope g = scope \<and> de_derivation_ref g = derivation \<and> de_target_ref g = child_ref \<and>
    de_edge_kind g = kind \<and> de_source_ref g = source"
proof -
  obtain i where v: "bind_result (DerivationEdge H nfc
       \<lparr>de_edge_id = i, de_scope = scope, de_derivation_ref = derivation, de_source_ref = source,
        de_target_ref = child_ref, de_edge_kind = kind, de_created_at_ms = wt_recorded_at_ms (ev_time e),
        de_edge_sha256 = UNSET_SHA256\<rparr>) (edge_with_computed_hash H) = Inr g"
    (is "bind_result (DerivationEdge H nfc ?g) _ = _")
    using assms(1) by (auto simp: derive_edge_def bind_result_eq_Inr)
  then obtain h where ok: "DerivationEdge H nfc ?g = Inr ?g" and h: "computed_sha256 H (derivation_edge_dump ?g) = Inr h"
    and g: "g = ?g\<lparr>de_edge_sha256 := h\<rparr>"
    by (auto simp: bind_result_eq_Inr edge_with_computed_hash_def DerivationEdge_Inr)
  have fields: "derivation_edge_fields_ok ?g \<Longrightarrow> derivation_edge_fields_ok g"
    using digest_is_Sha256 [OF h assms(2)] unfolding g by (simp add: derivation_edge_fields_ok_def)
  have "DerivationEdge H nfc g = Inr g" using ok fields unfolding DerivationEdge_Inr by (simp add: g)
  moreover have "computed_sha256 H (derivation_edge_dump g) = Inr (de_edge_sha256 g)"
    using h unfolding g edge_seal.dump_set edge_seal.digest_set .
  ultimately have "sealed_edge H nfc g" by (simp add: sealed_edge_def)
  then show ?thesis by (simp add: g)
qed

lemma materialize_edges:
  assumes "materialize H nfc plane spec c = Inr (child, derivation, edges)"
  obtains e es f where "edges = es @ [f]"
    and "map_result (derive_edge H nfc e (kr_world_scope (hd (dc_parents c))) (derivation_record derivation)
        (known_ref child) ''SOURCE_TO_DERIVATION'') (sorted_parent_refs (dc_parents c)) = Inr es"
    and "derive_edge H nfc e (kr_world_scope (hd (dc_parents c))) (derivation_record derivation) (known_ref child)
        ''DERIVATION_TO_TARGET'' (derivation_record derivation) = Inr f"
  using assms by (cases "dc_parents c") (auto simp: materialize_def derivation_record_def Let_def bind_result_eq_Inr)

lemma materialized_edges:
  assumes "materialize H nfc plane spec c = Inr (child, derivation, edges)" and "\<forall>bs. Sha256 (H bs)"
  shows "map (\<lambda>g. (de_source_ref g, de_edge_kind g)) edges =
      map (\<lambda>p. (p, ''SOURCE_TO_DERIVATION'')) (sorted_parent_refs (dc_parents c)) @
      [(derivation_record derivation, ''DERIVATION_TO_TARGET'')]"
    and "\<forall>g \<in> set edges. sealed_edge H nfc g \<and> de_scope g = kr_world_scope (hd (dc_parents c)) \<and>
      de_derivation_ref g = derivation_record derivation \<and> de_target_ref g = known_ref child"
proof -
  obtain e es f where edges: "edges = es @ [f]"
    and es: "map_result (derive_edge H nfc e (kr_world_scope (hd (dc_parents c))) (derivation_record derivation)
        (known_ref child) ''SOURCE_TO_DERIVATION'') (sorted_parent_refs (dc_parents c)) = Inr es"
    and f: "derive_edge H nfc e (kr_world_scope (hd (dc_parents c))) (derivation_record derivation) (known_ref child)
        ''DERIVATION_TO_TARGET'' (derivation_record derivation) = Inr f"
    by (rule materialize_edges [OF assms(1)])
  note last = derive_edge_sealed [OF f assms(2)]
  from es have "list_all2 (\<lambda>p g. (p, ''SOURCE_TO_DERIVATION'') = (de_source_ref g, de_edge_kind g)) (sorted_parent_refs (dc_parents c)) es"
    unfolding map_result_Inr_iff by (rule list_all2_mono) (simp add: derive_edge_sealed [OF _ assms(2)])
  then have "map (\<lambda>p. (p, ''SOURCE_TO_DERIVATION'')) (sorted_parent_refs (dc_parents c)) = map (\<lambda>g. (de_source_ref g, de_edge_kind g)) es"
    unfolding list.rel_eq [symmetric] list.rel_map .
  with last show "map (\<lambda>g. (de_source_ref g, de_edge_kind g)) edges =
      map (\<lambda>p. (p, ''SOURCE_TO_DERIVATION'')) (sorted_parent_refs (dc_parents c)) @
      [(derivation_record derivation, ''DERIVATION_TO_TARGET'')]" by (simp add: edges)
  have "sealed_edge H nfc g \<and> de_scope g = kr_world_scope (hd (dc_parents c)) \<and>
      de_derivation_ref g = derivation_record derivation \<and> de_target_ref g = known_ref child" if mem: "g \<in> set es" for g
  proof -
    obtain p where "derive_edge H nfc e (kr_world_scope (hd (dc_parents c))) (derivation_record derivation)
        (known_ref child) ''SOURCE_TO_DERIVATION'' p = Inr g" using map_result_Inr_mem [OF es mem] by blast
    from derive_edge_sealed [OF this assms(2)] show ?thesis by blast
  qed
  with last show "\<forall>g \<in> set edges. sealed_edge H nfc g \<and> de_scope g = kr_world_scope (hd (dc_parents c)) \<and>
      de_derivation_ref g = derivation_record derivation \<and> de_target_ref g = known_ref child" by (simp add: edges)
qed

lemma materialized_child:
  assumes "materialize H nfc plane spec c = Inr (child, derivation, edges)" and "\<forall>bs. Sha256 (H bs)"
  shows "\<exists>d. kr_derivation child = Derived d \<and> DerivedKnownRecord H nfc child d = Inr child"
    and "known_has_valid_hash H child = Inr True"
proof -
  from assms(1) obtain e where child: "derive_child H nfc spec c e (kr_world_scope (hd (dc_parents c)))
      (sorted_parent_refs (dc_parents c)) = Inr child"
    by (rule materialize_Inr)
  then obtain known_id d where
    c: "child = (child_record (kr_world_scope (hd (dc_parents c))) c e known_id d)\<lparr>kr_record_hash := kr_record_hash child\<rparr>"
    and h: "known_has_valid_hash H child = Inr True"
    and v: "DerivedKnownRecord H nfc (child_record (kr_world_scope (hd (dc_parents c))) c e known_id d) d =
      Inr (child_record (kr_world_scope (hd (dc_parents c))) c e known_id d)"
    by (rule derive_child_Inr)
  from h have "computed_sha256 H (known_dump child) = Inr (kr_record_hash child)"
    using known_seal.valid_digest by (simp add: known_has_valid_hash_def)
  then obtain bs where "kr_record_hash child = H bs" unfolding computed_sha256_def using canonical_sha256_range by blast
  with assms(2) have "Sha256 (kr_record_hash child)" by simp
  from DerivedKnownRecord_hash [OF v this] c have "DerivedKnownRecord H nfc child d = Inr child" by simp
  moreover from c have "kr_derivation child = Derived d"
    by (metis child_record_def known_record.select_convs(19) known_record.update_convs(18))
  ultimately show "\<exists>d. kr_derivation child = Derived d \<and> DerivedKnownRecord H nfc child d = Inr child" by blast
  show "known_has_valid_hash H child = Inr True" by (rule h)
qed

text \<open>C23: What materialisation returns are valid, linked contract objects.  When the digest function returns 64
  hexadecimal characters, as SHA-256 does: the record made from a candidate passes every field constraint and
  validator of \<open>DerivedKnownRecord\<close> with its final hash, and the hash is the canonical one; the derivation
  passes those of \<open>DerivationRef\<close> with its canonical digest, in the scope of the parents, from exactly the
  sorted references of the parents to exactly the child; and the edges are one per parent into the derivation,
  in that order, and one from the derivation, each to the child, each a valid \<open>DerivationEdge\<close> in that scope
  with its canonical digest.\<close>

theorem materialized_record_validates:
  assumes "materialize H nfc plane spec c = Inr (child, derivation, edges)" and "\<forall>bs. Sha256 (H bs)"
  shows "(\<exists>d. kr_derivation child = Derived d \<and> DerivedKnownRecord H nfc child d = Inr child) \<and>
    known_has_valid_hash H child = Inr True \<and>
    sealed_derivation H nfc derivation \<and> dr_scope derivation = kr_world_scope (hd (dc_parents c)) \<and>
    dr_source_refs derivation = sorted_parent_refs (dc_parents c) \<and> dr_target_refs derivation = [known_ref child] \<and>
    \<not> dr_model_assisted derivation \<and>
    map (\<lambda>g. (de_source_ref g, de_edge_kind g)) edges =
      map (\<lambda>p. (p, ''SOURCE_TO_DERIVATION'')) (sorted_parent_refs (dc_parents c)) @
      [(derivation_record derivation, ''DERIVATION_TO_TARGET'')] \<and>
    (\<forall>g \<in> set edges. sealed_edge H nfc g \<and> de_scope g = kr_world_scope (hd (dc_parents c)) \<and>
      de_derivation_ref g = derivation_record derivation \<and> de_target_ref g = known_ref child)"
proof -
  obtain e where d: "derive_derivation H nfc spec e (kr_world_scope (hd (dc_parents c))) (sorted_parent_refs (dc_parents c))
      (known_ref child) = Inr derivation" by (rule materialize_Inr [OF assms(1)])
  show ?thesis
    by (intro conjI materialized_child [OF assms] materialized_edges [OF assms] derive_derivation_sealed [OF d assms(2)])
qed

end
