(* ===== verification/Known_Rules.thy ===== *)
theory Known_Rules
  imports Known_Closure
begin

text \<open>
  The rule set of the closure engine (\<open>src/world_understanding/known/rules/__init__.py\<close>): eight rules, each with
  the specification and the \<open>apply\<close> function of its class.  Comprehensions over sets are sorted first in
  the code, so their order is determined.  The search of the call-reachability rule is a total function; it
  ends because every queued path is longer than the one it replaces and leaves fewer targets outside.
\<close>

section \<open>Helpers\<close>

definition text_of :: "known_record \<Rightarrow> ustring option" where
  "text_of k =
     (case kr_object_value k of None \<Rightarrow> None
      | Some v \<Rightarrow> if wv_kind v = ''string'' then wv_string_value v else None)"

text \<open>\<open>r.time.observed_at_ms or -1\<close>: an absent observation and the instant 0 sort alike.\<close>

definition ordered :: "known_record list \<Rightarrow> known_record list" where
  "ordered ks = sort_key (\<lambda>k. (wt_recorded_at_ms (kr_time k),
     (case wt_observed_at_ms (kr_time k) of None \<Rightarrow> - 1 | Some n \<Rightarrow> if n = 0 then - 1 else n), kr_record_hash k)) ks"

definition rule_of :: "string \<Rightarrow> string \<Rightarrow> string option \<Rightarrow> string list \<Rightarrow> bool \<Rightarrow> rule_spec" where
  "rule_of rule_id version domain accepted transitive =
     \<lparr>rs_rule_id = rule_id, rs_version = version, rs_output_authority_domain = domain,
      rs_accepted_parent_domains = accepted, rs_allows_transitivity = transitive\<rparr>"

definition candidate ::
    "known_record list \<Rightarrow> string \<Rightarrow> string \<Rightarrow> string \<Rightarrow> world_value option \<Rightarrow> record_ref option \<Rightarrow> derived_candidate" where
  "candidate parents proposition_type subject predicate object_value object_ref =
     \<lparr>dc_parents = parents, dc_proposition_type = proposition_type, dc_subject_ref = subject,
      dc_predicate = predicate, dc_object_value = object_value, dc_object_ref = object_ref\<rparr>"

definition text_candidate ::
    "(ustring \<Rightarrow> ustring) \<Rightarrow> known_record list \<Rightarrow> string \<Rightarrow> string \<Rightarrow> string \<Rightarrow> ustring \<Rightarrow> derived_candidate result" where
  "text_candidate nfc parents proposition_type subject predicate text =
     bind_result (WorldValue nfc (string_world_value text)) (\<lambda>v.
       Inr (candidate parents proposition_type subject predicate (Some v) None))"

definition concat_result :: "'a list list result \<Rightarrow> 'a list result" where
  "concat_result r = bind_result r (\<lambda>xss. Inr (concat xss))"

definition consecutive :: "'a list \<Rightarrow> ('a \<times> 'a) list" where
  "consecutive xs = zip xs (tl xs)"

section \<open>Files\<close>

definition file_transition_candidates ::
    "(ustring \<Rightarrow> ustring) \<Rightarrow> string \<Rightarrow> string \<Rightarrow> known_record \<times> known_record \<Rightarrow> derived_candidate list result" where
  "file_transition_candidates nfc ptype subject pair =
     (case (text_of (fst pair), text_of (snd pair)) of
        (Some a, Some b) \<Rightarrow>
          bind_result
            (if ptype = ''FILE_EXISTS'' \<and> a \<noteq> b \<and>
               (a, b) \<in> {(ustr ''false'', ustr ''true''), (ustr ''true'', ustr ''false'')}
             then map_result (\<lambda>x. x) [text_candidate nfc [fst pair, snd pair]
               (if b = ustr ''true'' then ''FILE_CREATED'' else ''FILE_DELETED'') subject ''filesystem.transition''
               (if b = ustr ''true'' then ustr ''created'' else ustr ''deleted'')]
             else Inr []) (\<lambda>exists_candidates.
          bind_result
            (if ptype = ''FILE_HASH_AT''
             then map_result (\<lambda>x. x) [text_candidate nfc [fst pair, snd pair]
               (if a = b then ''FILE_VERIFIED_UNCHANGED'' else ''FILE_CONTENT_CHANGED'') subject
               ''filesystem.hash_transition'' (a @ ustr ''->'' @ b)]
             else Inr []) (\<lambda>hash_candidates.
          Inr (exists_candidates @ hash_candidates)))
      | _ \<Rightarrow> Inr [])"

definition FileStateTransitionRule :: "(ustring \<Rightarrow> ustring) \<Rightarrow> known_rule" where
  "FileStateTransitionRule nfc =
     \<lparr>ru_spec = rule_of ''wu.rule.filesystem.transition'' ''v0.1'' (Some ''FILESYSTEM_ARTIFACT'') [''FILESYSTEM_ARTIFACT''] False,
      ru_apply = (\<lambda>known delta.
        let touched = sorted_set (map (\<lambda>k. (kr_proposition_type k, kr_subject_ref k))
              (filter (\<lambda>k. kr_proposition_type k \<in> {''FILE_EXISTS'', ''FILE_HASH_AT''}) delta))
        in concat_result (map_result (\<lambda>(ptype, subject).
             concat_result (map_result (file_transition_candidates nfc ptype subject)
               (consecutive (ordered (by_proposition_subject known ptype subject))))) touched))\<rparr>"

fun later_pairs :: "'a list \<Rightarrow> ('a \<times> 'a) list" where
  "later_pairs [] = []"
| "later_pairs (x # xs) = map (Pair x) xs @ later_pairs xs"

definition HashEqualityRule :: "(ustring \<Rightarrow> ustring) \<Rightarrow> known_rule" where
  "HashEqualityRule nfc =
     \<lparr>ru_spec = rule_of ''wu.rule.filesystem.hash-equality'' ''v0.1'' (Some ''FILESYSTEM_ARTIFACT'') [''FILESYSTEM_ARTIFACT''] False,
      ru_apply = (\<lambda>known delta.
        let hashes = sorted_set (filter (\<lambda>t. t \<noteq> [])
              (List.map_filter text_of (filter (\<lambda>k. kr_proposition_type k = ''FILE_HASH_AT'') delta)))
        in concat_result (map_result (\<lambda>digest.
             let rows = sort_key (\<lambda>k. (kr_subject_ref k, kr_record_hash k))
                   (filter (\<lambda>k. text_of k = Some digest) (by_proposition known ''FILE_HASH_AT''))
             in map_result (\<lambda>(left, right). text_candidate nfc [left, right] ''HASH_EQUAL'' (kr_subject_ref left)
                  ''filesystem.hash_equal'' (ustr (kr_subject_ref right) @ ustr '':'' @ digest))
                (filter (\<lambda>(left, right). kr_subject_ref left \<noteq> kr_subject_ref right) (later_pairs rows))) hashes))\<rparr>"

section \<open>Events and provenance\<close>

definition EventOrderRule :: "(ustring \<Rightarrow> ustring) \<Rightarrow> known_rule" where
  "EventOrderRule nfc =
     \<lparr>ru_spec = rule_of ''wu.rule.event.order'' ''v0.1'' (Some ''TASK_RUN_LIFECYCLE'') [''TASK_RUN_LIFECYCLE''] False,
      ru_apply = (\<lambda>known delta.
        let subjects = sorted_set (map kr_subject_ref
              (filter (\<lambda>k. kr_proposition_type k = ''CHAIN_EVENT_RECORDED'') delta))
        in concat_result (map_result (\<lambda>subject.
             let rows = sort_key (\<lambda>k. (wt_recorded_at_ms (kr_time k), kr_record_hash k))
                   (by_proposition_subject known ''CHAIN_EVENT_RECORDED'' subject)
             in map_result (\<lambda>(left, right). text_candidate nfc [left, right] ''EVENT_PRECEDES'' subject ''event.precedes''
                  (ustr (kr_known_id left) @ ustr ''->'' @ ustr (kr_known_id right)))
                (filter (\<lambda>(left, right). kr_record_hash left \<noteq> kr_record_hash right) (consecutive rows))) subjects))\<rparr>"

fun is_direct :: "known_derivation \<Rightarrow> bool" where
  "is_direct (Direct d) = True"
| "is_direct (Derived d) = False"

definition SameSourceRootGroupingRule :: "(ustring \<Rightarrow> ustring) \<Rightarrow> known_rule" where
  "SameSourceRootGroupingRule nfc =
     \<lparr>ru_spec = rule_of ''wu.rule.provenance.same-root'' ''v0.2'' None [] False,
      ru_apply = (\<lambda>known delta.
        concat_result (map_result (\<lambda>k.
          map_result (\<lambda>root. text_candidate nfc [k] ''SOURCE_ROOT_MEMBER'' (kr_known_id k)
            ''provenance.source_root_member'' (ustr root)) (sorted_set (map ws_sha256 (kr_provenance_refs k))))
          (filter (\<lambda>k. is_direct (kr_derivation k)) (sort_key (\<lambda>k. (kr_known_id k, kr_record_hash k)) delta))))\<rparr>"

section \<open>Rules on one record\<close>

definition git_mapping :: "(string \<times> string \<times> string) list" where
  "git_mapping = [(''GIT_CONTAINS'', ''CONTAINS'', ''code.contains''), (''GIT_IMPORTS'', ''IMPORTS'', ''code.imports''),
     (''GIT_DIRECT_CALLS'', ''DIRECT_CALLS'', ''code.direct_calls'')]"

definition git_candidates :: "known_record \<Rightarrow> derived_candidate list" where
  "git_candidates k =
     (case map_of git_mapping (kr_proposition_type k) of
        Some (ptype, predicate) \<Rightarrow>
          if kr_object_value k \<noteq> None
          then [candidate [k] ptype (kr_subject_ref k) predicate (kr_object_value k) (kr_object_ref k)] else []
      | None \<Rightarrow> [])"

definition GitStructuralNormalizationRule :: known_rule where
  "GitStructuralNormalizationRule =
     \<lparr>ru_spec = rule_of ''wu.rule.git.structural-normalize'' ''v0.1'' (Some ''GIT_CODE'') [''GIT_CODE''] False,
      ru_apply = (\<lambda>known delta. Inr (concat (map git_candidates delta)))\<rparr>"

definition scope_candidates :: "known_record \<Rightarrow> derived_candidate list" where
  "scope_candidates k =
     (if kr_proposition_type k = ''SCOPE_BINDING_OBSERVED'' \<and> kr_object_value k \<noteq> None
      then [candidate [k] ''SCOPE_CONTAINS'' (sc_world_id (kr_world_scope k)) ''scope.contains'' (kr_object_value k)
        (kr_object_ref k)] else [])"

definition ScopeContainmentRule :: known_rule where
  "ScopeContainmentRule =
     \<lparr>ru_spec = rule_of ''wu.rule.scope.containment'' ''v0.1'' None [] False,
      ru_apply = (\<lambda>known delta. Inr (concat (map scope_candidates delta)))\<rparr>"

definition frame_mapping :: "(string \<times> string) list" where
  "frame_mapping = [(''RUN_BELONGS_TO_LIFE'', ''WORLD_FRAME_LIFE''), (''RUN_HAS_WORKSPACE'', ''WORLD_FRAME_WORKSPACE''),
     (''RUN_HAS_PRINCIPAL_SCOPE'', ''WORLD_FRAME_PRINCIPAL_SCOPE''), (''REPO_HEAD'', ''WORLD_FRAME_REPO_HEAD''),
     (''BRANCH_CURRENT'', ''WORLD_FRAME_BRANCH'')]"

definition frame_candidates :: "known_record \<Rightarrow> derived_candidate list" where
  "frame_candidates k =
     (case map_of frame_mapping (kr_proposition_type k) of
        Some ptype \<Rightarrow>
          if kr_object_value k \<noteq> None
          then [candidate [k] ptype (sc_world_id (kr_world_scope k)) ''world_frame.identity'' (kr_object_value k)
            (kr_object_ref k)] else []
      | None \<Rightarrow> [])"

definition WorldFrameIdentityRule :: known_rule where
  "WorldFrameIdentityRule =
     \<lparr>ru_spec = rule_of ''wu.rule.world-frame.identity'' ''v0.1'' None [] False,
      ru_apply = (\<lambda>known delta. Inr (concat (map frame_candidates delta)))\<rparr>"

section \<open>Call reachability\<close>

type_synonym call_graph = "(ustring \<times> (ustring \<times> known_record) list) list"

definition call_edges :: "known_record list \<Rightarrow> (ustring \<times> ustring \<times> known_record) list" where
  "call_edges ks = List.map_filter (\<lambda>k. case text_of k of None \<Rightarrow> None
     | Some target \<Rightarrow> if target = [] then None else Some (ustr (kr_subject_ref k), target, k)) ks"

definition adjacency :: "known_record list \<Rightarrow> call_graph" where
  "adjacency ks =
     fold (\<lambda>(source, target, k). dict_append source (target, k))
       (sort_key (\<lambda>(source, target, k). (source, target, kr_record_hash k)) (call_edges ks)) []"

definition targets_of :: "call_graph \<Rightarrow> ustring \<Rightarrow> ustring list" where
  "targets_of g node = map fst (dict_get g node)"

definition better_or_equal :: "ustring list option \<Rightarrow> ustring list \<Rightarrow> bool" where
  "better_or_equal prior path =
     (case prior of None \<Rightarrow> False | Some p \<Rightarrow> (length p, p) \<le> (length path, path))"

fun relax_targets ::
    "ustring list \<Rightarrow> ustring list \<Rightarrow> (ustring \<times> ustring list) list \<Rightarrow> (ustring \<times> ustring list) list \<Rightarrow>
     (ustring \<times> ustring list) list \<times> (ustring \<times> ustring list) list" where
  "relax_targets path [] best queue = (best, queue)"
| "relax_targets path (target # rest) best queue =
     (if target \<in> set path then relax_targets path rest best queue
      else let new_path = path @ [target]
        in if better_or_equal (map_of best target) new_path then relax_targets path rest best queue
           else relax_targets path rest (dict_set target new_path best) (queue @ [(target, new_path)]))"

lemma relax_targets_queue:
  "\<exists>new. snd (relax_targets path ts best queue) = queue @ new \<and>
     (\<forall>(t, p) \<in> set new. t \<in> set ts \<and> t \<notin> set path \<and> p = path @ [t])"
proof (induction ts arbitrary: best queue)
  case (Cons t ts)
  show ?case
  proof (cases "t \<in> set path \<or> better_or_equal (map_of best t) (path @ [t])")
    case True
    with Cons.IH [of best queue] show ?thesis by (auto simp: Let_def)
  next
    case False
    with Cons.IH [of "dict_set t (path @ [t]) best" "queue @ [(t, path @ [t])]"] obtain new where
      "snd (relax_targets path ts (dict_set t (path @ [t]) best) (queue @ [(t, path @ [t])])) = (queue @ [(t, path @ [t])]) @ new"
      "\<forall>(t', p) \<in> set new. t' \<in> set ts \<and> t' \<notin> set path \<and> p = path @ [t']" by blast
    with False show ?thesis by (intro exI [of _ "(t, path @ [t]) # new"]) (auto simp: Let_def)
  qed
qed simp

definition all_targets :: "call_graph \<Rightarrow> ustring set" where
  "all_targets g = set (map fst (concat (map snd g)))"

lemma targets_of_subset: "set (targets_of g n) \<subseteq> all_targets g"
proof (cases "map_of g n")
  case (Some ts)
  from map_of_SomeD [OF Some] have "set ts \<subseteq> set (concat (map snd g))" by force
  with Some show ?thesis by (auto simp: targets_of_def all_targets_def dict_get_def)
qed (simp add: targets_of_def dict_get_def)

definition queue_measure :: "call_graph \<Rightarrow> (ustring \<times> ustring list) list \<Rightarrow> nat multiset" where
  "queue_measure g queue = mset (map (\<lambda>(node, path). card (all_targets g - set path)) queue)"

lemma relax_decreases:
  assumes "relax_targets path (targets_of g node) best queue = (best', queue')"
  shows "(queue_measure g queue', queue_measure g ((node, path) # queue)) \<in> mult less_than"
proof -
  obtain new where new: "queue' = queue @ new"
    "\<forall>(t, p) \<in> set new. t \<in> set (targets_of g node) \<and> t \<notin> set path \<and> p = path @ [t]"
    using relax_targets_queue [of path "targets_of g node" best queue] assms by auto
  have less: "card (all_targets g - set p) < card (all_targets g - set path)" if "(t, p) \<in> set new" for t p
  proof (rule psubset_card_mono)
    show "finite (all_targets g - set path)" by (simp add: all_targets_def)
    have "t \<in> set (targets_of g node) \<and> t \<notin> set path \<and> p = path @ [t]" using new(2) that by auto
    moreover from this have "t \<in> all_targets g" using targets_of_subset by blast
    ultimately show "all_targets g - set p \<subset> all_targets g - set path" by auto
  qed
  have "(queue_measure g queue + queue_measure g new, queue_measure g queue + queue_measure g [(node, path)]) \<in> mult less_than"
    by (rule one_step_implies_mult) (auto simp: queue_measure_def less split: prod.splits)
  then show ?thesis by (simp add: queue_measure_def new(1))
qed

function (sequential) reach_loop ::
    "call_graph \<Rightarrow> (ustring \<times> ustring list) list \<Rightarrow> (ustring \<times> ustring list) list \<Rightarrow> (ustring \<times> ustring list) list" where
  "reach_loop g best [] = best"
| "reach_loop g best ((node, path) # queue) =
     (let (best', queue') = relax_targets path (targets_of g node) best queue
      in reach_loop g best' queue')"
  by pat_completeness auto

termination
proof (relation "inv_image (mult less_than) (\<lambda>(g, best, queue). queue_measure g queue)")
  show "wf (inv_image (mult less_than) (\<lambda>(g, best, queue). queue_measure g queue))"
    by (intro wf_inv_image wf_mult wf_less_than)
  fix g best node path queue x best' queue'
  assume "x = relax_targets path (targets_of g node) best queue" "(best', queue') = x"
  then have "relax_targets path (targets_of g node) best queue = (best', queue')" by simp
  from relax_decreases [OF this]
  show "((g, best', queue'), g, best, (node, path) # queue) \<in>
      inv_image (mult less_than) (\<lambda>(g, best, queue). queue_measure g queue)" by simp
qed

definition best_paths :: "call_graph \<Rightarrow> ustring \<Rightarrow> (ustring \<times> ustring list) list" where
  "best_paths g source = reach_loop g [(source, [source])] [(source, [source])]"

definition edge_parent :: "call_graph \<Rightarrow> ustring \<times> ustring \<Rightarrow> known_record result" where
  "edge_parent g edge =
     (case sort_key kr_record_hash (map snd (filter (\<lambda>(t, k). t = snd edge) (dict_get g (fst edge)))) of
        k # _ \<Rightarrow> Inr k
      | [] \<Rightarrow> Inl (Raised ''IndexError'' ''list index out of range''))"

fun join_path :: "ustring list \<Rightarrow> ustring" where
  "join_path [] = []"
| "join_path [n] = n"
| "join_path (n # ns) = n @ ustr ''>'' @ join_path ns"

definition reachable_payload :: "ustring \<Rightarrow> ustring list \<Rightarrow> ustring" where
  "reachable_payload target path = target @ ustr ''|path='' @ join_path path"

definition ascii_text :: "ustring \<Rightarrow> string" where
  "ascii_text u = map char_of u"

definition reach_candidate ::
    "(ustring \<Rightarrow> ustring) \<Rightarrow> call_graph \<Rightarrow> ustring \<Rightarrow> ustring \<times> ustring list \<Rightarrow> derived_candidate result" where
  "reach_candidate nfc g source item =
     (case item of (target, path) \<Rightarrow>
        bind_result (map_result (edge_parent g) (consecutive path)) (\<lambda>parents.
          text_candidate nfc parents ''CALL_REACHABLE'' (ascii_text source) ''code.call_reachable''
            (reachable_payload target path)))"

definition CallReachabilityRule :: "(ustring \<Rightarrow> ustring) \<Rightarrow> known_rule" where
  "CallReachabilityRule nfc =
     \<lparr>ru_spec = rule_of ''wu.rule.code.call-reachability'' ''v0.1'' (Some ''GIT_CODE'') [''GIT_CODE''] True,
      ru_apply = (\<lambda>known delta.
        if \<not> list_ex (\<lambda>k. kr_proposition_type k = ''DIRECT_CALLS'') delta then Inr []
        else let g = adjacency (by_proposition known ''DIRECT_CALLS'')
          in concat_result (map_result (\<lambda>source.
               map_result (reach_candidate nfc g source)
                 (filter (\<lambda>(target, path). target \<noteq> source \<and> 2 \<le> length path)
                   (sort_key fst (best_paths g source)))) (sort (map fst g))))\<rparr>"

definition build_p4_rules :: "(ustring \<Rightarrow> ustring) \<Rightarrow> known_rule list" where
  "build_p4_rules nfc =
     [FileStateTransitionRule nfc, HashEqualityRule nfc, EventOrderRule nfc, SameSourceRootGroupingRule nfc,
      GitStructuralNormalizationRule, CallReachabilityRule nfc, ScopeContainmentRule, WorldFrameIdentityRule]"

section \<open>The search finds the least call path\<close>

definition calls :: "call_graph \<Rightarrow> (ustring \<times> ustring) set" where
  "calls g = {(a, b). b \<in> set (targets_of g a)}"

definition call_path :: "call_graph \<Rightarrow> ustring \<Rightarrow> ustring list \<Rightarrow> ustring \<Rightarrow> bool" where
  "call_path g s p t \<longleftrightarrow> p \<noteq> [] \<and> hd p = s \<and> last p = t \<and> successively (\<lambda>a b. (a, b) \<in> calls g) p"

definition path_le :: "ustring list \<Rightarrow> ustring list \<Rightarrow> bool" where
  "path_le p q \<longleftrightarrow> (length p, p) \<le> (length q, q)"

definition reached :: "(ustring \<rightharpoonup> ustring list) \<Rightarrow> ustring \<Rightarrow> ustring list \<Rightarrow> bool" where
  "reached m t p \<longleftrightarrow> (\<exists>b. m t = Some b \<and> path_le b p)"

lemma path_le_trans: "path_le p q \<Longrightarrow> path_le q r \<Longrightarrow> path_le p r"
  unfolding path_le_def by (rule order_trans)

lemma path_le_refl [simp]: "path_le p p"
  by (simp add: path_le_def)

lemma path_le_total: "path_le p q \<or> path_le q p"
  unfolding path_le_def by (rule linear)

lemma path_le_shorter: "length p < length q \<Longrightarrow> path_le p q"
  by (simp add: path_le_def)

lemma path_le_length: "path_le p q \<Longrightarrow> length p \<le> length q"
  by (auto simp: path_le_def less_eq_prod_def)

lemma lex_append:
  fixes p q :: "'a::linorder list"
  assumes "length p = length q" "p \<le> q"
  shows "p @ [t] \<le> q @ [t]"
  using assms by (induction p q rule: list_induct2) (auto simp: less_eq_list_code)

lemma path_le_append: "path_le p q \<Longrightarrow> path_le (p @ [t]) (q @ [t])"
  using lex_append by (auto simp: path_le_def less_eq_prod_def)

lemma call_path_snoc:
  "call_path g s p u \<Longrightarrow> (u, t) \<in> calls g \<Longrightarrow> call_path g s (p @ [t]) t"
  by (auto simp: call_path_def successively_append_iff)

lemma call_path_cases:
  assumes "call_path g s q t"
  shows "q = [s] \<and> t = s \<or> (\<exists>q' u. q = q' @ [t] \<and> call_path g s q' u \<and> (u, t) \<in> calls g)"
proof (cases q rule: rev_cases)
  case Nil
  with assms show ?thesis by (simp add: call_path_def)
next
  case (snoc q' x)
  with assms show ?thesis by (cases "q' = []") (auto simp: call_path_def successively_append_iff)
qed

lemma call_path_reachable: "(s, t) \<in> (calls g)\<^sup>* \<longleftrightarrow> (\<exists>p. call_path g s p t)"
proof
  assume "(s, t) \<in> (calls g)\<^sup>*"
  then show "\<exists>p. call_path g s p t"
  proof (induction rule: rtrancl_induct)
    case base
    have "call_path g s [s] s" by (simp add: call_path_def)
    then show ?case ..
  qed (blast intro: call_path_snoc)
next
  assume "\<exists>p. call_path g s p t"
  then obtain p where "call_path g s p t" ..
  then show "(s, t) \<in> (calls g)\<^sup>*"
  proof (induction "length p" arbitrary: p t rule: less_induct)
    case less
    from call_path_cases [OF less.prems] show ?case
    proof
      assume "\<exists>q' u. p = q' @ [t] \<and> call_path g s q' u \<and> (u, t) \<in> calls g"
      then obtain q' u where q: "p = q' @ [t]" "call_path g s q' u" "(u, t) \<in> calls g" by blast
      with less.hyps [of q' u] have "(s, u) \<in> (calls g)\<^sup>*" by simp
      with q(3) show ?thesis by simp
    qed simp
  qed
qed

text \<open>One pass over the targets of a node.\<close>

lemma dict_set_reached:
  assumes "\<not> better_or_equal (map_of best t) q" "reached (map_of best) u p"
  shows "reached (map_of (dict_set t q best)) u p"
proof (cases "u = t")
  case True
  with assms(2) obtain b where b: "map_of best t = Some b" "path_le b p" by (auto simp: reached_def)
  with assms(1) have "path_le q b" using path_le_total [of b q] by (auto simp: better_or_equal_def path_le_def)
  with b True show ?thesis by (auto simp: reached_def map_of_dict_set intro: path_le_trans)
qed (use assms(2) in \<open>simp add: reached_def map_of_dict_set\<close>)

lemma relax_mono:
  "reached (map_of best) u p \<Longrightarrow> reached (map_of (fst (relax_targets path ts best queue))) u p"
  by (induction ts arbitrary: best queue) (simp_all add: Let_def dict_set_reached)

lemma relax_covers:
  "t \<in> set ts \<Longrightarrow> t \<notin> set path \<Longrightarrow> reached (map_of (fst (relax_targets path ts best queue))) t (path @ [t])"
proof (induction ts arbitrary: best queue)
  case (Cons x ts)
  show ?case
  proof (cases "t = x \<and> t \<notin> set ts")
    case True
    show ?thesis
    proof (cases "better_or_equal (map_of best t) (path @ [t])")
      case b: True
      then have "reached (map_of best) t (path @ [t])"
        by (auto simp: better_or_equal_def reached_def path_le_def split: option.splits)
      with b True Cons.prems(2) show ?thesis by (simp add: Let_def relax_mono)
    next
      case False
      have "reached (map_of (dict_set t (path @ [t]) best)) t (path @ [t])" by (simp add: reached_def map_of_dict_set)
      with False True Cons.prems(2) show ?thesis by (simp add: Let_def relax_mono)
    qed
  next
    case False
    with Cons show ?thesis by (auto simp: Let_def)
  qed
qed simp

lemma relax_queue_grows: "set queue \<subseteq> set (snd (relax_targets path ts best queue))"
  using relax_targets_queue [of path ts best queue] by auto

lemma relax_changed:
  "map_of (fst (relax_targets path ts best queue)) n = Some p \<Longrightarrow> map_of best n \<noteq> Some p \<Longrightarrow>
     n \<in> set ts \<and> n \<notin> set path \<and> p = path @ [n] \<and> (n, p) \<in> set (snd (relax_targets path ts best queue))"
proof (induction ts arbitrary: best queue)
  case (Cons x ts)
  let ?best = "dict_set x (path @ [x]) best" and ?queue = "queue @ [(x, path @ [x])]"
  show ?case
  proof (cases "x \<in> set path \<or> better_or_equal (map_of best x) (path @ [x])")
    case True
    then have "relax_targets path (x # ts) best queue = relax_targets path ts best queue" by (auto simp: Let_def)
    with Cons show ?thesis by simp
  next
    case False
    then have eq: "relax_targets path (x # ts) best queue = relax_targets path ts ?best ?queue" by (simp add: Let_def)
    show ?thesis
    proof (cases "map_of ?best n = Some p")
      case True
      with Cons.prems(2) have "n = x" "p = path @ [x]" by (auto simp: map_of_dict_set split: if_splits)
      with False relax_queue_grows [of ?queue path ts ?best] show ?thesis unfolding eq by simp
    next
      case f: False
      from Cons.IH [OF Cons.prems(1) [unfolded eq] f] show ?thesis unfolding eq by auto
    qed
  qed
qed simp

definition prefixes_reached :: "(ustring \<rightharpoonup> ustring list) \<Rightarrow> ustring list \<Rightarrow> bool" where
  "prefixes_reached m p \<longleftrightarrow> (\<forall>p' u r. p = p' @ u # r \<longrightarrow> reached m u (p' @ [u]))"

definition search_ok :: "call_graph \<Rightarrow> ustring \<Rightarrow> (ustring \<rightharpoonup> ustring list) \<Rightarrow> ustring \<times> ustring list \<Rightarrow> bool" where
  "search_ok g s m = (\<lambda>(n, p). call_path g s p n \<and> distinct p \<and> prefixes_reached m p)"

definition search_inv ::
    "call_graph \<Rightarrow> ustring \<Rightarrow> (ustring \<times> ustring list) list \<Rightarrow> (ustring \<times> ustring list) list \<Rightarrow> bool" where
  "search_inv g s best queue \<longleftrightarrow>
     reached (map_of best) s [s] \<and>
     (\<forall>n p. map_of best n = Some p \<longrightarrow> search_ok g s (map_of best) (n, p)) \<and>
     (\<forall>x \<in> set queue. search_ok g s (map_of best) x) \<and>
     (\<forall>n p t. map_of best n = Some p \<longrightarrow> (n, p) \<in> set queue \<or>
        ((n, t) \<in> calls g \<longrightarrow> t \<notin> set p \<longrightarrow> reached (map_of best) t (p @ [t])))"

lemma search_ok_mono:
  "search_ok g s m x \<Longrightarrow> (\<And>t p. reached m t p \<Longrightarrow> reached m' t p) \<Longrightarrow> search_ok g s m' x"
  unfolding search_ok_def prefixes_reached_def by (cases x) blast

lemma prefixes_reached_snoc:
  "prefixes_reached m p \<Longrightarrow> reached m t (p @ [t]) \<Longrightarrow> prefixes_reached m (p @ [t])"
  unfolding prefixes_reached_def by (metis append_eq_append_conv2 append_eq_Cons_conv append_is_Nil_conv butlast.simps(2) butlast_append butlast_snoc last_snoc last_append last.simps list.distinct(1) self_append_conv)

lemma search_inv_step:
  assumes inv: "search_inv g s best ((node, path) # queue)"
    and r: "relax_targets path (targets_of g node) best queue = (best', queue')"
  shows "search_inv g s best' queue'"
proof -
  have mono: "\<And>t p. reached (map_of best) t p \<Longrightarrow> reached (map_of best') t p"
    using relax_mono [of best _ _ path "targets_of g node" queue] r by simp
  have covered: "\<And>t. (node, t) \<in> calls g \<Longrightarrow> t \<notin> set path \<Longrightarrow> reached (map_of best') t (path @ [t])"
    using relax_covers [of _ "targets_of g node" path best queue] r by (simp add: calls_def)
  have changed: "\<And>n p. map_of best' n = Some p \<Longrightarrow> map_of best n \<noteq> Some p \<Longrightarrow>
      n \<in> set (targets_of g node) \<and> n \<notin> set path \<and> p = path @ [n] \<and> (n, p) \<in> set queue'"
    using relax_changed [of path "targets_of g node" best queue] r by simp
  obtain more where more: "queue' = queue @ more"
    "\<forall>(t, p) \<in> set more. t \<in> set (targets_of g node) \<and> t \<notin> set path \<and> p = path @ [t]"
    using relax_targets_queue [of path "targets_of g node" best queue] r by auto
  have old: "search_ok g s (map_of best') x" if "search_ok g s (map_of best) x" for x
    using search_ok_mono [OF that mono] .
  have popped: "search_ok g s (map_of best') (node, path)" using inv by (intro old) (simp add: search_inv_def)
  have new: "search_ok g s (map_of best') (t, path @ [t])" if "t \<in> set (targets_of g node)" "t \<notin> set path" for t
  proof -
    have e: "(node, t) \<in> calls g" using that(1) by (simp add: calls_def)
    from popped have "call_path g s path node" "distinct path" "prefixes_reached (map_of best') path"
      by (auto simp: search_ok_def)
    with that(2) call_path_snoc [OF _ e] prefixes_reached_snoc [OF _ covered [OF e that(2)]] show ?thesis
      by (simp add: search_ok_def)
  qed
  have best_ok: "search_ok g s (map_of best') (n, p)" if n: "map_of best' n = Some p" for n p
  proof (cases "map_of best n = Some p")
    case True
    then have "search_ok g s (map_of best) (n, p)" using inv by (simp add: search_inv_def)
    then show ?thesis by (rule old)
  next
    case False
    with changed [OF n] new show ?thesis by simp
  qed
  have queue_ok: "search_ok g s (map_of best') x" if x: "x \<in> set queue'" for x
  proof (cases "x \<in> set queue")
    case True
    then have "search_ok g s (map_of best) x" using inv by (simp add: search_inv_def)
    then show ?thesis by (rule old)
  next
    case False
    with x more(1) have "x \<in> set more" by simp
    with more(2) new show ?thesis by (cases x) auto
  qed
  have closed: "(n, p) \<in> set queue' \<or> ((n, t) \<in> calls g \<longrightarrow> t \<notin> set p \<longrightarrow> reached (map_of best') t (p @ [t]))"
    if n: "map_of best' n = Some p" for n p t
  proof (cases "map_of best n = Some p")
    case True
    with inv have "(n, p) \<in> set ((node, path) # queue) \<or>
        ((n, t) \<in> calls g \<longrightarrow> t \<notin> set p \<longrightarrow> reached (map_of best) t (p @ [t]))"
      unfolding search_inv_def by blast
    with more(1) covered mono show ?thesis by auto
  next
    case False
    with changed [OF n] show ?thesis by blast
  qed
  have "reached (map_of best') s [s]" using inv by (intro mono) (simp add: search_inv_def)
  with best_ok queue_ok closed show ?thesis unfolding search_inv_def by blast
qed

lemma reach_loop_inv: "search_inv g s best queue \<Longrightarrow> search_inv g s (reach_loop g best queue) []"
proof (induction g best queue rule: reach_loop.induct)
  case (2 g best node path queue)
  obtain best' queue' where r: "relax_targets path (targets_of g node) best queue = (best', queue')" by fastforce
  from "2.IH" [OF r [symmetric] refl search_inv_step [OF "2.prems" r]] r show ?case by simp
qed simp

lemma best_paths_inv: "search_inv g s (best_paths g s) []"
  unfolding best_paths_def
proof (rule reach_loop_inv)
  have "search_ok g s (map_of [(s, [s])]) (s, [s])"
    by (auto simp: search_ok_def call_path_def prefixes_reached_def reached_def Cons_eq_append_conv)
  then show "search_inv g s [(s, [s])] [(s, [s])]"
    by (auto simp: search_inv_def reached_def split: if_splits)
qed

lemma best_paths_least:
  "call_path g s q t \<Longrightarrow> reached (map_of (best_paths g s)) t q"
proof (induction "length q" arbitrary: q t rule: less_induct)
  case less
  let ?m = "map_of (best_paths g s)"
  note inv = best_paths_inv [of g s, unfolded search_inv_def]
  from call_path_cases [OF less.prems] show ?case
  proof
    assume "q = [s] \<and> t = s"
    with inv show ?thesis by simp
  next
    assume "\<exists>q' u. q = q' @ [t] \<and> call_path g s q' u \<and> (u, t) \<in> calls g"
    then obtain q' u where q: "q = q' @ [t]" "call_path g s q' u" "(u, t) \<in> calls g" by blast
    with less.hyps [of q' u] obtain b where b: "?m u = Some b" "path_le b q'" by (auto simp: reached_def)
    show ?thesis
    proof (cases "t \<in> set b")
      case True
      then obtain b1 b2 where b12: "b = b1 @ t # b2" by (metis split_list)
      from inv b(1) have "search_ok g s ?m (u, b)" by blast
      then have "prefixes_reached ?m b" by (simp add: search_ok_def)
      with b12 have r: "reached ?m t (b1 @ [t])" unfolding prefixes_reached_def by blast
      have "length (b1 @ [t]) < length q" using path_le_length [OF b(2)] b12 q(1) by simp
      then have "path_le (b1 @ [t]) q" by (rule path_le_shorter)
      with r show ?thesis unfolding reached_def using path_le_trans by blast
    next
      case False
      moreover from inv b(1) have "(u, t) \<in> calls g \<longrightarrow> t \<notin> set b \<longrightarrow> reached ?m t (b @ [t])"
        by (simp only: list.set empty_iff simp_thms) blast
      ultimately have "reached ?m t (b @ [t])" using q(3) by blast
      with path_le_append [OF b(2), of t] q(1) show ?thesis by (auto simp: reached_def intro: path_le_trans)
    qed
  qed
qed

section \<open>The rules only use known records\<close>

lemma concat_result_mem:
  assumes "concat_result (map_result f xs) = Inr cs" "c \<in> set cs"
  shows "\<exists>x \<in> set xs. \<exists>ys. f x = Inr ys \<and> c \<in> set ys"
proof -
  from assms obtain yss where m: "map_result f xs = Inr yss" and "c \<in> \<Union> (set (map set yss))"
    by (auto simp: concat_result_def bind_result_eq_Inr)
  then obtain ys where "ys \<in> set yss" "c \<in> set ys" by auto
  with map_result_Inr_mem [OF m] show ?thesis by blast
qed

lemma text_candidate_parents: "text_candidate nfc ps a b d t = Inr c \<Longrightarrow> dc_parents c = ps"
  by (auto simp: text_candidate_def candidate_def bind_result_eq_Inr)

lemma consecutive_mem: "(a, b) \<in> set (consecutive xs) \<Longrightarrow> a \<in> set xs \<and> b \<in> set xs"
  by (auto simp: consecutive_def dest: set_zip_leftD set_zip_rightD list.set_sel(2)) (metis list.sel(2) list.set_sel(2) set_zip_rightD)

lemma later_pairs_mem: "(a, b) \<in> set (later_pairs xs) \<Longrightarrow> a \<in> set xs \<and> b \<in> set xs"
  by (induction xs) auto

lemma indexes_known:
  assumes "known_set_ok H s"
  shows "set (by_proposition s p) \<subseteq> set (inserted s)" "set (by_proposition_subject s p u) \<subseteq> set (inserted s)"
  using assms by (auto simp: known_set_ok_def)

lemma file_transition_parents:
  "file_transition_candidates nfc p u pair = Inr cs \<Longrightarrow> c \<in> set cs \<Longrightarrow> dc_parents c = [fst pair, snd pair]"
  by (auto simp: file_transition_candidates_def bind_result_eq_Inr dest: text_candidate_parents
      split: option.splits if_splits)

lemma file_rule_parents:
  assumes "known_set_ok H s" "ru_apply (FileStateTransitionRule nfc) s delta = Inr cs" "c \<in> set cs"
  shows "set (dc_parents c) \<subseteq> set (inserted s)"
proof -
  from concat_result_mem [OF assms(2) [unfolded FileStateTransitionRule_def Let_def known_rule.simps] assms(3)]
  obtain p u ys where ys: "concat_result (map_result (file_transition_candidates nfc p u)
      (consecutive (ordered (by_proposition_subject s p u)))) = Inr ys" "c \<in> set ys" by auto
  from concat_result_mem [OF ys] obtain pair where pair: "pair \<in> set (consecutive (ordered (by_proposition_subject s p u)))"
    and "dc_parents c = [fst pair, snd pair]" using file_transition_parents by blast
  moreover have "set (ordered (by_proposition_subject s p u)) \<subseteq> set (inserted s)"
    using indexes_known(2) [OF assms(1)] by (simp add: ordered_def)
  moreover have "(fst pair, snd pair) \<in> set (consecutive (ordered (by_proposition_subject s p u)))" using pair by simp
  ultimately show ?thesis using consecutive_mem by fastforce
qed

lemma hash_rule_parents:
  assumes "known_set_ok H s" "ru_apply (HashEqualityRule nfc) s delta = Inr cs" "c \<in> set cs"
  shows "set (dc_parents c) \<subseteq> set (inserted s)"
proof -
  from concat_result_mem [OF assms(2) [unfolded HashEqualityRule_def Let_def known_rule.simps] assms(3)]
  obtain digest ys where ys: "map_result (\<lambda>(left, right). text_candidate nfc [left, right] ''HASH_EQUAL'' (kr_subject_ref left)
                  ''filesystem.hash_equal'' (ustr (kr_subject_ref right) @ ustr '':'' @ digest))
      (filter (\<lambda>(left, right). kr_subject_ref left \<noteq> kr_subject_ref right)
        (later_pairs (sort_key (\<lambda>k. (kr_subject_ref k, kr_record_hash k))
          (filter (\<lambda>k. text_of k = Some digest) (by_proposition s ''FILE_HASH_AT''))))) = Inr ys" "c \<in> set ys"
    by blast
  from map_result_Inr_mem [OF ys] obtain left right where
    "(left, right) \<in> set (later_pairs (sort_key (\<lambda>k. (kr_subject_ref k, kr_record_hash k))
          (filter (\<lambda>k. text_of k = Some digest) (by_proposition s ''FILE_HASH_AT''))))"
    and "dc_parents c = [left, right]" using text_candidate_parents by auto
  with later_pairs_mem indexes_known(1) [OF assms(1)] show ?thesis by fastforce
qed

lemma event_rule_parents:
  assumes "known_set_ok H s" "ru_apply (EventOrderRule nfc) s delta = Inr cs" "c \<in> set cs"
  shows "set (dc_parents c) \<subseteq> set (inserted s)"
proof -
  from concat_result_mem [OF assms(2) [unfolded EventOrderRule_def Let_def known_rule.simps] assms(3)]
  obtain u ys where ys: "map_result (\<lambda>(left, right). text_candidate nfc [left, right] ''EVENT_PRECEDES'' u ''event.precedes''
                  (ustr (kr_known_id left) @ ustr ''->'' @ ustr (kr_known_id right)))
      (filter (\<lambda>(left, right). kr_record_hash left \<noteq> kr_record_hash right)
        (consecutive (sort_key (\<lambda>k. (wt_recorded_at_ms (kr_time k), kr_record_hash k))
          (by_proposition_subject s ''CHAIN_EVENT_RECORDED'' u)))) = Inr ys" "c \<in> set ys"
    by blast
  from map_result_Inr_mem [OF ys] obtain left right where
    "(left, right) \<in> set (consecutive (sort_key (\<lambda>k. (wt_recorded_at_ms (kr_time k), kr_record_hash k))
          (by_proposition_subject s ''CHAIN_EVENT_RECORDED'' u)))"
    and "dc_parents c = [left, right]" using text_candidate_parents by auto
  with consecutive_mem indexes_known(2) [OF assms(1)] show ?thesis by fastforce
qed

lemma root_rule_parents:
  assumes "set delta \<subseteq> set (inserted s)" "ru_apply (SameSourceRootGroupingRule nfc) s delta = Inr cs" "c \<in> set cs"
  shows "set (dc_parents c) \<subseteq> set (inserted s)"
proof -
  from concat_result_mem [OF assms(2) [unfolded SameSourceRootGroupingRule_def known_rule.simps] assms(3)]
  obtain k ys where k: "k \<in> set delta" and ys: "map_result (\<lambda>root. text_candidate nfc [k] ''SOURCE_ROOT_MEMBER'' (kr_known_id k)
            ''provenance.source_root_member'' (ustr root)) (sorted_set (map ws_sha256 (kr_provenance_refs k))) = Inr ys" "c \<in> set ys"
    by auto
  from map_result_Inr_mem [OF ys] have "dc_parents c = [k]" using text_candidate_parents by blast
  with k assms(1) show ?thesis by auto
qed

lemma pointwise_parents:
  assumes "set delta \<subseteq> set (inserted s)" "c \<in> set (concat (map f delta))"
    and "\<And>k. c \<in> set (f k) \<Longrightarrow> dc_parents c = [k]"
  shows "set (dc_parents c) \<subseteq> set (inserted s)"
proof -
  from assms(2) obtain k where "k \<in> set delta" "c \<in> set (f k)" by auto
  with assms(1,3) show ?thesis by auto
qed

lemma pointwise_candidates:
  "c \<in> set (git_candidates k) \<Longrightarrow> dc_parents c = [k]" "c \<in> set (scope_candidates k) \<Longrightarrow> dc_parents c = [k]"
  "c \<in> set (frame_candidates k) \<Longrightarrow> dc_parents c = [k]"
  by (auto simp: git_candidates_def scope_candidates_def frame_candidates_def candidate_def split: option.splits if_splits)

lemma dict_get_fold_edges:
  "dict_get (fold (\<lambda>(source, target, k). dict_append source (target, k)) es d) n =
     dict_get d n @ map snd (filter (\<lambda>e. fst e = n) es)"
  by (induction es arbitrary: d) (auto simp: dict_get_append)

lemma adjacency_get:
  "dict_get (adjacency ks) n = map snd (filter (\<lambda>e. fst e = n)
     (sort_key (\<lambda>(source, target, k). (source, target, kr_record_hash k)) (call_edges ks)))"
  unfolding adjacency_def dict_get_fold_edges by (simp add: dict_get_def)

lemma call_edges_iff:
  "(a, b, k) \<in> set (call_edges ks) \<longleftrightarrow> k \<in> set ks \<and> text_of k = Some b \<and> b \<noteq> [] \<and> a = ustr (kr_subject_ref k)"
  by (auto simp: call_edges_def set_map_filter split: option.splits if_splits)

lemma adjacency_mem:
  "(b, k) \<in> set (dict_get (adjacency ks) a) \<longleftrightarrow>
     k \<in> set ks \<and> text_of k = Some b \<and> b \<noteq> [] \<and> a = ustr (kr_subject_ref k)"
  unfolding adjacency_get using call_edges_iff [of a b k ks] by (force simp: image_iff)

lemma calls_adjacency:
  "(a, b) \<in> calls (adjacency ks) \<longleftrightarrow> (\<exists>k \<in> set ks. text_of k = Some b \<and> b \<noteq> [] \<and> a = ustr (kr_subject_ref k))"
  unfolding calls_def targets_of_def using adjacency_mem [of b _ ks a] by (force simp: image_iff)

lemma edge_parent_Inr:
  assumes "edge_parent g (a, b) = Inr k"
  shows "(b, k) \<in> set (dict_get g a)"
proof -
  from assms obtain ks where "sort_key kr_record_hash (map snd (filter (\<lambda>(t, k). t = b) (dict_get g a))) = k # ks"
    by (auto simp: edge_parent_def split: list.splits)
  then have "k \<in> set (sort_key kr_record_hash (map snd (filter (\<lambda>(t, k). t = b) (dict_get g a))))" by simp
  then show ?thesis by auto
qed

lemma reach_rule_parents:
  assumes "known_set_ok H s" "ru_apply (CallReachabilityRule nfc) s delta = Inr cs" "c \<in> set cs"
  shows "set (dc_parents c) \<subseteq> set (inserted s)"
proof -
  let ?g = "adjacency (by_proposition s ''DIRECT_CALLS'')"
  have "concat_result (map_result (\<lambda>source. map_result (reach_candidate nfc ?g source)
                 (filter (\<lambda>(target, path). target \<noteq> source \<and> 2 \<le> length path)
                   (sort_key fst (best_paths ?g source)))) (sort (map fst ?g))) = Inr cs"
    using assms(2,3) by (auto simp: CallReachabilityRule_def Let_def split: if_splits)
  from concat_result_mem [OF this assms(3)] obtain source ys where
    ys: "map_result (reach_candidate nfc ?g source) (filter (\<lambda>(target, path). target \<noteq> source \<and> 2 \<le> length path)
                   (sort_key fst (best_paths ?g source))) = Inr ys" "c \<in> set ys" by blast
  from map_result_Inr_mem [OF ys] obtain target path where "reach_candidate nfc ?g source (target, path) = Inr c" by auto
  then have ps: "map_result (edge_parent ?g) (consecutive path) = Inr (dc_parents c)"
    by (auto simp: reach_candidate_def bind_result_eq_Inr dest: text_candidate_parents)
  show ?thesis
  proof
    fix k assume "k \<in> set (dc_parents c)"
    from map_result_Inr_mem [OF ps this] obtain a b where "edge_parent ?g (a, b) = Inr k" by auto
    from edge_parent_Inr [OF this] have "k \<in> set (by_proposition s ''DIRECT_CALLS'')" by (simp add: adjacency_mem)
    with indexes_known(1) [OF assms(1)] show "k \<in> set (inserted s)" by blast
  qed
qed

interpretation p4: rule_base H "build_p4_rules nfc"
proof
  fix rule s delta cs c
  assume "rule \<in> set (build_p4_rules nfc)" and s: "known_set_ok H s" "set delta \<subseteq> set (inserted s)"
    and a: "ru_apply rule s delta = Inr cs" "c \<in> set cs"
  then have "rule \<in> {FileStateTransitionRule nfc, HashEqualityRule nfc, EventOrderRule nfc,
      SameSourceRootGroupingRule nfc, CallReachabilityRule nfc} \<or>
    rule \<in> {GitStructuralNormalizationRule, ScopeContainmentRule, WorldFrameIdentityRule}"
    by (simp only: build_p4_rules_def list.set insert_iff empty_iff) blast
  then show "set (dc_parents c) \<subseteq> set (inserted s)"
  proof
    assume "rule \<in> {FileStateTransitionRule nfc, HashEqualityRule nfc, EventOrderRule nfc,
      SameSourceRootGroupingRule nfc, CallReachabilityRule nfc}"
    then show ?thesis
      by (elim insertE emptyE; use a in hypsubst)
        (erule (1) file_rule_parents [OF s(1)] hash_rule_parents [OF s(1)] event_rule_parents [OF s(1)]
          root_rule_parents [OF s(2)] reach_rule_parents [OF s(1)])+
  next
    assume "rule \<in> {GitStructuralNormalizationRule, ScopeContainmentRule, WorldFrameIdentityRule}"
    then have "\<exists>f \<in> {git_candidates, scope_candidates, frame_candidates}. c \<in> set (concat (map f delta))"
      using a by (elim insertE emptyE)
        (auto simp: GitStructuralNormalizationRule_def ScopeContainmentRule_def WorldFrameIdentityRule_def)
    then show ?thesis using pointwise_parents [OF s(2)] pointwise_candidates by (elim bexE insertE emptyE) blast+
  qed
qed

section \<open>The engine with these rules\<close>

definition p4_registry :: "(ustring \<Rightarrow> ustring) \<Rightarrow> rule_registry" where
  "p4_registry nfc = \<lparr>rg_rules = map (\<lambda>rule. (rs_rule_id (ru_spec rule), rule)) (build_p4_rules nfc),
     rg_declared_transitive_outputs = []\<rparr>"

lemmas p4_rule_defs = FileStateTransitionRule_def HashEqualityRule_def EventOrderRule_def SameSourceRootGroupingRule_def
  GitStructuralNormalizationRule_def CallReachabilityRule_def ScopeContainmentRule_def WorldFrameIdentityRule_def

lemma p4_rule_ids:
  "map (\<lambda>rule. rs_rule_id (ru_spec rule)) (build_p4_rules nfc) =
     [''wu.rule.filesystem.transition'', ''wu.rule.filesystem.hash-equality'', ''wu.rule.event.order'',
      ''wu.rule.provenance.same-root'', ''wu.rule.git.structural-normalize'', ''wu.rule.code.call-reachability'',
      ''wu.rule.scope.containment'', ''wu.rule.world-frame.identity'']"
  by (simp add: build_p4_rules_def p4_rule_defs rule_of_def)

lemma register_fresh:
  assumes "rs_rule_id (ru_spec rule) \<noteq> []" "rs_rule_id (ru_spec rule) \<notin> set (map fst (rg_rules g))"
    and "rs_allows_transitivity (ru_spec rule) \<longrightarrow> rs_rule_id (ru_spec rule) = ''wu.rule.code.call-reachability''"
  shows "register rule False g = Inr (g\<lparr>rg_rules := rg_rules g @ [(rs_rule_id (ru_spec rule), rule)]\<rparr>)"
proof -
  from dict_set_fresh [OF assms(2)] show ?thesis using assms by (simp add: register_def Let_def)
qed

lemma register_all_fresh:
  assumes "\<forall>rule \<in> set rules. rs_rule_id (ru_spec rule) \<noteq> [] \<and>
      (rs_allows_transitivity (ru_spec rule) \<longrightarrow> rs_rule_id (ru_spec rule) = ''wu.rule.code.call-reachability'')"
    and "distinct (map fst (rg_rules g) @ map (\<lambda>rule. rs_rule_id (ru_spec rule)) rules)"
  shows "register_all rules g = Inr (g\<lparr>rg_rules := rg_rules g @ map (\<lambda>rule. (rs_rule_id (ru_spec rule), rule)) rules\<rparr>)"
  using assms
proof (induction rules arbitrary: g)
  case (Cons rule rules)
  let ?g = "g\<lparr>rg_rules := rg_rules g @ [(rs_rule_id (ru_spec rule), rule)]\<rparr>"
  have "register rule False g = Inr ?g" using Cons.prems by (intro register_fresh) auto
  moreover have "register_all rules ?g = Inr (?g\<lparr>rg_rules := rg_rules ?g @ map (\<lambda>rule. (rs_rule_id (ru_spec rule), rule)) rules\<rparr>)"
    by (rule Cons.IH) (use Cons.prems in auto)
  ultimately show ?case by simp
qed simp

text \<open>Registering the rule set succeeds, and every rule is registered.\<close>

lemma RuleRegistry_p4: "RuleRegistry (build_p4_rules nfc) [] = Inr (p4_registry nfc)"
proof -
  have "\<forall>rule \<in> set (build_p4_rules nfc). rs_rule_id (ru_spec rule) \<noteq> [] \<and>
      (rs_allows_transitivity (ru_spec rule) \<longrightarrow> rs_rule_id (ru_spec rule) = ''wu.rule.code.call-reachability'')"
    by (simp add: build_p4_rules_def p4_rule_defs rule_of_def)
  moreover have "distinct (map (\<lambda>rule. rs_rule_id (ru_spec rule)) (build_p4_rules nfc))"
    unfolding p4_rule_ids by simp
  ultimately show ?thesis
    unfolding RuleRegistry_def by (subst register_all_fresh) (simp_all add: p4_registry_def)
qed

lemma set_p4_registry: "set (registry_rules (p4_registry nfc)) = set (build_p4_rules nfc)"
  by (simp add: registry_rules_def p4_registry_def image_image)

lemma engine_fields:
  assumes "KnownClosureEngine g rounds records plane = Inr en"
  shows "en_rules en = registry_rules g" "en_max_rounds en = rounds" "en_max_records en = records" "en_plane en = plane"
    "1 \<le> rounds"
  using assms by (auto simp: KnownClosureEngine_def split: if_splits)

interpretation p4_engine: rule_base H "registry_rules (p4_registry nfc)"
  by unfold_locales (use p4.parents_known in \<open>simp only: set_p4_registry; blast\<close>)

interpretation git_rule: saturating_rule H "registry_rules (p4_registry nfc)" GitStructuralNormalizationRule git_candidates
  by unfold_locales (simp add: set_p4_registry build_p4_rules_def, simp add: GitStructuralNormalizationRule_def)

interpretation scope_rule: saturating_rule H "registry_rules (p4_registry nfc)" ScopeContainmentRule scope_candidates
  by unfold_locales (simp add: set_p4_registry build_p4_rules_def, simp add: ScopeContainmentRule_def)

interpretation frame_rule: saturating_rule H "registry_rules (p4_registry nfc)" WorldFrameIdentityRule frame_candidates
  by unfold_locales (simp add: set_p4_registry build_p4_rules_def, simp add: WorldFrameIdentityRule_def)

section \<open>What a closure may contain\<close>

definition bounded_by :: "int \<Rightarrow> known_record \<Rightarrow> known_record \<Rightarrow> bool" where
  "bounded_by plane k a \<longleftrightarrow>
     kr_authority_domain k = kr_authority_domain a \<and>
     kr_authority_ceiling_milli k \<le> kr_authority_ceiling_milli a \<and>
     kr_empirical_evidence_weight_milli k \<le> kr_empirical_evidence_weight_milli a \<and>
     coverage_within (kr_coverage_milli k) (kr_coverage_milli a) \<and>
     (\<forall>x. valid_at (kr_time k) x \<longrightarrow> valid_at (kr_time a) x) \<and>
     same_scope_identity (kr_world_scope k) (kr_world_scope a) \<and>
     kr_truth_state a = ''TRUE'' \<and> fresh_truth plane a (kr_world_scope a)"

definition rooted :: "int \<Rightarrow> known_record set \<Rightarrow> known_record \<Rightarrow> bool" where
  "rooted plane base k \<longleftrightarrow>
     kr_truth_state k = ''TRUE'' \<and> kr_epistemic_state k = ''CURRENT'' \<and>
     (\<exists>roots \<subseteq> base. roots \<noteq> {} \<and> kr_provenance_refs k \<noteq> [] \<and>
        set (kr_provenance_refs k) \<subseteq> (\<Union>a \<in> roots. set (kr_provenance_refs a)) \<and> (\<forall>a \<in> roots. bounded_by plane k a))"

lemma fresh_truth_self: "fresh_truth plane a s \<Longrightarrow> fresh_truth plane a (kr_world_scope a)"
  by (auto simp: fresh_truth_def same_scope_identity_def)

lemma fresh_truth_scope: "fresh_truth plane a s \<Longrightarrow> same_scope_identity s (kr_world_scope a)"
  by (simp add: fresh_truth_def)

lemma coverage_within_trans: "coverage_within a b \<Longrightarrow> coverage_within b c \<Longrightarrow> coverage_within a c"
  by (cases a; cases b; cases c) (auto simp: coverage_within_def)

lemma within_parent_bounded: "within_parent plane k p \<Longrightarrow> bounded_by plane k p"
  unfolding within_parent_def bounded_by_def using fresh_truth_self fresh_truth_scope by blast

lemma bounded_by_trans:
  assumes "within_parent plane k p" "bounded_by plane p a"
  shows "bounded_by plane k a"
proof -
  have "fresh_truth plane p (kr_world_scope k)" using assms(1) by (simp add: within_parent_def)
  from fresh_truth_scope [OF this] assms show ?thesis
    unfolding within_parent_def bounded_by_def same_scope_identity_def
    using coverage_within_trans by (metis order_trans)
qed

lemma grounded_rooted: "grounded plane base k \<Longrightarrow> k \<in> base \<or> rooted plane base k"
proof (induction rule: grounded.induct)
  case (derived k ps)
  let ?P = "\<lambda>p R. R \<subseteq> base \<and> R \<noteq> {} \<and> set (kr_provenance_refs p) \<subseteq> (\<Union>a \<in> R. set (kr_provenance_refs a)) \<and>
    (\<forall>a \<in> R. bounded_by plane k a)"
  have wp: "within_parent plane k p" if "p \<in> set ps" for p using derived.hyps(1) that by (simp add: derived_from_def)
  have "\<exists>R. ?P p R" if p: "p \<in> set ps" for p
    using derived.IH [OF p]
  proof
    assume "p \<in> base"
    then show ?thesis using within_parent_bounded [OF wp [OF p]] by (intro exI [of _ "{p}"]) simp
  next
    assume "rooted plane base p"
    then obtain R where R: "R \<subseteq> base" "R \<noteq> {}" "set (kr_provenance_refs p) \<subseteq> (\<Union>a \<in> R. set (kr_provenance_refs a))"
      "\<forall>a \<in> R. bounded_by plane p a" by (auto simp: rooted_def)
    then show ?thesis using bounded_by_trans [OF wp [OF p]] by blast
  qed
  then obtain roots where roots: "\<And>p. p \<in> set ps \<Longrightarrow> ?P p (roots p)" by metis
  let ?R = "\<Union>p \<in> set ps. roots p"
  have k: "ps \<noteq> []" "kr_provenance_refs k \<noteq> []" "kr_truth_state k = ''TRUE''" "kr_epistemic_state k = ''CURRENT''"
    "set (kr_provenance_refs k) \<subseteq> (\<Union>p \<in> set ps. set (kr_provenance_refs p))"
    using derived.hyps(1) by (auto simp: derived_from_def)
  from k(1) obtain q where q: "q \<in> set ps" by (cases ps) auto
  with roots [OF q] have "?R \<noteq> {}" by (metis UN_I all_not_in_conv)
  moreover have "?R \<subseteq> base" using roots by (intro UN_least) simp
  moreover have "\<forall>a \<in> ?R. bounded_by plane k a" using roots by (intro ballI) (elim UN_E, simp)
  moreover have "set (kr_provenance_refs k) \<subseteq> (\<Union>a \<in> ?R. set (kr_provenance_refs a))"
  proof (rule order_trans [OF k(5)], rule UN_least)
    fix p assume p: "p \<in> set ps"
    then have "set (kr_provenance_refs p) \<subseteq> (\<Union>a \<in> roots p. set (kr_provenance_refs a))" using roots by simp
    also have "\<dots> \<subseteq> (\<Union>a \<in> ?R. set (kr_provenance_refs a))" using p by (intro UN_mono) auto
    finally show "set (kr_provenance_refs p) \<subseteq> (\<Union>a \<in> ?R. set (kr_provenance_refs a))" .
  qed
  ultimately have "rooted plane base k"
    unfolding rooted_def using k(2-4) by (intro conjI exI [of _ ?R]) assumption+
  then show ?case ..
qed simp

text \<open>C2: Closure never widens authority.  After any sequence of closures with the rule set of the program,
  every record is one of the records given, or a current truth with non-empty provenance that rests on
  some of them: its provenance comes from these records, and it has their authority domain and scope
  identity and at most their authority ceiling, evidence weight, coverage and validity window; each of
  these records is itself a stable truth, so a model output, memory or web source among them carries no
  evidence weight.\<close>

theorem closure_authority_bounded:
  assumes "KnownClosureEngine (p4_registry nfc) max_rounds max_records plane = Inr en"
    and "closure_run H nfc vtext en base r" and "k \<in> set (inserted (cr_known r))"
  shows "k \<in> base \<or> rooted plane base k"
proof -
  note en = engine_fields [OF assms(1)]
  have "result_ok H en base r" by (rule p4_engine.closure_run_ok [OF assms(2) en(1)])
  with assms(3) en(4) have "grounded plane base k" by (simp add: result_ok_def)
  then show ?thesis by (rule grounded_rooted)
qed

text \<open>C22: The fixed point is complete for the rules that look at one record.  After any sequence of
  closures, each candidate of the git normalisation, scope containment and world frame rules, for every
  record of the set, either has its derived record in the set or is accounted for by a diagnostic: the
  exception its materialisation raised, or the proposition cycle it would have closed.\<close>

theorem closure_saturated:
  assumes "KnownClosureEngine (p4_registry nfc) max_rounds max_records plane = Inr en"
    and "closure_run H nfc vtext en base r"
  shows "saturated H GitStructuralNormalizationRule git_candidates nfc vtext plane (cr_known r) (set (cr_diagnostics r))
      (set (inserted (cr_known r))) \<and>
    saturated H ScopeContainmentRule scope_candidates nfc vtext plane (cr_known r) (set (cr_diagnostics r))
      (set (inserted (cr_known r))) \<and>
    saturated H WorldFrameIdentityRule frame_candidates nfc vtext plane (cr_known r) (set (cr_diagnostics r))
      (set (inserted (cr_known r)))"
proof -
  note en = engine_fields [OF assms(1)]
  note run = assms(2) en(1)
  show ?thesis
    using git_rule.closure_run_saturated [OF run] scope_rule.closure_run_saturated [OF run]
      frame_rule.closure_run_saturated [OF run] unfolding en(4) by blast
qed

text \<open>C21: Closure ends at a fixed point unless the records do not fit.  When the given records make a valid
  set and the engine may run at least as many rounds as it may hold records, closing them returns, or raises because the
  bound on the records was hit; it never gives up on the number of rounds, whatever the rules are.\<close>

theorem closure_terminates:
  assumes "KnownClosureEngine registry max_rounds max_records plane = Inr en"
    and "KnownSet H (kr_world_scope k) (k # ks) max_records = Inr s" and "max_records \<le> max_rounds"
  shows "(\<exists>r. close H nfc vtext en (k # ks) None = Inr r \<and> cr_terminated r) \<or>
    (\<exists>e. close H nfc vtext en (k # ks) None = Inl e \<and> exc_class e = ''ActiveCutOverflow'')"
  using close_outcome [of H k ks en s nfc vtext] assms engine_fields [OF assms(1)] by simp

text \<open>C14: Call reachability finds exactly the callable targets, each with its least call path.  The search
  from a source records a path for a target exactly when the target is reachable over recorded direct
  calls; the path is a simple path of such calls from the source to the target, and no other call path is
  shorter, or as short and earlier in the order of paths.\<close>

theorem call_reachability_least:
  "(map_of (best_paths g source) target \<noteq> None) = ((source, target) \<in> (calls g)\<^sup>*) \<and>
   (\<forall>path. map_of (best_paths g source) target = Some path \<longrightarrow>
      call_path g source path target \<and> distinct path \<and>
      (\<forall>other. call_path g source other target \<longrightarrow> (length path, path) \<le> (length other, other)))"
proof -
  note inv = best_paths_inv [of g source, unfolded search_inv_def]
  have found: "call_path g source path target \<and> distinct path"
    if "map_of (best_paths g source) target = Some path" for path
  proof -
    have "search_ok g source (map_of (best_paths g source)) (target, path)" using inv that by blast
    then show ?thesis by (simp add: search_ok_def)
  qed
  have least: "\<exists>b. map_of (best_paths g source) target = Some b \<and> (length b, b) \<le> (length other, other)"
    if "call_path g source other target" for other
    using best_paths_least [OF that] by (simp add: reached_def path_le_def)
  have iff: "(map_of (best_paths g source) target \<noteq> None) = ((source, target) \<in> (calls g)\<^sup>*)"
    unfolding call_path_reachable using found least by blast
  have "(length path, path) \<le> (length other, other)"
    if "map_of (best_paths g source) target = Some path" "call_path g source other target" for path other
    using least [OF that(2)] that(1) by (simp only: option.inject ex_simps) blast
  with iff found show ?thesis by blast
qed

end
