(* ===== verification/Known_Example.thy ===== *)
theory Known_Example
  imports Known_Rules
begin

text \<open>
  A closure evaluated by hand: one directly known git fact, closed with the rule set of the program.  The
  digest function gives the fact and its proposition digests of their own and every other payload the
  zero digest; which payload a digest belongs to is decided by the keys of the payload, through the
  injectivity of the canonical form.
\<close>

section \<open>The fact\<close>

definition git_ref :: world_source_ref where
  "git_ref = \<lparr>ws_source_kind = ''GIT_CODE'', ws_object_id = ''repo'', ws_object_revision = None,
     ws_sha256 = hex64 (CHR ''2''), ws_locator = None, ws_span_start = None, ws_span_end = None,
     ws_authority_domain = None, ws_authority_ceiling_milli = 0, ws_provenance_integrity_milli = 0\<rparr>"

definition full_view :: observability_state where
  "full_view = \<lparr>os_mode = ''OBSERVED'', os_access_milli = 1000, os_scope_coverage_milli = 1000,
     os_time_coverage_milli = 1000, os_adapter_quality_milli = 1000, os_measurement_quality_milli = 1000,
     os_combined_quality_milli = 1000, os_search_scope_hash = None\<rparr>"

definition git_fact :: known_record where
  "git_fact = \<lparr>kr_schema_version = WORLD_SCHEMA_VERSION, kr_known_id = ''wkn_'' @ hex64 (CHR ''0''),
     kr_proposition_type = ''GIT_CONTAINS'', kr_subject_ref = ''pkg'', kr_predicate = ''contains'',
     kr_object_value = Some (string_world_value (ustr ''mod'')), kr_object_ref = None,
     kr_world_scope = known_sample_scope, kr_time = sample_time, kr_authority_domain = ''GIT_CODE'',
     kr_authority_ceiling_milli = 800, kr_observability_state = full_view, kr_coverage_milli = Some 900,
     kr_truth_state = ''TRUE'', kr_epistemic_state = ''CURRENT'', kr_provenance_refs = [git_ref],
     kr_empirical_evidence_weight_milli = 700, kr_record_hash = hex64 (CHR ''1''),
     kr_derivation = Direct \<lparr>ds_source_envelope_id = ''env'', ds_source_kind = ''GIT_CODE'',
       ds_source_native_id = ''repo'', ds_source_payload_hash = hex64 (CHR ''2''), ds_compiler_id = ''git'',
       ds_compiler_version = ''v1''\<rparr>\<rparr>"

definition sample_hash :: "nat list \<Rightarrow> string" where
  "sample_hash bs =
     (if canonical_json_bytes (jobj (known_dump git_fact)) = Inr bs then hex64 (CHR ''1'')
      else if canonical_json_bytes (proposition_payload git_fact) = Inr bs then hex64 (CHR ''3'')
      else hex64 (CHR ''0''))"

abbreviation zeros :: string where
  "zeros \<equiv> hex64 (CHR ''0'')"

section \<open>Digests\<close>

lemma different_keys_different_bytes:
  assumes "py_wf (jobj fs)" "py_wf (jobj gs)" "representable (jobj fs)" "k \<in> fst ` set fs" "k \<notin> fst ` set gs"
  shows "canonical_json_bytes (jobj gs) \<noteq> canonical_json_bytes (jobj fs)"
proof
  assume "canonical_json_bytes (jobj gs) = canonical_json_bytes (jobj fs)"
  then have eq: "canonical_value (jobj fs) = canonical_value (jobj gs)"
    using canonical_value_of_bytes [OF assms(1-3)] by simp
  obtain v where v: "(k, v) \<in> set fs" using assms(4) by auto
  obtain j where j: "canonical_value (jobj fs) = Inr j" using assms(3) ok_canonical_value ok_iff by metis
  have "representable v" using assms(3) v by auto
  then obtain x where x: "canonical_value v = Inr x" using ok_canonical_value ok_iff by metis
  obtain kvs where kvs: "j = JObj kvs" "(ustr k, x) \<in> set kvs" using jobj_entries [OF j] v x by metis
  have "canonical_value (jobj gs) = Inr j" using eq j by simp
  from jobj_entries [OF this] kvs obtain w where "(k, w) \<in> set gs" by (metis json.inject(5))
  with assms(5) show False by force
qed

lemma representable_values:
  "representable (world_value_dump (string_world_value (ustr s)))" "representable (record_ref_dump r) \<longleftrightarrow> opt_ok safe_int (wr_revision r)"
  "representable (world_scope_dump known_sample_scope)" "representable (world_time_dump sample_time)"
  "representable (observability_dump full_view)" "representable (world_source_dump git_ref)"
  by (simp_all add: world_value_dump_def string_world_value_def jsome_def jtext_def ustr_no_surrogate record_ref_dump_def
      world_scope_dump_def known_sample_scope_def world_time_dump_def sample_time_def safe_int_def MAX_SAFE_INTEGER_def
      observability_dump_def full_view_def world_source_dump_def git_ref_def)

lemma wf_values:
  "py_wf (world_value_dump (string_world_value (ustr s)))" "py_wf (record_ref_dump r)" "py_wf (record_refs_dump rs)"
  "py_wf (world_scope_dump known_sample_scope)" "py_wf (world_time_dump t)"
  "py_wf (observability_dump v)" "py_wf (world_source_dump git_ref)"
  by (simp_all add: world_value_dump_def string_world_value_def jsome_def jtext_def record_ref_dump_def record_refs_dump_def
      list_all_iff world_scope_dump_def known_sample_scope_def world_time_dump_def
      observability_dump_def world_source_dump_def git_ref_def)

lemma fact_dump:
  "py_wf (jobj (known_dump git_fact))" "representable (jobj (known_dump git_fact))"
  "py_wf (proposition_payload git_fact)" "representable (proposition_payload git_fact)"
  by (simp_all add: known_dump_def proposition_payload_def git_fact_def jsome_def wf_values representable_values
      record_refs_dump_def safe_int_def MAX_SAFE_INTEGER_def)

lemma sample_digest_zeros:
  assumes "py_wf (jobj fs)" "representable (jobj fs)"
    and "canonical_json_bytes (jobj (known_dump git_fact)) \<noteq> canonical_json_bytes (jobj fs)"
    and "canonical_json_bytes (proposition_payload git_fact) \<noteq> canonical_json_bytes (jobj fs)"
  shows "canonical_sha256 sample_hash (jobj fs) = Inr zeros"
proof -
  obtain bs where bs: "canonical_json_bytes (jobj fs) = Inr bs"
    using assms(2) by (metis canonical_json_bytes_def ok_canonical_value ok_bind_simps(2) ok_iff)
  with assms(3,4) have "sample_hash bs = zeros" by (auto simp: sample_hash_def)
  with bs show ?thesis by (simp add: canonical_sha256_def)
qed

definition fresh_keys :: "string set" where
  "fresh_keys = {''transform_id'', ''transform_type'', ''edge_kind'', ''domain_id''}"

lemma fresh_payload_zeros:
  assumes "py_wf (jobj fs)" "representable (jobj fs)" "fst ` set fs \<inter> fresh_keys \<noteq> {}"
  shows "canonical_sha256 sample_hash (jobj fs) = Inr zeros"
proof -
  from assms(3) obtain k where k: "k \<in> fst ` set fs" "k \<in> fresh_keys" by blast
  have "canonical_json_bytes (jobj (known_dump git_fact)) \<noteq> canonical_json_bytes (jobj fs)"
    by (rule different_keys_different_bytes [OF assms(1) fact_dump(1) assms(2) k(1)])
      (use k(2) in \<open>auto simp: fresh_keys_def known_dump_def git_fact_def\<close>)
  moreover have "canonical_json_bytes (proposition_payload git_fact) \<noteq> canonical_json_bytes (jobj fs)"
    unfolding proposition_payload_def
    by (rule different_keys_different_bytes [OF assms(1) fact_dump(3) [unfolded proposition_payload_def] assms(2) k(1)])
      (use k(2) in \<open>auto simp: fresh_keys_def\<close>)
  ultimately show ?thesis by (rule sample_digest_zeros [OF assms(1,2)])
qed

lemma fact_digests:
  "computed_sha256 sample_hash (known_dump git_fact) = Inr (hex64 (CHR ''1''))"
  "proposition_signature sample_hash git_fact = Inr (hex64 (CHR ''3''))"
proof -
  obtain a where a: "canonical_json_bytes (jobj (known_dump git_fact)) = Inr a"
    using fact_dump(2) by (metis canonical_json_bytes_def ok_canonical_value ok_bind_simps(2) ok_iff)
  then show "computed_sha256 sample_hash (known_dump git_fact) = Inr (hex64 (CHR ''1''))"
    by (simp add: computed_sha256_def canonical_sha256_def sample_hash_def)
  obtain b where b: "canonical_json_bytes (proposition_payload git_fact) = Inr b"
    using fact_dump(4) by (metis canonical_json_bytes_def ok_canonical_value ok_bind_simps(2) ok_iff)
  have "canonical_json_bytes (proposition_payload git_fact) \<noteq> canonical_json_bytes (jobj (known_dump git_fact))"
    unfolding proposition_payload_def
    by (rule different_keys_different_bytes [OF fact_dump(1) fact_dump(3) [unfolded proposition_payload_def] fact_dump(2),
          of "''truth_state''"]) (auto simp: known_dump_def)
  with a b have "sample_hash b = hex64 (CHR ''3'')" by (simp add: sample_hash_def)
  with b show "proposition_signature sample_hash git_fact = Inr (hex64 (CHR ''3''))"
    by (simp add: proposition_signature_def canonical_sha256_def)
qed

lemma ok_scope: "ok (WorldScope sample_hash nfc known_sample_scope)"
proof -
  have "world_scope_fields_ok nfc known_sample_scope"
    by (simp add: world_scope_fields_ok_def known_sample_scope_def) code_simp
  moreover have "derive_world_scope_hash sample_hash l w d [] = Inr zeros" for l w d
    unfolding derive_world_scope_hash_def by (rule fresh_payload_zeros) (simp_all add: fresh_keys_def)
  ultimately show ?thesis by (simp add: WorldScope_def known_sample_scope_def)
qed

text \<open>The fact is a valid direct record with its canonical hash.\<close>

lemma fact_valid_hash: "known_has_valid_hash sample_hash git_fact = Inr True"
  unfolding known_has_valid_hash_def has_valid_sha256_def fact_digests(1) by (simp add: git_fact_def)

section \<open>One derivation\<close>

definition envelope :: derived_envelope where
  "envelope = \<lparr>ev_authority_domain = ''GIT_CODE'', ev_authority_ceiling_milli = 800,
     ev_empirical_evidence_weight_milli = 700, ev_provenance_refs = [git_ref], ev_observability_state = full_view,
     ev_coverage_milli = Some 900, ev_time = sample_time, ev_epistemic_state = ''CURRENT''\<rparr>"

lemma fact_authority:
  "intersect_authority (rule_of i v None [] t) [git_fact] = Inr envelope"
  "intersect_authority (rule_of i v (Some ''GIT_CODE'') [''GIT_CODE''] t) [git_fact] = Inr envelope"
proof -
  have t: "merged_time [sample_time] = Inr sample_time"
    by (simp add: merged_time_Inr) code_simp
  have o: "intersect_observability [full_view] = Inr full_view" by code_simp
  have p: "merge_provenance [[git_ref]] = [git_ref]" by code_simp
  have e: "max_epistemic [''CURRENT''] = Inr ''CURRENT''" by code_simp
  show "intersect_authority (rule_of i v None [] t) [git_fact] = Inr envelope"
    "intersect_authority (rule_of i v (Some ''GIT_CODE'') [''GIT_CODE''] t) [git_fact] = Inr envelope"
    by (simp_all add: intersect_authority_def rule_of_def Let_def git_fact_def t o p e envelope_def List.map_filter_simps
        del: max_epistemic.simps)
qed

lemma fact_fresh: "fresh_truth 1 git_fact known_sample_scope"
proof -
  have "\<not> is_negative_known git_fact" by code_simp
  then show ?thesis
    by (simp add: fresh_truth_def) (simp add: git_fact_def same_scope_identity_def FORBIDDEN_EMPIRICAL_SOURCE_KINDS_def)
qed

lemma fact_checked: "check_parents 1 known_sample_scope [git_fact] = Inr ()"
proof -
  have "ok (require_stable_known 1 git_fact known_sample_scope)" using fact_fresh by (simp add: require_stable_known_ok)
  then have "require_stable_known 1 git_fact known_sample_scope = Inr ()" by (auto simp: ok_iff)
  then show ?thesis
    by (simp add: check_parents_def require_same_scope_parents_def require_same_world_scope_def) (simp add: git_fact_def)
qed

definition parent_ref :: record_ref where
  "parent_ref = known_ref git_fact"

definition derived_part :: "rule_spec \<Rightarrow> derived_source" where
  "derived_part spec = \<lparr>dv_parent_known_refs = [parent_ref], dv_transform_id = rs_rule_id spec,
     dv_transform_version = rs_version spec, dv_derivation_hash = zeros\<rparr>"

definition child_of :: "rule_spec \<Rightarrow> derived_candidate \<Rightarrow> known_record" where
  "child_of spec c = child_record known_sample_scope c envelope (''wkn_'' @ zeros) (derived_part spec)"

definition text_candidate_of :: "string \<Rightarrow> string \<Rightarrow> string \<Rightarrow> string \<Rightarrow> derived_candidate" where
  "text_candidate_of p u q s = candidate [git_fact] p u q (Some (string_world_value (ustr s))) None"

text \<open>A candidate over the fact whose texts satisfy the constraints of the contract.\<close>

definition good_candidate :: "rule_spec \<Rightarrow> string \<Rightarrow> string \<Rightarrow> string \<Rightarrow> string \<Rightarrow> bool" where
  "good_candidate spec p u q s \<longleftrightarrow>
     OpaqueId (rs_rule_id spec) \<and> OpaqueId (rs_version spec) \<and> OpaqueId p \<and> OpaqueId u \<and> OpaqueId q \<and>
     length s \<le> 20000 \<and> 0 \<notin> set (ustr s) \<and> intersect_authority spec [git_fact] = Inr envelope"

lemma representable_parent_refs: "representable (record_refs_dump [parent_ref])"
  by (simp add: record_refs_dump_def parent_ref_def known_ref_def representable_values)

lemma candidate_fields [simp]:
  "dc_parents (text_candidate_of p u q s) = [git_fact]" "dc_proposition_type (text_candidate_of p u q s) = p"
  "dc_subject_ref (text_candidate_of p u q s) = u" "dc_predicate (text_candidate_of p u q s) = q"
  "dc_object_value (text_candidate_of p u q s) = Some (string_world_value (ustr s))"
  "dc_object_ref (text_candidate_of p u q s) = None"
  by (simp_all add: text_candidate_of_def candidate_def)

lemma sample_ids:
  "derive_derived_known_id sample_hash h p u q (Some (string_world_value (ustr s))) None i [parent_ref] = Inr (''wkn_'' @ zeros)"
  "derive_derivation_hash sample_hash i v [parent_ref] = Inr zeros"
proof -
  have "canonical_sha256 sample_hash (jobj
       ([(''domain'', jstr ''tiangong.world.derived-known-id.v1''), (''world_scope_hash'', jstr h),
         (''proposition_type'', jstr p), (''subject_ref'', jstr u), (''predicate'', jstr q)] @
        [(''object_value'', jsome world_value_dump (Some (string_world_value (ustr s)))),
         (''object_ref'', jsome record_ref_dump None)] @
        [(''transform_id'', jstr i), (''parent_known_refs'', record_refs_dump [parent_ref])])) = Inr zeros"
    by (rule fresh_payload_zeros) (simp_all add: jsome_def wf_values representable_values representable_parent_refs fresh_keys_def)
  then show "derive_derived_known_id sample_hash h p u q (Some (string_world_value (ustr s))) None i [parent_ref] = Inr (''wkn_'' @ zeros)"
    by (simp add: derive_derived_known_id_def object_identity_def)
  show "derive_derivation_hash sample_hash i v [parent_ref] = Inr zeros"
    unfolding derive_derivation_hash_def
    by (rule fresh_payload_zeros) (simp_all add: wf_values representable_parent_refs fresh_keys_def)
qed

lemma Sha256_fresh_zeros: "Sha256 zeros" "prefixed_sha256 ''wkn_'' (''wkn_'' @ zeros)" "prefixed_sha256 ''wdrv_'' (''wdrv_'' @ zeros)"
  "prefixed_sha256 ''wdge_'' (''wdge_'' @ zeros)" "OpaqueId (''wkn_'' @ zeros)" "OpaqueId (''wdrv_'' @ zeros)"
  by code_simp+

lemma parent_ref_ok: "record_ref_fields_ok parent_ref" "sorted_unique_refs [r]"
  by code_simp (simp add: sorted_unique_refs_def Let_def sorted_set_def)

lemma child_fields_ok:
  assumes "good_candidate spec p u q s"
  shows "known_base_fields_ok id (child_of spec (text_candidate_of p u q s))"
    "derived_source_fields_ok (derived_part spec)"
proof -
  have v: "ok (WorldValue id (string_world_value (ustr s)))"
    using assms
    by (simp add: WorldValue_def world_value_fields_ok_def string_world_value_def WorldValueKind_def validate_exact_branch_def
        value_branches_def good_candidate_def normalized_text_def) (simp add: ustr_def)
  have t: "ok (WorldTime sample_time)" "ok (ObservabilityState full_view)" "ok (WorldSourceRef id git_ref)" by code_simp+
  show "known_base_fields_ok id (child_of spec (text_candidate_of p u q s))"
    using assms v t Sha256_fresh_zeros
    by (simp add: known_base_fields_ok_def child_of_def child_record_def envelope_def good_candidate_def AuthorityDomain_def
        TruthState_def EpistemicState_def UNSET_SHA256_def)
  show "derived_source_fields_ok (derived_part spec)"
    using assms parent_ref_ok Sha256_fresh_zeros by (simp add: derived_source_fields_ok_def derived_part_def good_candidate_def)
qed

lemma child_dump:
  "py_wf (jobj (known_dump (child_of spec (text_candidate_of p u q s))))"
  "representable (jobj (known_dump (child_of spec (text_candidate_of p u q s))))"
  by (simp_all add: known_dump_def child_of_def child_record_def envelope_def derived_part_def jsome_def wf_values
      representable_values representable_parent_refs safe_int_def MAX_SAFE_INTEGER_def)

lemma child_derived:
  assumes "good_candidate spec p u q s"
  shows "derive_child sample_hash id spec (text_candidate_of p u q s) envelope known_sample_scope [parent_ref] =
    Inr ((child_of spec (text_candidate_of p u q s))\<lparr>kr_record_hash := zeros\<rparr>)"
proof -
  let ?c = "text_candidate_of p u q s" and ?k = "child_of spec (text_candidate_of p u q s)"
  have "validate_known_base ?k = Inr ()"
    by (simp add: validate_known_base_def child_of_def child_record_def envelope_def full_view_def)
  moreover have "validate_derived sample_hash ?k (derived_part spec) = Inr ()"
    by (simp add: validate_derived_def child_of_def child_record_def derived_part_def sample_ids)
  moreover have "kr_world_scope ?k = known_sample_scope" "kr_derivation ?k = Derived (derived_part spec)"
    by (simp_all add: child_of_def child_record_def)
  ultimately have "DerivedKnownRecord sample_hash id ?k (derived_part spec) = Inr ?k"
    using child_fields_ok [OF assms] by (simp add: DerivedKnownRecord_def ok_scope)
  moreover have "computed_sha256 sample_hash (known_dump ?k) = Inr zeros"
    unfolding computed_sha256_def
    by (rule fresh_payload_zeros [OF child_dump]) (simp add: known_dump_def child_of_def child_record_def fresh_keys_def)
  ultimately show ?thesis
    unfolding child_of_def derived_part_def
    by (simp add: derive_child_def sample_ids known_with_computed_hash_def Let_def)
qed

definition child_ref :: record_ref where
  "child_ref = \<lparr>wr_record_type = ''world_known'', wr_record_id = ''wkn_'' @ zeros, wr_revision = None, wr_sha256 = zeros\<rparr>"

lemma known_ref_child: "known_ref ((child_of spec c)\<lparr>kr_record_hash := zeros\<rparr>) = child_ref"
  by (simp add: known_ref_def child_of_def child_record_def child_ref_def)

definition sample_derivation :: "rule_spec \<Rightarrow> derivation_ref" where
  "sample_derivation spec = \<lparr>dr_derivation_id = ''wdrv_'' @ zeros, dr_scope = known_sample_scope, dr_source_refs = [parent_ref],
     dr_target_refs = [child_ref], dr_transform_type = rs_rule_id spec, dr_transform_version = rs_version spec,
     dr_model_assisted = False, dr_lineage_root_hashes = [hex64 (CHR ''2'')], dr_authority_ceiling_milli = 800,
     dr_created_at_ms = 0, dr_derivation_sha256 = zeros\<rparr>"

lemma representable_child_refs: "representable (record_refs_dump [child_ref])" "representable (record_ref_dump child_ref)"
  "representable (record_ref_dump parent_ref)"
  by (simp_all add: record_refs_dump_def child_ref_def parent_ref_def known_ref_def representable_values)

lemma refs_differ: "ref_sort_key parent_ref \<noteq> ref_sort_key child_ref"
  by code_simp

lemma derivation_id_zeros: "derive_derivation_id sample_hash h [parent_ref] [child_ref] i v = Inr (''wdrv_'' @ zeros)"
proof -
  have "canonical_sha256 sample_hash (jobj
       [(''domain'', jstr ''tiangong.world.derivation-id.v1''), (''world_scope_hash'', jstr h),
        (''source_refs'', record_refs_dump [parent_ref]), (''target_refs'', record_refs_dump [child_ref]),
        (''transform_type'', jstr i), (''transform_version'', jstr v)]) = Inr zeros"
    by (rule fresh_payload_zeros) (simp_all add: wf_values representable_parent_refs representable_child_refs fresh_keys_def)
  then show ?thesis by (simp add: derive_derivation_id_def)
qed

lemma derivation_derived:
  assumes "good_candidate spec p u q s"
  shows "derive_derivation sample_hash id spec envelope known_sample_scope [parent_ref] child_ref = Inr (sample_derivation spec)"
proof -
  have fields: "derivation_ref_fields_ok (sample_derivation spec)"
  proof -
    have "record_ref_fields_ok child_ref" "Sha256 (hex64 (CHR ''2''))" "sorted_unique_strings [hex64 (CHR ''2'')]"
      "timestamp_ok 0" by code_simp+
    with assms parent_ref_ok Sha256_fresh_zeros show ?thesis
      by (simp add: derivation_ref_fields_ok_def sample_derivation_def good_candidate_def)
  qed
  have "derivation_ref_check sample_hash (sample_derivation spec) = Inr ()"
    using refs_differ by (simp add: derivation_ref_check_def sample_derivation_def derivation_id_zeros)
  moreover have "dr_scope (sample_derivation spec) = known_sample_scope" by (simp add: sample_derivation_def)
  ultimately have ref: "DerivationRef sample_hash id (sample_derivation spec) = Inr (sample_derivation spec)"
    using fields by (simp add: DerivationRef_def ok_scope)
  have "computed_sha256 sample_hash (derivation_ref_dump (sample_derivation spec)) = Inr zeros"
    unfolding computed_sha256_def
    by (rule fresh_payload_zeros)
      (simp_all add: derivation_ref_dump_def sample_derivation_def wf_values representable_values representable_parent_refs
        representable_child_refs fresh_keys_def safe_int_def MAX_SAFE_INTEGER_def)
  with ref have sealed: "bind_result (DerivationRef sample_hash id (sample_derivation spec)) (derivation_with_computed_hash sample_hash) =
      Inr (sample_derivation spec)"
    by (simp add: derivation_with_computed_hash_def) (simp add: sample_derivation_def)
  have roots: "sorted_set (map ws_sha256 (ev_provenance_refs envelope)) = [hex64 (CHR ''2'')]"
    by (simp add: envelope_def git_ref_def sorted_set_def)
  have time: "wt_recorded_at_ms (ev_time envelope) = 0" "ev_authority_ceiling_milli envelope = 800"
    by (simp_all add: envelope_def sample_time_def)
  from sealed show ?thesis
    unfolding derive_derivation_def roots time Let_def sample_derivation_def UNSET_SHA256_def
    by (simp add: derivation_id_zeros)
qed

lemma edge_derived:
  assumes "record_ref_fields_ok d" "record_ref_fields_ok source" "kind \<in> {''SOURCE_TO_DERIVATION'', ''DERIVATION_TO_TARGET''}"
    and "representable (record_ref_dump d)" "representable (record_ref_dump source)"
  shows "ok (derive_edge sample_hash id envelope known_sample_scope d child_ref kind source)"
proof -
  have "canonical_sha256 sample_hash (jobj
       [(''domain'', jstr ''tiangong.world.derivation-edge-id.v1''), (''world_scope_hash'', jstr h),
        (''derivation_ref'', record_ref_dump d), (''source_ref'', record_ref_dump source),
        (''target_ref'', record_ref_dump child_ref), (''edge_kind'', jstr kind)]) = Inr zeros" for h
    by (rule fresh_payload_zeros) (simp_all add: wf_values assms(4,5) representable_child_refs fresh_keys_def)
  then have i: "derive_derivation_edge_id sample_hash h d source child_ref kind = Inr (''wdge_'' @ zeros)" for h
    by (simp add: derive_derivation_edge_id_def)
  have r: "record_ref_fields_ok child_ref" "timestamp_ok 0" by code_simp+
  let ?e = "\<lparr>de_edge_id = ''wdge_'' @ zeros, de_scope = known_sample_scope, de_derivation_ref = d, de_source_ref = source,
        de_target_ref = child_ref, de_edge_kind = kind, de_created_at_ms = wt_recorded_at_ms (ev_time envelope),
        de_edge_sha256 = UNSET_SHA256\<rparr>"
  have "derivation_edge_fields_ok ?e"
    using assms r Sha256_fresh_zeros by (simp add: derivation_edge_fields_ok_def UNSET_SHA256_def envelope_def sample_time_def)
  then have "DerivationEdge sample_hash id ?e = Inr ?e" by (simp add: DerivationEdge_def ok_scope i)
  moreover have "ok (computed_sha256 sample_hash (derivation_edge_dump ?e))"
    using assms(4,5) by (simp add: computed_sha256_def ok_canonical_sha256 derivation_edge_dump_def representable_values(3)
        representable_child_refs envelope_def sample_time_def safe_int_def MAX_SAFE_INTEGER_def)
  ultimately show ?thesis by (simp add: derive_edge_def i edge_with_computed_hash_def)
qed

lemma fact_materializes:
  assumes "good_candidate spec p u q s"
  shows "\<exists>es. materialize sample_hash id 1 spec (text_candidate_of p u q s) =
    Inr ((child_of spec (text_candidate_of p u q s))\<lparr>kr_record_hash := zeros\<rparr>, sample_derivation spec, es)"
proof -
  have scope: "kr_world_scope git_fact = known_sample_scope" by (simp add: git_fact_def)
  have refs: "sorted_parent_refs [git_fact] = [parent_ref]" by (simp add: sorted_parent_refs_def parent_ref_def)
  let ?d = "\<lparr>wr_record_type = ''world_derivation'', wr_record_id = dr_derivation_id (sample_derivation spec),
     wr_revision = None, wr_sha256 = dr_derivation_sha256 (sample_derivation spec)\<rparr>"
  have d: "record_ref_fields_ok ?d"
  proof -
    have "OpaqueId ''world_derivation''" by code_simp
    with Sha256_fresh_zeros show ?thesis by (simp add: record_ref_fields_ok_def sample_derivation_def)
  qed
  have rd: "representable (record_ref_dump ?d)" by (simp add: representable_values)
  obtain e1 where e1: "derive_edge sample_hash id envelope known_sample_scope ?d child_ref ''SOURCE_TO_DERIVATION'' parent_ref = Inr e1"
    using edge_derived [OF d parent_ref_ok(1) _ rd representable_child_refs(3), of "''SOURCE_TO_DERIVATION''"] by (auto simp: ok_iff)
  obtain e2 where e2: "derive_edge sample_hash id envelope known_sample_scope ?d child_ref ''DERIVATION_TO_TARGET'' ?d = Inr e2"
    using edge_derived [OF d d _ rd rd, of "''DERIVATION_TO_TARGET''"] by (auto simp: ok_iff)
  have auth: "intersect_authority spec [git_fact] = Inr envelope" using assms by (simp add: good_candidate_def)
  show ?thesis
    by (simp add: materialize_def scope refs fact_checked auth child_derived [OF assms] known_ref_child
        derivation_derived [OF assms] e1 e2 Let_def)
qed

section \<open>The closure\<close>

definition closure_sample_engine :: closure_engine where
  "closure_sample_engine = \<lparr>en_rules = registry_rules (p4_registry id), en_max_rounds = 8, en_max_records = 4, en_plane = 1\<rparr>"

lemma sample_engine_built: "KnownClosureEngine (p4_registry id) 8 4 1 = Inr closure_sample_engine"
  by (simp add: KnownClosureEngine_def closure_sample_engine_def)

lemma sorted_rules:
  "registry_rules (p4_registry nfc) = [CallReachabilityRule nfc, EventOrderRule nfc, HashEqualityRule nfc,
     FileStateTransitionRule nfc, GitStructuralNormalizationRule, SameSourceRootGroupingRule nfc, ScopeContainmentRule,
     WorldFrameIdentityRule]"
proof -
  have ids: "rs_rule_id (ru_spec (FileStateTransitionRule nfc)) = ''wu.rule.filesystem.transition''"
    "rs_rule_id (ru_spec (HashEqualityRule nfc)) = ''wu.rule.filesystem.hash-equality''"
    "rs_rule_id (ru_spec (EventOrderRule nfc)) = ''wu.rule.event.order''"
    "rs_rule_id (ru_spec (SameSourceRootGroupingRule nfc)) = ''wu.rule.provenance.same-root''"
    "rs_rule_id (ru_spec GitStructuralNormalizationRule) = ''wu.rule.git.structural-normalize''"
    "rs_rule_id (ru_spec (CallReachabilityRule nfc)) = ''wu.rule.code.call-reachability''"
    "rs_rule_id (ru_spec ScopeContainmentRule) = ''wu.rule.scope.containment''"
    "rs_rule_id (ru_spec WorldFrameIdentityRule) = ''wu.rule.world-frame.identity''"
    by (simp_all add: p4_rule_defs rule_of_def)
  have "registry_rules (p4_registry nfc) = map snd (sort_key fst
     (map (\<lambda>rule. (rs_rule_id (ru_spec rule), rule)) (build_p4_rules nfc)))"
    by (simp add: registry_rules_def p4_registry_def)
  then show ?thesis
    unfolding build_p4_rules_def list.map ids
    by (simp add: sort_key_def insort_key.simps less_eq_list_code less_eq_char_def)
qed

definition git_spec :: rule_spec where
  "git_spec = ru_spec GitStructuralNormalizationRule"

definition git_child :: known_record where
  "git_child = (child_of git_spec (text_candidate_of ''CONTAINS'' ''pkg'' ''code.contains'' ''mod''))\<lparr>kr_record_hash := zeros\<rparr>"

definition root_candidate :: derived_candidate where
  "root_candidate = text_candidate_of ''SOURCE_ROOT_MEMBER'' (''wkn_'' @ zeros) ''provenance.source_root_member'' (hex64 (CHR ''2''))"

lemma quiet_rules:
  assumes "k \<in> {git_fact, git_child}"
  shows "ru_apply (CallReachabilityRule nfc) s [k] = Inr []" "ru_apply (EventOrderRule nfc) s [k] = Inr []"
    "ru_apply (HashEqualityRule nfc) s [k] = Inr []" "ru_apply (FileStateTransitionRule nfc) s [k] = Inr []"
    "ru_apply ScopeContainmentRule s [k] = Inr []" "ru_apply WorldFrameIdentityRule s [k] = Inr []"
proof -
  have "kr_proposition_type k \<in> {''GIT_CONTAINS'', ''CONTAINS''}"
    using assms by (auto simp: git_fact_def git_child_def child_of_def child_record_def)
  then show "ru_apply (CallReachabilityRule nfc) s [k] = Inr []" "ru_apply (EventOrderRule nfc) s [k] = Inr []"
    "ru_apply (HashEqualityRule nfc) s [k] = Inr []" "ru_apply (FileStateTransitionRule nfc) s [k] = Inr []"
    "ru_apply ScopeContainmentRule s [k] = Inr []" "ru_apply WorldFrameIdentityRule s [k] = Inr []"
    by (auto simp: p4_rule_defs sorted_set_def concat_result_def scope_candidates_def frame_candidates_def frame_mapping_def
        List.map_filter_simps)
qed

lemma child_rules:
  "ru_apply GitStructuralNormalizationRule s [git_child] = Inr []"
  "ru_apply (SameSourceRootGroupingRule nfc) s [git_child] = Inr []"
  by (simp_all add: p4_rule_defs concat_result_def git_candidates_def git_mapping_def git_child_def child_of_def child_record_def)

lemma fact_rules:
  "ru_apply GitStructuralNormalizationRule s [git_fact] = Inr [text_candidate_of ''CONTAINS'' ''pkg'' ''code.contains'' ''mod'']"
  "ru_apply (SameSourceRootGroupingRule id) s [git_fact] =
     Inr [root_candidate]"
proof -
  show "ru_apply GitStructuralNormalizationRule s [git_fact] = Inr [text_candidate_of ''CONTAINS'' ''pkg'' ''code.contains'' ''mod'']"
    by (simp add: GitStructuralNormalizationRule_def git_candidates_def git_mapping_def text_candidate_of_def)
      (simp add: git_fact_def)
  have "WorldValue id (string_world_value (ustr (hex64 (CHR ''2'')))) = Inr (string_world_value (ustr (hex64 (CHR ''2''))))"
    by code_simp
  then show "ru_apply (SameSourceRootGroupingRule id) s [git_fact] =
     Inr [root_candidate]"
    by (simp add: SameSourceRootGroupingRule_def concat_result_def root_candidate_def text_candidate_of_def text_candidate_def)
      (simp add: git_fact_def git_ref_def sorted_set_def)
qed

lemma good_candidates:
  "good_candidate git_spec ''CONTAINS'' ''pkg'' ''code.contains'' ''mod''"
  "good_candidate (ru_spec (SameSourceRootGroupingRule id)) ''SOURCE_ROOT_MEMBER'' (''wkn_'' @ zeros)
     ''provenance.source_root_member'' (hex64 (CHR ''2''))"
proof -
  have ids: "OpaqueId ''wu.rule.git.structural-normalize''" "OpaqueId ''v0.1''" "OpaqueId ''CONTAINS''" "OpaqueId ''pkg''"
    "OpaqueId ''code.contains''" "OpaqueId ''wu.rule.provenance.same-root''" "OpaqueId ''v0.2''"
    "OpaqueId ''SOURCE_ROOT_MEMBER''" "OpaqueId ''provenance.source_root_member''"
    "0 \<notin> set (ustr ''mod'')" "0 \<notin> set (ustr (hex64 (CHR ''2'')))" "length (hex64 (CHR ''2'')) \<le> 20000" by code_simp+
  show "good_candidate git_spec ''CONTAINS'' ''pkg'' ''code.contains'' ''mod''"
    using ids fact_authority(2)
    by (simp add: good_candidate_def git_spec_def GitStructuralNormalizationRule_def) (simp add: rule_of_def)
  show "good_candidate (ru_spec (SameSourceRootGroupingRule id)) ''SOURCE_ROOT_MEMBER'' (''wkn_'' @ zeros)
     ''provenance.source_root_member'' (hex64 (CHR ''2''))"
    using ids Sha256_fresh_zeros fact_authority(1)
    by (simp add: good_candidate_def SameSourceRootGroupingRule_def) (simp add: rule_of_def)
qed

lemma child_signature:
  assumes "p \<noteq> ''GIT_CONTAINS''"
  shows "proposition_signature sample_hash ((child_of spec (text_candidate_of p u q s))\<lparr>kr_record_hash := zeros\<rparr>) = Inr zeros"
proof -
  let ?k = "(child_of spec (text_candidate_of p u q s))\<lparr>kr_record_hash := zeros\<rparr>"
  have wf: "py_wf (proposition_payload ?k)" and rep: "representable (proposition_payload ?k)"
    by (simp_all add: proposition_payload_def child_of_def child_record_def jsome_def wf_values representable_values)
  note wf' = wf [unfolded proposition_payload_def] and rep' = rep [unfolded proposition_payload_def]
  have 1: "canonical_json_bytes (jobj (known_dump git_fact)) \<noteq> canonical_json_bytes (proposition_payload ?k)"
    unfolding proposition_payload_def
    by (rule different_keys_different_bytes [OF wf' fact_dump(1) rep', of "''domain''"])
      (auto simp: known_dump_def git_fact_def)
  have 2: "canonical_json_bytes (proposition_payload git_fact) \<noteq> canonical_json_bytes (proposition_payload ?k)"
  proof
    assume "canonical_json_bytes (proposition_payload git_fact) = canonical_json_bytes (proposition_payload ?k)"
    from canonical_value_of_bytes [OF fact_dump(3) wf fact_dump(4) this]
    have "canonical_value (jstr (kr_proposition_type git_fact)) = canonical_value (jstr (kr_proposition_type ?k))"
      unfolding proposition_payload_def
      by (rule jobj_field_eq [where k = "''proposition_type''", OF _ fact_dump(4) [unfolded proposition_payload_def]]) simp_all
    with assms show False by (simp add: git_fact_def child_of_def child_record_def)
  qed
  show ?thesis
    unfolding proposition_signature_def proposition_payload_def
    by (rule sample_digest_zeros [OF wf' rep' 1 [unfolded proposition_payload_def [of ?k]] 2 [unfolded proposition_payload_def [of ?k]]])
qed

definition admitted :: closure_state where
  "admitted = \<lparr>cs_known = index_record git_fact \<lparr>ks_scope = known_sample_scope, ks_max_records = 4, ks_by_hash = [],
       ks_by_prop = [], ks_by_prop_subject = [], ks_by_root = []\<rparr>,
     cs_derivations = [], cs_edges = [], cs_diagnostics = [], cs_ancestry = [hex64 (CHR ''1'') \<mapsto> {}],
     cs_delta = [git_fact], cs_added = [hex64 (CHR ''1'')]\<rparr>"

lemma same_scope: "require_same_world_scope known_sample_scope known_sample_scope = Inr ()"
  by (simp add: require_same_world_scope_def)

lemma fact_scope_hash: "kr_world_scope git_fact = known_sample_scope" "kr_record_hash git_fact = hex64 (CHR ''1'')"
  by (simp_all add: git_fact_def)

lemma fact_admitted:
  "bind_result (initial_state sample_hash closure_sample_engine [git_fact] None) (admit_direct sample_hash [git_fact]) = Inr admitted"
  by (simp add: initial_state_def closure_sample_engine_def empty_known_set_def add_known_def fact_scope_hash same_scope
      fact_valid_hash admitted_def)

lemma digits_differ: "zeros \<noteq> hex64 (CHR ''3'')" "zeros \<noteq> hex64 (CHR ''1'')" "hex64 (CHR ''1'') \<noteq> zeros"
  by (simp_all add: hex64_def)

lemma child_scope_hash: "kr_world_scope git_child = known_sample_scope" "kr_record_hash git_child = zeros"
  by (simp_all add: git_child_def child_of_def child_record_def)

lemma child_valid_hash: "known_has_valid_hash sample_hash git_child = Inr True"
  using fact_materializes [OF good_candidates(1)] materialize_sound(2) unfolding git_child_def by blast

lemma fact_ancestors:
  assumes "cs_ancestry st (hex64 (CHR ''1'')) = Some {}"
  shows "ancestor_signatures sample_hash (cs_ancestry st) [git_fact] = Inr {hex64 (CHR ''3'')}"
  using assms by (simp add: ancestor_signatures_def fact_digests(2) fact_scope_hash)

lemma git_round:
  "\<exists>st. process_candidate sample_hash id id 1 git_spec (text_candidate_of ''CONTAINS'' ''pkg'' ''code.contains'' ''mod'')
      (admitted\<lparr>cs_delta := []\<rparr>) = Inr st \<and>
    cs_known st = index_record git_child (cs_known admitted) \<and> cs_delta st = [git_child] \<and>
    cs_ancestry st (hex64 (CHR ''1'')) = Some {} \<and> cs_diagnostics st = []"
proof -
  obtain es where m: "materialize sample_hash id 1 git_spec (text_candidate_of ''CONTAINS'' ''pkg'' ''code.contains'' ''mod'') =
      Inr (git_child, sample_derivation git_spec, es)"
    using fact_materializes [OF good_candidates(1)] by (auto simp: git_child_def)
  have sig: "proposition_signature sample_hash git_child = Inr zeros"
    unfolding git_child_def by (rule child_signature) simp
  have anc: "ancestor_signatures sample_hash (cs_ancestry admitted) [git_fact] = Inr {hex64 (CHR ''3'')}"
    by (rule fact_ancestors) (simp add: admitted_def)
  have "ks_scope (cs_known admitted) = known_sample_scope" "map fst (ks_by_hash (cs_known admitted)) = [hex64 (CHR ''1'')]"
    "ks_max_records (cs_known admitted) = 4" "length (ks_by_hash (cs_known admitted)) = 1"
    by (simp_all add: admitted_def index_record_def fact_scope_hash)
  then have "add_known sample_hash git_child (cs_known admitted) = Inr (True, index_record git_child (cs_known admitted))"
    by (simp add: add_known_def child_scope_hash same_scope child_valid_hash digits_differ del: set_map)
  then show ?thesis
    by (simp add: process_candidate_def try_candidate_def m sig anc admit_child_def digits_differ)
      (simp add: admitted_def child_scope_hash digits_differ)
qed

lemma root_round:
  assumes "zeros \<in> set (map fst (ks_by_hash (cs_known st)))" "ks_scope (cs_known st) = known_sample_scope"
    and "cs_ancestry st (hex64 (CHR ''1'')) = Some {}"
  shows "process_candidate sample_hash id id 1 (ru_spec (SameSourceRootGroupingRule id))
    root_candidate st = Inr st"
proof -
  let ?spec = "ru_spec (SameSourceRootGroupingRule id)"
  let ?k = "(child_of ?spec root_candidate)\<lparr>kr_record_hash := zeros\<rparr>"
  obtain es where m: "materialize sample_hash id 1 ?spec root_candidate = Inr (?k, sample_derivation ?spec, es)"
    using fact_materializes [OF good_candidates(2)] unfolding root_candidate_def by blast
  have sig: "proposition_signature sample_hash ?k = Inr zeros"
    unfolding root_candidate_def by (rule child_signature) simp
  have parents: "dc_parents root_candidate = [git_fact]" by (simp add: root_candidate_def)
  have "add_known sample_hash ?k (cs_known st) = Inr (False, cs_known st)"
    using assms(1,2) materialize_sound(2) [OF m]
    by (simp add: add_known_def same_scope del: set_map) (simp add: child_of_def child_record_def same_scope del: set_map)
  then show ?thesis
    by (simp add: process_candidate_def try_candidate_def m sig parents fact_ancestors [OF assms(3)] admit_child_def digits_differ)
qed

lemma sample_closure:
  "\<exists>r. close sample_hash id id closure_sample_engine [git_fact] None = Inr r \<and> inserted (cr_known r) = [git_fact, git_child] \<and>
     cr_rounds r = 2 \<and> cr_diagnostics r = []"
proof -
  obtain st where git: "process_candidate sample_hash id id 1 git_spec
      (text_candidate_of ''CONTAINS'' ''pkg'' ''code.contains'' ''mod'') (admitted\<lparr>cs_delta := []\<rparr>) = Inr st"
    and st: "cs_known st = index_record git_child (cs_known admitted)" "cs_delta st = [git_child]"
      "cs_ancestry st (hex64 (CHR ''1'')) = Some {}" "cs_diagnostics st = []"
    using git_round by blast
  have root: "process_candidate sample_hash id id 1 (ru_spec (SameSourceRootGroupingRule id))
    root_candidate st = Inr st"
    by (rule root_round) (simp_all add: st admitted_def index_record_def child_scope_hash)
  have round1: "apply_rules sample_hash id id 1 [git_fact] (registry_rules (p4_registry id)) (admitted\<lparr>cs_delta := []\<rparr>) = Inr st"
    using git by (simp add: sorted_rules quiet_rules fact_rules root git_spec_def)
  have round2: "apply_rules sample_hash id id 1 [git_child] (registry_rules (p4_registry id)) (st\<lparr>cs_delta := []\<rparr>) =
      Inr (st\<lparr>cs_delta := []\<rparr>)"
    by (simp add: sorted_rules quiet_rules child_rules)
  have delta: "cs_delta admitted = [git_fact]" by (simp add: admitted_def)
  have loop: "closure_loop sample_hash id id 1 (registry_rules (p4_registry id)) (nat 8) 0 admitted = Inr (2, st\<lparr>cs_delta := []\<rparr>)"
    by (simp add: closure_loop.simps delta round1 round2 st(2) eval_nat_numeral)
  obtain st0 where i: "initial_state sample_hash closure_sample_engine [git_fact] None = Inr st0"
    and a: "admit_direct sample_hash [git_fact] st0 = Inr admitted"
    using fact_admitted by (auto simp only: bind_result_eq_Inr)
  show ?thesis
    unfolding close_def i bind_result_Inr a
    by (simp add: delta closure_sample_engine_def loop [simplified] st) (simp add: admitted_def inserted_def index_record_def)
qed

section \<open>The theorems on the example\<close>

lemma closure_sample_run:
  "\<exists>r. closure_run sample_hash id id closure_sample_engine {git_fact} r \<and> inserted (cr_known r) = [git_fact, git_child]"
proof -
  obtain r where r: "close sample_hash id id closure_sample_engine [git_fact] None = Inr r" "inserted (cr_known r) = [git_fact, git_child]"
    using sample_closure by blast
  from closure_run.start [OF r(1)] r(2) show ?thesis by auto
qed

lemma sample_set:
  "\<exists>s. KnownSet sample_hash (kr_world_scope git_fact) (git_fact # ks) 4 = Inr s" if "ks \<in> {[], [git_fact]}"
  using that
  by (auto simp: KnownSet_def empty_known_set_def add_known_def fact_scope_hash same_scope fact_valid_hash index_record_def)

lemma Sha256_sample_hash: "Sha256 (sample_hash bs)"
  unfolding sample_hash_def using Sha256_hex64 [of "CHR ''1''"] Sha256_hex64 [of "CHR ''3''"] Sha256_hex64 [of "CHR ''0''"]
  by (simp add: is_hex_def is_digit_def less_eq_char_def)

theorem closure_authority_bounded_witness:
  "\<exists>r. closure_run sample_hash id id closure_sample_engine {git_fact} r \<and> git_child \<in> set (inserted (cr_known r)) \<and>
     rooted 1 {git_fact} git_child"
proof -
  obtain r where r: "closure_run sample_hash id id closure_sample_engine {git_fact} r" "inserted (cr_known r) = [git_fact, git_child]"
    using closure_sample_run by blast
  have "git_child \<noteq> git_fact" using child_scope_hash(2) fact_scope_hash(2) digits_differ by metis
  moreover have "git_child \<in> {git_fact} \<or> rooted 1 {git_fact} git_child"
    by (rule closure_authority_bounded [OF sample_engine_built r(1)]) (simp add: r(2))
  ultimately show ?thesis using r by auto
qed

theorem closure_saturated_witness:
  "\<exists>r. closure_run sample_hash id id closure_sample_engine {git_fact} r \<and>
     saturated sample_hash GitStructuralNormalizationRule git_candidates id id 1 (cr_known r) (set (cr_diagnostics r))
       (set (inserted (cr_known r)))"
proof -
  obtain r where r: "closure_run sample_hash id id closure_sample_engine {git_fact} r" using closure_sample_run by blast
  with closure_saturated [OF sample_engine_built r] show ?thesis by blast
qed

theorem closure_terminates_witness:
  "(\<exists>r. close sample_hash id id closure_sample_engine [git_fact] None = Inr r \<and> cr_terminated r) \<or>
    (\<exists>e. close sample_hash id id closure_sample_engine [git_fact] None = Inl e \<and> exc_class e = ''ActiveCutOverflow'')"
proof -
  obtain s where s: "KnownSet sample_hash (kr_world_scope git_fact) [git_fact] 4 = Inr s" using sample_set [of "[]"] by auto
  show ?thesis by (rule closure_terminates [OF sample_engine_built s]) simp
qed

definition two_calls :: call_graph where
  "two_calls = [(ustr ''a'', [(ustr ''b'', git_fact), (ustr ''c'', git_fact)]), (ustr ''b'', [(ustr ''c'', git_fact)])]"

theorem call_reachability_least_witness:
  "map_of (best_paths two_calls (ustr ''a'')) (ustr ''c'') = Some [ustr ''a'', ustr ''c''] \<and>
   (ustr ''a'', ustr ''c'') \<in> (calls two_calls)\<^sup>* \<and> distinct [ustr ''a'', ustr ''c'']"
proof -
  have "map_of (best_paths two_calls (ustr ''a'')) (ustr ''c'') = Some [ustr ''a'', ustr ''c'']" by code_simp
  with call_reachability_least [of two_calls "ustr ''a''" "ustr ''c''"] show ?thesis by blast
qed

theorem materialized_record_validates_witness:
  "(\<exists>d. kr_derivation git_child = Derived d \<and> DerivedKnownRecord sample_hash id git_child d = Inr git_child) \<and>
   sealed_derivation sample_hash id (sample_derivation git_spec)"
proof -
  obtain es where "materialize sample_hash id 1 git_spec (text_candidate_of ''CONTAINS'' ''pkg'' ''code.contains'' ''mod'') =
      Inr (git_child, sample_derivation git_spec, es)"
    using fact_materializes [OF good_candidates(1)] by (auto simp: git_child_def)
  from materialized_record_validates [OF this] Sha256_sample_hash show ?thesis by blast
qed

theorem known_set_refines_sequence_witness:
  "\<exists>s. KnownSet sample_hash (kr_world_scope git_fact) [git_fact, git_fact] 4 = Inr s \<and>
     by_proposition s ''GIT_CONTAINS'' = [git_fact] \<and> get_hash s (hex64 (CHR ''1'')) = Some git_fact"
proof -
  obtain s where s: "KnownSet sample_hash (kr_world_scope git_fact) [git_fact, git_fact] 4 = Inr s"
    using sample_set [of "[git_fact]"] by auto
  have "kr_proposition_type git_fact = ''GIT_CONTAINS''" "first_by_hash [git_fact, git_fact] = [git_fact]"
    by (simp_all add: git_fact_def)
  with known_set_refines_sequence [OF s] s fact_scope_hash(2) show ?thesis by auto
qed

end
