(* ===== verification/Dedup_Gate.thy ===== *)
theory Dedup_Gate
  imports Prelude
begin

text \<open>
  The idempotency gate of the ingress (\<open>src/world_understanding/ingress/dedup.py\<close>).  \<open>DedupGate\<close> keeps the set
  of keys whose operation is running and the receipts of the operations that returned, both guarded by
  one lock with a condition variable, whose list of sleeping threads is part of the state.  \<open>run_once\<close>
  has two critical sections: \<open>gate_enter\<close> is one pass through the first (sleep in \<open>wait()\<close>, which also
  gives up the lock; or answer from the receipts; or claim the key), and \<open>gate_leave\<close> is the second
  (record the receipt unless the operation raised, release the key, and \<open>notify_all()\<close>, which empties the
  list of sleepers).  An exception outside \<open>Exception\<close> that leaves the operation passes both handlers: the
  key stays in flight and nobody is notified.  Calls of several threads interleave at these sections:
  \<open>gate_step\<close> is one of them by one of the calls, and what an operation returns is arbitrary.
  The lemmas show that the interleaved calls agree with some order of atomic calls, that an operation
  succeeds at most once per key, that every interleaving ends, and which calls may be left asleep then.
  For one thread at a time \<open>run_once\<close> is a function; the locale \<open>once_gate\<close> states what its caller relies
  on.
\<close>

section \<open>The gate\<close>

record 'r gate =
  dg_inflight :: "string set"
  dg_completed :: "(string \<times> 'r) list"
  dg_waiters :: "nat list"

datatype 'r gate_entry = Wait | Cached 'r | Claimed

text \<open>How an operation ends: with a receipt, with an \<open>Exception\<close>, or with another \<open>BaseException\<close>
  (\<open>KeyboardInterrupt\<close>, \<open>SystemExit\<close>), named by its class.\<close>

datatype 'r op_outcome = Returned 'r | Failed py_error | Escaped string

definition outcome_of :: "'r result \<Rightarrow> 'r op_outcome" where
  "outcome_of res = (case res of Inl e \<Rightarrow> Failed e | Inr r \<Rightarrow> Returned r)"

definition new_gate :: "'r gate" where
  "new_gate = \<lparr>dg_inflight = {}, dg_completed = [], dg_waiters = []\<rparr>"

definition gate_enter :: "nat \<Rightarrow> string \<Rightarrow> 'r gate \<Rightarrow> 'r gate_entry \<times> 'r gate" where
  "gate_enter me key g =
     (if key \<in> dg_inflight g then (Wait, g\<lparr>dg_waiters := dg_waiters g @ [me]\<rparr>)
      else case map_of (dg_completed g) key of
          Some cached \<Rightarrow> (Cached cached, g)
        | None \<Rightarrow> (Claimed, g\<lparr>dg_inflight := insert key (dg_inflight g)\<rparr>))"

definition gate_leave :: "string \<Rightarrow> 'r op_outcome \<Rightarrow> 'r gate \<Rightarrow> 'r gate" where
  "gate_leave key out g =
     (case out of
        Failed e \<Rightarrow> g\<lparr>dg_inflight := dg_inflight g - {key}, dg_waiters := []\<rparr>
      | Returned receipt \<Rightarrow>
          g\<lparr>dg_completed := dict_set key receipt (dg_completed g), dg_inflight := dg_inflight g - {key}, dg_waiters := []\<rparr>
      | Escaped c \<Rightarrow> g)"

definition completed_count :: "'r gate \<Rightarrow> nat" where
  "completed_count g = length (dg_completed g)"

text \<open>
  A call with no other thread (it is thread \<open>0\<close>).  The operation acts on a state \<open>w\<close> of its own and returns
  or raises an \<open>Exception\<close>; \<open>None\<close> is the wait for a notification that no thread will give, the case of an
  operation that calls the gate again with its key.
\<close>

definition run_once :: "string \<Rightarrow> ('w \<Rightarrow> 'r result \<times> 'w) \<Rightarrow> 'r gate \<times> 'w \<Rightarrow> ('r result \<times> 'r gate \<times> 'w) option" where
  "run_once key operation s =
     (let (g, w) = s; (entry, g') = gate_enter 0 key g
      in case entry of
          Wait \<Rightarrow> None
        | Cached receipt \<Rightarrow> Some (Inr receipt, g', w)
        | Claimed \<Rightarrow> let (res, w') = operation w in Some (res, gate_leave key (outcome_of res) g', w'))"

section \<open>What a caller of the gate relies on\<close>

locale once_gate =
  fixes run :: "'k \<Rightarrow> ('w \<Rightarrow> 'r result \<times> 'w) \<Rightarrow> 'g \<times> 'w \<Rightarrow> ('r result \<times> 'g \<times> 'w) option"
    and receipt_of :: "'g \<Rightarrow> 'k \<Rightarrow> 'r option"
    and idle :: "'g \<Rightarrow> bool"
  assumes answered: "idle g \<Longrightarrow> receipt_of g k = Some r \<Longrightarrow> run k op (g, w) = Some (Inr r, g, w)"
    and performed: "idle g \<Longrightarrow> receipt_of g k = None \<Longrightarrow> op w = (res, w') \<Longrightarrow>
      \<exists>g'. run k op (g, w) = Some (res, g', w') \<and> idle g' \<and>
        receipt_of g' = (case res of Inl _ \<Rightarrow> receipt_of g | Inr r \<Rightarrow> (receipt_of g)(k := Some r))"
begin

lemma run_cases:
  assumes "idle g"
  obtains r where "receipt_of g k = Some r" "run k op (g, w) = Some (Inr r, g, w)"
  | res w' g' where "receipt_of g k = None" "op w = (res, w')" "run k op (g, w) = Some (res, g', w')" "idle g'"
      "receipt_of g' = (case res of Inl _ \<Rightarrow> receipt_of g | Inr r \<Rightarrow> (receipt_of g)(k := Some r))"
proof (cases "receipt_of g k")
  case None
  obtain res w' where op: "op w = (res, w')" by (cases "op w")
  from performed [of g k op w, OF assms None op] None op show ?thesis using that(2) by blast
next
  case (Some r)
  with answered [OF assms] show ?thesis using that(1) by blast
qed

lemma run_returns: "idle g \<Longrightarrow> \<exists>res g' w'. run k op (g, w) = Some (res, g', w') \<and> idle g'"
  by (rule run_cases [of g k op w]) auto

lemma run_receipt:
  assumes "idle g" "run k op (g, w) = Some (Inr r, g', w')"
  shows "receipt_of g' k = Some r"
  by (rule run_cases [of g k op w]) (use assms in auto)

lemma run_keeps_receipts:
  assumes "idle g" "run k op (g, w) = Some (res, g', w')" "receipt_of g k' = Some r"
  shows "receipt_of g' k' = Some r"
  by (rule run_cases [of g k op w]) (use assms in \<open>auto split: sum.splits\<close>)

lemma run_answer_stable:
  assumes "idle g" "run k op (g, w) = Some (Inr r, g', w')" "idle g''" "receipt_of g' \<subseteq>\<^sub>m receipt_of g''"
  shows "run k op' (g'', v) = Some (Inr r, g'', v)"
proof -
  have "k \<in> dom (receipt_of g')" using run_receipt [OF assms(1,2)] by auto
  with assms(4) have "receipt_of g'' k = Some r"
    using run_receipt [OF assms(1,2)] by (simp add: map_le_def)
  with assms(3) show ?thesis by (rule answered)
qed

end

interpretation dedup: once_gate run_once "\<lambda>g. map_of (dg_completed g)" "\<lambda>g. dg_inflight g = {}"
proof
  fix g :: "'r gate" and k r and op :: "'w \<Rightarrow> 'r result \<times> 'w" and w
  assume "dg_inflight g = {}" "map_of (dg_completed g) k = Some r"
  then show "run_once k op (g, w) = Some (Inr r, g, w)" by (simp add: run_once_def gate_enter_def)
next
  fix g :: "'r gate" and k and op :: "'w \<Rightarrow> 'r result \<times> 'w" and w res w'
  assume "dg_inflight g = {}" "map_of (dg_completed g) k = None" "op w = (res, w')"
  then show "\<exists>g'. run_once k op (g, w) = Some (res, g', w') \<and> dg_inflight g' = {} \<and>
      map_of (dg_completed g') = (case res of Inl _ \<Rightarrow> map_of (dg_completed g) | Inr r \<Rightarrow> (map_of (dg_completed g))(k := Some r))"
    by (auto simp: run_once_def gate_enter_def gate_leave_def outcome_of_def map_of_dict_set split: sum.splits)
qed

section \<open>Interleaved calls\<close>

datatype 'r phase = Entering | Waiting | Running | Finished "'r result" | Torn string

text \<open>
  The calls are numbered; call \<open>i\<close> has a key and a phase.  A call in \<open>wait()\<close> is \<open>Waiting\<close>; it goes on only
  when it is no longer among the waiters of the gate, and then it tests its key again.  A call whose
  operation was left by an exception outside \<open>Exception\<close> is \<open>Torn\<close>.  Beside the state of the
  program a history is kept: \<open>gs_log\<close> has an entry for every finished call, in the order in which they
  finished, that says whether the call did its operation and what it returned or raised.
\<close>

record 'r gate_system =
  gs_gate :: "'r gate"
  gs_calls :: "(string \<times> 'r phase) list"
  gs_log :: "(nat \<times> bool \<times> 'r result) list"

definition gate_start :: "string list \<Rightarrow> 'r gate_system" where
  "gate_start keys = \<lparr>gs_gate = new_gate, gs_calls = map (\<lambda>k. (k, Entering)) keys, gs_log = []\<rparr>"

inductive gate_step :: "'r gate_system \<Rightarrow> 'r gate_system \<Rightarrow> bool" where
  answer: "i < length (gs_calls s) \<Longrightarrow> gs_calls s ! i = (key, Entering) \<Longrightarrow>
    gate_enter i key (gs_gate s) = (Cached receipt, g') \<Longrightarrow>
    gate_step s (s\<lparr>gs_gate := g', gs_calls := (gs_calls s)[i := (key, Finished (Inr receipt))],
      gs_log := gs_log s @ [(i, False, Inr receipt)]\<rparr>)"
| claim: "i < length (gs_calls s) \<Longrightarrow> gs_calls s ! i = (key, Entering) \<Longrightarrow>
    gate_enter i key (gs_gate s) = (Claimed, g') \<Longrightarrow>
    gate_step s (s\<lparr>gs_gate := g', gs_calls := (gs_calls s)[i := (key, Running)]\<rparr>)"
| block: "i < length (gs_calls s) \<Longrightarrow> gs_calls s ! i = (key, Entering) \<Longrightarrow>
    gate_enter i key (gs_gate s) = (Wait, g') \<Longrightarrow>
    gate_step s (s\<lparr>gs_gate := g', gs_calls := (gs_calls s)[i := (key, Waiting)]\<rparr>)"
| wake: "i < length (gs_calls s) \<Longrightarrow> gs_calls s ! i = (key, Waiting) \<Longrightarrow> i \<notin> set (dg_waiters (gs_gate s)) \<Longrightarrow>
    gate_step s (s\<lparr>gs_calls := (gs_calls s)[i := (key, Entering)]\<rparr>)"
| leave: "i < length (gs_calls s) \<Longrightarrow> gs_calls s ! i = (key, Running) \<Longrightarrow>
    gate_step s (s\<lparr>gs_gate := gate_leave key (outcome_of res) (gs_gate s),
      gs_calls := (gs_calls s)[i := (key, Finished res)], gs_log := gs_log s @ [(i, True, res)]\<rparr>)"
| escape: "i < length (gs_calls s) \<Longrightarrow> gs_calls s ! i = (key, Running) \<Longrightarrow>
    gate_step s (s\<lparr>gs_gate := gate_leave key (Escaped c) (gs_gate s), gs_calls := (gs_calls s)[i := (key, Torn c)]\<rparr>)"

inductive gate_run :: "string list \<Rightarrow> 'r gate_system \<Rightarrow> nat \<Rightarrow> bool" for keys where
  start: "gate_run keys (gate_start keys) 0"
| step: "gate_run keys s n \<Longrightarrow> gate_step s s' \<Longrightarrow> gate_run keys s' (Suc n)"

section \<open>What every interleaving keeps\<close>

definition key_of :: "'r gate_system \<Rightarrow> nat \<Rightarrow> string" where
  "key_of s i = fst (gs_calls s ! i)"

definition phase_of :: "'r gate_system \<Rightarrow> nat \<Rightarrow> 'r phase" where
  "phase_of s i = snd (gs_calls s ! i)"

definition calls_of :: "'r gate_system \<Rightarrow> nat set" where
  "calls_of s = {i. i < length (gs_calls s)}"

text \<open>An atomic call: answered from the receipts, or the operation with outcome \<open>res\<close> is run.\<close>

definition atomic_call :: "string \<Rightarrow> 'r result \<Rightarrow> (string \<rightharpoonup> 'r) \<Rightarrow> bool \<times> 'r result \<times> (string \<rightharpoonup> 'r)" where
  "atomic_call key res m =
     (case m key of
        Some r \<Rightarrow> (False, Inr r, m)
      | None \<Rightarrow> (True, res, case res of Inl e \<Rightarrow> m | Inr r \<Rightarrow> m(key \<mapsto> r)))"

text \<open>
  The log replayed as atomic calls: \<open>Some m\<close> when every entry is what the atomic call gives, with \<open>m\<close> the
  receipts at the end.
\<close>

fun replay :: "(nat \<Rightarrow> string) \<Rightarrow> (nat \<times> bool \<times> 'r result) list \<Rightarrow> (string \<rightharpoonup> 'r) \<Rightarrow> (string \<rightharpoonup> 'r) option" where
  "replay key [] m = Some m"
| "replay key ((i, did, res) # log) m =
     (case atomic_call (key i) res m of (did', res', m') \<Rightarrow>
        if did' = did \<and> res' = res then replay key log m' else None)"

lemma replay_append:
  "replay key (xs @ ys) m = (case replay key xs m of None \<Rightarrow> None | Some m' \<Rightarrow> replay key ys m')"
  by (induction key xs m rule: replay.induct) (auto split: prod.splits)

lemma replay_snoc:
  assumes "replay key log m = Some m'" "atomic_call (key i) res m' = (did, res, m'')"
  shows "replay key (log @ [(i, did, res)]) m = Some m''"
  using assms by (simp add: replay_append)

lemma replay_cong:
  assumes "\<And>i did res. (i, did, res) \<in> set log \<Longrightarrow> key i = key' i"
  shows "replay key log m = replay key' log m"
  using assms
proof (induction log arbitrary: m)
  case (Cons e log)
  obtain i did res where e: "e = (i, did, res)" by (cases e)
  have "key i = key' i" using Cons.prems e by fastforce
  moreover have "replay key log m' = replay key' log m'" for m' using Cons.IH Cons.prems by (meson list.set_intros(2))
  ultimately show ?case by (simp add: e split: prod.splits)
qed simp

lemma replay_mono: "replay key log m = Some m' \<Longrightarrow> m \<subseteq>\<^sub>m m'"
proof (induction key log m rule: replay.induct)
  case (2 key i did res log m)
  show ?case
  proof (cases "m (key i)")
    case None
    have le: "m \<subseteq>\<^sub>m (case res of Inl e \<Rightarrow> m | Inr r \<Rightarrow> m(key i \<mapsto> r))"
      using None by (auto simp: map_le_def split: sum.splits)
    with 2 None have "(case res of Inl e \<Rightarrow> m | Inr r \<Rightarrow> m(key i \<mapsto> r)) \<subseteq>\<^sub>m m'"
      by (auto simp: atomic_call_def split: if_splits)
    with le show ?thesis by (rule map_le_trans)
  next
    case (Some r)
    with 2 show ?thesis by (auto simp: atomic_call_def split: if_splits)
  qed
qed simp

lemma replay_receipt:
  "replay key log m = Some m' \<Longrightarrow> (i, did, Inr r) \<in> set log \<Longrightarrow> m' (key i) = Some r"
proof (induction key log m rule: replay.induct)
  case (2 key j did' res log m)
  obtain m2 where m2: "atomic_call (key j) res m = (did', res, m2)" "replay key log m2 = Some m'"
    using 2(2) by (auto split: prod.splits if_splits)
  show ?case
  proof (cases "(i, did, Inr r) \<in> set log")
    case True
    with 2(1) m2 show ?thesis by metis
  next
    case False
    with 2(3) have e: "j = i" "res = Inr r" by auto
    then have "m2 (key i) = Some r" using m2(1) by (auto simp: atomic_call_def split: option.splits)
    with replay_mono [OF m2(2)] show ?thesis by (metis domI map_le_def)
  qed
qed simp

definition successes :: "(nat \<Rightarrow> string) \<Rightarrow> string \<Rightarrow> (nat \<times> bool \<times> 'r result) list \<Rightarrow> (nat \<times> bool \<times> 'r result) list" where
  "successes key k log = filter (\<lambda>(i, did, res). key i = k \<and> did \<and> ok res) log"

lemma successes_once:
  assumes "replay key log m = Some m'"
  shows "length (successes key k log) \<le> (if m k = None then 1 else 0)"
  using assms
proof (induction key log m rule: replay.induct)
  case (2 key j did res log m)
  obtain m2 where m2: "atomic_call (key j) res m = (did, res, m2)" "replay key log m2 = Some m'"
    using 2(2) by (auto split: prod.splits if_splits)
  have IH: "length (successes key k log) \<le> (if m2 k = None then 1 else 0)" using 2(1) m2 by metis
  show ?case
  proof (cases "key j = k \<and> did \<and> ok res")
    case True
    with m2(1) have "m k = None" "m2 k \<noteq> None" by (auto simp: atomic_call_def ok_iff split: option.splits)
    with IH True show ?thesis by (simp add: successes_def)
  next
    case False
    have "m2 k = None \<Longrightarrow> m k = None" "m k \<noteq> None \<Longrightarrow> m2 k \<noteq> None"
      using m2(1) by (auto simp: atomic_call_def split: option.splits sum.splits if_splits)
    with IH False show ?thesis by (auto simp: successes_def split: if_splits)
  qed
qed (simp add: successes_def)

text \<open>
  The invariant: the keys in flight are those of the calls that hold one (running, or torn), one call each
  and without a receipt; who sleeps unnotified does so for a key in flight; the log lists the finished
  calls with what they returned; and its replay gives the receipts.
\<close>

fun holds :: "'r phase \<Rightarrow> bool" where
  "holds Running = True"
| "holds (Torn c) = True"
| "holds p = False"

lemma holds_iff: "holds p \<longleftrightarrow> p = Running \<or> (\<exists>c. p = Torn c)"
  by (cases p) auto

definition holders :: "'r gate_system \<Rightarrow> nat set" where
  "holders s = {i \<in> calls_of s. holds (phase_of s i)}"

definition sleepers_ok :: "'r gate_system \<Rightarrow> bool" where
  "sleepers_ok s \<longleftrightarrow> (\<forall>i \<in> set (dg_waiters (gs_gate s)).
     i \<in> calls_of s \<and> phase_of s i = Waiting \<and> key_of s i \<in> dg_inflight (gs_gate s))"

definition gate_inv :: "'r gate_system \<Rightarrow> bool" where
  "gate_inv s \<longleftrightarrow>
     dg_inflight (gs_gate s) = key_of s ` holders s \<and> inj_on (key_of s) (holders s) \<and>
     dom (map_of (dg_completed (gs_gate s))) \<inter> dg_inflight (gs_gate s) = {} \<and>
     distinct (map fst (gs_log s)) \<and>
     (\<forall>i did res. (i, did, res) \<in> set (gs_log s) \<longrightarrow> i \<in> calls_of s \<and> phase_of s i = Finished res) \<and>
     (\<forall>i \<in> calls_of s. (\<exists>res. phase_of s i = Finished res) \<longrightarrow> i \<in> set (map fst (gs_log s))) \<and>
     replay (key_of s) (gs_log s) Map.empty = Some (map_of (dg_completed (gs_gate s))) \<and> sleepers_ok s"

lemma gate_invI:
  assumes "dg_inflight (gs_gate s) = key_of s ` holders s" and "inj_on (key_of s) (holders s)"
    and "dom (map_of (dg_completed (gs_gate s))) \<inter> dg_inflight (gs_gate s) = {}"
    and "distinct (map fst (gs_log s))"
    and "\<And>i did res. (i, did, res) \<in> set (gs_log s) \<Longrightarrow> i \<in> calls_of s \<and> phase_of s i = Finished res"
    and "\<And>i res. i \<in> calls_of s \<Longrightarrow> phase_of s i = Finished res \<Longrightarrow> i \<in> set (map fst (gs_log s))"
    and "replay (key_of s) (gs_log s) Map.empty = Some (map_of (dg_completed (gs_gate s)))" and "sleepers_ok s"
  shows "gate_inv s"
  unfolding gate_inv_def
  by (intro conjI assms(1,2,3,4,7,8) allI impI ballI; (elim exE)?; (rule assms(5) [THEN conjunct1] assms(5) [THEN conjunct2] assms(6))?)

lemma gate_invD:
  assumes "gate_inv s"
  shows "dg_inflight (gs_gate s) = key_of s ` holders s" and "inj_on (key_of s) (holders s)"
    and "dom (map_of (dg_completed (gs_gate s))) \<inter> dg_inflight (gs_gate s) = {}"
    and "distinct (map fst (gs_log s))"
    and "\<And>i did res. (i, did, res) \<in> set (gs_log s) \<Longrightarrow> i \<in> calls_of s \<and> phase_of s i = Finished res"
    and "\<And>i res. i \<in> calls_of s \<Longrightarrow> phase_of s i = Finished res \<Longrightarrow> i \<in> set (map fst (gs_log s))"
    and "replay (key_of s) (gs_log s) Map.empty = Some (map_of (dg_completed (gs_gate s)))" and "sleepers_ok s"
  using assms unfolding gate_inv_def by blast+

text \<open>A step rewrites the phase of one call and leaves its key.\<close>

lemma call_update:
  assumes "gs_calls s' = (gs_calls s)[i := (key, p)]" "i \<in> calls_of s" "gs_calls s ! i = (key, q)"
  shows "calls_of s' = calls_of s" "key_of s' = key_of s" "phase_of s' = (phase_of s)(i := p)" "key_of s i = key"
    "phase_of s i = q"
proof -
  show "calls_of s' = calls_of s" using assms(1) by (simp add: calls_of_def)
  show "key_of s i = key" "phase_of s i = q" using assms(3) by (simp_all add: key_of_def phase_of_def)
  show "key_of s' = key_of s"
    using assms by (auto simp: key_of_def calls_of_def fun_eq_iff nth_list_update)
  show "phase_of s' = (phase_of s)(i := p)"
    using assms by (auto simp: phase_of_def calls_of_def fun_eq_iff nth_list_update)
qed

lemma unlogged:
  assumes "gate_inv s" "i \<in> calls_of s" "\<And>res. phase_of s i \<noteq> Finished res"
  shows "i \<notin> set (map fst (gs_log s))"
  using gate_invD(5) [OF assms(1)] assms(3) by fastforce

lemma gate_inv_start: "gate_inv (gate_start keys :: 'r gate_system)"
proof -
  let ?s = "gate_start keys :: 'r gate_system"
  have e: "phase_of ?s i = Entering" if "i \<in> calls_of ?s" for i
    using that by (simp add: phase_of_def calls_of_def gate_start_def)
  then have "holders ?s = {}" by (auto simp: holders_def)
  moreover from this have "inj_on (key_of ?s) (holders ?s)" by (simp only: inj_on_empty)
  moreover have "gs_log ?s = []" "gs_gate ?s = new_gate" by (simp_all add: gate_start_def)
  moreover have False if "i \<in> calls_of ?s" "phase_of ?s i = Finished res" for i res
    using that e by simp
  moreover have "sleepers_ok ?s" by (simp add: sleepers_ok_def gate_start_def new_gate_def)
  ultimately show ?thesis by (intro gate_invI) (auto simp: new_gate_def)
qed

lemma gate_enter_cases:
  "gate_enter i key g = (Cached r, g') \<longleftrightarrow> key \<notin> dg_inflight g \<and> map_of (dg_completed g) key = Some r \<and> g' = g"
  "gate_enter i key g = (Claimed, g') \<longleftrightarrow> key \<notin> dg_inflight g \<and> map_of (dg_completed g) key = None \<and>
     g' = g\<lparr>dg_inflight := insert key (dg_inflight g)\<rparr>"
  "gate_enter i key g = (Wait, g') \<longleftrightarrow> key \<in> dg_inflight g \<and> g' = g\<lparr>dg_waiters := dg_waiters g @ [i]\<rparr>"
  by (auto simp: gate_enter_def split: option.splits)

lemma gate_leave_simps [simp]:
  "dg_inflight (gate_leave key (outcome_of res) g) = dg_inflight g - {key}"
  "map_of (dg_completed (gate_leave key (outcome_of res) g)) =
     (case res of Inl e \<Rightarrow> map_of (dg_completed g) | Inr r \<Rightarrow> (map_of (dg_completed g))(key \<mapsto> r))"
  "dg_waiters (gate_leave key (outcome_of res) g) = []"
  "gate_leave key (Escaped c) g = g"
  by (simp_all add: gate_leave_def outcome_of_def map_of_dict_set split: sum.splits)

lemma log_extends:
  assumes inv: "gate_inv s" and i: "i \<in> calls_of s" "\<And>res. phase_of s i \<noteq> Finished res"
    and s': "calls_of s' = calls_of s" "phase_of s' = (phase_of s)(i := Finished res)" "gs_log s' = gs_log s @ [(i, did, res)]"
  shows "distinct (map fst (gs_log s'))"
    and "(j, did', res') \<in> set (gs_log s') \<Longrightarrow> j \<in> calls_of s' \<and> phase_of s' j = Finished res'"
    and "j \<in> calls_of s' \<Longrightarrow> phase_of s' j = Finished res' \<Longrightarrow> j \<in> set (map fst (gs_log s'))"
proof -
  note new = unlogged [OF inv i]
  show "distinct (map fst (gs_log s'))" using gate_invD(4) [OF inv] new s' by simp
  show "(j, did', res') \<in> set (gs_log s') \<Longrightarrow> j \<in> calls_of s' \<and> phase_of s' j = Finished res'"
    using gate_invD(5) [OF inv] new i s' by force
  show "j \<in> calls_of s' \<Longrightarrow> phase_of s' j = Finished res' \<Longrightarrow> j \<in> set (map fst (gs_log s'))"
    using gate_invD(6) [OF inv] s' by (cases "j = i") auto
qed

lemma inj_on_removed:
  assumes "inj_on f A" "i \<in> A" shows "f ` (A - {i}) = f ` A - {f i}"
  using assms by (auto simp: inj_on_def)

lemma holders_update:
  assumes "calls_of s' = calls_of s" "phase_of s' = (phase_of s)(i := p)" "i \<in> calls_of s"
  shows "holders s' = (if holds p then insert i (holders s) else holders s - {i})"
  using assms by (auto simp: holders_def)

text \<open>A step that logs nothing and moves one unfinished call to an unfinished phase.\<close>

lemma log_unchanged:
  assumes inv: "gate_inv s" and i: "i \<in> calls_of s" "\<And>res. phase_of s i \<noteq> Finished res" "\<And>res. p \<noteq> Finished res"
    and s': "calls_of s' = calls_of s" "phase_of s' = (phase_of s)(i := p)" "gs_log s' = gs_log s"
  shows "distinct (map fst (gs_log s'))"
    and "(j, did', res') \<in> set (gs_log s') \<Longrightarrow> j \<in> calls_of s' \<and> phase_of s' j = Finished res'"
    and "j \<in> calls_of s' \<Longrightarrow> phase_of s' j = Finished res' \<Longrightarrow> j \<in> set (map fst (gs_log s'))"
  using gate_invD(4) [OF inv] gate_invD(5) [OF inv, of j did' res'] gate_invD(6) [OF inv, of j res'] i s'
  by (auto split: if_splits)

lemma sleepers_keep:
  assumes "gate_inv s" "calls_of s' = calls_of s" "key_of s' = key_of s" "phase_of s' = (phase_of s)(i := p)"
    and "dg_waiters (gs_gate s') = dg_waiters (gs_gate s)" "dg_inflight (gs_gate s) \<subseteq> dg_inflight (gs_gate s')"
    and "i \<notin> set (dg_waiters (gs_gate s))"
  shows "sleepers_ok s'"
  using gate_invD(8) [OF assms(1)] assms(2-) unfolding sleepers_ok_def by (metis fun_upd_other subsetD)

lemma awake: "gate_inv s \<Longrightarrow> phase_of s i \<noteq> Waiting \<Longrightarrow> i \<notin> set (dg_waiters (gs_gate s))"
  using gate_invD(8) by (auto simp: sleepers_ok_def)

lemma gate_inv_step:
  assumes "gate_step s s'" "gate_inv s"
  shows "gate_inv s'"
  using assms
proof cases
  case (answer i key receipt g')
  then have i: "i \<in> calls_of s" by (simp add: calls_of_def)
  have upd: "calls_of s' = calls_of s" "key_of s' = key_of s" "phase_of s' = (phase_of s)(i := Finished (Inr receipt))"
    "key_of s i = key" "phase_of s i = Entering"
    using call_update [of s', OF _ i answer(3), of "Finished (Inr receipt)"] answer(1) by simp_all
  have g: "gs_gate s' = gs_gate s" "map_of (dg_completed (gs_gate s)) key = Some receipt"
    "gs_log s' = gs_log s @ [(i, False, Inr receipt)]"
    using answer(1,4) by (simp_all add: gate_enter_cases)
  have run: "holders s' = holders s" using holders_update [OF upd(1,3) i] upd(5) by (auto simp: holders_def)
  note inv = gate_invD [OF assms(2)]
  show ?thesis
  proof (rule gate_invI, unfold run upd(2) g(1))
    show "replay (key_of s) (gs_log s') Map.empty = Some (map_of (dg_completed (gs_gate s)))"
      unfolding g(3) using inv(7) by (rule replay_snoc) (simp add: atomic_call_def upd g)
    show "sleepers_ok s'"
      by (rule sleepers_keep [OF assms(2) upd(1-3)]) (use g awake [OF assms(2), of i] upd(5) in simp_all)
  qed (use inv(1-3) log_extends [OF assms(2) i _ upd(1,3) g(3)] upd(5) in auto)
next
  case (claim i key g')
  then have i: "i \<in> calls_of s" by (simp add: calls_of_def)
  have upd: "calls_of s' = calls_of s" "key_of s' = key_of s" "phase_of s' = (phase_of s)(i := Running)"
    "key_of s i = key" "phase_of s i = Entering"
    using call_update [of s', OF _ i claim(3), of Running] claim(1) by simp_all
  have g: "dg_inflight (gs_gate s') = insert key (dg_inflight (gs_gate s))" "key \<notin> dg_inflight (gs_gate s)"
    "dg_completed (gs_gate s') = dg_completed (gs_gate s)" "map_of (dg_completed (gs_gate s)) key = None"
    "gs_log s' = gs_log s" "dg_waiters (gs_gate s') = dg_waiters (gs_gate s)"
    using claim(1,4) by (simp_all add: gate_enter_cases)
  have run: "holders s' = insert i (holders s)" using holders_update [OF upd(1,3) i] by simp
  note inv = gate_invD [OF assms(2)]
  show ?thesis
  proof (rule gate_invI, unfold run upd(2) g(1,3))
    show "insert key (dg_inflight (gs_gate s)) = key_of s ` insert i (holders s)" using inv(1) upd(4) by simp
    show "inj_on (key_of s) (insert i (holders s))" unfolding inj_on_insert using inv(1,2) g(2) upd(4) by blast
    show "dom (map_of (dg_completed (gs_gate s))) \<inter> insert key (dg_inflight (gs_gate s)) = {}"
      using inv(3) g(4) by auto
    show "sleepers_ok s'"
      by (rule sleepers_keep [OF assms(2) upd(1-3) g(6)]) (use g awake [OF assms(2), of i] upd(5) in auto)
  qed (use inv(7) log_unchanged [OF assms(2) i _ _ upd(1,3) g(5)] upd(5) g(5) in auto)
next
  case (block i key g')
  then have i: "i \<in> calls_of s" by (simp add: calls_of_def)
  have upd: "calls_of s' = calls_of s" "key_of s' = key_of s" "phase_of s' = (phase_of s)(i := Waiting)"
    "key_of s i = key" "phase_of s i = Entering"
    using call_update [of s', OF _ i block(3), of Waiting] block(1) by simp_all
  have g: "dg_inflight (gs_gate s') = dg_inflight (gs_gate s)" "key \<in> dg_inflight (gs_gate s)"
    "dg_completed (gs_gate s') = dg_completed (gs_gate s)" "dg_waiters (gs_gate s') = dg_waiters (gs_gate s) @ [i]"
    "gs_log s' = gs_log s"
    using block(1,4) by (simp_all add: gate_enter_cases)
  have run: "holders s' = holders s" using holders_update [OF upd(1,3) i] upd(5) by (auto simp: holders_def)
  note inv = gate_invD [OF assms(2)]
  show ?thesis
  proof (rule gate_invI, unfold run upd(2) g(1,3))
    show "sleepers_ok s'" using inv(8) g upd i unfolding sleepers_ok_def by auto
  qed (use inv(1,2,3,7) log_unchanged [OF assms(2) i _ _ upd(1,3) g(5)] upd(5) g(5) in auto)
next
  case (wake i key)
  then have i: "i \<in> calls_of s" by (simp add: calls_of_def)
  have upd: "calls_of s' = calls_of s" "key_of s' = key_of s" "phase_of s' = (phase_of s)(i := Entering)"
    "key_of s i = key" "phase_of s i = Waiting"
    using call_update [of s', OF _ i wake(3), of Entering] wake(1) by simp_all
  have g: "gs_gate s' = gs_gate s" "gs_log s' = gs_log s" using wake(1) by simp_all
  have run: "holders s' = holders s" using holders_update [OF upd(1,3) i] upd(5) by (auto simp: holders_def)
  note inv = gate_invD [OF assms(2)]
  show ?thesis
  proof (rule gate_invI, unfold run upd(2) g(1))
    show "sleepers_ok s'" by (rule sleepers_keep [OF assms(2) upd(1-3)]) (use g wake(4) in simp_all)
  qed (use inv(1,2,3,7) log_unchanged [OF assms(2) i _ _ upd(1,3) g(2)] upd(5) g(2) in auto)
next
  case (leave i key res)
  then have i: "i \<in> calls_of s" by (simp add: calls_of_def)
  have upd: "calls_of s' = calls_of s" "key_of s' = key_of s" "phase_of s' = (phase_of s)(i := Finished res)"
    "key_of s i = key" "phase_of s i = Running"
    using call_update [of s', OF _ i leave(3), of "Finished res"] leave(1) by simp_all
  have g: "gs_gate s' = gate_leave key (outcome_of res) (gs_gate s)" "gs_log s' = gs_log s @ [(i, True, res)]"
    using leave(1) by simp_all
  have run: "holders s' = holders s - {i}" using holders_update [OF upd(1,3) i] by simp
  have iR: "i \<in> holders s" using i upd by (simp add: holders_def)
  note inv = gate_invD [OF assms(2)]
  have none: "map_of (dg_completed (gs_gate s)) key = None"
    using inv(1,3) iR upd(4) by (metis (mono_tags, lifting) disjoint_iff domIff imageI)
  show ?thesis
  proof (rule gate_invI, unfold run upd(2) g(1))
    show "dg_inflight (gate_leave key (outcome_of res) (gs_gate s)) = key_of s ` (holders s - {i})"
      using inj_on_removed [OF inv(2) iR] inv(1) upd(4) by simp
    show "inj_on (key_of s) (holders s - {i})" using inv(2) by (rule inj_on_subset) blast
    show "dom (map_of (dg_completed (gate_leave key (outcome_of res) (gs_gate s)))) \<inter>
        dg_inflight (gate_leave key (outcome_of res) (gs_gate s)) = {}"
      using inv(3) by (auto split: sum.splits)
    show "replay (key_of s) (gs_log s') Map.empty =
        Some (map_of (dg_completed (gate_leave key (outcome_of res) (gs_gate s))))"
      unfolding g(2) using inv(7)
      by (rule replay_snoc) (simp add: atomic_call_def upd none split: sum.splits)
    show "sleepers_ok s'" by (simp add: sleepers_ok_def g)
  qed (use log_extends [OF assms(2) i _ upd(1,3) g(2)] upd(5) in auto)
next
  case (escape i key c)
  then have i: "i \<in> calls_of s" by (simp add: calls_of_def)
  have upd: "calls_of s' = calls_of s" "key_of s' = key_of s" "phase_of s' = (phase_of s)(i := Torn c)"
    "key_of s i = key" "phase_of s i = Running"
    using call_update [of s', OF _ i escape(3), of "Torn c"] escape(1) by simp_all
  have g: "gs_gate s' = gs_gate s" "gs_log s' = gs_log s" using escape(1) by simp_all
  have run: "holders s' = holders s" using holders_update [OF upd(1,3) i] upd(5) i by (auto simp: holders_def)
  note inv = gate_invD [OF assms(2)]
  show ?thesis
  proof (rule gate_invI, unfold run upd(2) g(1))
    show "sleepers_ok s'"
      by (rule sleepers_keep [OF assms(2) upd(1-3)]) (use g awake [OF assms(2), of i] upd(5) in simp_all)
  qed (use inv(1,2,3,7) log_unchanged [OF assms(2) i _ _ upd(1,3) g(2)] upd(5) g(2) in auto)
qed

lemma gate_run_inv: "gate_run keys s n \<Longrightarrow> gate_inv s"
  by (induction rule: gate_run.induct) (simp_all add: gate_inv_start gate_inv_step)

section \<open>Steps are bounded, and none is missing\<close>

text \<open>
  A measure that every step decreases.  A call that is not over weighs \<open>2 * n + 1\<close>, for \<open>n\<close> calls, so that
  the release of a key outweighs the calls it wakes; within that, a notified sleeper is ahead of a call
  about to enter, which is ahead of a sleeper that nobody has notified.
\<close>

fun phase_weight :: "nat \<Rightarrow> bool \<Rightarrow> 'r phase \<Rightarrow> nat" where
  "phase_weight n asleep Entering = 2 * n + 3"
| "phase_weight n asleep Waiting = 2 * n + (if asleep then 2 else 4)"
| "phase_weight n asleep Running = 2 * n + 1"
| "phase_weight n asleep (Finished res) = 0"
| "phase_weight n asleep (Torn c) = 0"

definition weight_of :: "'r gate_system \<Rightarrow> nat \<Rightarrow> nat" where
  "weight_of s i = phase_weight (length (gs_calls s)) (i \<in> set (dg_waiters (gs_gate s))) (phase_of s i)"

definition pending :: "'r gate_system \<Rightarrow> nat" where
  "pending s = (\<Sum>i \<in> calls_of s. weight_of s i)"

lemma finite_calls_of [simp]: "finite (calls_of s)"
  by (simp add: calls_of_def)

lemma card_calls_of [simp]: "card (calls_of s) = length (gs_calls s)"
  by (simp add: calls_of_def)

text \<open>A step that leaves the weight of the other calls, and a step that wakes them.\<close>

lemma pending_local:
  assumes "calls_of s' = calls_of s" "i \<in> calls_of s" "weight_of s' i < weight_of s i"
    and "\<And>j. j \<noteq> i \<Longrightarrow> weight_of s' j = weight_of s j"
  shows "pending s' < pending s"
  unfolding pending_def assms(1)
proof (rule sum_strict_mono_ex1)
  show "\<forall>j \<in> calls_of s. weight_of s' j \<le> weight_of s j"
    using assms(3,4) by (metis less_imp_le order_refl)
qed (use assms(2,3) in auto)

lemma pending_wakes:
  assumes "calls_of s' = calls_of s" "i \<in> calls_of s" "weight_of s' i = 0" "weight_of s i = 2 * length (gs_calls s) + 1"
    and "\<And>j. weight_of s' j \<le> weight_of s j + 2"
  shows "pending s' < pending s"
proof -
  let ?C = "calls_of s - {i}"
  have "pending s' = weight_of s' i + (\<Sum>j \<in> ?C. weight_of s' j)"
    unfolding pending_def assms(1) by (rule sum.remove) (simp_all add: assms(2))
  also have "\<dots> \<le> (\<Sum>j \<in> ?C. weight_of s j + 2)" using assms(3,5) by (simp add: sum_mono)
  also have "\<dots> = (\<Sum>j \<in> ?C. weight_of s j) + 2 * card ?C" by (simp only: sum.distrib sum_constant mult.commute of_nat_id)
  also have "\<dots> \<le> (\<Sum>j \<in> ?C. weight_of s j) + 2 * length (gs_calls s)"
    using card_mono [of "calls_of s" ?C] by simp
  also have "\<dots> < weight_of s i + (\<Sum>j \<in> ?C. weight_of s j)" using assms(4) by simp
  also have "\<dots> = pending s" unfolding pending_def by (rule sum.remove [symmetric]) (simp_all add: assms(2))
  finally show ?thesis .
qed

lemma length_calls_step: "gate_step s s' \<Longrightarrow> length (gs_calls s') = length (gs_calls s)"
  by (induction rule: gate_step.induct) simp_all

lemma pending_step:
  assumes "gate_step s s'" "gate_inv s"
  shows "pending s' < pending s"
proof -
  note len = length_calls_step [OF assms(1)]
  have local_step: "pending s' < pending s"
    if c: "gs_calls s' = (gs_calls s)[i := (key, p)]" "i < length (gs_calls s)" "gs_calls s ! i = (key, q)"
      and w: "\<And>j. j \<noteq> i \<Longrightarrow> j \<in> set (dg_waiters (gs_gate s')) \<longleftrightarrow> j \<in> set (dg_waiters (gs_gate s))"
      and d: "phase_weight (length (gs_calls s)) (i \<in> set (dg_waiters (gs_gate s'))) p <
        phase_weight (length (gs_calls s)) (i \<in> set (dg_waiters (gs_gate s))) q" for i key p q
  proof -
    have i: "i \<in> calls_of s" using c(2) by (simp add: calls_of_def)
    note u = call_update [OF c(1) i c(3)]
    show ?thesis
      by (rule pending_local [OF u(1) i]) (use u w d len in \<open>simp_all add: weight_of_def\<close>)
  qed
  from assms show ?thesis
  proof cases
    case (answer i key receipt g')
    then show ?thesis by (intro local_step [of i key "Finished (Inr receipt)" Entering]) (simp_all add: gate_enter_cases)
  next
    case (claim i key g')
    then show ?thesis by (intro local_step [of i key Running Entering]) (simp_all add: gate_enter_cases)
  next
    case (block i key g')
    then show ?thesis by (intro local_step [of i key Waiting Entering]) (simp_all add: gate_enter_cases)
  next
    case (wake i key)
    then show ?thesis by (intro local_step [of i key Entering Waiting]) simp_all
  next
    case (leave i key res)
    have i: "i \<in> calls_of s" using leave(2) by (simp add: calls_of_def)
    have c: "gs_calls s' = (gs_calls s)[i := (key, Finished res)]" using leave(1) by simp
    note u = call_update [OF c i leave(3)]
    have quiet: "dg_waiters (gs_gate s') = []" using leave(1) by simp
    show ?thesis
    proof (rule pending_wakes [OF u(1) i])
      show "weight_of s' i = 0" "weight_of s i = 2 * length (gs_calls s) + 1"
        using u by (simp_all add: weight_of_def)
      show "weight_of s' j \<le> weight_of s j + 2" for j
        using u quiet len by (cases "j = i"; cases "phase_of s j") (simp_all add: weight_of_def)
    qed
  next
    case (escape i key c)
    then show ?thesis by (intro local_step [of i key "Torn c" Running]) simp_all
  qed
qed

lemma pending_start: "pending (gate_start keys :: 'r gate_system) = length keys * (2 * length keys + 3)"
proof -
  let ?s = "gate_start keys :: 'r gate_system"
  have "pending ?s = (\<Sum>i \<in> calls_of ?s. 2 * length keys + 3)"
    unfolding pending_def by (rule sum.cong) (simp_all add: weight_of_def phase_of_def calls_of_def gate_start_def)
  moreover have "card (calls_of ?s) = length keys" by (simp add: gate_start_def)
  ultimately show ?thesis by (simp del: card_calls_of)
qed

lemma gate_run_bound: "gate_run keys s n \<Longrightarrow> n + pending s \<le> length keys * (2 * length keys + 3)"
proof (induction rule: gate_run.induct)
  case start
  then show ?case by (simp add: pending_start)
next
  case (step s n s')
  with pending_step [OF step(2) gate_run_inv [OF step(1)]] show ?case by linarith
qed

lemma map_fst_update: "cs ! i = (k, q) \<Longrightarrow> map fst (cs[i := (k, p)]) = map fst cs"
  by (metis fst_conv list_update_id map_update)

lemma gate_run_keys: "gate_run keys s n \<Longrightarrow> map fst (gs_calls s) = keys"
proof (induction rule: gate_run.induct)
  case (step s n s')
  from step(2) have "map fst (gs_calls s') = map fst (gs_calls s)" by cases (simp_all add: map_fst_update)
  with step(3) show ?case by simp
qed (simp add: gate_start_def comp_def)

text \<open>
  A call is over, or asleep for a key that a torn operation has left in flight.  \<open>finished\<close> is the same
  without torn operations.
\<close>

definition finished :: "'r gate_system \<Rightarrow> bool" where
  "finished s \<longleftrightarrow> (\<forall>i < length (gs_calls s). \<exists>res. phase_of s i = Finished res)"

definition torn :: "'r gate_system \<Rightarrow> nat \<Rightarrow> bool" where
  "torn s i \<longleftrightarrow> i < length (gs_calls s) \<and> (\<exists>c. phase_of s i = Torn c)"

definition settled :: "'r gate_system \<Rightarrow> bool" where
  "settled s \<longleftrightarrow> (\<forall>i < length (gs_calls s). (\<exists>res. phase_of s i = Finished res) \<or> torn s i \<or>
     (phase_of s i = Waiting \<and> (\<exists>j. torn s j \<and> key_of s j = key_of s i)))"

lemma call_at: "i < length (gs_calls s) \<Longrightarrow> phase_of s i = p \<Longrightarrow> gs_calls s ! i = (key_of s i, p)"
  by (simp add: key_of_def phase_of_def prod_eq_iff)

lemma entering_step:
  assumes i: "i < length (gs_calls s)" "phase_of s i = Entering"
  shows "\<exists>s'. gate_step s s'"
proof -
  note c = call_at [OF i]
  obtain entry g' where e: "gate_enter i (key_of s i) (gs_gate s) = (entry, g')" by (cases "gate_enter i (key_of s i) (gs_gate s)")
  show ?thesis
  proof (cases entry)
    case Wait
    with gate_step.block [OF i(1) c] e show ?thesis by blast
  next
    case (Cached r)
    with gate_step.answer [OF i(1) c] e show ?thesis by blast
  next
    case Claimed
    with gate_step.claim [OF i(1) c] e show ?thesis by blast
  qed
qed

lemma stuck_settled:
  assumes inv: "gate_inv s" and stuck: "\<nexists>s'. gate_step s s'"
  shows "settled s"
  unfolding settled_def
proof (intro allI impI)
  fix i assume i: "i < length (gs_calls s)"
  have not_running: "phase_of s j \<noteq> Running" if "j < length (gs_calls s)" for j
    using gate_step.leave [OF that call_at [OF that]] stuck by blast
  show "(\<exists>res. phase_of s i = Finished res) \<or> torn s i \<or> (phase_of s i = Waiting \<and> (\<exists>j. torn s j \<and> key_of s j = key_of s i))"
  proof (cases "phase_of s i")
    case Entering
    with entering_step [OF i] stuck show ?thesis by blast
  next
    case Waiting
    with gate_step.wake [OF i call_at [OF i]] stuck have "i \<in> set (dg_waiters (gs_gate s))" by blast
    with gate_invD(8) [OF inv] have "key_of s i \<in> dg_inflight (gs_gate s)" by (auto simp: sleepers_ok_def)
    with gate_invD(1) [OF inv] obtain j where j: "j \<in> holders s" "key_of s j = key_of s i" by auto
    with not_running have "torn s j" by (auto simp: holders_def holds_iff torn_def calls_of_def)
    with Waiting j show ?thesis by blast
  next
    case Running
    with not_running [OF i] show ?thesis by blast
  next
    case (Torn c)
    with i show ?thesis by (auto simp: torn_def)
  qed blast
qed

text \<open>A torn operation leaves its key without a receipt, and no call with the key returns one.\<close>

lemma torn_key_never_answered:
  assumes run: "gate_run keys s n" and j: "torn s j"
  shows "key_of s j \<in> dg_inflight (gs_gate s) \<and> map_of (dg_completed (gs_gate s)) (key_of s j) = None"
proof -
  note inv = gate_invD [OF gate_run_inv [OF run]]
  have "j \<in> holders s" using j by (auto simp: torn_def holders_def holds_iff calls_of_def)
  with inv(1) have f: "key_of s j \<in> dg_inflight (gs_gate s)" by blast
  with inv(3) have "key_of s j \<notin> dom (map_of (dg_completed (gs_gate s)))" by blast
  with f show ?thesis by (simp add: domIff)
qed

section \<open>The gate under interleaving\<close>

text \<open>C15: The gate is linearizable.  However the critical sections of concurrent calls interleave, the calls
  that have finished, taken in the order in which they finished, return what the same calls would return
  if each were one atomic step that answers from the recorded receipts or runs its operation and records
  a receipt; the receipts recorded are those of that atomic execution.\<close>

theorem dedup_linearizable:
  assumes "gate_run keys s n"
  shows "replay ((!) keys) (gs_log s) Map.empty = Some (map_of (dg_completed (gs_gate s))) \<and>
    distinct (map fst (gs_log s)) \<and>
    set (map fst (gs_log s)) = {i. i < length keys \<and> (\<exists>res. phase_of s i = Finished res)} \<and>
    (\<forall>i did res. (i, did, res) \<in> set (gs_log s) \<longrightarrow> phase_of s i = Finished res)"
proof -
  note inv = gate_invD [OF gate_run_inv [OF assms]] and keys = gate_run_keys [OF assms]
  have n: "length (gs_calls s) = length keys" using keys by (metis length_map)
  have "set (map fst (gs_log s)) = {i. i < length keys \<and> (\<exists>res. phase_of s i = Finished res)}"
    using inv(5,6) by (fastforce simp: calls_of_def n)
  moreover have "replay ((!) keys) (gs_log s) Map.empty = replay (key_of s) (gs_log s) Map.empty"
  proof (rule replay_cong)
    fix i did res assume "(i, did, res) \<in> set (gs_log s)"
    with inv(5) have "i < length (gs_calls s)" by (auto simp: calls_of_def)
    with keys show "keys ! i = key_of s i" by (metis key_of_def nth_map)
  qed
  ultimately show ?thesis using inv(4,5,7) by simp
qed

text \<open>C27: Exactly once.  In every interleaving at most one call per key runs its operation at a time, the
  operation succeeds at most once per key, and all calls with one key that return a receipt return the
  same receipt.\<close>

theorem dedup_exactly_once:
  assumes "gate_run keys s n"
  shows "length (successes (key_of s) k (gs_log s)) \<le> 1 \<and>
    (\<forall>i j. i < length keys \<longrightarrow> j < length keys \<longrightarrow> key_of s i = key_of s j \<longrightarrow>
      (phase_of s i = Running \<longrightarrow> phase_of s j = Running \<longrightarrow> i = j) \<and>
      (\<forall>r q. phase_of s i = Finished (Inr r) \<longrightarrow> phase_of s j = Finished (Inr q) \<longrightarrow> r = q))"
proof -
  note inv = gate_invD [OF gate_run_inv [OF assms]] and keys = gate_run_keys [OF assms]
  have n: "length (gs_calls s) = length keys" using keys by (metis length_map)
  have once: "length (successes (key_of s) k (gs_log s)) \<le> 1" using successes_once [OF inv(7), of k] by simp
  have receipt: "map_of (dg_completed (gs_gate s)) (key_of s i) = Some r"
    if "i < length keys" "phase_of s i = Finished (Inr r)" for i r
  proof -
    from that inv(6) obtain did res where l: "(i, did, res) \<in> set (gs_log s)" by (fastforce simp: calls_of_def n)
    with inv(5) that have "res = Inr r" by fastforce
    with replay_receipt [OF inv(7)] l show ?thesis by simp
  qed
  have "i = j" if "i < length keys" "j < length keys" "key_of s i = key_of s j"
    "phase_of s i = Running" "phase_of s j = Running" for i j
    using inj_onD [OF inv(2) that(3)] that by (simp add: holders_def calls_of_def n)
  moreover have "r = q" if "i < length keys" "j < length keys" "key_of s i = key_of s j"
    "phase_of s i = Finished (Inr r)" "phase_of s j = Finished (Inr q)" for i j r q
    using receipt [of i r] receipt [of j q] that by simp
  ultimately show ?thesis using once by blast
qed

text \<open>C28: No wake-up is lost and no interleaving runs for ever.  The calls take at most
  \<open>n * (2 * n + 3)\<close> steps in all for \<open>n\<close> calls, sleeping and waking included.  When no call can go on,
  every call has returned or raised, or it sleeps for the key of an operation that an exception outside
  \<open>Exception\<close> has left; without such an exception every call has returned or raised (an operation is
  taken to end when its call is scheduled).\<close>

theorem dedup_no_deadlock:
  assumes "gate_run keys s n"
  shows "n \<le> length keys * (2 * length keys + 3) \<and> ((\<exists>s'. gate_step s s') \<or> settled s) \<and>
    ((\<exists>s'. gate_step s s') \<or> finished s \<or> (\<exists>i. torn s i))"
proof -
  have "n \<le> length keys * (2 * length keys + 3)" using gate_run_bound [OF assms] by linarith
  moreover have settled: "(\<exists>s'. gate_step s s') \<or> settled s"
    using stuck_settled [OF gate_run_inv [OF assms]] by blast
  moreover have "settled s \<Longrightarrow> finished s \<or> (\<exists>i. torn s i)" by (auto simp: settled_def finished_def)
  ultimately show ?thesis by blast
qed

text \<open>
  Three calls with one key: the first claims it, the second falls asleep, the first raises and wakes the
  second, which runs the operation; the third is answered from the receipt of the second.
\<close>

definition sample_calls :: "string list" where
  "sample_calls = [''a'', ''a'', ''a'']"

definition sample_end :: "string gate_system" where
  "sample_end = \<lparr>gs_gate = \<lparr>dg_inflight = {}, dg_completed = [(''a'', ''r'')], dg_waiters = []\<rparr>,
     gs_calls = [(''a'', Finished (Inl (RuntimeError ''x''))), (''a'', Finished (Inr ''r'')), (''a'', Finished (Inr ''r''))],
     gs_log = [(0, True, Inl (RuntimeError ''x'')), (1, True, Inr ''r''), (2, False, Inr ''r'')]\<rparr>"

lemma sample_gate_run: "gate_run sample_calls sample_end 7"
proof -
  let ?e = "RuntimeError ''x''"
  let ?sys = "\<lambda>g cs l. \<lparr>gs_gate = g, gs_calls = map (Pair ''a'') cs, gs_log = l\<rparr> :: string gate_system"
  let ?free = "\<lparr>dg_inflight = {}, dg_completed = [], dg_waiters = []\<rparr>"
  let ?busy = "\<lambda>ws. \<lparr>dg_inflight = {''a''}, dg_completed = [], dg_waiters = ws\<rparr>"
  let ?full = "\<lparr>dg_inflight = {}, dg_completed = [(''a'', ''r'')], dg_waiters = []\<rparr>"
  have "gate_run sample_calls (?sys ?free [Entering, Entering, Entering] []) 0"
    using gate_run.start [of sample_calls] by (simp add: gate_start_def new_gate_def sample_calls_def)
  from gate_run.step [OF this gate_step.claim [where i = 0 and key = "''a''" and g' = "?busy []"]]
  have "gate_run sample_calls (?sys (?busy []) [Running, Entering, Entering] []) 1" by (simp add: gate_enter_def)
  from gate_run.step [OF this gate_step.block [where i = 1 and key = "''a''" and g' = "?busy [1]"]]
  have "gate_run sample_calls (?sys (?busy [1]) [Running, Waiting, Entering] []) 2"
    by (simp add: gate_enter_def eval_nat_numeral)
  from gate_run.step [OF this gate_step.leave [where i = 0 and key = "''a''" and res = "Inl ?e"]]
  have "gate_run sample_calls (?sys ?free [Finished (Inl ?e), Waiting, Entering] [(0, True, Inl ?e)]) 3"
    by (simp add: gate_leave_def outcome_of_def eval_nat_numeral)
  from gate_run.step [OF this gate_step.wake [where i = 1 and key = "''a''"]]
  have "gate_run sample_calls (?sys ?free [Finished (Inl ?e), Entering, Entering] [(0, True, Inl ?e)]) 4"
    by (simp add: eval_nat_numeral)
  from gate_run.step [OF this gate_step.claim [where i = 1 and key = "''a''" and g' = "?busy []"]]
  have "gate_run sample_calls (?sys (?busy []) [Finished (Inl ?e), Running, Entering] [(0, True, Inl ?e)]) 5"
    by (simp add: gate_enter_def eval_nat_numeral)
  from gate_run.step [OF this gate_step.leave [where i = 1 and key = "''a''" and res = "Inr ''r''"]]
  have "gate_run sample_calls (?sys ?full [Finished (Inl ?e), Finished (Inr ''r''), Entering]
      [(0, True, Inl ?e), (1, True, Inr ''r'')]) 6"
    by (simp add: gate_leave_def outcome_of_def eval_nat_numeral)
  from gate_run.step [OF this gate_step.answer [where i = 2 and key = "''a''" and receipt = "''r''" and g' = ?full]]
  show ?thesis by (simp add: gate_enter_def sample_end_def eval_nat_numeral)
qed

text \<open>With an exception outside \<open>Exception\<close> a second call with the key sleeps for ever.\<close>

lemma torn_key_blocks:
  "\<exists>s. gate_run [''a'', ''a''] s 3 \<and> phase_of s 1 = Waiting \<and> (\<nexists>s' :: string gate_system. gate_step s s')"
proof -
  let ?sys = "\<lambda>g cs. \<lparr>gs_gate = g, gs_calls = map (Pair ''a'') cs, gs_log = []\<rparr> :: string gate_system"
  let ?free = "\<lparr>dg_inflight = {}, dg_completed = [], dg_waiters = []\<rparr>"
  let ?busy = "\<lambda>ws. \<lparr>dg_inflight = {''a''}, dg_completed = [], dg_waiters = ws\<rparr>"
  let ?last = "?sys (?busy [1]) [Torn ''KeyboardInterrupt'', Waiting]"
  have "gate_run [''a'', ''a''] (?sys ?free [Entering, Entering]) 0"
    using gate_run.start [of "[''a'', ''a'']"] by (simp add: gate_start_def new_gate_def)
  from gate_run.step [OF this gate_step.claim [where i = 0 and key = "''a''" and g' = "?busy []"]]
  have "gate_run [''a'', ''a''] (?sys (?busy []) [Running, Entering]) 1" by (simp add: gate_enter_def)
  from gate_run.step [OF this gate_step.block [where i = 1 and key = "''a''" and g' = "?busy [1]"]]
  have "gate_run [''a'', ''a''] (?sys (?busy [1]) [Running, Waiting]) 2"
    by (simp add: gate_enter_def eval_nat_numeral)
  from gate_run.step [OF this gate_step.escape [where i = 0 and key = "''a''" and c = "''KeyboardInterrupt''"]]
  have run: "gate_run [''a'', ''a''] ?last 3" by (simp add: gate_leave_def eval_nat_numeral)
  have "\<not> gate_step ?last s'" for s' :: "string gate_system"
    by (auto elim!: gate_step.cases simp: less_Suc_eq)
  with run show ?thesis by (intro exI [of _ ?last]) (simp add: phase_of_def)
qed

theorem dedup_linearizable_witness:
  "replay ((!) sample_calls) (gs_log sample_end) Map.empty = Some (map_of (dg_completed (gs_gate sample_end))) \<and>
   set (map fst (gs_log sample_end)) = {0, 1, 2}"
proof -
  have "set (map fst (gs_log sample_end)) = {0, 1, 2}" by (simp add: sample_end_def)
  with dedup_linearizable [OF sample_gate_run] show ?thesis by blast
qed

theorem dedup_exactly_once_witness:
  "length (successes (key_of sample_end) ''a'' (gs_log sample_end)) = 1 \<and>
   phase_of sample_end 1 = phase_of sample_end 2"
proof -
  have e: "phase_of sample_end 1 = Finished (Inr ''r'')" "phase_of sample_end 2 = Finished (Inr ''r'')"
    "successes (key_of sample_end) ''a'' (gs_log sample_end) \<noteq> []"
    by (simp_all add: sample_end_def phase_of_def successes_def key_of_def)
  with dedup_exactly_once [OF sample_gate_run, of "''a''"] show ?thesis
    by (metis One_nat_def Suc_leI le_antisym length_greater_0_conv)
qed

theorem dedup_no_deadlock_witness:
  "7 \<le> length sample_calls * (2 * length sample_calls + 3) \<and> finished sample_end"
proof -
  have "\<not> gate_step sample_end s'" for s'
    by (auto elim!: gate_step.cases simp: sample_end_def less_Suc_eq)
  moreover have "\<not> torn sample_end i" for i
    by (cases "i = 0"; cases "i = 1"; cases "i = 2") (auto simp: torn_def sample_end_def phase_of_def)
  ultimately show ?thesis using dedup_no_deadlock [OF sample_gate_run] by blast
qed

end
