(* ===== verification/Ingress.thy ===== *)
theory Ingress
  imports Known_Common Dedup_Gate
begin

text \<open>
  The single physical ingress of the world understanding layer: the envelope contract
  (\<open>src/contracts/world_understanding/ingress.py\<close>), the scope guard of envelopes and compiled records
  (\<open>src/world_understanding/scope_guard.py\<close>) and the pipeline of \<open>src/world_understanding/ingress/\<close>: validation,
  idempotency gate, compiler registry, compiler output boundary, router and receipts, with the facade
  of \<open>src/world_understanding/facade.py\<close>.  Source compilers and the two handlers are values the program
  passes in: a compiler is a function of the envelope that returns or raises, a handler also acts on the
  state \<open>w\<close> of the rest of the program.  \<open>payload_inline\<close> is the list of items of the dict.
\<close>

section \<open>The envelope\<close>

definition IngressKind :: "string list" where
  "IngressKind = [''SOURCE_RECORD'', ''CONTEXT_REQUEST'']"

record ingress_envelope =
  ie_envelope_id :: string
  ie_envelope_kind :: string
  ie_source_kind :: string
  ie_source_native_id :: string
  ie_producer_ref :: string
  ie_payload_inline :: "(ustring \<times> pyval) list option"
  ie_payload_ref :: "world_source_ref option"
  ie_payload_sha256 :: string
  ie_source_time :: world_time
  ie_life_id :: string
  ie_run_id :: "string option"
  ie_request_id :: "string option"
  ie_session_id :: "string option"
  ie_conversation_id :: "string option"
  ie_workspace_id :: "string option"
  ie_principal_scope_hash :: "string option"
  ie_scope_hint :: world_scope
  ie_native_provenance_refs :: "world_source_ref list"
  ie_native_authority_domain :: "string option"
  ie_observability_hint :: "observability_state option"
  ie_integrity_ref :: "record_ref option"
  ie_correlation_id :: string
  ie_dedup_key :: string

definition derive_ingress_dedup_key ::
    "(nat list \<Rightarrow> string) \<Rightarrow> string \<Rightarrow> string \<Rightarrow> string \<Rightarrow> string \<Rightarrow> string \<Rightarrow> string result" where
  "derive_ingress_dedup_key H envelope_kind source_kind source_native_id payload_sha256 world_scope_hash =
     canonical_sha256 H (jobj
       [(''domain'', jstr ''tiangong.world.ingress-dedup.v1''), (''envelope_kind'', jstr envelope_kind),
        (''source_kind'', jstr source_kind), (''source_native_id'', jstr source_native_id),
        (''payload_sha256'', jstr payload_sha256), (''world_scope_hash'', jstr world_scope_hash)])"

definition derive_ingress_envelope_id :: "(nat list \<Rightarrow> string) \<Rightarrow> string \<Rightarrow> string result" where
  "derive_ingress_envelope_id H dedup_key =
     bind_result (canonical_sha256 H (jobj
       [(''domain'', jstr ''tiangong.world.ingress-id.v1''), (''dedup_key'', jstr dedup_key)]))
       (\<lambda>h. Inr (''wing_'' @ h))"

definition payload_value :: "(ustring \<times> pyval) list \<Rightarrow> pyval" where
  "payload_value items = PMapping (map (\<lambda>(k, v). (KStr k, v)) items)"

definition validate_inline_payload :: "(ustring \<times> pyval) list option \<Rightarrow> unit result" where
  "validate_inline_payload value =
     (case value of
        None \<Rightarrow> Inr ()
      | Some items \<Rightarrow> bind_result (canonical_json_bytes (payload_value items)) (\<lambda>encoded.
          if length encoded > 262144 then invalid ''inline world payload exceeds 256 KiB'' else Inr ()))"

definition ingress_fields_ok :: "ingress_envelope \<Rightarrow> bool" where
  "ingress_fields_ok e \<longleftrightarrow>
     prefixed_sha256 ''wing_'' (ie_envelope_id e) \<and> ie_envelope_kind e \<in> set IngressKind \<and>
     ie_source_kind e \<in> set SourceKind \<and> OpaqueId (ie_source_native_id e) \<and> OpaqueId (ie_producer_ref e) \<and>
     Sha256 (ie_payload_sha256 e) \<and> OpaqueId (ie_life_id e) \<and>
     opt_ok OpaqueId (ie_run_id e) \<and> opt_ok OpaqueId (ie_request_id e) \<and> opt_ok OpaqueId (ie_session_id e) \<and>
     opt_ok OpaqueId (ie_conversation_id e) \<and> opt_ok OpaqueId (ie_workspace_id e) \<and>
     opt_ok Sha256 (ie_principal_scope_hash e) \<and> length (ie_native_provenance_refs e) \<le> 4096 \<and>
     opt_ok (\<lambda>d. d \<in> set AuthorityDomain) (ie_native_authority_domain e) \<and>
     opt_ok record_ref_fields_ok (ie_integrity_ref e) \<and> OpaqueId (ie_correlation_id e) \<and> Sha256 (ie_dedup_key e)"

definition nested_ok :: "(nat list \<Rightarrow> string) \<Rightarrow> (ustring \<Rightarrow> ustring) \<Rightarrow> ingress_envelope \<Rightarrow> bool" where
  "nested_ok H nfc e \<longleftrightarrow>
     opt_ok (\<lambda>r. ok (WorldSourceRef nfc r)) (ie_payload_ref e) \<and> ok (WorldTime (ie_source_time e)) \<and>
     ok (WorldScope H nfc (ie_scope_hint e)) \<and>
     list_all (\<lambda>r. ok (WorldSourceRef nfc r)) (ie_native_provenance_refs e) \<and>
     opt_ok (\<lambda>s. ok (ObservabilityState s)) (ie_observability_hint e)"

definition validate_payload :: "(nat list \<Rightarrow> string) \<Rightarrow> ingress_envelope \<Rightarrow> unit result" where
  "validate_payload H e =
     (if (ie_payload_inline e = None) = (ie_payload_ref e = None)
      then invalid ''ingress payload must be exactly one of inline or ref''
      else case ie_payload_inline e of
          Some items \<Rightarrow> bind_result (canonical_sha256 H (payload_value items)) (\<lambda>h.
            if h \<noteq> ie_payload_sha256 e then invalid ''inline payload hash mismatch'' else Inr ())
        | None \<Rightarrow> (case ie_payload_ref e of
            Some r \<Rightarrow> if ws_sha256 r \<noteq> ie_payload_sha256 e then invalid ''payload_ref hash mismatch'' else Inr ()
          | None \<Rightarrow> Inr ()))"

definition validate_kind :: "ingress_envelope \<Rightarrow> unit result" where
  "validate_kind e =
     (if ie_life_id e \<noteq> sc_life_id (ie_scope_hint e) then invalid ''ingress life_id does not match scope_hint.life_id''
      else if ie_principal_scope_hash e \<noteq> None \<and> ie_principal_scope_hash e \<noteq> Some (sc_principal_scope_hash (ie_scope_hint e))
      then invalid ''ingress principal_scope_hash does not match scope_hint.principal_scope_hash''
      else if ie_envelope_kind e = ''CONTEXT_REQUEST''
      then (if ie_source_kind e \<noteq> ''CONTEXT_REQUEST'' then invalid ''CONTEXT_REQUEST envelope requires CONTEXT_REQUEST source_kind''
        else if ie_native_authority_domain e \<noteq> None then invalid ''context request cannot carry native reality authority''
        else Inr ())
      else if ie_source_kind e = ''CONTEXT_REQUEST'' then invalid ''SOURCE_RECORD cannot use CONTEXT_REQUEST source_kind''
      else Inr ())"

definition validate_ingress_ids :: "(nat list \<Rightarrow> string) \<Rightarrow> ingress_envelope \<Rightarrow> unit result" where
  "validate_ingress_ids H e =
     bind_result (derive_ingress_dedup_key H (ie_envelope_kind e) (ie_source_kind e) (ie_source_native_id e)
       (ie_payload_sha256 e) (sc_world_scope_hash (ie_scope_hint e))) (\<lambda>expected_dedup.
     if ie_dedup_key e \<noteq> expected_dedup then invalid ''ingress dedup key mismatch''
     else bind_result (derive_ingress_envelope_id H (ie_dedup_key e)) (\<lambda>expected_id.
       if ie_envelope_id e \<noteq> expected_id then invalid ''ingress envelope id mismatch'' else Inr ()))"

text \<open>A \<open>ValueError\<close> raised inside a validator reaches the caller as a \<open>ValidationError\<close>.\<close>

definition in_validator :: "'a result \<Rightarrow> 'a result" where
  "in_validator r = (case r of Inl (ValueError m) \<Rightarrow> invalid m | _ \<Rightarrow> r)"

lemma in_validator_eq_Inr [simp]: "in_validator r = Inr x \<longleftrightarrow> r = Inr x"
  by (auto simp: in_validator_def invalid_def split: sum.splits py_error.splits)

definition WorldIngressEnvelope ::
    "(nat list \<Rightarrow> string) \<Rightarrow> (ustring \<Rightarrow> ustring) \<Rightarrow> ingress_envelope \<Rightarrow> ingress_envelope result" where
  "WorldIngressEnvelope H nfc e =
     (if \<not> ingress_fields_ok e \<or> \<not> nested_ok H nfc e then invalid ''field constraint''
      else in_validator (
        bind_result (validate_inline_payload (ie_payload_inline e)) (\<lambda>_.
        bind_result (validate_payload H e) (\<lambda>_.
        bind_result (validate_kind e) (\<lambda>_.
        bind_result (validate_ingress_ids H e) (\<lambda>_. Inr e))))))"

section \<open>The scope guard\<close>

definition scope_error :: "string \<Rightarrow> 'a result" where
  "scope_error code = Inl (Raised ''ScopeMismatchError'' code)"

definition require_envelope_scope :: "ingress_envelope \<Rightarrow> unit result" where
  "require_envelope_scope e =
     (if ie_life_id e \<noteq> sc_life_id (ie_scope_hint e) then scope_error ''SCOPE_MISMATCH''
      else if ie_principal_scope_hash e \<noteq> None \<and> ie_principal_scope_hash e \<noteq> Some (sc_principal_scope_hash (ie_scope_hint e))
      then scope_error ''PRINCIPAL_SCOPE_MISMATCH''
      else Inr ())"

definition require_direct_known_scope :: "ingress_envelope \<Rightarrow> known_record \<Rightarrow> direct_source \<Rightarrow> unit result" where
  "require_direct_known_scope e k d =
     bind_result (require_envelope_scope e) (\<lambda>_.
     bind_result (require_same_world_scope (ie_scope_hint e) (kr_world_scope k)) (\<lambda>_.
     if ds_source_envelope_id d \<noteq> ie_envelope_id e then scope_error ''SOURCE_ENVELOPE_MISMATCH''
     else if ds_source_kind d \<noteq> ie_source_kind e \<or> ds_source_native_id d \<noteq> ie_source_native_id e
     then scope_error ''SOURCE_LINEAGE_MISMATCH''
     else if ds_source_payload_hash d \<noteq> ie_payload_sha256 e then scope_error ''SOURCE_PAYLOAD_MISMATCH''
     else Inr ()))"

text \<open>
  What a caller hands to the ingress: an envelope, or an object of another class with the attributes
  \<open>envelope_id\<close>, \<open>dedup_key\<close> and \<open>correlation_id\<close> it may have, as strings.
\<close>

datatype ingress_object = Envelope ingress_envelope | OtherObject "string option" "string option" "string option"

fun validate_ingress_envelope ::
    "(nat list \<Rightarrow> string) \<Rightarrow> (ustring \<Rightarrow> ustring) \<Rightarrow> ingress_object \<Rightarrow> string + ingress_envelope" where
  "validate_ingress_envelope H nfc (OtherObject i k c) = Inl ''INVALID_ENVELOPE_TYPE''"
| "validate_ingress_envelope H nfc (Envelope e) =
     (case bind_result (require_envelope_scope e) (\<lambda>_. WorldIngressEnvelope H nfc e) of
        Inr v \<Rightarrow> Inr v
      | Inl (Raised cls m) \<Rightarrow> Inl (if cls = ''ScopeMismatchError'' then m else ''MALFORMED_ENVELOPE'')
      | Inl _ \<Rightarrow> Inl ''MALFORMED_ENVELOPE'')"

section \<open>Receipts\<close>

record ingress_receipt =
  rc_schema_version :: string
  rc_receipt_id :: string
  rc_envelope_id :: string
  rc_dedup_key :: string
  rc_correlation_id :: string
  rc_disposition :: string
  rc_reason_code :: string
  rc_processed :: bool
  rc_ack_only :: bool
  rc_semantic_output :: bool
  rc_may_authorize :: bool
  rc_may_execute :: bool
  rc_empirical_evidence_weight_milli :: int
  rc_receipt_sha256 :: string

definition derive_receipt_id :: "(nat list \<Rightarrow> string) \<Rightarrow> string \<Rightarrow> string \<Rightarrow> string \<Rightarrow> string \<Rightarrow> string result" where
  "derive_receipt_id H envelope_id dedup_key disposition reason_code =
     bind_result (canonical_sha256 H (jobj
       [(''domain'', jstr ''tiangong.world.ingress-receipt-id.v1''), (''envelope_id'', jstr envelope_id),
        (''dedup_key'', jstr dedup_key), (''disposition'', jstr disposition), (''reason_code'', jstr reason_code)]))
       (\<lambda>h. Inr (''wrcpt_'' @ h))"

definition payload_for_hash :: "ingress_receipt \<Rightarrow> (string \<times> pyval) list" where
  "payload_for_hash r =
     [(''schema_version'', jstr (rc_schema_version r)), (''receipt_id'', jstr (rc_receipt_id r)),
      (''envelope_id'', jstr (rc_envelope_id r)), (''dedup_key'', jstr (rc_dedup_key r)),
      (''correlation_id'', jstr (rc_correlation_id r)), (''disposition'', jstr (rc_disposition r)),
      (''reason_code'', jstr (rc_reason_code r)), (''processed'', PBool (rc_processed r)),
      (''ack_only'', PBool (rc_ack_only r)), (''semantic_output'', PBool (rc_semantic_output r)),
      (''may_authorize'', PBool (rc_may_authorize r)), (''may_execute'', PBool (rc_may_execute r)),
      (''empirical_evidence_weight_milli'', PInt (rc_empirical_evidence_weight_milli r))]"

definition has_valid_receipt_sha256 :: "(nat list \<Rightarrow> string) \<Rightarrow> ingress_receipt \<Rightarrow> bool result" where
  "has_valid_receipt_sha256 H r = has_valid_sha256 H (payload_for_hash r) (rc_receipt_sha256 r)"

definition unhashed_receipt :: "string \<Rightarrow> string \<Rightarrow> string \<Rightarrow> string \<Rightarrow> string \<Rightarrow> string \<Rightarrow> bool \<Rightarrow> ingress_receipt" where
  "unhashed_receipt receipt_id envelope_id dedup_key correlation_id disposition reason_code processed =
     \<lparr>rc_schema_version = ''tiangong.world-understanding.ingress-receipt.v1'', rc_receipt_id = receipt_id,
      rc_envelope_id = envelope_id, rc_dedup_key = dedup_key, rc_correlation_id = correlation_id,
      rc_disposition = disposition, rc_reason_code = reason_code, rc_processed = processed, rc_ack_only = True,
      rc_semantic_output = False, rc_may_authorize = False, rc_may_execute = False,
      rc_empirical_evidence_weight_milli = 0, rc_receipt_sha256 = []\<rparr>"

definition make_receipt ::
    "(nat list \<Rightarrow> string) \<Rightarrow> string \<Rightarrow> string \<Rightarrow> string \<Rightarrow> string \<Rightarrow> string \<Rightarrow> bool \<Rightarrow> ingress_receipt result" where
  "make_receipt H envelope_id dedup_key correlation_id disposition reason_code processed =
     bind_result (derive_receipt_id H envelope_id dedup_key disposition reason_code) (\<lambda>receipt_id.
     let receipt = unhashed_receipt receipt_id envelope_id dedup_key correlation_id disposition reason_code processed
     in bind_result (canonical_sha256 H (jobj (payload_for_hash receipt))) (\<lambda>h. Inr (receipt\<lparr>rc_receipt_sha256 := h\<rparr>)))"

interpretation receipt_seal: sealed_contract payload_for_hash rc_receipt_sha256 "\<lambda>h r. r\<lparr>rc_receipt_sha256 := h\<rparr>"
  by unfold_locales (simp_all add: payload_for_hash_def)

section \<open>Compilers\<close>

text \<open>
  A compiler returns \<open>None\<close>, one object, a tuple of objects, or something else; an object is a Known record
  or of another class.
\<close>

datatype compiled_object = Record known_record | OtherClass

datatype compiler_output = NoOutput | SingleObject compiled_object | ObjectTuple "compiled_object list"

type_synonym compiler = "ingress_envelope \<Rightarrow> compiler_output result"

type_synonym compiler_registry = "(string \<times> compiler) list"

definition register_compiler ::
    "string \<Rightarrow> compiler \<Rightarrow> bool \<Rightarrow> compiler_registry \<Rightarrow> compiler_registry result" where
  "register_compiler source_kind compiler replace r =
     (if source_kind = [] then Inl (ValueError ''source_kind and callable compiler are required'')
      else if map_of r source_kind \<noteq> None \<and> \<not> replace
      then Inl (ValueError (''compiler already registered for '' @ source_kind))
      else Inr (dict_set source_kind compiler r))"

definition resolve :: "compiler_registry \<Rightarrow> string \<Rightarrow> compiler option" where
  "resolve r source_kind = map_of r source_kind"

definition registered_source_kinds :: "compiler_registry \<Rightarrow> string list" where
  "registered_source_kinds r = sort (map fst r)"

fun check_rows :: "ingress_envelope \<Rightarrow> string set \<Rightarrow> compiled_object list \<Rightarrow> known_record list result" where
  "check_rows e seen [] = Inr []"
| "check_rows e seen (row # rest) =
     (case row of
        Record k \<Rightarrow> (case kr_derivation k of
            Direct d \<Rightarrow> bind_result (require_direct_known_scope e k d) (\<lambda>_.
              if kr_known_id k \<in> seen then Inl (ValueError ''source compiler returned duplicate known_id'')
              else bind_result (check_rows e (insert (kr_known_id k) seen) rest) (\<lambda>ks. Inr (k # ks)))
          | Derived _ \<Rightarrow> Inl (TypeError ''source compiler returned non-DirectKnownRecord''))
      | OtherClass \<Rightarrow> Inl (TypeError ''source compiler returned non-DirectKnownRecord''))"

fun direct_object :: "compiled_object \<Rightarrow> bool" where
  "direct_object (Record k) = (case kr_derivation k of Direct _ \<Rightarrow> True | Derived _ \<Rightarrow> False)"
| "direct_object OtherClass = False"

fun validate_compiler_output :: "ingress_envelope \<Rightarrow> compiler_output \<Rightarrow> known_record list result" where
  "validate_compiler_output e NoOutput = Inr []"
| "validate_compiler_output e (SingleObject x) =
     (if direct_object x then check_rows e {} [x]
      else Inl (TypeError ''source compiler must return DirectKnownRecord, tuple[DirectKnownRecord,...], or None''))"
| "validate_compiler_output e (ObjectTuple rows) = check_rows e {} rows"

section \<open>Routing\<close>

record handler_outcome =
  ho_reason_code :: string
  ho_processed :: bool

record 'w ingress_router =
  ir_registry :: compiler_registry
  ir_context_request_handler :: "(ingress_envelope \<Rightarrow> 'w \<Rightarrow> handler_outcome result \<times> 'w) option"
  ir_source_handler :: "(ingress_envelope \<Rightarrow> known_record list \<Rightarrow> 'w \<Rightarrow> handler_outcome result \<times> 'w) option"

definition receipt_for ::
    "(nat list \<Rightarrow> string) \<Rightarrow> ingress_envelope \<Rightarrow> string \<Rightarrow> string \<Rightarrow> bool \<Rightarrow> ingress_receipt result" where
  "receipt_for H e disposition reason_code processed =
     make_receipt H (ie_envelope_id e) (ie_dedup_key e) (ie_correlation_id e) disposition reason_code processed"

definition accepted :: "(nat list \<Rightarrow> string) \<Rightarrow> ingress_envelope \<Rightarrow> handler_outcome result \<times> 'w \<Rightarrow> ingress_receipt result \<times> 'w" where
  "accepted H e r =
     (bind_result (fst r) (\<lambda>outcome. receipt_for H e ''ACCEPTED'' (ho_reason_code outcome) (ho_processed outcome)), snd r)"

definition route ::
    "(nat list \<Rightarrow> string) \<Rightarrow> 'w ingress_router \<Rightarrow> ingress_envelope \<Rightarrow> 'w \<Rightarrow> ingress_receipt result \<times> 'w" where
  "route H router e w =
     (if ie_envelope_kind e = ''CONTEXT_REQUEST''
      then (case ir_context_request_handler router of
          None \<Rightarrow> (receipt_for H e ''ACCEPTED'' ''CONTEXT_REQUEST_ACCEPTED'' True, w)
        | Some handler \<Rightarrow> accepted H e (handler e w))
      else if ie_source_kind e = ''UNCLASSIFIED_SOURCE''
      then (receipt_for H e ''QUARANTINED'' ''UNCLASSIFIED_SOURCE'' False, w)
      else case resolve (ir_registry router) (ie_source_kind e) of
          None \<Rightarrow> (receipt_for H e ''QUARANTINED'' ''NO_COMPILER_REGISTERED'' False, w)
        | Some compiler \<Rightarrow>
            (case bind_result (compiler e) (validate_compiler_output e) of
               Inl err \<Rightarrow> (Inl err, w)
             | Inr rows \<Rightarrow> (case ir_source_handler router of
                 None \<Rightarrow> (receipt_for H e ''ACCEPTED'' ''SOURCE_ACCEPTED'' True, w)
               | Some handler \<Rightarrow> accepted H e (handler e rows w))))"

section \<open>Acceptance\<close>

text \<open>
  Which of the exception classes a program declares derive from \<open>ValueError\<close> or \<open>TypeError\<close> is the
  parameter \<open>value_error\<close>.
\<close>

fun rejection_reason :: "(string \<Rightarrow> bool) \<Rightarrow> py_error \<Rightarrow> string" where
  "rejection_reason value_error (Raised cls m) =
     (if cls = ''ScopeMismatchError'' then m
      else if value_error cls then ''COMPILER_OUTPUT_INVALID'' else ''COMPILER_FAILURE'')"
| "rejection_reason value_error (ValueError m) = ''COMPILER_OUTPUT_INVALID''"
| "rejection_reason value_error (TypeError m) = ''COMPILER_OUTPUT_INVALID''"
| "rejection_reason value_error (ValidationError m) = ''COMPILER_OUTPUT_INVALID''"
| "rejection_reason value_error _ = ''COMPILER_FAILURE''"

definition default_to :: "string \<Rightarrow> string option \<Rightarrow> string" where
  "default_to d s = (case s of None \<Rightarrow> d | Some t \<Rightarrow> t)"

fun object_ids :: "ingress_object \<Rightarrow> string \<times> string \<times> string" where
  "object_ids (Envelope e) = (ie_envelope_id e, ie_dedup_key e, ie_correlation_id e)"
| "object_ids (OtherObject i k c) = (default_to ''invalid'' i, default_to (hex64 (CHR ''0'')) k, default_to ''invalid'' c)"

definition refuse :: "(nat list \<Rightarrow> string) \<Rightarrow> ingress_object \<Rightarrow> string \<Rightarrow> string \<Rightarrow> ingress_receipt result" where
  "refuse H x disposition reason_code =
     (case object_ids x of (i, k, c) \<Rightarrow> make_receipt H i k c disposition reason_code False)"

definition accept ::
    "(nat list \<Rightarrow> string) \<Rightarrow> (ustring \<Rightarrow> ustring) \<Rightarrow> (string \<Rightarrow> bool) \<Rightarrow> 'w ingress_router \<Rightarrow> ingress_object \<Rightarrow>
      ingress_receipt gate \<times> 'w \<Rightarrow> (ingress_receipt result \<times> ingress_receipt gate \<times> 'w) option" where
  "accept H nfc value_error router x s =
     (case validate_ingress_envelope H nfc x of
        Inl reason \<Rightarrow> Some (refuse H x ''REJECTED'' reason, s)
      | Inr validated \<Rightarrow>
          (case run_once (ie_dedup_key validated) (route H router validated) s of
             None \<Rightarrow> None
           | Some (Inr receipt, s') \<Rightarrow> Some (Inr receipt, s')
           | Some (Inl err, s') \<Rightarrow> Some (receipt_for H validated ''REJECTED'' (rejection_reason value_error err) False, s')))"

definition facade_accept ::
    "(nat list \<Rightarrow> string) \<Rightarrow> (ustring \<Rightarrow> ustring) \<Rightarrow> (string \<Rightarrow> bool) \<Rightarrow> bool \<Rightarrow> 'w ingress_router \<Rightarrow> ingress_object \<Rightarrow>
      ingress_receipt gate \<times> 'w \<Rightarrow> (ingress_receipt result \<times> ingress_receipt gate \<times> 'w) option" where
  "facade_accept H nfc value_error enabled router x s =
     (if \<not> enabled then Some (refuse H x ''OFF_NOOP'' ''WORLD_UNDERSTANDING_DISABLED'', s)
      else accept H nfc value_error router x s)"

section \<open>What validation and routing guarantee\<close>

text \<open>A record that belongs to an envelope: its scope is the hinted one and its source is the envelope.\<close>

definition ingested_from :: "ingress_envelope \<Rightarrow> known_record \<Rightarrow> bool" where
  "ingested_from e k \<longleftrightarrow>
     (\<exists>d. kr_derivation k = Direct d \<and> sc_life_id (kr_world_scope k) = ie_life_id e \<and>
        sc_world_scope_hash (kr_world_scope k) = sc_world_scope_hash (ie_scope_hint e) \<and>
        sc_principal_scope_hash (kr_world_scope k) = sc_principal_scope_hash (ie_scope_hint e) \<and>
        ds_source_envelope_id d = ie_envelope_id e \<and> ds_source_kind d = ie_source_kind e \<and>
        ds_source_native_id d = ie_source_native_id e \<and> ds_source_payload_hash d = ie_payload_sha256 e)"

lemma require_direct_known_scope_ok:
  "kr_derivation k = Direct d \<Longrightarrow> require_direct_known_scope e k d = Inr u \<Longrightarrow> ingested_from e k"
  by (auto simp: ingested_from_def require_direct_known_scope_def require_envelope_scope_def require_same_world_scope_def
      scope_error_def bind_result_eq_Inr split: if_splits)

lemma check_rows_ok:
  "check_rows e seen rows = Inr ks \<Longrightarrow>
     list_all (ingested_from e) ks \<and> distinct (map kr_known_id ks) \<and> kr_known_id ` set ks \<inter> seen = {}"
proof (induction e seen rows arbitrary: ks rule: check_rows.induct)
  case (2 e seen row rest)
  obtain k d where row: "row = Record k" and d: "kr_derivation k = Direct d"
    using 2(2) by (auto split: compiled_object.splits known_derivation.splits)
  obtain u ks' where *: "require_direct_known_scope e k d = Inr u" "kr_known_id k \<notin> seen"
      "check_rows e (insert (kr_known_id k) seen) rest = Inr ks'" "ks = k # ks'"
    using 2(2) by (auto simp: row d bind_result_eq_Inr split: if_splits)
  from 2(1) [OF row d *(2,3)] require_direct_known_scope_ok [OF d *(1)] *(2,4) show ?case by auto
qed simp

lemma validate_compiler_output_ok:
  assumes "validate_compiler_output e out = Inr rows"
  shows "list_all (ingested_from e) rows \<and> distinct (map kr_known_id rows)"
proof -
  have "rows = [] \<or> (\<exists>xs. check_rows e {} xs = Inr rows)"
    using assms by (cases out) (auto simp del: check_rows.simps split: if_splits)
  then show ?thesis using check_rows_ok [of e "{}" _ rows] by auto
qed

lemma validate_ingress_envelope_ok:
  "validate_ingress_envelope H nfc x = Inr v \<longleftrightarrow> x = Envelope v \<and> WorldIngressEnvelope H nfc v = Inr v"
proof -
  have same: "WorldIngressEnvelope H nfc e = Inr v \<Longrightarrow> v = e" for e
    by (auto simp: WorldIngressEnvelope_def invalid_def bind_result_eq_Inr split: if_splits)
  have scope: "WorldIngressEnvelope H nfc e = Inr v \<Longrightarrow> require_envelope_scope e = Inr ()" for e
    by (auto simp: WorldIngressEnvelope_def invalid_def bind_result_eq_Inr validate_kind_def require_envelope_scope_def
        scope_error_def split: if_splits)
  show ?thesis
  proof (cases x)
    case (Envelope e)
    show ?thesis
    proof
      assume "validate_ingress_envelope H nfc x = Inr v"
      then have "bind_result (require_envelope_scope e) (\<lambda>_. WorldIngressEnvelope H nfc e) = Inr v"
        by (auto simp: Envelope split: sum.splits py_error.splits if_splits)
      then have "WorldIngressEnvelope H nfc e = Inr v" by (auto simp: bind_result_eq_Inr)
      with same [OF this] Envelope show "x = Envelope v \<and> WorldIngressEnvelope H nfc v = Inr v" by simp
    next
      assume "x = Envelope v \<and> WorldIngressEnvelope H nfc v = Inr v"
      with scope [of v] show "validate_ingress_envelope H nfc x = Inr v" by simp
    qed
  qed simp
qed

lemma make_receipt_total:
  "\<exists>r. make_receipt H i k c d m p = Inr r \<and> rc_envelope_id r = i \<and> rc_dedup_key r = k \<and> rc_correlation_id r = c \<and>
     rc_disposition r = d \<and> rc_reason_code r = m \<and> rc_processed r = p \<and> has_valid_receipt_sha256 H r = Inr True \<and>
     rc_ack_only r \<and> \<not> rc_may_authorize r \<and> \<not> rc_may_execute r \<and> rc_empirical_evidence_weight_milli r = 0"
proof -
  have "ok (derive_receipt_id H i k d m)" by (simp add: derive_receipt_id_def ok_bind_result ok_canonical_sha256 flip: ok_iff)
  then obtain rid where rid: "derive_receipt_id H i k d m = Inr rid" by (auto simp: ok_iff)
  let ?r = "unhashed_receipt rid i k c d m p"
  have "representable (jobj (payload_for_hash ?r))"
    by (simp add: payload_for_hash_def unhashed_receipt_def MAX_SAFE_INTEGER_def)
  then obtain h where h: "computed_sha256 H (payload_for_hash ?r) = Inr h"
    using ok_canonical_sha256 [of H] unfolding computed_sha256_def by (metis ok_iff)
  have "make_receipt H i k c d m p = Inr (?r\<lparr>rc_receipt_sha256 := h\<rparr>)"
    using h by (simp add: make_receipt_def rid computed_sha256_def Let_def)
  moreover have "has_valid_receipt_sha256 H (?r\<lparr>rc_receipt_sha256 := h\<rparr>) = Inr True"
    unfolding has_valid_receipt_sha256_def by (rule receipt_seal.sealing_is_valid [OF h])
  ultimately show ?thesis by (simp add: unhashed_receipt_def)
qed

section \<open>Routing and the gate\<close>

lemma accepted_world [simp]: "snd (accepted H e r) = snd r"
  by (simp add: accepted_def)

lemma route_world:
  "snd (route H router e w) = w \<or>
   (\<exists>h. ie_envelope_kind e = ''CONTEXT_REQUEST'' \<and> ir_context_request_handler router = Some h \<and>
      snd (route H router e w) = snd (h e w)) \<or>
   (\<exists>h rows. ie_envelope_kind e \<noteq> ''CONTEXT_REQUEST'' \<and> ir_source_handler router = Some h \<and>
      snd (route H router e w) = snd (h e rows w) \<and> list_all (ingested_from e) rows \<and> distinct (map kr_known_id rows))"
proof (cases "ie_envelope_kind e = ''CONTEXT_REQUEST''")
  case True
  then show ?thesis by (cases "ir_context_request_handler router") (simp_all add: route_def)
next
  case kind: False
  show ?thesis
  proof (cases "\<exists>compiler rows h. resolve (ir_registry router) (ie_source_kind e) = Some compiler \<and>
      bind_result (compiler e) (validate_compiler_output e) = Inr rows \<and> ir_source_handler router = Some h \<and>
      ie_source_kind e \<noteq> ''UNCLASSIFIED_SOURCE''")
    case True
    then obtain compiler rows h where *: "resolve (ir_registry router) (ie_source_kind e) = Some compiler"
      "bind_result (compiler e) (validate_compiler_output e) = Inr rows" "ir_source_handler router = Some h"
      "ie_source_kind e \<noteq> ''UNCLASSIFIED_SOURCE''" by blast
    from *(2) obtain out where "validate_compiler_output e out = Inr rows" by (auto simp: bind_result_eq_Inr)
    note rows = validate_compiler_output_ok [OF this]
    have "snd (route H router e w) = snd (h e rows w)" using kind * by (simp add: route_def)
    with kind *(3) rows show ?thesis by blast
  next
    case False
    with kind have "snd (route H router e w) = w"
      by (auto simp: route_def split: option.splits sum.splits)
    then show ?thesis by simp
  qed
qed

lemma run_once_world:
  "run_once k op (g, w) = Some (res, g', w') \<Longrightarrow> w' = w \<or> (map_of (dg_completed g) k = None \<and> w' = snd (op w))"
  by (auto simp: run_once_def gate_enter_def split: if_splits option.splits prod.splits)

lemma accept_cases:
  assumes "accept H nfc value_error router x (g, w) = Some (r, g', w')"
  obtains reason where "validate_ingress_envelope H nfc x = Inl reason" "r = refuse H x ''REJECTED'' reason" "g' = g" "w' = w"
  | e res where "x = Envelope e" "WorldIngressEnvelope H nfc e = Inr e"
      "run_once (ie_dedup_key e) (route H router e) (g, w) = Some (res, g', w')"
      "r = (case res of Inr q \<Rightarrow> Inr q | Inl err \<Rightarrow> receipt_for H e ''REJECTED'' (rejection_reason value_error err) False)"
proof (cases "validate_ingress_envelope H nfc x")
  case (Inl reason)
  with assms that(1) show ?thesis by (simp add: accept_def)
next
  case (Inr e)
  then have e: "x = Envelope e" "WorldIngressEnvelope H nfc e = Inr e" by (simp_all only: validate_ingress_envelope_ok)
  obtain res where "run_once (ie_dedup_key e) (route H router e) (g, w) = Some (res, g', w')"
      "r = (case res of Inr q \<Rightarrow> Inr q | Inl err \<Rightarrow> receipt_for H e ''REJECTED'' (rejection_reason value_error err) False)"
    using assms by (auto simp: accept_def Inr split: option.splits sum.splits prod.splits)
  with e that(2) show ?thesis by blast
qed

text \<open>The receipts the gate holds are sealed acknowledgements of their key.\<close>

definition acknowledges :: "(nat list \<Rightarrow> string) \<Rightarrow> string \<Rightarrow> ingress_receipt \<Rightarrow> bool" where
  "acknowledges H k r \<longleftrightarrow>
     rc_dedup_key r = k \<and> has_valid_receipt_sha256 H r = Inr True \<and> rc_ack_only r \<and> \<not> rc_may_authorize r \<and>
     \<not> rc_may_execute r \<and> rc_empirical_evidence_weight_milli r = 0"

definition gate_ok :: "(nat list \<Rightarrow> string) \<Rightarrow> ingress_receipt gate \<Rightarrow> bool" where
  "gate_ok H g \<longleftrightarrow>
     dg_inflight g = {} \<and> (\<forall>k r. map_of (dg_completed g) k = Some r \<longrightarrow> acknowledges H k r \<and> rc_disposition r \<noteq> ''REJECTED'')"

lemma receipt_for_total:
  "\<exists>r. receipt_for H e d m p = Inr r \<and> acknowledges H (ie_dedup_key e) r \<and> rc_disposition r = d"
  using make_receipt_total [of H "ie_envelope_id e" "ie_dedup_key e" "ie_correlation_id e" d m p]
  unfolding receipt_for_def acknowledges_def by blast

lemma refuse_total:
  "\<exists>r. refuse H x d m = Inr r \<and> acknowledges H (fst (snd (object_ids x))) r \<and> rc_disposition r = d"
proof -
  obtain i k c where x: "object_ids x = (i, k, c)" by (cases "object_ids x") auto
  from make_receipt_total [of H i k c d m False] show ?thesis
    unfolding refuse_def acknowledges_def x by auto
qed

lemma route_receipt:
  assumes "fst (route H router e w) = Inr r"
  shows "acknowledges H (ie_dedup_key e) r \<and> rc_disposition r \<noteq> ''REJECTED''"
proof -
  have "\<exists>d m p. d \<in> {''ACCEPTED'', ''QUARANTINED''} \<and> receipt_for H e d m p = Inr r"
    using assms by (auto simp: route_def accepted_def bind_result_eq_Inr split: if_splits option.splits sum.splits)
  then obtain d m p where d: "d \<in> {''ACCEPTED'', ''QUARANTINED''}" "receipt_for H e d m p = Inr r" by blast
  from receipt_for_total [of H e d m p] d show ?thesis by auto
qed

lemma accept_answers:
  assumes "gate_ok H g"
  shows "\<exists>r g' w'. accept H nfc value_error router x (g, w) = Some (Inr r, g', w') \<and> gate_ok H g' \<and>
    acknowledges H (fst (snd (object_ids x))) r \<and> map_of (dg_completed g) \<subseteq>\<^sub>m map_of (dg_completed g')"
proof (cases "validate_ingress_envelope H nfc x")
  case (Inl reason)
  with refuse_total [of H x "''REJECTED''" reason] assms show ?thesis by (auto simp: accept_def)
next
  case (Inr e)
  then have x: "x = Envelope e" by (simp add: validate_ingress_envelope_ok)
  have idle: "dg_inflight g = {}" using assms by (simp add: gate_ok_def)
  note inr = Inr
  show ?thesis
  proof (rule dedup.run_cases [of g "ie_dedup_key e" "route H router e" w])
    show "dg_inflight g = {}" by (rule idle)
  next
    fix r assume r: "map_of (dg_completed g) (ie_dedup_key e) = Some r"
      "run_once (ie_dedup_key e) (route H router e) (g, w) = Some (Inr r, g, w)"
    with assms have "acknowledges H (ie_dedup_key e) r" by (simp add: gate_ok_def)
    with r inr assms x show ?thesis by (simp add: accept_def)
  next
    fix res w' g'
    assume miss: "map_of (dg_completed g) (ie_dedup_key e) = None" and op: "route H router e w = (res, w')"
      and run: "run_once (ie_dedup_key e) (route H router e) (g, w) = Some (res, g', w')" and g': "dg_inflight g' = {}"
      and m: "map_of (dg_completed g') =
        (case res of Inl _ \<Rightarrow> map_of (dg_completed g) | Inr r \<Rightarrow> (map_of (dg_completed g))(ie_dedup_key e := Some r))"
    show ?thesis
    proof (cases res)
      case (Inl err)
      with receipt_for_total [of H e "''REJECTED''" "rejection_reason value_error err" False] inr run x m g' assms
      show ?thesis by (auto simp: accept_def gate_ok_def)
    next
      case (Inr r)
      with route_receipt [of H router e w r] op
      have r: "acknowledges H (ie_dedup_key e) r" "rc_disposition r \<noteq> ''REJECTED''" by auto
      then have "gate_ok H g'" using assms g' m Inr by (auto simp: gate_ok_def)
      moreover have "map_of (dg_completed g) \<subseteq>\<^sub>m map_of (dg_completed g')" using miss m Inr by (auto simp: map_le_def)
      ultimately show ?thesis using r inr run x Inr by (simp add: accept_def)
    qed
  qed
qed

lemma accept_recorded:
  assumes "gate_ok H g" "accept H nfc value_error router (Envelope e) (g, w) = Some (Inr r, g', w')"
    and "WorldIngressEnvelope H nfc e = Inr e" "rc_disposition r \<noteq> ''REJECTED''"
  shows "map_of (dg_completed g') (ie_dedup_key e) = Some r"
  using assms(2)
proof (rule accept_cases)
  fix reason assume "validate_ingress_envelope H nfc (Envelope e) = Inl reason"
  moreover have "validate_ingress_envelope H nfc (Envelope e) = Inr e" using assms(3) by (simp only: validate_ingress_envelope_ok simp_thms)
  ultimately show ?thesis by simp
next
  fix e' res
  assume e': "Envelope e = Envelope e'" and run: "run_once (ie_dedup_key e') (route H router e') (g, w) = Some (res, g', w')"
    and r: "Inr r = (case res of Inr q \<Rightarrow> Inr q | Inl err \<Rightarrow> receipt_for H e' ''REJECTED'' (rejection_reason value_error err) False)"
  show ?thesis
  proof (cases res)
    case (Inl err)
    with r receipt_for_total [of H e' "''REJECTED''" "rejection_reason value_error err" False] assms(4) show ?thesis by auto
  next
    case (Inr q)
    with r run e' show ?thesis using dedup.run_receipt [of g] assms(1) by (auto simp: gate_ok_def)
  qed
qed

lemma accept_recorded_again:
  assumes "gate_ok H g" "map_of (dg_completed g) (ie_dedup_key e) = Some r" "WorldIngressEnvelope H nfc e = Inr e"
  shows "accept H nfc value_error router (Envelope e) (g, w) = Some (Inr r, g, w)"
proof -
  have "validate_ingress_envelope H nfc (Envelope e) = Inr e" using assms(3) by (simp only: validate_ingress_envelope_ok simp_thms)
  with dedup.answered [of g "ie_dedup_key e" r "route H router e" w] assms show ?thesis by (simp add: accept_def gate_ok_def)
qed

section \<open>The ingress as a whole\<close>

text \<open>
  A sequence of submissions to one ingress: the receipts and the final state, or \<open>None\<close> when a
  submission blocks or raises.
\<close>

fun accept_all ::
    "(nat list \<Rightarrow> string) \<Rightarrow> (ustring \<Rightarrow> ustring) \<Rightarrow> (string \<Rightarrow> bool) \<Rightarrow> 'w ingress_router \<Rightarrow> ingress_object list \<Rightarrow>
      ingress_receipt gate \<times> 'w \<Rightarrow> (ingress_receipt list \<times> ingress_receipt gate \<times> 'w) option" where
  "accept_all H nfc value_error router [] s = Some ([], s)"
| "accept_all H nfc value_error router (x # xs) s =
     (case accept H nfc value_error router x s of
        Some (Inr r, s') \<Rightarrow> (case accept_all H nfc value_error router xs s' of
            Some (rs, s'') \<Rightarrow> Some (r # rs, s'') | None \<Rightarrow> None)
      | _ \<Rightarrow> None)"

lemma accept_all_answers:
  assumes "gate_ok H g"
  shows "\<exists>rs g' w'. accept_all H nfc value_error router xs (g, w) = Some (rs, g', w') \<and> length rs = length xs \<and>
    (\<forall>i < length xs. acknowledges H (fst (snd (object_ids (xs ! i)))) (rs ! i)) \<and>
    (\<forall>i < length xs. \<forall>e. xs ! i = Envelope e \<longrightarrow> WorldIngressEnvelope H nfc e = Inr e \<longrightarrow>
       (\<forall>r. map_of (dg_completed g) (ie_dedup_key e) = Some r \<longrightarrow> rs ! i = r))"
  using assms
proof (induction xs arbitrary: g w)
  case (Cons x xs)
  obtain r g1 w1 where x: "accept H nfc value_error router x (g, w) = Some (Inr r, g1, w1)" "gate_ok H g1"
      "acknowledges H (fst (snd (object_ids x))) r" "map_of (dg_completed g) \<subseteq>\<^sub>m map_of (dg_completed g1)"
    using accept_answers [OF Cons.prems] by meson
  obtain rs g' w' where xs: "accept_all H nfc value_error router xs (g1, w1) = Some (rs, g', w')" "length rs = length xs"
      "\<forall>i < length xs. acknowledges H (fst (snd (object_ids (xs ! i)))) (rs ! i)"
      "\<forall>i < length xs. \<forall>e. xs ! i = Envelope e \<longrightarrow> WorldIngressEnvelope H nfc e = Inr e \<longrightarrow>
        (\<forall>r. map_of (dg_completed g1) (ie_dedup_key e) = Some r \<longrightarrow> rs ! i = r)"
    using Cons.IH [OF x(2), of w1] by blast
  have ack: "\<forall>i < length (x # xs). acknowledges H (fst (snd (object_ids ((x # xs) ! i)))) ((r # rs) ! i)"
    using x(3) xs(3) by (simp add: All_less_Suc2)
  have kept: "(r # rs) ! i = q" if i: "i < length (x # xs)" "(x # xs) ! i = Envelope e"
    "WorldIngressEnvelope H nfc e = Inr e" "map_of (dg_completed g) (ie_dedup_key e) = Some q" for i e q
  proof (cases i)
    case 0
    with i accept_recorded_again [OF Cons.prems i(4,3), of value_error router w] x(1) show ?thesis by simp
  next
    case (Suc j)
    have "map_of (dg_completed g1) (ie_dedup_key e) = Some q" using i(4) x(4) by (metis domI map_le_def)
    with xs(4) i Suc show ?thesis by simp
  qed
  have "accept_all H nfc value_error router (x # xs) (g, w) = Some (r # rs, g', w')" using x(1) xs(1) by simp
  then show ?case using xs(2) ack kept by (intro exI [of _ "r # rs"] exI [of _ g'] exI [of _ w']) simp
qed simp

lemma accept_all_repeats:
  assumes "gate_ok H g" "accept_all H nfc value_error router xs (g, w) = Some (rs, s')"
    and "i < j" "j < length xs" "xs ! i = Envelope e" "xs ! j = Envelope e'" "ie_dedup_key e = ie_dedup_key e'"
    and "WorldIngressEnvelope H nfc e = Inr e" "WorldIngressEnvelope H nfc e' = Inr e'" "rc_disposition (rs ! i) \<noteq> ''REJECTED''"
  shows "rs ! j = rs ! i"
  using assms
proof (induction xs arbitrary: g w rs i j)
  case (Cons x xs)
  obtain r g1 w1 where x: "accept H nfc value_error router x (g, w) = Some (Inr r, g1, w1)" "gate_ok H g1"
    using accept_answers [OF Cons.prems(1)] by meson
  obtain rs' where rs: "accept_all H nfc value_error router xs (g1, w1) = Some (rs', s')" "rs = r # rs'"
    using Cons.prems(2) x(1) by (auto split: option.splits)
  obtain k where k: "j = Suc k" using Cons.prems(3) by (cases j) auto
  show ?case
  proof (cases i)
    case 0
    then have "map_of (dg_completed g1) (ie_dedup_key e') = Some r"
      using accept_recorded [OF Cons.prems(1), of nfc value_error router e w r g1 w1] x(1) Cons.prems(5,7,8,10) rs(2) by simp
    with accept_all_answers [OF x(2), of nfc value_error router xs w1] rs(1) k Cons.prems(4,6,9)
    have "rs' ! k = r" by fastforce
    with 0 k rs(2) show ?thesis by simp
  next
    case (Suc i')
    with Cons.IH [OF x(2) rs(1), of i' k] Cons.prems k rs(2) show ?thesis by simp
  qed
qed simp

lemma gate_ok_new: "gate_ok H new_gate"
  by (simp add: gate_ok_def new_gate_def)

text \<open>C29: The ingress answers every submission and is idempotent.  Any sequence of submissions to a new
  ingress, whatever objects are submitted and whatever compilers and handlers do (return or raise), is
  answered by as many receipts; each is a sealed acknowledgement of the submitted deduplication key that
  authorizes nothing, executes nothing and carries no evidence weight; and a valid envelope whose key was
  answered without rejection before gets the very same receipt.\<close>

theorem ingress_answers_once:
  shows "\<exists>rs s'. accept_all H nfc value_error router xs (new_gate, w) = Some (rs, s') \<and> length rs = length xs \<and>
    (\<forall>i < length xs. acknowledges H (fst (snd (object_ids (xs ! i)))) (rs ! i)) \<and>
    (\<forall>i j e e'. i < j \<and> j < length xs \<and> xs ! i = Envelope e \<and> xs ! j = Envelope e' \<and> ie_dedup_key e = ie_dedup_key e' \<and>
       WorldIngressEnvelope H nfc e = Inr e \<and> WorldIngressEnvelope H nfc e' = Inr e' \<and>
       rc_disposition (rs ! i) \<noteq> ''REJECTED'' \<longrightarrow> rs ! j = rs ! i)"
proof -
  obtain rs g' w' where r: "accept_all H nfc value_error router xs (new_gate, w) = Some (rs, g', w')" "length rs = length xs"
      "\<forall>i < length xs. acknowledges H (fst (snd (object_ids (xs ! i)))) (rs ! i)"
    using accept_all_answers [OF gate_ok_new, of H nfc value_error router xs w] by (elim exE conjE) (rule that)
  have "rs ! j = rs ! i" if "i < j \<and> j < length xs \<and> xs ! i = Envelope e \<and> xs ! j = Envelope e' \<and>
      ie_dedup_key e = ie_dedup_key e' \<and> WorldIngressEnvelope H nfc e = Inr e \<and> WorldIngressEnvelope H nfc e' = Inr e' \<and>
      rc_disposition (rs ! i) \<noteq> ''REJECTED''" for i j e e'
    using that by (elim conjE) (rule accept_all_repeats [OF gate_ok_new r(1)])
  with r show ?thesis by (intro exI [of _ rs] exI [of _ "(g', w')"] conjI allI impI) simp_all
qed

text \<open>C17: Only records of the envelope get in.  The state behind the ingress changes only by the handler of
  context requests for a context request, or by the source handler for a valid source envelope with a
  fresh deduplication key; and then the handler gets direct Known records whose life, world scope,
  principal, source envelope, source kind, native id and payload digest are those of the envelope, with
  distinct ids, whatever the compiler returned.\<close>

theorem ingress_hands_over_scoped_records:
  assumes "accept H nfc value_error router x (g, w) = Some (r, g', w')" "w' \<noteq> w"
  shows "\<exists>e. x = Envelope e \<and> WorldIngressEnvelope H nfc e = Inr e \<and> map_of (dg_completed g) (ie_dedup_key e) = None \<and>
    ((\<exists>h. ie_envelope_kind e = ''CONTEXT_REQUEST'' \<and> ir_context_request_handler router = Some h \<and> w' = snd (h e w)) \<or>
     (\<exists>h rows. ie_envelope_kind e \<noteq> ''CONTEXT_REQUEST'' \<and> ir_source_handler router = Some h \<and> w' = snd (h e rows w) \<and>
        list_all (ingested_from e) rows \<and> distinct (map kr_known_id rows)))"
  using assms(1)
proof (rule accept_cases)
  fix e res
  assume e: "x = Envelope e" "WorldIngressEnvelope H nfc e = Inr e"
    and run: "run_once (ie_dedup_key e) (route H router e) (g, w) = Some (res, g', w')"
  from run_once_world [OF run] assms(2) have w: "map_of (dg_completed g) (ie_dedup_key e) = None"
    "w' = snd (route H router e w)" by auto
  from route_world [of H router e w] assms(2) e w show ?thesis by auto
qed (use assms(2) in simp)

text \<open>
  The deduplication key covers the world scope, which does not include the principal.  The same source
  record submitted for another principal of the world is a valid envelope, is answered with the receipt of
  the first principal, and reaches no handler.
\<close>

definition for_principal :: "string \<Rightarrow> ingress_envelope \<Rightarrow> ingress_envelope" where
  "for_principal p e = e\<lparr>ie_principal_scope_hash := Some p, ie_scope_hint := (ie_scope_hint e)\<lparr>sc_principal_scope_hash := p\<rparr>\<rparr>"

lemma for_principal_simps:
  "ie_envelope_id (for_principal p e) = ie_envelope_id e"
  "ie_envelope_kind (for_principal p e) = ie_envelope_kind e"
  "ie_source_kind (for_principal p e) = ie_source_kind e"
  "ie_source_native_id (for_principal p e) = ie_source_native_id e"
  "ie_payload_inline (for_principal p e) = ie_payload_inline e"
  "ie_payload_ref (for_principal p e) = ie_payload_ref e"
  "ie_payload_sha256 (for_principal p e) = ie_payload_sha256 e"
  "ie_dedup_key (for_principal p e) = ie_dedup_key e"
  "sc_world_scope_hash (ie_scope_hint (for_principal p e)) = sc_world_scope_hash (ie_scope_hint e)"
  by (simp_all add: for_principal_def)

lemma for_principal_valid:
  assumes "WorldIngressEnvelope H nfc e = Inr e" "Sha256 p"
  shows "WorldIngressEnvelope H nfc (for_principal p e) = Inr (for_principal p e)"
proof -
  let ?e = "for_principal p e"
  have v: "ingress_fields_ok e" "nested_ok H nfc e" "validate_inline_payload (ie_payload_inline e) = Inr ()"
    "validate_payload H e = Inr ()" "validate_kind e = Inr ()" "validate_ingress_ids H e = Inr ()"
    using assms(1) by (auto simp: WorldIngressEnvelope_def invalid_def bind_result_eq_Inr split: if_splits)
  have "ok (WorldScope H nfc s) \<Longrightarrow> ok (WorldScope H nfc (s\<lparr>sc_principal_scope_hash := p\<rparr>))" for s
    using assms(2) by (auto simp: WorldScope_def world_scope_fields_ok_def invalid_def ok_bind_result split: if_splits)
  with v(2) have "nested_ok H nfc ?e" by (simp add: nested_ok_def for_principal_def)
  moreover have "ingress_fields_ok ?e" using v(1) assms(2) by (simp add: ingress_fields_ok_def for_principal_def)
  moreover have "validate_kind ?e = Inr ()" using v(5)
    by (simp add: validate_kind_def for_principal_def invalid_def split: if_splits)
  moreover have "validate_payload H ?e = validate_payload H e" "validate_ingress_ids H ?e = validate_ingress_ids H e"
    "ie_payload_inline ?e = ie_payload_inline e"
    by (simp_all only: validate_payload_def validate_ingress_ids_def for_principal_simps)
  ultimately show ?thesis using v by (simp add: WorldIngressEnvelope_def)
qed

lemma second_principal_not_ingested:
  assumes "gate_ok H g" "accept H nfc value_error router (Envelope e) (g, w) = Some (Inr r, g', w')"
    and "WorldIngressEnvelope H nfc e = Inr e" "rc_disposition r \<noteq> ''REJECTED''" "Sha256 p"
  shows "accept H nfc value_error router (Envelope (for_principal p e)) (g', v) = Some (Inr r, g', v)"
proof (rule accept_recorded_again)
  show "gate_ok H g'" using accept_answers [OF assms(1), of nfc value_error router "Envelope e" w] assms(2) by auto
  show "map_of (dg_completed g') (ie_dedup_key (for_principal p e)) = Some r"
    using accept_recorded [OF assms(1-4)] by (simp add: for_principal_def)
  show "WorldIngressEnvelope H nfc (for_principal p e) = Inr (for_principal p e)"
    by (rule for_principal_valid [OF assms(3,5)])
qed

section \<open>An ingress in action\<close>

text \<open>A git envelope, a compiler that turns it into one record, and a source handler that collects the records.\<close>

definition sample_envelope :: ingress_envelope where
  "sample_envelope = \<lparr>ie_envelope_id = ''wing_'' @ hex64 (CHR ''0''), ie_envelope_kind = ''SOURCE_RECORD'',
     ie_source_kind = ''GIT_CODE'', ie_source_native_id = ''repo'', ie_producer_ref = ''git'', ie_payload_inline = Some [],
     ie_payload_ref = None, ie_payload_sha256 = hex64 (CHR ''0''), ie_source_time = sample_time, ie_life_id = ''life'',
     ie_run_id = None, ie_request_id = None, ie_session_id = None, ie_conversation_id = None, ie_workspace_id = None,
     ie_principal_scope_hash = None, ie_scope_hint = known_sample_scope, ie_native_provenance_refs = [],
     ie_native_authority_domain = None, ie_observability_hint = None, ie_integrity_ref = None,
     ie_correlation_id = ''corr'', ie_dedup_key = hex64 (CHR ''0'')\<rparr>"

definition sample_row :: "ingress_envelope \<Rightarrow> known_record" where
  "sample_row e = \<lparr>kr_schema_version = WORLD_SCHEMA_VERSION, kr_known_id = ''wkn_'' @ hex64 (CHR ''0''),
     kr_proposition_type = ''GIT_CONTAINS'', kr_subject_ref = ''pkg'', kr_predicate = ''contains'',
     kr_object_value = Some (string_world_value (ustr ''mod'')), kr_object_ref = None,
     kr_world_scope = ie_scope_hint e, kr_time = ie_source_time e, kr_authority_domain = ''GIT_CODE'',
     kr_authority_ceiling_milli = 800,
     kr_observability_state = \<lparr>os_mode = ''OBSERVED'', os_access_milli = 1000, os_scope_coverage_milli = 1000,
       os_time_coverage_milli = 1000, os_adapter_quality_milli = 1000, os_measurement_quality_milli = 1000,
       os_combined_quality_milli = 1000, os_search_scope_hash = None\<rparr>,
     kr_coverage_milli = None, kr_truth_state = ''TRUE'', kr_epistemic_state = ''CURRENT'', kr_provenance_refs = [],
     kr_empirical_evidence_weight_milli = 0, kr_record_hash = hex64 (CHR ''0''),
     kr_derivation = Direct \<lparr>ds_source_envelope_id = ie_envelope_id e, ds_source_kind = ie_source_kind e,
       ds_source_native_id = ie_source_native_id e, ds_source_payload_hash = ie_payload_sha256 e,
       ds_compiler_id = ''git'', ds_compiler_version = ''v1''\<rparr>\<rparr>"

definition sample_router :: "known_record list ingress_router" where
  "sample_router = \<lparr>ir_registry = [(''GIT_CODE'', \<lambda>e. Inr (SingleObject (Record (sample_row e))))],
     ir_context_request_handler = None,
     ir_source_handler = Some (\<lambda>e rows w. (Inr \<lparr>ho_reason_code = ''OK'', ho_processed = True\<rparr>, w @ rows))\<rparr>"

lemma sample_envelope_fields: "ingress_fields_ok sample_envelope"
  by code_simp

lemma sample_envelope_valid: "WorldIngressEnvelope zero_hash id sample_envelope = Inr sample_envelope"
proof -
  have zero: "canonical_sha256 zero_hash (jobj fs) = Inr (hex64 (CHR ''0''))" if "representable (jobj fs)" for fs
    by (rule canonical_sha256_zero_hash [OF that])
  have f: "ie_payload_ref sample_envelope = None" "ie_source_time sample_envelope = sample_time"
    "ie_scope_hint sample_envelope = known_sample_scope" "ie_native_provenance_refs sample_envelope = []"
    "ie_observability_hint sample_envelope = None" by (simp_all add: sample_envelope_def)
  have "ok (WorldTime sample_time)" by code_simp
  with ok_known_sample_scope [of id] have "nested_ok zero_hash id sample_envelope"
    unfolding nested_ok_def f by (simp only: opt_ok.simps list.pred_inject simp_thms)
  moreover have p: "ie_payload_inline sample_envelope = Some []" "ie_payload_sha256 sample_envelope = hex64 (CHR ''0'')"
    by (simp_all add: sample_envelope_def)
  moreover have "canonical_json_bytes (payload_value []) = Inr [123, 125]" by code_simp
  then have "validate_inline_payload (ie_payload_inline sample_envelope) = Inr ()" "validate_payload zero_hash sample_envelope = Inr ()"
    by (simp_all add: validate_inline_payload_def validate_payload_def p f canonical_sha256_def zero_hash_def)
  moreover have "validate_kind sample_envelope = Inr ()" by code_simp
  moreover have "validate_ingress_ids zero_hash sample_envelope = Inr ()"
    by (simp add: validate_ingress_ids_def derive_ingress_dedup_key_def derive_ingress_envelope_id_def zero)
      (simp add: sample_envelope_def)
  ultimately show ?thesis using sample_envelope_fields by (simp add: WorldIngressEnvelope_def)
qed

lemma sample_row_in_scope:
  "validate_compiler_output sample_envelope (SingleObject (Record (sample_row sample_envelope))) =
     Inr [sample_row sample_envelope]"
  by (simp add: sample_row_def require_direct_known_scope_def require_envelope_scope_def require_same_world_scope_def)
    (simp add: sample_envelope_def known_sample_scope_def)

lemma sample_route: "snd (route zero_hash sample_router sample_envelope w) = w @ [sample_row sample_envelope]"
proof -
  have "ie_envelope_kind sample_envelope = ''SOURCE_RECORD''" "ie_source_kind sample_envelope = ''GIT_CODE''"
    by (simp_all add: sample_envelope_def)
  then show ?thesis
    by (simp add: route_def sample_router_def resolve_def sample_row_in_scope del: validate_compiler_output.simps)
qed

lemma sample_accept:
  "\<exists>r g'. accept zero_hash id (\<lambda>_. False) sample_router (Envelope sample_envelope) (new_gate, []) =
     Some (r, g', [sample_row sample_envelope])"
proof -
  have v: "validate_ingress_envelope zero_hash id (Envelope sample_envelope) = Inr sample_envelope"
    using sample_envelope_valid by (simp only: validate_ingress_envelope_ok simp_thms)
  obtain res where "route zero_hash sample_router sample_envelope [] = (res, [sample_row sample_envelope])"
    using sample_route [of "[]"] by (metis append_Nil prod.collapse)
  then have "\<exists>g'. run_once (ie_dedup_key sample_envelope) (route zero_hash sample_router sample_envelope) (new_gate, []) =
      Some (res, g', [sample_row sample_envelope])"
    by (simp add: run_once_def gate_enter_def new_gate_def)
  then obtain g' where "run_once (ie_dedup_key sample_envelope) (route zero_hash sample_router sample_envelope) (new_gate, []) =
      Some (res, g', [sample_row sample_envelope])" ..
  with v show ?thesis by (cases res) (auto simp: accept_def)
qed

theorem ingress_hands_over_scoped_records_witness:
  "\<exists>rows. list_all (ingested_from sample_envelope) rows \<and> [sample_row sample_envelope] = [] @ rows"
proof -
  obtain r g' where a: "accept zero_hash id (\<lambda>_. False) sample_router (Envelope sample_envelope) (new_gate, []) =
      Some (r, g', [sample_row sample_envelope])" using sample_accept by blast
  have h: "ir_source_handler sample_router =
      Some (\<lambda>e rows w. (Inr \<lparr>ho_reason_code = ''OK'', ho_processed = True\<rparr>, w @ rows))"
    "ir_context_request_handler sample_router = None" by (simp_all add: sample_router_def)
  have "[sample_row sample_envelope] \<noteq> []" by simp
  from ingress_hands_over_scoped_records [OF a this] show ?thesis unfolding h by auto
qed

theorem ingress_answers_once_witness:
  "\<exists>rs s'. accept_all zero_hash id (\<lambda>_. False) sample_router
       [Envelope sample_envelope, OtherObject None None None, Envelope sample_envelope] (new_gate, []) = Some (rs, s') \<and>
     length rs = 3 \<and> (rc_disposition (rs ! 0) \<noteq> ''REJECTED'' \<longrightarrow> rs ! 2 = rs ! 0)"
proof -
  let ?xs = "[Envelope sample_envelope, OtherObject None None None, Envelope sample_envelope]"
  obtain rs s' where r: "accept_all zero_hash id (\<lambda>_. False) sample_router ?xs (new_gate, []) = Some (rs, s')"
      "length rs = length ?xs"
      "\<forall>i j e e'. i < j \<and> j < length ?xs \<and> ?xs ! i = Envelope e \<and> ?xs ! j = Envelope e' \<and> ie_dedup_key e = ie_dedup_key e' \<and>
         WorldIngressEnvelope zero_hash id e = Inr e \<and> WorldIngressEnvelope zero_hash id e' = Inr e' \<and>
         rc_disposition (rs ! i) \<noteq> ''REJECTED'' \<longrightarrow> rs ! j = rs ! i"
    using ingress_answers_once [of zero_hash id "\<lambda>_. False" sample_router ?xs "[]"] by (elim exE conjE) (rule that)
  from r(3) [rule_format, of 0 2 sample_envelope sample_envelope] sample_envelope_valid r(1,2) show ?thesis by simp
qed

end
