(* ===== verification/Semantic_Admission.thy ===== *)
theory Semantic_Admission
  imports Dynamics
begin

text \<open>
  Admission of semantic work: the attention and value-of-information scores and the controller of
  \<open>src/world_understanding/semantic/admission.py\<close>, and the telemetry gate in front of it
  (\<open>TelemetrySemanticAdmissionController\<close> in \<open>src/world_understanding/dynamics/semantic_throttle.py\<close>).  The
  controller holds the rhythm plane and submits admitted work to it, so its step returns the plane.  The
  snapshot the telemetry gate reads comes from a callable the program passes in: it is a function of the
  plane that returns a snapshot or raises.
\<close>

section \<open>Scores\<close>

record semantic_factors =
  sf_novelty_milli :: int
  sf_prediction_error_milli :: int
  sf_conflict_milli :: int
  sf_uncertainty_milli :: int
  sf_structural_impact_milli :: int
  sf_life_relevance_milli :: int

definition factor_values :: "semantic_factors \<Rightarrow> int list" where
  "factor_values f = [sf_novelty_milli f, sf_prediction_error_milli f, sf_conflict_milli f, sf_uncertainty_milli f,
     sf_structural_impact_milli f, sf_life_relevance_milli f]"

definition FACTOR_NAMES :: "string list" where
  "FACTOR_NAMES = [''novelty_milli'', ''prediction_error_milli'', ''conflict_milli'', ''uncertainty_milli'',
     ''structural_impact_milli'', ''life_relevance_milli'']"

fun check_ranges :: "(string \<times> int) list \<Rightarrow> unit result" where
  "check_ranges [] = Inr ()"
| "check_ranges ((name, value) # rest) =
     (if value < 0 \<or> value > 1000 then Inl (ValueError (name @ '' out of range'')) else check_ranges rest)"

definition SemanticFactors :: "semantic_factors \<Rightarrow> semantic_factors result" where
  "SemanticFactors f = bind_result (check_ranges (zip FACTOR_NAMES (factor_values f))) (\<lambda>_. Inr f)"

record semantic_admission_config =
  sa_novelty_weight_milli :: int
  sa_prediction_error_weight_milli :: int
  sa_conflict_weight_milli :: int
  sa_uncertainty_weight_milli :: int
  sa_structural_impact_weight_milli :: int
  sa_life_relevance_weight_milli :: int
  sa_attention_threshold_milli :: int
  sa_voi_threshold_milli :: int

definition weights :: "semantic_admission_config \<Rightarrow> int list" where
  "weights c = [sa_novelty_weight_milli c, sa_prediction_error_weight_milli c, sa_conflict_weight_milli c,
     sa_uncertainty_weight_milli c, sa_structural_impact_weight_milli c, sa_life_relevance_weight_milli c]"

definition SemanticAdmissionConfig :: "semantic_admission_config \<Rightarrow> semantic_admission_config result" where
  "SemanticAdmissionConfig c =
     bind_result (check_ranges (zip
       [''novelty_weight_milli'', ''prediction_error_weight_milli'', ''conflict_weight_milli'',
        ''uncertainty_weight_milli'', ''structural_impact_weight_milli'', ''life_relevance_weight_milli'',
        ''attention_threshold_milli'', ''voi_threshold_milli'']
       (weights c @ [sa_attention_threshold_milli c, sa_voi_threshold_milli c]))) (\<lambda>_. Inr c)"

definition attend :: "int \<Rightarrow> int \<times> int \<Rightarrow> int" where
  "attend rem ws =
     (let (weight, signal) = ws; contribution = weight * signal div 1000
      in rem * (1000 - contribution) div 1000)"

definition attention_score_milli :: "semantic_factors \<Rightarrow> semantic_admission_config \<Rightarrow> int" where
  "attention_score_milli factors config =
     (let rem = foldl attend 1000 (zip (weights config) (factor_values factors))
      in max 0 (min 1000 (1000 - rem)))"

definition voi_score_milli :: "int \<Rightarrow> int \<Rightarrow> int result" where
  "voi_score_milli expected_gap_reduction_milli expected_cost_milli =
     (if expected_gap_reduction_milli < 0 \<or> expected_cost_milli \<le> 0
      then Inl (ValueError ''invalid semantic VOI inputs'')
      else Inr (min 1000000 (expected_gap_reduction_milli * 1000 div expected_cost_milli)))"

section \<open>The controllers\<close>

record semantic_outcome =
  so_admitted :: bool
  so_attention_milli :: int
  so_voi_milli :: int
  so_disposition :: string
  so_reason_code :: string
  so_rhythm_decision :: "admission_decision option"

definition refused :: "int \<Rightarrow> int \<Rightarrow> string \<Rightarrow> string \<Rightarrow> semantic_outcome" where
  "refused attention voi disposition reason =
     \<lparr>so_admitted = False, so_attention_milli = attention, so_voi_milli = voi, so_disposition = disposition,
      so_reason_code = reason, so_rhythm_decision = None\<rparr>"

definition semantic_item :: "rhythm_event \<Rightarrow> work_cost \<Rightarrow> work_item" where
  "semantic_item event cost = \<lparr>wi_event = event, wi_cost = cost, wi_semantic = True, wi_revalidation = False\<rparr>"

definition submit_semantic ::
    "(nat list \<Rightarrow> string) \<Rightarrow> int \<Rightarrow> int \<Rightarrow> rhythm_plane \<Rightarrow> rhythm_event \<Rightarrow> work_cost \<Rightarrow> semantic_outcome result \<times> rhythm_plane" where
  "submit_semantic H attention voi plane event cost =
     (case submit H plane (semantic_item event cost) of
        (Inl e, plane') \<Rightarrow> (Inl e, plane')
      | (Inr d, plane') \<Rightarrow>
          (Inr \<lparr>so_admitted = (ad_disposition d \<in> {''ADMITTED'', ''COALESCED''}), so_attention_milli = attention,
             so_voi_milli = voi, so_disposition = ad_disposition d, so_reason_code = ad_reason_code d,
             so_rhythm_decision = Some d\<rparr>, plane'))"

definition admit_semantic ::
    "(nat list \<Rightarrow> string) \<Rightarrow> semantic_admission_config \<Rightarrow> semantic_factors \<Rightarrow> int \<Rightarrow> int \<Rightarrow> rhythm_event option \<Rightarrow> work_cost \<Rightarrow>
      rhythm_plane option \<Rightarrow> semantic_outcome result \<times> rhythm_plane option" where
  "admit_semantic H config factors gap cost_milli event cost rhythm =
     (let attention = attention_score_milli factors config
      in case voi_score_milli gap cost_milli of
          Inl e \<Rightarrow> (Inl e, rhythm)
        | Inr voi \<Rightarrow>
            if attention < sa_attention_threshold_milli config
            then (Inr (refused attention voi ''REJECTED'' ''SEMANTIC_ATTENTION_FLOOR''), rhythm)
            else if voi < sa_voi_threshold_milli config
            then (Inr (refused attention voi ''REJECTED'' ''SEMANTIC_VOI_FLOOR''), rhythm)
            else case rhythm of
                None \<Rightarrow> (Inr \<lparr>so_admitted = True, so_attention_milli = attention, so_voi_milli = voi,
                  so_disposition = ''ADMITTED'', so_reason_code = ''OK'', so_rhythm_decision = None\<rparr>, rhythm)
              | Some plane \<Rightarrow> (case event of
                  None \<Rightarrow> (Inl (ValueError ''rhythm-backed semantic admission requires event''), rhythm)
                | Some ev \<Rightarrow>
                    if hb_queue_class (ev_boundary ev) \<noteq> ''SEMANTIC''
                    then (Inr (refused attention voi ''REJECTED'' ''SEMANTIC_QUEUE_REQUIRED''), rhythm)
                    else map_prod id Some (submit_semantic H attention voi plane ev cost)))"

definition admit_throttled ::
    "(nat list \<Rightarrow> string) \<Rightarrow> (rhythm_plane option \<Rightarrow> semantic_throttle_snapshot result) \<Rightarrow> semantic_throttle_policy \<Rightarrow>
      semantic_admission_config \<Rightarrow> semantic_factors \<Rightarrow> int \<Rightarrow> int \<Rightarrow> rhythm_event option \<Rightarrow> work_cost \<Rightarrow>
      rhythm_plane option \<Rightarrow> semantic_outcome result \<times> rhythm_plane option" where
  "admit_throttled H snapshot_provider policy config factors gap cost_milli event cost rhythm =
     (case snapshot_provider rhythm of
        Inl e \<Rightarrow> (Inl e, rhythm)
      | Inr snapshot \<Rightarrow>
          let decision = evaluate_semantic_throttle snapshot policy
          in if \<not> sd_allowed decision then (Inr (refused 0 0 ''DEFERRED'' (sd_reason_code decision)), rhythm)
             else admit_semantic H config factors gap cost_milli event cost rhythm)"

section \<open>The attention score against its formula\<close>

text \<open>The product of the documentation, in exact arithmetic: what is left of 1000 after the factors.\<close>

definition exact_remaining :: "(int \<times> int) list \<Rightarrow> real" where
  "exact_remaining ws = 1000 * prod_list (map (\<lambda>(w, x). 1 - real_of_int w * real_of_int x / 1000000) ws)"

definition milli_pairs :: "(int \<times> int) list \<Rightarrow> bool" where
  "milli_pairs ws \<longleftrightarrow> list_all (\<lambda>(w, x). milli w \<and> milli x) ws"

lemma attend_bounds:
  assumes "milli rem" "milli w" "milli x"
  shows "milli (attend rem (w, x))" "attend rem (w, x) \<le> 1000 - w * x div 1000" "attend rem (w, x) \<le> rem"
proof -
  have c: "milli (w * x div 1000)" by (rule milli_mult_div [OF assms(2,3)])
  then have "milli (1000 - w * x div 1000)" by simp
  note * = milli_mult_div [OF assms(1) this]
  show "milli (attend rem (w, x))" "attend rem (w, x) \<le> 1000 - w * x div 1000" "attend rem (w, x) \<le> rem"
    using * by (simp_all add: attend_def)
qed

lemma floor_div_bounds:
  fixes a :: int
  shows "real_of_int (a div 1000) \<le> real_of_int a / 1000" "real_of_int a / 1000 - 1 \<le> real_of_int (a div 1000)"
  by linarith+

lemma attend_error:
  fixes R k :: real
  assumes rem: "milli rem" "\<bar>real_of_int rem - R\<bar> \<le> k" and w: "milli w" and x: "milli x"
  shows "\<bar>real_of_int (attend rem (w, x)) - R * (1 - real_of_int w * real_of_int x / 1000000)\<bar> \<le> k + 1"
proof -
  define c where "c = w * x div 1000"
  define e where "e = 1 - real_of_int w * real_of_int x / 1000000"
  have e: "0 \<le> e" "e \<le> 1"
  proof -
    have "real_of_int w * real_of_int x \<le> 1000 * 1000" using w x by (intro mult_mono) simp_all
    then show "0 \<le> e" by (simp add: e_def)
    show "e \<le> 1" using w x by (simp add: e_def)
  qed
  have step: "1000 * e \<le> real_of_int (1000 - c)" "real_of_int (1000 - c) \<le> 1000 * e + 1"
    using floor_div_bounds [of "w * x"] by (simp_all add: e_def c_def)
  have r: "0 \<le> real_of_int rem" "real_of_int rem \<le> 1000" using rem(1) by simp_all
  have a: "attend rem (w, x) = rem * (1000 - c) div 1000" by (simp add: attend_def c_def)
  have err: "\<bar>real_of_int rem * e - R * e\<bar> \<le> k"
  proof -
    have "\<bar>real_of_int rem * e - R * e\<bar> = \<bar>real_of_int rem - R\<bar> * e" using e by (simp add: abs_mult left_diff_distrib [symmetric])
    also have "\<dots> \<le> k * 1" using e rem(2) by (intro mult_mono) simp_all
    finally show ?thesis by simp
  qed
  have lo: "real_of_int rem * e - 1 \<le> real_of_int (attend rem (w, x))"
  proof -
    have "real_of_int rem * (1000 * e) \<le> real_of_int (rem * (1000 - c))"
      unfolding of_int_mult using step(1) r(1) by (rule mult_left_mono)
    with floor_div_bounds(2) [of "rem * (1000 - c)"] show ?thesis unfolding a by simp
  qed
  have hi: "real_of_int (attend rem (w, x)) \<le> real_of_int rem * e + 1"
  proof -
    have "real_of_int (rem * (1000 - c)) \<le> real_of_int rem * (1000 * e + 1)"
      unfolding of_int_mult using step(2) r(1) by (rule mult_left_mono)
    also have "\<dots> \<le> real_of_int rem * e * 1000 + 1000" using r by (simp add: distrib_left)
    finally show ?thesis using floor_div_bounds(1) [of "rem * (1000 - c)"] unfolding a by simp
  qed
  from lo hi err show ?thesis unfolding e_def by linarith
qed

lemma foldl_attend:
  assumes "milli_pairs ws" "milli rem" "\<bar>real_of_int rem - R\<bar> \<le> k"
  shows "milli (foldl attend rem ws) \<and> foldl attend rem ws \<le> rem \<and>
    (\<forall>(w, x) \<in> set ws. foldl attend rem ws \<le> 1000 - w * x div 1000) \<and>
    \<bar>real_of_int (foldl attend rem ws) -
      R * prod_list (map (\<lambda>(w, x). 1 - real_of_int w * real_of_int x / 1000000) ws)\<bar> \<le> k + real (length ws)"
  using assms
proof (induction ws arbitrary: rem R k)
  case (Cons p ws)
  obtain w x where p: "p = (w, x)" by (cases p)
  have m: "milli w" "milli x" "milli_pairs ws" using Cons.prems(1) by (simp_all add: milli_pairs_def p)
  note b = attend_bounds [OF Cons.prems(2) m(1,2)] and e = attend_error [OF Cons.prems(2,3) m(1,2)]
  from Cons.IH [OF m(3) b(1) e] b show ?case by (auto simp: p algebra_simps)
qed simp

section \<open>What the gates guarantee\<close>

lemma check_ranges_ok: "check_ranges ps = Inr u \<Longrightarrow> (n, v) \<in> set ps \<Longrightarrow> milli v"
  by (induction ps rule: check_ranges.induct) (auto split: if_splits)

lemma zip_values: "length xs = length ys \<Longrightarrow> v \<in> set ys \<Longrightarrow> \<exists>x. (x, v) \<in> set (zip xs ys)"
  by (metis in_set_impl_in_set_zip2)

lemma SemanticFactors_milli:
  assumes "SemanticFactors f = Inr f'" "v \<in> set (factor_values f)"
  shows "milli v"
proof -
  have l: "length FACTOR_NAMES = length (factor_values f)" by (simp add: FACTOR_NAMES_def factor_values_def)
  from assms(1) obtain u where "check_ranges (zip FACTOR_NAMES (factor_values f)) = Inr u"
    by (auto simp: SemanticFactors_def bind_result_eq_Inr)
  with zip_values [OF l assms(2)] check_ranges_ok show ?thesis by blast
qed

lemma SemanticAdmissionConfig_milli:
  assumes "SemanticAdmissionConfig c = Inr c'" "v \<in> set (weights c)"
  shows "milli v"
  using assms by (auto simp: SemanticAdmissionConfig_def weights_def bind_result_eq_Inr split: if_splits)

lemma score_pairs:
  assumes "SemanticFactors f = Inr f'" "SemanticAdmissionConfig c = Inr c'"
  shows "milli_pairs (zip (weights c) (factor_values f))"
  unfolding milli_pairs_def list_all_iff
  using SemanticFactors_milli [OF assms(1)] SemanticAdmissionConfig_milli [OF assms(2)]
  by (auto dest: set_zip_leftD set_zip_rightD)

text \<open>C31: The attention score follows its formula.  For valid factors and weights the integer score lies
  between 0 and 1000, is within 6 of 1000 times one minus the product of one minus weight times factor (one
  unit of rounding per factor), and is at least the weighted contribution of each single factor, so no
  factor can mask another.\<close>

theorem attention_score_accurate:
  assumes "SemanticFactors f = Inr f" "SemanticAdmissionConfig c = Inr c"
  shows "milli (attention_score_milli f c) \<and>
    \<bar>real_of_int (attention_score_milli f c) - (1000 - exact_remaining (zip (weights c) (factor_values f)))\<bar> \<le> 6 \<and>
    (\<forall>(w, x) \<in> set (zip (weights c) (factor_values f)). w * x div 1000 \<le> attention_score_milli f c)"
proof -
  let ?ws = "zip (weights c) (factor_values f)" and ?rem = "foldl attend 1000 (zip (weights c) (factor_values f))"
  have n: "length ?ws = 6" by (simp add: weights_def factor_values_def)
  have *: "milli ?rem" "\<forall>(w, x) \<in> set ?ws. ?rem \<le> 1000 - w * x div 1000"
    "\<bar>real_of_int ?rem - exact_remaining ?ws\<bar> \<le> 6"
    using foldl_attend [OF score_pairs [OF assms], of 1000 1000 0] unfolding exact_remaining_def n by simp_all
  then have s: "attention_score_milli f c = 1000 - ?rem" by (simp add: attention_score_milli_def Let_def)
  show ?thesis unfolding s using * by auto
qed

lemma submit_queued:
  assumes "submit H p item = (r, p')"
  shows "rp_queues p' = rp_queues p \<and> (\<forall>d. r = Inr d \<longrightarrow> ad_disposition d \<notin> {''ADMITTED'', ''COALESCED''}) \<or>
    (\<exists>d. r = Inr d \<and> ad_disposition d \<in> {''ADMITTED'', ''COALESCED''}) \<and> item \<in> set (rp_queues p' (item_queue item)) \<and>
      validate_item p item = Inr []"
proof (cases "validate_item p item = Inr []")
  case True
  from submit_cases [OF assms True] show ?thesis
  proof (elim disjE conjE exE)
    fix co i n
    assume "i < length (rp_queues p (item_queue item))" "r = Inr (decision ''COALESCED'' ''DEBOUNCE_COALESCE'' (item_queue item) n)"
      "p' = (arrived p (item_queue item))\<lparr>rp_coalescer := co,
        rp_queues := (rp_queues p)(item_queue item := sort_queue ((rp_queues p (item_queue item))[i := item]))\<rparr>"
    with True show ?thesis by (simp add: decision_def sort_queue_def set_update_memI)
  next
    fix co
    assume "r = Inr (decision ''ADMITTED'' ''OK'' (item_queue item) 1)"
      "p' = (arrived p (item_queue item))\<lparr>rp_coalescer := co,
        rp_queues := (rp_queues p)(item_queue item := sort_queue (rp_queues p (item_queue item) @ [item]))\<rparr>"
    with True show ?thesis by (simp add: decision_def sort_queue_def)
  qed (simp add: decision_def)
next
  case False
  then show ?thesis
    using assms by (auto simp: submit_def Let_def arrived_def [symmetric] decision_def split: sum.splits if_splits)
qed

lemma submit_semantic_cases:
  assumes "submit_semantic H attention voi p ev cost = (r, p')"
  shows "rp_queues p' = rp_queues p \<and> (\<forall>s. r = Inr s \<longrightarrow> \<not> so_admitted s) \<or>
    (\<exists>s. r = Inr s \<and> so_admitted s) \<and> semantic_item ev cost \<in> set (rp_queues p' (hb_queue_class (ev_boundary ev))) \<and>
      semantic_min_priority (rp_config p) \<le> ev_priority ev"
proof -
  obtain d where d: "submit H p (semantic_item ev cost) = (d, p')"
    using assms by (auto simp: submit_semantic_def split: prod.splits sum.splits)
  have q: "item_queue (semantic_item ev cost) = hb_queue_class (ev_boundary ev)" by (simp add: item_queue_def semantic_item_def)
  have "validate_item p (semantic_item ev cost) = Inr [] \<Longrightarrow> semantic_min_priority (rp_config p) \<le> ev_priority ev"
    by (auto simp: validate_item_def semantic_item_def split: if_splits)
  with submit_queued [OF d] assms d show ?thesis unfolding q by (auto simp: submit_semantic_def split: sum.splits)
qed

lemma submit_semantic_inv:
  assumes "submit_semantic H attention voi p ev cost = (r, p')" "plane_inv p" "0 \<le> cost"
  shows "plane_inv p'"
proof -
  obtain d where d: "submit H p (semantic_item ev cost) = (d, p')"
    using assms by (auto simp: submit_semantic_def split: prod.splits sum.splits)
  show ?thesis by (rule submit_inv [OF assms(2) _ d]) (simp add: semantic_item_def assms(3))
qed

lemma map_prod_Some: "map_prod id Some x = (r, rhythm') \<Longrightarrow> \<exists>p'. rhythm' = Some p' \<and> x = (r, p')"
  by (cases x) auto

lemma admit_throttled_cases:
  assumes "admit_throttled H provider policy config factors gap cost_milli event cost (Some p) = (r, rhythm')"
  obtains "rhythm' = Some p" "\<And>s. r = Inr s \<Longrightarrow> \<not> so_admitted s"
  | snapshot voi ev p' where "provider (Some p) = Inr snapshot" "sd_allowed (evaluate_semantic_throttle snapshot policy)"
      "sa_attention_threshold_milli config \<le> attention_score_milli factors config"
      "voi_score_milli gap cost_milli = Inr voi" "sa_voi_threshold_milli config \<le> voi"
      "event = Some ev" "hb_queue_class (ev_boundary ev) = ''SEMANTIC''" "rhythm' = Some p'"
      "submit_semantic H (attention_score_milli factors config) voi p ev cost = (r, p')"
proof -
  have id: "rhythm' = Some p \<Longrightarrow> (\<And>s. r = Inr s \<Longrightarrow> \<not> so_admitted s) \<Longrightarrow> thesis" by (rule that(1))
  show ?thesis
    using assms id that(2)
    by (auto simp: admit_throttled_def admit_semantic_def Let_def refused_def
        split: sum.splits if_splits option.splits prod.splits dest!: map_prod_Some)
qed

text \<open>C30: Semantic work reaches the queue only through every gate.  With a rhythm plane behind the controller,
  an admission step leaves the plane in its invariant (admitted work stays within the budget); the queues
  change only when the step reports admission, and then the telemetry gate allowed it, attention and value
  of information reach their thresholds, the event belongs to the SEMANTIC class and its priority reaches the
  floor of the plane; and a step that reports admission has its item in the SEMANTIC queue.\<close>

theorem semantic_work_passes_every_gate:
  assumes "admit_throttled H provider policy config factors gap cost_milli event cost (Some p) = (r, rhythm')"
    and "plane_inv p" and "0 \<le> cost"
  shows "\<exists>p'. rhythm' = Some p' \<and> plane_inv p' \<and>
    (rp_queues p' \<noteq> rp_queues p \<longrightarrow> (\<exists>s. r = Inr s \<and> so_admitted s)) \<and>
    (\<forall>s. r = Inr s \<and> so_admitted s \<longrightarrow>
      (\<exists>snapshot voi ev. provider (Some p) = Inr snapshot \<and> sd_allowed (evaluate_semantic_throttle snapshot policy) \<and>
        sa_attention_threshold_milli config \<le> attention_score_milli factors config \<and>
        voi_score_milli gap cost_milli = Inr voi \<and> sa_voi_threshold_milli config \<le> voi \<and>
        event = Some ev \<and> hb_queue_class (ev_boundary ev) = ''SEMANTIC'' \<and>
        semantic_min_priority (rp_config p) \<le> ev_priority ev \<and>
        semantic_item ev cost \<in> set (rp_queues p' ''SEMANTIC'')))"
  using assms(1)
proof (rule admit_throttled_cases)
  assume "rhythm' = Some p" "\<And>s. r = Inr s \<Longrightarrow> \<not> so_admitted s"
  with assms(2) show ?thesis by blast
next
  fix snapshot voi ev p'
  assume g: "provider (Some p) = Inr snapshot" "sd_allowed (evaluate_semantic_throttle snapshot policy)"
      "sa_attention_threshold_milli config \<le> attention_score_milli factors config"
      "voi_score_milli gap cost_milli = Inr voi" "sa_voi_threshold_milli config \<le> voi"
      "event = Some ev" "hb_queue_class (ev_boundary ev) = ''SEMANTIC''" "rhythm' = Some p'"
    and sub: "submit_semantic H (attention_score_milli factors config) voi p ev cost = (r, p')"
  have inv: "plane_inv p'" by (rule submit_semantic_inv [OF sub assms(2,3)])
  from submit_semantic_cases [OF sub] show ?thesis
  proof (elim disjE conjE)
    assume "rp_queues p' = rp_queues p" "\<forall>s. r = Inr s \<longrightarrow> \<not> so_admitted s"
    with inv g(8) show ?thesis by blast
  next
    assume a: "\<exists>s. r = Inr s \<and> so_admitted s" "semantic_min_priority (rp_config p) \<le> ev_priority ev"
      "semantic_item ev cost \<in> set (rp_queues p' (hb_queue_class (ev_boundary ev)))"
    show ?thesis
    proof (intro exI [of _ p'] conjI allI impI)
      show "\<exists>snapshot voi ev. provider (Some p) = Inr snapshot \<and> sd_allowed (evaluate_semantic_throttle snapshot policy) \<and>
        sa_attention_threshold_milli config \<le> attention_score_milli factors config \<and>
        voi_score_milli gap cost_milli = Inr voi \<and> sa_voi_threshold_milli config \<le> voi \<and>
        event = Some ev \<and> hb_queue_class (ev_boundary ev) = ''SEMANTIC'' \<and>
        semantic_min_priority (rp_config p) \<le> ev_priority ev \<and> semantic_item ev cost \<in> set (rp_queues p' ''SEMANTIC'')"
        by (rule exI [of _ snapshot], rule exI [of _ voi], rule exI [of _ ev]) (use g a in simp)
    qed (use inv g(8) a(1) in simp_all)
  qed
qed

section \<open>An admitted piece of work\<close>

definition default_semantic_config :: semantic_admission_config where
  "default_semantic_config = \<lparr>sa_novelty_weight_milli = 650, sa_prediction_error_weight_milli = 850,
     sa_conflict_weight_milli = 900, sa_uncertainty_weight_milli = 750, sa_structural_impact_weight_milli = 800,
     sa_life_relevance_weight_milli = 700, sa_attention_threshold_milli = 350, sa_voi_threshold_milli = 250\<rparr>"

definition default_throttle :: semantic_throttle_policy where
  "default_throttle = \<lparr>st_rho_target_milli = 800, st_high_churn_hazard_milli = 500, st_challenge_rate_milli = 400,
     st_min_quality_samples = 20\<rparr>"

definition sample_factors :: semantic_factors where
  "sample_factors = \<lparr>sf_novelty_milli = 400, sf_prediction_error_milli = 0, sf_conflict_milli = 500,
     sf_uncertainty_milli = 0, sf_structural_impact_milli = 100, sf_life_relevance_milli = 0\<rparr>"

definition sample_provider :: "rhythm_plane option \<Rightarrow> semantic_throttle_snapshot result" where
  "sample_provider rhythm =
     (case rhythm of None \<Rightarrow> Inl (ValueError ''no plane'')
      | Some p \<Rightarrow> bind_result (telemetry p ''SEMANTIC'' 1000) (\<lambda>q.
          SemanticThrottleSnapshot \<lparr>sn_queue = q, sn_stale_hazard_milli = 0, sn_quality = None\<rparr>))"

definition sample_semantic_event :: rhythm_event where
  "sample_semantic_event = (sample_rhythm_event ''e1'' ''k'' ''SEMANTIC'' 5)\<lparr>ev_priority := 60\<rparr>"

theorem attention_score_accurate_witness:
  "attention_score_milli sample_factors default_semantic_config = 626 \<and>
   \<bar>626 - (1000 - exact_remaining (zip (weights default_semantic_config) (factor_values sample_factors)))\<bar> \<le> 6"
proof -
  have s: "attention_score_milli sample_factors default_semantic_config = 626" by code_simp
  have v: "SemanticFactors sample_factors = Inr sample_factors"
    "SemanticAdmissionConfig default_semantic_config = Inr default_semantic_config"
    by (simp_all add: SemanticFactors_def sample_factors_def factor_values_def FACTOR_NAMES_def
        SemanticAdmissionConfig_def default_semantic_config_def weights_def)
  from attention_score_accurate [OF v] s show ?thesis by simp
qed

theorem semantic_work_passes_every_gate_witness:
  "\<exists>r p'. admit_throttled zero_hash sample_provider default_throttle default_semantic_config sample_factors 500 1000
     (Some sample_semantic_event) (WorkCost 10 0 0 0) (Some sample_plane) = (Inr r, Some p') \<and> so_admitted r \<and>
     plane_inv p' \<and> semantic_item sample_semantic_event (WorkCost 10 0 0 0) \<in> set (rp_queues p' ''SEMANTIC'')"
proof -
  let ?call = "admit_throttled zero_hash sample_provider default_throttle default_semantic_config sample_factors 500 1000
     (Some sample_semantic_event) (WorkCost 10 0 0 0) (Some sample_plane)"
  obtain r rhythm' where call: "?call = (r, rhythm')" by fastforce
  have att: "attention_score_milli sample_factors default_semantic_config = 626" by code_simp
  have voi: "voi_score_milli 500 1000 = Inr 500" by (simp add: voi_score_milli_def)
  have thr: "sa_attention_threshold_milli default_semantic_config = 350" "sa_voi_threshold_milli default_semantic_config = 250"
    "hb_queue_class (ev_boundary sample_semantic_event) = ''SEMANTIC''"
    by (simp_all add: default_semantic_config_def sample_semantic_event_def sample_rhythm_event_def)
  have gate: "\<exists>snapshot. sample_provider (Some sample_plane) = Inr snapshot \<and>
      sd_allowed (evaluate_semantic_throttle snapshot default_throttle)"
    by (simp add: sample_provider_def telemetry_def QUEUE_CLASSES_def sample_plane_def SemanticThrottleSnapshot_def
        evaluate_semantic_throttle_def Let_def)
  have "\<exists>p'. submit zero_hash sample_plane (semantic_item sample_semantic_event (WorkCost 10 0 0 0)) =
      (Inr (decision ''ADMITTED'' ''OK'' ''SEMANTIC'' 1), p')"
    by (simp add: plane_eval semantic_item_def sample_semantic_event_def)
  then have "\<exists>s p'. submit_semantic zero_hash 626 500 sample_plane sample_semantic_event (WorkCost 10 0 0 0) = (Inr s, p') \<and> so_admitted s"
    by (auto simp: submit_semantic_def decision_def)
  then have "\<exists>s. fst ?call = Inr s \<and> so_admitted s"
    using gate thr by (auto simp: admit_throttled_def admit_semantic_def att voi Let_def)
  with call obtain s where s: "r = Inr s" "so_admitted s" by auto
  have "plane_inv sample_plane" using plane_run_inv [OF sample_plane_run] .
  moreover have "0 \<le> WorkCost 10 0 0 0" by (simp add: cost_arith)
  ultimately obtain p' where p': "rhythm' = Some p'" "plane_inv p'"
    "\<forall>s. r = Inr s \<and> so_admitted s \<longrightarrow> (\<exists>snapshot voi ev. sample_provider (Some sample_plane) = Inr snapshot \<and>
        sd_allowed (evaluate_semantic_throttle snapshot default_throttle) \<and>
        sa_attention_threshold_milli default_semantic_config \<le> attention_score_milli sample_factors default_semantic_config \<and>
        voi_score_milli 500 1000 = Inr voi \<and> sa_voi_threshold_milli default_semantic_config \<le> voi \<and>
        Some sample_semantic_event = Some ev \<and> hb_queue_class (ev_boundary ev) = ''SEMANTIC'' \<and>
        semantic_min_priority (rp_config sample_plane) \<le> ev_priority ev \<and>
        semantic_item ev (WorkCost 10 0 0 0) \<in> set (rp_queues p' ''SEMANTIC''))"
    using semantic_work_passes_every_gate [OF call] by blast
  with s call show ?thesis by auto
qed

end
