(* ===== verification/Inquiry_Contracts.thy ===== *)
theory Inquiry_Contracts
  imports World_Contracts
begin

text \<open>
  The contracts of the inquiry output (\<open>src/contracts/world_understanding/\<close>: \<open>state.py\<close>, \<open>curiosity.py\<close>,
  \<open>inquiry.py\<close>): the materialized world state, the knowledge gap found in it, the curiosity it raises,
  the inquiry that leaves the layer and the outcome that closes it.  As in \<open>World_Contracts\<close> each class is a
  record with its field constraints, model validator, dump and constructor.  The fields that a class pins to
  one value by a \<open>Literal\<close> type are constants of the dump, except those of \<open>WorldInquiry\<close> and
  \<open>InquiryOutcome\<close> that later code reads again: they are fields, restricted to the literal.
\<close>

section \<open>Shared constraints\<close>

definition ref_list_ok :: "record_ref list \<Rightarrow> bool" where
  "ref_list_ok rs \<longleftrightarrow> length rs \<le> 4096 \<and> list_all record_ref_fields_ok rs \<and> sorted_unique_refs rs"

definition code_list_ok :: "string list \<Rightarrow> bool" where
  "code_list_ok cs \<longleftrightarrow> length cs \<le> 256 \<and> list_all OpaqueId cs \<and> sorted_unique_strings cs"

definition question_ok :: "ustring \<Rightarrow> bool" where
  "question_ok q \<longleftrightarrow> 1 \<le> length q \<and> length q \<le> 20000"

section \<open>World state\<close>

record world_state =
  wst_world_state_id :: string
  wst_scope :: world_scope
  wst_frame_ref :: record_ref
  wst_world_cut_ref :: record_ref
  wst_world_sequence :: int
  wst_observation_cutoff_ref :: "record_ref option"
  wst_entity_head_manifest_ref :: record_ref
  wst_relation_head_manifest_ref :: record_ref
  wst_cognition_head_manifest_ref :: "record_ref option"
  wst_active_hypothesis_manifest_ref :: "record_ref option"
  wst_delta_manifest_ref :: "record_ref option"
  wst_unresolved_conflict_refs :: "record_ref list"
  wst_stale_refs :: "record_ref list"
  wst_materialized_at_ms :: int
  wst_source_transaction_id :: string
  wst_state_sha256 :: string

definition world_state_fields_ok :: "world_state \<Rightarrow> bool" where
  "world_state_fields_ok s \<longleftrightarrow>
     prefixed_sha256 ''wst_'' (wst_world_state_id s) \<and> record_ref_fields_ok (wst_frame_ref s) \<and>
     record_ref_fields_ok (wst_world_cut_ref s) \<and> timestamp_ok (wst_world_sequence s) \<and>
     opt_ok record_ref_fields_ok (wst_observation_cutoff_ref s) \<and>
     record_ref_fields_ok (wst_entity_head_manifest_ref s) \<and> record_ref_fields_ok (wst_relation_head_manifest_ref s) \<and>
     opt_ok record_ref_fields_ok (wst_cognition_head_manifest_ref s) \<and>
     opt_ok record_ref_fields_ok (wst_active_hypothesis_manifest_ref s) \<and>
     opt_ok record_ref_fields_ok (wst_delta_manifest_ref s) \<and> ref_list_ok (wst_unresolved_conflict_refs s) \<and>
     ref_list_ok (wst_stale_refs s) \<and> timestamp_ok (wst_materialized_at_ms s) \<and>
     OpaqueId (wst_source_transaction_id s) \<and> Sha256 (wst_state_sha256 s)"

definition validate_state_id :: "(nat list \<Rightarrow> string) \<Rightarrow> world_state \<Rightarrow> unit result" where
  "validate_state_id H s =
     bind_result (canonical_sha256 H (jobj
       [(''domain'', jstr ''tiangong.world.state-id.v1''),
        (''world_scope_hash'', jstr (sc_world_scope_hash (wst_scope s))),
        (''world_cut_ref'', record_ref_dump (wst_world_cut_ref s)),
        (''world_sequence'', PInt (wst_world_sequence s)),
        (''source_transaction_id'', jstr (wst_source_transaction_id s))]))
       (\<lambda>h. if wst_world_state_id s \<noteq> ''wst_'' @ h then invalid ''world state id mismatch'' else Inr ())"

definition WorldState :: "(nat list \<Rightarrow> string) \<Rightarrow> (ustring \<Rightarrow> ustring) \<Rightarrow> world_state \<Rightarrow> world_state result" where
  "WorldState H nfc s =
     (if \<not> (world_state_fields_ok s \<and> ok (WorldScope H nfc (wst_scope s))) then invalid ''field constraint''
      else bind_result (validate_state_id H s) (\<lambda>_. Inr s))"

definition world_state_dump :: "world_state \<Rightarrow> (string \<times> pyval) list" where
  "world_state_dump s =
     [(''schema_version'', jstr WORLD_SCHEMA_VERSION), (''world_state_id'', jstr (wst_world_state_id s)),
      (''scope'', world_scope_dump (wst_scope s)), (''frame_ref'', record_ref_dump (wst_frame_ref s)),
      (''world_cut_ref'', record_ref_dump (wst_world_cut_ref s)),
      (''world_sequence'', PInt (wst_world_sequence s)),
      (''observation_cutoff_ref'', jsome record_ref_dump (wst_observation_cutoff_ref s)),
      (''entity_head_manifest_ref'', record_ref_dump (wst_entity_head_manifest_ref s)),
      (''relation_head_manifest_ref'', record_ref_dump (wst_relation_head_manifest_ref s)),
      (''cognition_head_manifest_ref'', jsome record_ref_dump (wst_cognition_head_manifest_ref s)),
      (''active_hypothesis_manifest_ref'', jsome record_ref_dump (wst_active_hypothesis_manifest_ref s)),
      (''delta_manifest_ref'', jsome record_ref_dump (wst_delta_manifest_ref s)),
      (''unresolved_conflict_refs'', record_refs_dump (wst_unresolved_conflict_refs s)),
      (''stale_refs'', record_refs_dump (wst_stale_refs s)),
      (''materialized_at_ms'', PInt (wst_materialized_at_ms s)),
      (''source_transaction_id'', jstr (wst_source_transaction_id s)),
      (''empirical_evidence_weight_milli'', PInt 0), (''may_authorize'', PBool False), (''may_execute'', PBool False)]"

definition state_has_valid_hash :: "(nat list \<Rightarrow> string) \<Rightarrow> world_state \<Rightarrow> bool result" where
  "state_has_valid_hash H s = has_valid_sha256 H (world_state_dump s) (wst_state_sha256 s)"

section \<open>Knowledge gaps\<close>

record knowledge_gap =
  kg_gap_id :: string
  kg_scope :: world_scope
  kg_subject_refs :: "record_ref list"
  kg_uncertainty_milli :: int
  kg_conflict_milli :: int
  kg_observability_gap_milli :: int
  kg_staleness_milli :: int
  kg_prediction_error_milli :: int
  kg_impact_milli :: int
  kg_relevance_milli :: int
  kg_gap_score_milli :: int
  kg_missing_evidence_types :: "string list"
  kg_basis_refs :: "record_ref list"
  kg_gap_sha256 :: string

definition derive_knowledge_gap_id ::
    "(nat list \<Rightarrow> string) \<Rightarrow> string \<Rightarrow> record_ref list \<Rightarrow> string list \<Rightarrow> record_ref list \<Rightarrow> string result" where
  "derive_knowledge_gap_id H world_scope_hash subject_refs missing_evidence_types basis_refs =
     bind_result (canonical_sha256 H (jobj
       [(''domain'', jstr ''tiangong.world.knowledge-gap-id.v1''), (''world_scope_hash'', jstr world_scope_hash),
        (''subject_refs'', record_refs_dump subject_refs),
        (''missing_evidence_types'', jstrs missing_evidence_types),
        (''basis_refs'', record_refs_dump basis_refs)]))
       (\<lambda>h. Inr (''wgap_'' @ h))"

definition knowledge_gap_fields_ok :: "knowledge_gap \<Rightarrow> bool" where
  "knowledge_gap_fields_ok g \<longleftrightarrow>
     prefixed_sha256 ''wgap_'' (kg_gap_id g) \<and> ref_list_ok (kg_subject_refs g) \<and>
     milli (kg_uncertainty_milli g) \<and> milli (kg_conflict_milli g) \<and> milli (kg_observability_gap_milli g) \<and>
     milli (kg_staleness_milli g) \<and> milli (kg_prediction_error_milli g) \<and> milli (kg_impact_milli g) \<and>
     milli (kg_relevance_milli g) \<and> milli (kg_gap_score_milli g) \<and> code_list_ok (kg_missing_evidence_types g) \<and>
     ref_list_ok (kg_basis_refs g) \<and> Sha256 (kg_gap_sha256 g)"

definition KnowledgeGap :: "(nat list \<Rightarrow> string) \<Rightarrow> (ustring \<Rightarrow> ustring) \<Rightarrow> knowledge_gap \<Rightarrow> knowledge_gap result" where
  "KnowledgeGap H nfc g =
     (if \<not> (knowledge_gap_fields_ok g \<and> ok (WorldScope H nfc (kg_scope g))) then invalid ''field constraint''
      else bind_result (derive_knowledge_gap_id H (sc_world_scope_hash (kg_scope g)) (kg_subject_refs g)
             (kg_missing_evidence_types g) (kg_basis_refs g))
        (\<lambda>expected. if kg_gap_id g \<noteq> expected then invalid ''knowledge gap id mismatch'' else Inr g))"

definition knowledge_gap_dump :: "knowledge_gap \<Rightarrow> (string \<times> pyval) list" where
  "knowledge_gap_dump g =
     [(''gap_id'', jstr (kg_gap_id g)), (''scope'', world_scope_dump (kg_scope g)),
      (''subject_refs'', record_refs_dump (kg_subject_refs g)),
      (''uncertainty_milli'', PInt (kg_uncertainty_milli g)), (''conflict_milli'', PInt (kg_conflict_milli g)),
      (''observability_gap_milli'', PInt (kg_observability_gap_milli g)),
      (''staleness_milli'', PInt (kg_staleness_milli g)),
      (''prediction_error_milli'', PInt (kg_prediction_error_milli g)),
      (''impact_milli'', PInt (kg_impact_milli g)), (''relevance_milli'', PInt (kg_relevance_milli g)),
      (''gap_score_milli'', PInt (kg_gap_score_milli g)),
      (''missing_evidence_types'', jstrs (kg_missing_evidence_types g)),
      (''basis_refs'', record_refs_dump (kg_basis_refs g)),
      (''empirical_evidence_weight_milli'', PInt 0), (''may_execute'', PBool False)]"

definition gap_has_valid_hash :: "(nat list \<Rightarrow> string) \<Rightarrow> knowledge_gap \<Rightarrow> bool result" where
  "gap_has_valid_hash H g = has_valid_sha256 H (knowledge_gap_dump g) (kg_gap_sha256 g)"

definition gap_with_computed_hash :: "(nat list \<Rightarrow> string) \<Rightarrow> knowledge_gap \<Rightarrow> knowledge_gap result" where
  "gap_with_computed_hash H g =
     bind_result (computed_sha256 H (knowledge_gap_dump g)) (\<lambda>h. Inr (g\<lparr>kg_gap_sha256 := h\<rparr>))"

section \<open>Curiosity\<close>

record world_curiosity =
  cu_curiosity_id :: string
  cu_scope :: world_scope
  cu_frame_ref :: "record_ref option"
  cu_subject_refs :: "record_ref list"
  cu_question :: ustring
  cu_curiosity_kind :: string
  cu_trigger_reasons :: "string list"
  cu_uncertainty_milli :: int
  cu_novelty_milli :: int
  cu_prediction_error_milli :: int
  cu_conflict_milli :: int
  cu_impact_milli :: int
  cu_task_relevance_milli :: int
  cu_expected_information_gain_milli :: int
  cu_expected_cost_milli :: int
  cu_missing_evidence_types :: "string list"
  cu_provenance_refs :: "record_ref list"
  cu_created_at_ms :: int
  cu_expires_at_ms :: "int option"
  cu_curiosity_sha256 :: string

definition derive_curiosity_id ::
    "(nat list \<Rightarrow> string) \<Rightarrow> string \<Rightarrow> record_ref option \<Rightarrow> ustring \<Rightarrow> record_ref list \<Rightarrow> record_ref list \<Rightarrow> int \<Rightarrow>
     string result" where
  "derive_curiosity_id H world_scope_hash frame_ref question subject_refs provenance_refs created_at_ms =
     bind_result (canonical_sha256 H (jobj
       [(''domain'', jstr ''tiangong.world.curiosity-id.v1''), (''world_scope_hash'', jstr world_scope_hash),
        (''frame_ref'', jsome record_ref_dump frame_ref), (''question'', jtext question),
        (''subject_refs'', record_refs_dump subject_refs), (''provenance_refs'', record_refs_dump provenance_refs),
        (''created_at_ms'', PInt created_at_ms)]))
       (\<lambda>h. Inr (''wcur_'' @ h))"

definition world_curiosity_fields_ok :: "world_curiosity \<Rightarrow> bool" where
  "world_curiosity_fields_ok c \<longleftrightarrow>
     prefixed_sha256 ''wcur_'' (cu_curiosity_id c) \<and> opt_ok record_ref_fields_ok (cu_frame_ref c) \<and>
     ref_list_ok (cu_subject_refs c) \<and> question_ok (cu_question c) \<and> OpaqueId (cu_curiosity_kind c) \<and>
     code_list_ok (cu_trigger_reasons c) \<and> milli (cu_uncertainty_milli c) \<and> milli (cu_novelty_milli c) \<and>
     milli (cu_prediction_error_milli c) \<and> milli (cu_conflict_milli c) \<and> milli (cu_impact_milli c) \<and>
     milli (cu_task_relevance_milli c) \<and> milli (cu_expected_information_gain_milli c) \<and>
     0 \<le> cu_expected_cost_milli c \<and> cu_expected_cost_milli c \<le> 1000000 \<and>
     code_list_ok (cu_missing_evidence_types c) \<and> ref_list_ok (cu_provenance_refs c) \<and>
     timestamp_ok (cu_created_at_ms c) \<and> opt_ok timestamp_ok (cu_expires_at_ms c) \<and> Sha256 (cu_curiosity_sha256 c)"

definition curiosity_check :: "(nat list \<Rightarrow> string) \<Rightarrow> world_curiosity \<Rightarrow> unit result" where
  "curiosity_check H c =
     (if \<not> opt_ok (\<lambda>t. cu_created_at_ms c \<le> t) (cu_expires_at_ms c)
      then invalid ''curiosity expiry precedes creation''
      else bind_result (derive_curiosity_id H (sc_world_scope_hash (cu_scope c)) (cu_frame_ref c) (cu_question c)
             (cu_subject_refs c) (cu_provenance_refs c) (cu_created_at_ms c))
        (\<lambda>expected. if cu_curiosity_id c \<noteq> expected then invalid ''curiosity id mismatch'' else Inr ()))"

definition WorldCuriosity ::
    "(nat list \<Rightarrow> string) \<Rightarrow> (ustring \<Rightarrow> ustring) \<Rightarrow> world_curiosity \<Rightarrow> world_curiosity result" where
  "WorldCuriosity H nfc c =
     (if \<not> (world_curiosity_fields_ok c \<and> ok (WorldScope H nfc (cu_scope c))) then invalid ''field constraint''
      else bind_result (curiosity_check H c) (\<lambda>_. Inr c))"

definition world_curiosity_dump :: "world_curiosity \<Rightarrow> (string \<times> pyval) list" where
  "world_curiosity_dump c =
     [(''curiosity_id'', jstr (cu_curiosity_id c)), (''scope'', world_scope_dump (cu_scope c)),
      (''frame_ref'', jsome record_ref_dump (cu_frame_ref c)),
      (''subject_refs'', record_refs_dump (cu_subject_refs c)), (''question'', jtext (cu_question c)),
      (''curiosity_kind'', jstr (cu_curiosity_kind c)), (''trigger_reasons'', jstrs (cu_trigger_reasons c)),
      (''uncertainty_milli'', PInt (cu_uncertainty_milli c)), (''novelty_milli'', PInt (cu_novelty_milli c)),
      (''prediction_error_milli'', PInt (cu_prediction_error_milli c)),
      (''conflict_milli'', PInt (cu_conflict_milli c)), (''impact_milli'', PInt (cu_impact_milli c)),
      (''task_relevance_milli'', PInt (cu_task_relevance_milli c)),
      (''expected_information_gain_milli'', PInt (cu_expected_information_gain_milli c)),
      (''expected_cost_milli'', PInt (cu_expected_cost_milli c)),
      (''missing_evidence_types'', jstrs (cu_missing_evidence_types c)),
      (''provenance_refs'', record_refs_dump (cu_provenance_refs c)),
      (''created_at_ms'', PInt (cu_created_at_ms c)), (''expires_at_ms'', joptint (cu_expires_at_ms c)),
      (''empirical_evidence_weight_milli'', PInt 0), (''may_authorize'', PBool False),
      (''may_execute'', PBool False), (''may_call_tools'', PBool False)]"

definition curiosity_has_valid_hash :: "(nat list \<Rightarrow> string) \<Rightarrow> world_curiosity \<Rightarrow> bool result" where
  "curiosity_has_valid_hash H c = has_valid_sha256 H (world_curiosity_dump c) (cu_curiosity_sha256 c)"

definition curiosity_with_computed_hash :: "(nat list \<Rightarrow> string) \<Rightarrow> world_curiosity \<Rightarrow> world_curiosity result" where
  "curiosity_with_computed_hash H c =
     bind_result (computed_sha256 H (world_curiosity_dump c)) (\<lambda>h. Inr (c\<lparr>cu_curiosity_sha256 := h\<rparr>))"

section \<open>Inquiries\<close>

definition InquiryStatus :: "string list" where
  "InquiryStatus =
     [''PENDING'', ''DEFERRED'', ''ACCEPTED'', ''DECLINED'', ''SATISFIED'', ''EXPIRED'', ''CANCELLED'']"

definition SelfWillDecision :: "string list" where
  "SelfWillDecision = [''ACCEPT'', ''DEFER'', ''DISMISS'', ''EXPIRE'']"

definition derive_inquiry_id ::
    "(nat list \<Rightarrow> string) \<Rightarrow> string \<Rightarrow> ustring \<Rightarrow> string \<Rightarrow> record_ref list \<Rightarrow> string result" where
  "derive_inquiry_id H world_scope_hash question knowledge_gap_id subject_refs =
     bind_result (canonical_sha256 H (jobj
       [(''domain'', jstr ''tiangong.world.inquiry-slot-id.v1''), (''world_scope_hash'', jstr world_scope_hash),
        (''question'', jtext question), (''knowledge_gap_id'', jstr knowledge_gap_id),
        (''subject_refs'', record_refs_dump subject_refs)]))
       (\<lambda>h. Inr (''winq_'' @ h))"

record world_inquiry =
  wi_inquiry_id :: string
  wi_correlation_id :: string
  wi_curiosity_id :: string
  wi_knowledge_gap_id :: string
  wi_scope :: world_scope
  wi_frame_ref :: "record_ref option"
  wi_subject_refs :: "record_ref list"
  wi_question :: ustring
  wi_inquiry_kind :: string
  wi_reason_codes :: "string list"
  wi_missing_evidence_types :: "string list"
  wi_supporting_refs :: "record_ref list"
  wi_conflict_refs :: "record_ref list"
  wi_expected_information_gain_milli :: int
  wi_impact_milli :: int
  wi_urgency_milli :: int
  wi_estimated_cost_class :: string
  wi_risk_hint :: string
  wi_suggested_observation_modalities :: "string list"
  wi_source_world_state_ref :: "record_ref option"
  wi_source_cognition_refs :: "record_ref list"
  wi_dedup_key :: string
  wi_parent_inquiry_id :: "string option"
  wi_generation :: int
  wi_inquiry_budget_remaining :: int
  wi_status :: string
  wi_self_will_decision_ref :: "record_ref option"
  wi_resulting_observation_refs :: "record_ref list"
  wi_revision :: int
  wi_supersedes_inquiry_sha256 :: "string option"
  wi_created_at_ms :: int
  wi_expires_at_ms :: "int option"
  wi_authorization :: string
  wi_may_execute :: bool
  wi_may_call_tools :: bool
  wi_may_authorize :: bool
  wi_empirical_evidence_weight_milli :: int
  wi_inquiry_sha256 :: string

definition inquiry_literals_ok :: "world_inquiry \<Rightarrow> bool" where
  "inquiry_literals_ok q \<longleftrightarrow>
     wi_authorization q = ''NONE'' \<and> \<not> wi_may_execute q \<and> \<not> wi_may_call_tools q \<and> \<not> wi_may_authorize q \<and>
     wi_empirical_evidence_weight_milli q = 0"

definition inquiry_refs_ok :: "world_inquiry \<Rightarrow> bool" where
  "inquiry_refs_ok q \<longleftrightarrow>
     opt_ok record_ref_fields_ok (wi_frame_ref q) \<and> ref_list_ok (wi_subject_refs q) \<and>
     ref_list_ok (wi_supporting_refs q) \<and> ref_list_ok (wi_conflict_refs q) \<and>
     opt_ok record_ref_fields_ok (wi_source_world_state_ref q) \<and> ref_list_ok (wi_source_cognition_refs q) \<and>
     opt_ok record_ref_fields_ok (wi_self_will_decision_ref q) \<and> ref_list_ok (wi_resulting_observation_refs q)"

definition inquiry_codes_ok :: "world_inquiry \<Rightarrow> bool" where
  "inquiry_codes_ok q \<longleftrightarrow>
     prefixed_sha256 ''winq_'' (wi_inquiry_id q) \<and> OpaqueId (wi_correlation_id q) \<and>
     prefixed_sha256 ''wcur_'' (wi_curiosity_id q) \<and> prefixed_sha256 ''wgap_'' (wi_knowledge_gap_id q) \<and>
     question_ok (wi_question q) \<and> OpaqueId (wi_inquiry_kind q) \<and> code_list_ok (wi_reason_codes q) \<and>
     code_list_ok (wi_missing_evidence_types q) \<and> code_list_ok (wi_suggested_observation_modalities q) \<and>
     wi_estimated_cost_class q \<in> {''LOW'', ''MEDIUM'', ''HIGH'', ''UNKNOWN''} \<and>
     wi_risk_hint q \<in> {''A0'', ''A1'', ''A2'', ''A3'', ''A4'', ''A5'', ''UNKNOWN''} \<and>
     Sha256 (wi_dedup_key q) \<and> opt_ok (prefixed_sha256 ''winq_'') (wi_parent_inquiry_id q) \<and>
     wi_status q \<in> set InquiryStatus \<and> opt_ok Sha256 (wi_supersedes_inquiry_sha256 q) \<and> Sha256 (wi_inquiry_sha256 q)"

definition inquiry_numbers_ok :: "world_inquiry \<Rightarrow> bool" where
  "inquiry_numbers_ok q \<longleftrightarrow>
     milli (wi_expected_information_gain_milli q) \<and> milli (wi_impact_milli q) \<and> milli (wi_urgency_milli q) \<and>
     0 \<le> wi_generation q \<and> wi_generation q \<le> 1024 \<and>
     0 \<le> wi_inquiry_budget_remaining q \<and> wi_inquiry_budget_remaining q \<le> 1000000 \<and>
     1 \<le> wi_revision q \<and> wi_revision q \<le> MAX_SAFE_INTEGER \<and> timestamp_ok (wi_created_at_ms q) \<and>
     opt_ok timestamp_ok (wi_expires_at_ms q)"

definition inquiry_check :: "(nat list \<Rightarrow> string) \<Rightarrow> world_inquiry \<Rightarrow> unit result" where
  "inquiry_check H q =
     (if (wi_revision q = 1) \<noteq> (wi_supersedes_inquiry_sha256 q = None) then invalid ''inquiry revision lineage invalid''
      else if \<not> opt_ok (\<lambda>t. wi_created_at_ms q \<le> t) (wi_expires_at_ms q)
      then invalid ''inquiry expiry precedes creation''
      else if wi_generation q = 0 \<and> wi_parent_inquiry_id q \<noteq> None then invalid ''genesis inquiry cannot have a parent''
      else if 0 < wi_generation q \<and> wi_parent_inquiry_id q = None then invalid ''child inquiry requires parent inquiry id''
      else bind_result (derive_inquiry_id H (sc_world_scope_hash (wi_scope q)) (wi_question q) (wi_knowledge_gap_id q)
             (wi_subject_refs q))
        (\<lambda>expected. if wi_inquiry_id q \<noteq> expected then invalid ''inquiry stable id mismatch'' else Inr ()))"

definition WorldInquiry :: "(nat list \<Rightarrow> string) \<Rightarrow> (ustring \<Rightarrow> ustring) \<Rightarrow> world_inquiry \<Rightarrow> world_inquiry result" where
  "WorldInquiry H nfc q =
     (if \<not> (inquiry_codes_ok q \<and> ok (WorldScope H nfc (wi_scope q)) \<and> inquiry_refs_ok q \<and> inquiry_numbers_ok q \<and>
            inquiry_literals_ok q)
      then invalid ''field constraint''
      else bind_result (inquiry_check H q) (\<lambda>_. Inr q))"

definition world_inquiry_dump :: "world_inquiry \<Rightarrow> (string \<times> pyval) list" where
  "world_inquiry_dump q =
     [(''schema_version'', jstr WORLD_SCHEMA_VERSION), (''inquiry_id'', jstr (wi_inquiry_id q)),
      (''correlation_id'', jstr (wi_correlation_id q)), (''curiosity_id'', jstr (wi_curiosity_id q)),
      (''knowledge_gap_id'', jstr (wi_knowledge_gap_id q)), (''scope'', world_scope_dump (wi_scope q)),
      (''frame_ref'', jsome record_ref_dump (wi_frame_ref q)),
      (''subject_refs'', record_refs_dump (wi_subject_refs q)), (''question'', jtext (wi_question q)),
      (''inquiry_kind'', jstr (wi_inquiry_kind q)), (''reason_codes'', jstrs (wi_reason_codes q)),
      (''missing_evidence_types'', jstrs (wi_missing_evidence_types q)),
      (''supporting_refs'', record_refs_dump (wi_supporting_refs q)),
      (''conflict_refs'', record_refs_dump (wi_conflict_refs q)),
      (''expected_information_gain_milli'', PInt (wi_expected_information_gain_milli q)),
      (''impact_milli'', PInt (wi_impact_milli q)), (''urgency_milli'', PInt (wi_urgency_milli q)),
      (''estimated_cost_class'', jstr (wi_estimated_cost_class q)), (''risk_hint'', jstr (wi_risk_hint q)),
      (''suggested_observation_modalities'', jstrs (wi_suggested_observation_modalities q)),
      (''source_world_state_ref'', jsome record_ref_dump (wi_source_world_state_ref q)),
      (''source_cognition_refs'', record_refs_dump (wi_source_cognition_refs q)),
      (''dedup_key'', jstr (wi_dedup_key q)), (''parent_inquiry_id'', jopt (wi_parent_inquiry_id q)),
      (''generation'', PInt (wi_generation q)),
      (''inquiry_budget_remaining'', PInt (wi_inquiry_budget_remaining q)), (''status'', jstr (wi_status q)),
      (''self_will_decision_ref'', jsome record_ref_dump (wi_self_will_decision_ref q)),
      (''resulting_observation_refs'', record_refs_dump (wi_resulting_observation_refs q)),
      (''revision'', PInt (wi_revision q)), (''supersedes_inquiry_sha256'', jopt (wi_supersedes_inquiry_sha256 q)),
      (''created_at_ms'', PInt (wi_created_at_ms q)), (''expires_at_ms'', joptint (wi_expires_at_ms q)),
      (''authorization'', jstr (wi_authorization q)), (''may_execute'', PBool (wi_may_execute q)),
      (''may_call_tools'', PBool (wi_may_call_tools q)), (''may_authorize'', PBool (wi_may_authorize q)),
      (''empirical_evidence_weight_milli'', PInt (wi_empirical_evidence_weight_milli q))]"

definition inquiry_has_valid_hash :: "(nat list \<Rightarrow> string) \<Rightarrow> world_inquiry \<Rightarrow> bool result" where
  "inquiry_has_valid_hash H q = has_valid_sha256 H (world_inquiry_dump q) (wi_inquiry_sha256 q)"

definition inquiry_with_computed_hash :: "(nat list \<Rightarrow> string) \<Rightarrow> world_inquiry \<Rightarrow> world_inquiry result" where
  "inquiry_with_computed_hash H q =
     bind_result (computed_sha256 H (world_inquiry_dump q)) (\<lambda>h. Inr (q\<lparr>wi_inquiry_sha256 := h\<rparr>))"

section \<open>Outcomes\<close>

record inquiry_outcome =
  io_outcome_id :: string
  io_scope :: world_scope
  io_inquiry_id :: string
  io_self_will_decision :: string
  io_autonomous_intent_id :: "string option"
  io_run_id :: "string option"
  io_execution_ticket_id :: "string option"
  io_resulting_source_envelope_refs :: "record_ref list"
  io_observation_refs :: "record_ref list"
  io_evidence_refs :: "record_ref list"
  io_resolved :: bool
  io_residual_gap_milli :: int
  io_information_gain_milli :: int
  io_changed_cognition_refs :: "record_ref list"
  io_changed_world_state_refs :: "record_ref list"
  io_closed_at_ms :: int
  io_empirical_evidence_weight_milli :: int
  io_outcome_sha256 :: string

definition derive_inquiry_outcome_id ::
    "(nat list \<Rightarrow> string) \<Rightarrow> string \<Rightarrow> string \<Rightarrow> string \<Rightarrow> int \<Rightarrow> record_ref list \<Rightarrow> string result" where
  "derive_inquiry_outcome_id H world_scope_hash inquiry_id self_will_decision closed_at_ms
       resulting_source_envelope_refs =
     bind_result (canonical_sha256 H (jobj
       [(''domain'', jstr ''tiangong.world.inquiry-outcome-id.v1''), (''world_scope_hash'', jstr world_scope_hash),
        (''inquiry_id'', jstr inquiry_id), (''self_will_decision'', jstr self_will_decision),
        (''closed_at_ms'', PInt closed_at_ms),
        (''resulting_source_envelope_refs'', record_refs_dump resulting_source_envelope_refs)]))
       (\<lambda>h. Inr (''wiout_'' @ h))"

definition inquiry_outcome_fields_ok :: "inquiry_outcome \<Rightarrow> bool" where
  "inquiry_outcome_fields_ok x \<longleftrightarrow>
     prefixed_sha256 ''wiout_'' (io_outcome_id x) \<and> prefixed_sha256 ''winq_'' (io_inquiry_id x) \<and>
     io_self_will_decision x \<in> set SelfWillDecision \<and> opt_ok OpaqueId (io_autonomous_intent_id x) \<and>
     opt_ok OpaqueId (io_run_id x) \<and> opt_ok OpaqueId (io_execution_ticket_id x) \<and>
     ref_list_ok (io_resulting_source_envelope_refs x) \<and> ref_list_ok (io_observation_refs x) \<and>
     ref_list_ok (io_evidence_refs x) \<and> milli (io_residual_gap_milli x) \<and> milli (io_information_gain_milli x) \<and>
     ref_list_ok (io_changed_cognition_refs x) \<and> ref_list_ok (io_changed_world_state_refs x) \<and>
     timestamp_ok (io_closed_at_ms x) \<and> io_empirical_evidence_weight_milli x = 0 \<and> Sha256 (io_outcome_sha256 x)"

definition outcome_check :: "(nat list \<Rightarrow> string) \<Rightarrow> inquiry_outcome \<Rightarrow> unit result" where
  "outcome_check H x =
     (if io_resolved x \<and> io_self_will_decision x = ''ACCEPT'' \<and>
         \<not> (io_resulting_source_envelope_refs x \<noteq> [] \<or> io_observation_refs x \<noteq> [] \<or> io_evidence_refs x \<noteq> [])
      then invalid ''resolved accepted inquiry requires independent reality results''
      else bind_result (derive_inquiry_outcome_id H (sc_world_scope_hash (io_scope x)) (io_inquiry_id x)
             (io_self_will_decision x) (io_closed_at_ms x) (io_resulting_source_envelope_refs x))
        (\<lambda>expected. if io_outcome_id x \<noteq> expected then invalid ''inquiry outcome id mismatch'' else Inr ()))"

definition InquiryOutcome ::
    "(nat list \<Rightarrow> string) \<Rightarrow> (ustring \<Rightarrow> ustring) \<Rightarrow> inquiry_outcome \<Rightarrow> inquiry_outcome result" where
  "InquiryOutcome H nfc x =
     (if \<not> (inquiry_outcome_fields_ok x \<and> ok (WorldScope H nfc (io_scope x))) then invalid ''field constraint''
      else bind_result (outcome_check H x) (\<lambda>_. Inr x))"

definition inquiry_outcome_dump :: "inquiry_outcome \<Rightarrow> (string \<times> pyval) list" where
  "inquiry_outcome_dump x =
     [(''outcome_id'', jstr (io_outcome_id x)), (''scope'', world_scope_dump (io_scope x)),
      (''inquiry_id'', jstr (io_inquiry_id x)), (''self_will_decision'', jstr (io_self_will_decision x)),
      (''autonomous_intent_id'', jopt (io_autonomous_intent_id x)), (''run_id'', jopt (io_run_id x)),
      (''execution_ticket_id'', jopt (io_execution_ticket_id x)),
      (''resulting_source_envelope_refs'', record_refs_dump (io_resulting_source_envelope_refs x)),
      (''observation_refs'', record_refs_dump (io_observation_refs x)),
      (''evidence_refs'', record_refs_dump (io_evidence_refs x)), (''resolved'', PBool (io_resolved x)),
      (''residual_gap_milli'', PInt (io_residual_gap_milli x)),
      (''information_gain_milli'', PInt (io_information_gain_milli x)),
      (''changed_cognition_refs'', record_refs_dump (io_changed_cognition_refs x)),
      (''changed_world_state_refs'', record_refs_dump (io_changed_world_state_refs x)),
      (''closed_at_ms'', PInt (io_closed_at_ms x)),
      (''empirical_evidence_weight_milli'', PInt (io_empirical_evidence_weight_milli x)),
      (''evidence_authority'', jstr ''none''), (''may_authorize'', PBool False), (''may_execute'', PBool False)]"

definition outcome_has_valid_hash :: "(nat list \<Rightarrow> string) \<Rightarrow> inquiry_outcome \<Rightarrow> bool result" where
  "outcome_has_valid_hash H x = has_valid_sha256 H (inquiry_outcome_dump x) (io_outcome_sha256 x)"

definition outcome_with_computed_hash :: "(nat list \<Rightarrow> string) \<Rightarrow> inquiry_outcome \<Rightarrow> inquiry_outcome result" where
  "outcome_with_computed_hash H x =
     bind_result (computed_sha256 H (inquiry_outcome_dump x)) (\<lambda>h. Inr (x\<lparr>io_outcome_sha256 := h\<rparr>))"

section \<open>Seals\<close>

interpretation gap_seal: sealed_record knowledge_gap_dump kg_gap_sha256 "\<lambda>h g. g\<lparr>kg_gap_sha256 := h\<rparr>"
  by standard (simp_all add: knowledge_gap_dump_def)

interpretation curiosity_seal: sealed_record world_curiosity_dump cu_curiosity_sha256
    "\<lambda>h c. c\<lparr>cu_curiosity_sha256 := h\<rparr>"
  by standard (simp_all add: world_curiosity_dump_def)

interpretation inquiry_seal: sealed_record world_inquiry_dump wi_inquiry_sha256 "\<lambda>h q. q\<lparr>wi_inquiry_sha256 := h\<rparr>"
  by standard (simp_all add: world_inquiry_dump_def)

interpretation outcome_seal: sealed_record inquiry_outcome_dump io_outcome_sha256 "\<lambda>h x. x\<lparr>io_outcome_sha256 := h\<rparr>"
  by standard (simp_all add: inquiry_outcome_dump_def)

lemma gap_sealed:
  assumes "gap_with_computed_hash H g = Inr g'"
  shows "gap_has_valid_hash H g' = Inr True" "\<exists>h. computed_sha256 H (knowledge_gap_dump g) = Inr h \<and> g' = g\<lparr>kg_gap_sha256 := h\<rparr>"
  using assms gap_seal.sealing_is_valid
  by (auto simp: gap_with_computed_hash_def gap_has_valid_hash_def bind_result_eq_Inr)

lemma curiosity_sealed:
  assumes "curiosity_with_computed_hash H c = Inr c'"
  shows "curiosity_has_valid_hash H c' = Inr True"
    "\<exists>h. computed_sha256 H (world_curiosity_dump c) = Inr h \<and> c' = c\<lparr>cu_curiosity_sha256 := h\<rparr>"
  using assms curiosity_seal.sealing_is_valid
  by (auto simp: curiosity_with_computed_hash_def curiosity_has_valid_hash_def bind_result_eq_Inr)

lemma inquiry_sealed:
  assumes "inquiry_with_computed_hash H q = Inr q'"
  shows "inquiry_has_valid_hash H q' = Inr True"
    "\<exists>h. computed_sha256 H (world_inquiry_dump q) = Inr h \<and> q' = q\<lparr>wi_inquiry_sha256 := h\<rparr>"
  using assms inquiry_seal.sealing_is_valid
  by (auto simp: inquiry_with_computed_hash_def inquiry_has_valid_hash_def bind_result_eq_Inr)

lemma outcome_sealed:
  assumes "outcome_with_computed_hash H x = Inr x'"
  shows "outcome_has_valid_hash H x' = Inr True"
    "\<exists>h. computed_sha256 H (inquiry_outcome_dump x) = Inr h \<and> x' = x\<lparr>io_outcome_sha256 := h\<rparr>"
  using assms outcome_seal.sealing_is_valid
  by (auto simp: outcome_with_computed_hash_def outcome_has_valid_hash_def bind_result_eq_Inr)

end
