(* ===== verification/Inquiry.thy ===== *)
theory Inquiry
  imports Dynamics Inquiry_Contracts
begin

text \<open>
  The inquiry output of world understanding (\<open>src/world_understanding/inquiry/\<close>: \<open>knowledge_gap.py\<close>,
  \<open>curiosity.py\<close>, \<open>admission.py\<close>) with the head manifest it reads (\<open>src/world_understanding/world_state/manifests.py\<close>)
  and the step from a closed inquiry back to the backoff controller (\<open>InquiryGainObservation.from_outcome\<close> in
  \<open>src/world_understanding/dynamics/inquiry_backoff.py\<close>).  A materialized world state yields knowledge gaps, a
  gap a curiosity, both an inquiry; admission scores the inquiry and charges a budget with an interactive
  reserve.  Of the snapshot \<open>MaterializedWorldSnapshot\<close> the record holds what the generator reads.  A local
  list that a nested function appends to is threaded through.
\<close>

section \<open>Python text\<close>

definition py_isspace :: "nat \<Rightarrow> bool" where
  "py_isspace c \<longleftrightarrow>
     9 \<le> c \<and> c \<le> 13 \<or> 28 \<le> c \<and> c \<le> 32 \<or> c = 133 \<or> c = 160 \<or> c = 5760 \<or> 8192 \<le> c \<and> c \<le> 8202 \<or>
     c = 8232 \<or> c = 8233 \<or> c = 8239 \<or> c = 8287 \<or> c = 12288"

definition strip_by :: "('a \<Rightarrow> bool) \<Rightarrow> 'a list \<Rightarrow> 'a list" where
  "strip_by p s = rev (dropWhile p (rev (dropWhile p s)))"

fun join_text :: "string \<Rightarrow> string list \<Rightarrow> string" where
  "join_text sep [] = []"
| "join_text sep [s] = s"
| "join_text sep (s # ss) = s @ sep @ join_text sep ss"

section \<open>Head manifests\<close>

record head_manifest =
  hm_kind :: string
  hm_refs :: "record_ref list"
  hm_manifest_sha256 :: string

definition normalize_refs :: "record_ref list \<Rightarrow> record_ref list result" where
  "normalize_refs refs =
     (if length (remdups (map ref_sort_key refs)) \<noteq> length refs then Inl (ValueError ''WORLD_STATE_DUPLICATE_REF'')
      else Inr (dict_values ref_sort_key refs))"

definition HeadManifest_build ::
    "(nat list \<Rightarrow> string) \<Rightarrow> string \<Rightarrow> record_ref list \<Rightarrow> int \<Rightarrow> head_manifest result" where
  "HeadManifest_build H kind refs max_items =
     (if kind \<notin> {''entity_heads'', ''relation_heads'', ''cognition_heads'', ''active_hypotheses'', ''uncertainty''}
      then Inl (ValueError ''WORLD_STATE_MANIFEST_KIND_INVALID'')
      else bind_result (normalize_refs refs) (\<lambda>refs.
        if max_items < int (length refs) then Inl (ValueError ''WORLD_STATE_SNAPSHOT_LIMIT'')
        else bind_result (canonical_sha256 H (jobj
               [(''domain'', jstr ''tiangong.world.state-head-manifest.v1''), (''kind'', jstr kind),
                (''refs'', record_refs_dump refs)]))
          (\<lambda>digest. Inr \<lparr>hm_kind = kind, hm_refs = refs, hm_manifest_sha256 = digest\<rparr>)))"

definition unique_record_refs :: "record_ref list \<Rightarrow> record_ref list" where
  "unique_record_refs values = dict_values ref_sort_key values"

record materialized_snapshot =
  ms_state :: world_state
  ms_uncertainty :: "head_manifest option"

definition state_ref :: "materialized_snapshot \<Rightarrow> record_ref" where
  "state_ref snap =
     \<lparr>wr_record_type = ''world_state'', wr_record_id = wst_world_state_id (ms_state snap),
      wr_revision = Some (wst_world_sequence (ms_state snap) + 1), wr_sha256 = wst_state_sha256 (ms_state snap)\<rparr>"

definition WorldRecordRef :: "record_ref \<Rightarrow> record_ref result" where
  "WorldRecordRef r = (if record_ref_fields_ok r then Inr r else invalid ''field constraint'')"

section \<open>Knowledge gaps\<close>

record gap_config =
  gc_max_gaps :: int
  gc_stale_uncertainty_milli :: int
  gc_conflict_uncertainty_milli :: int
  gc_uncertainty_uncertainty_milli :: int

definition default_gap_config :: gap_config where
  "default_gap_config = \<lparr>gc_max_gaps = 256, gc_stale_uncertainty_milli = 800, gc_conflict_uncertainty_milli = 950,
     gc_uncertainty_uncertainty_milli = 700\<rparr>"

definition KnowledgeGapGeneratorConfig :: "gap_config \<Rightarrow> gap_config result" where
  "KnowledgeGapGeneratorConfig c =
     (if \<not> (1 \<le> gc_max_gaps c \<and> gc_max_gaps c \<le> 4096) then Inl (ValueError ''WORLD_GAP_LIMIT_INVALID'')
      else if list_ex (\<lambda>v. \<not> milli v)
        [gc_stale_uncertainty_milli c, gc_conflict_uncertainty_milli c, gc_uncertainty_uncertainty_milli c]
      then Inl (ValueError ''WORLD_GAP_CONFIG_INVALID'')
      else Inr c)"

text \<open>The keyword arguments of the nested function \<open>add\<close>, which the three loops of \<open>generate\<close> fix.\<close>

record gap_signals =
  gs_missing :: string
  gs_uncertainty :: int
  gs_conflict :: int
  gs_staleness :: int
  gs_observability :: int
  gs_impact :: int
  gs_relevance :: int

definition conflict_signals :: "gap_config \<Rightarrow> gap_signals" where
  "conflict_signals c = \<lparr>gs_missing = ''conflict_discriminating_observation'',
     gs_uncertainty = gc_conflict_uncertainty_milli c, gs_conflict = 1000, gs_staleness = 0,
     gs_observability = 700, gs_impact = 900, gs_relevance = 900\<rparr>"

definition stale_signals :: "gap_config \<Rightarrow> gap_signals" where
  "stale_signals c = \<lparr>gs_missing = ''revalidation_observation'',
     gs_uncertainty = gc_stale_uncertainty_milli c, gs_conflict = 0, gs_staleness = 1000,
     gs_observability = 650, gs_impact = 750, gs_relevance = 850\<rparr>"

definition uncertainty_signals :: "gap_config \<Rightarrow> gap_signals" where
  "uncertainty_signals c = \<lparr>gs_missing = ''uncertainty_reducing_observation'',
     gs_uncertainty = gc_uncertainty_uncertainty_milli c, gs_conflict = 0, gs_staleness = 0,
     gs_observability = 600, gs_impact = 650, gs_relevance = 700\<rparr>"

definition gap_score :: "gap_signals \<Rightarrow> int" where
  "gap_score g =
     min 1000 (max (gs_uncertainty g) (max (gs_conflict g) (max (gs_staleness g) (gs_observability g))) *
       max (gs_impact g) (max (gs_relevance g) 1) div 1000)"

definition build_gap ::
    "(nat list \<Rightarrow> string) \<Rightarrow> (ustring \<Rightarrow> ustring) \<Rightarrow> world_scope \<Rightarrow> record_ref \<Rightarrow> gap_signals \<Rightarrow> record_ref \<Rightarrow>
     knowledge_gap result" where
  "build_gap H nfc scope basis_state g ref =
     (let subjects = [ref]; basis = unique_record_refs [basis_state, ref]; missing_types = [gs_missing g] in
      bind_result (derive_knowledge_gap_id H (sc_world_scope_hash scope) subjects missing_types basis) (\<lambda>gap_id.
      bind_result (KnowledgeGap H nfc
        \<lparr>kg_gap_id = gap_id, kg_scope = scope, kg_subject_refs = subjects, kg_uncertainty_milli = gs_uncertainty g,
         kg_conflict_milli = gs_conflict g, kg_observability_gap_milli = gs_observability g,
         kg_staleness_milli = gs_staleness g, kg_prediction_error_milli = 0, kg_impact_milli = gs_impact g,
         kg_relevance_milli = gs_relevance g, kg_gap_score_milli = gap_score g,
         kg_missing_evidence_types = missing_types, kg_basis_refs = basis, kg_gap_sha256 = UNSET_SHA256\<rparr>)
        (gap_with_computed_hash H)))"

fun add_gaps ::
    "(nat list \<Rightarrow> string) \<Rightarrow> (ustring \<Rightarrow> ustring) \<Rightarrow> int \<Rightarrow> world_scope \<Rightarrow> record_ref \<Rightarrow> gap_signals \<Rightarrow> record_ref list \<Rightarrow>
     knowledge_gap list \<Rightarrow> knowledge_gap list result" where
  "add_gaps H nfc max_gaps scope basis g [] rows = Inr rows"
| "add_gaps H nfc max_gaps scope basis g (ref # refs) rows =
     (if max_gaps \<le> int (length rows) then add_gaps H nfc max_gaps scope basis g refs rows
      else bind_result (build_gap H nfc scope basis g ref)
        (\<lambda>gap. add_gaps H nfc max_gaps scope basis g refs (rows @ [gap])))"

definition known_gap_keys :: "knowledge_gap list \<Rightarrow> (string \<times> string \<times> int \<times> string) list" where
  "known_gap_keys rows =
     concat (map (\<lambda>item. case kg_subject_refs item of [] \<Rightarrow> [] | r # _ \<Rightarrow> [ref_sort_key r]) rows)"

definition generate ::
    "(nat list \<Rightarrow> string) \<Rightarrow> (ustring \<Rightarrow> ustring) \<Rightarrow> gap_config \<Rightarrow> materialized_snapshot \<Rightarrow> knowledge_gap list result" where
  "generate H nfc config snap =
     (let state = ms_state snap; add = add_gaps H nfc (gc_max_gaps config) (wst_scope state);
          uncertainty = (case ms_uncertainty snap of None \<Rightarrow> [] | Some m \<Rightarrow> hm_refs m) in
      bind_result (state_has_valid_hash H state) (\<lambda>valid.
      if \<not> valid then Inl (ValueError ''WORLD_STATE_HASH_INVALID'')
      else bind_result (WorldRecordRef (state_ref snap)) (\<lambda>basis.
        bind_result (add basis (conflict_signals config) (wst_unresolved_conflict_refs state) []) (\<lambda>rows.
        bind_result (add basis (stale_signals config) (wst_stale_refs state) rows) (\<lambda>rows.
        add basis (uncertainty_signals config)
          (filter (\<lambda>ref. ref_sort_key ref \<notin> set (known_gap_keys rows)) uncertainty) rows)))))"

section \<open>Curiosity and inquiry\<close>

definition MODALITY_BY_EVIDENCE :: "(string \<times> string) list" where
  "MODALITY_BY_EVIDENCE =
     [(''revalidation_observation'', ''source_reobservation''),
      (''conflict_discriminating_observation'', ''independent_discriminating_observation''),
      (''uncertainty_reducing_observation'', ''bounded_reality_observation''),
      (''filesystem_observation'', ''filesystem_observation''),
      (''git_observation'', ''git_observation''),
      (''runtime_observation'', ''runtime_observation''),
      (''tool_result_observation'', ''tool_result_observation''),
      (''execution_observation'', ''execution_fact_observation'')]"

text \<open>
  The two regular expressions.  \<open>SAFE_ID\<close> is \<open>_SAFE_ID.fullmatch\<close>, the pattern and length of \<open>OpaqueId\<close>.  The search
  of \<open>_FORBIDDEN_MODALITY\<close> is evaluated on ASCII text only, since a value with any other character has failed
  \<open>SAFE_ID\<close> before: there \<open>IGNORECASE\<close> is \<open>ascii_lower\<close> and \<open>\b\<close> after a letter is the end or a non-word character.
\<close>

definition SAFE_ID :: "string \<Rightarrow> bool" where
  "SAFE_ID s \<longleftrightarrow> OpaqueId s"

definition is_word_char :: "char \<Rightarrow> bool" where
  "is_word_char c \<longleftrightarrow> is_upper c \<or> is_lower c \<or> is_digit c \<or> c = CHR ''_''"

fun ends_with_sh :: "string \<Rightarrow> bool" where
  "ends_with_sh (a # b # rest) =
     (a = CHR ''s'' \<and> b = CHR ''h'' \<and> (case rest of [] \<Rightarrow> True | c # _ \<Rightarrow> \<not> is_word_char c) \<or> ends_with_sh (b # rest))"
| "ends_with_sh _ = False"

definition FORBIDDEN_MODALITY :: "string \<Rightarrow> bool" where
  "FORBIDDEN_MODALITY s \<longleftrightarrow>
     list_ex (\<lambda>c. py_isspace (of_char c) \<or> c \<in> set ''/;|`'' \<or> of_char c = (92 :: nat)) s \<or>
     contains_text ''&&'' s \<or> contains_text ''$('' s \<or> contains_text ''powershell'' (ascii_lower s) \<or>
     contains_text ''cmd'' (ascii_lower s) \<or> contains_text ''bash'' (ascii_lower s) \<or> ends_with_sh (ascii_lower s)"

definition strip :: "string \<Rightarrow> string" where
  "strip s = strip_by (\<lambda>c. py_isspace (of_char c)) s"

definition validate_observation_modalities :: "string list \<Rightarrow> string list result" where
  "validate_observation_modalities values =
     (let normalized = sorted_set (map strip (filter (\<lambda>value. strip value \<noteq> []) values)) in
      if 256 < length normalized then Inl (ValueError ''WORLD_INQUIRY_MODALITY_LIMIT'')
      else if list_ex (\<lambda>value. \<not> SAFE_ID value \<or> FORBIDDEN_MODALITY value) normalized
      then Inl (ValueError ''WORLD_INQUIRY_EXECUTABLE_MODALITY_FORBIDDEN'')
      else Inr normalized)"

definition gap_question :: "knowledge_gap \<Rightarrow> ustring" where
  "gap_question gap =
     (let subject = (case kg_subject_refs gap of [] \<Rightarrow> ''the scoped world state''
            | ref # _ \<Rightarrow> wr_record_type ref @ '':'' @ wr_record_id ref);
          joined = join_text '', '' (kg_missing_evidence_types gap);
          missing = (if joined = [] then ''independent observation'' else joined)
      in ustr (''What independent reality observation would reduce the unresolved gap for '' @ subject @ '' ('' @
           missing @ '')?''))"

definition build_curiosity ::
    "(nat list \<Rightarrow> string) \<Rightarrow> (ustring \<Rightarrow> ustring) \<Rightarrow> knowledge_gap \<Rightarrow> record_ref option \<Rightarrow> int \<Rightarrow> int option \<Rightarrow>
     world_curiosity result" where
  "build_curiosity H nfc gap frame_ref created_at_ms expires_at_ms =
     bind_result (gap_has_valid_hash H gap) (\<lambda>valid.
     if \<not> valid then Inl (ValueError ''WORLD_GAP_HASH_INVALID'')
     else
       let question = gap_question gap; provenance = kg_basis_refs gap in
       bind_result (derive_curiosity_id H (sc_world_scope_hash (kg_scope gap)) frame_ref question
         (kg_subject_refs gap) provenance created_at_ms) (\<lambda>curiosity_id.
       bind_result (WorldCuriosity H nfc
         \<lparr>cu_curiosity_id = curiosity_id, cu_scope = kg_scope gap, cu_frame_ref = frame_ref,
          cu_subject_refs = kg_subject_refs gap, cu_question = question,
          cu_curiosity_kind = ''knowledge_gap_observation'',
          cu_trigger_reasons = sorted_set (kg_missing_evidence_types gap),
          cu_uncertainty_milli = kg_uncertainty_milli gap,
          cu_novelty_milli = min 1000 (500 + kg_observability_gap_milli gap div 2),
          cu_prediction_error_milli = kg_prediction_error_milli gap, cu_conflict_milli = kg_conflict_milli gap,
          cu_impact_milli = kg_impact_milli gap, cu_task_relevance_milli = kg_relevance_milli gap,
          cu_expected_information_gain_milli = min 1000 (max (kg_gap_score_milli gap) (kg_uncertainty_milli gap)),
          cu_expected_cost_milli = max 1 (100 + kg_observability_gap_milli gap),
          cu_missing_evidence_types = kg_missing_evidence_types gap, cu_provenance_refs = provenance,
          cu_created_at_ms = created_at_ms, cu_expires_at_ms = expires_at_ms, cu_curiosity_sha256 = UNSET_SHA256\<rparr>)
         (curiosity_with_computed_hash H)))"

definition modality_of :: "string \<Rightarrow> string" where
  "modality_of value =
     (case map_of MODALITY_BY_EVIDENCE value of None \<Rightarrow> ''bounded_reality_observation'' | Some m \<Rightarrow> m)"

definition inquiry_dedup_key ::
    "(nat list \<Rightarrow> string) \<Rightarrow> knowledge_gap \<Rightarrow> world_curiosity \<Rightarrow> string list \<Rightarrow> string result" where
  "inquiry_dedup_key H gap curiosity modalities =
     canonical_sha256 H (jobj
       [(''domain'', jstr ''tiangong.world.inquiry-dedup.v1''),
        (''world_scope_hash'', jstr (sc_world_scope_hash (kg_scope gap))), (''gap_id'', jstr (kg_gap_id gap)),
        (''question'', jtext (cu_question curiosity)), (''modalities'', jstrs modalities)])"

definition inquiry_of ::
    "knowledge_gap \<Rightarrow> world_curiosity \<Rightarrow> string \<Rightarrow> record_ref option \<Rightarrow> int \<Rightarrow> int option \<Rightarrow> string list \<Rightarrow> string \<Rightarrow> string \<Rightarrow>
     world_inquiry" where
  "inquiry_of gap curiosity correlation_id source_world_state_ref inquiry_budget_remaining created_at_ms
       modalities inquiry_id dedup_key =
     \<lparr>wi_inquiry_id = inquiry_id, wi_correlation_id = correlation_id,
      wi_curiosity_id = cu_curiosity_id curiosity, wi_knowledge_gap_id = kg_gap_id gap, wi_scope = kg_scope gap,
      wi_frame_ref = cu_frame_ref curiosity, wi_subject_refs = kg_subject_refs gap,
      wi_question = cu_question curiosity, wi_inquiry_kind = ''world_observation_request'',
      wi_reason_codes = sorted_set (cu_trigger_reasons curiosity),
      wi_missing_evidence_types = kg_missing_evidence_types gap, wi_supporting_refs = kg_basis_refs gap,
      wi_conflict_refs = (if kg_conflict_milli gap \<noteq> 0 then kg_subject_refs gap else []),
      wi_expected_information_gain_milli = cu_expected_information_gain_milli curiosity,
      wi_impact_milli = kg_impact_milli gap,
      wi_urgency_milli = max (kg_staleness_milli gap) (kg_conflict_milli gap),
      wi_estimated_cost_class = (if cu_expected_cost_milli curiosity \<le> 250 then ''LOW''
        else if cu_expected_cost_milli curiosity \<le> 700 then ''MEDIUM'' else ''HIGH''),
      wi_risk_hint = ''UNKNOWN'', wi_suggested_observation_modalities = modalities,
      wi_source_world_state_ref = source_world_state_ref, wi_source_cognition_refs = [], wi_dedup_key = dedup_key,
      wi_parent_inquiry_id = None, wi_generation = 0,
      wi_inquiry_budget_remaining = max 0 inquiry_budget_remaining, wi_status = ''PENDING'',
      wi_self_will_decision_ref = None, wi_resulting_observation_refs = [], wi_revision = 1,
      wi_supersedes_inquiry_sha256 = None,
      wi_created_at_ms = (case created_at_ms of None \<Rightarrow> cu_created_at_ms curiosity | Some t \<Rightarrow> t),
      wi_expires_at_ms = cu_expires_at_ms curiosity, wi_authorization = ''NONE'', wi_may_execute = False,
      wi_may_call_tools = False, wi_may_authorize = False, wi_empirical_evidence_weight_milli = 0,
      wi_inquiry_sha256 = UNSET_SHA256\<rparr>"

definition build_inquiry ::
    "(nat list \<Rightarrow> string) \<Rightarrow> (ustring \<Rightarrow> ustring) \<Rightarrow> knowledge_gap \<Rightarrow> world_curiosity \<Rightarrow> string \<Rightarrow> record_ref option \<Rightarrow> int \<Rightarrow>
     int option \<Rightarrow> world_inquiry result" where
  "build_inquiry H nfc gap curiosity correlation_id source_world_state_ref inquiry_budget_remaining created_at_ms =
     bind_result (gap_has_valid_hash H gap) (\<lambda>gap_valid.
     bind_result (if gap_valid then curiosity_has_valid_hash H curiosity else Inr False) (\<lambda>valid.
     if \<not> valid then Inl (ValueError ''WORLD_INQUIRY_BASIS_HASH_INVALID'')
     else if kg_scope gap \<noteq> cu_scope curiosity then Inl (ValueError ''WORLD_INQUIRY_SCOPE_MISMATCH'')
     else
       bind_result (validate_observation_modalities (map modality_of (kg_missing_evidence_types gap))) (\<lambda>modalities.
       bind_result (derive_inquiry_id H (sc_world_scope_hash (kg_scope gap)) (cu_question curiosity) (kg_gap_id gap)
         (kg_subject_refs gap)) (\<lambda>inquiry_id.
       bind_result (inquiry_dedup_key H gap curiosity modalities) (\<lambda>dedup_key.
       bind_result (WorldInquiry H nfc (inquiry_of gap curiosity correlation_id source_world_state_ref
           inquiry_budget_remaining created_at_ms modalities inquiry_id dedup_key))
         (inquiry_with_computed_hash H))))))"

section \<open>Admission\<close>

record admission_signals =
  as_user_relevance_milli :: int
  as_novelty_milli :: int
  as_actionability_milli :: int
  as_cost_milli :: int
  as_risk_milli :: int
  as_duplicate_milli :: int
  as_privacy_cost_milli :: int
  as_runtime_pressure_milli :: int
  as_uncertainty_milli :: int
  as_time_remaining_ms :: int
  as_inquiry_count_remaining :: int
  as_privacy_allowed :: bool
  as_user_present :: bool
  as_active_user_task :: bool
  as_backoff_remaining_ms :: int
  as_prior_zero_gain_count :: int

definition InquiryAdmissionSignals :: "admission_signals \<Rightarrow> admission_signals result" where
  "InquiryAdmissionSignals s =
     (if list_ex (\<lambda>v. \<not> milli v)
        [as_user_relevance_milli s, as_novelty_milli s, as_actionability_milli s, as_cost_milli s, as_risk_milli s,
         as_duplicate_milli s, as_privacy_cost_milli s, as_runtime_pressure_milli s, as_uncertainty_milli s]
      then Inl (ValueError ''WORLD_INQUIRY_ADMISSION_SIGNAL_INVALID'')
      else if as_time_remaining_ms s < 0 \<or> as_inquiry_count_remaining s < 0 \<or> as_backoff_remaining_ms s < 0 \<or>
        as_prior_zero_gain_count s < 0
      then Inl (ValueError ''WORLD_INQUIRY_ADMISSION_BUDGET_INVALID'')
      else Inr s)"

record admission_config =
  ac_admit_threshold :: int
  ac_defer_threshold :: int
  ac_minimum_time_remaining_ms :: int

definition default_admission_config :: admission_config where
  "default_admission_config =
     \<lparr>ac_admit_threshold = 900, ac_defer_threshold = 300, ac_minimum_time_remaining_ms = 100\<rparr>"

datatype inquiry_disposition = ADMITTED | DEFERRED | REJECTED

record inquiry_decision =
  qd_disposition :: inquiry_disposition
  qd_reason_code :: string
  qd_score :: int
  qd_charged :: bool

record inquiry_admission =
  ia_config :: admission_config
  ia_budget :: "budget_ledger option"
  ia_admitted_dedup_keys :: "string set"

definition InquiryAdmission :: "admission_config option \<Rightarrow> budget_ledger option \<Rightarrow> inquiry_admission" where
  "InquiryAdmission config bdg =
     \<lparr>ia_config = (case config of None \<Rightarrow> default_admission_config | Some c \<Rightarrow> c), ia_budget = bdg,
      ia_admitted_dedup_keys = {}\<rparr>"

definition inquiry_score :: "(nat list \<Rightarrow> string) \<Rightarrow> world_inquiry \<Rightarrow> admission_signals \<Rightarrow> int result" where
  "inquiry_score H q s =
     bind_result (inquiry_has_valid_hash H q) (\<lambda>valid.
     if \<not> valid then Inl (ValueError ''WORLD_INQUIRY_HASH_INVALID'')
     else
       let positive = wi_expected_information_gain_milli q + as_user_relevance_milli s + wi_impact_milli q +
             as_novelty_milli s + as_actionability_milli s;
           negative = as_cost_milli s + as_risk_milli s + as_duplicate_milli s + as_privacy_cost_milli s +
             as_runtime_pressure_milli s + as_uncertainty_milli s;
           negative = (if as_user_present s \<and> as_active_user_task s then negative + 500 else negative)
       in Inr (positive - negative))"

definition scored :: "inquiry_disposition \<Rightarrow> string \<Rightarrow> int result \<Rightarrow> inquiry_decision result" where
  "scored d reason score = bind_result score (\<lambda>n.
     Inr \<lparr>qd_disposition = d, qd_reason_code = reason, qd_score = n, qd_charged = False\<rparr>)"

text \<open>The guards of \<open>evaluate\<close> before the score decides, as the first disposition that applies.\<close>

definition admission_guard :: "inquiry_admission \<Rightarrow> world_inquiry \<Rightarrow> admission_signals \<Rightarrow> work_cost \<Rightarrow> (inquiry_disposition \<times> string) option" where
  "admission_guard a q s work_cost =
     (if as_inquiry_count_remaining s \<le> 0 then Some (DEFERRED, ''INQUIRY_COUNT_BUDGET'')
      else if as_time_remaining_ms s < ac_minimum_time_remaining_ms (ia_config a)
      then Some (DEFERRED, ''INQUIRY_TIME_BUDGET'')
      else if \<not> as_privacy_allowed s then Some (REJECTED, ''INQUIRY_PRIVACY_FORBIDDEN'')
      else if 0 < as_backoff_remaining_ms s then Some (DEFERRED, ''INQUIRY_ZERO_GAIN_BACKOFF'')
      else if as_user_present s \<and> as_active_user_task s \<and> 500 \<le> as_runtime_pressure_milli s
      then Some (DEFERRED, ''INQUIRY_INTERACTIVE_PRIORITY'')
      else if wi_dedup_key q \<in> ia_admitted_dedup_keys a \<or> 1000 \<le> as_duplicate_milli s
      then Some (REJECTED, ''INQUIRY_DUPLICATE'')
      else if (case ia_budget a of None \<Rightarrow> False | Some l \<Rightarrow> \<not> can_spend l work_cost False)
      then Some (DEFERRED, ''INQUIRY_RESOURCE_RESERVE'')
      else None)"

definition charge_inquiry :: "inquiry_admission \<Rightarrow> world_inquiry \<Rightarrow> work_cost \<Rightarrow> inquiry_admission result" where
  "charge_inquiry a q work_cost =
     bind_result (case ia_budget a of None \<Rightarrow> Inr None
                  | Some l \<Rightarrow> bind_result (spend l work_cost False) (\<lambda>l'. Inr (Some l')))
       (\<lambda>bdg. Inr (a\<lparr>ia_budget := bdg, ia_admitted_dedup_keys := insert (wi_dedup_key q) (ia_admitted_dedup_keys a)\<rparr>))"

definition evaluate_inquiry ::
    "(nat list \<Rightarrow> string) \<Rightarrow> inquiry_admission \<Rightarrow> world_inquiry \<Rightarrow> admission_signals \<Rightarrow> work_cost \<Rightarrow> bool \<Rightarrow>
     inquiry_decision result \<times> inquiry_admission" where
  "evaluate_inquiry H a q s work_cost charge =
     (if wi_authorization q \<noteq> ''NONE'' \<or> wi_may_execute q \<or> wi_may_call_tools q \<or>
         wi_empirical_evidence_weight_milli q \<noteq> 0
      then (Inr \<lparr>qd_disposition = REJECTED, qd_reason_code = ''INQUIRY_AUTHORITY_INVALID'', qd_score = - 10000,
              qd_charged = False\<rparr>, a)
      else case admission_guard a q s work_cost of
        Some (d, reason) \<Rightarrow> (scored d reason (inquiry_score H q s), a)
      | None \<Rightarrow>
          (case inquiry_score H q s of
             Inl e \<Rightarrow> (Inl e, a)
           | Inr score \<Rightarrow>
               if score < ac_defer_threshold (ia_config a)
               then (scored REJECTED ''INQUIRY_LOW_VALUE'' (Inr score), a)
               else if score < ac_admit_threshold (ia_config a)
               then (scored DEFERRED ''INQUIRY_SCORE_DEFER'' (Inr score), a)
               else if charge then
                 (case charge_inquiry a q work_cost of
                    Inl e \<Rightarrow> (Inl e, a)
                  | Inr a' \<Rightarrow> (Inr \<lparr>qd_disposition = ADMITTED, qd_reason_code = ''OK'', qd_score = score,
                       qd_charged = True\<rparr>, a'))
               else (Inr \<lparr>qd_disposition = ADMITTED, qd_reason_code = ''OK'', qd_score = score,
                       qd_charged = False\<rparr>, a)))"

section \<open>From an outcome back to the backoff\<close>

definition from_outcome ::
    "(nat list \<Rightarrow> string) \<Rightarrow> inquiry_outcome \<Rightarrow> string \<Rightarrow> inquiry_gain_observation result" where
  "from_outcome H outcome family_key =
     (if family_key = [] then Inl (ValueError ''INQUIRY_BACKOFF_FAMILY_REQUIRED'')
      else bind_result (outcome_has_valid_hash H outcome) (\<lambda>valid.
        if \<not> valid \<or> io_empirical_evidence_weight_milli outcome \<noteq> 0
        then Inl (ValueError ''INQUIRY_OUTCOME_INVALID_FOR_BACKOFF'')
        else Inr \<lparr>ig_life_id = sc_life_id (io_scope outcome),
               ig_world_scope_hash = sc_world_scope_hash (io_scope outcome), ig_family_key = family_key,
               ig_outcome_sha256 = io_outcome_sha256 outcome, ig_closed_at_ms = io_closed_at_ms outcome,
               ig_information_gain_milli = io_information_gain_milli outcome, ig_resolved = io_resolved outcome\<rparr>))"

section \<open>Runs of the admission\<close>

text \<open>One call of \<open>evaluate\<close>, and a sequence of calls by any clients, with what they charged in order.\<close>

record admission_call =
  cl_inquiry :: world_inquiry
  cl_signals :: admission_signals
  cl_work_cost :: work_cost
  cl_charge :: bool

fun admission_run ::
    "(nat list \<Rightarrow> string) \<Rightarrow> inquiry_admission \<Rightarrow> admission_call list \<Rightarrow> (inquiry_decision result) list \<times> inquiry_admission" where
  "admission_run H a [] = ([], a)"
| "admission_run H a (c # cs) =
     (let (d, a') = evaluate_inquiry H a (cl_inquiry c) (cl_signals c) (cl_work_cost c) (cl_charge c);
          (ds, a'') = admission_run H a' cs
      in (d # ds, a''))"

fun charged_result :: "inquiry_decision result \<Rightarrow> bool" where
  "charged_result (Inl e) = False"
| "charged_result (Inr d) = qd_charged d"

definition charged_calls :: "admission_call list \<Rightarrow> inquiry_decision result list \<Rightarrow> admission_call list" where
  "charged_calls cs ds = map fst (filter (\<lambda>(c, d). charged_result d) (zip cs ds))"

section \<open>From a world state to an inquiry\<close>

lemma representable_record_ref: "record_ref_fields_ok r \<Longrightarrow> representable (record_ref_dump r)"
  by (cases "wr_revision r") (auto simp: record_ref_fields_ok_def record_ref_dump_def safe_int_def MAX_SAFE_INTEGER_def)

lemma representable_ref_list: "ref_list_ok rs \<Longrightarrow> representable (record_refs_dump rs)"
  by (simp add: ref_list_ok_def record_refs_dump_def list_all_iff representable_record_ref)

lemma representable_opt_ref: "opt_ok record_ref_fields_ok r \<Longrightarrow> representable (jsome record_ref_dump r)"
  by (cases r) (simp_all add: jsome_def representable_record_ref)

lemma representable_scope:
  assumes "ok (WorldScope H nfc s)"
  shows "representable (world_scope_dump s)"
proof -
  have "ok (derive_world_scope_hash H (sc_life_id s) (sc_world_id s) (sc_domain_id s) (sc_scope_bindings s))"
    using assms by (auto simp: WorldScope_def invalid_def ok_iff bind_result_eq_Inr split: if_splits)
  then have "representable (PSequence (map scope_binding_dump (sc_scope_bindings s)))"
    by (simp add: derive_world_scope_hash_def ok_canonical_sha256)
  then show ?thesis by (simp add: world_scope_dump_def)
qed

lemma representable_numbers:
  "milli n \<Longrightarrow> representable (PInt n)" "timestamp_ok n \<Longrightarrow> representable (PInt n)"
  "opt_ok timestamp_ok t \<Longrightarrow> representable (joptint t)"
  by (cases t; simp add: timestamp_ok_def safe_int_def MAX_SAFE_INTEGER_def)+

lemma sealed_digest:
  assumes "representable (jobj dump)" and "\<forall>bs. Sha256 (H bs)"
  obtains h where "computed_sha256 H dump = Inr h" "Sha256 h"
proof -
  obtain h where h: "canonical_sha256 H (jobj dump) = Inr h"
    using assms(1) ok_canonical_sha256 [of H "jobj dump"] by (auto simp only: ok_iff)
  with canonical_sha256_range [OF h] assms(2) show thesis by (intro that [of h]) (auto simp: computed_sha256_def)
qed

lemma prefixed_digest: "Sha256 h \<Longrightarrow> prefixed_sha256 p (p @ h)"
  by (simp add: prefixed_sha256_def)

lemma derived_digest:
  assumes "representable v" and "\<forall>bs. Sha256 (H bs)"
  shows "\<exists>i. bind_result (canonical_sha256 H v) (\<lambda>h. Inr (p @ h)) = Inr i \<and> prefixed_sha256 p i"
proof -
  obtain h where h: "canonical_sha256 H v = Inr h" using assms(1) ok_canonical_sha256 by (auto simp: ok_iff)
  with canonical_sha256_range [OF h] assms(2) prefixed_digest [of h p] show ?thesis by auto
qed

lemma derived_ids:
  assumes sha: "\<forall>bs. Sha256 (H bs)" and subjects: "ref_list_ok subjects"
  shows "ref_list_ok basis \<Longrightarrow>
      \<exists>i. derive_knowledge_gap_id H w subjects missing basis = Inr i \<and> prefixed_sha256 ''wgap_'' i"
    and "\<not> list_ex surrogate question \<Longrightarrow> opt_ok record_ref_fields_ok frame \<Longrightarrow> ref_list_ok basis \<Longrightarrow> timestamp_ok t \<Longrightarrow>
      \<exists>i. derive_curiosity_id H w frame question subjects basis t = Inr i \<and> prefixed_sha256 ''wcur_'' i"
    and "\<not> list_ex surrogate question \<Longrightarrow>
      \<exists>i. derive_inquiry_id H w question gap_id subjects = Inr i \<and> prefixed_sha256 ''winq_'' i"
  unfolding derive_knowledge_gap_id_def derive_curiosity_id_def derive_inquiry_id_def
  by (rule derived_digest [OF _ sha],
      use subjects in \<open>simp add: representable_ref_list representable_opt_ref representable_numbers jtext_def
        del: representable.simps(3)\<close>)+

lemma OpaqueId_prefixed:
  assumes "prefixed_sha256 ''wst_'' s"
  shows "OpaqueId s"
proof -
  have len: "length ''wst_'' = 4" by simp
  have t: "take 4 s = ''wst_''" "Sha256 (drop 4 s)" using assms unfolding prefixed_sha256_def len by blast+
  have s: "s = ''wst_'' @ drop 4 s" "Sha256 (drop 4 s)"
    using append_take_drop_id [of 4 s] t by (simp_all only:)
  have "list_all (\<lambda>c. is_upper c \<or> is_lower c \<or> is_digit c \<or> c \<in> set ''._:@-'') (drop 4 s)"
    using s(2) unfolding Sha256_def list_all_iff
  proof (elim conjE, intro ballI)
    fix c assume "\<forall>c\<in>set (drop 4 s). is_hex c" "c \<in> set (drop 4 s)"
    then have "is_hex c" by blast
    moreover have "is_lower c" if "CHR ''a'' \<le> c" "c \<le> CHR ''f''"
      using that order_trans [of c "CHR ''f''" "CHR ''z''"] by (simp add: is_lower_def less_eq_char_def)
    ultimately show "is_upper c \<or> is_lower c \<or> is_digit c \<or> c \<in> set ''._:@-''" by (auto simp: is_hex_def)
  qed
  moreover have "length (drop 4 s) = 64" using s(2) by (simp add: Sha256_def)
  moreover have "list_all (\<lambda>c. is_upper c \<or> is_lower c \<or> is_digit c \<or> c \<in> set ''._:@-'') ''st_''"
    "is_lower (CHR ''w'')" by code_simp+
  ultimately show ?thesis by (subst s(1)) (simp add: OpaqueId_def)
qed

definition valid_gap :: "(nat list \<Rightarrow> string) \<Rightarrow> (ustring \<Rightarrow> ustring) \<Rightarrow> knowledge_gap \<Rightarrow> bool" where
  "valid_gap H nfc g \<longleftrightarrow> KnowledgeGap H nfc g = Inr g \<and> gap_has_valid_hash H g = Inr True"

definition valid_curiosity :: "(nat list \<Rightarrow> string) \<Rightarrow> (ustring \<Rightarrow> ustring) \<Rightarrow> world_curiosity \<Rightarrow> bool" where
  "valid_curiosity H nfc c \<longleftrightarrow> WorldCuriosity H nfc c = Inr c \<and> curiosity_has_valid_hash H c = Inr True"

definition valid_inquiry :: "(nat list \<Rightarrow> string) \<Rightarrow> (ustring \<Rightarrow> ustring) \<Rightarrow> world_inquiry \<Rightarrow> bool" where
  "valid_inquiry H nfc q \<longleftrightarrow> WorldInquiry H nfc q = Inr q \<and> inquiry_has_valid_hash H q = Inr True"

lemma KnowledgeGap_Inr:
  "KnowledgeGap H nfc g = Inr g' \<longleftrightarrow> g' = g \<and> knowledge_gap_fields_ok g \<and> ok (WorldScope H nfc (kg_scope g)) \<and>
     derive_knowledge_gap_id H (sc_world_scope_hash (kg_scope g)) (kg_subject_refs g)
       (kg_missing_evidence_types g) (kg_basis_refs g) = Inr (kg_gap_id g)"
  by (auto simp: KnowledgeGap_def invalid_def bind_result_eq_Inr split: if_splits)

lemma gap_representable:
  assumes "KnowledgeGap H nfc g = Inr g"
  shows "representable (jobj (knowledge_gap_dump g))"
  using assms representable_scope [of H nfc "kg_scope g"]
  by (simp add: KnowledgeGap_Inr knowledge_gap_fields_ok_def knowledge_gap_dump_def representable_ref_list
      representable_numbers del: representable.simps(3))

lemma seal_gap:
  assumes "KnowledgeGap H nfc g = Inr g" and "\<forall>bs. Sha256 (H bs)"
  obtains h where "gap_with_computed_hash H g = Inr (g\<lparr>kg_gap_sha256 := h\<rparr>)" "valid_gap H nfc (g\<lparr>kg_gap_sha256 := h\<rparr>)"
proof -
  obtain h where h: "computed_sha256 H (knowledge_gap_dump g) = Inr h" "Sha256 h"
    using sealed_digest [OF gap_representable [OF assms(1)] assms(2)] .
  have s: "gap_with_computed_hash H g = Inr (g\<lparr>kg_gap_sha256 := h\<rparr>)" using h(1) by (simp add: gap_with_computed_hash_def)
  have "KnowledgeGap H nfc (g\<lparr>kg_gap_sha256 := h\<rparr>) = Inr (g\<lparr>kg_gap_sha256 := h\<rparr>)"
    using assms(1) h(2) by (simp add: KnowledgeGap_Inr knowledge_gap_fields_ok_def)
  with gap_sealed(1) [OF s] s show thesis by (intro that) (simp_all add: valid_gap_def)
qed


lemma WorldCuriosity_Inr:
  "WorldCuriosity H nfc c = Inr c' \<longleftrightarrow> c' = c \<and> world_curiosity_fields_ok c \<and> ok (WorldScope H nfc (cu_scope c)) \<and>
     opt_ok (\<lambda>t. cu_created_at_ms c \<le> t) (cu_expires_at_ms c) \<and>
     derive_curiosity_id H (sc_world_scope_hash (cu_scope c)) (cu_frame_ref c) (cu_question c)
       (cu_subject_refs c) (cu_provenance_refs c) (cu_created_at_ms c) = Inr (cu_curiosity_id c)"
  by (auto simp: WorldCuriosity_def curiosity_check_def invalid_def bind_result_eq_Inr split: if_splits)

lemma curiosity_representable:
  assumes "WorldCuriosity H nfc c = Inr c" and "\<not> list_ex surrogate (cu_question c)"
  shows "representable (jobj (world_curiosity_dump c))"
proof -
  have "representable (PInt (cu_expected_cost_milli c))"
    using assms(1) by (simp add: WorldCuriosity_Inr world_curiosity_fields_ok_def MAX_SAFE_INTEGER_def le_max_iff_disj)
  with assms representable_scope [of H nfc "cu_scope c"] show ?thesis
    by (simp add: WorldCuriosity_Inr world_curiosity_fields_ok_def world_curiosity_dump_def representable_ref_list
        representable_opt_ref representable_numbers jtext_def del: representable.simps(3) representable_joptint)
qed

lemma seal_curiosity:
  assumes "WorldCuriosity H nfc c = Inr c" and "\<not> list_ex surrogate (cu_question c)" and "\<forall>bs. Sha256 (H bs)"
  obtains h where "curiosity_with_computed_hash H c = Inr (c\<lparr>cu_curiosity_sha256 := h\<rparr>)"
    "valid_curiosity H nfc (c\<lparr>cu_curiosity_sha256 := h\<rparr>)"
proof -
  obtain h where h: "computed_sha256 H (world_curiosity_dump c) = Inr h" "Sha256 h"
    using sealed_digest [OF curiosity_representable [OF assms(1,2)] assms(3)] .
  have s: "curiosity_with_computed_hash H c = Inr (c\<lparr>cu_curiosity_sha256 := h\<rparr>)"
    using h(1) by (simp add: curiosity_with_computed_hash_def)
  have "WorldCuriosity H nfc (c\<lparr>cu_curiosity_sha256 := h\<rparr>) = Inr (c\<lparr>cu_curiosity_sha256 := h\<rparr>)"
    using assms(1) h(2) by (simp add: WorldCuriosity_Inr world_curiosity_fields_ok_def)
  with curiosity_sealed(1) [OF s] s show thesis by (intro that) (simp_all add: valid_curiosity_def)
qed

lemma WorldInquiry_Inr:
  "WorldInquiry H nfc q = Inr q' \<longleftrightarrow> q' = q \<and> inquiry_codes_ok q \<and> ok (WorldScope H nfc (wi_scope q)) \<and>
     inquiry_refs_ok q \<and> inquiry_numbers_ok q \<and> inquiry_literals_ok q \<and> inquiry_check H q = Inr ()"
  by (auto simp: WorldInquiry_def invalid_def bind_result_eq_Inr split: if_splits)

lemma inquiry_representable:
  assumes "WorldInquiry H nfc q = Inr q" and "\<not> list_ex surrogate (wi_question q)"
  shows "representable (jobj (world_inquiry_dump q))"
proof -
  have q: "inquiry_refs_ok q" "inquiry_numbers_ok q" "inquiry_literals_ok q"
    using assms(1) by (simp_all add: WorldInquiry_Inr)
  have n: "representable (PInt (wi_generation q))" "representable (PInt (wi_inquiry_budget_remaining q))"
    "representable (PInt (wi_revision q))" "representable (PInt (wi_empirical_evidence_weight_milli q))"
    using q(2,3) by (simp_all add: inquiry_numbers_ok_def inquiry_literals_ok_def MAX_SAFE_INTEGER_def)
  have m: "representable (PInt (wi_expected_information_gain_milli q))" "representable (PInt (wi_impact_milli q))"
    "representable (PInt (wi_urgency_milli q))" "representable (PInt (wi_created_at_ms q))"
    "representable (joptint (wi_expires_at_ms q))"
    using q(2) by (simp_all add: inquiry_numbers_ok_def representable_numbers del: representable.simps(3) representable_joptint)
  have r: "representable (jsome record_ref_dump (wi_frame_ref q))" "representable (record_refs_dump (wi_subject_refs q))"
    "representable (record_refs_dump (wi_supporting_refs q))" "representable (record_refs_dump (wi_conflict_refs q))"
    "representable (jsome record_ref_dump (wi_source_world_state_ref q))"
    "representable (record_refs_dump (wi_source_cognition_refs q))"
    "representable (jsome record_ref_dump (wi_self_will_decision_ref q))"
    "representable (record_refs_dump (wi_resulting_observation_refs q))"
    using q(1) by (simp_all add: inquiry_refs_ok_def representable_ref_list representable_opt_ref)
  have s: "representable (world_scope_dump (wi_scope q))" "representable (jtext (wi_question q))"
    using assms representable_scope [of H nfc "wi_scope q"] by (simp_all add: WorldInquiry_Inr jtext_def)
  show ?thesis by (simp add: world_inquiry_dump_def n m r s del: representable.simps(3) representable_joptint)
qed

lemma inquiry_check_Inr:
  "inquiry_check H q = Inr () \<longleftrightarrow> (wi_revision q = 1) = (wi_supersedes_inquiry_sha256 q = None) \<and>
     opt_ok (\<lambda>t. wi_created_at_ms q \<le> t) (wi_expires_at_ms q) \<and>
     (wi_generation q = 0 \<longrightarrow> wi_parent_inquiry_id q = None) \<and> (0 < wi_generation q \<longrightarrow> wi_parent_inquiry_id q \<noteq> None) \<and>
     derive_inquiry_id H (sc_world_scope_hash (wi_scope q)) (wi_question q) (wi_knowledge_gap_id q)
       (wi_subject_refs q) = Inr (wi_inquiry_id q)"
  unfolding inquiry_check_def by (auto simp: invalid_def bind_result_eq_Inr simp del: not_None_eq split: if_splits)

lemma seal_inquiry:
  assumes "WorldInquiry H nfc q = Inr q" and "\<not> list_ex surrogate (wi_question q)" and "\<forall>bs. Sha256 (H bs)"
  obtains h where "inquiry_with_computed_hash H q = Inr (q\<lparr>wi_inquiry_sha256 := h\<rparr>)"
    "valid_inquiry H nfc (q\<lparr>wi_inquiry_sha256 := h\<rparr>)"
proof -
  obtain h where h: "computed_sha256 H (world_inquiry_dump q) = Inr h" "Sha256 h"
    using sealed_digest [OF inquiry_representable [OF assms(1,2)] assms(3)] .
  have s: "inquiry_with_computed_hash H q = Inr (q\<lparr>wi_inquiry_sha256 := h\<rparr>)"
    using h(1) by (simp add: inquiry_with_computed_hash_def)
  let ?q = "q\<lparr>wi_inquiry_sha256 := h\<rparr>"
  have same: "inquiry_refs_ok ?q = inquiry_refs_ok q" "inquiry_numbers_ok ?q = inquiry_numbers_ok q"
    "inquiry_literals_ok ?q = inquiry_literals_ok q"
    by (simp_all add: inquiry_refs_ok_def inquiry_numbers_ok_def inquiry_literals_ok_def)
  have check: "(inquiry_check H ?q = Inr ()) = (inquiry_check H q = Inr ())" unfolding inquiry_check_Inr by simp
  have "inquiry_codes_ok q \<Longrightarrow> inquiry_codes_ok ?q" using h(2) unfolding inquiry_codes_ok_def by simp
  with assms(1) have "WorldInquiry H nfc ?q = Inr ?q" unfolding WorldInquiry_Inr same check by simp
  with inquiry_sealed(1) [OF s] s show thesis by (intro that) (simp_all add: valid_inquiry_def)
qed


definition signals_ok :: "gap_signals \<Rightarrow> bool" where
  "signals_ok g \<longleftrightarrow> milli (gs_uncertainty g) \<and> milli (gs_conflict g) \<and> milli (gs_staleness g) \<and>
     milli (gs_observability g) \<and> milli (gs_impact g) \<and> milli (gs_relevance g) \<and> OpaqueId (gs_missing g) \<and>
     length (gs_missing g) \<le> 160"

lemma gap_score_milli:
  assumes "signals_ok g"
  shows "milli (gap_score g)"
proof -
  let ?a = "max (gs_uncertainty g) (max (gs_conflict g) (max (gs_staleness g) (gs_observability g)))"
  let ?b = "max (gs_impact g) (max (gs_relevance g) 1)"
  have "milli ?a" "milli ?b" using assms by (simp_all add: signals_ok_def max_def)
  from milli_mult_div(1) [OF this] show ?thesis by (simp add: gap_score_def)
qed

lemma unique_record_refs_ok:
  assumes "record_ref_fields_ok a" "record_ref_fields_ok b"
  shows "ref_list_ok (unique_record_refs [a, b])"
proof -
  have keys: "map ref_sort_key (unique_record_refs [a, b]) = sorted_set (map ref_sort_key [a, b])"
    unfolding unique_record_refs_def by (rule dict_values_keys)
  have "length (unique_record_refs [a, b]) = length (sorted_set (map ref_sort_key [a, b]))"
    by (metis keys length_map)
  also have "\<dots> \<le> 2" by (simp add: sorted_set_def)
  finally have len: "length (unique_record_refs [a, b]) \<le> 4096" by simp
  have "set (unique_record_refs [a, b]) \<subseteq> {a, b}"
    unfolding unique_record_refs_def using dict_values_subset [of ref_sort_key "[a, b]"] by simp
  then have "list_all record_ref_fields_ok (unique_record_refs [a, b])" using assms by (auto simp: list_all_iff)
  moreover have "sorted_unique_refs (unique_record_refs [a, b])"
    by (simp add: sorted_unique_refs_def Let_def keys sorted_set_eq_iff)
  ultimately show ?thesis using len by (simp add: ref_list_ok_def)
qed

lemma single_ref_ok: "record_ref_fields_ok r \<Longrightarrow> ref_list_ok [r]"
  by (simp add: ref_list_ok_def sorted_unique_refs_def sorted_set_def)

lemma single_code_ok: "OpaqueId c \<Longrightarrow> code_list_ok [c]"
  by (simp add: code_list_ok_def sorted_unique_strings_def sorted_set_def)

definition gap_about ::
    "(nat list \<Rightarrow> string) \<Rightarrow> (ustring \<Rightarrow> ustring) \<Rightarrow> world_scope \<Rightarrow> record_ref \<Rightarrow> string \<Rightarrow> knowledge_gap \<Rightarrow> bool" where
  "gap_about H nfc scope ref missing g \<longleftrightarrow>
     valid_gap H nfc g \<and> kg_scope g = scope \<and> kg_subject_refs g = [ref] \<and> kg_missing_evidence_types g = [missing]"

lemma build_gap_ok:
  assumes sha: "\<forall>bs. Sha256 (H bs)" and scope: "ok (WorldScope H nfc scope)"
    and refs: "record_ref_fields_ok basis" "record_ref_fields_ok ref" and g: "signals_ok g"
  obtains gap where "build_gap H nfc scope basis g ref = Inr gap" "gap_about H nfc scope ref (gs_missing g) gap"
proof -
  let ?basis = "unique_record_refs [basis, ref]"
  let ?gap = "\<lambda>i. \<lparr>kg_gap_id = i, kg_scope = scope, kg_subject_refs = [ref], kg_uncertainty_milli = gs_uncertainty g,
     kg_conflict_milli = gs_conflict g, kg_observability_gap_milli = gs_observability g,
     kg_staleness_milli = gs_staleness g, kg_prediction_error_milli = 0, kg_impact_milli = gs_impact g,
     kg_relevance_milli = gs_relevance g, kg_gap_score_milli = gap_score g,
     kg_missing_evidence_types = [gs_missing g], kg_basis_refs = ?basis, kg_gap_sha256 = UNSET_SHA256\<rparr>"
  have lists: "ref_list_ok [ref]" "ref_list_ok ?basis" "code_list_ok [gs_missing g]"
    using refs g single_ref_ok unique_record_refs_ok single_code_ok by (auto simp: signals_ok_def)
  obtain i where i: "derive_knowledge_gap_id H (sc_world_scope_hash scope) [ref] [gs_missing g] ?basis = Inr i"
    "prefixed_sha256 ''wgap_'' i"
    using derived_ids(1) [OF sha lists(1,2)] by blast
  have "Sha256 UNSET_SHA256" unfolding UNSET_SHA256_def by (rule Sha256_hex64) code_simp
  then have "knowledge_gap_fields_ok (?gap i)"
    using lists g i(2) gap_score_milli [OF g] by (simp add: knowledge_gap_fields_ok_def signals_ok_def)
  then have K: "KnowledgeGap H nfc (?gap i) = Inr (?gap i)" using i(1) scope by (simp add: KnowledgeGap_Inr)
  obtain h where h: "gap_with_computed_hash H (?gap i) = Inr ((?gap i)\<lparr>kg_gap_sha256 := h\<rparr>)"
    "valid_gap H nfc ((?gap i)\<lparr>kg_gap_sha256 := h\<rparr>)" using seal_gap [OF K sha] .
  have "build_gap H nfc scope basis g ref = Inr ((?gap i)\<lparr>kg_gap_sha256 := h\<rparr>)"
    unfolding build_gap_def Let_def i(1) bind_result_Inr K h(1) ..
  then show thesis by (rule that) (use h(2) in \<open>simp add: gap_about_def\<close>)
qed

lemma add_gaps_ok:
  assumes sha: "\<forall>bs. Sha256 (H bs)" and scope: "ok (WorldScope H nfc scope)"
    and basis: "record_ref_fields_ok basis" and g: "signals_ok g"
  shows "list_all record_ref_fields_ok refs \<Longrightarrow>
    \<exists>new. add_gaps H nfc m scope basis g refs rows = Inr (rows @ new) \<and>
      (\<forall>gap \<in> set new. \<exists>ref \<in> set refs. gap_about H nfc scope ref (gs_missing g) gap) \<and>
      (int (length rows) \<le> m \<longrightarrow> int (length (rows @ new)) \<le> m) \<and>
      (int (length (rows @ new)) < m \<longrightarrow> map kg_subject_refs new = map (\<lambda>ref. [ref]) refs)"
proof (induction refs arbitrary: rows)
  case (Cons ref refs)
  then have IH: "\<And>rows. \<exists>new. add_gaps H nfc m scope basis g refs rows = Inr (rows @ new) \<and>
      (\<forall>gap \<in> set new. \<exists>ref \<in> set refs. gap_about H nfc scope ref (gs_missing g) gap) \<and>
      (int (length rows) \<le> m \<longrightarrow> int (length (rows @ new)) \<le> m) \<and>
      (int (length (rows @ new)) < m \<longrightarrow> map kg_subject_refs new = map (\<lambda>ref. [ref]) refs)" by simp
  show ?case
  proof (cases "m \<le> int (length rows)")
    case True
    obtain new where "add_gaps H nfc m scope basis g refs rows = Inr (rows @ new)"
      "\<forall>gap \<in> set new. \<exists>ref \<in> set refs. gap_about H nfc scope ref (gs_missing g) gap"
      "int (length rows) \<le> m \<longrightarrow> int (length (rows @ new)) \<le> m" using IH by blast
    with True show ?thesis by (intro exI [of _ new]) auto
  next
    case False
    obtain gap where gap: "build_gap H nfc scope basis g ref = Inr gap" "gap_about H nfc scope ref (gs_missing g) gap"
      using build_gap_ok [OF sha scope basis _ g] Cons.prems by auto
    obtain new where new: "add_gaps H nfc m scope basis g refs (rows @ [gap]) = Inr ((rows @ [gap]) @ new)"
      "\<forall>gap \<in> set new. \<exists>ref \<in> set refs. gap_about H nfc scope ref (gs_missing g) gap"
      "int (length (rows @ [gap])) \<le> m \<longrightarrow> int (length ((rows @ [gap]) @ new)) \<le> m"
      "int (length ((rows @ [gap]) @ new)) < m \<longrightarrow> map kg_subject_refs new = map (\<lambda>ref. [ref]) refs" using IH by blast
    show ?thesis
    proof (intro exI [of _ "gap # new"] conjI)
      show "add_gaps H nfc m scope basis g (ref # refs) rows = Inr (rows @ gap # new)" using False gap(1) new(1) by simp
      show "\<forall>x \<in> set (gap # new). \<exists>r \<in> set (ref # refs). gap_about H nfc scope r (gs_missing g) x"
        using gap(2) new(2) by auto
      show "int (length rows) \<le> m \<longrightarrow> int (length (rows @ gap # new)) \<le> m" using False new(3) by simp
      show "int (length (rows @ gap # new)) < m \<longrightarrow> map kg_subject_refs (gap # new) = map (\<lambda>r. [r]) (ref # refs)"
        using gap(2) new(4) by (simp add: gap_about_def)
    qed
  qed
qed simp


lemma config_signals_ok:
  assumes "KnowledgeGapGeneratorConfig c = Inr c'"
  shows "c' = c" "1 \<le> gc_max_gaps c" "signals_ok (conflict_signals c)" "signals_ok (stale_signals c)"
    "signals_ok (uncertainty_signals c)"
proof -
  have codes: "OpaqueId ''conflict_discriminating_observation''" "OpaqueId ''revalidation_observation''"
    "OpaqueId ''uncertainty_reducing_observation''" by code_simp+
  show "c' = c" "1 \<le> gc_max_gaps c" "signals_ok (conflict_signals c)" "signals_ok (stale_signals c)"
    "signals_ok (uncertainty_signals c)"
    using assms codes by (auto simp: KnowledgeGapGeneratorConfig_def signals_ok_def conflict_signals_def
        stale_signals_def uncertainty_signals_def split: if_splits)
qed

definition open_refs :: "materialized_snapshot \<Rightarrow> record_ref list" where
  "open_refs snap = wst_unresolved_conflict_refs (ms_state snap) @ wst_stale_refs (ms_state snap) @
     (case ms_uncertainty snap of None \<Rightarrow> [] | Some m \<Rightarrow> hm_refs m)"

definition valid_snapshot :: "(nat list \<Rightarrow> string) \<Rightarrow> (ustring \<Rightarrow> ustring) \<Rightarrow> materialized_snapshot \<Rightarrow> bool" where
  "valid_snapshot H nfc snap \<longleftrightarrow>
     WorldState H nfc (ms_state snap) = Inr (ms_state snap) \<and> state_has_valid_hash H (ms_state snap) = Inr True \<and>
     wst_world_sequence (ms_state snap) < MAX_SAFE_INTEGER \<and>
     opt_ok (\<lambda>m. list_all record_ref_fields_ok (hm_refs m)) (ms_uncertainty snap)"

lemma valid_snapshot_refs:
  assumes "valid_snapshot H nfc snap"
  shows "ok (WorldScope H nfc (wst_scope (ms_state snap)))" "WorldRecordRef (state_ref snap) = Inr (state_ref snap)"
    "record_ref_fields_ok (state_ref snap)" "list_all record_ref_fields_ok (open_refs snap)"
proof -
  have st: "world_state_fields_ok (ms_state snap)" "ok (WorldScope H nfc (wst_scope (ms_state snap)))"
    using assms by (auto simp: valid_snapshot_def WorldState_def invalid_def split: if_splits)
  show "ok (WorldScope H nfc (wst_scope (ms_state snap)))" by (rule st(2))
  have "OpaqueId ''world_state''" by code_simp
  then show r: "record_ref_fields_ok (state_ref snap)"
    using st(1) assms OpaqueId_prefixed
    by (simp add: record_ref_fields_ok_def state_ref_def world_state_fields_ok_def valid_snapshot_def timestamp_ok_def)
  then show "WorldRecordRef (state_ref snap) = Inr (state_ref snap)" by (simp add: WorldRecordRef_def)
  show "list_all record_ref_fields_ok (open_refs snap)"
    using st(1) assms by (cases "ms_uncertainty snap")
      (simp_all add: open_refs_def world_state_fields_ok_def ref_list_ok_def valid_snapshot_def)
qed

definition gap_found ::
    "(nat list \<Rightarrow> string) \<Rightarrow> (ustring \<Rightarrow> ustring) \<Rightarrow> materialized_snapshot \<Rightarrow> knowledge_gap \<Rightarrow> bool" where
  "gap_found H nfc snap g \<longleftrightarrow> (\<exists>ref \<in> set (open_refs snap). \<exists>missing. length missing \<le> 160 \<and>
     gap_about H nfc (wst_scope (ms_state snap)) ref missing g)"

lemma gaps_found:
  assumes "\<forall>gap \<in> set new. \<exists>ref \<in> set refs. gap_about H nfc (wst_scope (ms_state snap)) ref (gs_missing g) gap"
    and "set refs \<subseteq> set (open_refs snap)" and "signals_ok g" and "gap \<in> set new"
  shows "gap_found H nfc snap gap"
  using assms unfolding gap_found_def signals_ok_def by blast

lemma known_gap_keys_subjects:
  "map kg_subject_refs rows = map (\<lambda>ref. [ref]) refs \<Longrightarrow> known_gap_keys rows = map ref_sort_key refs"
  by (induction rows arbitrary: refs) (auto simp: known_gap_keys_def)

lemma open_refs_covered:
  assumes rows: "map kg_subject_refs rows = map (\<lambda>ref. [ref]) refs"
    and new: "map kg_subject_refs new = map (\<lambda>ref. [ref]) (filter (\<lambda>ref. ref_sort_key ref \<notin> set (known_gap_keys rows)) others)"
    and ref: "ref \<in> set (refs @ others)"
  shows "\<exists>g \<in> set (rows @ new). \<exists>r. kg_subject_refs g = [r] \<and> ref_sort_key r = ref_sort_key ref"
proof -
  let ?F = "filter (\<lambda>ref. ref_sort_key ref \<notin> set (known_gap_keys rows)) others"
  have "map kg_subject_refs (rows @ new) = map (\<lambda>ref. [ref]) (refs @ ?F)" using rows new by (simp only: map_append)
  from arg_cong [OF this, of set] have img: "kg_subject_refs ` set (rows @ new) = (\<lambda>ref. [ref]) ` set (refs @ ?F)"
    by (simp only: set_map)
  have hit: ?thesis if "r \<in> set (refs @ ?F)" "ref_sort_key r = ref_sort_key ref" for r
  proof -
    have "[r] \<in> kg_subject_refs ` set (rows @ new)" unfolding img using that(1) by (rule imageI)
    with that(2) show ?thesis by (metis (no_types, lifting) imageE)
  qed
  show ?thesis
  proof (cases "ref \<in> set refs")
    case True
    then show ?thesis by (intro hit [OF _ refl]) simp
  next
    case False
    show ?thesis
    proof (cases "ref_sort_key ref \<in> set (known_gap_keys rows)")
      case True
      then obtain r where "r \<in> set refs" "ref_sort_key r = ref_sort_key ref"
        unfolding known_gap_keys_subjects [OF rows] by (auto dest: sym)
      then show ?thesis by (intro hit [of r]) simp_all
    next
      case fresh: False
      with False ref have "ref \<in> set (refs @ ?F)" by simp
      then show ?thesis by (rule hit [OF _ refl])
    qed
  qed
qed

lemma generate_ok:
  assumes sha: "\<forall>bs. Sha256 (H bs)" and cfg: "KnowledgeGapGeneratorConfig c = Inr c" and snap: "valid_snapshot H nfc snap"
  obtains gaps where "generate H nfc c snap = Inr gaps" "int (length gaps) \<le> gc_max_gaps c"
    "\<forall>g \<in> set gaps. gap_found H nfc snap g"
    "int (length gaps) < gc_max_gaps c \<longrightarrow> (\<forall>ref \<in> set (open_refs snap). \<exists>g \<in> set gaps. \<exists>r. kg_subject_refs g = [r] \<and>
       ref_sort_key r = ref_sort_key ref)"
proof -
  let ?st = "ms_state snap" let ?scope = "wst_scope ?st" let ?m = "gc_max_gaps c" let ?b = "state_ref snap"
  let ?add = "add_gaps H nfc ?m ?scope ?b"
  let ?C = "wst_unresolved_conflict_refs ?st" let ?S = "wst_stale_refs ?st"
  let ?U = "case ms_uncertainty snap of None \<Rightarrow> [] | Some m \<Rightarrow> hm_refs m"
  note v = valid_snapshot_refs [OF snap]
  note sig = config_signals_ok [OF cfg]
  have refs: "list_all record_ref_fields_ok ?C" "list_all record_ref_fields_ok ?S" "list_all record_ref_fields_ok ?U"
    using v(4) by (simp_all add: open_refs_def)
  have sub: "set ?C \<subseteq> set (open_refs snap)" "set ?S \<subseteq> set (open_refs snap)" "set ?U \<subseteq> set (open_refs snap)"
    by (auto simp: open_refs_def)
  note add = add_gaps_ok [OF sha v(1,3)]
  obtain A where A: "?add (conflict_signals c) ?C [] = Inr ([] @ A)"
      "\<forall>gap \<in> set A. \<exists>ref \<in> set ?C. gap_about H nfc ?scope ref (gs_missing (conflict_signals c)) gap"
      "int (length ([] :: knowledge_gap list)) \<le> ?m \<longrightarrow> int (length ([] @ A)) \<le> ?m"
      "int (length ([] @ A)) < ?m \<longrightarrow> map kg_subject_refs A = map (\<lambda>ref. [ref]) ?C"
    using add [OF sig(3) refs(1), of ?m "[]"] by blast
  obtain B where B: "?add (stale_signals c) ?S A = Inr (A @ B)"
      "\<forall>gap \<in> set B. \<exists>ref \<in> set ?S. gap_about H nfc ?scope ref (gs_missing (stale_signals c)) gap"
      "int (length A) \<le> ?m \<longrightarrow> int (length (A @ B)) \<le> ?m"
      "int (length (A @ B)) < ?m \<longrightarrow> map kg_subject_refs B = map (\<lambda>ref. [ref]) ?S"
    using add [OF sig(4) refs(2), of ?m A] by blast
  let ?F = "filter (\<lambda>ref. ref_sort_key ref \<notin> set (known_gap_keys (A @ B))) ?U"
  have F: "list_all record_ref_fields_ok ?F" "set ?F \<subseteq> set (open_refs snap)" using refs(3) sub(3) by (auto simp: list_all_iff)
  obtain D where D: "?add (uncertainty_signals c) ?F (A @ B) = Inr ((A @ B) @ D)"
      "\<forall>gap \<in> set D. \<exists>ref \<in> set ?F. gap_about H nfc ?scope ref (gs_missing (uncertainty_signals c)) gap"
      "int (length (A @ B)) \<le> ?m \<longrightarrow> int (length ((A @ B) @ D)) \<le> ?m"
      "int (length ((A @ B) @ D)) < ?m \<longrightarrow> map kg_subject_refs D = map (\<lambda>ref. [ref]) ?F"
    using add [OF sig(5) F(1), of ?m "A @ B"] by blast
  show thesis
  proof (rule that)
    show "generate H nfc c snap = Inr ((A @ B) @ D)"
      using snap v(2) A(1) B(1) D(1) by (simp add: generate_def valid_snapshot_def Let_def)
    show "int (length ((A @ B) @ D)) \<le> ?m" using A(3) B(3) D(3) sig(2) by simp
    show "\<forall>g \<in> set ((A @ B) @ D). gap_found H nfc snap g"
      using gaps_found [OF A(2) sub(1) sig(3)] gaps_found [OF B(2) sub(2) sig(4)] gaps_found [OF D(2) F(2) sig(5)]
      unfolding set_append by blast
    show "int (length ((A @ B) @ D)) < ?m \<longrightarrow> (\<forall>ref \<in> set (open_refs snap). \<exists>g \<in> set ((A @ B) @ D). \<exists>r.
        kg_subject_refs g = [r] \<and> ref_sort_key r = ref_sort_key ref)"
    proof (intro impI ballI)
      fix ref assume room: "int (length ((A @ B) @ D)) < ?m" and ref: "ref \<in> set (open_refs snap)"
      have "map kg_subject_refs (A @ B) = map (\<lambda>ref. [ref]) (?C @ ?S)" using room A(4) B(4) by simp
      moreover have "map kg_subject_refs D = map (\<lambda>ref. [ref]) ?F" using room D(4) by blast
      moreover have "ref \<in> set ((?C @ ?S) @ ?U)" using ref by (simp add: open_refs_def)
      ultimately show "\<exists>g \<in> set ((A @ B) @ D). \<exists>r. kg_subject_refs g = [r] \<and> ref_sort_key r = ref_sort_key ref"
        by (rule open_refs_covered)
    qed
  qed
qed


lemma list_all_range:
  assumes "list_all P (map snd kvs)" "P d" "map_of kvs k = v"
  shows "P (case v of None \<Rightarrow> d | Some m \<Rightarrow> m)"
proof (cases v)
  case (Some m)
  with assms(3) have "(k, m) \<in> set kvs" by (auto dest: map_of_SomeD)
  with assms(1) Some show ?thesis by (force simp: list_all_iff)
qed (use assms(2) in simp)

definition opaque_char :: "char \<Rightarrow> bool" where
  "opaque_char c \<longleftrightarrow> is_upper c \<or> is_lower c \<or> is_digit c \<or> c \<in> set ''._:@-''"

lemma opaque_char_plain:
  assumes "opaque_char c"
  shows "\<not> py_isspace (of_char c)"
proof -
  have "(45 :: nat) \<le> of_char c \<and> of_char c \<le> (122 :: nat)"
    using assms by (auto simp: opaque_char_def is_upper_def is_lower_def is_digit_def less_eq_char_def)
  then show ?thesis by (simp add: py_isspace_def)
qed

lemma OpaqueId_chars:
  assumes "OpaqueId s"
  shows "list_all opaque_char s" "s \<noteq> []"
proof -
  have "match_head_tail (\<lambda>c. is_upper c \<or> is_lower c \<or> is_digit c) opaque_char s"
    using assms unfolding OpaqueId_def opaque_char_def by blast
  then show "list_all opaque_char s" "s \<noteq> []" by (cases s; auto simp: opaque_char_def)+
qed

lemma strip_plain:
  assumes "list_all (\<lambda>c. \<not> py_isspace (of_char c)) s"
  shows "strip s = s"
proof -
  have d: "dropWhile p xs = xs" if "list_all (\<lambda>x. \<not> p x) xs" for p and xs :: string
    using that by (cases xs) simp_all
  have "list_all (\<lambda>c. \<not> py_isspace (of_char c)) (rev s)" using assms by simp
  then show ?thesis using assms by (simp add: strip_def strip_by_def d)
qed

lemma SAFE_ID_strip: "SAFE_ID s \<Longrightarrow> strip s = s"
  using OpaqueId_chars [of s] opaque_char_plain by (intro strip_plain) (auto simp: SAFE_ID_def list_all_iff)

lemma FORBIDDEN_plain:
  assumes "SAFE_ID s" "\<not> list_ex (\<lambda>c. c \<in> set ''/;|`'' \<or> of_char c = (92 :: nat)) s"
    "\<not> contains_text ''&&'' s" "\<not> contains_text ''$('' s" "\<not> contains_text ''powershell'' (ascii_lower s)"
    "\<not> contains_text ''cmd'' (ascii_lower s)" "\<not> contains_text ''bash'' (ascii_lower s)"
    "\<not> ends_with_sh (ascii_lower s)"
  shows "\<not> FORBIDDEN_MODALITY s"
proof -
  have "list_all (\<lambda>c. \<not> py_isspace (of_char c)) s"
    using assms(1) OpaqueId_chars(1) [of s] opaque_char_plain by (auto simp: SAFE_ID_def list_all_iff)
  with assms(2-8) show ?thesis unfolding FORBIDDEN_MODALITY_def by (auto simp: list_ex_iff list_all_iff)
qed

definition plain_modality :: "string \<Rightarrow> bool" where
  "plain_modality m \<longleftrightarrow> m \<in> set (map snd MODALITY_BY_EVIDENCE) \<and> SAFE_ID m \<and>
    \<not> list_ex (\<lambda>c. c \<in> set ''/;|`'' \<or> of_char c = (92 :: nat)) m \<and>
    \<not> contains_text ''&&'' m \<and> \<not> contains_text ''$('' m \<and> \<not> contains_text ''powershell'' (ascii_lower m) \<and>
    \<not> contains_text ''cmd'' (ascii_lower m) \<and> \<not> contains_text ''bash'' (ascii_lower m) \<and>
    \<not> ends_with_sh (ascii_lower m)"

lemma modality_of_plain: "plain_modality (modality_of v)"
proof -
  have "list_all plain_modality (map snd MODALITY_BY_EVIDENCE)" "plain_modality ''bounded_reality_observation''"
    by code_simp+
  then show ?thesis unfolding modality_of_def by (rule list_all_range [OF _ _ refl])
qed

lemma modality_of_safe:
  "modality_of v \<in> snd ` set MODALITY_BY_EVIDENCE" "SAFE_ID (modality_of v)" "\<not> FORBIDDEN_MODALITY (modality_of v)"
proof -
  note p = modality_of_plain [of v, unfolded plain_modality_def set_map]
  show "modality_of v \<in> snd ` set MODALITY_BY_EVIDENCE" "SAFE_ID (modality_of v)" using p by blast+
  show "\<not> FORBIDDEN_MODALITY (modality_of v)" by (rule FORBIDDEN_plain) (use p in \<open>blast+\<close>)
qed

lemma modalities_ok:
  obtains ms where "validate_observation_modalities (map modality_of vs) = Inr ms" "code_list_ok ms"
    "set ms \<subseteq> snd ` set MODALITY_BY_EVIDENCE" "\<forall>m \<in> set ms. \<not> FORBIDDEN_MODALITY m"
proof -
  let ?ms = "sorted_set (map modality_of vs)"
  have vals: "map strip (filter (\<lambda>v. strip v \<noteq> []) (map modality_of vs)) = map modality_of vs"
    using SAFE_ID_strip [OF modality_of_safe(2)] OpaqueId_chars(2) [OF modality_of_safe(2) [unfolded SAFE_ID_def]]
    by (induction vs) simp_all
  have sub: "set ?ms \<subseteq> snd ` set MODALITY_BY_EVIDENCE" using modality_of_safe(1) by auto
  have "card (snd ` set MODALITY_BY_EVIDENCE) \<le> length MODALITY_BY_EVIDENCE"
    using card_image_le [of "set MODALITY_BY_EVIDENCE" snd] card_length [of MODALITY_BY_EVIDENCE] by simp
  moreover have "length MODALITY_BY_EVIDENCE = 8" by (simp add: MODALITY_BY_EVIDENCE_def)
  moreover have "length ?ms \<le> card (snd ` set MODALITY_BY_EVIDENCE)"
    using card_mono [OF _ sub] distinct_card [OF distinct_sorted_set [of "map modality_of vs"]] by simp
  ultimately have len: "length ?ms \<le> 256" by simp
  have each: "\<forall>m \<in> set ?ms. SAFE_ID m \<and> \<not> FORBIDDEN_MODALITY m" using modality_of_safe(2,3) by auto
  show thesis
  proof (rule that [OF _ _ sub])
    have "\<not> list_ex (\<lambda>value. \<not> SAFE_ID value \<or> FORBIDDEN_MODALITY value) ?ms" using each by (auto simp: list_ex_iff)
    with len show "validate_observation_modalities (map modality_of vs) = Inr ?ms"
      by (simp add: validate_observation_modalities_def vals Let_def)
    show "code_list_ok ?ms" using len each
      by (simp add: code_list_ok_def sorted_unique_strings_def sorted_set_eq_iff list_all_iff SAFE_ID_def)
    show "\<forall>m \<in> set ?ms. \<not> FORBIDDEN_MODALITY m" using each by blast
  qed
qed


lemma gap_question_ok:
  assumes "gap_about H nfc scope ref missing g" and "length missing \<le> 160"
  shows "question_ok (gap_question g)" and "\<not> list_ex surrogate (gap_question g)"
proof -
  have "knowledge_gap_fields_ok g" using assms(1) by (simp add: gap_about_def valid_gap_def KnowledgeGap_Inr)
  with assms have "record_ref_fields_ok ref" "OpaqueId missing"
    by (simp_all add: gap_about_def knowledge_gap_fields_ok_def ref_list_ok_def code_list_ok_def)
  then have len: "length (wr_record_type ref) \<le> 160" "length (wr_record_id ref) \<le> 160"
    by (simp_all add: record_ref_fields_ok_def OpaqueId_def)
  with assms show "question_ok (gap_question g)"
    by (simp add: gap_question_def gap_about_def question_ok_def ustr_def)
  show "\<not> list_ex surrogate (gap_question g)" by (simp add: gap_question_def Let_def ustr_no_surrogate del: join_text.simps)
qed

lemma build_curiosity_ok:
  assumes sha: "\<forall>bs. Sha256 (H bs)" and gap: "gap_about H nfc scope ref missing g" "length missing \<le> 160"
    and frame: "opt_ok record_ref_fields_ok frame" and time: "timestamp_ok t" "opt_ok (\<lambda>e. t \<le> e \<and> timestamp_ok e) expires"
  obtains c where "build_curiosity H nfc g frame t expires = Inr c" "valid_curiosity H nfc c" "cu_scope c = kg_scope g"
    "cu_question c = gap_question g" "cu_trigger_reasons c = sorted_set (kg_missing_evidence_types g)"
    "cu_frame_ref c = frame" "cu_created_at_ms c = t" "cu_expires_at_ms c = expires"
proof -
  have v: "knowledge_gap_fields_ok g" "ok (WorldScope H nfc (kg_scope g))" "gap_has_valid_hash H g = Inr True"
    using gap(1) by (auto simp: gap_about_def valid_gap_def KnowledgeGap_Inr)
  note q = gap_question_ok [OF gap]
  have lists: "ref_list_ok (kg_subject_refs g)" "ref_list_ok (kg_basis_refs g)" "code_list_ok (kg_missing_evidence_types g)"
    "sorted_set (kg_missing_evidence_types g) = kg_missing_evidence_types g"
    using v(1) by (simp_all add: knowledge_gap_fields_ok_def code_list_ok_def sorted_unique_strings_def)
  let ?c = "\<lambda>i. \<lparr>cu_curiosity_id = i, cu_scope = kg_scope g, cu_frame_ref = frame,
          cu_subject_refs = kg_subject_refs g, cu_question = gap_question g,
          cu_curiosity_kind = ''knowledge_gap_observation'',
          cu_trigger_reasons = sorted_set (kg_missing_evidence_types g),
          cu_uncertainty_milli = kg_uncertainty_milli g,
          cu_novelty_milli = min 1000 (500 + kg_observability_gap_milli g div 2),
          cu_prediction_error_milli = kg_prediction_error_milli g, cu_conflict_milli = kg_conflict_milli g,
          cu_impact_milli = kg_impact_milli g, cu_task_relevance_milli = kg_relevance_milli g,
          cu_expected_information_gain_milli = min 1000 (max (kg_gap_score_milli g) (kg_uncertainty_milli g)),
          cu_expected_cost_milli = max 1 (100 + kg_observability_gap_milli g),
          cu_missing_evidence_types = kg_missing_evidence_types g, cu_provenance_refs = kg_basis_refs g,
          cu_created_at_ms = t, cu_expires_at_ms = expires, cu_curiosity_sha256 = UNSET_SHA256\<rparr>"
  obtain i where i: "derive_curiosity_id H (sc_world_scope_hash (kg_scope g)) frame (gap_question g)
      (kg_subject_refs g) (kg_basis_refs g) t = Inr i" "prefixed_sha256 ''wcur_'' i"
    using derived_ids(2) [OF sha lists(1) q(2) frame lists(2) time(1)] by blast
  have unset: "Sha256 UNSET_SHA256" unfolding UNSET_SHA256_def by (rule Sha256_hex64) code_simp
  have kind: "OpaqueId ''knowledge_gap_observation''" by code_simp
  have expires: "opt_ok timestamp_ok expires" "opt_ok (\<lambda>e. t \<le> e) expires" using time(2) by (cases expires; simp)+
  have "world_curiosity_fields_ok (?c i)"
    using v(1) lists i(2) q(1) frame time(1) expires unset kind
    by (simp add: world_curiosity_fields_ok_def knowledge_gap_fields_ok_def le_max_iff_disj)
  then have C: "WorldCuriosity H nfc (?c i) = Inr (?c i)" using i(1) v(2) expires by (simp add: WorldCuriosity_Inr)
  have nosur: "\<not> list_ex surrogate (cu_question (?c i))" using q(2) by simp
  obtain h where h: "curiosity_with_computed_hash H (?c i) = Inr ((?c i)\<lparr>cu_curiosity_sha256 := h\<rparr>)"
    "valid_curiosity H nfc ((?c i)\<lparr>cu_curiosity_sha256 := h\<rparr>)" by (rule seal_curiosity [OF C nosur sha])
  have "build_curiosity H nfc g frame t expires = Inr ((?c i)\<lparr>cu_curiosity_sha256 := h\<rparr>)"
    unfolding build_curiosity_def v(3) bind_result_Inr Let_def i(1) C h(1) by simp
  then show thesis by (rule that [OF _ h(2)]) simp_all
qed

lemma build_inquiry_ok:
  assumes sha: "\<forall>bs. Sha256 (H bs)" and g: "valid_gap H nfc g" and c: "valid_curiosity H nfc c"
    and same: "cu_scope c = kg_scope g" and q: "\<not> list_ex surrogate (cu_question c)"
    and corr: "OpaqueId corr" and src: "opt_ok record_ref_fields_ok source" and n: "n \<le> 1000000"
  obtains i where "build_inquiry H nfc g c corr source n None = Inr i" "valid_inquiry H nfc i" "inquiry_literals_ok i"
    "wi_scope i = kg_scope g" "wi_subject_refs i = kg_subject_refs g"
    "set (wi_suggested_observation_modalities i) \<subseteq> snd ` set MODALITY_BY_EVIDENCE"
    "\<forall>m \<in> set (wi_suggested_observation_modalities i). \<not> FORBIDDEN_MODALITY m"
proof -
  have G: "knowledge_gap_fields_ok g" "ok (WorldScope H nfc (kg_scope g))" "gap_has_valid_hash H g = Inr True"
    using g by (simp_all add: valid_gap_def KnowledgeGap_Inr)
  have C: "world_curiosity_fields_ok c" "curiosity_has_valid_hash H c = Inr True"
    "opt_ok (\<lambda>t. cu_created_at_ms c \<le> t) (cu_expires_at_ms c)"
    using c by (simp_all add: valid_curiosity_def WorldCuriosity_Inr)
  obtain ms where ms: "validate_observation_modalities (map modality_of (kg_missing_evidence_types g)) = Inr ms"
    "code_list_ok ms" "set ms \<subseteq> snd ` set MODALITY_BY_EVIDENCE" "\<forall>m \<in> set ms. \<not> FORBIDDEN_MODALITY m"
    by (rule modalities_ok)
  have subj: "ref_list_ok (kg_subject_refs g)" using G(1) by (simp add: knowledge_gap_fields_ok_def)
  obtain i where i: "derive_inquiry_id H (sc_world_scope_hash (kg_scope g)) (cu_question c) (kg_gap_id g)
      (kg_subject_refs g) = Inr i" "prefixed_sha256 ''winq_'' i"
    using derived_ids(3) [OF sha subj q] by blast
  obtain d where d: "inquiry_dedup_key H g c ms = Inr d" "Sha256 d"
  proof -
    have "representable (jobj [(''domain'', jstr ''tiangong.world.inquiry-dedup.v1''),
        (''world_scope_hash'', jstr (sc_world_scope_hash (kg_scope g))), (''gap_id'', jstr (kg_gap_id g)),
        (''question'', jtext (cu_question c)), (''modalities'', jstrs ms)])" using q by (simp add: jtext_def)
    from sealed_digest [OF this sha] that show thesis unfolding inquiry_dedup_key_def computed_sha256_def by blast
  qed
  let ?q = "inquiry_of g c corr source n None ms i d"
  have "Sha256 UNSET_SHA256" unfolding UNSET_SHA256_def by (rule Sha256_hex64) code_simp
  moreover have "OpaqueId ''world_observation_request''" by code_simp
  moreover have "code_list_ok (sorted_set (cu_trigger_reasons c))"
    using C(1) by (simp add: world_curiosity_fields_ok_def code_list_ok_def sorted_unique_strings_def)
  ultimately have codes: "inquiry_codes_ok ?q"
    using G(1) C(1) corr ms(2) i(2) d(2)
    by (simp add: inquiry_codes_ok_def inquiry_of_def knowledge_gap_fields_ok_def world_curiosity_fields_ok_def InquiryStatus_def)
  have "ref_list_ok []" by (simp add: ref_list_ok_def sorted_unique_refs_def sorted_set_def)
  then have refs: "inquiry_refs_ok ?q"
    using G(1) C(1) src by (simp add: inquiry_refs_ok_def inquiry_of_def knowledge_gap_fields_ok_def world_curiosity_fields_ok_def)
  have nums: "inquiry_numbers_ok ?q"
    using G(1) C(1) n by (simp add: inquiry_numbers_ok_def inquiry_of_def knowledge_gap_fields_ok_def
        world_curiosity_fields_ok_def MAX_SAFE_INTEGER_def le_max_iff_disj)
  have lits: "inquiry_literals_ok ?q" by (simp add: inquiry_literals_ok_def inquiry_of_def)
  have "inquiry_check H ?q = Inr ()" unfolding inquiry_check_Inr using i(1) C(3) by (simp add: inquiry_of_def)
  then have Q: "WorldInquiry H nfc ?q = Inr ?q" unfolding WorldInquiry_Inr
    using codes refs nums lits G(2) by (simp add: inquiry_of_def)
  have nosur: "\<not> list_ex surrogate (wi_question ?q)" using q by (simp add: inquiry_of_def)
  obtain h where h: "inquiry_with_computed_hash H ?q = Inr (?q\<lparr>wi_inquiry_sha256 := h\<rparr>)"
    "valid_inquiry H nfc (?q\<lparr>wi_inquiry_sha256 := h\<rparr>)" by (rule seal_inquiry [OF Q nosur sha])
  have "build_inquiry H nfc g c corr source n None = Inr (?q\<lparr>wi_inquiry_sha256 := h\<rparr>)"
    unfolding build_inquiry_def G(3) C(2) bind_result_Inr if_True ms(1) i(1) d(1) Q h(1) using same by simp
  then show thesis
    by (rule that [OF _ h(2)]) (use lits ms(3,4) in \<open>simp_all add: inquiry_of_def inquiry_literals_ok_def\<close>)
qed


text \<open>C16: The inquiry pipeline is total and safe.  From any valid world state the generator returns at most the
  configured number of gaps, and below that bound every unresolved conflict, stale or uncertain reference is
  the subject of one.  Every gap yields a curiosity and an inquiry that pass all their validators and carry
  their canonical hash, in the scope of the state, without any authority, and suggesting only observation
  modalities of the fixed list, none of which matches the pattern of executable text.\<close>

theorem inquiry_pipeline_total:
  assumes sha: "\<forall>bs. Sha256 (H bs)" and cfg: "KnowledgeGapGeneratorConfig c = Inr c'" and snap: "valid_snapshot H nfc snap"
    and frame: "opt_ok record_ref_fields_ok frame" and time: "timestamp_ok t" "opt_ok (\<lambda>e. t \<le> e \<and> timestamp_ok e) expires"
    and corr: "OpaqueId corr" and n: "n \<le> 1000000"
  shows "\<exists>gaps. generate H nfc c' snap = Inr gaps \<and> int (length gaps) \<le> gc_max_gaps c' \<and>
    (int (length gaps) < gc_max_gaps c' \<longrightarrow> (\<forall>ref \<in> set (open_refs snap). \<exists>g \<in> set gaps. \<exists>r.
       kg_subject_refs g = [r] \<and> ref_sort_key r = ref_sort_key ref)) \<and>
    (\<forall>g \<in> set gaps. \<exists>cur q. build_curiosity H nfc g frame t expires = Inr cur \<and>
       build_inquiry H nfc g cur corr (Some (state_ref snap)) n None = Inr q \<and> valid_inquiry H nfc q \<and>
       inquiry_literals_ok q \<and> wi_scope q = wst_scope (ms_state snap) \<and>
       (\<forall>m \<in> set (wi_suggested_observation_modalities q).
          m \<in> snd ` set MODALITY_BY_EVIDENCE \<and> \<not> FORBIDDEN_MODALITY m))"
proof -
  have c: "c' = c" by (rule config_signals_ok(1) [OF cfg])
  obtain gaps where gaps: "generate H nfc c snap = Inr gaps" "int (length gaps) \<le> gc_max_gaps c"
    "\<forall>g \<in> set gaps. gap_found H nfc snap g"
    "int (length gaps) < gc_max_gaps c \<longrightarrow> (\<forall>ref \<in> set (open_refs snap). \<exists>g \<in> set gaps. \<exists>r. kg_subject_refs g = [r] \<and>
       ref_sort_key r = ref_sort_key ref)" by (rule generate_ok [OF sha cfg [unfolded c] snap])
  have each: "\<exists>cur q. build_curiosity H nfc g frame t expires = Inr cur \<and>
       build_inquiry H nfc g cur corr (Some (state_ref snap)) n None = Inr q \<and> valid_inquiry H nfc q \<and>
       inquiry_literals_ok q \<and> wi_scope q = wst_scope (ms_state snap) \<and>
       (\<forall>m \<in> set (wi_suggested_observation_modalities q). m \<in> snd ` set MODALITY_BY_EVIDENCE \<and> \<not> FORBIDDEN_MODALITY m)"
    if found: "g \<in> set gaps" for g
  proof -
    obtain ref missing where g: "gap_about H nfc (wst_scope (ms_state snap)) ref missing g" "length missing \<le> 160"
      using gaps(3) found unfolding gap_found_def by blast
    then have valid: "valid_gap H nfc g" "kg_scope g = wst_scope (ms_state snap)" by (simp_all add: gap_about_def)
    obtain cur where cur: "build_curiosity H nfc g frame t expires = Inr cur" "valid_curiosity H nfc cur"
      "cu_scope cur = kg_scope g" "cu_question cur = gap_question g"
      by (rule build_curiosity_ok [OF sha g frame time])
    have src_ok: "opt_ok record_ref_fields_ok (Some (state_ref snap))" using valid_snapshot_refs(3) [OF snap] by simp
    have plain: "\<not> list_ex surrogate (cu_question cur)" using gap_question_ok(2) [OF g] cur(4) by simp
    obtain q where "build_inquiry H nfc g cur corr (Some (state_ref snap)) n None = Inr q" "valid_inquiry H nfc q"
      "inquiry_literals_ok q" "wi_scope q = kg_scope g"
      "set (wi_suggested_observation_modalities q) \<subseteq> snd ` set MODALITY_BY_EVIDENCE"
      "\<forall>m \<in> set (wi_suggested_observation_modalities q). \<not> FORBIDDEN_MODALITY m"
      by (rule build_inquiry_ok [OF sha valid(1) cur(2,3) plain corr src_ok n])
    with cur(1) valid(2) show ?thesis by (intro exI [of _ cur] exI [of _ q]) auto
  qed
  show ?thesis unfolding c using gaps(1,2,4) each by blast
qed

definition inquiry_sample_scope :: world_scope where
  "inquiry_sample_scope = \<lparr>sc_life_id = ''life1'', sc_world_id = ''wld_'' @ hex64 (CHR ''0''), sc_domain_id = ''home'',
     sc_scope_bindings = [], sc_world_scope_hash = hex64 (CHR ''0''), sc_principal_scope_hash = hex64 (CHR ''0''),
     sc_privacy_scope = ''private''\<rparr>"

definition sample_ref :: "string \<Rightarrow> record_ref" where
  "sample_ref name = \<lparr>wr_record_type = ''world_entity'', wr_record_id = name, wr_revision = Some 1,
     wr_sha256 = hex64 (CHR ''0'')\<rparr>"

definition sample_snapshot :: materialized_snapshot where
  "sample_snapshot = \<lparr>ms_state = \<lparr>wst_world_state_id = ''wst_'' @ hex64 (CHR ''0''), wst_scope = inquiry_sample_scope,
     wst_frame_ref = sample_ref ''frame'', wst_world_cut_ref = sample_ref ''cut'', wst_world_sequence = 4,
     wst_observation_cutoff_ref = None, wst_entity_head_manifest_ref = sample_ref ''entities'',
     wst_relation_head_manifest_ref = sample_ref ''relations'', wst_cognition_head_manifest_ref = None,
     wst_active_hypothesis_manifest_ref = None, wst_delta_manifest_ref = None,
     wst_unresolved_conflict_refs = [sample_ref ''door''], wst_stale_refs = [sample_ref ''lamp''],
     wst_materialized_at_ms = 5, wst_source_transaction_id = ''tx'', wst_state_sha256 = hex64 (CHR ''0'')\<rparr>,
     ms_uncertainty = None\<rparr>"

lemma sample_ref_ok: "OpaqueId name \<Longrightarrow> record_ref_fields_ok (sample_ref name)"
proof -
  have "OpaqueId ''world_entity''" "Sha256 (hex64 (CHR ''0''))" by code_simp+
  then show "OpaqueId name \<Longrightarrow> record_ref_fields_ok (sample_ref name)"
    by (simp add: record_ref_fields_ok_def sample_ref_def MAX_SAFE_INTEGER_def)
qed

lemma inquiry_sample_scope_ok: "WorldScope zero_hash (\<lambda>u. u) inquiry_sample_scope = Inr inquiry_sample_scope"
proof -
  have "world_scope_fields_ok (\<lambda>u. u) inquiry_sample_scope" by code_simp
  moreover have "derive_world_scope_hash zero_hash (sc_life_id inquiry_sample_scope) (sc_world_id inquiry_sample_scope)
      (sc_domain_id inquiry_sample_scope) (sc_scope_bindings inquiry_sample_scope) = Inr (hex64 (CHR ''0''))"
    unfolding derive_world_scope_hash_def by (rule canonical_sha256_zero_hash) (simp add: inquiry_sample_scope_def)
  ultimately show ?thesis by (simp add: WorldScope_def) (simp add: inquiry_sample_scope_def)
qed

lemma sample_snapshot_valid: "valid_snapshot zero_hash (\<lambda>u. u) sample_snapshot"
proof -
  have names: "OpaqueId ''frame''" "OpaqueId ''cut''" "OpaqueId ''entities''" "OpaqueId ''relations''" "OpaqueId ''door''"
    "OpaqueId ''lamp''" "OpaqueId ''tx''" "Sha256 (hex64 (CHR ''0''))" by code_simp+
  note refs = names(1-6) [THEN sample_ref_ok]
  have f: "world_state_fields_ok (ms_state sample_snapshot)"
    using names refs by (simp add: world_state_fields_ok_def sample_snapshot_def prefixed_sha256_def timestamp_ok_def
        MAX_SAFE_INTEGER_def single_ref_ok)
  have r: "representable (record_ref_dump (sample_ref x))" "representable (world_scope_dump inquiry_sample_scope)" for x
    by (simp_all add: record_ref_dump_def sample_ref_def world_scope_dump_def inquiry_sample_scope_def safe_int_def
        MAX_SAFE_INTEGER_def)
  have id: "validate_state_id zero_hash (ms_state sample_snapshot) = Inr ()"
    unfolding validate_state_id_def by (subst canonical_sha256_zero_hash)
      (simp_all add: sample_snapshot_def r MAX_SAFE_INTEGER_def)
  have h: "state_has_valid_hash zero_hash (ms_state sample_snapshot) = Inr True"
    unfolding state_has_valid_hash_def has_valid_sha256_def computed_sha256_def by (subst canonical_sha256_zero_hash)
      (simp_all add: sample_snapshot_def world_state_dump_def r record_refs_dump_def jsome_def MAX_SAFE_INTEGER_def)
  have "wst_scope (ms_state sample_snapshot) = inquiry_sample_scope" by (simp add: sample_snapshot_def)
  with f id h inquiry_sample_scope_ok show ?thesis
    by (simp add: valid_snapshot_def WorldState_def) (simp add: sample_snapshot_def MAX_SAFE_INTEGER_def)
qed

theorem inquiry_pipeline_total_witness:
  "\<exists>gaps. generate zero_hash (\<lambda>u. u) default_gap_config sample_snapshot = Inr gaps \<and>
     (int (length gaps) < 256 \<longrightarrow> (\<exists>g \<in> set gaps. \<exists>r. kg_subject_refs g = [r] \<and> ref_sort_key r = ref_sort_key (sample_ref ''lamp''))) \<and>
     (\<forall>g \<in> set gaps. \<exists>cur q. build_curiosity zero_hash (\<lambda>u. u) g None 10 (Some 20) = Inr cur \<and>
        build_inquiry zero_hash (\<lambda>u. u) g cur ''corr'' (Some (state_ref sample_snapshot)) 3 None = Inr q)"
proof -
  have sha: "\<forall>bs. Sha256 (zero_hash bs)" using Sha256_zero_hash by blast
  have cfg: "KnowledgeGapGeneratorConfig default_gap_config = Inr default_gap_config" and corr: "OpaqueId ''corr''"
    by code_simp+
  have lamp: "sample_ref ''lamp'' \<in> set (open_refs sample_snapshot)" by (simp add: open_refs_def sample_snapshot_def)
  have max: "gc_max_gaps default_gap_config = 256" by (simp add: default_gap_config_def)
  have time: "timestamp_ok 10" "opt_ok (\<lambda>e. 10 \<le> e \<and> timestamp_ok e) (Some 20)"
    by (simp_all add: timestamp_ok_def MAX_SAFE_INTEGER_def)
  have "opt_ok record_ref_fields_ok None" "(3 :: int) \<le> 1000000" by simp_all
  from inquiry_pipeline_total [OF sha cfg sample_snapshot_valid this(1) time corr this(2)]
  show ?thesis unfolding max using lamp by (elim exE conjE, intro exI conjI) blast+
qed

section \<open>What admission guarantees\<close>

definition without_authority_claims :: "world_inquiry \<Rightarrow> bool" where
  "without_authority_claims q \<longleftrightarrow>
     wi_authorization q = ''NONE'' \<and> \<not> wi_may_execute q \<and> \<not> wi_may_call_tools q \<and>
     wi_empirical_evidence_weight_milli q = 0"

lemma evaluate_inquiry_cases:
  assumes "evaluate_inquiry H a q s c ch = (r, a')"
  obtains (kept) "\<not> charged_result r" "a' = a"
  | (charged) d where "r = Inr d" "qd_charged d" "qd_disposition d = ADMITTED" "without_authority_claims q"
      "admission_guard a q s c = None" "inquiry_score H q s = Inr (qd_score d)"
      "ac_admit_threshold (ia_config a) \<le> qd_score d" "charge_inquiry a q c = Inr a'"
proof (cases "wi_authorization q \<noteq> ''NONE'' \<or> wi_may_execute q \<or> wi_may_call_tools q \<or>
    wi_empirical_evidence_weight_milli q \<noteq> 0")
  case True
  with assms have "r = Inr \<lparr>qd_disposition = REJECTED, qd_reason_code = ''INQUIRY_AUTHORITY_INVALID'',
      qd_score = - 10000, qd_charged = False\<rparr>" "a' = a"
    by (simp_all only: evaluate_inquiry_def if_True prod.inject)
  then show thesis by (intro kept) simp_all
next
  case plain: False
  then have claims: "without_authority_claims q" by (simp add: without_authority_claims_def)
  have not_scored: "\<not> charged_result (scored d x y)" for d x y
    by (cases y) (simp_all add: scored_def)
  show thesis
  proof (cases "admission_guard a q s c")
    case (Some g)
    with assms plain have "r = scored (fst g) (snd g) (inquiry_score H q s)" "a' = a"
      by (simp_all add: evaluate_inquiry_def split_beta)
    then show thesis by (intro kept) (simp_all add: not_scored)
  next
    case None
    show thesis
    proof (cases "inquiry_score H q s")
      case (Inl e)
      with assms plain None have "r = Inl e" "a' = a" by (simp_all add: evaluate_inquiry_def)
      then show thesis by (intro kept) simp_all
    next
      case (Inr n)
      consider (low) "n < ac_admit_threshold (ia_config a) \<or> \<not> ch \<or> n < ac_defer_threshold (ia_config a)"
        | (high) "ac_admit_threshold (ia_config a) \<le> n" "ch" "\<not> n < ac_defer_threshold (ia_config a)" by linarith
      then show thesis
      proof cases
        case low
        with assms plain None Inr have "\<not> charged_result r \<and> a' = a"
          by (auto simp add: evaluate_inquiry_def not_scored split: if_splits)
        then show thesis by (intro kept) simp_all
      next
        case high
        show thesis
        proof (cases "charge_inquiry a q c")
          case (Inl e)
          with assms plain None Inr high have "r = Inl e" "a' = a" by (simp_all add: evaluate_inquiry_def)
          then show thesis by (intro kept) simp_all
        next
          case ok: (Inr b)
          define d where "d = \<lparr>qd_disposition = ADMITTED, qd_reason_code = ''OK'', qd_score = n, qd_charged = True\<rparr>"
          have d: "qd_charged d" "qd_disposition d = ADMITTED" "qd_score d = n" by (simp_all add: d_def)
          from assms plain None Inr high ok have "r = Inr d" "a' = b" by (simp_all add: evaluate_inquiry_def d_def)
          show thesis
          proof (rule charged)
            show "r = Inr d" "qd_charged d" "qd_disposition d = ADMITTED" by fact+
            show "inquiry_score H q s = Inr (qd_score d)" using Inr d(3) by simp
            show "ac_admit_threshold (ia_config a) \<le> qd_score d" using high(1) d(3) by simp
            show "charge_inquiry a q c = Inr a'" using ok \<open>a' = b\<close> by simp
          qed (fact claims None)+
        qed
      qed
    qed
  qed
qed

lemma charge_inquiry_effect:
  assumes "charge_inquiry a q c = Inr a'"
  shows "ia_config a' = ia_config a"
    and "ia_admitted_dedup_keys a' = insert (wi_dedup_key q) (ia_admitted_dedup_keys a)"
    and "ia_budget a = Some l \<Longrightarrow> \<exists>l'. ia_budget a' = Some l' \<and> spend l c False = Inr l'"
    and "ia_budget a = None \<Longrightarrow> ia_budget a' = None"
  using assms by (auto simp: charge_inquiry_def bind_result_eq_Inr split: option.splits)

lemma admission_run_Cons:
  assumes "admission_run H a (c # cs) = (ds, a'')"
  obtains d a' ds' where "evaluate_inquiry H a (cl_inquiry c) (cl_signals c) (cl_work_cost c) (cl_charge c) = (d, a')"
    "admission_run H a' cs = (ds', a'')" "ds = d # ds'"
proof -
  obtain d a' where 1: "evaluate_inquiry H a (cl_inquiry c) (cl_signals c) (cl_work_cost c) (cl_charge c) = (d, a')"
    by fastforce
  obtain ds' b where 2: "admission_run H a' cs = (ds', b)" by fastforce
  with 1 assms have "ds = d # ds'" "b = a''" by (simp_all add: Let_def)
  with 1 2 show thesis by (intro that) simp_all
qed

lemma charged_calls_Cons:
  "charged_calls (c # cs) (d # ds) = (if charged_result d then c # charged_calls cs ds else charged_calls cs ds)"
  by (simp add: charged_calls_def)

lemma admission_run_keys:
  "admission_run H a cs = (ds, a') \<Longrightarrow>
     distinct (map (\<lambda>c. wi_dedup_key (cl_inquiry c)) (charged_calls cs ds)) \<and>
     set (map (\<lambda>c. wi_dedup_key (cl_inquiry c)) (charged_calls cs ds)) \<inter> ia_admitted_dedup_keys a = {} \<and>
     ia_admitted_dedup_keys a' = ia_admitted_dedup_keys a \<union> set (map (\<lambda>c. wi_dedup_key (cl_inquiry c)) (charged_calls cs ds))"
proof (induction cs arbitrary: a ds)
  case Nil
  then show ?case by (simp add: charged_calls_def)
next
  case (Cons c cs)
  obtain d b ds' where step: "evaluate_inquiry H a (cl_inquiry c) (cl_signals c) (cl_work_cost c) (cl_charge c) = (d, b)"
    and run: "admission_run H b cs = (ds', a')" and ds: "ds = d # ds'"
    by (rule admission_run_Cons [OF Cons.prems])
  note IH = Cons.IH [OF run]
  from step show ?case
  proof (cases rule: evaluate_inquiry_cases)
    case kept
    with IH show ?thesis by (simp add: ds charged_calls_Cons)
  next
    case (charged x)
    have fresh: "wi_dedup_key (cl_inquiry c) \<notin> ia_admitted_dedup_keys a"
      using charged(5) by (simp add: admission_guard_def split: if_splits)
    have ch: "charged_result d" using charged(1,2) by simp
    show ?thesis using IH fresh charge_inquiry_effect(2) [OF charged(8)]
      by (simp add: ds charged_calls_Cons ch)
  qed
qed

lemma admission_run_budget:
  "admission_run H a cs = (ds, a') \<Longrightarrow> ia_budget a = Some l \<Longrightarrow>
     \<exists>l'. ia_budget a' = Some l' \<and>
       spends spend l (map (\<lambda>c. (cl_work_cost c, False)) (charged_calls cs ds)) = Inr l'"
proof (induction cs arbitrary: a ds l)
  case Nil
  then show ?case by (simp add: charged_calls_def)
next
  case (Cons c cs)
  obtain d b ds' where step: "evaluate_inquiry H a (cl_inquiry c) (cl_signals c) (cl_work_cost c) (cl_charge c) = (d, b)"
    and run: "admission_run H b cs = (ds', a')" and ds: "ds = d # ds'"
    by (rule admission_run_Cons [OF Cons.prems(1)])
  from step show ?case
  proof (cases rule: evaluate_inquiry_cases)
    case kept
    with Cons.IH [OF run] Cons.prems(2) show ?thesis by (simp add: ds charged_calls_Cons)
  next
    case (charged x)
    obtain l1 where l1: "ia_budget b = Some l1" "spend l (cl_work_cost c) False = Inr l1"
      using charge_inquiry_effect(3) [OF charged(8) Cons.prems(2)] by blast
    have ch: "charged_result d" using charged(1,2) by simp
    from Cons.IH [OF run l1(1)] l1(2) show ?thesis by (simp add: ds charged_calls_Cons ch)
  qed
qed

text \<open>What a call must satisfy to be charged, apart from the state of the admission; and with it.\<close>

definition rightly_charged :: "(nat list \<Rightarrow> string) \<Rightarrow> admission_config \<Rightarrow> admission_call \<Rightarrow> bool" where
  "rightly_charged H cfg c \<longleftrightarrow>
     (\<exists>score. inquiry_score H (cl_inquiry c) (cl_signals c) = Inr score \<and>
        ac_admit_threshold cfg \<le> score \<and> ac_defer_threshold cfg \<le> score) \<and>
     inquiry_has_valid_hash H (cl_inquiry c) = Inr True \<and> without_authority_claims (cl_inquiry c) \<and>
     0 < as_inquiry_count_remaining (cl_signals c) \<and>
     ac_minimum_time_remaining_ms cfg \<le> as_time_remaining_ms (cl_signals c) \<and>
     as_privacy_allowed (cl_signals c) \<and> as_backoff_remaining_ms (cl_signals c) \<le> 0 \<and>
     \<not> (as_user_present (cl_signals c) \<and> as_active_user_task (cl_signals c) \<and>
          500 \<le> as_runtime_pressure_milli (cl_signals c)) \<and>
     as_duplicate_milli (cl_signals c) < 1000"

definition may_charge :: "(nat list \<Rightarrow> string) \<Rightarrow> inquiry_admission \<Rightarrow> admission_call \<Rightarrow> bool" where
  "may_charge H a c \<longleftrightarrow>
     rightly_charged H (ia_config a) c \<and> wi_dedup_key (cl_inquiry c) \<notin> ia_admitted_dedup_keys a \<and>
     (case ia_budget a of None \<Rightarrow> True | Some l \<Rightarrow> can_spend l (cl_work_cost c) False)"

lemma admission_guard_None:
  "admission_guard a q s cost = None \<longleftrightarrow>
     0 < as_inquiry_count_remaining s \<and> ac_minimum_time_remaining_ms (ia_config a) \<le> as_time_remaining_ms s \<and>
     as_privacy_allowed s \<and> as_backoff_remaining_ms s \<le> 0 \<and>
     \<not> (as_user_present s \<and> as_active_user_task s \<and> 500 \<le> as_runtime_pressure_milli s) \<and>
     as_duplicate_milli s < 1000 \<and> wi_dedup_key q \<notin> ia_admitted_dedup_keys a \<and>
     (case ia_budget a of None \<Rightarrow> True | Some l \<Rightarrow> can_spend l cost False)"
  by (simp add: admission_guard_def not_le not_less split: option.split)

lemma score_needs_hash: "inquiry_score H q s = Inr n \<Longrightarrow> inquiry_has_valid_hash H q = Inr True"
  by (auto simp: inquiry_score_def bind_result_eq_Inr split: if_splits)

lemma charge_inquiry_total:
  assumes "case ia_budget a of None \<Rightarrow> True | Some l \<Rightarrow> can_spend l cost False"
  shows "\<exists>a'. charge_inquiry a q cost = Inr a'"
  using assms by (cases "ia_budget a") (simp_all add: charge_inquiry_def spend_def)

lemma charged_iff:
  "charged_result (fst (evaluate_inquiry H a (cl_inquiry c) (cl_signals c) (cl_work_cost c) (cl_charge c))) \<longleftrightarrow>
     cl_charge c \<and> may_charge H a c" (is "charged_result (fst ?e) \<longleftrightarrow> _")
proof
  assume ch: "charged_result (fst ?e)"
  obtain r a' where e: "?e = (r, a')" by fastforce
  with ch have r: "charged_result r" by simp
  have flag: "cl_charge c"
  proof (rule ccontr)
    assume "\<not> cl_charge c"
    with e have "\<not> charged_result r"
      by (auto simp: evaluate_inquiry_def scored_def bind_result_def split: if_splits option.splits sum.splits prod.splits)
    with r show False by contradiction
  qed
  from e show "cl_charge c \<and> may_charge H a c"
  proof (cases rule: evaluate_inquiry_cases)
    case kept
    with r show ?thesis by simp
  next
    case (charged d)
    have "ac_defer_threshold (ia_config a) \<le> qd_score d"
    proof (rule ccontr)
      assume low: "\<not> ac_defer_threshold (ia_config a) \<le> qd_score d"
      have "\<not> (wi_authorization (cl_inquiry c) \<noteq> ''NONE'' \<or> wi_may_execute (cl_inquiry c) \<or>
          wi_may_call_tools (cl_inquiry c) \<or> wi_empirical_evidence_weight_milli (cl_inquiry c) \<noteq> 0)"
        using charged(4) by (simp add: without_authority_claims_def)
      with e charged(5,6) low have "r = scored REJECTED ''INQUIRY_LOW_VALUE'' (Inr (qd_score d))"
        by (simp add: evaluate_inquiry_def)
      with charged(1) have "Inr d = scored REJECTED ''INQUIRY_LOW_VALUE'' (Inr (qd_score d))" by simp
      then have "d = \<lparr>qd_disposition = REJECTED, qd_reason_code = ''INQUIRY_LOW_VALUE'',
          qd_score = qd_score d, qd_charged = False\<rparr>" by (simp only: scored_def bind_result_Inr sum.inject)
      from arg_cong [OF this, of qd_charged] charged(2) show False by simp
    qed
    moreover note g = charged(5) [unfolded admission_guard_None]
    ultimately have "rightly_charged H (ia_config a) c"
      unfolding rightly_charged_def using charged(4,6,7) score_needs_hash [OF charged(6)]
      by (intro conjI exI [of _ "qd_score d"]) simp_all
    with g flag show ?thesis unfolding may_charge_def by simp
  qed
next
  assume may: "cl_charge c \<and> may_charge H a c"
  then obtain n where n: "inquiry_score H (cl_inquiry c) (cl_signals c) = Inr n"
    "ac_admit_threshold (ia_config a) \<le> n" "ac_defer_threshold (ia_config a) \<le> n"
    unfolding may_charge_def rightly_charged_def by blast
  have guard: "admission_guard a (cl_inquiry c) (cl_signals c) (cl_work_cost c) = None"
    using may unfolding admission_guard_None may_charge_def rightly_charged_def by simp
  have plain: "\<not> (wi_authorization (cl_inquiry c) \<noteq> ''NONE'' \<or> wi_may_execute (cl_inquiry c) \<or>
      wi_may_call_tools (cl_inquiry c) \<or> wi_empirical_evidence_weight_milli (cl_inquiry c) \<noteq> 0)"
    using may by (simp add: may_charge_def rightly_charged_def without_authority_claims_def)
  obtain b where "charge_inquiry a (cl_inquiry c) (cl_work_cost c) = Inr b"
    using charge_inquiry_total may unfolding may_charge_def by blast
  with guard plain n may show "charged_result (fst ?e)" by (simp add: evaluate_inquiry_def)
qed

lemma admission_run_rightly:
  "admission_run H a cs = (ds, a') \<Longrightarrow>
     list_all (rightly_charged H (ia_config a)) (charged_calls cs ds) \<and> ia_config a' = ia_config a"
proof (induction cs arbitrary: a ds)
  case Nil
  then show ?case by (simp add: charged_calls_def)
next
  case (Cons c cs)
  obtain d b ds' where step: "evaluate_inquiry H a (cl_inquiry c) (cl_signals c) (cl_work_cost c) (cl_charge c) = (d, b)"
    and run: "admission_run H b cs = (ds', a')" and ds: "ds = d # ds'"
    by (rule admission_run_Cons [OF Cons.prems])
  note IH = Cons.IH [OF run]
  from step show ?case
  proof (cases rule: evaluate_inquiry_cases)
    case kept
    with IH show ?thesis by (simp add: ds charged_calls_Cons)
  next
    case (charged x)
    have ch: "charged_result d" using charged(1,2) by simp
    have "may_charge H a c" using charged_iff [of H a c] step ch by simp
    then show ?thesis using IH charge_inquiry_effect(1) [OF charged(8)]
      by (simp add: ds charged_calls_Cons ch may_charge_def)
  qed
qed

text \<open>C13: Admission charges soundly.  Over any sequence of admission calls on a fresh budget, whatever the
  inquiries and signals: no deduplication key is charged twice; every charged inquiry carries its canonical
  hash and no authority, reaches both score thresholds, is allowed by privacy, has count and time left, is
  outside its backoff, is no duplicate by its signals, and does not compete with an active user task under
  pressure; and the budget is reduced by exactly the costs of the charged calls, with the reserve for
  interactive work untouched.  After any such sequence a call that asks to be charged is charged exactly when
  it passes these guards, its key is new and the budget can pay its cost outside the reserve.\<close>

theorem inquiry_admission_charges_soundly:
  assumes "BudgetConfig bc = Inr bc'"
    and "admission_run H (InquiryAdmission (Some cfg) (Some (BudgetLedger bc'))) cs = (ds, a')"
  shows "distinct (map (\<lambda>c. wi_dedup_key (cl_inquiry c)) (charged_calls cs ds)) \<and>
    list_all (rightly_charged H cfg) (charged_calls cs ds) \<and>
    (\<exists>l. ia_budget a' = Some l \<and>
       remaining l = total_budget bc - sum_list (map cl_work_cost (charged_calls cs ds)) \<and> reserve bc \<le> remaining l \<and>
       (\<forall>c. charged_result (fst (evaluate_inquiry H a' (cl_inquiry c) (cl_signals c) (cl_work_cost c) (cl_charge c))) \<longleftrightarrow>
          cl_charge c \<and> rightly_charged H cfg c \<and>
          wi_dedup_key (cl_inquiry c) \<notin> (\<lambda>c. wi_dedup_key (cl_inquiry c)) ` set (charged_calls cs ds) \<and>
          can_spend l (cl_work_cost c) False))"
proof (intro conjI)
  let ?a = "InquiryAdmission (Some cfg) (Some (BudgetLedger bc'))"
  have a: "ia_budget ?a = Some (BudgetLedger bc')" "ia_config ?a = cfg" by (simp_all add: InquiryAdmission_def)
  show "distinct (map (\<lambda>c. wi_dedup_key (cl_inquiry c)) (charged_calls cs ds))"
    using admission_run_keys [OF assms(2)] by blast
  show "list_all (rightly_charged H cfg) (charged_calls cs ds)"
    using admission_run_rightly [OF assms(2)] a(2) by simp
  have bc: "bc' = bc" "reserve bc \<le> total_budget bc" using assms(1) by (auto simp: BudgetConfig_eq_Inr)
  obtain l where l: "ia_budget a' = Some l"
    "spends spend (BudgetLedger bc') (map (\<lambda>c. (cl_work_cost c, False)) (charged_calls cs ds)) = Inr l"
    using admission_run_budget [OF assms(2) a(1)] by blast
  have acc: "remaining l = total_budget bc - sum_list (map cl_work_cost (charged_calls cs ds))"
    "reserve (bl_config l) = reserve bc"
    using budget.spends_account [OF l(2)] bc by (simp_all add: comp_def)
  have "reserve (bl_config l) \<le> remaining l"
    using budget.background_keeps_reserve [OF _ _ l(2)] bc by simp
  moreover have "ia_config a' = cfg" using admission_run_rightly [OF assms(2)] a(2) by simp
  moreover have "ia_admitted_dedup_keys a' = (\<lambda>c. wi_dedup_key (cl_inquiry c)) ` set (charged_calls cs ds)"
    using admission_run_keys [OF assms(2)] by (simp add: InquiryAdmission_def)
  ultimately show "\<exists>l. ia_budget a' = Some l \<and>
       remaining l = total_budget bc - sum_list (map cl_work_cost (charged_calls cs ds)) \<and> reserve bc \<le> remaining l \<and>
       (\<forall>c. charged_result (fst (evaluate_inquiry H a' (cl_inquiry c) (cl_signals c) (cl_work_cost c) (cl_charge c))) \<longleftrightarrow>
          cl_charge c \<and> rightly_charged H cfg c \<and>
          wi_dedup_key (cl_inquiry c) \<notin> (\<lambda>c. wi_dedup_key (cl_inquiry c)) ` set (charged_calls cs ds) \<and>
          can_spend l (cl_work_cost c) False)"
    using l(1) acc by (intro exI [of _ l]) (simp add: charged_iff may_charge_def)
qed

definition eager_call :: "world_inquiry \<Rightarrow> admission_call" where
  "eager_call q = \<lparr>cl_inquiry = q, cl_signals = \<lparr>as_user_relevance_milli = 1000, as_novelty_milli = 1000,
     as_actionability_milli = 1000, as_cost_milli = 0, as_risk_milli = 0, as_duplicate_milli = 0,
     as_privacy_cost_milli = 0, as_runtime_pressure_milli = 0, as_uncertainty_milli = 0, as_time_remaining_ms = 1000,
     as_inquiry_count_remaining = 1, as_privacy_allowed = True, as_user_present = False, as_active_user_task = False,
     as_backoff_remaining_ms = 0, as_prior_zero_gain_count = 0\<rparr>, cl_work_cost = WorkCost 10 0 0 0, cl_charge = True\<rparr>"

lemma sample_chain_exists:
  assumes "ok (WorldScope zero_hash (\<lambda>u. u) scope)"
  shows "\<exists>g q. valid_gap zero_hash (\<lambda>u. u) g \<and> valid_inquiry zero_hash (\<lambda>u. u) q \<and> inquiry_literals_ok q \<and> wi_scope q = scope"
proof -
  have sha: "\<forall>bs. Sha256 (zero_hash bs)" using Sha256_zero_hash by blast
  have codes: "OpaqueId ''door''" "OpaqueId ''corr''" by code_simp+
  have "KnowledgeGapGeneratorConfig default_gap_config = Inr default_gap_config" by code_simp
  note sig = config_signals_ok(3) [OF this]
  have short: "length (gs_missing (conflict_signals default_gap_config)) \<le> 160" by (simp add: conflict_signals_def)
  obtain g where g: "gap_about zero_hash (\<lambda>u. u) scope (sample_ref ''door'')
      (gs_missing (conflict_signals default_gap_config)) g"
    using build_gap_ok [OF sha assms sample_ref_ok [OF codes(1)] sample_ref_ok [OF codes(1)] sig] by blast
  have time: "timestamp_ok 10" "opt_ok (\<lambda>e. 10 \<le> e \<and> timestamp_ok e) None" "opt_ok record_ref_fields_ok None"
    by (simp_all add: timestamp_ok_def MAX_SAFE_INTEGER_def)
  obtain c where c: "valid_curiosity zero_hash (\<lambda>u. u) c" "cu_scope c = kg_scope g" "cu_question c = gap_question g"
    using build_curiosity_ok [OF sha g short time(3,1,2)] by blast
  have ascii: "\<not> list_ex surrogate (cu_question c)" using gap_question_ok(2) [OF g short] c(3) by simp
  have valid: "valid_gap zero_hash (\<lambda>u. u) g" "kg_scope g = scope" using g by (simp_all add: gap_about_def)
  from build_inquiry_ok [OF sha valid(1) c(1,2) ascii codes(2) time(3), of 0] valid show ?thesis by fastforce
qed

lemma sample_inquiry_exists:
  "\<exists>q. valid_inquiry zero_hash (\<lambda>u. u) q \<and> inquiry_literals_ok q \<and> wi_scope q = inquiry_sample_scope"
  using sample_chain_exists [of inquiry_sample_scope] by (simp add: inquiry_sample_scope_ok)

theorem inquiry_admission_charges_soundly_witness:
  "\<exists>q ds a'. admission_run zero_hash (InquiryAdmission (Some default_admission_config) (Some (BudgetLedger sample_budget)))
       [eager_call q, eager_call q] = (ds, a') \<and> charged_calls [eager_call q, eager_call q] ds = [eager_call q] \<and>
     (\<exists>l. ia_budget a' = Some l \<and> remaining l = total_budget sample_budget - WorkCost 10 0 0 0 \<and> reserve sample_budget \<le> remaining l)"
proof -
  obtain q where q: "valid_inquiry zero_hash (\<lambda>u. u) q" "inquiry_literals_ok q" using sample_inquiry_exists by blast
  let ?c = "eager_call q" let ?l = "BudgetLedger sample_budget"
  let ?a = "InquiryAdmission (Some default_admission_config) (Some ?l)"
  obtain n where n: "inquiry_score zero_hash q (cl_signals ?c) = Inr n" "3000 \<le> n"
    using q(1) by (simp add: valid_inquiry_def WorldInquiry_Inr inquiry_numbers_ok_def inquiry_score_def eager_call_def)
  have plain: "\<not> (wi_authorization q \<noteq> ''NONE'' \<or> wi_may_execute q \<or> wi_may_call_tools q \<or>
      wi_empirical_evidence_weight_milli q \<noteq> 0)" using q(2) by (simp add: inquiry_literals_ok_def)
  obtain l' where l': "spend ?l (WorkCost 10 0 0 0) False = Inr l'"
    by (simp add: spend_def can_spend_def ledger_available_def BudgetLedger_def sample_budget_def)
  let ?b = "?a\<lparr>ia_budget := Some l', ia_admitted_dedup_keys := {wi_dedup_key q}\<rparr>"
  let ?d = "\<lparr>qd_disposition = ADMITTED, qd_reason_code = ''OK'', qd_score = n, qd_charged = True\<rparr>"
  let ?e = "\<lparr>qd_disposition = REJECTED, qd_reason_code = ''INQUIRY_DUPLICATE'', qd_score = n, qd_charged = False\<rparr>"
  have can: "can_spend ?l (WorkCost 10 0 0 0) False" using l' by (simp add: spend_def split: if_splits)
  have g1: "admission_guard ?a q (cl_signals ?c) (cl_work_cost ?c) = None"
    using can by (simp add: admission_guard_def eager_call_def InquiryAdmission_def default_admission_config_def)
  have g2: "admission_guard ?b q (cl_signals ?c) (cl_work_cost ?c) = Some (REJECTED, ''INQUIRY_DUPLICATE'')"
    by (simp add: admission_guard_def eager_call_def InquiryAdmission_def default_admission_config_def)
  have ch: "charge_inquiry ?a q (cl_work_cost ?c) = Inr ?b"
    using l' by (simp add: charge_inquiry_def InquiryAdmission_def eager_call_def)
  have cfg: "ia_config ?a = default_admission_config" by (simp add: InquiryAdmission_def)
  have e1: "evaluate_inquiry zero_hash ?a q (cl_signals ?c) (cl_work_cost ?c) True = (Inr ?d, ?b)"
    unfolding evaluate_inquiry_def if_not_P [OF plain] g1 n(1) cfg using n(2) ch
    by (simp add: default_admission_config_def)
  have e2: "evaluate_inquiry zero_hash ?b q (cl_signals ?c) (cl_work_cost ?c) True = (Inr ?e, ?b)"
    unfolding evaluate_inquiry_def if_not_P [OF plain] g2 n(1) by (simp add: scored_def)
  have c: "cl_inquiry ?c = q" "cl_charge ?c = True" "cl_work_cost ?c = WorkCost 10 0 0 0" by (simp_all add: eager_call_def)
  have run: "admission_run zero_hash ?a [?c, ?c] = ([Inr ?d, Inr ?e], ?b)" by (simp add: c(1,2) e1 e2)
  have charged: "charged_calls [?c, ?c] [Inr ?d, Inr ?e] = [?c]" by (simp add: charged_calls_def)
  have bc: "BudgetConfig sample_budget = Inr sample_budget" by code_simp
  have "ia_budget ?b = Some l'" by simp
  from inquiry_admission_charges_soundly [OF bc run, unfolded charged, THEN conjunct2, THEN conjunct2]
  obtain l where l: "ia_budget ?b = Some l \<and>
      remaining l = total_budget sample_budget - sum_list (map cl_work_cost [?c]) \<and> reserve sample_budget \<le> remaining l"
    by (elim exE conjE) iprover
  then have "\<exists>l. ia_budget ?b = Some l \<and> remaining l = total_budget sample_budget - WorkCost 10 0 0 0 \<and>
      reserve sample_budget \<le> remaining l"
    unfolding list.map sum_list.Cons sum_list.Nil add_0_right c(3) by (rule exI)
  with run charged show ?thesis by blast
qed

end
