(* ===== verification/Self_Will.thy ===== *)
theory Self_Will
  imports Policy_Engine Inquiry
begin

text \<open>
  From an inquiry to the gateway and back.  \<open>src/world_understanding/inquiry/self_will_integration.py\<close>: the
  adapter that turns an inquiry into one self-will decision, the autonomous intent of an accepted inquiry and
  the bridge that submits it; \<open>src/life_service/action_intents.py\<close>: the emitter in front of the gateway;
  \<open>src/total_gateway/orchestration.py\<close>: the in-process transport that lets the policy engine decide, with the
  provenance it presents; \<open>src/world_understanding/inquiry/inquiry_outcome.py\<close>: the outcome that closes the
  inquiry.  What the program receives from its caller is an argument: the decider (which returns a record, a
  mapping or something else, or raises), the factory of action intents, the transport with its state \<open>w\<close> and
  the result sink.  Of a mapping the values read are absent or strings.  \<open>str.upper\<close> on arbitrary text needs
  the Unicode database and is the parameter \<open>upper\<close>.
\<close>

section \<open>Decisions and intents\<close>

record self_will_decision =
  sw_decision_id :: string
  sw_inquiry_id :: string
  sw_decision :: ustring
  sw_reason_codes :: "ustring list"
  sw_goal :: "ustring option"
  sw_decided_at_ms :: int
  sw_empirical_evidence_weight_milli :: int
  sw_may_authorize :: bool
  sw_may_execute :: bool
  sw_decision_sha256 :: string

definition jtexts :: "ustring list \<Rightarrow> pyval" where
  "jtexts us = PSequence (map jtext us)"

definition self_will_decision_dump :: "self_will_decision \<Rightarrow> (string \<times> pyval) list" where
  "self_will_decision_dump r =
     [(''decision_id'', jstr (sw_decision_id r)), (''inquiry_id'', jstr (sw_inquiry_id r)),
      (''decision'', jtext (sw_decision r)), (''reason_codes'', jtexts (sw_reason_codes r)),
      (''goal'', jsome jtext (sw_goal r)), (''decided_at_ms'', PInt (sw_decided_at_ms r)),
      (''empirical_evidence_weight_milli'', PInt (sw_empirical_evidence_weight_milli r)),
      (''may_authorize'', PBool (sw_may_authorize r)), (''may_execute'', PBool (sw_may_execute r))]"

definition self_will_with_hash :: "(nat list \<Rightarrow> string) \<Rightarrow> self_will_decision \<Rightarrow> self_will_decision result" where
  "self_will_with_hash H r =
     bind_result (computed_sha256 H (self_will_decision_dump r)) (\<lambda>h. Inr (r\<lparr>sw_decision_sha256 := h\<rparr>))"

definition self_will_has_valid_hash :: "(nat list \<Rightarrow> string) \<Rightarrow> self_will_decision \<Rightarrow> bool result" where
  "self_will_has_valid_hash H r = has_valid_sha256 H (self_will_decision_dump r) (sw_decision_sha256 r)"

record autonomous_intent =
  au_autonomous_intent_id :: string
  au_origin :: string
  au_principal :: string
  au_life_id :: string
  au_source_inquiry_id :: string
  au_source_inquiry_sha256 :: string
  au_goal :: ustring
  au_suggested_observation_modalities :: "string list"
  au_authority_refs :: "string list"
  au_authorization :: string
  au_may_execute_directly :: bool
  au_requires_gateway_evaluation :: bool
  au_empirical_evidence_weight_milli :: int
  au_created_at_ms :: int
  au_expires_at_ms :: int
  au_autonomous_intent_sha256 :: string

definition strip_text :: "ustring \<Rightarrow> ustring" where
  "strip_text u = strip_by py_isspace u"

definition AutonomousIntent :: "autonomous_intent \<Rightarrow> autonomous_intent result" where
  "AutonomousIntent a =
     (if au_origin a \<noteq> ''SELF_WILL'' \<or> au_principal a \<noteq> ''life:self'' \<or> au_authority_refs a \<noteq> []
      then Inl (ValueError ''AUTONOMOUS_INTENT_AUTHORITY_INVALID'')
      else if strip_text (au_goal a) = [] \<or> au_expires_at_ms a \<le> au_created_at_ms a
      then Inl (ValueError ''AUTONOMOUS_INTENT_LIFETIME_INVALID'')
      else Inr a)"

definition autonomous_intent_dump :: "autonomous_intent \<Rightarrow> (string \<times> pyval) list" where
  "autonomous_intent_dump a =
     [(''autonomous_intent_id'', jstr (au_autonomous_intent_id a)), (''origin'', jstr (au_origin a)),
      (''principal'', jstr (au_principal a)), (''life_id'', jstr (au_life_id a)),
      (''source_inquiry_id'', jstr (au_source_inquiry_id a)),
      (''source_inquiry_sha256'', jstr (au_source_inquiry_sha256 a)), (''goal'', jtext (au_goal a)),
      (''suggested_observation_modalities'', jstrs (au_suggested_observation_modalities a)),
      (''authority_refs'', jstrs (au_authority_refs a)), (''authorization'', jstr (au_authorization a)),
      (''may_execute_directly'', PBool (au_may_execute_directly a)),
      (''requires_gateway_evaluation'', PBool (au_requires_gateway_evaluation a)),
      (''empirical_evidence_weight_milli'', PInt (au_empirical_evidence_weight_milli a)),
      (''created_at_ms'', PInt (au_created_at_ms a)), (''expires_at_ms'', PInt (au_expires_at_ms a))]"

definition autonomous_intent_id :: "(nat list \<Rightarrow> string) \<Rightarrow> autonomous_intent \<Rightarrow> string result" where
  "autonomous_intent_id H a =
     bind_result (canonical_sha256 H (jobj
       [(''domain'', jstr ''tiangong.world.autonomous-intent-id.v1''), (''life_id'', jstr (au_life_id a)),
        (''source_inquiry_id'', jstr (au_source_inquiry_id a)), (''created_at_ms'', PInt (au_created_at_ms a)),
        (''goal'', jtext (au_goal a))]))
       (\<lambda>h. Inr (''waut_'' @ h))"

text \<open>\<open>replace\<close> runs \<open>__post_init__\<close> again, on fields that do not change.\<close>

definition autonomous_intent_with_hash :: "(nat list \<Rightarrow> string) \<Rightarrow> autonomous_intent \<Rightarrow> autonomous_intent result" where
  "autonomous_intent_with_hash H a =
     bind_result (autonomous_intent_id H a) (\<lambda>identity.
     bind_result (AutonomousIntent (a\<lparr>au_autonomous_intent_id := identity, au_autonomous_intent_sha256 := []\<rparr>)) (\<lambda>identified.
     bind_result (computed_sha256 H (autonomous_intent_dump identified)) (\<lambda>digest.
       AutonomousIntent (identified\<lparr>au_autonomous_intent_sha256 := digest\<rparr>))))"

definition autonomous_intent_has_valid_hash :: "(nat list \<Rightarrow> string) \<Rightarrow> autonomous_intent \<Rightarrow> bool result" where
  "autonomous_intent_has_valid_hash H a =
     has_valid_sha256 H (autonomous_intent_dump a) (au_autonomous_intent_sha256 a)"

section \<open>The adapter\<close>

datatype decider_reply =
    Reply_record self_will_decision
  | Reply_mapping "ustring option" "ustring list option" "ustring option"
  | Reply_other

definition text_or_empty :: "ustring option \<Rightarrow> ustring" where
  "text_or_empty t = (case t of None \<Rightarrow> [] | Some u \<Rightarrow> u)"

definition is_decision :: "ustring \<Rightarrow> bool" where
  "is_decision d \<longleftrightarrow> d \<in> set (map ustr SelfWillDecision)"

definition record_of_mapping ::
    "(nat list \<Rightarrow> string) \<Rightarrow> (ustring \<Rightarrow> ustring) \<Rightarrow> world_inquiry \<Rightarrow> int \<Rightarrow> ustring option \<Rightarrow> ustring list option \<Rightarrow>
     ustring option \<Rightarrow> self_will_decision result" where
  "record_of_mapping H upper q decided_at_ms raw_decision raw_reasons raw_goal =
     (let decision = upper (text_or_empty raw_decision);
          reasons = sorted_set (filter (\<lambda>v. v \<noteq> []) (case raw_reasons of None \<Rightarrow> [] | Some vs \<Rightarrow> vs));
          stripped = strip_text (text_or_empty raw_goal);
          goal = (if stripped = [] then None else Some stripped) in
      if \<not> is_decision decision then Inl (ValueError ''SELF_WILL_DECISION_INVALID'')
      else bind_result (canonical_sha256 H (jobj
             [(''domain'', jstr ''tiangong.world.self-will-decision-id.v1''), (''inquiry_id'', jstr (wi_inquiry_id q)),
              (''decision'', jtext decision), (''reasons'', jtexts reasons), (''goal'', jsome jtext goal),
              (''decided_at_ms'', PInt decided_at_ms)]))
        (\<lambda>h. self_will_with_hash H
           \<lparr>sw_decision_id = ''swdec_'' @ h, sw_inquiry_id = wi_inquiry_id q, sw_decision = decision,
            sw_reason_codes = (if reasons = [] then [ustr ''self_will.decision''] else reasons), sw_goal = goal,
            sw_decided_at_ms = decided_at_ms, sw_empirical_evidence_weight_milli = 0, sw_may_authorize = False,
            sw_may_execute = False, sw_decision_sha256 = []\<rparr>))"

definition decision_bound :: "(nat list \<Rightarrow> string) \<Rightarrow> world_inquiry \<Rightarrow> int \<Rightarrow> self_will_decision \<Rightarrow> bool result" where
  "decision_bound H q decided_at_ms r =
     (if sw_inquiry_id r \<noteq> wi_inquiry_id q \<or> sw_decided_at_ms r \<noteq> decided_at_ms \<or> \<not> is_decision (sw_decision r) \<or>
         sw_empirical_evidence_weight_milli r \<noteq> 0 \<or> sw_may_authorize r \<or> sw_may_execute r
      then Inr False else self_will_has_valid_hash H r)"

definition intent_for ::
    "(nat list \<Rightarrow> string) \<Rightarrow> world_inquiry \<Rightarrow> int \<Rightarrow> ustring \<Rightarrow> autonomous_intent result" where
  "intent_for H q decided_at_ms goal =
     bind_result (AutonomousIntent
       \<lparr>au_autonomous_intent_id = ''waut_pending'', au_origin = ''SELF_WILL'', au_principal = ''life:self'',
        au_life_id = sc_life_id (wi_scope q), au_source_inquiry_id = wi_inquiry_id q,
        au_source_inquiry_sha256 = wi_inquiry_sha256 q, au_goal = goal,
        au_suggested_observation_modalities = wi_suggested_observation_modalities q, au_authority_refs = [],
        au_authorization = ''NONE'', au_may_execute_directly = False, au_requires_gateway_evaluation = True,
        au_empirical_evidence_weight_milli = 0, au_created_at_ms = decided_at_ms,
        au_expires_at_ms = decided_at_ms + 60000, au_autonomous_intent_sha256 = []\<rparr>)
       (autonomous_intent_with_hash H)"

definition decide ::
    "(nat list \<Rightarrow> string) \<Rightarrow> (ustring \<Rightarrow> ustring) \<Rightarrow> (world_inquiry \<Rightarrow> decider_reply result) \<Rightarrow> world_inquiry \<Rightarrow> int \<Rightarrow>
     (self_will_decision \<times> autonomous_intent option) result" where
  "decide H upper decider q decided_at_ms =
     bind_result (inquiry_has_valid_hash H q) (\<lambda>valid.
     if \<not> valid \<or> wi_authorization q \<noteq> ''NONE'' \<or> wi_may_execute q \<or> wi_may_call_tools q
     then Inl (ValueError ''WORLD_INQUIRY_INVALID_FOR_SELF_WILL'')
     else
       bind_result (decider q) (\<lambda>raw.
       bind_result (case raw of
           Reply_record r \<Rightarrow> Inr r
         | Reply_mapping d rs g \<Rightarrow> record_of_mapping H upper q decided_at_ms d rs g
         | Reply_other \<Rightarrow> Inl (ValueError ''SELF_WILL_DECISION_INVALID'')) (\<lambda>r.
       bind_result (decision_bound H q decided_at_ms r) (\<lambda>bound.
       if \<not> bound then Inl (ValueError ''SELF_WILL_DECISION_BINDING_INVALID'')
       else if sw_decision r \<noteq> ustr ''ACCEPT'' then Inr (r, None)
       else if text_or_empty (sw_goal r) = [] then Inl (ValueError ''SELF_WILL_ACCEPT_REQUIRES_GOAL'')
       else bind_result (intent_for H q decided_at_ms (text_or_empty (sw_goal r))) (\<lambda>a. Inr (r, Some a))))))"

section \<open>The emitter\<close>

record action_intent_receipt =
  rp_intent_id :: string
  rp_intent_sha256 :: string
  rp_status :: string
  rp_policy_decision_id :: "string option"
  rp_receipt_sha256 :: string

definition receipt_computed_sha256 :: "(nat list \<Rightarrow> string) \<Rightarrow> action_intent_receipt \<Rightarrow> string result" where
  "receipt_computed_sha256 H r =
     canonical_sha256 H (jobj
       [(''intent_id'', jstr (rp_intent_id r)), (''intent_sha256'', jstr (rp_intent_sha256 r)),
        (''status'', jstr (rp_status r)), (''policy_decision_id'', jopt (rp_policy_decision_id r))])"

type_synonym 'w transport = "'w \<Rightarrow> action_intent \<Rightarrow> action_intent_receipt result \<times> 'w"

definition accept_receipt ::
    "(nat list \<Rightarrow> string) \<Rightarrow> action_intent \<Rightarrow> action_intent_receipt \<Rightarrow> action_intent_receipt result" where
  "accept_receipt H i r =
     (let bad = Inl (ValueError ''Gateway returned an invalid action-intent receipt'') in
      if rp_intent_id r \<noteq> ai_intent_id i \<or> rp_intent_sha256 r \<noteq> ai_intent_sha256 i \<or>
         rp_status r \<notin> {''REJECTED'', ''CONFIRMATION_REQUIRED'', ''AUTHORIZED''} then bad
      else bind_result (receipt_computed_sha256 H r) (\<lambda>h. if rp_receipt_sha256 r \<noteq> h then bad else Inr r))"

definition scheduler_intent :: "(nat list \<Rightarrow> string) \<Rightarrow> action_intent \<Rightarrow> bool result" where
  "scheduler_intent H i = (if ai_source i \<noteq> ''life_scheduler'' then Inr False else intent_has_valid_sha256 H i)"

definition emitter_submit ::
    "(nat list \<Rightarrow> string) \<Rightarrow> 'w transport \<Rightarrow> 'w \<Rightarrow> action_intent \<Rightarrow> action_intent_receipt result \<times> 'w" where
  "emitter_submit H transport w i =
     (case scheduler_intent H i of
        Inl e \<Rightarrow> (Inl e, w)
      | Inr valid \<Rightarrow>
          if \<not> valid then (Inl (ValueError ''life scheduler action intent is invalid''), w)
          else (case transport w i of (r, w') \<Rightarrow> (bind_result r (accept_receipt H i), w')))"

definition AUTHORITATIVE_SOURCES :: "string list" where
  "AUTHORITATIVE_SOURCES = [''CURRENT_USER_INSTRUCTION'', ''PREAUTHORIZED_USER_FACT'', ''AUTHENTICATED_DIRECTORY'']"

definition inquiry_refs :: "action_intent \<Rightarrow> string \<Rightarrow> string \<Rightarrow> source_ref list" where
  "inquiry_refs i inquiry_id inquiry_sha256 =
     filter (\<lambda>ref. sf_object_id ref = inquiry_id \<and> sf_sha256 ref = inquiry_sha256) (ai_source_refs i)"

definition submit_self_will ::
    "(nat list \<Rightarrow> string) \<Rightarrow> 'w transport \<Rightarrow> 'w \<Rightarrow> action_intent \<Rightarrow> string \<Rightarrow> string \<Rightarrow>
     action_intent_receipt result \<times> 'w" where
  "submit_self_will H transport w i inquiry_id inquiry_sha256 =
     (case scheduler_intent H i of
        Inl e \<Rightarrow> (Inl e, w)
      | Inr valid \<Rightarrow>
          if \<not> valid
          then (Inl (ValueError ''self-will Gateway intent must remain a life_scheduler ActionIntent''), w)
          else if length (inquiry_refs i inquiry_id inquiry_sha256) \<noteq> 1 \<or>
            sf_source_type (hd (inquiry_refs i inquiry_id inquiry_sha256)) \<noteq> ''EXTERNAL_DATA''
          then (Inl (ValueError ''self-will inquiry provenance is missing or authoritative''), w)
          else if list_ex (\<lambda>ref. sf_object_id ref = inquiry_id \<and> sf_source_type ref \<in> set AUTHORITATIVE_SOURCES)
            (ai_source_refs i)
          then (Inl (ValueError ''WorldInquiry cannot be represented as user authorization''), w)
          else emitter_submit H transport w i)"

section \<open>The bridge\<close>

definition bridge_submit ::
    "(nat list \<Rightarrow> string) \<Rightarrow> (autonomous_intent \<Rightarrow> world_inquiry \<Rightarrow> action_intent result) \<Rightarrow> 'w transport \<Rightarrow> 'w \<Rightarrow>
     autonomous_intent \<Rightarrow> world_inquiry \<Rightarrow> action_intent_receipt result \<times> 'w" where
  "bridge_submit H factory transport w a q =
     (let raise = (\<lambda>m. (Inl (ValueError m), w)) in
      case inquiry_has_valid_hash H q of Inl e \<Rightarrow> (Inl e, w) | Inr valid \<Rightarrow>
      if \<not> valid \<or> wi_authorization q \<noteq> ''NONE'' \<or> wi_may_execute q \<or> wi_may_call_tools q \<or>
         wi_empirical_evidence_weight_milli q \<noteq> 0
      then raise ''WORLD_INQUIRY_INVALID_FOR_GATEWAY_BRIDGE''
      else case autonomous_intent_has_valid_hash H a of Inl e \<Rightarrow> (Inl e, w) | Inr sealed \<Rightarrow>
      if \<not> sealed then raise ''AUTONOMOUS_INTENT_HASH_INVALID''
      else if au_origin a \<noteq> ''SELF_WILL'' \<or> au_principal a \<noteq> ''life:self'' \<or> au_authority_refs a \<noteq> [] \<or>
         au_source_inquiry_id a \<noteq> wi_inquiry_id q \<or> au_source_inquiry_sha256 a \<noteq> wi_inquiry_sha256 q \<or>
         au_life_id a \<noteq> sc_life_id (wi_scope q)
      then raise ''AUTONOMOUS_INTENT_BINDING_INVALID''
      else case factory a q of Inl e \<Rightarrow> (Inl e, w) | Inr i \<Rightarrow>
      if ai_life_id i \<noteq> sc_life_id (wi_scope q) \<or>
         ai_principal_scope_hash i \<noteq> sc_principal_scope_hash (wi_scope q)
      then raise ''SELF_WILL_GATEWAY_INTENT_SCOPE_MISMATCH''
      else submit_self_will H transport w i (wi_inquiry_id q) (wi_inquiry_sha256 q))"

record dispatch_result =
  dp_decision :: self_will_decision
  dp_autonomous_intent :: "autonomous_intent option"
  dp_gateway_receipt :: "action_intent_receipt option"

definition dispatch ::
    "(nat list \<Rightarrow> string) \<Rightarrow> (ustring \<Rightarrow> ustring) \<Rightarrow> (world_inquiry \<Rightarrow> decider_reply result) \<Rightarrow>
     ((autonomous_intent \<Rightarrow> world_inquiry \<Rightarrow> action_intent result) \<times> 'w transport) option \<Rightarrow>
     (dispatch_result \<Rightarrow> unit result) option \<Rightarrow> int \<Rightarrow> 'w \<Rightarrow> world_inquiry \<Rightarrow> dispatch_result result \<times> 'w" where
  "dispatch H upper decider bridge sink now_ms w q =
     (case decide H upper decider q now_ms of
        Inl e \<Rightarrow> (Inl e, w)
      | Inr (r, intent) \<Rightarrow>
          let (receipt, w') =
            (case (intent, bridge) of
               (Some a, Some (factory, transport)) \<Rightarrow>
                 (case bridge_submit H factory transport w a q of
                    (answer, w') \<Rightarrow> (bind_result answer (\<lambda>rcpt. Inr (Some rcpt)), w'))
             | _ \<Rightarrow> (Inr None, w))
          in (bind_result receipt (\<lambda>rcpt.
                let result = \<lparr>dp_decision = r, dp_autonomous_intent = intent, dp_gateway_receipt = rcpt\<rparr>
                in bind_result (case sink of None \<Rightarrow> Inr () | Some f \<Rightarrow> f result) (\<lambda>_. Inr result)), w'))"

definition inquiry_source_ref :: "(nat list \<Rightarrow> string) \<Rightarrow> world_inquiry \<Rightarrow> source_ref result" where
  "inquiry_source_ref H q =
     bind_result (inquiry_has_valid_hash H q) (\<lambda>valid.
     if \<not> valid then Inl (ValueError ''WORLD_INQUIRY_HASH_INVALID'')
     else SourceRef \<lparr>sf_source_type = ''EXTERNAL_DATA'', sf_object_id = wi_inquiry_id q,
            sf_object_revision = wi_revision q, sf_sha256 = wi_inquiry_sha256 q, sf_span_start = None,
            sf_span_end = None\<rparr>)"

section \<open>The transport of the gateway\<close>

text \<open>
  \<open>_GatewayPolicyTransport\<close>: its state is the decision it made last.  The references it presents for authorization
  are the life chain's own fact; the inquiry is only added to the provenance of the intent.
\<close>

definition receipt_status :: "policy_outcome \<Rightarrow> string" where
  "receipt_status x = (case x of ALLOW \<Rightarrow> ''AUTHORIZED'' | REQUIRE_CONFIRMATION \<Rightarrow> ''CONFIRMATION_REQUIRED'' | REJECT \<Rightarrow> ''REJECTED'')"

definition gateway_transport ::
    "(nat list \<Rightarrow> string) \<Rightarrow> policy_engine \<Rightarrow> action_impact \<Rightarrow> int \<Rightarrow> ref_item list \<Rightarrow> policy_decision option transport" where
  "gateway_transport H e m now_ms authorization_refs w i =
     (case evaluate H e i m now_ms None None (Some authorization_refs) None of
        Inl err \<Rightarrow> (Inl err, w)
      | Inr d \<Rightarrow>
          (let r = \<lparr>rp_intent_id = ai_intent_id i, rp_intent_sha256 = ai_intent_sha256 i,
                 rp_status = receipt_status (pd_outcome d), rp_policy_decision_id = Some (pd_decision_id d),
                 rp_receipt_sha256 = []\<rparr>
           in bind_result (receipt_computed_sha256 H r) (\<lambda>h. Inr (r\<lparr>rp_receipt_sha256 := h\<rparr>)), Some d))"

definition authorization_source_refs :: "string \<Rightarrow> source_ref list" where
  "authorization_source_refs life_evidence_ref =
     [\<lparr>sf_source_type = ''PREAUTHORIZED_USER_FACT'', sf_object_id = life_evidence_ref, sf_object_revision = 1,
       sf_sha256 = drop 4 life_evidence_ref, sf_span_start = None, sf_span_end = None\<rparr>]"

definition provenance_source_refs :: "string \<Rightarrow> string \<Rightarrow> string \<Rightarrow> source_ref list" where
  "provenance_source_refs life_evidence_ref source_inquiry_id artifact_sha256 =
     (if source_inquiry_id = [] then authorization_source_refs life_evidence_ref
      else sort_key source_sort_key (authorization_source_refs life_evidence_ref @
        [\<lparr>sf_source_type = ''EXTERNAL_DATA'', sf_object_id = source_inquiry_id, sf_object_revision = 1,
          sf_sha256 = artifact_sha256, sf_span_start = None, sf_span_end = None\<rparr>]))"

section \<open>The outcome\<close>

record outcome_report =
  or_closed_at_ms :: int
  or_run_id :: "string option"
  or_execution_ticket_id :: "string option"
  or_resulting_source_envelope_refs :: "record_ref list"
  or_observation_refs :: "record_ref list"
  or_evidence_refs :: "record_ref list"
  or_changed_cognition_refs :: "record_ref list"
  or_changed_world_state_refs :: "record_ref list"
  or_resolved :: bool
  or_residual_gap_milli :: int
  or_information_gain_milli :: int

definition outcome_intent_id ::
    "(nat list \<Rightarrow> string) \<Rightarrow> world_inquiry \<Rightarrow> autonomous_intent option \<Rightarrow> string option result" where
  "outcome_intent_id H q intent =
     (case intent of
        None \<Rightarrow> Inr None
      | Some a \<Rightarrow> bind_result (autonomous_intent_has_valid_hash H a) (\<lambda>sealed.
          if \<not> sealed \<or> au_source_inquiry_id a \<noteq> wi_inquiry_id q \<or> au_life_id a \<noteq> sc_life_id (wi_scope q)
          then Inl (ValueError ''INQUIRY_OUTCOME_AUTONOMOUS_INTENT_MISMATCH'')
          else Inr (Some (au_autonomous_intent_id a))))"

definition build_inquiry_outcome ::
    "(nat list \<Rightarrow> string) \<Rightarrow> (ustring \<Rightarrow> ustring) \<Rightarrow> world_inquiry \<Rightarrow> string \<Rightarrow> autonomous_intent option \<Rightarrow> outcome_report \<Rightarrow>
     inquiry_outcome result" where
  "build_inquiry_outcome H nfc q self_will intent x =
     bind_result (inquiry_has_valid_hash H q) (\<lambda>valid.
     if \<not> valid then Inl (ValueError ''WORLD_INQUIRY_HASH_INVALID'')
     else if self_will = ''ACCEPT'' \<and> intent = None
     then Inl (ValueError ''INQUIRY_OUTCOME_ACCEPT_REQUIRES_AUTONOMOUS_INTENT'')
     else if self_will \<noteq> ''ACCEPT'' \<and> intent \<noteq> None
     then Inl (ValueError ''INQUIRY_OUTCOME_NON_ACCEPT_CANNOT_HAVE_AUTONOMOUS_INTENT'')
     else if self_will \<noteq> ''ACCEPT'' \<and> or_resolved x
     then Inl (ValueError ''INQUIRY_OUTCOME_NON_ACCEPT_CANNOT_RESOLVE_WORLD_GAP'')
     else
       bind_result (outcome_intent_id H q intent) (\<lambda>intent_id.
       bind_result (derive_inquiry_outcome_id H (sc_world_scope_hash (wi_scope q)) (wi_inquiry_id q) self_will
         (or_closed_at_ms x) (or_resulting_source_envelope_refs x)) (\<lambda>outcome_id.
       bind_result (InquiryOutcome H nfc
         \<lparr>io_outcome_id = outcome_id, io_scope = wi_scope q, io_inquiry_id = wi_inquiry_id q,
          io_self_will_decision = self_will, io_autonomous_intent_id = intent_id, io_run_id = or_run_id x,
          io_execution_ticket_id = or_execution_ticket_id x,
          io_resulting_source_envelope_refs = or_resulting_source_envelope_refs x,
          io_observation_refs = or_observation_refs x, io_evidence_refs = or_evidence_refs x,
          io_resolved = or_resolved x, io_residual_gap_milli = or_residual_gap_milli x,
          io_information_gain_milli = or_information_gain_milli x,
          io_changed_cognition_refs = or_changed_cognition_refs x,
          io_changed_world_state_refs = or_changed_world_state_refs x, io_closed_at_ms = or_closed_at_ms x,
          io_empirical_evidence_weight_milli = 0, io_outcome_sha256 = UNSET_SHA256\<rparr>)
         (outcome_with_computed_hash H))))"

section \<open>What self-will may do\<close>

interpretation self_will_seal: sealed_record self_will_decision_dump sw_decision_sha256 "\<lambda>h r. r\<lparr>sw_decision_sha256 := h\<rparr>"
  by standard (simp_all add: self_will_decision_dump_def)

interpretation autonomous_seal: sealed_record autonomous_intent_dump au_autonomous_intent_sha256
    "\<lambda>h a. a\<lparr>au_autonomous_intent_sha256 := h\<rparr>"
  by standard (simp_all add: autonomous_intent_dump_def)

text \<open>An intent that is tied to one inquiry at its present revision and claims nothing.\<close>

definition powerless_intent_of :: "world_inquiry \<Rightarrow> autonomous_intent \<Rightarrow> bool" where
  "powerless_intent_of q a \<longleftrightarrow>
     au_origin a = ''SELF_WILL'' \<and> au_principal a = ''life:self'' \<and> au_authority_refs a = [] \<and>
     au_authorization a = ''NONE'' \<and> \<not> au_may_execute_directly a \<and> au_requires_gateway_evaluation a \<and>
     au_empirical_evidence_weight_milli a = 0 \<and> au_life_id a = sc_life_id (wi_scope q) \<and>
     au_source_inquiry_id a = wi_inquiry_id q \<and> au_source_inquiry_sha256 a = wi_inquiry_sha256 q \<and>
     au_suggested_observation_modalities a = wi_suggested_observation_modalities q"

lemma AutonomousIntent_Inr:
  "AutonomousIntent a = Inr b \<longleftrightarrow> b = a \<and> au_origin a = ''SELF_WILL'' \<and> au_principal a = ''life:self'' \<and>
     au_authority_refs a = [] \<and> strip_text (au_goal a) \<noteq> [] \<and> au_created_at_ms a < au_expires_at_ms a"
  by (auto simp: AutonomousIntent_def)

lemma intent_with_hash_Inr:
  assumes "autonomous_intent_with_hash H a = Inr b"
  shows "autonomous_intent_has_valid_hash H b = Inr True" "AutonomousIntent b = Inr b"
    "autonomous_intent_id H b = Inr (au_autonomous_intent_id b)"
    "\<exists>i h. b = a\<lparr>au_autonomous_intent_id := i, au_autonomous_intent_sha256 := h\<rparr>"
proof -
  obtain i x h where i: "autonomous_intent_id H a = Inr i"
    and x: "AutonomousIntent (a\<lparr>au_autonomous_intent_id := i, au_autonomous_intent_sha256 := []\<rparr>) = Inr x"
    and h: "computed_sha256 H (autonomous_intent_dump x) = Inr h"
    and b: "AutonomousIntent (x\<lparr>au_autonomous_intent_sha256 := h\<rparr>) = Inr b"
    using assms by (auto simp: autonomous_intent_with_hash_def bind_result_eq_Inr)
  have xa: "x = a\<lparr>au_autonomous_intent_id := i, au_autonomous_intent_sha256 := []\<rparr>" using x unfolding AutonomousIntent_Inr by blast
  have bx: "b = x\<lparr>au_autonomous_intent_sha256 := h\<rparr>" using b unfolding AutonomousIntent_Inr by blast
  show "autonomous_intent_has_valid_hash H b = Inr True"
    unfolding autonomous_intent_has_valid_hash_def bx by (rule autonomous_seal.sealing_is_valid [OF h])
  show "AutonomousIntent b = Inr b" using b unfolding bx AutonomousIntent_Inr by blast
  show ba: "\<exists>i h. b = a\<lparr>au_autonomous_intent_id := i, au_autonomous_intent_sha256 := h\<rparr>"
    unfolding bx xa by (intro exI [of _ i] exI [of _ h]) simp
  show "autonomous_intent_id H b = Inr (au_autonomous_intent_id b)"
    using i unfolding bx xa by (simp add: autonomous_intent_id_def)
qed

lemma intent_for_Inr:
  assumes "intent_for H q t goal = Inr a"
  shows "powerless_intent_of q a" "au_goal a = goal" "au_created_at_ms a = t" "au_expires_at_ms a = t + 60000"
    "autonomous_intent_has_valid_hash H a = Inr True" "AutonomousIntent a = Inr a"
    "autonomous_intent_id H a = Inr (au_autonomous_intent_id a)"
proof -
  let ?d = "\<lparr>au_autonomous_intent_id = ''waut_pending'', au_origin = ''SELF_WILL'', au_principal = ''life:self'',
        au_life_id = sc_life_id (wi_scope q), au_source_inquiry_id = wi_inquiry_id q,
        au_source_inquiry_sha256 = wi_inquiry_sha256 q, au_goal = goal,
        au_suggested_observation_modalities = wi_suggested_observation_modalities q, au_authority_refs = [],
        au_authorization = ''NONE'', au_may_execute_directly = False, au_requires_gateway_evaluation = True,
        au_empirical_evidence_weight_milli = 0, au_created_at_ms = t,
        au_expires_at_ms = t + 60000, au_autonomous_intent_sha256 = []\<rparr>"
  obtain d where d0: "AutonomousIntent ?d = Inr d" and d: "d = ?d" "autonomous_intent_with_hash H d = Inr a"
    using assms unfolding intent_for_def bind_result_eq_Inr AutonomousIntent_Inr by blast
  have fields: "au_goal d = goal" "au_created_at_ms d = t" "au_expires_at_ms d = t + 60000" "powerless_intent_of q d"
    by (simp_all add: d(1) powerless_intent_of_def)
  from intent_with_hash_Inr [OF d(2)] show "autonomous_intent_has_valid_hash H a = Inr True" "AutonomousIntent a = Inr a"
    "autonomous_intent_id H a = Inr (au_autonomous_intent_id a)" by blast+
  obtain i h where a: "a = d\<lparr>au_autonomous_intent_id := i, au_autonomous_intent_sha256 := h\<rparr>"
    using intent_with_hash_Inr(4) [OF d(2)] by blast
  show "powerless_intent_of q a" "au_goal a = goal" "au_created_at_ms a = t" "au_expires_at_ms a = t + 60000"
    using fields by (simp_all add: a powerless_intent_of_def)
qed

lemma decide_Inr:
  assumes "decide H upper decider q t = Inr (r, intent)"
  shows "inquiry_has_valid_hash H q = Inr True" "wi_authorization q = ''NONE''" "\<not> wi_may_execute q" "\<not> wi_may_call_tools q"
    and "decision_bound H q t r = Inr True"
    and "intent = None \<and> sw_decision r \<noteq> ustr ''ACCEPT'' \<or>
      (\<exists>a. intent = Some a \<and> sw_decision r = ustr ''ACCEPT'' \<and> intent_for H q t (text_or_empty (sw_goal r)) = Inr a)"
  using assms by (auto simp: decide_def bind_result_eq_Inr split: if_splits)

lemma decision_bound_True:
  "decision_bound H q t r = Inr True \<longleftrightarrow>
     sw_inquiry_id r = wi_inquiry_id q \<and> sw_decided_at_ms r = t \<and> is_decision (sw_decision r) \<and>
     sw_empirical_evidence_weight_milli r = 0 \<and> \<not> sw_may_authorize r \<and> \<not> sw_may_execute r \<and>
     self_will_has_valid_hash H r = Inr True"
  by (auto simp: decision_bound_def)

lemma bridge_refuses_other_inquiry:
  assumes "powerless_intent_of q a" and "wi_inquiry_id q' \<noteq> wi_inquiry_id q \<or> wi_inquiry_sha256 q' \<noteq> wi_inquiry_sha256 q \<or>
    sc_life_id (wi_scope q') \<noteq> sc_life_id (wi_scope q)"
  shows "\<exists>e. bridge_submit H factory transport w a q' = (Inl e, w)"
proof -
  have "au_source_inquiry_id a \<noteq> wi_inquiry_id q' \<or> au_source_inquiry_sha256 a \<noteq> wi_inquiry_sha256 q' \<or>
    au_life_id a \<noteq> sc_life_id (wi_scope q')" using assms by (auto simp: powerless_intent_of_def)
  then show ?thesis unfolding bridge_submit_def Let_def by (auto split: sum.splits if_splits)
qed

text \<open>C19: Self-will decides without authority.  Whatever the decider returns, what \<open>decide\<close> hands on is a sealed
  decision that names this inquiry by its id and carries this time, with one of the four verdicts, no evidence
  weight and no power to authorize or execute; an intent comes with ACCEPT and only then.  The id is shared by
  all revisions of an inquiry, so the decision alone does not bind the revision: the intent does.  It carries
  id and digest of the inquiry decided on, is sealed, identified by its content, without authority, subject to
  gateway evaluation, expires after a minute and repeats the modalities of the inquiry, and the bridge refuses
  to submit it for an inquiry with another id or another digest, without calling the gateway.\<close>

theorem self_will_decides_without_authority:
  assumes "decide H upper decider q t = Inr (r, intent)"
  shows "sw_inquiry_id r = wi_inquiry_id q \<and> sw_decided_at_ms r = t \<and> is_decision (sw_decision r) \<and>
    sw_empirical_evidence_weight_milli r = 0 \<and> \<not> sw_may_authorize r \<and> \<not> sw_may_execute r \<and>
    self_will_has_valid_hash H r = Inr True \<and> (intent \<noteq> None \<longleftrightarrow> sw_decision r = ustr ''ACCEPT'') \<and>
    (\<forall>a. intent = Some a \<longrightarrow>
       powerless_intent_of q a \<and> autonomous_intent_has_valid_hash H a = Inr True \<and>
       autonomous_intent_id H a = Inr (au_autonomous_intent_id a) \<and> Some (au_goal a) = sw_goal r \<and>
       au_created_at_ms a = t \<and> au_expires_at_ms a = t + 60000 \<and>
       (\<forall>q' factory transport (w :: 'w). wi_inquiry_id q' \<noteq> wi_inquiry_id q \<or> wi_inquiry_sha256 q' \<noteq> wi_inquiry_sha256 q \<longrightarrow>
          (\<exists>e. bridge_submit H factory transport w a q' = (Inl e, w))))"
proof -
  note d = decide_Inr [OF assms]
  have bound: "sw_inquiry_id r = wi_inquiry_id q \<and> sw_decided_at_ms r = t \<and> is_decision (sw_decision r) \<and>
    sw_empirical_evidence_weight_milli r = 0 \<and> \<not> sw_may_authorize r \<and> \<not> sw_may_execute r \<and>
    self_will_has_valid_hash H r = Inr True" using d(5) unfolding decision_bound_True .
  have each: "powerless_intent_of q a \<and> autonomous_intent_has_valid_hash H a = Inr True \<and>
       autonomous_intent_id H a = Inr (au_autonomous_intent_id a) \<and> Some (au_goal a) = sw_goal r \<and>
       au_created_at_ms a = t \<and> au_expires_at_ms a = t + 60000 \<and>
       (\<forall>q' factory transport (w :: 'w). wi_inquiry_id q' \<noteq> wi_inquiry_id q \<or> wi_inquiry_sha256 q' \<noteq> wi_inquiry_sha256 q \<longrightarrow>
          (\<exists>e. bridge_submit H factory transport w a q' = (Inl e, w)))" if "intent = Some a" for a
  proof -
    have f: "intent_for H q t (text_or_empty (sw_goal r)) = Inr a" using d(6) that by auto
    note i = intent_for_Inr [OF f]
    have "strip_text (au_goal a) \<noteq> []" using i(6) unfolding AutonomousIntent_Inr by blast
    moreover have "strip_text [] = []" by (simp add: strip_text_def strip_by_def)
    ultimately have "Some (au_goal a) = sw_goal r"
      unfolding i(2) text_or_empty_def by (cases "sw_goal r") simp_all
    moreover have "\<forall>q' factory transport (w :: 'w). wi_inquiry_id q' \<noteq> wi_inquiry_id q \<or>
        wi_inquiry_sha256 q' \<noteq> wi_inquiry_sha256 q \<longrightarrow> (\<exists>e. bridge_submit H factory transport w a q' = (Inl e, w))"
      by (intro allI impI bridge_refuses_other_inquiry [OF i(1)]) blast
    ultimately show ?thesis by (intro conjI i(1,3,4,5,7))
  qed
  have "intent \<noteq> None \<longleftrightarrow> sw_decision r = ustr ''ACCEPT''" using d(6) by blast
  then show ?thesis using bound each by (intro conjI allI impI) simp_all
qed

lemma gateway_transport_state:
  assumes "gateway_transport H e m now refs w i = (res, w')" and "w' \<noteq> w"
  obtains d where "w' = Some d" "evaluate H e i m now None None (Some refs) None = Inr d"
    "\<forall>rc. res = Inr rc \<longrightarrow> rp_status rc = receipt_status (pd_outcome d) \<and> rp_policy_decision_id rc = Some (pd_decision_id d)"
proof (cases "evaluate H e i m now None None (Some refs) None")
  case (Inl x)
  with assms show thesis by (simp add: gateway_transport_def)
next
  case (Inr d)
  with assms(1) have w: "w' = Some d" by (simp add: gateway_transport_def Let_def)
  have "\<forall>rc. res = Inr rc \<longrightarrow> rp_status rc = receipt_status (pd_outcome d) \<and> rp_policy_decision_id rc = Some (pd_decision_id d)"
    using assms(1) Inr by (auto simp: gateway_transport_def Let_def bind_result_eq_Inr)
  with w Inr show thesis by (rule that)
qed

lemma accept_receipt_Inr: "accept_receipt H i rc = Inr x \<Longrightarrow> x = rc \<and> accept_receipt H i rc = Inr rc"
  by (auto simp: accept_receipt_def Let_def bind_result_eq_Inr split: if_splits)

definition gateway_answer ::
    "(nat list \<Rightarrow> string) \<Rightarrow> policy_engine \<Rightarrow> action_impact \<Rightarrow> int \<Rightarrow> ref_item list \<Rightarrow> action_intent \<Rightarrow> policy_decision \<Rightarrow>
     action_intent_receipt result \<Rightarrow> bool" where
  "gateway_answer H e m now refs i d res \<longleftrightarrow>
     evaluate H e i m now None None (Some refs) None = Inr d \<and> scheduler_intent H i = Inr True \<and>
     (\<forall>rc. res = Inr rc \<longrightarrow> accept_receipt H i rc = Inr rc \<and> rp_status rc = receipt_status (pd_outcome d) \<and>
        rp_policy_decision_id rc = Some (pd_decision_id d))"

lemma emitter_submit_gateway:
  assumes "emitter_submit H (gateway_transport H e m now refs) w i = (res, w')" and "w' \<noteq> w"
  shows "\<exists>d. w' = Some d \<and> gateway_answer H e m now refs i d res"
proof -
  have valid: "scheduler_intent H i = Inr True"
    using assms by (auto simp: emitter_submit_def split: sum.splits if_splits)
  obtain r where tr: "gateway_transport H e m now refs w i = (r, w')" "res = bind_result r (accept_receipt H i)"
    using assms(1) valid by (auto simp: emitter_submit_def split: prod.splits)
  obtain d where d: "w' = Some d" "evaluate H e i m now None None (Some refs) None = Inr d"
    "\<forall>rc. r = Inr rc \<longrightarrow> rp_status rc = receipt_status (pd_outcome d) \<and> rp_policy_decision_id rc = Some (pd_decision_id d)"
    by (rule gateway_transport_state [OF tr(1) assms(2)])
  have "accept_receipt H i rc = Inr rc \<and> rp_status rc = receipt_status (pd_outcome d) \<and>
      rp_policy_decision_id rc = Some (pd_decision_id d)" if ret: "res = Inr rc" for rc
  proof -
    have "bind_result r (accept_receipt H i) = Inr rc" using tr(2) ret by simp
    then obtain x where "r = Inr x" "accept_receipt H i x = Inr rc" unfolding bind_result_eq_Inr by blast
    with accept_receipt_Inr [of H i x rc] d(3) show ?thesis by blast
  qed
  with d valid show ?thesis unfolding gateway_answer_def by blast
qed

lemma submit_self_will_gateway:
  assumes "submit_self_will H (gateway_transport H e m now refs) w i qid qsha = (res, w')" and "w' \<noteq> w"
  shows "\<exists>d ref. w' = Some d \<and> gateway_answer H e m now refs i d res \<and> inquiry_refs i qid qsha = [ref] \<and>
    sf_source_type ref = ''EXTERNAL_DATA'' \<and>
    \<not> list_ex (\<lambda>ref. sf_object_id ref = qid \<and> sf_source_type ref \<in> set AUTHORITATIVE_SOURCES) (ai_source_refs i)"
proof -
  have valid: "scheduler_intent H i = Inr True"
    using assms by (auto simp: submit_self_will_def split: sum.splits if_splits)
  have guards: "length (inquiry_refs i qid qsha) = 1" "sf_source_type (hd (inquiry_refs i qid qsha)) = ''EXTERNAL_DATA''"
    and plain: "\<not> list_ex (\<lambda>ref. sf_object_id ref = qid \<and> sf_source_type ref \<in> set AUTHORITATIVE_SOURCES) (ai_source_refs i)"
    and run: "emitter_submit H (gateway_transport H e m now refs) w i = (res, w')"
    using assms by (simp_all add: submit_self_will_def valid split: if_splits)
  obtain ref where ref: "inquiry_refs i qid qsha = [ref]" using guards(1) by (auto simp: length_Suc_conv)
  obtain d where "w' = Some d" "gateway_answer H e m now refs i d res" using emitter_submit_gateway [OF run assms(2)] by blast
  with ref guards(2) plain show ?thesis by (intro exI [of _ d] exI [of _ ref] conjI) simp_all
qed

lemma bridge_submit_reaches:
  assumes "bridge_submit H factory transport w a q = (res, w')" and "w' \<noteq> w"
  shows "\<exists>i. factory a q = Inr i \<and> ai_life_id i = sc_life_id (wi_scope q) \<and>
    ai_principal_scope_hash i = sc_principal_scope_hash (wi_scope q) \<and>
    submit_self_will H transport w i (wi_inquiry_id q) (wi_inquiry_sha256 q) = (res, w')"
  using assms unfolding bridge_submit_def Let_def by (auto split: sum.splits if_splits)

lemma dispatch_reaches:
  assumes "dispatch H upper decider (Some (factory, transport)) sink t w q = (res, w')" and "w' \<noteq> w"
  shows "\<exists>r a answer. decide H upper decider q t = Inr (r, Some a) \<and>
    bridge_submit H factory transport w a q = (answer, w') \<and>
    (\<forall>x. res = Inr x \<longrightarrow> (\<exists>rc. answer = Inr rc \<and> dp_gateway_receipt x = Some rc))"
proof (cases "decide H upper decider q t")
  case (Inl e)
  with assms show ?thesis by (simp add: dispatch_def)
next
  case (Inr ra)
  obtain r intent where ra: "ra = (r, intent)" by (cases ra)
  show ?thesis
  proof (cases intent)
    case None
    with assms Inr ra show ?thesis by (simp add: dispatch_def)
  next
    case (Some a)
    obtain answer v where b: "bridge_submit H factory transport w a q = (answer, v)" by fastforce
    have v: "v = w'" using assms(1) Inr ra Some b by (simp add: dispatch_def)
    have "\<exists>rc. answer = Inr rc \<and> dp_gateway_receipt x = Some rc" if "res = Inr x" for x
      using assms(1) Inr ra Some b that by (auto simp: dispatch_def bind_result_eq_Inr Let_def)
    with b v Inr ra Some show ?thesis by auto
  qed
qed

text \<open>What the gateway decides without activation and confirmation, in terms of the policy specification.\<close>

lemma gateway_verdict:
  assumes "evaluate H e i m now None None (Some refs) None = Inr d"
  obtains p where "find_permission (pe_registry e) i = Some p"
    and "receipt_status (pd_outcome d) = (if authorizes H e i p (pd_computed_risk d) now None None (Some refs) None
      then ''AUTHORIZED'' else ''REJECTED'')"
    and "\<forall>rs. normalize_source_refs refs = Inr rs \<longrightarrow> list_ex (\<lambda>ref. sf_source_type ref = ''EXTERNAL_DATA'') rs \<longrightarrow>
      pd_outcome d = REJECT"
proof -
  obtain p risk where p: "admit H e i m now = Inr p" "risk_from_action_impact H m = Inr risk"
    using evaluate_Inr [OF assms] by metis
  note out = evaluate_outcome [OF assms p]
  let ?auth = "authorizes H e i p (pd_computed_risk d) now None None (Some refs) None"
  have auth: "pd_outcome d = ALLOW \<longleftrightarrow> ?auth" using out(1,3) by simp
  have status: "receipt_status (pd_outcome d) = (if ?auth then ''AUTHORIZED'' else ''REJECTED'')"
    using auth out(2) by (auto simp: receipt_status_def)
  have untrusted: "pd_outcome d = REJECT" if "normalize_source_refs refs = Inr rs"
      "list_ex (\<lambda>ref. sf_source_type ref = ''EXTERNAL_DATA'') rs" for rs
  proof -
    have "\<not> list_all (\<lambda>r. sf_source_type r \<notin> set UNTRUSTED_SOURCE_TYPES) rs"
      using that(2) by (auto simp: list_all_iff list_ex_iff UNTRUSTED_SOURCE_TYPES_def)
    then have "\<not> ?auth" using that(1) by (simp add: authorizes_def)
    with auth out(2) show ?thesis by auto
  qed
  show thesis by (rule that [OF admit_Inr(7) [OF p(1)] status]) (use untrusted in blast)
qed

text \<open>C7: A self-will inquiry acts only by the gateway's policy.  When dispatching an inquiry makes the gateway
  decide, self-will accepted the inquiry; the intent decided on comes from the factory, is a sealed intent of
  the life scheduler, for the life and principal of the inquiry, names the inquiry at this revision exactly
  once, as external data, and under any hash never as a source that carries authority; a receipt returned is
  sealed and about this intent and decision, and its status is AUTHORIZED exactly when the specification of
  the policy engine authorizes the intent, REJECTED otherwise; and if external data, such as the inquiry
  itself, is presented as authorization, it is REJECTED.\<close>

theorem dispatch_authorized_only_by_policy:
  assumes "dispatch H upper decider (Some (factory, gateway_transport H e m now refs)) sink t None q = (res, Some d)"
  shows "\<exists>r a i ref p. decide H upper decider q t = Inr (r, Some a) \<and> sw_decision r = ustr ''ACCEPT'' \<and>
    factory a q = Inr i \<and> evaluate H e i m now None None (Some refs) None = Inr d \<and>
    scheduler_intent H i = Inr True \<and> ai_life_id i = sc_life_id (wi_scope q) \<and>
    ai_principal_scope_hash i = sc_principal_scope_hash (wi_scope q) \<and>
    inquiry_refs i (wi_inquiry_id q) (wi_inquiry_sha256 q) = [ref] \<and> sf_source_type ref = ''EXTERNAL_DATA'' \<and>
    (\<forall>x \<in> set (ai_source_refs i). sf_object_id x = wi_inquiry_id q \<longrightarrow> sf_source_type x \<notin> set AUTHORITATIVE_SOURCES) \<and>
    find_permission (pe_registry e) i = Some p \<and>
    (\<forall>x. res = Inr x \<longrightarrow> (\<exists>rc. dp_gateway_receipt x = Some rc \<and> accept_receipt H i rc = Inr rc \<and>
       rp_policy_decision_id rc = Some (pd_decision_id d) \<and>
       rp_status rc = (if authorizes H e i p (pd_computed_risk d) now None None (Some refs) None
                       then ''AUTHORIZED'' else ''REJECTED''))) \<and>
    (\<forall>rs. normalize_source_refs refs = Inr rs \<longrightarrow> list_ex (\<lambda>ref. sf_source_type ref = ''EXTERNAL_DATA'') rs \<longrightarrow>
       pd_outcome d = REJECT)"
proof -
  obtain r a answer where 1: "decide H upper decider q t = Inr (r, Some a)"
    "bridge_submit H factory (gateway_transport H e m now refs) None a q = (answer, Some d)"
    "\<forall>x. res = Inr x \<longrightarrow> (\<exists>rc. answer = Inr rc \<and> dp_gateway_receipt x = Some rc)"
    using dispatch_reaches [OF assms] by auto
  have acc: "sw_decision r = ustr ''ACCEPT''" using decide_Inr(6) [OF 1(1)] by auto
  obtain i where 2: "factory a q = Inr i" "ai_life_id i = sc_life_id (wi_scope q)"
    "ai_principal_scope_hash i = sc_principal_scope_hash (wi_scope q)"
    "submit_self_will H (gateway_transport H e m now refs) None i (wi_inquiry_id q) (wi_inquiry_sha256 q) = (answer, Some d)"
    using bridge_submit_reaches [OF 1(2)] by auto
  obtain ref where 3: "gateway_answer H e m now refs i d answer"
    "inquiry_refs i (wi_inquiry_id q) (wi_inquiry_sha256 q) = [ref]" "sf_source_type ref = ''EXTERNAL_DATA''"
    "\<not> list_ex (\<lambda>ref. sf_object_id ref = wi_inquiry_id q \<and> sf_source_type ref \<in> set AUTHORITATIVE_SOURCES) (ai_source_refs i)"
    using submit_self_will_gateway [OF 2(4)] by auto
  have plain: "\<forall>x \<in> set (ai_source_refs i). sf_object_id x = wi_inquiry_id q \<longrightarrow> sf_source_type x \<notin> set AUTHORITATIVE_SOURCES"
    using 3(4) unfolding list_ex_iff by blast
  have ev: "evaluate H e i m now None None (Some refs) None = Inr d" "scheduler_intent H i = Inr True"
    using 3(1) by (simp_all add: gateway_answer_def)
  let ?auth = "\<lambda>p. authorizes H e i p (pd_computed_risk d) now None None (Some refs) None"
  obtain p where p: "find_permission (pe_registry e) i = Some p"
    "receipt_status (pd_outcome d) = (if ?auth p then ''AUTHORIZED'' else ''REJECTED'')"
    "\<forall>rs. normalize_source_refs refs = Inr rs \<longrightarrow> list_ex (\<lambda>ref. sf_source_type ref = ''EXTERNAL_DATA'') rs \<longrightarrow>
      pd_outcome d = REJECT"
    by (rule gateway_verdict [OF ev(1)])
  have answers: "\<exists>rc. dp_gateway_receipt x = Some rc \<and> accept_receipt H i rc = Inr rc \<and>
      rp_policy_decision_id rc = Some (pd_decision_id d) \<and> rp_status rc = (if ?auth p then ''AUTHORIZED'' else ''REJECTED'')"
    if ret: "res = Inr x" for x
  proof -
    obtain rc where x: "answer = Inr rc" "dp_gateway_receipt x = Some rc" using 1(3) ret by blast
    then have "accept_receipt H i rc = Inr rc \<and> rp_status rc = receipt_status (pd_outcome d) \<and>
      rp_policy_decision_id rc = Some (pd_decision_id d)" using 3(1) unfolding gateway_answer_def by blast
    then show ?thesis unfolding p(2) using x(2) by (intro exI [of _ rc]) simp
  qed
  show ?thesis
    by (rule exI [of _ r], rule exI [of _ a], rule exI [of _ i], rule exI [of _ ref], rule exI [of _ p])
      (intro conjI 1(1) acc 2(1) 2(2) 2(3) ev(1) ev(2) 3(2) 3(3) plain p(1,3) allI impI answers)
qed


section \<open>A dispatch evaluated by hand\<close>

definition life_fact :: source_ref where
  "life_fact = hd (authorization_source_refs (''lev_'' @ hex64 (CHR ''0'')))"

definition inquiry_fact :: source_ref where
  "inquiry_fact = \<lparr>sf_source_type = ''EXTERNAL_DATA'', sf_object_id = ''winq_'' @ hex64 (CHR ''0''), sf_object_revision = 1,
     sf_sha256 = hex64 (CHR ''0''), sf_span_start = None, sf_span_end = None\<rparr>"

definition life_intent :: action_intent where
  "life_intent = sample_intent\<lparr>ai_source := ''life_scheduler'', ai_source_refs := [inquiry_fact, life_fact],
     ai_life_snapshot_revision := Some 1, ai_life_snapshot_sha256 := Some (hex64 (CHR ''0''))\<rparr>"

lemma fact_values:
  "life_fact = \<lparr>sf_source_type = ''PREAUTHORIZED_USER_FACT'', sf_object_id = ''lev_'' @ hex64 (CHR ''0''),
     sf_object_revision = 1, sf_sha256 = hex64 (CHR ''0''), sf_span_start = None, sf_span_end = None\<rparr>"
  by (simp add: life_fact_def authorization_source_refs_def)

lemma fact_order: "source_sort_key inquiry_fact < source_sort_key life_fact"
proof -
  have "''EXTERNAL_DATA'' < ''PREAUTHORIZED_USER_FACT''" by code_simp
  then show ?thesis by (simp add: source_sort_key_def inquiry_fact_def fact_values less_prod_def)
qed

lemma gateway_provenance:
  "provenance_source_refs (''lev_'' @ hex64 (CHR ''0'')) (''winq_'' @ hex64 (CHR ''0'')) (hex64 (CHR ''0'')) = [inquiry_fact, life_fact]"
  using less_imp_le [OF fact_order] less_imp_neq [OF fact_order] by (simp add: provenance_source_refs_def authorization_source_refs_def inquiry_fact_def fact_values)

lemma facts_ok: "ok (SourceRef inquiry_fact)" "ok (SourceRef life_fact)"
proof -
  have "OpaqueId (''winq_'' @ hex64 (CHR ''0''))" "OpaqueId (''lev_'' @ hex64 (CHR ''0''))" by code_simp+
  then show "ok (SourceRef inquiry_fact)" "ok (SourceRef life_fact)"
    by (simp_all add: SourceRef_def SourceRef_fields_ok_def inquiry_fact_def fact_values SourceType_def Sha256_zeros)
qed

lemma life_intent_sealed: "intent_has_valid_sha256 zero_hash life_intent = Inr True"
proof -
  have "representable (jobj (intent_dump life_intent))"
    by (simp add: intent_dump_def life_intent_def sample_intent_def inquiry_fact_def fact_values source_refs_dump_def
        source_ref_dump_def resource_envelope_dump_def binding_entry_def safe_int_def MAX_SAFE_INTEGER_def)
  from zero_hash_seal [OF this] show ?thesis
    by (simp add: intent_has_valid_sha256_def life_intent_def sample_intent_def)
qed

lemma life_intent_ok: "ActionIntent zero_hash life_intent = Inr life_intent"
proof -
  have base: "ActionIntent_fields_ok zero_hash sample_intent" using sample_intent_ok by (rule ActionIntent_fields)
  have "map source_sort_key [inquiry_fact, life_fact] = sorted_set (map source_sort_key [inquiry_fact, life_fact])"
    using less_imp_le [OF fact_order] less_imp_neq [OF fact_order] by (simp add: sorted_set_def)
  then have "ok (validate_sorted_unique_source_refs [inquiry_fact, life_fact])"
    unfolding validate_sorted_unique_source_refs_def Let_def by simp
  with base facts_ok have fields: "ActionIntent_fields_ok zero_hash life_intent"
    unfolding ActionIntent_fields_ok_def by (simp add: life_intent_def Sha256_zeros)
  have refs: "canonical_sha256 zero_hash (source_refs_dump (ai_source_refs life_intent)) = Inr (hex64 (CHR ''0''))"
    by (rule canonical_sha256_zero_hash)
      (simp add: source_refs_dump_def source_ref_dump_def life_intent_def inquiry_fact_def fact_values MAX_SAFE_INTEGER_def)
  have inv: "canonical_sha256 zero_hash (jobj (canonical_invocation life_intent)) = Inr (hex64 (CHR ''0''))"
    by (rule canonical_sha256_zero_hash) (simp add: canonical_invocation_def)
  have "validate_scope zero_hash life_intent = Inr ()"
    unfolding validate_scope_def refs inv by (simp add: life_intent_def sample_intent_def present_count_def)
  with fields show ?thesis by (simp add: ActionIntent_def)
qed

lemma life_admitted:
  "admit zero_hash sample_engine life_intent (sample_unsigned False) 1500 = Inr (sample_permission A3 [''local_write''])"
proof -
  have "find_permission (pe_registry sample_engine) life_intent = Some (sample_permission A3 [''local_write''])"
    by (simp add: find_permission_def sample_engine_def sample_registry_def life_intent_def sample_intent_def sample_permission_def)
  moreover have "im_life_id (sample_unsigned False) = ai_life_id life_intent" "im_action_id (sample_unsigned False) = ai_action_id life_intent"
    by (simp_all add: unsigned_impact_def life_intent_def)
  moreover have "set (ai_requested_side_effects life_intent) \<subseteq>
      set (ap_allowed_side_effects (sample_permission A3 [''local_write'']))"
    "ai_created_at_ms life_intent \<le> 1500" "1500 \<le> ai_expires_at_ms life_intent"
    by (simp_all add: life_intent_def sample_intent_def sample_permission_def)
  ultimately show ?thesis
    unfolding admit_def life_intent_sealed sample_impact_risk(1) by (simp add: sample_permission_sealed)
qed

lemma life_evaluated:
  "\<exists>d. evaluate zero_hash sample_engine life_intent (sample_unsigned False) 1500 None None (Some [Ref life_fact]) None = Inr d"
proof (rule evaluate_returns [OF Sha256_zero_hash _ life_admitted])
  show "well_formed_call zero_hash sample_engine life_intent (sample_unsigned False) None (Some [Ref life_fact]) None"
    unfolding well_formed_call_def
    using sample_registry_ok life_intent_ok sample_impact_ok [of False] Sha256_zeros
    by (simp add: sample_engine_def normalize_source_refs_def normalize_item_def)
qed

lemma sample_inquiry_ids:
  assumes "valid_inquiry zero_hash nfc q"
  shows "wi_inquiry_id q = ''winq_'' @ hex64 (CHR ''0'')" "wi_inquiry_sha256 q = hex64 (CHR ''0'')"
proof -
  have "derive_inquiry_id zero_hash (sc_world_scope_hash (wi_scope q)) (wi_question q) (wi_knowledge_gap_id q)
      (wi_subject_refs q) = Inr (wi_inquiry_id q)"
    using assms by (simp add: valid_inquiry_def WorldInquiry_Inr inquiry_check_Inr)
  then show "wi_inquiry_id q = ''winq_'' @ hex64 (CHR ''0'')"
    unfolding derive_inquiry_id_def by (auto simp: bind_result_eq_Inr zero_hash_def dest!: canonical_sha256_range)
  have "computed_sha256 zero_hash (world_inquiry_dump q) = Inr (wi_inquiry_sha256 q)"
    using assms by (auto simp: valid_inquiry_def inquiry_has_valid_hash_def has_valid_sha256_def bind_result_eq_Inr)
  then show "wi_inquiry_sha256 q = hex64 (CHR ''0'')"
    unfolding computed_sha256_def by (auto simp: zero_hash_def dest!: canonical_sha256_range)
qed

definition eager_decider :: "world_inquiry \<Rightarrow> decider_reply result" where
  "eager_decider q = Inr (Reply_mapping (Some (ustr ''ACCEPT'')) None (Some (ustr ''look'')))"

lemma sample_decide:
  assumes "valid_inquiry zero_hash nfc q" "inquiry_literals_ok q"
  shows "\<exists>r a. decide zero_hash (\<lambda>u. u) eager_decider q 10 = Inr (r, Some a)"
proof -
  let ?r = "\<lparr>sw_decision_id = ''swdec_'' @ hex64 (CHR ''0''), sw_inquiry_id = wi_inquiry_id q, sw_decision = ustr ''ACCEPT'',
     sw_reason_codes = [ustr ''self_will.decision''], sw_goal = Some (ustr ''look''), sw_decided_at_ms = 10,
     sw_empirical_evidence_weight_milli = 0, sw_may_authorize = False, sw_may_execute = False,
     sw_decision_sha256 = hex64 (CHR ''0'')\<rparr>"
  have strip: "strip_text (ustr ''look'') = ustr ''look''" "ustr ''look'' \<noteq> []" by code_simp+
  have acc: "is_decision (ustr ''ACCEPT'')" by (simp add: is_decision_def SelfWillDecision_def)
  have zero: "computed_sha256 zero_hash d = Inr (hex64 (CHR ''0''))" if "representable (jobj d)" for d
    using canonical_sha256_zero_hash [OF that] by (simp add: computed_sha256_def)
  have words: "representable (jtext (ustr s))" for s by (simp add: jtext_def ustr_no_surrogate)
  have small: "representable (PInt 0)" "representable (PInt 10)" "representable (PInt 60010)" by (simp_all add: MAX_SAFE_INTEGER_def)
  have r: "record_of_mapping zero_hash (\<lambda>u. u) q 10 (Some (ustr ''ACCEPT'')) None (Some (ustr ''look'')) = Inr ?r"
  proof -
    have "representable (jobj (self_will_decision_dump ?r))"
      by (simp add: self_will_decision_dump_def words small jtexts_def jsome_def del: representable.simps(3))
    then have "self_will_with_hash zero_hash (?r\<lparr>sw_decision_sha256 := []\<rparr>) = Inr ?r"
      using zero by (simp add: self_will_with_hash_def self_will_decision_dump_def)
    moreover have "representable (jobj [(''domain'', jstr ''tiangong.world.self-will-decision-id.v1''),
        (''inquiry_id'', jstr (wi_inquiry_id q)), (''decision'', jtext (ustr ''ACCEPT'')), (''reasons'', jtexts []),
        (''goal'', jsome jtext (Some (ustr ''look''))), (''decided_at_ms'', PInt 10)])"
      by (simp add: words small jtexts_def jsome_def del: representable.simps(3))
    ultimately show ?thesis
      using strip acc canonical_sha256_zero_hash
      by (simp add: record_of_mapping_def text_or_empty_def sorted_set_def)
  qed
  have sealed: "self_will_has_valid_hash zero_hash ?r = Inr True"
  proof -
    have "representable (jobj (self_will_decision_dump ?r))"
      by (simp add: self_will_decision_dump_def words small jtexts_def jsome_def del: representable.simps(3))
    from zero [OF this] show ?thesis by (simp add: self_will_has_valid_hash_def has_valid_sha256_def)
  qed
  have bound: "decision_bound zero_hash q 10 ?r = Inr True" unfolding decision_bound_True using acc sealed by simp
  obtain a where a: "intent_for zero_hash q 10 (ustr ''look'') = Inr a"
  proof -
    let ?d = "\<lparr>au_autonomous_intent_id = ''waut_pending'', au_origin = ''SELF_WILL'', au_principal = ''life:self'',
        au_life_id = sc_life_id (wi_scope q), au_source_inquiry_id = wi_inquiry_id q,
        au_source_inquiry_sha256 = wi_inquiry_sha256 q, au_goal = ustr ''look'',
        au_suggested_observation_modalities = wi_suggested_observation_modalities q, au_authority_refs = [],
        au_authorization = ''NONE'', au_may_execute_directly = False, au_requires_gateway_evaluation = True,
        au_empirical_evidence_weight_milli = 0, au_created_at_ms = 10,
        au_expires_at_ms = 10 + 60000, au_autonomous_intent_sha256 = []\<rparr>"
    have ok: "AutonomousIntent (?d\<lparr>au_autonomous_intent_id := i, au_autonomous_intent_sha256 := h\<rparr>) =
        Inr (?d\<lparr>au_autonomous_intent_id := i, au_autonomous_intent_sha256 := h\<rparr>)" for i h
      using strip by (simp add: AutonomousIntent_Inr)
    have ok0: "AutonomousIntent ?d = Inr ?d" using strip by (simp add: AutonomousIntent_Inr)
    have "representable (jobj [(''domain'', jstr ''tiangong.world.autonomous-intent-id.v1''), (''life_id'', jstr (au_life_id ?d)),
        (''source_inquiry_id'', jstr (au_source_inquiry_id ?d)), (''created_at_ms'', PInt (au_created_at_ms ?d)),
        (''goal'', jtext (au_goal ?d))])" by (simp add: words small del: representable.simps(3))
    then have i: "autonomous_intent_id zero_hash ?d = Inr (''waut_'' @ hex64 (CHR ''0''))"
      using canonical_sha256_zero_hash unfolding autonomous_intent_id_def by fastforce
    let ?x = "?d\<lparr>au_autonomous_intent_id := ''waut_'' @ hex64 (CHR ''0''), au_autonomous_intent_sha256 := []\<rparr>"
    have "representable (jobj (autonomous_intent_dump ?x))"
      by (simp add: autonomous_intent_dump_def words small del: representable.simps(3))
    note h = zero [OF this]
    have "AutonomousIntent (?x\<lparr>au_autonomous_intent_sha256 := hex64 (CHR ''0'')\<rparr>) =
        Inr (?x\<lparr>au_autonomous_intent_sha256 := hex64 (CHR ''0'')\<rparr>)" using strip by (simp add: AutonomousIntent_Inr)
    then have "autonomous_intent_with_hash zero_hash ?d = Inr (?x\<lparr>au_autonomous_intent_sha256 := hex64 (CHR ''0'')\<rparr>)"
      unfolding autonomous_intent_with_hash_def i bind_result_Inr ok h .
    with ok0 show thesis by (intro that) (simp add: intent_for_def)
  qed
  have q: "inquiry_has_valid_hash zero_hash q = Inr True" using assms(1) by (simp add: valid_inquiry_def)
  have goal: "text_or_empty (sw_goal ?r) = ustr ''look''" by (simp add: text_or_empty_def)
  have "decide zero_hash (\<lambda>u. u) eager_decider q 10 = Inr (?r, Some a)"
    unfolding decide_def q bind_result_Inr eager_decider_def decider_reply.case r bound goal a
    using assms(2) strip(2) by (simp add: inquiry_literals_ok_def)
  then show ?thesis by blast
qed

theorem self_will_decides_without_authority_witness:
  "\<exists>q r a. decide zero_hash (\<lambda>u. u) eager_decider q 10 = Inr (r, Some a) \<and> sw_decision r = ustr ''ACCEPT'' \<and>
     powerless_intent_of q a \<and> au_expires_at_ms a = 60010"
proof -
  obtain q where q: "valid_inquiry zero_hash (\<lambda>u. u) q" "inquiry_literals_ok q" using sample_inquiry_exists by (elim exE conjE)
  obtain r a where d: "decide zero_hash (\<lambda>u. u) eager_decider q 10 = Inr (r, Some a)" using sample_decide [OF q] by (elim exE)
  note s = self_will_decides_without_authority [OF d, where 'w = unit,
      THEN conjunct2, THEN conjunct2, THEN conjunct2, THEN conjunct2, THEN conjunct2, THEN conjunct2, THEN conjunct2]
  have "sw_decision r = ustr ''ACCEPT''" using s [THEN conjunct1] by simp
  moreover note a = s [THEN conjunct2, THEN spec [of _ a], THEN mp [OF _ refl]]
  have "powerless_intent_of q a" by (rule conjunct1 [OF a])
  moreover have "au_expires_at_ms a = 10 + 60000"
    by (rule a [THEN conjunct2, THEN conjunct2, THEN conjunct2, THEN conjunct2, THEN conjunct2, THEN conjunct1])
  ultimately show ?thesis using d by (intro exI conjI) simp_all
qed

theorem dispatch_authorized_only_by_policy_witness:
  "\<exists>q res d. dispatch zero_hash (\<lambda>u. u) eager_decider
       (Some (\<lambda>a q. Inr life_intent, gateway_transport zero_hash sample_engine (sample_unsigned False) 1500 [Ref life_fact]))
       None 10 None q = (res, Some d) \<and> (\<exists>p. find_permission (pe_registry sample_engine) life_intent = Some p)"
proof -
  obtain q where q: "valid_inquiry zero_hash (\<lambda>u. u) q" "inquiry_literals_ok q" "wi_scope q = inquiry_sample_scope"
    using sample_inquiry_exists by (elim exE conjE)
  note ids = sample_inquiry_ids [OF q(1)]
  obtain r a where d: "decide zero_hash (\<lambda>u. u) eager_decider q 10 = Inr (r, Some a)" using sample_decide [OF q(1,2)] by blast
  obtain x where x: "evaluate zero_hash sample_engine life_intent (sample_unsigned False) 1500 None None (Some [Ref life_fact]) None = Inr x"
    using life_evaluated by blast
  let ?tr = "gateway_transport zero_hash sample_engine (sample_unsigned False) 1500 [Ref life_fact]"
  obtain answer where tr: "?tr None life_intent = (answer, Some x)" using x by (simp add: gateway_transport_def Let_def)
  have sched: "scheduler_intent zero_hash life_intent = Inr True"
    using life_intent_sealed by (simp add: scheduler_intent_def) (simp add: life_intent_def)
  have refs: "inquiry_refs life_intent (wi_inquiry_id q) (wi_inquiry_sha256 q) = [inquiry_fact]"
    by (simp add: inquiry_refs_def life_intent_def ids inquiry_fact_def fact_values)
  have plain: "\<not> list_ex (\<lambda>ref. sf_object_id ref = wi_inquiry_id q \<and> sf_source_type ref \<in> set AUTHORITATIVE_SOURCES)
      (ai_source_refs life_intent)"
    by (simp add: life_intent_def ids inquiry_fact_def fact_values AUTHORITATIVE_SOURCES_def)
  have sub: "submit_self_will zero_hash ?tr None life_intent (wi_inquiry_id q) (wi_inquiry_sha256 q) =
      (bind_result answer (accept_receipt zero_hash life_intent), Some x)"
    using tr by (simp add: submit_self_will_def emitter_submit_def sched refs plain inquiry_fact_def)
  have f: "intent_for zero_hash q 10 (text_or_empty (sw_goal r)) = Inr a" using decide_Inr(6) [OF d] by auto
  note a = intent_for_Inr [OF f]
  have scope: "ai_life_id life_intent = sc_life_id (wi_scope q)" "ai_principal_scope_hash life_intent = sc_principal_scope_hash (wi_scope q)"
    by (simp_all add: life_intent_def sample_intent_def q(3) inquiry_sample_scope_def)
  have "inquiry_has_valid_hash zero_hash q = Inr True" using q(1) by (simp add: valid_inquiry_def)
  then have br: "bridge_submit zero_hash (\<lambda>a q. Inr life_intent) ?tr None a q =
      (bind_result answer (accept_receipt zero_hash life_intent), Some x)"
    using q(2) a(1,5) scope sub by (simp add: bridge_submit_def inquiry_literals_ok_def powerless_intent_of_def)
  obtain res where res: "dispatch zero_hash (\<lambda>u. u) eager_decider (Some (\<lambda>a q. Inr life_intent, ?tr)) None 10 None q = (res, Some x)"
    using d br by (simp add: dispatch_def)
  from dispatch_authorized_only_by_policy [OF res]
  have "\<exists>p. find_permission (pe_registry sample_engine) life_intent = Some p" by auto
  with res show ?thesis by blast
qed

end
