(* ===== verification/Active_Cognition.thy ===== *)
theory Active_Cognition
  imports Self_Will
begin

text \<open>
  The coordinator that starts and closes inquiries, \<open>src/world_understanding/active_cognition.py\<close>: the family of an
  inquiry, the closing of an open record without a result from reality, and the admission of one inquiry with
  the backoff derived from the outcomes stored for its family.  A row is a stored record with the fields these
  operations read and write.  The stored outcome is absent, a document the library does not read as an
  \<open>InquiryOutcome\<close>, or an outcome.  The store, the lock, the dispatcher, the file context of an inquiry and the
  closing from a tool result are not modelled.
\<close>

section \<open>The stored records\<close>






section \<open>Closing without a result\<close>




section \<open>Admission of one inquiry\<close>





section \<open>Closing yields a gain observation\<close>








section \<open>The backoff holds\<close>











section \<open>A backoff evaluated by hand\<close>






end
