(* ===== verification/Spec2Isabelle.thy ===== *)
theory Spec2Isabelle
  imports Prelude Canonical Payload State_Machine Rhythm Cognition_Evidence Stability Dynamics Repair_Policy
    Composition_Profile Policy_Contracts Impact Policy_Engine
    World_Contracts Known_Common Known_Set Known_Closure Known_Rules Known_Example
    Dedup_Gate Ingress Semantic_Admission Inquiry_Contracts Inquiry Self_Will Active_Cognition
begin

text \<open>
  Verification of the Tiangong gateway's decision kernel and of its world-understanding layer.

  \<^bold>\<open>The program.\<close>  Tiangong is an agent runtime.  A \<^emph>\<open>gateway\<close> (\<open>src/total_gateway\<close>) receives requests, turns
  them into action intents, decides which actions may run, drives every request, run, execution and delivery
  through a persisted state machine and, when a result fails its verification, decides whether to repair it.
  A \<^emph>\<open>world-understanding layer\<close> (\<open>src/world_understanding\<close>) beside it takes in source records, keeps what is
  known about the world with its provenance and authority, derives consequences by fixed rules, weighs
  evidence into levels of cognition and rations the work all this costs.  Both exchange immutable
  \<^emph>\<open>contracts\<close> (\<open>src/contracts\<close>): validated records whose identifiers and seals are digests of a canonical JSON
  form.  Source paths below are relative to the repository's \<open>src/\<close> directory.

  \<^bold>\<open>How the parts interact, and which theory models which.\<close>
  \<^item> \<open>Prelude\<close>: exceptions as values (\<open>py_error\<close>, \<open>'a result\<close>), the constrained strings of \<open>contracts/models.py\<close>,
    milli arithmetic, association lists for dicts.
  \<^item> \<open>Canonical\<close>, \<open>Payload\<close>: \<open>contracts/canonical.py\<close>.  Every identifier and seal below is \<open>canonical_sha256\<close> of a
    payload.  The encoding is injective up to normal form; \<open>Payload\<close> turns this into what a digest determines,
    and the locales \<open>sealed_record\<close> and \<open>sealed_contract\<close> state it once for all the contract classes, each of
    which interprets one of them.
  \<^item> \<open>State_Machine\<close>: \<open>contracts/state_machine.py\<close>.  \<open>apply_transition\<close> is the only operation that changes a
    snapshot.  Runs of it keep the snapshot well-formed, advance the revision by one, accept no event twice and
    never leave a terminal state; an execution that ends with a reported side effect is never run again; the
    aggregate of a request claims completion exactly when every part of it succeeded.
  \<^item> \<open>Composition_Profile\<close>, \<open>Policy_Contracts\<close>, \<open>Impact\<close>, \<open>Policy_Engine\<close>: \<open>contracts/composition_profile.py\<close>,
    \<open>contracts/policy.py\<close>, parts of \<open>contracts/execution.py\<close> and \<open>contracts/agency.py\<close>,
    \<open>total_gateway/impact_evaluator.py\<close> and \<open>total_gateway/policy_engine.py\<close>.  The caller computes the impact of an
    intent (\<open>compute_action_impact\<close>) and passes both to \<open>evaluate\<close>.  Every dimension of the impact
    is the largest of the caller's value and the floors that apply, and the class follows from them; the engine implements an abstract specification of its outcome (\<open>policy_engine_refines_specification\<close>);
    below, both together keep sovereign assets out of reach.
  \<^item> \<open>Repair_Policy\<close>: \<open>total_gateway/verification_repair_policy.py\<close> and the decision loop of
    \<open>total_gateway/verification_repair_coordinator.py\<close>.  Repair is scheduled exactly within every budget, also
    over a whole round of failed entries.
  \<^item> \<open>Rhythm\<close>: \<open>world_understanding/common/budgets.py\<close>, \<open>event.py\<close>, \<open>rhythm.py\<close>.  The plane through which all
    background work is submitted: admission against a budget with a reserve for interactive work.  Over any
    sequence of calls it never overcommits, keeps the reserve and drains the interactive queue.  The locale
    \<open>reserve_ledger\<close> is what its clients rely on.
  \<^item> \<open>Cognition_Evidence\<close>, \<open>Stability\<close>: \<open>contracts/cognition_evidence.py\<close>, \<open>world_understanding/cognition/stability.py\<close>.
    The union-find that groups evidence by lineage computes the connected components, so that evidence of one
    lineage never counts as a quorum; evidence without authority gives no support.
  \<^item> \<open>Dynamics\<close>: \<open>world_understanding/dynamics/\<close>, the feedback controllers over telemetry, reports and the plane.
  \<^item> \<open>Semantic_Admission\<close>: \<open>world_understanding/semantic/admission.py\<close> with the telemetry gate in front of it.  Semantic
    work reaches the plane only through every gate, and the integer scores stay within a bounded error of the
    rational ones.
  \<^item> \<open>World_Contracts\<close>, \<open>Known_Common\<close>: \<open>contracts/world_understanding/\<close> and \<open>world_understanding/common/\<close> with
    \<open>world_understanding/scope_guard.py\<close>.  Scopes, sources, the three times, observability, world cuts,
    provenance, the scoped transaction and invalidation (a worklist that dirties exactly what is reachable).
  \<^item> \<open>Known_Set\<close>, \<open>Known_Closure\<close>, \<open>Known_Rules\<close>, \<open>Known_Example\<close>: \<open>world_understanding/known/\<close>.  The indexed set
    refines the sequence of its records (locale \<open>record_store\<close>); the closure engine runs every rule to a fixed
    point.  The locale \<open>rule_base\<close> states what the engine relies on, \<open>saturating_rule\<close> extends it by a rule whose
    conclusions depend on single records; both are interpreted on the program's eight rules.  Derived records
    validate together with their derivations and edges, never carry more authority than their parents, the loop terminates and is saturated, and the
    call search finds exactly the reachable targets, each with its least path.
  \<^item> \<open>Dedup_Gate\<close>, \<open>Ingress\<close>: \<open>world_understanding/ingress/\<close>, \<open>world_understanding/facade.py\<close>.  The gate is linearizable
    under arbitrary interleaving of its critical sections, runs an operation with success at most once per key
    and loses no wake-up: waiting calls sleep until a leaving call notifies them, and all calls end unless an
    operation is left by an exception outside \<open>Exception\<close>; the ingress built on it (locale \<open>once_gate\<close>) answers every later submission with the
    first receipt and hands over only records within the scope of their envelope.
  \<^item> \<open>Inquiry_Contracts\<close>, \<open>Inquiry\<close>: \<open>world_understanding/inquiry/\<close> with its contracts.  A materialized world state
    yields knowledge gaps, a gap a curiosity, both an inquiry; every object built passes its validators, claims
    no authority and suggests only observations of a fixed list.  Admission charges the budget ledger of
    \<open>Rhythm\<close> through its locale: a call is charged exactly when it passes every guard, no inquiry is charged
    twice and the interactive reserve stays untouched.
  \<^item> \<open>Self_Will\<close>: \<open>inquiry/self_will_integration.py\<close>, \<open>inquiry/inquiry_outcome.py\<close>, \<open>life_service/action_intents.py\<close> and
    the in-process transport of \<open>total_gateway/orchestration.py\<close>.  This is where the two halves of the program
    meet: an accepted inquiry becomes an action intent that the policy engine of \<open>Policy_Engine\<close> decides on.
    The decision names the inquiry, the intent is bound to one revision of it and has no authority; the receipt
    says AUTHORIZED exactly when the policy specification does.
  \<^item> \<open>Active_Cognition\<close>: part of \<open>world_understanding/active_cognition.py\<close>.  The coordinator closes records without
    a result and admits inquiries with the backoff derived from stored outcomes: a fruitless outcome holds
    every inquiry of its family back for a delay that doubles up to an hour.

  \<^bold>\<open>Conventions.\<close>  A class is a record and its constructor a function that returns the record or the exception the
  validators raise, in the order the validators run.  A method of an object with mutable fields takes the
  object and returns it updated, together with the result; where the code leaves a partly updated object
  behind when it raises, so does the model.  Python integers are \<open>int\<close>, identifiers are \<open>string\<close>, free text is a
  list of code points, a dict is an association list in insertion order (or a total function when its keys
  are fixed), a set is a list without repetition or a \<open>set\<close>.

  \<^bold>\<open>Parameters.\<close>  Code that is not part of the repository is an argument: \<open>H\<close> (SHA-256 as a hexadecimal digest;
  the hypotheses on it are that it gives 64 lower-case hexadecimal characters and, where identity matters,
  that it does not collide on the two inputs concerned), \<open>nfc\<close> (Unicode normalisation), \<open>vtext\<close> (the text of a
  validation failure), \<open>value_error\<close> (which declared exception classes derive from \<open>ValueError\<close>), and the
  callables that the program receives from its caller: source compilers, handlers, snapshot providers,
  deciders, intent factories.  \<open>upper\<close> is \<open>str.upper\<close> (the Unicode database).  Nothing is assumed of the callables.

  \<^bold>\<open>Loops.\<close>  Loops over finite data are recursive functions, those with a worklist with a termination proof.  The
  union-find loop may a priori run forever and is a \<open>partial_function\<close> into \<open>option\<close>; it is proved to return.
  The rounds of the closure engine are bounded by \<open>max_rounds\<close> in the code itself, where running out raises;
  \<open>closure_terminates\<close> gives a number of rounds that is always enough.  In \<open>Dedup_Gate\<close> a
  waiting call sleeps until it is notified; for one thread, \<open>None\<close> of \<open>run_once\<close> is a wait that never ends.

  \<^bold>\<open>What modelling showed.\<close>  These lemmas exhibit behaviour that the code does not mean:
  \<open>aggregate_retry_phase_mismatch\<close> (\<open>contracts/state_machine.py\<close>: recommended state and displayed phase disagree),
  \<open>admitted_background_item_dropped\<close> and \<open>admitted_event_counted_twice\<close> (\<open>common/rhythm.py\<close>),
  \<open>contradictory_watermark_ignored\<close> (\<open>common/world_cut.py\<close>), \<open>second_principal_not_ingested\<close>
  (\<open>contracts/world_understanding/ingress.py\<close>: the deduplication key leaves out the principal), \<open>torn_key_blocks\<close>
  (\<open>ingress/dedup.py\<close>: a \<open>BaseException\<close> leaves the key in flight for ever) and \<open>start_flag_not_remembered\<close>
  (\<open>total_gateway/orchestration.py\<close>: the side effect reported at the start of a run does not prevent its
  retry).  \<open>known/freshness.py\<close> tests only the end of a validity window, so a record is reusable before its
  window starts.

  \<^bold>\<open>Not modelled.\<close>  The SQLite stores and their transactions (\<open>total_gateway/store.py\<close>, \<open>life_service/store.py\<close>, the
  world stores): their behaviour is that of SQL text run by the database.  The orchestration, servers,
  runtimes, model clients, tools and user interfaces, which are input, output and process control around
  the components above.  \<open>dynamics/hazard.py\<close>, an exponential in 50-digit decimal arithmetic.  The
  derivation of impact inputs from argument text and the file system, which only chooses arguments of
  \<open>compute_action_impact\<close>.  The copies of the services under \<open>app/\<close> and the word lists.  The remaining contract
  classes are declarations of data that the modelled components do not exchange.
\<close>

section \<open>Impact and policy together\<close>

text \<open>C6: The sovereign boundary holds end to end.  When the gateway computes the impact of an action that
  touches identity, soul, memory keys, policy, core code or a credential, and the policy engine evaluates the
  intent with that impact, the decision is REJECT with class A5, whatever permission, provenance, Skill
  activation, composition binding or confirmation is presented.\<close>

theorem sovereign_action_never_allowed:
  assumes impact: "compute_action_impact H i p x created_at_ms = Inr m" and sovereign: "sovereign_inputs x"
    and decision: "evaluate H e i m decided_at_ms confirmation activation source_refs expected = Inr d"
  shows "pd_outcome d = REJECT \<and> pd_computed_risk d = A5 \<and> ''policy.a5_forbidden'' \<in> set (pd_reason_codes d)"
proof -
  have risk: "risk_from_action_impact H m = Inr A5"
    using risk_of_computed_impact [OF impact] sovereign_inputs_A5 [OF impact sovereign] by simp
  obtain q where q: "admit H e i m decided_at_ms = Inr q" using evaluate_Inr [OF decision] by metis
  note ev = evaluate_outcome [OF decision q risk]
  have a5: "max (ap_effective_risk q) A5 = A5" by (simp add: max_def)
  then have "pd_outcome d \<noteq> ALLOW" using ev(3) by (simp add: authorizes_def)
  with ev(1,2,4) a5 show ?thesis by auto
qed

theorem sovereign_action_never_allowed_witness:
  "\<exists>d. evaluate zero_hash sample_engine sample_intent (sample_unsigned True) 1500 None None sample_refs None = Inr d \<and>
     pd_outcome d = REJECT"
proof -
  obtain d where d: "evaluate zero_hash sample_engine sample_intent (sample_unsigned True) 1500 None None sample_refs None = Inr d"
    using evaluate_returns [OF Sha256_zero_hash sample_call_well_formed sample_admitted] by blast
  have "sovereign_inputs (sample_inputs True)" by (simp add: sovereign_inputs_def sample_inputs_def)
  from sovereign_action_never_allowed [OF sample_impact [of True, unfolded sample_impact_unsigned] this d] d
  show ?thesis by blast
qed

end
